(* ===== verification/Prelude.thy ===== *)
theory Prelude
  imports Main "HOL-Library.Word" "HOL-Library.Sublist"
begin

text \<open>
  Shared vocabulary of the development: bytes and little-endian integers as the ARM target
  stores them, block copies into byte arrays, C strings (\<open>char list\<close> without the terminating
  NUL), the decimal conversions of \<^verbatim>\<open>sprintf\<close> / \<^verbatim>\<open>atoi\<close>, and \<^verbatim>\<open>strstr\<close>.
  The collection \<open>mem_simps\<close> holds the rules for reading a byte array after a block copy.
\<close>

unbundle bit_operations_syntax

named_theorems mem_simps

type_synonym byte = "8 word"
type_synonym cuint = "32 word"

section \<open>Block reads and writes\<close>

definition slice :: "nat \<Rightarrow> nat \<Rightarrow> 'a list \<Rightarrow> 'a list" where
  "slice off n m = take n (drop off m)"

definition put_at :: "nat \<Rightarrow> 'a list \<Rightarrow> 'a list \<Rightarrow> 'a list" where
  "put_at off bs m = take off m @ bs @ drop (off + length bs) m"

lemma length_slice [mem_simps]: "off + n \<le> length m \<Longrightarrow> length (slice off n m) = n"
  by (simp add: slice_def)

lemma length_put_at [mem_simps]:
  "off + length bs \<le> length m \<Longrightarrow> length (put_at off bs m) = length m"
  by (simp add: put_at_def)

lemma slice_put_at_same [mem_simps]:
  "off + length bs \<le> length m \<Longrightarrow> n = length bs \<Longrightarrow> slice off n (put_at off bs m) = bs"
  by (simp add: slice_def put_at_def)

lemma slice_put_at_before:
  "a + n \<le> off \<Longrightarrow> off + length bs \<le> length m \<Longrightarrow> slice a n (put_at off bs m) = slice a n m"
  by (simp add: slice_def put_at_def min_def take_drop)

lemma slice_put_at_after:
  assumes "off + length bs \<le> a" "off + length bs \<le> length m"
  shows "slice a n (put_at off bs m) = slice a n m"
proof -
  have "drop a (put_at off bs m) = drop (a - off - length bs) (drop (off + length bs) m)"
    using assms by (simp add: put_at_def)
  also have "\<dots> = drop a m"
    using assms by (simp add: add.commute)
  finally show ?thesis by (simp add: slice_def)
qed

lemma slice_put_at_disjoint [mem_simps]:
  "a + n \<le> off \<or> off + length bs \<le> a \<Longrightarrow> off + length bs \<le> length m \<Longrightarrow>
   slice a n (put_at off bs m) = slice a n m"
  by (auto simp: slice_put_at_before slice_put_at_after)

lemma slice_slice [mem_simps]: "b + k \<le> n \<Longrightarrow> slice b k (slice a n m) = slice (a + b) k m"
  by (simp add: slice_def drop_take min_def add.commute)

lemma slice_append_left [mem_simps]:
  "a + n \<le> length xs \<Longrightarrow> slice a n (xs @ ys) = slice a n xs"
  by (simp add: slice_def)

lemma slice_append_right [mem_simps]:
  "length xs \<le> a \<Longrightarrow> slice a n (xs @ ys) = slice (a - length xs) n ys"
  by (simp add: slice_def)

lemma slice_whole: "slice 0 (length m) m = m"
  by (simp add: slice_def)

lemma slice_add: "slice a (n + k) m = slice a n m @ slice (a + n) k m"
  unfolding slice_def take_add by (simp add: add.commute)

lemma put_at_Cons: "c < length m \<Longrightarrow> put_at (Suc c) xs (m[c := x]) = put_at c (x # xs) m"
  by (simp add: put_at_def take_Suc_conv_app_nth)

section \<open>Little-endian integers\<close>

definition le32 :: "cuint \<Rightarrow> byte list" where
  "le32 w = [ucast w, ucast (drop_bit 8 w), ucast (drop_bit 16 w), ucast (drop_bit 24 w)]"

definition le16 :: "16 word \<Rightarrow> byte list" where
  "le16 w = [ucast w, ucast (drop_bit 8 w)]"

fun get32 :: "byte list \<Rightarrow> cuint" where
  "get32 (a # b # c # d # _) =
     ucast a OR push_bit 8 (ucast b) OR push_bit 16 (ucast c) OR push_bit 24 (ucast d)"
| "get32 _ = 0"

fun get16 :: "byte list \<Rightarrow> 16 word" where
  "get16 (a # b # _) = ucast a OR push_bit 8 (ucast b)"
| "get16 _ = 0"

lemma length_le32 [simp]: "length (le32 w) = 4"
  by (simp add: le32_def)

lemma length_le16 [simp]: "length (le16 w) = 2"
  by (simp add: le16_def)

lemma get32_le32_app [simp]: "get32 (le32 w @ rest) = w"
proof -
  have "get32 (le32 w @ rest) =
      ucast (ucast w :: byte) OR push_bit 8 (ucast (ucast (drop_bit 8 w) :: byte)) OR
      push_bit 16 (ucast (ucast (drop_bit 16 w) :: byte)) OR
      push_bit 24 (ucast (ucast (drop_bit 24 w) :: byte))"
    by (simp add: le32_def)
  also have "\<dots> = w"
  proof (rule bit_word_eqI)
    fix n assume "n < LENGTH(32)"
    then consider "n < 8" | "8 \<le> n" "n < 16" | "16 \<le> n" "n < 24" | "24 \<le> n" "n < 32"
      by fastforce
    then show "bit (ucast (ucast w :: byte) OR push_bit 8 (ucast (ucast (drop_bit 8 w) :: byte)) OR
      push_bit 16 (ucast (ucast (drop_bit 16 w) :: byte)) OR
      push_bit 24 (ucast (ucast (drop_bit 24 w) :: byte)) :: cuint) n = bit w n"
      by cases (auto simp: bit_simps)
  qed
  finally show ?thesis .
qed

lemma get32_le32 [simp]: "get32 (le32 w) = w"
  using get32_le32_app [of w "[]"] by simp

lemma get16_le16_app [simp]: "get16 (le16 w @ rest) = w"
proof -
  have "get16 (le16 w @ rest) =
      ucast (ucast w :: byte) OR push_bit 8 (ucast (ucast (drop_bit 8 w) :: byte))"
    by (simp add: le16_def)
  also have "\<dots> = w"
    by (rule bit_word_eqI) (auto simp: bit_simps not_less not_le)
  finally show ?thesis .
qed

lemma get16_le16 [simp]: "get16 (le16 w) = w"
  using get16_le16_app [of w "[]"] by simp

definition le64 :: "64 word \<Rightarrow> byte list" where
  "le64 w = le32 (ucast w) @ le32 (ucast (drop_bit 32 w))"

definition get64 :: "byte list \<Rightarrow> 64 word" where
  "get64 bs = ucast (get32 bs) OR push_bit 32 (ucast (get32 (drop 4 bs)))"

lemma length_le64 [simp]: "length (le64 w) = 8"
  by (simp add: le64_def)

lemma get64_le64_app [simp]: "get64 (le64 w @ rest) = w"
proof -
  have "get64 (le64 w @ rest) = ucast (ucast w :: cuint) OR push_bit 32 (ucast (ucast (drop_bit 32 w) :: cuint))"
    by (simp add: get64_def le64_def)
  also have "\<dots> = w"
    by (rule bit_word_eqI) (auto simp: bit_simps not_less not_le)
  finally show ?thesis .
qed

lemma get64_le64 [simp]: "get64 (le64 w) = w"
  using get64_le64_app [of w "[]"] by simp

text \<open>A C \<^verbatim>\<open>int\<close> stored in four bytes, and read back as a signed value.\<close>

definition le_int :: "int \<Rightarrow> byte list" where
  "le_int i = le32 (word_of_int i)"

definition get_int :: "byte list \<Rightarrow> int" where
  "get_int bs = sint (get32 bs)"

definition in_int32 :: "int \<Rightarrow> bool" where
  "in_int32 i \<longleftrightarrow> - (2 ^ 31) \<le> i \<and> i < 2 ^ 31"

lemma length_le_int [simp]: "length (le_int i) = 4"
  by (simp add: le_int_def)

lemma sint_of_int32: "in_int32 i \<Longrightarrow> sint (word_of_int i :: cuint) = i"
  by (simp add: in_int32_def sint_sbintrunc' signed_take_bit_int_eq_self)

lemma get_int_le_int [simp]: "in_int32 i \<Longrightarrow> get_int (le_int i @ rest) = i"
  by (simp add: get_int_def le_int_def sint_of_int32)

section \<open>C integer division\<close>

text \<open>C division truncates towards zero.\<close>

definition cdiv :: "int \<Rightarrow> int \<Rightarrow> int" where
  "cdiv a b = sgn a * sgn b * (\<bar>a\<bar> div \<bar>b\<bar>)"

definition cmod :: "int \<Rightarrow> int \<Rightarrow> int" where
  "cmod a b = a - b * cdiv a b"

lemma cdiv_nonneg: "0 \<le> a \<Longrightarrow> 0 < b \<Longrightarrow> cdiv a b = a div b"
  by (cases "a = 0") (simp_all add: cdiv_def)

lemma cmod_nonneg: "0 \<le> a \<Longrightarrow> 0 < b \<Longrightarrow> cmod a b = a mod b"
  by (simp add: cmod_def cdiv_nonneg minus_mult_div_eq_mod)

section \<open>Decimal strings\<close>

definition is_digit_char :: "char \<Rightarrow> bool" where
  "is_digit_char c \<longleftrightarrow> 48 \<le> (of_char c :: nat) \<and> (of_char c :: nat) \<le> 57"

lemma dot_no_digit [simp]: "\<not> is_digit_char (CHR ''.'')"
  by (simp add: is_digit_char_def)

definition digit_char :: "nat \<Rightarrow> char" where
  "digit_char d = char_of (48 + d)"

definition digit_val :: "char \<Rightarrow> nat" where
  "digit_val c = of_char c - 48"

lemma digit_char_props [simp]:
  "d < 10 \<Longrightarrow> is_digit_char (digit_char d)"
  "d < 10 \<Longrightarrow> digit_val (digit_char d) = d"
  by (simp_all add: is_digit_char_def digit_char_def digit_val_def)

fun show_nat :: "nat \<Rightarrow> string" where
  "show_nat n = (if n < 10 then [digit_char n] else show_nat (n div 10) @ [digit_char (n mod 10)])"

declare show_nat.simps [simp del]

text \<open>\<^verbatim>\<open>%0wu\<close>: at least \<open>w\<close> digits, padded with zeros on the left.\<close>

definition pad0 :: "nat \<Rightarrow> nat \<Rightarrow> string" where
  "pad0 w n = replicate (w - length (show_nat n)) (CHR ''0'') @ show_nat n"

definition show_int :: "int \<Rightarrow> string" where
  "show_int i = (if i < 0 then CHR ''-'' # show_nat (nat (- i)) else show_nat (nat i))"

fun digits_acc :: "nat \<Rightarrow> string \<Rightarrow> nat" where
  "digits_acc acc [] = acc"
| "digits_acc acc (c # cs) =
     (if is_digit_char c then digits_acc (acc * 10 + digit_val c) cs else acc)"

definition is_space_char :: "char \<Rightarrow> bool" where
  "is_space_char c \<longleftrightarrow> (of_char c :: nat) = 32 \<or> (9 \<le> (of_char c :: nat) \<and> (of_char c :: nat) \<le> 13)"

text \<open>
  \<^verbatim>\<open>atoi\<close> / \<^verbatim>\<open>atoll\<close>: skip white space, an optional sign, then as many digits as there
  are; 0 where there is none. A value that does not fit the C type is undefined there.
\<close>

definition atoi :: "string \<Rightarrow> int" where
  "atoi s = (case dropWhile is_space_char s of
       [] \<Rightarrow> 0
     | c # cs \<Rightarrow> if c = CHR ''-'' then - int (digits_acc 0 cs)
                 else if c = CHR ''+'' then int (digits_acc 0 cs)
                 else int (digits_acc 0 (c # cs)))"

lemma digits_acc_append:
  "\<forall>c \<in> set xs. is_digit_char c \<Longrightarrow> digits_acc acc (xs @ ys) = digits_acc (digits_acc acc xs) ys"
  by (induction xs arbitrary: acc) auto

lemma set_show_nat: "c \<in> set (show_nat n) \<Longrightarrow> is_digit_char c"
  by (induction n rule: show_nat.induct) (subst (asm) (2) show_nat.simps, auto split: if_splits)

lemma show_nat_nonempty [simp]: "show_nat n \<noteq> []" "length (show_nat n) \<noteq> 0"
  by (subst show_nat.simps, simp)+

lemma digits_acc_show_nat: "digits_acc acc (show_nat n) = acc * 10 ^ length (show_nat n) + n"
proof (induction n arbitrary: acc rule: show_nat.induct)
  case (1 n)
  show ?case
  proof (cases "n < 10")
    case True
    then show ?thesis by (subst (1 2) show_nat.simps) simp
  next
    case False
    then have IH: "\<And>acc. digits_acc acc (show_nat (n div 10)) =
        acc * 10 ^ length (show_nat (n div 10)) + n div 10"
      using "1.IH" by blast
    show ?thesis
      using False
      by (subst (1 2) show_nat.simps)
        (simp add: digits_acc_append set_show_nat IH algebra_simps)
  qed
qed

lemma digits_acc_zeros [simp]: "digits_acc 0 (replicate k (CHR ''0'') @ xs) = digits_acc 0 xs"
  by (induction k) (simp_all add: is_digit_char_def digit_val_def)

lemma set_pad0: "c \<in> set (pad0 w n) \<Longrightarrow> is_digit_char c"
  by (auto simp: pad0_def is_digit_char_def dest!: set_show_nat [unfolded is_digit_char_def])

lemma digits_acc_pad0 [simp]: "digits_acc 0 (pad0 w n) = n"
  by (simp add: pad0_def digits_acc_show_nat)

lemma digit_not_space: "is_digit_char c \<Longrightarrow> \<not> is_space_char c \<and> c \<noteq> CHR ''-'' \<and> c \<noteq> CHR ''+''"
  by (auto simp: is_digit_char_def is_space_char_def)

lemma atoi_digits:
  assumes "xs \<noteq> []" "\<forall>c \<in> set xs. is_digit_char c"
  shows "atoi xs = int (digits_acc 0 xs)"
proof (cases xs)
  case Nil
  then show ?thesis using assms by simp
next
  case (Cons c cs)
  then have "\<not> is_space_char c" "c \<noteq> CHR ''-''" "c \<noteq> CHR ''+''"
    using assms digit_not_space by auto
  then show ?thesis using Cons by (simp add: atoi_def)
qed

lemma pad0_nonempty [simp]: "pad0 w n \<noteq> []"
  by (simp add: pad0_def)

lemma atoi_pad0 [simp]: "atoi (pad0 w n) = int n"
  by (simp add: atoi_digits set_pad0)

lemma atoi_show_nat [simp]: "atoi (show_nat n) = int n"
  by (simp add: atoi_digits set_show_nat digits_acc_show_nat)

lemma length_show_nat_le: "n < 10 ^ k \<Longrightarrow> 0 < k \<Longrightarrow> length (show_nat n) \<le> k"
proof (induction n arbitrary: k rule: show_nat.induct)
  case (1 n)
  show ?case
  proof (cases "n < 10")
    case True
    then show ?thesis using "1.prems" by (subst show_nat.simps) simp
  next
    case False
    with "1.prems" obtain j where k: "k = Suc j" and "0 < j"
      by (cases k; cases "k = 1") auto
    moreover from "1.prems" k have "n div 10 < 10 ^ j" by (simp add: less_mult_imp_div_less mult.commute)
    ultimately have "length (show_nat (n div 10)) \<le> j" using "1.IH" False by blast
    then show ?thesis using False k by (subst show_nat.simps) simp
  qed
qed

lemma length_pad0: "n < 10 ^ w \<Longrightarrow> 0 < w \<Longrightarrow> length (pad0 w n) = w"
  using length_show_nat_le [of n w] by (simp add: pad0_def)

lemma digit_char_val: "is_digit_char c \<Longrightarrow> digit_char (digit_val c) = c"
  by (simp add: is_digit_char_def digit_char_def digit_val_def)

lemma digit_val_less: "is_digit_char c \<Longrightarrow> digit_val c < 10"
  by (auto simp: is_digit_char_def digit_val_def)

lemma digits_acc_snoc:
  "\<forall>c \<in> set xs. is_digit_char c \<Longrightarrow> is_digit_char d \<Longrightarrow>
   digits_acc acc (xs @ [d]) = digits_acc acc xs * 10 + digit_val d"
  by (simp add: digits_acc_append)

lemma digits_acc_ge: "acc \<le> digits_acc acc xs"
proof (induction xs arbitrary: acc)
  case (Cons x xs)
  have "acc \<le> acc * 10 + digit_val x" by simp
  also have "\<dots> \<le> digits_acc (acc * 10 + digit_val x) xs" by (rule Cons.IH)
  finally show ?case by simp
qed simp

lemma char_of_48: "char_of (48 :: nat) = CHR ''0''"
  by code_simp

lemma digits_acc_pos:
  assumes "xs \<noteq> []" "is_digit_char (hd xs)" "hd xs \<noteq> CHR ''0''"
  shows "0 < digits_acc 0 xs"
proof -
  obtain c cs where xs: "xs = c # cs" using assms(1) by (cases xs) auto
  have "digit_val c \<noteq> 0"
  proof
    assume "digit_val c = 0"
    then have "c = digit_char 0" using assms(2) xs digit_char_val [of c] by simp
    then show False using assms(3) xs by (simp add: digit_char_def char_of_48)
  qed
  then show ?thesis
    using assms(2) xs digits_acc_ge [of "digit_val c" cs] by simp
qed

text \<open>A digit string without leading zero is what \<^verbatim>\<open>%u\<close> prints for its value.\<close>

lemma show_nat_digits:
  "xs \<noteq> [] \<Longrightarrow> \<forall>c \<in> set xs. is_digit_char c \<Longrightarrow> hd xs \<noteq> CHR ''0'' \<Longrightarrow> show_nat (digits_acc 0 xs) = xs"
proof (induction xs rule: rev_induct)
  case Nil
  then show ?case by simp
next
  case (snoc d xs)
  show ?case
  proof (cases "xs = []")
    case True
    then show ?thesis
      using snoc.prems by (subst show_nat.simps) (simp add: digit_val_less digit_char_val)
  next
    case False
    have v: "digits_acc 0 (xs @ [d]) = digits_acc 0 xs * 10 + digit_val d"
      using snoc.prems by (simp add: digits_acc_snoc)
    have pos: "0 < digits_acc 0 xs"
      using digits_acc_pos False snoc.prems by simp
    have IH: "show_nat (digits_acc 0 xs) = xs"
      using snoc False by simp
    have d: "digit_val d < 10" using snoc.prems digit_val_less by simp
    have "show_nat (digits_acc 0 xs * 10 + digit_val d) =
        show_nat (digits_acc 0 xs) @ [digit_char (digit_val d)]"
      using pos d by (subst show_nat.simps) simp
    then show ?thesis using v IH snoc.prems by (simp add: digit_char_val)
  qed
qed

section \<open>Substrings\<close>

text \<open>\<^verbatim>\<open>strstr(s, pat)\<close>: the offset of the first occurrence.\<close>

fun strstr :: "string \<Rightarrow> string \<Rightarrow> nat option" where
  "strstr [] pat = (if pat = [] then Some 0 else None)"
| "strstr (c # cs) pat =
     (if take (length pat) (c # cs) = pat then Some 0 else map_option Suc (strstr cs pat))"

lemma strstr_Some:
  "strstr s pat = Some i \<Longrightarrow> i \<le> length s \<and> take (length pat) (drop i s) = pat"
  by (induction s arbitrary: i) (auto split: if_splits)

lemma strstr_None: "strstr s pat = None \<longleftrightarrow> (\<forall>i. take (length pat) (drop i s) \<noteq> pat)"
proof (induction s)
  case Nil
  then show ?case by auto
next
  case (Cons c cs)
  show ?case
  proof
    assume "strstr (c # cs) pat = None"
    with Cons have "take (length pat) (c # cs) \<noteq> pat" "\<forall>i. take (length pat) (drop i cs) \<noteq> pat"
      by (auto split: if_splits)
    then show "\<forall>i. take (length pat) (drop i (c # cs)) \<noteq> pat"
      by (auto simp: drop_Cons split: nat.splits)
  next
    assume a: "\<forall>i. take (length pat) (drop i (c # cs)) \<noteq> pat"
    have "take (length pat) (c # cs) \<noteq> pat" using a [rule_format, of 0] by simp
    moreover have "\<forall>i. take (length pat) (drop i cs) \<noteq> pat"
      using a by (metis drop_Suc_Cons)
    ultimately show "strstr (c # cs) pat = None" using Cons by simp
  qed
qed


section \<open>Cursors\<close>

text \<open>
  A cursor hands out the items of a sequence one by one. Providers give the step, the invariant
  and the sequence that is still to come; clients get that draining the cursor yields exactly it.
\<close>

fun drain :: "('s \<Rightarrow> ('a \<times> 's) option) \<Rightarrow> nat \<Rightarrow> 's \<Rightarrow> 'a list" where
  "drain step 0 s = []"
| "drain step (Suc n) s = (case step s of None \<Rightarrow> [] | Some (x, s') \<Rightarrow> x # drain step n s')"

locale cursor =
  fixes inv :: "'s \<Rightarrow> bool" and todo :: "'s \<Rightarrow> 'a list" and step :: "'s \<Rightarrow> ('a \<times> 's) option"
  assumes step_end: "inv s \<Longrightarrow> step s = None \<Longrightarrow> todo s = []"
    and step_next: "inv s \<Longrightarrow> step s = Some (x, s') \<Longrightarrow> inv s' \<and> todo s = x # todo s'"
begin

lemma drain_all: "inv s \<Longrightarrow> length (todo s) \<le> n \<Longrightarrow> drain step n s = todo s"
proof (induction n arbitrary: s)
  case (Suc n)
  show ?case
  proof (cases "step s")
    case None
    then show ?thesis using step_end Suc.prems by simp
  next
    case (Some r)
    obtain x s' where r: "r = (x, s')" by (cases r)
    then have "inv s'" "todo s = x # todo s'" using step_next Some Suc.prems by auto
    then show ?thesis using Suc r Some by simp
  qed
qed simp

lemma drain_prefix: "inv s \<Longrightarrow> drain step n s = take n (todo s)"
proof (induction n arbitrary: s)
  case (Suc n)
  show ?case
  proof (cases "step s")
    case None
    then show ?thesis using step_end Suc.prems by simp
  next
    case (Some r)
    obtain x s' where r: "r = (x, s')" by (cases r)
    then have "inv s'" "todo s = x # todo s'" using step_next Some Suc.prems by auto
    then show ?thesis using Suc.IH r Some by simp
  qed
qed simp

end

section \<open>Loops over events\<close>

text \<open>
  A thread's loop: one step per event while the condition holds. A step may run into undefined
  behaviour (\<open>None\<close>). A step that is defined and keeps an invariant on acceptable events makes the
  whole loop defined.
\<close>

fun run_steps :: "('s \<Rightarrow> bool) \<Rightarrow> ('i \<Rightarrow> 's \<Rightarrow> 's option) \<Rightarrow> 'i list \<Rightarrow> 's \<Rightarrow> 's option" where
  "run_steps go step [] s = Some s"
| "run_steps go step (i # is) s =
     (if \<not> go s then Some s
      else case step i s of None \<Rightarrow> None | Some s' \<Rightarrow> run_steps go step is s')"

lemma run_steps_stop: "\<not> go s \<Longrightarrow> run_steps go step is s = Some s"
  by (cases "is") simp_all

locale safe_loop =
  fixes inv :: "'s \<Rightarrow> bool" and good :: "'i \<Rightarrow> bool" and go :: "'s \<Rightarrow> bool"
    and step :: "'i \<Rightarrow> 's \<Rightarrow> 's option"
  assumes step_safe: "inv s \<Longrightarrow> go s \<Longrightarrow> good i \<Longrightarrow> \<exists>s'. step i s = Some s' \<and> inv s'"
begin

lemma run_safe: "inv s \<Longrightarrow> \<forall>i \<in> set is. good i \<Longrightarrow> \<exists>s'. run_steps go step is s = Some s' \<and> inv s'"
proof (induction "is" arbitrary: s)
  case (Cons i "is")
  show ?case
  proof (cases "go s")
    case True
    then obtain s' where "step i s = Some s'" "inv s'"
      using step_safe [OF Cons.prems(1), of i] Cons.prems(2) by auto
    then show ?thesis using Cons.IH [of s'] Cons.prems True by simp
  qed (use Cons.prems in simp)
qed simp

end

section \<open>Freeing until nothing is left\<close>

text \<open>
  Calling an operation that frees something until it reports 2, with fuel. An operation that makes
  the state smaller whenever it does not report 2 needs no more fuel than the size of the state.
\<close>

fun exhaust :: "('s \<Rightarrow> int \<times> 's) \<Rightarrow> nat \<Rightarrow> 's \<Rightarrow> 's option" where
  "exhaust free 0 s = None"
| "exhaust free (Suc n) s = (let (ret, s') = free s in if ret = 2 then Some s' else exhaust free n s')"

locale reclaimer =
  fixes ok :: "'s \<Rightarrow> bool" and empty :: "'s \<Rightarrow> bool" and room :: "'s \<Rightarrow> nat" and free :: "'s \<Rightarrow> int \<times> 's"
  assumes free_some: "ok s \<Longrightarrow> \<not> empty s \<Longrightarrow> free s = (ret, s') \<Longrightarrow> ret \<noteq> 2 \<and> ok s' \<and> room s' < room s"
    and free_none: "ok s \<Longrightarrow> empty s \<Longrightarrow> free s = (2, s)"
begin

lemma exhaust_ends: "ok s \<Longrightarrow> room s < n \<Longrightarrow> \<exists>s'. exhaust free n s = Some s' \<and> ok s' \<and> empty s'"
proof (induction n arbitrary: s)
  case (Suc n)
  obtain ret s' where r: "free s = (ret, s')" by fastforce
  show ?case
  proof (cases "empty s")
    case True
    then show ?thesis using free_none Suc.prems by simp
  next
    case False
    then have "ret \<noteq> 2" "ok s'" "room s' < n" using free_some [OF Suc.prems(1) False r] Suc.prems(2) by auto
    then show ?thesis using Suc.IH [of s'] r by simp
  qed
qed simp

end

end
