(* ===== verification/AviCommon.thy ===== *)
theory AviCommon
  imports Prelude
begin

text \<open>
  The helpers of \<^verbatim>\<open>storage/src/avi_common_api.c\<close> and the stdio layer they sit on.
  A \<^verbatim>\<open>FILE *\<close> is its bytes and its position. Every \<^verbatim>\<open>fwrite\<close> asks the environment
  (\<open>io\<close>) whether this call succeeds: \<open>fault n = None\<close> lets the \<open>n\<close>-th call through,
  \<open>fault n = Some k\<close> makes it fail after \<open>k\<close> bytes, so a full or removed SD card is a value of
  \<open>fault\<close>. As in C, a write of zero bytes returns 0.
\<close>

section \<open>stdio\<close>

record cfile =
  fdata :: "byte list"
  fpos :: nat

record io =
  fault :: "nat \<Rightarrow> nat option"
  ncall :: nat
  utc :: "nat \<Rightarrow> cuint"

definition no_faults :: "io \<Rightarrow> bool" where
  "no_faults w \<longleftrightarrow> (\<forall>n. fault w n = None)"

definition file_put :: "byte list \<Rightarrow> cfile \<Rightarrow> cfile" where
  "file_put bs f =
     (let d = fdata f @ replicate (fpos f - length (fdata f)) 0
      in f\<lparr>fdata := take (fpos f) d @ bs @ drop (fpos f + length bs) d, fpos := fpos f + length bs\<rparr>)"

definition fwrite1 :: "byte list \<Rightarrow> cfile \<Rightarrow> io \<Rightarrow> int \<times> cfile \<times> io" where
  "fwrite1 bs f w =
     (if bs = [] then (0, f, w)
      else case fault w (ncall w) of
        None \<Rightarrow> (1, file_put bs f, w\<lparr>ncall := Suc (ncall w)\<rparr>)
      | Some k \<Rightarrow> (0, file_put (take k bs) f, w\<lparr>ncall := Suc (ncall w)\<rparr>))"

definition fread1 :: "nat \<Rightarrow> cfile \<Rightarrow> int \<times> byte list \<times> cfile" where
  "fread1 n f =
     (if 0 < n \<and> fpos f + n \<le> length (fdata f)
      then (1, slice (fpos f) n (fdata f), f\<lparr>fpos := fpos f + n\<rparr>)
      else (0, slice (fpos f) n (fdata f), f\<lparr>fpos := max (fpos f) (min (fpos f + n) (length (fdata f)))\<rparr>))"

definition fseek_set :: "nat \<Rightarrow> cfile \<Rightarrow> cfile" where
  "fseek_set off f = f\<lparr>fpos := off\<rparr>"

definition fseek_end :: "cfile \<Rightarrow> cfile" where
  "fseek_end f = f\<lparr>fpos := length (fdata f)\<rparr>"

lemma fault_fwrite1: "fwrite1 bs f w = (r, f', w') \<Longrightarrow> fault w' = fault w"
  by (auto simp: fwrite1_def split: if_splits option.splits)

lemma fwrite1_ok:
  "no_faults w \<Longrightarrow> bs \<noteq> [] \<Longrightarrow> fwrite1 bs f w = (1, file_put bs f, w\<lparr>ncall := Suc (ncall w)\<rparr>)"
  by (simp add: fwrite1_def no_faults_def)

lemma no_faults_ncall [simp]: "no_faults (w\<lparr>ncall := n\<rparr>) = no_faults w"
  by (simp add: no_faults_def)

lemma file_put_end:
  "fpos f = length (fdata f) \<Longrightarrow>
   file_put bs f = f\<lparr>fdata := fdata f @ bs, fpos := length (fdata f) + length bs\<rparr>"
  by (simp add: file_put_def Let_def)

lemma file_put_inside:
  "fpos f + length bs \<le> length (fdata f) \<Longrightarrow>
   file_put bs f = f\<lparr>fdata := put_at (fpos f) bs (fdata f), fpos := fpos f + length bs\<rparr>"
  by (simp add: file_put_def put_at_def Let_def)

text \<open>The clock: \<open>utc n\<close> is the time after \<open>n\<close> calls.\<close>

definition get_UTC_Time :: "io \<Rightarrow> cuint" where
  "get_UTC_Time w = utc w (ncall w)"

section \<open>write and read helpers\<close>

definition write_char :: "byte \<Rightarrow> cfile \<Rightarrow> io \<Rightarrow> int \<times> cfile \<times> io" where
  "write_char c f w = fwrite1 [c] f w"

definition write_int32 :: "int \<Rightarrow> cfile \<Rightarrow> io \<Rightarrow> int \<times> cfile \<times> io" where
  "write_int32 i f w = fwrite1 (le_int i) f w"

definition write_fourcc :: "cuint \<Rightarrow> cfile \<Rightarrow> io \<Rightarrow> int \<times> cfile \<times> io" where
  "write_fourcc fourcc f w = fwrite1 (le32 fourcc) f w"

definition write_data :: "byte list \<Rightarrow> cfile \<Rightarrow> io \<Rightarrow> int \<times> cfile \<times> io" where
  "write_data data f w = fwrite1 data f w"

definition read_char :: "cfile \<Rightarrow> int \<times> byte list \<times> cfile" where
  "read_char f = fread1 1 f"

definition read_int32 :: "cfile \<Rightarrow> int \<times> byte list \<times> cfile" where
  "read_int32 f = fread1 4 f"

definition read_fourcc :: "cfile \<Rightarrow> int \<times> byte list \<times> cfile" where
  "read_fourcc f = fread1 4 f"

definition read_data :: "nat \<Rightarrow> cfile \<Rightarrow> int \<times> byte list \<times> cfile" where
  "read_data sz f = fread1 sz f"

lemma read_int32_after_write:
  assumes "write_int32 i f w = (1, f', w')" "fpos f \<le> length (fdata f)" "in_int32 i"
  shows "\<exists>bs f''. read_int32 (fseek_set (fpos f) f') = (1, bs, f'') \<and> get_int bs = i"
proof -
  have ne: "le_int i \<noteq> []" by (simp add: le_int_def le32_def)
  have f': "f' = file_put (le_int i) f"
    using assms(1) by (auto simp: write_int32_def fwrite1_def ne split: if_splits option.splits)
  have d: "fdata f' = take (fpos f) (fdata f) @ le_int i @ drop (fpos f + 4) (fdata f)"
    using assms(2) f' by (simp add: file_put_def Let_def)
  have "slice (fpos f) 4 (fdata f') = le_int i"
    using assms(2) by (simp add: d slice_def)
  moreover have "fpos f + 4 \<le> length (fdata f')"
    using assms(2) by (simp add: d)
  ultimately show ?thesis
    using assms(3) get_int_le_int [of i "[]"] by (simp add: read_int32_def fread1_def fseek_set_def)
qed

definition avi_set_32 :: "cuint \<Rightarrow> nat \<Rightarrow> byte list \<Rightarrow> byte list" where
  "avi_set_32 w pp m = put_at pp
     [ucast (w AND 0xff), ucast (drop_bit 8 w AND 0xff),
      ucast (drop_bit 16 w AND 0xff), ucast (drop_bit 24 w AND 0xff)] m"

lemma ucast_byte_mask: "ucast (x AND 0xff :: cuint) = (ucast x :: byte)"
proof -
  have "x AND 0xff = take_bit 8 x" by (simp add: take_bit_eq_mask mask_eq_exp_minus_1)
  then show ?thesis by (simp add: bit_eq_iff bit_simps)
qed

lemma avi_set_32_le32: "avi_set_32 w pp m = put_at pp (le32 w) m"
  by (simp add: avi_set_32_def le32_def ucast_byte_mask)

section \<open>File names\<close>

text \<open>
  \<^verbatim>\<open>avi_substring\<close>: \<open>None\<close> is the early return that leaves the destination as it was.
\<close>

definition avi_substring :: "string \<Rightarrow> nat \<Rightarrow> nat \<Rightarrow> string option" where
  "avi_substring src start end =
     (if start > length src then None
      else let e = (if end > length src then length src else end)
           in Some (slice start (e - start) src))"

lemma avi_substring_inside:
  "start \<le> end \<Longrightarrow> end \<le> length src \<Longrightarrow> avi_substring src start end = Some (slice start (end - start) src)"
  by (simp add: avi_substring_def)

text \<open>
  \<^verbatim>\<open>last_index_at\<close> decrements \<open>n\<close> in the loop condition and then reads \<open>str[n-1]\<close>: the last
  character is never looked at, and the last round reads the byte before the string
  (\<open>before\<close>), whose value does not matter because either branch returns -1.
\<close>

fun last_index_loop :: "char \<Rightarrow> string \<Rightarrow> char \<Rightarrow> nat \<Rightarrow> int" where
  "last_index_loop before str c 0 = -1"
| "last_index_loop before str c (Suc n) =
     (if c = (if n = 0 then before else str ! (n - 1)) then int n - 1
      else last_index_loop before str c n)"

definition last_index_at :: "char \<Rightarrow> string \<Rightarrow> char \<Rightarrow> int" where
  "last_index_at before str c = last_index_loop before str c (length str)"

lemma last_index_loop_neg:
  "(\<forall>i < n - 1. str ! i \<noteq> c) \<Longrightarrow> last_index_loop before str c n = -1"
proof (induction n)
  case (Suc n)
  then have "\<forall>i < n - 1. str ! i \<noteq> c" "n \<noteq> 0 \<Longrightarrow> str ! (n - 1) \<noteq> c" by auto
  then show ?case using Suc.IH by auto
qed simp

lemma last_index_loop_pos:
  "i < n - 1 \<Longrightarrow> str ! i = c \<Longrightarrow> (\<forall>j. i < j \<and> j < n - 1 \<longrightarrow> str ! j \<noteq> c) \<Longrightarrow>
   last_index_loop before str c n = int i"
proof (induction n)
  case (Suc n)
  then have n: "n \<noteq> 0" by auto
  show ?case
  proof (cases "i = n - 1")
    case True
    then show ?thesis using Suc.prems n by auto
  next
    case False
    then have i: "i < n - 1" using Suc.prems(1) by simp
    moreover have "\<forall>j. i < j \<and> j < n - 1 \<longrightarrow> str ! j \<noteq> c" using Suc.prems(3) by auto
    ultimately have "last_index_loop before str c n = int i"
      using Suc.IH Suc.prems(2) by blast
    moreover have "str ! (n - 1) \<noteq> c" using Suc.prems(3) i by auto
    ultimately show ?thesis using n by auto
  qed
qed simp

lemma last_index_before_irrelevant: "last_index_loop b1 str c n = last_index_loop b2 str c n"
  by (induction n) auto

definition avi_get_ch_num :: "string \<Rightarrow> cuint" where
  "avi_get_ch_num file_name = word_of_int (int (of_char (file_name ! 2)) - 48)"

text \<open>
  The time stamps of a file name. \<open>None\<close> where the name is too short, so that \<^verbatim>\<open>atoll\<close> reads an
  uninitialised buffer.
\<close>

definition avi_get_start_time :: "string \<Rightarrow> 64 word option" where
  "avi_get_start_time file_name =
     map_option (\<lambda>s. word_of_int (atoi s)) (avi_substring file_name 4 (4 + 14))"

definition avi_get_stop_time :: "string \<Rightarrow> 64 word option" where
  "avi_get_stop_time file_name =
     map_option (\<lambda>s. word_of_int (atoi s)) (avi_substring file_name 19 (19 + 14))"

definition is_avi_file_format :: "string \<Rightarrow> bool" where
  "is_avi_file_format str = (strstr str ''.avi'' \<noteq> None)"

definition is_avi_dir_format :: "string \<Rightarrow> bool" where
  "is_avi_dir_format str = (strstr str ''.avi'' \<noteq> None)"

section \<open>Times\<close>

text \<open>Broken-down time, with the fields of \<^verbatim>\<open>struct tm\<close> the code uses.\<close>

record tm =
  tm_year :: int
  tm_mon :: int
  tm_mday :: int
  tm_hour :: int
  tm_min :: int
  tm_sec :: int

record sdk_time =
  st_year :: cuint
  st_mon :: cuint
  st_day :: cuint
  st_hour :: cuint
  st_min :: cuint
  st_sec :: cuint

definition get_date_str :: "tm \<Rightarrow> string" where
  "get_date_str ptm = pad0 4 (nat (tm_year ptm + 1900)) @ pad0 2 (nat (tm_mon ptm + 1)) @
     pad0 2 (nat (tm_mday ptm))"

definition get_nowtime_str :: "tm \<Rightarrow> string" where
  "get_nowtime_str ptm = pad0 4 (nat (tm_year ptm + 1900)) @ pad0 2 (nat (tm_mon ptm + 1)) @
     pad0 2 (nat (tm_mday ptm)) @ pad0 2 (nat (tm_hour ptm)) @ pad0 2 (nat (tm_min ptm)) @
     pad0 2 (nat (tm_sec ptm))"

definition tm_to_dmstime :: "tm \<Rightarrow> sdk_time" where
  "tm_to_dmstime src =
     \<lparr>st_year = word_of_int (tm_year src), st_mon = word_of_int (tm_mon src),
      st_day = word_of_int (tm_mday src), st_hour = word_of_int (tm_hour src),
      st_min = word_of_int (tm_min src), st_sec = word_of_int (tm_sec src)\<rparr>"

text \<open>
  \<^verbatim>\<open>tm_add_seconds\<close> goes through the C library's \<^verbatim>\<open>mktime\<close> and \<^verbatim>\<open>localtime_r\<close>, whose result depends
  on the device's time zone: they are parameters.
\<close>

definition tm_add_seconds :: "(tm \<Rightarrow> int) \<Rightarrow> (int \<Rightarrow> tm) \<Rightarrow> tm \<Rightarrow> int \<Rightarrow> tm" where
  "tm_add_seconds mktime localtime src time_seconds =
     (let p = src\<lparr>tm_year := tm_year src - 1900, tm_mon := tm_mon src - 1\<rparr>;
          timep = mktime p + time_seconds;
          q = localtime timep
      in q\<lparr>tm_year := tm_year q + 1900, tm_mon := tm_mon q + 1\<rparr>)"

lemma tm_add_seconds_add:
  assumes "\<And>t. mktime (localtime t) = t"
  shows "tm_add_seconds mktime localtime (tm_add_seconds mktime localtime src a) b =
         tm_add_seconds mktime localtime src (a + b)"
  by (simp add: tm_add_seconds_def Let_def assms add.assoc)

end
