(* ===== verification/AviFormat.thy ===== *)
theory AviFormat
  imports AviCommon
begin

text \<open>
  The layout of a recording (\<^verbatim>\<open>storage/src/avi_typedef.h\<close>): the packed 326 byte header, the
  chunks of a frame and the index entries, each with its encoder. A C \<^verbatim>\<open>int\<close> field is a 32 bit
  word, a \<^verbatim>\<open>short\<close> a 16 bit word, stored little-endian.
\<close>

section \<open>Header structures\<close>

definition MAKE_FOURCC :: "char \<Rightarrow> char \<Rightarrow> char \<Rightarrow> char \<Rightarrow> cuint" where
  "MAKE_FOURCC a b c d =
     word_of_nat (of_char a) OR push_bit 8 (word_of_nat (of_char b)) OR
     push_bit 16 (word_of_nat (of_char c)) OR push_bit 24 (word_of_nat (of_char d))"

record avi_main_header =
  mh_fcc :: cuint
  mh_cb :: cuint
  dwMicroSecPerFrame :: cuint
  dwMaxBytesPerSec :: cuint
  dwPaddingGranularity :: cuint
  mh_dwFlags :: cuint
  dwTotalFrames :: cuint
  mh_dwInitialFrames :: cuint
  dwStreams :: cuint
  mh_dwSuggestedBufferSize :: cuint
  dwWidth :: cuint
  dwHeight :: cuint

record avi_stream_header =
  sh_fcc :: cuint
  sh_cb :: cuint
  fccType :: cuint
  fccHandler :: cuint
  sh_dwFlags :: cuint
  wPriority :: "16 word"
  wLanguage :: "16 word"
  sh_dwInitialFrames :: cuint
  dwScale :: cuint
  dwRate :: cuint
  dwStart :: cuint
  dwLength :: cuint
  sh_dwSuggestedBufferSize :: cuint
  dwQuality :: cuint
  dwSampleSize :: cuint
  rc_left :: "16 word"
  rc_top :: "16 word"
  rc_right :: "16 word"
  rc_bottom :: "16 word"

record bitmap_info_header =
  biSize :: cuint
  biWidth :: cuint
  biHeight :: cuint
  biPlanes :: "16 word"
  biBitCount :: "16 word"
  biCompression :: cuint
  biSizeImage :: cuint
  biXPelsPerMeter :: cuint
  biYPelsPerMeter :: cuint
  biClrUsed :: cuint
  biClrImportant :: cuint

record audio_format_x =
  wFormatTag :: "16 word"
  nChannels :: "16 word"
  nSamplesPerSec :: cuint
  nAvgBytesPerSec :: cuint
  nBlockAlign :: "16 word"
  wBitsPerSample :: "16 word"
  cbSize :: "16 word"

record avi_header =
  fcc_riff :: cuint
  avi_len :: cuint
  fcc_avi :: cuint
  fcc_list_hdrl :: cuint
  hdrl_len :: cuint
  fcc_hdrl :: cuint
  main_header :: avi_main_header
  fcc_list_strl_video :: cuint
  size_strl_video :: cuint
  fcc_strl_video :: cuint
  video_header :: avi_stream_header
  fcc_strf_video :: cuint
  size_video_format :: cuint
  bmiHeader :: bitmap_info_header
  fcc_list_strl_audio :: cuint
  size_strl_audio :: cuint
  fcc_strl_audio :: cuint
  audio_header :: avi_stream_header
  fcc_strf_audio :: cuint
  size_audio_format :: cuint
  audio_format :: audio_format_x
  fcc_list_movi :: cuint
  movi_len :: cuint
  fcc_movi :: cuint

definition encode_main :: "avi_main_header \<Rightarrow> byte list" where
  "encode_main h = le32 (mh_fcc h) @ le32 (mh_cb h) @ le32 (dwMicroSecPerFrame h) @
     le32 (dwMaxBytesPerSec h) @ le32 (dwPaddingGranularity h) @ le32 (mh_dwFlags h) @
     le32 (dwTotalFrames h) @ le32 (mh_dwInitialFrames h) @ le32 (dwStreams h) @
     le32 (mh_dwSuggestedBufferSize h) @ le32 (dwWidth h) @ le32 (dwHeight h) @ replicate 16 0"

definition encode_stream :: "avi_stream_header \<Rightarrow> byte list" where
  "encode_stream h = le32 (sh_fcc h) @ le32 (sh_cb h) @ le32 (fccType h) @ le32 (fccHandler h) @
     le32 (sh_dwFlags h) @ le16 (wPriority h) @ le16 (wLanguage h) @ le32 (sh_dwInitialFrames h) @
     le32 (dwScale h) @ le32 (dwRate h) @ le32 (dwStart h) @ le32 (dwLength h) @
     le32 (sh_dwSuggestedBufferSize h) @ le32 (dwQuality h) @ le32 (dwSampleSize h) @
     le16 (rc_left h) @ le16 (rc_top h) @ le16 (rc_right h) @ le16 (rc_bottom h)"

definition encode_bitmap :: "bitmap_info_header \<Rightarrow> byte list" where
  "encode_bitmap h = le32 (biSize h) @ le32 (biWidth h) @ le32 (biHeight h) @ le16 (biPlanes h) @
     le16 (biBitCount h) @ le32 (biCompression h) @ le32 (biSizeImage h) @ le32 (biXPelsPerMeter h) @
     le32 (biYPelsPerMeter h) @ le32 (biClrUsed h) @ le32 (biClrImportant h)"

definition encode_audio :: "audio_format_x \<Rightarrow> byte list" where
  "encode_audio h = le16 (wFormatTag h) @ le16 (nChannels h) @ le32 (nSamplesPerSec h) @
     le32 (nAvgBytesPerSec h) @ le16 (nBlockAlign h) @ le16 (wBitsPerSample h) @ le16 (cbSize h)"

definition encode_header :: "avi_header \<Rightarrow> byte list" where
  "encode_header h = le32 (fcc_riff h) @ le32 (avi_len h) @ le32 (fcc_avi h) @
     le32 (fcc_list_hdrl h) @ le32 (hdrl_len h) @ le32 (fcc_hdrl h) @ encode_main (main_header h) @
     le32 (fcc_list_strl_video h) @ le32 (size_strl_video h) @ le32 (fcc_strl_video h) @
     encode_stream (video_header h) @ le32 (fcc_strf_video h) @ le32 (size_video_format h) @
     encode_bitmap (bmiHeader h) @ le32 (fcc_list_strl_audio h) @ le32 (size_strl_audio h) @
     le32 (fcc_strl_audio h) @ encode_stream (audio_header h) @ le32 (fcc_strf_audio h) @
     le32 (size_audio_format h) @ encode_audio (audio_format h) @ le32 (fcc_list_movi h) @
     le32 (movi_len h) @ le32 (fcc_movi h)"

definition sizeof_AviHeader :: nat where "sizeof_AviHeader = 326"

lemma length_encode_main [simp]: "length (encode_main h) = 64"
  by (simp add: encode_main_def)

lemma length_encode_stream [simp]: "length (encode_stream h) = 64"
  by (simp add: encode_stream_def)

lemma length_encode_bitmap [simp]: "length (encode_bitmap h) = 40"
  by (simp add: encode_bitmap_def)

lemma length_encode_audio [simp]: "length (encode_audio h) = 18"
  by (simp add: encode_audio_def)

lemma length_encode_header [simp]: "length (encode_header h) = sizeof_AviHeader"
  by (simp add: encode_header_def sizeof_AviHeader_def)

text \<open>Writing four bytes over a field's place in the encoding is updating the field.\<close>

lemma put_at_skip: "length xs \<le> off \<Longrightarrow> put_at off bs (xs @ ys) = xs @ put_at (off - length xs) bs ys"
proof -
  assume "length xs \<le> off"
  then obtain k where "off = length xs + k" by (auto simp: le_iff_add)
  then show ?thesis by (simp add: put_at_def)
qed

lemma put_at_here: "length xs = length bs \<Longrightarrow> put_at 0 bs (xs @ ys) = bs @ ys"
  by (simp add: put_at_def)

lemma put_at_inside:
  "off + length bs \<le> length xs \<Longrightarrow> put_at off bs (xs @ ys) = put_at off bs xs @ ys"
  by (simp add: put_at_def)

lemma put_avi_len: "put_at 4 (le32 v) (encode_header h) = encode_header (h\<lparr>avi_len := v\<rparr>)"
  by (simp add: encode_header_def put_at_skip put_at_here)

lemma put_movi_len: "put_at 318 (le32 v) (encode_header h) = encode_header (h\<lparr>movi_len := v\<rparr>)"
  by (simp add: encode_header_def put_at_skip put_at_here)

lemma put_total_frames:
  "put_at 48 (le32 v) (encode_header h) =
   encode_header (h\<lparr>main_header := (main_header h)\<lparr>dwTotalFrames := v\<rparr>\<rparr>)"
  by (simp add: encode_header_def put_at_skip put_at_inside) (simp add: encode_main_def put_at_skip put_at_here)

lemma put_usec_per_frame:
  "put_at 32 (le32 v) (encode_header h) =
   encode_header (h\<lparr>main_header := (main_header h)\<lparr>dwMicroSecPerFrame := v\<rparr>\<rparr>)"
  by (simp add: encode_header_def put_at_skip put_at_inside) (simp add: encode_main_def put_at_skip put_at_here)

lemma put_video_scale:
  "put_at 128 (le32 v) (encode_header h) =
   encode_header (h\<lparr>video_header := (video_header h)\<lparr>dwScale := v\<rparr>\<rparr>)"
  by (simp add: encode_header_def put_at_skip put_at_inside) (simp add: encode_stream_def put_at_skip put_at_here)

lemma put_video_length:
  "put_at 140 (le32 v) (encode_header h) =
   encode_header (h\<lparr>video_header := (video_header h)\<lparr>dwLength := v\<rparr>\<rparr>)"
  by (simp add: encode_header_def put_at_skip put_at_inside) (simp add: encode_stream_def put_at_skip put_at_here)

lemma put_audio_rate:
  "put_at 256 (le32 v) (encode_header h) =
   encode_header (h\<lparr>audio_header := (audio_header h)\<lparr>dwRate := v\<rparr>\<rparr>)"
  by (simp add: encode_header_def put_at_skip put_at_inside) (simp add: encode_stream_def put_at_skip put_at_here)

lemma put_audio_length:
  "put_at 264 (le32 v) (encode_header h) =
   encode_header (h\<lparr>audio_header := (audio_header h)\<lparr>dwLength := v\<rparr>\<rparr>)"
  by (simp add: encode_header_def put_at_skip put_at_inside) (simp add: encode_stream_def put_at_skip put_at_here)

lemmas header_puts = put_avi_len put_movi_len put_total_frames put_usec_per_frame put_video_scale
  put_video_length put_audio_rate put_audio_length

section \<open>Frames on disk\<close>

text \<open>\<open>intra\<close> is the kind of a frame: 0 P frame, 1 I frame, 2 audio, 3 motion JPEG.\<close>

record frame =
  fr_data :: "byte list"
  fr_intra :: int
  fr_t1 :: cuint
  fr_t2 :: cuint

definition is_video :: "int \<Rightarrow> bool" where
  "is_video intra \<longleftrightarrow> intra = 1 \<or> intra = 0 \<or> intra = 3"

definition frame_fcc :: "int \<Rightarrow> cuint" where
  "frame_fcc intra =
     (if is_video intra then MAKE_FOURCC CHR ''0'' CHR ''0'' CHR ''d'' CHR ''c''
      else MAKE_FOURCC CHR ''0'' CHR ''1'' CHR ''w'' CHR ''b'')"

definition padded_length :: "byte list \<Rightarrow> nat" where
  "padded_length data = length data + length data mod 2"

definition chunk :: "frame \<Rightarrow> byte list" where
  "chunk f = le32 (frame_fcc (fr_intra f)) @ le32 (word_of_nat (padded_length (fr_data f))) @
     fr_data f @ replicate (length (fr_data f) mod 2) 0 @
     le32 (MAKE_FOURCC CHR ''J'' CHR ''U'' CHR ''N'' CHR ''K'') @ le32 8 @ le32 (fr_t1 f) @ le32 (fr_t2 f)"

definition index_flags :: "int \<Rightarrow> cuint" where
  "index_flags intra = (if is_video intra then (if intra \<noteq> 0 then 0x11 else 0x10) else 0)"

definition index_entry :: "nat \<Rightarrow> frame \<Rightarrow> cuint list" where
  "index_entry off f = [frame_fcc (fr_intra f), index_flags (fr_intra f), word_of_nat off,
     word_of_nat (padded_length (fr_data f))]"

fun index_entries :: "nat \<Rightarrow> frame list \<Rightarrow> cuint list" where
  "index_entries off [] = []"
| "index_entries off (f # fs) = index_entry off f @ index_entries (off + length (chunk f)) fs"

definition chunks :: "frame list \<Rightarrow> byte list" where
  "chunks fs = concat (map chunk fs)"

definition ints_bytes :: "cuint list \<Rightarrow> byte list" where
  "ints_bytes ws = concat (map le32 ws)"

lemma length_chunk: "length (chunk f) = 24 + padded_length (fr_data f)"
  by (simp add: chunk_def padded_length_def)

lemma chunks_simps [simp]: "chunks [] = []" "chunks (fs @ gs) = chunks fs @ chunks gs" "chunks [f] = chunk f"
  by (simp_all add: chunks_def)

lemma length_ints_bytes [simp]: "length (ints_bytes ws) = 4 * length ws"
  by (induction ws) (simp_all add: ints_bytes_def)

lemma ints_bytes_simps [simp]:
  "ints_bytes [] = []" "ints_bytes (xs @ ys) = ints_bytes xs @ ints_bytes ys"
  by (simp_all add: ints_bytes_def)

lemma take_ints_bytes: "take (4 * n) (ints_bytes ws) = ints_bytes (take n ws)"
proof (induction ws arbitrary: n)
  case (Cons w ws)
  then show ?case by (cases n) (simp_all add: ints_bytes_def)
qed simp

lemma length_index_entry [simp]: "length (index_entry off f) = 4"
  by (simp add: index_entry_def)

lemma length_index_entries [simp]: "length (index_entries off fs) = 4 * length fs"
  by (induction fs arbitrary: off) simp_all

lemma index_entries_snoc:
  "index_entries off (fs @ [f]) = index_entries off fs @ index_entry (off + length (chunks fs)) f"
  by (induction fs arbitrary: off) (simp_all add: chunks_def add.assoc)

lemma index_entries_nth:
  "i < length fs \<Longrightarrow> take 4 (drop (4 * i) (index_entries off fs)) =
     index_entry (off + length (chunks (take i fs))) (fs ! i)"
proof (induction fs arbitrary: off i)
  case (Cons f fs)
  show ?case
  proof (cases i)
    case (Suc j)
    then have "drop (4 * i) (index_entries off (f # fs)) = drop (4 * j) (index_entries (off + length (chunk f)) fs)"
      by simp
    then show ?thesis using Cons Suc by (simp add: chunks_def add.assoc)
  qed simp
qed simp

lemma chunks_at:
  "i < length fs \<Longrightarrow>
   take (length (chunk (fs ! i))) (drop (length (chunks (take i fs))) (chunks fs)) = chunk (fs ! i)"
proof (induction fs arbitrary: i)
  case (Cons f fs)
  then show ?case by (cases i) (simp_all add: chunks_def)
qed simp

end
