(* ===== verification/AviSearch.thy ===== *)
theory AviSearch
  imports AviCommon
begin

text \<open>
  \<^verbatim>\<open>storage/src/avi_search_api.c\<close>: the date/number conversions of recording times, the sorted
  result list of a search, and the index files \<^verbatim>\<open>.manu\<close>, \<^verbatim>\<open>.sched\<close>, \<^verbatim>\<open>.motion\<close>, \<^verbatim>\<open>.alarm\<close> on the
  SD card (a count followed by 24 byte records).
\<close>

section \<open>Times as 14 digit numbers\<close>

definition time_to_u64t :: "sdk_time \<Rightarrow> 64 word" where
  "time_to_u64t p =
     (let tmp = pad0 4 (unat (st_year p)) @ pad0 2 (unat (st_mon p)) @ pad0 2 (unat (st_day p)) @
                pad0 2 (unat (st_hour p)) @ pad0 2 (unat (st_min p)) @ pad0 2 (unat (st_sec p))
      in word_of_int (atoi tmp))"

definition substr0 :: "string \<Rightarrow> nat \<Rightarrow> nat \<Rightarrow> string" where
  "substr0 src a b = (case avi_substring src a b of None \<Rightarrow> [] | Some s \<Rightarrow> s)"

definition u64t_to_time :: "64 word \<Rightarrow> sdk_time" where
  "u64t_to_time tmp64 =
     (let tmp_str = show_int (sint tmp64)
      in \<lparr>st_year = word_of_int (atoi (substr0 tmp_str 0 4)),
          st_mon = word_of_int (atoi (substr0 tmp_str 4 6)),
          st_day = word_of_int (atoi (substr0 tmp_str 6 8)),
          st_hour = word_of_int (atoi (substr0 tmp_str 8 10)),
          st_min = word_of_int (atoi (substr0 tmp_str 10 12)),
          st_sec = word_of_int (atoi (substr0 tmp_str 12 14))\<rparr>)"

definition u64t_add_seconds :: "(tm \<Rightarrow> int) \<Rightarrow> (int \<Rightarrow> tm) \<Rightarrow> 64 word \<Rightarrow> int \<Rightarrow> 64 word" where
  "u64t_add_seconds mktime localtime opr1 seconds =
     (let src = u64t_to_time opr1;
          p = \<lparr>tm_year = sint (st_year src - 1900), tm_mon = sint (st_mon src - 1),
               tm_mday = sint (st_day src), tm_hour = sint (st_hour src),
               tm_min = sint (st_min src), tm_sec = sint (st_sec src)\<rparr>;
          timep = mktime p + seconds;
          q = localtime timep;
          dst = \<lparr>st_year = word_of_int (tm_year q + 1900), st_mon = word_of_int (tm_mon q + 1),
                 st_day = word_of_int (tm_mday q), st_hour = word_of_int (tm_hour q),
                 st_min = word_of_int (tm_min q), st_sec = word_of_int (tm_sec q)\<rparr>
      in time_to_u64t dst)"

definition printable_time :: "sdk_time \<Rightarrow> bool" where
  "printable_time t \<longleftrightarrow> 1000 \<le> unat (st_year t) \<and> unat (st_year t) < 10000 \<and>
     unat (st_mon t) < 100 \<and> unat (st_day t) < 100 \<and> unat (st_hour t) < 100 \<and>
     unat (st_min t) < 100 \<and> unat (st_sec t) < 100"

definition time_str :: "sdk_time \<Rightarrow> string" where
  "time_str p = pad0 4 (unat (st_year p)) @ pad0 2 (unat (st_mon p)) @ pad0 2 (unat (st_day p)) @
                pad0 2 (unat (st_hour p)) @ pad0 2 (unat (st_min p)) @ pad0 2 (unat (st_sec p))"

lemma time_str_digits: "c \<in> set (time_str p) \<Longrightarrow> is_digit_char c"
  by (auto simp: time_str_def set_pad0)

lemma length_time_str: "printable_time p \<Longrightarrow> length (time_str p) = 14"
  by (simp add: time_str_def printable_time_def length_pad0)

lemma digits_acc_14:
  "\<forall>c \<in> set xs. is_digit_char c \<Longrightarrow> digits_acc 0 xs < 10 ^ length xs"
proof (induction xs rule: rev_induct)
  case (snoc x xs)
  then have "digits_acc 0 xs + 1 \<le> 10 ^ length xs" "digit_val x < 10"
    by (auto simp: digit_val_less Suc_le_eq)
  then have "(digits_acc 0 xs + 1) * 10 \<le> 10 ^ length xs * 10" by simp
  then show ?case using snoc.prems \<open>digit_val x < 10\<close> by (simp add: digits_acc_snoc)
qed simp

lemma hd_show_nat: "0 < n \<Longrightarrow> hd (show_nat n) \<noteq> CHR ''0''"
proof (induction n rule: show_nat.induct)
  case (1 n)
  show ?case
  proof (cases "n < 10")
    case True
    have "digit_char n \<noteq> CHR ''0''"
    proof
      assume "digit_char n = CHR ''0''"
      then have "digit_char n = digit_char 0" by (simp add: digit_char_def char_of_48)
      then have "digit_val (digit_char n) = digit_val (digit_char 0)" by simp
      then show False using True 1 by simp
    qed
    then show ?thesis using True by (subst show_nat.simps) simp
  next
    case False
    then show ?thesis using 1 by (subst show_nat.simps) simp
  qed
qed

lemma hd_pad0_year:
  assumes "1000 \<le> y"
  shows "hd (pad0 4 y) \<noteq> CHR ''0''"
proof -
  have lt: "y < 10 ^ length (show_nat y)"
    using digits_acc_14 [of "show_nat y"] by (simp add: set_show_nat digits_acc_show_nat)
  have l: "4 \<le> length (show_nat y)"
  proof (rule ccontr)
    assume "\<not> 4 \<le> length (show_nat y)"
    then have "length (show_nat y) \<le> 3" by simp
    then have "(10::nat) ^ length (show_nat y) \<le> 10 ^ 3" by (intro power_increasing) auto
    then show False using lt assms by simp
  qed
  then show ?thesis using hd_show_nat [of y] assms by (simp add: pad0_def)
qed

lemma hd_time_str: "printable_time p \<Longrightarrow> hd (time_str p) \<noteq> CHR ''0''"
  by (simp add: time_str_def hd_pad0_year printable_time_def)

lemma sint_of_int64: "0 \<le> i \<Longrightarrow> i < 2 ^ 63 \<Longrightarrow> sint (word_of_int i :: 64 word) = i"
  by (simp add: sint_sbintrunc' signed_take_bit_int_eq_self)

lemma show_time_to_u64t:
  assumes "printable_time p"
  shows "show_int (sint (time_to_u64t p)) = time_str p"
proof -
  have ne: "time_str p \<noteq> []" by (simp add: time_str_def)
  have a: "atoi (time_str p) = int (digits_acc 0 (time_str p))"
    by (simp add: atoi_digits ne time_str_digits)
  have b: "digits_acc 0 (time_str p) < 10 ^ 14"
    using digits_acc_14 [of "time_str p"] length_time_str [OF assms] time_str_digits by auto
  have c: "time_to_u64t p = word_of_int (int (digits_acc 0 (time_str p)))"
    using a by (simp add: time_to_u64t_def time_str_def Let_def)
  have "sint (time_to_u64t p) = int (digits_acc 0 (time_str p))"
    unfolding c using b by (intro sint_of_int64) auto
  then show ?thesis
    using show_nat_digits [OF ne] time_str_digits hd_time_str [OF assms] by (simp add: show_int_def)
qed


lemma substr0_time_str:
  "a \<le> b \<Longrightarrow> b \<le> length s \<Longrightarrow> substr0 s a b = slice a (b - a) s"
  by (simp add: substr0_def avi_substring_inside)

lemma time_str_fields:
  assumes "printable_time p"
  shows "slice 0 4 (time_str p) = pad0 4 (unat (st_year p))"
    "slice 4 2 (time_str p) = pad0 2 (unat (st_mon p))"
    "slice 6 2 (time_str p) = pad0 2 (unat (st_day p))"
    "slice 8 2 (time_str p) = pad0 2 (unat (st_hour p))"
    "slice 10 2 (time_str p) = pad0 2 (unat (st_min p))"
    "slice 12 2 (time_str p) = pad0 2 (unat (st_sec p))"
  using assms by (simp_all add: time_str_def printable_time_def slice_def length_pad0)

lemma u64t_time_roundtrip:
  assumes "printable_time p"
  shows "u64t_to_time (time_to_u64t p) = p"
  using assms
  by (simp add: u64t_to_time_def show_time_to_u64t length_time_str substr0_time_str time_str_fields)

section \<open>The result list of a search\<close>

type_synonym u64 = "64 word"

record index_node =
  in_ch :: cuint
  in_start :: u64
  in_stop :: u64

record file_node =
  fn_path :: string
  fn_start :: u64
  fn_stop :: u64

record file_list =
  fl_start :: u64
  fl_stop :: u64
  fl_type :: cuint
  fl_ch :: cuint
  fl_nodes :: "file_node list"
  fl_len :: cuint
  fl_index :: cuint

definition creat_empty_list :: "cuint \<Rightarrow> cuint \<Rightarrow> u64 \<Rightarrow> u64 \<Rightarrow> file_list" where
  "creat_empty_list type ch_num start stop =
     \<lparr>fl_start = start, fl_stop = stop, fl_type = type, fl_ch = ch_num, fl_nodes = [],
      fl_len = 0, fl_index = 0\<rparr>"

text \<open>\<open>None\<close>: a node with the same start is there already, and the new one is freed.\<close>

fun insert_walk :: "file_node \<Rightarrow> file_node list \<Rightarrow> file_node list option" where
  "insert_walk p [] = Some [p]"
| "insert_walk p (q # qs) =
     (if fn_start q < fn_start p then map_option (Cons q) (insert_walk p qs)
      else if fn_start q = fn_start p then None
      else Some (p # q # qs))"

text \<open>\<open>junk\<close> is what \<^verbatim>\<open>atoll\<close> makes of the uninitialised buffer when a name is too short.\<close>

definition new_node :: "u64 \<Rightarrow> string \<Rightarrow> file_node" where
  "new_node junk file_path =
     (let i = last_index_at (CHR 0x00) file_path (CHR ''/'');
          file_name = take 128 (drop (nat (i + 1)) file_path)
      in \<lparr>fn_path = take 128 file_path,
          fn_start = (case avi_get_start_time file_name of None \<Rightarrow> junk | Some t \<Rightarrow> t),
          fn_stop = (case avi_get_stop_time file_name of None \<Rightarrow> junk | Some t \<Rightarrow> t)\<rparr>)"

definition insert_node :: "u64 \<Rightarrow> bool \<Rightarrow> file_list \<Rightarrow> string \<Rightarrow> int \<times> file_list" where
  "insert_node junk malloc_ok list file_path =
     (if \<not> malloc_ok then (-1, list)
      else case insert_walk (new_node junk file_path) (fl_nodes list) of
        None \<Rightarrow> (0, list)
      | Some ns \<Rightarrow> (0, list\<lparr>fl_nodes := ns, fl_len := fl_len list + 1\<rparr>))"

definition is_empty_list :: "file_list \<Rightarrow> bool" where
  "is_empty_list list = (fl_nodes list = [])"

definition get_len_list :: "file_list \<Rightarrow> int" where
  "get_len_list list = int (length (fl_nodes list))"

definition delete_node :: "file_list \<Rightarrow> int \<Rightarrow> file_list" where
  "delete_node list index =
     (if is_empty_list list then list
      else if index \<ge> get_len_list list \<or> index < 0 then list
      else list\<lparr>fl_nodes := take (nat index) (fl_nodes list) @ drop (Suc (nat index)) (fl_nodes list),
                fl_len := fl_len list - 1\<rparr>)"

partial_function (option) search_close :: "file_list \<Rightarrow> file_list option" where
  "search_close list =
     (if fl_len list = 0 then Some (list\<lparr>fl_nodes := []\<rparr>) else search_close (delete_node list 0))"

definition GRD_NET_FILE_SUCCESS :: int where "GRD_NET_FILE_SUCCESS = 1000"
definition GRD_NET_FILE_NOFIND :: int where "GRD_NET_FILE_NOFIND = 1001"
definition GRD_NET_NOMOREFILE :: int where "GRD_NET_NOMOREFILE = 1003"

definition get_file_node :: "file_list \<Rightarrow> int \<times> file_node option \<times> file_list" where
  "get_file_node list =
     (if is_empty_list list then (GRD_NET_FILE_NOFIND, None, list)
      else if fl_index list = fl_len list then (GRD_NET_NOMOREFILE, None, list)
      else (GRD_NET_FILE_SUCCESS, Some (fl_nodes list ! unat (fl_index list)),
            list\<lparr>fl_index := fl_index list + 1\<rparr>))"

text \<open>The list's invariant: strictly ordered by start, and the two counters agree with the nodes.\<close>

definition wf_list :: "file_list \<Rightarrow> bool" where
  "wf_list list \<longleftrightarrow>
     sorted_wrt (\<lambda>a b. fn_start a < fn_start b) (fl_nodes list) \<and>
     fl_len list = word_of_nat (length (fl_nodes list)) \<and>
     length (fl_nodes list) < 2 ^ 32 \<and> unat (fl_index list) \<le> length (fl_nodes list)"

lemma insert_walk_set:
  "insert_walk p ns = Some ns' \<Longrightarrow> set ns' = insert p (set ns)"
  by (induction ns arbitrary: ns') (auto split: if_splits)

lemma insert_walk_length:
  "insert_walk p ns = Some ns' \<Longrightarrow> length ns' = Suc (length ns)"
  by (induction ns arbitrary: ns') (auto split: if_splits)

lemma insert_walk_sorted:
  "sorted_wrt (\<lambda>a b. fn_start a < fn_start b) ns \<Longrightarrow> insert_walk p ns = Some ns' \<Longrightarrow>
   sorted_wrt (\<lambda>a b. fn_start a < fn_start b) ns'"
proof (induction ns arbitrary: ns')
  case (Cons q qs)
  consider "fn_start q < fn_start p" | "fn_start q = fn_start p" | "fn_start p < fn_start q"
    using linorder_less_linear by blast
  then show ?case
  proof cases
    case 1
    then obtain ms where "ns' = q # ms" "insert_walk p qs = Some ms"
      using Cons.prems(2) by auto
    then show ?thesis using Cons 1 by (auto simp: insert_walk_set)
  next
    case 3
    then have "\<not> fn_start q < fn_start p" "fn_start q \<noteq> fn_start p" by (auto dest: less_not_sym)
    then have "ns' = p # q # qs" using Cons.prems(2) by simp
    then show ?thesis using Cons.prems(1) 3 by auto
  qed (use Cons.prems(2) in simp)
qed simp

lemma insert_walk_None:
  "sorted_wrt (\<lambda>a b. fn_start a < fn_start b) ns \<Longrightarrow>
   insert_walk p ns = None \<longleftrightarrow> (\<exists>q \<in> set ns. fn_start q = fn_start p)"
  by (induction ns) auto

lemma unat_of_small: "n < 2 ^ 32 \<Longrightarrow> unat (word_of_nat n :: cuint) = n"
  by (simp add: unat_of_nat take_bit_nat_eq_self)

lemma wf_creat_empty_list: "wf_list (creat_empty_list ty ch a b)"
  by (simp add: wf_list_def creat_empty_list_def)

lemma wf_insert_node:
  assumes "wf_list l" "Suc (length (fl_nodes l)) < 2 ^ 32"
  shows "wf_list (snd (insert_node junk ok l path))"
  using assms
  by (auto simp: wf_list_def insert_node_def insert_walk_length insert_walk_sorted split: option.splits)

lemma delete_first:
  "fl_nodes l = q # qs \<Longrightarrow> delete_node l 0 = l\<lparr>fl_nodes := qs, fl_len := fl_len l - 1\<rparr>"
  by (simp add: delete_node_def is_empty_list_def get_len_list_def)

lemma search_close_drains:
  "fl_len l = word_of_nat (length (fl_nodes l)) \<Longrightarrow> length (fl_nodes l) < 2 ^ 32 \<Longrightarrow>
   search_close l = Some (l\<lparr>fl_nodes := [], fl_len := 0\<rparr>)"
proof (induction "fl_nodes l" arbitrary: l)
  case Nil
  then show ?case by (simp add: search_close.simps)
next
  case (Cons q qs)
  have "fl_len l \<noteq> 0"
    using Cons.prems Cons.hyps(2) [symmetric] unat_of_small [of "length (fl_nodes l)"] by auto
  moreover have "search_close (delete_node l 0) = Some (delete_node l 0\<lparr>fl_nodes := [], fl_len := 0\<rparr>)"
    using Cons.prems Cons.hyps(2) [symmetric]
    by (intro Cons.hyps(1)) (simp_all add: delete_first)
  ultimately show ?case
    using Cons.hyps(2) [symmetric] by (subst search_close.simps) (simp add: delete_first)
qed


section \<open>Walking the recordings\<close>

record dirent =
  d_type :: cuint
  d_name :: string

definition DT_DIR :: cuint where "DT_DIR = 4"
definition DT_REG :: cuint where "DT_REG = 8"

definition GRD_SD_MOUNT_POINT :: string where "GRD_SD_MOUNT_POINT = ''/mnt/sd_card''"

text \<open>
  \<open>time_stop_64\<close> is declared outside the loop of \<^verbatim>\<open>add_file_to_list\<close> and only assigned for names of
  37 characters, so it is carried from one entry to the next.
\<close>

fun add_file_loop ::
  "u64 \<Rightarrow> bool \<Rightarrow> cuint \<Rightarrow> u64 \<Rightarrow> u64 \<Rightarrow> string \<Rightarrow> bool \<Rightarrow> u64 \<Rightarrow> file_list \<Rightarrow> dirent list \<Rightarrow> int \<times> file_list" where
  "add_file_loop junk malloc_ok ch_num begin end dir_path ignore_type time_stop_64 list [] = (0, list)"
| "add_file_loop junk malloc_ok ch_num begin end dir_path ignore_type time_stop_64 list (ent # ents) =
     (let next = (\<lambda>ts l. add_file_loop junk malloc_ok ch_num begin end dir_path ignore_type ts l ents) in
      if d_type ent AND DT_REG = 0 then next time_stop_64 list
      else if \<not> is_avi_file_format (d_name ent) then next time_stop_64 list
      else if ch_num \<noteq> avi_get_ch_num (d_name ent) then next time_stop_64 list
      else
        let time_start_64 = (case avi_get_start_time (d_name ent) of None \<Rightarrow> junk | Some t \<Rightarrow> t);
            ts = (if length (d_name ent) = 37
                  then (case avi_get_stop_time (d_name ent) of None \<Rightarrow> junk | Some t \<Rightarrow> t)
                  else time_stop_64)
        in if ts \<noteq> 0 \<and> ts < begin \<or> time_start_64 > end then next ts list
           else if \<not> ignore_type \<and> (ts \<noteq> 0 \<and> ts \<noteq> end \<or> time_start_64 \<noteq> begin) then next ts list
           else let (ret, list') = insert_node junk malloc_ok list (dir_path @ ''/'' @ d_name ent)
                in if ret \<noteq> 0 then (-1, list') else next ts list')"

definition add_file_to_list ::
  "u64 \<Rightarrow> bool \<Rightarrow> (string \<Rightarrow> dirent list option) \<Rightarrow> file_list \<Rightarrow> cuint \<Rightarrow> u64 \<Rightarrow> u64 \<Rightarrow> string \<Rightarrow> bool \<Rightarrow>
   int \<times> file_list" where
  "add_file_to_list junk malloc_ok opendir list ch_num begin end dir ignore_type =
     (let dir_path = GRD_SD_MOUNT_POINT @ ''/'' @ dir in
      case opendir dir_path of
        None \<Rightarrow> (-1, list)
      | Some ents \<Rightarrow> add_file_loop junk malloc_ok ch_num begin end dir_path ignore_type 0 list ents)"

text \<open>
  The directory loop of \<^verbatim>\<open>add_to_list\<close>: the new values of \<open>FLAG\<close> and \<open>filename\<close>. The assignment
  \<open>FLAG = 1\<close> stands on the line of an \<^verbatim>\<open>#endif\<close>, behind it, where the preprocessor drops it.
\<close>

fun add_to_list_scan :: "cuint \<Rightarrow> cuint \<Rightarrow> int \<Rightarrow> string \<Rightarrow> dirent list \<Rightarrow> int \<times> string" where
  "add_to_list_scan date_start date_stop flag filename [] = (flag, filename)"
| "add_to_list_scan date_start date_stop flag filename (ent # ents) =
     (if d_type ent AND DT_DIR = 0 then add_to_list_scan date_start date_stop flag filename ents
      else if d_name ent = ''.'' \<or> d_name ent = ''..''
      then add_to_list_scan date_start date_stop flag filename ents
      else if \<not> is_avi_dir_format (d_name ent)
      then add_to_list_scan date_start date_stop flag filename ents
      else let date = word_of_int (atoi (d_name ent))
           in if date = date_start \<and> date = date_stop then (flag, d_name ent)
              else add_to_list_scan date_start date_stop flag filename ents)"

definition add_to_list ::
  "u64 \<Rightarrow> bool \<Rightarrow> (string \<Rightarrow> dirent list option) \<Rightarrow> file_list \<Rightarrow> cuint \<Rightarrow> u64 \<Rightarrow> u64 \<Rightarrow> bool \<Rightarrow> file_list" where
  "add_to_list junk malloc_ok opendir list ch_num begin end ignore_type =
     (case opendir GRD_SD_MOUNT_POINT of
        None \<Rightarrow> list
      | Some ents \<Rightarrow>
          (let (flag, filename) =
                 add_to_list_scan (ucast (begin div 1000000)) (ucast (end div 1000000)) 0 [] ents
           in if flag = 1
              then snd (add_file_to_list junk malloc_ok opendir list ch_num begin end filename ignore_type)
              else list))"

lemma add_to_list_scan_flag: "fst (add_to_list_scan a b flag fn ents) = flag"
  by (induction ents) (auto simp: Let_def)

lemma add_to_list_nothing: "add_to_list junk ok opendir l ch a b ig = l"
proof (cases "opendir GRD_SD_MOUNT_POINT")
  case (Some ents)
  have "fst (add_to_list_scan (ucast (a div 1000000)) (ucast (b div 1000000)) 0 [] ents) = 0"
    by (rule add_to_list_scan_flag)
  then show ?thesis using Some by (auto simp: add_to_list_def split: prod.splits)
qed (simp add: add_to_list_def)

lemma add_file_loop_wf:
  "wf_list l \<Longrightarrow> length (fl_nodes l) + length ents < 2 ^ 32 \<Longrightarrow>
   wf_list (snd (add_file_loop junk ok ch a b dp ig ts l ents))"
proof (induction ents arbitrary: l ts ch a b ig)
  case (Cons e es)
  have ins: "wf_list (snd (insert_node junk ok l path))" for path
    using Cons.prems by (intro wf_insert_node) auto
  have len: "length (fl_nodes (snd (insert_node junk ok l path))) \<le> Suc (length (fl_nodes l))" for path
    by (auto simp: insert_node_def insert_walk_length split: option.splits)
  have next_l: "wf_list (snd (add_file_loop junk ok ch' a' b' dp ig' ts' l es))" for ch' a' b' ig' ts'
    using Cons.prems by (intro Cons.IH) auto
  have next_ins:
    "wf_list (snd (add_file_loop junk ok ch' a' b' dp ig' ts' (snd (insert_node junk ok l path)) es))"
    for ch' a' b' ig' ts' path
    using Cons.prems len [of path] by (intro Cons.IH ins) auto
  show ?case
    by (simp add: Let_def case_prod_beta next_l next_ins ins)
qed simp

section \<open>Index files\<close>

text \<open>
  An \<^verbatim>\<open>INDEX_NODE\<close> is 24 bytes on the target: the channel, four bytes of padding that the
  \<^verbatim>\<open>memset\<close> clears, and the two 64 bit times. The files of the SD card are a map from paths to bytes.
\<close>

type_synonym files = "string \<Rightarrow> byte list option"

definition encode_node :: "index_node \<Rightarrow> byte list" where
  "encode_node n = le32 (in_ch n) @ [0, 0, 0, 0] @ le64 (in_start n) @ le64 (in_stop n)"

definition decode_node :: "byte list \<Rightarrow> index_node" where
  "decode_node bs = \<lparr>in_ch = get32 bs, in_start = get64 (drop 8 bs), in_stop = get64 (drop 16 bs)\<rparr>"

definition SDK_RECORD_TYPE_MANU :: cuint where "SDK_RECORD_TYPE_MANU = 1"
definition SDK_RECORD_TYPE_SCHED :: cuint where "SDK_RECORD_TYPE_SCHED = 2"
definition SDK_RECORD_TYPE_MOTION :: cuint where "SDK_RECORD_TYPE_MOTION = 3"
definition SDK_RECORD_TYPE_ALARM :: cuint where "SDK_RECORD_TYPE_ALARM = 4"

text \<open>The \<^verbatim>\<open>switch\<close> over the record type that every routine repeats; the default leaves the name empty.\<close>

definition index_file_of :: "cuint \<Rightarrow> string" where
  "index_file_of type =
     (if type = SDK_RECORD_TYPE_SCHED then GRD_SD_MOUNT_POINT @ ''/.sched''
      else if type = SDK_RECORD_TYPE_MOTION then GRD_SD_MOUNT_POINT @ ''/.motion''
      else if type = SDK_RECORD_TYPE_ALARM then GRD_SD_MOUNT_POINT @ ''/.alarm''
      else if type = SDK_RECORD_TYPE_MANU then GRD_SD_MOUNT_POINT @ ''/.manu''
      else [])"

text \<open>\<^verbatim>\<open>fread(&node, sizeof(INDEX_NODE), 1, fp)\<close> into a cleared \<open>node\<close>: bytes, rest and end-of-file flag.\<close>

definition read_node :: "byte list \<Rightarrow> byte list \<times> byte list \<times> bool" where
  "read_node bs =
     (if 24 \<le> length bs then (take 24 bs, drop 24 bs, False)
      else (bs @ replicate (24 - length bs) 0, [], True))"

text \<open>The overlap of a recording with the searched interval, branch by branch.\<close>

definition clip_interval :: "u64 \<Rightarrow> u64 \<Rightarrow> index_node \<Rightarrow> u64 \<times> u64 \<Rightarrow> (u64 \<times> u64) option" where
  "clip_interval start stop node prev =
     (if in_stop node < start \<or> stop < in_start node then None
      else if start \<le> in_start node \<and> in_stop node \<le> stop then Some (in_start node, in_stop node)
      else if in_start node \<le> start \<and> stop \<le> in_stop node then Some (start, stop)
      else if in_start node \<le> start \<and> start \<le> in_stop node then Some (start, in_stop node)
      else if in_start node \<le> stop \<and> stop \<le> in_stop node then Some (in_start node, stop)
      else Some prev)"

fun search_loop ::
  "(u64 \<Rightarrow> u64 \<Rightarrow> file_list \<Rightarrow> file_list) \<Rightarrow> cuint \<Rightarrow> u64 \<Rightarrow> u64 \<Rightarrow> u64 \<times> u64 \<Rightarrow> bool \<Rightarrow> nat \<Rightarrow> byte list \<Rightarrow>
   file_list \<Rightarrow> file_list" where
  "search_loop add ch_num start stop prev eof 0 bs list = list"
| "search_loop add ch_num start stop prev eof (Suc n) bs list =
     (if eof then list
      else let (b, rest, eof') = read_node bs; node = decode_node b in
        if ch_num \<noteq> in_ch node then search_loop add ch_num start stop prev eof' n rest list
        else case clip_interval start stop node prev of
          None \<Rightarrow> search_loop add ch_num start stop prev eof' n rest list
        | Some (begin, end) \<Rightarrow>
            search_loop add ch_num start stop (begin, end) eof' n rest
              (if begin = end then list else add begin end list))"

definition search_file_by_time ::
  "u64 \<Rightarrow> bool \<Rightarrow> (string \<Rightarrow> dirent list option) \<Rightarrow> files \<Rightarrow> cuint \<Rightarrow> cuint \<Rightarrow> u64 \<Rightarrow> u64 \<Rightarrow> file_list option" where
  "search_file_by_time junk malloc_ok opendir fs type ch_num start stop =
     (if \<not> malloc_ok then None
      else let list = creat_empty_list type ch_num start stop in
        if index_file_of type = [] then Some (add_to_list junk malloc_ok opendir list ch_num start stop True)
        else case fs (index_file_of type) of
          None \<Rightarrow> None
        | Some bs \<Rightarrow>
            if length bs < 4 then None
            else Some (search_loop (\<lambda>begin end l. add_to_list junk malloc_ok opendir l ch_num begin end False)
                   ch_num start stop (junk, junk) False (nat (get_int bs)) (drop 4 bs) list))"

lemma length_encode_node [simp]: "length (encode_node n) = 24"
  by (simp add: encode_node_def)

lemma decode_encode_node [simp]: "decode_node (encode_node n @ rest) = n"
  by (simp add: decode_node_def encode_node_def le32_def [symmetric] drop_append)

lemma decode_encode_node0 [simp]: "decode_node (encode_node n) = n"
  using decode_encode_node [of n "[]"] by simp

lemma read_node_encode [simp]: "read_node (encode_node n @ rest) = (encode_node n, rest, False)"
  by (simp add: read_node_def)

lemma clip_interval_overlap:
  assumes "start \<le> stop" "in_start n \<le> in_stop n"
  shows "clip_interval start stop n prev =
    (if max start (in_start n) \<le> min stop (in_stop n)
     then Some (max start (in_start n), min stop (in_stop n)) else None)"
proof (cases "in_stop n < start \<or> stop < in_start n")
  case True
  then have "\<not> max start (in_start n) \<le> min stop (in_stop n)" by auto
  then show ?thesis using True by (simp add: clip_interval_def)
next
  case False
  then have le: "start \<le> in_stop n" "in_start n \<le> stop" by auto
  have "max start (in_start n) \<le> min stop (in_stop n)" using le assms by simp
  moreover have "clip_interval start stop n prev = Some (max start (in_start n), min stop (in_stop n))"
  proof (cases "start \<le> in_start n")
    case True
    then show ?thesis
      using False le by (cases "in_stop n \<le> stop") (auto simp: clip_interval_def max_absorb2 min_absorb1 min_absorb2)
  next
    case less: False
    then show ?thesis
      using False le by (cases "stop \<le> in_stop n") (auto simp: clip_interval_def max_absorb1 min_absorb1 min_absorb2)
  qed
  ultimately show ?thesis by simp
qed

lemma search_loop_no_add:
  "(\<And>a b l. add a b l = l) \<Longrightarrow> search_loop add ch a b prev eof n bs l = l"
  by (induction add ch a b prev eof n bs l rule: search_loop.induct)
    (auto simp: Let_def split: prod.splits option.splits)


subsection \<open>Recording an action\<close>

definition write_manage_tail ::
  "io \<Rightarrow> files \<Rightarrow> string \<Rightarrow> cfile \<Rightarrow> int \<Rightarrow> index_node \<Rightarrow> int \<times> files \<times> io" where
  "write_manage_tail w fs name fp count node =
     (let (ret, fp, w) = fwrite1 (encode_node node) (fseek_end fp) w in
      if ret \<noteq> 1 then (-1, fs(name \<mapsto> fdata fp), w)
      else let (ret, fp, w) = fwrite1 (le_int (count + 1)) (fseek_set 0 fp) w in
        if ret \<noteq> 1 then (-1, fs(name \<mapsto> fdata fp), w) else (0, fs(name \<mapsto> fdata fp), w))"

text \<open>\<open>can_open\<close>: whether the card lets a file be opened for writing. Opening the empty name fails.\<close>

definition write_manage_info ::
  "(string \<Rightarrow> bool) \<Rightarrow> io \<Rightarrow> files \<Rightarrow> cuint \<Rightarrow> cuint \<Rightarrow> u64 \<Rightarrow> u64 \<Rightarrow> int \<times> files \<times> io" where
  "write_manage_info can_open w fs type ch_num start stop =
     (let name = index_file_of type;
          node = \<lparr>in_ch = ch_num, in_start = start, in_stop = stop\<rparr> in
      case fs name of
        None \<Rightarrow>
          if name = [] \<or> \<not> can_open name then (-1, fs, w)
          else let (ret, fp, w) = fwrite1 (le_int 0) \<lparr>fdata = [], fpos = 0\<rparr> w in
            if ret \<noteq> 1 then (-1, fs(name \<mapsto> fdata fp), w)
            else write_manage_tail w fs name fp 0 node
      | Some bs \<Rightarrow>
          if name = [] \<or> \<not> can_open name then (-1, fs, w)
          else let (ret, b, fp) = fread1 4 \<lparr>fdata = bs, fpos = 0\<rparr> in
            if ret \<noteq> 1 then (-1, fs, w) else write_manage_tail w fs name fp (get_int b) node)"

definition index_image :: "index_node list \<Rightarrow> byte list" where
  "index_image ns = le_int (int (length ns)) @ concat (map encode_node ns)"

lemma take_index_image: "take 4 (index_image ns) = le_int (int (length ns))"
  by (simp add: index_image_def)

lemma drop_index_image: "drop 4 (index_image ns) = concat (map encode_node ns)"
  by (simp add: index_image_def)

lemma length_nodes [simp]: "length (concat (map encode_node ns)) = 24 * length ns"
  by (induction ns) simp_all

lemma length_index_image: "length (index_image ns) = 4 + 24 * length ns"
  by (simp add: index_image_def)

lemma get_int_index_image: "length ns < 2 ^ 31 \<Longrightarrow> get_int (index_image ns) = int (length ns)"
  by (simp add: index_image_def in_int32_def)

lemma le_int_not_Nil [simp]: "le_int i \<noteq> []"
  using length_le_int [of i] by fastforce

lemma encode_node_not_Nil [simp]: "encode_node n \<noteq> []"
  using length_encode_node [of n] by fastforce

lemma write_manage_tail_ok:
  assumes "no_faults w" "fdata fp = index_image ns"
  shows "write_manage_tail w fs name fp (int (length ns)) node =
    (0, fs(name \<mapsto> index_image (ns @ [node])), w\<lparr>ncall := Suc (Suc (ncall w))\<rparr>)"
proof -
  have e: "file_put (encode_node node) (fseek_end fp) =
      fp\<lparr>fdata := index_image ns @ encode_node node, fpos := length (index_image ns) + 24\<rparr>"
    using assms(2) by (subst file_put_end) (simp_all add: fseek_end_def)
  have c: "file_put (le_int (int (length ns) + 1))
        (fseek_set 0 (fp\<lparr>fdata := index_image ns @ encode_node node, fpos := p\<rparr>)) =
      fp\<lparr>fdata := index_image (ns @ [node]), fpos := 4\<rparr>" for p
    by (subst file_put_inside)
      (simp_all add: fseek_set_def put_at_def index_image_def ac_simps)
  show ?thesis
    using assms(1) by (simp add: write_manage_tail_def fwrite1_ok e c)
qed

lemma write_manage_info_appends:
  assumes "no_faults w" "index_file_of ty \<noteq> []" "can_open (index_file_of ty)"
    and "fs (index_file_of ty) = (if ns = [] \<and> new then None else Some (index_image ns))"
    and "length ns < 2 ^ 31"
  shows "\<exists>w'. write_manage_info can_open w fs ty ch a b =
    (0, fs(index_file_of ty \<mapsto> index_image (ns @ [\<lparr>in_ch = ch, in_start = a, in_stop = b\<rparr>])), w')"
proof (cases "ns = [] \<and> new")
  case True
  have "file_put (le_int 0) \<lparr>fdata = [], fpos = 0\<rparr> = \<lparr>fdata = index_image [], fpos = 4\<rparr>"
    by (subst file_put_end) (simp_all add: index_image_def)
  then show ?thesis
    using assms True write_manage_tail_ok [of "w\<lparr>ncall := Suc (ncall w)\<rparr>" "\<lparr>fdata = index_image [], fpos = 4\<rparr>" "[]"]
    by (simp add: write_manage_info_def fwrite1_ok)
next
  case False
  have "fread1 4 \<lparr>fdata = index_image ns, fpos = 0\<rparr> =
      (1, le_int (int (length ns)), \<lparr>fdata = index_image ns, fpos = 4\<rparr>)"
    by (simp add: fread1_def length_index_image slice_def take_index_image)
  then show ?thesis
    using assms False write_manage_tail_ok [of w "\<lparr>fdata = index_image ns, fpos = 4\<rparr>" ns]
      get_int_le_int [of "int (length ns)" "[]"]
    by (simp add: write_manage_info_def in_int32_def)
qed

subsection \<open>Looking a file up in the other indexes\<close>

text \<open>The inner loop: \<open>Inl ()\<close> is the early \<open>return 0\<close>, \<open>Inr i\<close> the loop counter it leaves behind.\<close>

fun check_nodes :: "u64 \<Rightarrow> u64 \<Rightarrow> bool \<Rightarrow> int \<Rightarrow> nat \<Rightarrow> byte list \<Rightarrow> unit + int" where
  "check_nodes begin end eof i 0 bs = Inr i"
| "check_nodes begin end eof i (Suc n) bs =
     (if eof then Inr i
      else let (b, rest, eof') = read_node bs; node = decode_node b in
        if begin = in_start node \<and> end = in_stop node then Inl ()
        else check_nodes begin end eof' (i + 1) n rest)"

text \<open>
  The outer loop shares the counter \<open>i\<close> with the inner one, so its number of rounds has no bound
  in the code: the first argument is fuel, \<open>None\<close> that it ran out.
\<close>

fun check_types :: "nat \<Rightarrow> files \<Rightarrow> u64 \<Rightarrow> u64 \<Rightarrow> int \<Rightarrow> int \<Rightarrow> int \<Rightarrow> int option" where
  "check_types 0 fs begin end type count i = None"
| "check_types (Suc fuel) fs begin end type count i =
     (if \<not> i \<le> 4 then Some 1
      else if type = i then check_types fuel fs begin end type count (i + 1)
      else case fs (index_file_of (word_of_int i)) of
        None \<Rightarrow> check_types fuel fs begin end type count (i + 1)
      | Some bs \<Rightarrow>
          let count' = get_int (take 4 bs @ drop (length bs) (le_int count)) in
          case check_nodes begin end (length bs < 4) 0 (nat count') (drop 4 bs) of
            Inl _ \<Rightarrow> Some 0
          | Inr j \<Rightarrow> check_types fuel fs begin end type count' (j + 1))"

definition search_check_file_node :: "nat \<Rightarrow> u64 \<Rightarrow> files \<Rightarrow> string \<Rightarrow> int \<Rightarrow> int option" where
  "search_check_file_node fuel junk fs file type =
     (let begin = (case avi_get_start_time file of None \<Rightarrow> junk | Some t \<Rightarrow> t);
          end = (case avi_get_stop_time file of None \<Rightarrow> junk | Some t \<Rightarrow> t)
      in check_types fuel fs begin end type 0 1)"

lemma index_file_manu: "index_file_of 1 = GRD_SD_MOUNT_POINT @ ''/.manu''"
  by (simp add: index_file_of_def SDK_RECORD_TYPE_MANU_def SDK_RECORD_TYPE_SCHED_def
      SDK_RECORD_TYPE_MOTION_def SDK_RECORD_TYPE_ALARM_def)

lemma check_types_stuck:
  "fs (index_file_of 1) = Some (index_image []) \<Longrightarrow> type \<noteq> 1 \<Longrightarrow> check_types fuel fs a b type c 1 = None"
proof (induction fuel arbitrary: c)
  case (Suc fuel)
  have "get_int (index_image []) = 0" "length (index_image []) = 4"
    using get_int_index_image [of "[]"] by (simp_all add: length_index_image)
  moreover have "drop 4 (le_int c) = []" by simp
  ultimately show ?case using Suc by simp
qed simp

subsection \<open>Removing a node and a file\<close>

definition near5 :: "u64 \<Rightarrow> u64 \<Rightarrow> bool" where
  "near5 a b = (0 \<le> \<bar>sint (a - b)\<bar> \<and> \<bar>sint (a - b)\<bar> \<le> 5)"

definition rm_match :: "u64 \<Rightarrow> u64 \<Rightarrow> index_node \<Rightarrow> bool" where
  "rm_match begin end node =
     (begin = in_start node \<and> end = in_stop node \<or>
      near5 begin (in_start node) \<and> near5 end (in_stop node))"

text \<open>
  The copying loop: the value of \<open>i\<close> it stops with, the bytes copied into \<open>buf\<close>, and what is left
  of the file.
\<close>

fun rm_scan :: "u64 \<Rightarrow> u64 \<Rightarrow> bool \<Rightarrow> nat \<Rightarrow> nat \<Rightarrow> byte list \<Rightarrow> byte list \<Rightarrow> nat \<times> byte list \<times> byte list" where
  "rm_scan begin end eof i 0 bs buf = (i, buf, bs)"
| "rm_scan begin end eof i (Suc n) bs buf =
     (if eof then (i, buf, bs)
      else let (b, rest, eof') = read_node bs in
        if rm_match begin end (decode_node b) then (i, buf, rest)
        else rm_scan begin end eof' (Suc i) n rest (buf @ b))"

text \<open>The zeroed buffer of \<open>count\<close> nodes after the loop and the \<^verbatim>\<open>fread\<close> of the remaining nodes.\<close>

definition rm_buffer :: "nat \<Rightarrow> nat \<Rightarrow> byte list \<Rightarrow> byte list \<Rightarrow> byte list" where
  "rm_buffer count i buf rest =
     (let b = (if count > i + 1 then buf @ take ((count - (i + 1)) * 24) rest else buf)
      in b @ replicate (count * 24 - length b) 0)"

text \<open>
  \<open>None\<close> for a negative count, where the size passed to \<^verbatim>\<open>fwrite\<close> is undefined. \<open>open1\<close> and \<open>open2\<close>
  are the two attempts to open the file for writing (the second after a remount).
\<close>

definition search_rm_node_by_name ::
  "u64 \<Rightarrow> bool \<Rightarrow> bool \<Rightarrow> io \<Rightarrow> files \<Rightarrow> string \<Rightarrow> cuint \<Rightarrow> (int \<times> files \<times> io) option" where
  "search_rm_node_by_name junk open1 open2 w fs file type =
     (let begin = (case avi_get_start_time file of None \<Rightarrow> junk | Some t \<Rightarrow> t);
          end = (case avi_get_stop_time file of None \<Rightarrow> junk | Some t \<Rightarrow> t);
          name = index_file_of type in
      case fs name of
        None \<Rightarrow> Some (-1, fs, w)
      | Some bs \<Rightarrow>
          if length bs < 4 then Some (-1, fs, w)
          else let count = get_int bs in
            if count < 0 then None
            else let (i, buf, rest) = rm_scan begin end False 0 (nat count) (drop 4 bs) [] in
              if nat count = i then Some (-2, fs, w)
              else let buf = rm_buffer (nat count) i buf rest in
                if \<not> open1 \<and> \<not> open2 then Some (-1, fs, w)
                else let (_, fp, w) = fwrite1 (le_int (count - 1)) \<lparr>fdata = [], fpos = 0\<rparr> w;
                         (_, fp, w) = fwrite1 (take (nat (count - 1) * 24) buf) fp w
                     in Some (0, fs(name \<mapsto> fdata fp), w))"

definition search_rm_file_by_name ::
  "u64 \<Rightarrow> (string \<Rightarrow> bool) \<Rightarrow> (string \<Rightarrow> int) \<Rightarrow> string \<Rightarrow> int \<times> string list" where
  "search_rm_file_by_name junk access gm_system_cmd file =
     (let begin = (case avi_get_start_time file of None \<Rightarrow> junk | Some t \<Rightarrow> t);
          date = sint (ucast (begin div 1000000) :: cuint);
          dirPath = take 31 (GRD_SD_MOUNT_POINT @ ''/'' @ show_int date);
          filePath = take 63 (dirPath @ ''/'' @ file)
      in if access filePath
         then let cmd = ''rm '' @ filePath @ ''  -f''; cmd = [] in (gm_system_cmd cmd, [cmd])
         else (-2, []))"

lemma rm_scan_none:
  "\<forall>n \<in> set ns. \<not> rm_match a b n \<Longrightarrow>
   rm_scan a b False i (length ns) (concat (map encode_node ns) @ rest) buf =
     (i + length ns, buf @ concat (map encode_node ns), rest)"
  by (induction ns arbitrary: i buf) simp_all

lemma rm_scan_hit:
  "\<forall>n \<in> set xs. \<not> rm_match a b n \<Longrightarrow> rm_match a b x \<Longrightarrow>
   rm_scan a b False i (length xs + Suc k) (concat (map encode_node xs) @ encode_node x @ rest) buf =
     (i + length xs, buf @ concat (map encode_node xs), rest)"
  by (induction xs arbitrary: i buf) simp_all

lemma index_image_Cons_app:
  "index_image (xs @ x # ys) = le_int (int (length (xs @ x # ys))) @
     concat (map encode_node xs) @ encode_node x @ concat (map encode_node ys)"
  by (simp add: index_image_def)

lemma search_rm_node_hit:
  assumes "no_faults w" "length (xs @ x # ys) < 2 ^ 31"
    and "fs (index_file_of ty) = Some (index_image (xs @ x # ys))"
    and "avi_get_start_time file = Some a" "avi_get_stop_time file = Some b"
    and "\<forall>n \<in> set xs. \<not> rm_match a b n" "rm_match a b x" "open1"
  shows "\<exists>w'. search_rm_node_by_name junk open1 open2 w fs file ty =
    Some (0, fs(index_file_of ty \<mapsto> index_image (xs @ ys)), w')"
proof -
  define X Y where "X = concat (map encode_node xs)" and "Y = concat (map encode_node ys)"
  define i n where "i = length xs" and "n = length xs + Suc (length ys)"
  have lX: "length X = 24 * i" and lY: "length Y = 24 * (n - Suc i)"
    by (simp_all add: X_def Y_def i_def n_def)
  have i_n: "i < n" by (simp add: i_def n_def)
  have cnt: "get_int (index_image (xs @ x # ys)) = int n"
    using get_int_index_image [OF assms(2)] by (simp add: n_def)
  have len: "\<not> length (index_image (xs @ x # ys)) < 4" by (simp add: length_index_image)
  have scan: "rm_scan a b False 0 n (drop 4 (index_image (xs @ x # ys))) [] = (i, X, Y)"
    using rm_scan_hit [OF assms(6,7), of 0 "length ys" Y "[]"]
    by (simp add: drop_index_image X_def Y_def i_def n_def)
  have hdr: "fwrite1 (le_int (int n - 1)) \<lparr>fdata = [], fpos = 0\<rparr> w =
      (1, \<lparr>fdata = le_int (int n - 1), fpos = 4\<rparr>, w\<lparr>ncall := Suc (ncall w)\<rparr>)"
    using assms(1) by (simp add: fwrite1_ok file_put_def)
  have img: "index_image (xs @ ys) = le_int (int n - 1) @ X @ Y"
    by (simp add: index_image_def X_def Y_def n_def)
  have tk: "take (nat (int n - 1) * 24) (rm_buffer n i X Y) = X @ Y"
    using lX lY i_n by (auto simp: rm_buffer_def nat_diff_distrib mult.commute)
  have body: "\<exists>w'. fwrite1 (X @ Y) \<lparr>fdata = le_int (int n - 1), fpos = 4\<rparr>
      (w\<lparr>ncall := Suc (ncall w)\<rparr>) = (fst w', \<lparr>fdata = index_image (xs @ ys), fpos = fst (snd w')\<rparr>, snd (snd w'))"
  proof (cases "X @ Y = []")
    case True
    then show ?thesis unfolding img by (auto simp: fwrite1_def)
  next
    case False
    then show ?thesis
      using assms(1) by (subst fwrite1_ok) (auto simp: file_put_def img)
  qed
  then obtain r p w' where body: "fwrite1 (X @ Y) \<lparr>fdata = le_int (int n - 1), fpos = 4\<rparr>
      (w\<lparr>ncall := Suc (ncall w)\<rparr>) = (r, \<lparr>fdata = index_image (xs @ ys), fpos = p\<rparr>, w')"
    by (metis prod.collapse)
  show ?thesis
    using assms(3-5,8) len cnt i_n
    by (simp add: search_rm_node_by_name_def scan Let_def hdr tk body)
qed

lemma search_rm_node_miss:
  assumes "length ns < 2 ^ 31" "fs (index_file_of ty) = Some (index_image ns)"
    and "avi_get_start_time file = Some a" "avi_get_stop_time file = Some b"
    and "\<forall>n \<in> set ns. \<not> rm_match a b n"
  shows "search_rm_node_by_name junk open1 open2 w fs file ty = Some (-2, fs, w)"
  using assms get_int_index_image [OF assms(1)] rm_scan_none [OF assms(5), of 0 "[]" "[]"]
  by (simp add: search_rm_node_by_name_def length_index_image drop_index_image)


section \<open>The list as a cursor\<close>

definition file_step :: "file_list \<Rightarrow> (file_node \<times> file_list) option" where
  "file_step list = (case get_file_node list of
       (code, Some n, list') \<Rightarrow> Some (n, list')
     | _ \<Rightarrow> None)"

definition files_left :: "file_list \<Rightarrow> file_node list" where
  "files_left list = drop (unat (fl_index list)) (fl_nodes list)"

lemma index_lt:
  assumes "wf_list l" "fl_index l \<noteq> fl_len l"
  shows "unat (fl_index l) < length (fl_nodes l)"
proof -
  have "unat (fl_len l) = length (fl_nodes l)" using assms(1) by (simp add: wf_list_def unat_of_small)
  moreover have "unat (fl_index l) \<noteq> unat (fl_len l)" using assms(2) by (simp add: word_unat_eq_iff)
  ultimately show ?thesis using assms(1) by (simp add: wf_list_def)
qed

lemma unat_Suc: "unat (x :: cuint) < n \<Longrightarrow> n < 2 ^ 32 \<Longrightarrow> unat (x + 1) = Suc (unat x)"
  by (simp add: unat_word_ariths)

interpretation fl: cursor wf_list files_left file_step
proof (unfold_locales, goal_cases)
  case (1 l)
  then have "fl_nodes l = [] \<or> fl_index l = fl_len l"
    by (auto simp: file_step_def get_file_node_def is_empty_list_def split: if_splits)
  then show ?case
    using 1(1) unat_of_small by (auto simp: files_left_def wf_list_def)
next
  case (2 l x l')
  then have ne: "fl_index l \<noteq> fl_len l"
    and x: "x = fl_nodes l ! unat (fl_index l)" and l': "l' = l\<lparr>fl_index := fl_index l + 1\<rparr>"
    by (auto simp: file_step_def get_file_node_def is_empty_list_def split: if_splits)
  have lt: "unat (fl_index l) < length (fl_nodes l)" using index_lt 2(1) ne by blast
  have "unat (fl_index l + 1) = Suc (unat (fl_index l))"
    using lt 2(1) unat_Suc by (simp add: wf_list_def)
  then show ?case
    using lt 2(1) by (simp add: l' x wf_list_def files_left_def Cons_nth_drop_Suc)
qed

section \<open>Properties\<close>

text \<open>a time whose fields print in their widths survives the conversion to the 14 digit number
  that names recordings and back.\<close>

theorem time_roundtrip: "printable_time p \<Longrightarrow> u64t_to_time (time_to_u64t p) = p"
  by (rule u64t_time_roundtrip)

lemma time_roundtrip_witness:
  "u64t_to_time (time_to_u64t \<lparr>st_year = 2015, st_mon = 1, st_day = 27, st_hour = 10, st_min = 45, st_sec = 12\<rparr>)
   = \<lparr>st_year = 2015, st_mon = 1, st_day = 27, st_hour = 10, st_min = 45, st_sec = 12\<rparr>"
  by (rule time_roundtrip) (simp add: printable_time_def)

text \<open>inserting a file into a search result keeps the list strictly ordered by start time with a
  correct length, and adds exactly the new node unless one with the same start is there.\<close>

theorem insert_node_correct:
  assumes "wf_list l" "Suc (length (fl_nodes l)) < 2 ^ 32"
  shows "case insert_node junk True l path of (ret, l') \<Rightarrow>
    ret = 0 \<and> wf_list l' \<and>
    set (fl_nodes l') = (if \<exists>q \<in> set (fl_nodes l). fn_start q = fn_start (new_node junk path)
      then set (fl_nodes l) else insert (new_node junk path) (set (fl_nodes l)))"
proof -
  have "wf_list (snd (insert_node junk True l path))" using wf_insert_node assms by blast
  moreover have "insert_walk (new_node junk path) (fl_nodes l) = None \<longleftrightarrow>
      (\<exists>q \<in> set (fl_nodes l). fn_start q = fn_start (new_node junk path))"
    using assms(1) by (intro insert_walk_None) (simp add: wf_list_def)
  ultimately show ?thesis
    by (auto simp: insert_node_def insert_walk_set split: option.splits)
qed

lemma insert_node_correct_witness:
  "case insert_node 0 True (creat_empty_list 2 0 0 9) ''/mnt/sd_card/20150127/ch0_20150127104512_20150127104542.avi'' of
     (ret, l') \<Rightarrow> ret = 0 \<and> wf_list l' \<and> length (fl_nodes l') = 1"
proof -
  have "fl_nodes (creat_empty_list 2 0 0 9) = []" by (simp add: creat_empty_list_def)
  then show ?thesis
    using insert_node_correct [OF wf_creat_empty_list, of 2 0 0 9 0
        "''/mnt/sd_card/20150127/ch0_20150127104512_20150127104542.avi''"]
    by (simp add: insert_node_def creat_empty_list_def)
qed

text \<open>repeated calls of \<^verbatim>\<open>get_file_node\<close> on a fresh search result hand out every file found, in
  start order and once each, and then report that there are no more.\<close>

theorem get_file_node_enumerates:
  assumes "wf_list l" "fl_index l = 0"
  shows "drain file_step (Suc (length (fl_nodes l))) l = fl_nodes l"
  using fl.drain_all [OF assms(1), of "Suc (length (fl_nodes l))"] assms(2)
  by (simp add: files_left_def)

lemma get_file_node_enumerates_witness:
  "drain file_step (Suc (Suc 0)) (snd (insert_node 7 True (creat_empty_list 2 0 0 9) ''x'')) = [new_node 7 ''x'']"
  using get_file_node_enumerates [of "snd (insert_node 7 True (creat_empty_list 2 0 0 9) ''x'')"]
    wf_insert_node [OF wf_creat_empty_list, of 2 0 0 9 7 True "''x''"]
  by (simp add: insert_node_def creat_empty_list_def del: drain.simps)

text \<open>\<^verbatim>\<open>search_close\<close> terminates on every well-formed list and frees all of its nodes.\<close>

theorem search_close_total:
  "wf_list l \<Longrightarrow> search_close l = Some (l\<lparr>fl_nodes := [], fl_len := 0\<rparr>)"
  by (rule search_close_drains) (auto simp: wf_list_def)

lemma search_close_total_witness:
  "search_close (creat_empty_list 2 0 0 9) = Some (creat_empty_list 2 0 0 9)"
  using search_close_total [OF wf_creat_empty_list [of 2 0 0 9]] by (simp add: creat_empty_list_def)

text \<open>C28: with a working card, recording an action appends its node to the index file of its type and
  keeps the count at the head of the file equal to the number of nodes; no other file changes.\<close>

theorem write_manage_info_correct:
  assumes "no_faults w" "index_file_of ty \<noteq> []" "can_open (index_file_of ty)"
    and "fs (index_file_of ty) = Some (index_image ns) \<or> fs (index_file_of ty) = None \<and> ns = []"
    and "length ns < 2 ^ 31"
  shows "\<exists>w'. write_manage_info can_open w fs ty ch a b =
    (0, fs(index_file_of ty \<mapsto> index_image (ns @ [\<lparr>in_ch = ch, in_start = a, in_stop = b\<rparr>])), w')"
proof -
  have "fs (index_file_of ty) =
      (if ns = [] \<and> fs (index_file_of ty) = None then None else Some (index_image ns))"
    using assms(4) by auto
  then show ?thesis using write_manage_info_appends assms(1-3,5) by blast
qed

lemma write_manage_info_correct_witness:
  "\<exists>w'. write_manage_info (\<lambda>_. True) \<lparr>fault = \<lambda>_. None, ncall = 0, utc = \<lambda>_. 0\<rparr> (\<lambda>_. None) 3 0 20150127104512 20150127104542 =
    (0, [index_file_of 3 \<mapsto> index_image [\<lparr>in_ch = 0, in_start = 20150127104512, in_stop = 20150127104542\<rparr>]], w')"
  using write_manage_info_correct [of "\<lparr>fault = \<lambda>_. None, ncall = 0, utc = \<lambda>_. 0\<rparr>" 3 "\<lambda>_. True" "\<lambda>_. None" "[]"
      0 20150127104512 20150127104542]
  by (simp add: no_faults_def index_file_of_def SDK_RECORD_TYPE_SCHED_def SDK_RECORD_TYPE_MOTION_def)

text \<open>removing a recording from an index file deletes the first node whose times agree with the file
  name (to within five units), keeps the others in order and the count correct; when no node agrees,
  the result is -2 and nothing changes.\<close>

theorem search_rm_node_correct:
  assumes "no_faults w" "length ns < 2 ^ 31" "fs (index_file_of ty) = Some (index_image ns)"
    and "avi_get_start_time file = Some a" "avi_get_stop_time file = Some b"
  shows "((\<exists>n \<in> set ns. rm_match a b n) \<longrightarrow>
      (\<exists>xs x ys w'. ns = xs @ x # ys \<and> rm_match a b x \<and> (\<forall>n \<in> set xs. \<not> rm_match a b n) \<and>
        search_rm_node_by_name junk True open2 w fs file ty =
          Some (0, fs(index_file_of ty \<mapsto> index_image (xs @ ys)), w'))) \<and>
    ((\<forall>n \<in> set ns. \<not> rm_match a b n) \<longrightarrow>
      search_rm_node_by_name junk True open2 w fs file ty = Some (-2, fs, w))"
proof (rule conjI)
  show "(\<exists>n \<in> set ns. rm_match a b n) \<longrightarrow>
      (\<exists>xs x ys w'. ns = xs @ x # ys \<and> rm_match a b x \<and> (\<forall>n \<in> set xs. \<not> rm_match a b n) \<and>
        search_rm_node_by_name junk True open2 w fs file ty =
          Some (0, fs(index_file_of ty \<mapsto> index_image (xs @ ys)), w'))"
  proof
    assume "\<exists>n \<in> set ns. rm_match a b n"
    then obtain xs x ys where s: "ns = xs @ x # ys" "rm_match a b x" "\<forall>n \<in> set xs. \<not> rm_match a b n"
      using split_list_first_prop [of ns "rm_match a b"] by blast
    have "length (xs @ x # ys) < 2 ^ 31" "fs (index_file_of ty) = Some (index_image (xs @ x # ys))"
      using assms(2,3) s(1) by simp_all
    from search_rm_node_hit [where xs = xs and x = x and ys = ys and fs = fs and ty = ty, OF assms(1) this assms(4,5) s(3,2) TrueI]
    show "\<exists>xs x ys w'. ns = xs @ x # ys \<and> rm_match a b x \<and> (\<forall>n \<in> set xs. \<not> rm_match a b n) \<and>
        search_rm_node_by_name junk True open2 w fs file ty =
          Some (0, fs(index_file_of ty \<mapsto> index_image (xs @ ys)), w')"
      using s by blast
  qed
qed (use search_rm_node_miss assms in blast)

lemma search_rm_node_correct_witness:
  "search_rm_node_by_name 0 True True \<lparr>fault = \<lambda>_. None, ncall = 0, utc = \<lambda>_. 0\<rparr>
     [index_file_of 3 \<mapsto> index_image [\<lparr>in_ch = 0, in_start = 1, in_stop = 2\<rparr>]]
     ''ch0_20150127104512_20150127104542.avi'' 3 =
   Some (-2, [index_file_of 3 \<mapsto> index_image [\<lparr>in_ch = 0, in_start = 1, in_stop = 2\<rparr>]],
     \<lparr>fault = \<lambda>_. None, ncall = 0, utc = \<lambda>_. 0\<rparr>)"
proof -
  have t: "avi_get_start_time ''ch0_20150127104512_20150127104542.avi'' = Some 20150127104512"
    "avi_get_stop_time ''ch0_20150127104512_20150127104542.avi'' = Some 20150127104542"
    by (simp_all add: avi_get_start_time_def avi_get_stop_time_def avi_substring_def slice_def atoi_def
        is_digit_char_def digit_val_def is_space_char_def)
  have m: "\<not> rm_match 20150127104512 20150127104542 \<lparr>in_ch = 0, in_start = 1, in_stop = 2\<rparr>"
    by (simp add: rm_match_def near5_def)
  show ?thesis
    using search_rm_node_correct [of "\<lparr>fault = \<lambda>_. None, ncall = 0, utc = \<lambda>_. 0\<rparr>"
        "[\<lparr>in_ch = 0, in_start = 1, in_stop = 2\<rparr>]" "[index_file_of 3 \<mapsto> index_image [\<lparr>in_ch = 0, in_start = 1, in_stop = 2\<rparr>]]"
        3 "''ch0_20150127104512_20150127104542.avi''" 20150127104512 20150127104542 0 True] t m
    by (simp add: no_faults_def)
qed

text \<open>a search by time never returns a file: the flag that lets \<^verbatim>\<open>add_to_list\<close> look into a date
  directory is only set on a preprocessor line, so whatever the card holds the list stays empty.\<close>

theorem search_by_time_finds_nothing:
  "search_file_by_time junk malloc_ok opendir fs ty ch start stop = Some l \<Longrightarrow> fl_nodes l = []"
  by (auto simp: search_file_by_time_def add_to_list_nothing search_loop_no_add creat_empty_list_def Let_def
      split: if_splits option.splits)

lemma search_by_time_finds_nothing_witness:
  "fl_nodes (creat_empty_list 9 0 1 2) = []"
  by (rule search_by_time_finds_nothing [of 0 True "\<lambda>_. None" "\<lambda>_. None" 9 0 1 2])
    (simp add: search_file_by_time_def index_file_of_def add_to_list_def SDK_RECORD_TYPE_MANU_def
      SDK_RECORD_TYPE_SCHED_def SDK_RECORD_TYPE_MOTION_def SDK_RECORD_TYPE_ALARM_def)

text \<open>Looking a file up never returns once the \<^verbatim>\<open>.manu\<close> index is empty (as removing its last
  node leaves it) and another type is asked for: the inner loop resets the shared counter.\<close>

theorem search_check_file_node_stuck:
  "fs (index_file_of 1) = Some (index_image []) \<Longrightarrow> type \<noteq> 1 \<Longrightarrow>
   search_check_file_node fuel junk fs file type = None"
  by (simp add: search_check_file_node_def Let_def check_types_stuck)

lemma search_check_file_node_stuck_witness:
  "search_check_file_node 1000 0 [index_file_of 1 \<mapsto> index_image []] ''ch0_20150127104512_20150127104542.avi'' 2 = None"
  by (rule search_check_file_node_stuck) simp_all

end
