(* ===== verification/AviRec.thy ===== *)
theory AviRec
  imports AviFormat AviSearch "HOL-Library.Monad_Syntax"
begin

text \<open>
  The recorder (\<^verbatim>\<open>storage/src/grd_avi_rec_api.c\<close>): opening a recording, buffering frames and their
  index entries, writing them out, and closing the file with its index and final header. \<open>None\<close>
  stands for undefined behaviour of the C code (a division by zero, an access outside an array, an
  invalid pointer). \<^verbatim>\<open>fopen\<close>, \<^verbatim>\<open>mkdir\<close>, \<^verbatim>\<open>rename\<close> and \<^verbatim>\<open>remove\<close> ask the environment like \<^verbatim>\<open>fwrite\<close> does.
\<close>

section \<open>State\<close>

definition REC_BUF_SIZE :: nat where "REC_BUF_SIZE = 512 * 1024"
definition DATA_SAVE_NUM :: nat where "DATA_SAVE_NUM = 100"
definition ONE_INDEX_SIZE :: nat where "ONE_INDEX_SIZE = 16"
definition INDEX_ARRAY_MAX_NUMBER :: nat where "INDEX_ARRAY_MAX_NUMBER = 2048"
definition PB_BUF_SIZE :: cuint where "PB_BUF_SIZE = 2000000"

record avi_init_param =
  ip_bps :: int
  ip_fps :: int
  ip_width :: int
  ip_height :: int
  ip_codec_type :: int
  ip_type :: cuint
  ip_fcctype :: cuint
  ip_a_enc_type :: int
  ip_a_chans :: int
  ip_a_rate :: int
  ip_a_bits :: int
  ip_ch_num :: int
  ip_mode :: int
  ip_size_m :: int
  ip_duration :: int

text \<open>
  The handle. \<open>af_file\<close> is the recording on the card with the position of the handle, \<open>af_fopen\<close> whether
  the \<^verbatim>\<open>FILE *\<close> is not NULL; the same for the temporary index file.
\<close>

record avi_file =
  af_file :: cfile
  af_fopen :: bool
  filename :: string
  af_idx :: cfile
  af_iopen :: bool
  idxfilename :: string
  new_flag :: int
  event_buf_flag :: int
  normal_buf_flag :: int
  buf_index :: nat
  buf_offset :: nat
  data_offset :: nat
  video_count :: nat
  audio_bytes :: nat
  audio_count :: nat
  index_count :: nat
  idx_array :: "cuint list"
  idx_array_count :: int
  pre_index_pos :: nat
  duration :: cuint
  record_type :: int
  file_start :: u64
  file_stop :: u64
  init_param :: avi_init_param

text \<open>The globals of the file.\<close>

record rec_env =
  normal_data_array :: "byte list"
  event_data_array :: "byte list"
  g_sd_tats :: int
  g_a_bits :: int

text \<open>A handle cleared by \<^verbatim>\<open>memset\<close>, with the flags of the two arrays.\<close>

definition zero_file :: "int \<Rightarrow> int \<Rightarrow> avi_file" where
  "zero_file normal event =
     \<lparr>af_file = \<lparr>fdata = [], fpos = 0\<rparr>, af_fopen = False, filename = [], af_idx = \<lparr>fdata = [], fpos = 0\<rparr>,
      af_iopen = False, idxfilename = [], new_flag = 0, event_buf_flag = event, normal_buf_flag = normal,
      buf_index = 0, buf_offset = 0, data_offset = 0, video_count = 0, audio_bytes = 0, audio_count = 0,
      index_count = 0, idx_array = replicate INDEX_ARRAY_MAX_NUMBER 0, idx_array_count = 0, pre_index_pos = 0,
      duration = 0, record_type = 0, file_start = 0, file_stop = 0,
      init_param = \<lparr>ip_bps = 0, ip_fps = 0, ip_width = 0, ip_height = 0, ip_codec_type = 0, ip_type = 0,
        ip_fcctype = 0, ip_a_enc_type = 0, ip_a_chans = 0, ip_a_rate = 0, ip_a_bits = 0, ip_ch_num = 0,
        ip_mode = 0, ip_size_m = 0, ip_duration = 0\<rparr>\<rparr>"

definition a_chans :: int where "a_chans = 1"
definition a_rate :: int where "a_rate = 8000"

definition samplesize_of :: "int \<Rightarrow> int" where
  "samplesize_of bits = (let s = cdiv (bits + 7) 8 * a_chans in if s = 0 then 1 else s)"

definition os_call :: "io \<Rightarrow> bool \<times> io" where
  "os_call w = (fault w (ncall w) = None, w\<lparr>ncall := Suc (ncall w)\<rparr>)"

lemma os_call_ok [simp]: "no_faults w \<Longrightarrow> os_call w = (True, w\<lparr>ncall := Suc (ncall w)\<rparr>)"
  by (simp add: os_call_def no_faults_def)

section \<open>Header\<close>

definition set_codec :: "avi_init_param \<Rightarrow> avi_init_param" where
  "set_codec p =
     (let H264 = MAKE_FOURCC CHR ''H'' CHR ''2'' CHR ''6'' CHR ''4'';
          DIVX = MAKE_FOURCC CHR ''D'' CHR ''I'' CHR ''V'' CHR ''X'';
          MJPG = MAKE_FOURCC CHR ''M'' CHR ''J'' CHR ''P'' CHR ''G'';
          ty = (if ip_codec_type p = 0 then H264 else if ip_codec_type p = 1 then DIVX
                else if ip_codec_type p = 2 then MJPG else ip_type p);
          fcc = (if ty = H264 \<or> ty = DIVX \<or> ty = MJPG
                 then MAKE_FOURCC CHR ''v'' CHR ''i'' CHR ''d'' CHR ''s'' else ip_fcctype p)
      in p\<lparr>ip_type := ty, ip_fcctype := fcc\<rparr>)"

definition main_header_of :: "avi_init_param \<Rightarrow> nat \<Rightarrow> avi_main_header" where
  "main_header_of p vcount =
     \<lparr>mh_fcc = MAKE_FOURCC CHR ''a'' CHR ''v'' CHR ''i'' CHR ''h'', mh_cb = 56,
      dwMicroSecPerFrame = word_of_int (cdiv 1000000 (ip_fps p)),
      dwMaxBytesPerSec = word_of_int (cdiv (ip_bps p) 8), dwPaddingGranularity = 0,
      mh_dwFlags = 0x10 OR 0x10000, dwTotalFrames = word_of_nat vcount, mh_dwInitialFrames = 0,
      dwStreams = 2, mh_dwSuggestedBufferSize = PB_BUF_SIZE,
      dwWidth = word_of_int (ip_width p), dwHeight = word_of_int (ip_height p)\<rparr>"

definition video_header_of :: "avi_init_param \<Rightarrow> nat \<Rightarrow> avi_stream_header" where
  "video_header_of p vcount =
     \<lparr>sh_fcc = MAKE_FOURCC CHR ''s'' CHR ''t'' CHR ''r'' CHR ''h'', sh_cb = 56,
      fccType = ip_fcctype p, fccHandler = ip_type p, sh_dwFlags = 0, wPriority = 0, wLanguage = 0,
      sh_dwInitialFrames = 0, dwScale = word_of_int (cdiv 1000000 (ip_fps p)), dwRate = 1000000,
      dwStart = 0, dwLength = word_of_nat vcount, sh_dwSuggestedBufferSize = PB_BUF_SIZE,
      dwQuality = word_of_int (-1), dwSampleSize = word_of_int (ip_width p * ip_height p),
      rc_left = 0, rc_top = 0, rc_right = word_of_int (ip_width p), rc_bottom = word_of_int (ip_height p)\<rparr>"

definition bitmap_of :: "avi_init_param \<Rightarrow> bitmap_info_header" where
  "bitmap_of p =
     \<lparr>biSize = 40, biWidth = word_of_int (ip_width p), biHeight = word_of_int (ip_height p),
      biPlanes = 1, biBitCount = 24, biCompression = ip_type p,
      biSizeImage = word_of_int (ip_width p * ip_height p), biXPelsPerMeter = 0, biYPelsPerMeter = 0,
      biClrUsed = 0, biClrImportant = 0\<rparr>"

definition audio_header_of :: "avi_init_param \<Rightarrow> int \<Rightarrow> nat \<Rightarrow> avi_stream_header" where
  "audio_header_of p bits abytes =
     (let ss = samplesize_of bits in
      \<lparr>sh_fcc = MAKE_FOURCC CHR ''s'' CHR ''t'' CHR ''r'' CHR ''h'', sh_cb = 56,
       fccType = MAKE_FOURCC CHR ''a'' CHR ''u'' CHR ''d'' CHR ''s'',
       fccHandler = (if ip_a_enc_type p = 2 then 1 else if ip_a_enc_type p = 3 then 0
                     else MAKE_FOURCC CHR ''G'' CHR ''7'' CHR ''1'' CHR ''1''),
       sh_dwFlags = 0, wPriority = 0, wLanguage = 0, sh_dwInitialFrames = 0,
       dwScale = (if ip_a_enc_type p = 2 then 1024 else word_of_int ss),
       dwRate = word_of_int (ss * a_rate), dwStart = 0, dwLength = word_of_int (cdiv (int abytes) ss),
       sh_dwSuggestedBufferSize = 0, dwQuality = word_of_int (-1), dwSampleSize = word_of_int ss,
       rc_left = 0, rc_top = 0, rc_right = 0, rc_bottom = 0\<rparr>)"

definition audio_format_of :: "avi_init_param \<Rightarrow> int \<Rightarrow> audio_format_x" where
  "audio_format_of p bits =
     (let ss = samplesize_of bits in
      \<lparr>wFormatTag = (if ip_a_enc_type p = 0 then 6 else if ip_a_enc_type p = 1 then 7
                     else if ip_a_enc_type p = 2 then 0xff else if ip_a_enc_type p = 3 then 1 else 6),
       nChannels = word_of_int a_chans, nSamplesPerSec = word_of_int a_rate,
       nAvgBytesPerSec = (if ip_a_enc_type p = 2 then 4000 else word_of_int (a_rate * ss)),
       nBlockAlign = (if ip_a_enc_type p = 2 then 1024 else word_of_int ss),
       wBitsPerSample = word_of_int bits, cbSize = (if ip_a_enc_type p = 2 then 0 else 1)\<rparr>)"

definition build_header :: "avi_init_param \<Rightarrow> int \<Rightarrow> nat \<Rightarrow> nat \<Rightarrow> avi_header" where
  "build_header p bits vcount abytes =
     (let LIST = MAKE_FOURCC CHR ''L'' CHR ''I'' CHR ''S'' CHR ''T'';
          strl = MAKE_FOURCC CHR ''s'' CHR ''t'' CHR ''r'' CHR ''l'';
          strf = MAKE_FOURCC CHR ''s'' CHR ''t'' CHR ''r'' CHR ''f'' in
      \<lparr>fcc_riff = MAKE_FOURCC CHR ''R'' CHR ''I'' CHR ''F'' CHR ''F'', avi_len = 0,
       fcc_avi = MAKE_FOURCC CHR ''A'' CHR ''V'' CHR ''I'' CHR '' '',
       fcc_list_hdrl = LIST, hdrl_len = 314 - 20,
       fcc_hdrl = MAKE_FOURCC CHR ''h'' CHR ''d'' CHR ''r'' CHR ''l'',
       main_header = main_header_of p vcount,
       fcc_list_strl_video = LIST, size_strl_video = 212 - 96, fcc_strl_video = strl,
       video_header = video_header_of p vcount, fcc_strf_video = strf, size_video_format = 40,
       bmiHeader = bitmap_of p,
       fcc_list_strl_audio = LIST, size_strl_audio = 314 - 220, fcc_strl_audio = strl,
       audio_header = audio_header_of p bits abytes, fcc_strf_audio = strf, size_audio_format = 18,
       audio_format = audio_format_of p bits,
       fcc_list_movi = LIST, movi_len = 0,
       fcc_movi = MAKE_FOURCC CHR ''m'' CHR ''o'' CHR ''v'' CHR ''i''\<rparr>)"

definition avi_write_header :: "avi_file \<Rightarrow> rec_env \<Rightarrow> io \<Rightarrow> int \<times> avi_file \<times> rec_env \<times> io" where
  "avi_write_header af env w =
     (if g_sd_tats env < 0 then (-1, af, env, w)
      else let p = set_codec (init_param af);
               bits = (if ip_a_enc_type p = 3 then 16 else 8);
               env = env\<lparr>g_a_bits := bits\<rparr>;
               h = build_header p bits (video_count af) (audio_bytes af);
               af = af\<lparr>init_param := p, data_offset := sizeof_AviHeader\<rparr>;
               (ret, f, w) = fwrite1 (encode_header h) (af_file af) w;
               af = af\<lparr>af_file := f\<rparr>
           in if ret \<noteq> 1 then (-1, af, env, w) else (0, af, env, w))"

text \<open>A sequence of \<^verbatim>\<open>fseek\<close> / \<^verbatim>\<open>write_int32\<close> pairs that stops at the first failed write.\<close>

fun write_fields :: "(nat \<times> int) list \<Rightarrow> cfile \<Rightarrow> io \<Rightarrow> int \<times> cfile \<times> io" where
  "write_fields [] f w = (0, f, w)"
| "write_fields ((off, v) # rest) f w =
     (let (ret, f, w) = write_int32 v (fseek_set off f) w
      in if ret \<noteq> 1 then (-1, f, w) else write_fields rest f w)"

definition update_avi_header :: "avi_file \<Rightarrow> rec_env \<Rightarrow> io \<Rightarrow> (int \<times> avi_file \<times> io) option" where
  "update_avi_header af env w =
     (let avi_len = int (fpos (af_file af)) - 8;
          movi_len = int (data_offset af) - int sizeof_AviHeader + 4 in
      if g_sd_tats env < 0 then Some (-1, af, w)
      else let (ret, f, w) = write_fields [(4, avi_len), (sizeof_AviHeader - 8, movi_len), (48, int (video_count af))]
                               (af_file af) w;
               af = af\<lparr>af_file := f\<rparr> in
        if ret < 0 then Some (-1, af, w)
        else if video_count af = 0 then None
        else let per_frame = uint (duration af * 1000 div word_of_nat (video_count af));
                 audio_count = cdiv (int (audio_bytes af)) (samplesize_of (g_a_bits env));
                 (ret, f, w) = write_fields [(32, per_frame), (128, per_frame), (140, int (video_count af)),
                                 (264, audio_count)] f w;
                 af = af\<lparr>af_file := f\<rparr> in
          if ret < 0 then Some (-1, af, w)
          else let af = af\<lparr>duration := (if duration af < 1000 then 1000 else duration af)\<rparr>;
                   (ret, f, w) = write_fields [(256, 8000)] f w;
                   af = af\<lparr>af_file := f\<rparr>
               in if ret < 0 then Some (-1, af, w) else Some (0, af, w))"

section \<open>Index\<close>

function copy_index :: "nat \<Rightarrow> cfile \<Rightarrow> cfile \<Rightarrow> io \<Rightarrow> int \<times> cfile \<times> cfile \<times> io" where
  "copy_index left_count idx f w =
     (if left_count = 0 then (0, idx, f, w)
      else let n = (if 64 > left_count then left_count else 64);
               (ret, buf, idx) = fread1 (16 * n) idx in
        if ret \<noteq> 1 then (-1, idx, f, w)
        else let (ret, f, w) = fwrite1 buf f w in
          if ret \<noteq> 1 then (-1, idx, f, w) else copy_index (left_count - n) idx f w)"
  by auto
termination by (relation "measure fst") auto

declare copy_index.simps [simp del]

definition idx_bytes :: "avi_file \<Rightarrow> nat \<Rightarrow> byte list" where
  "idx_bytes af n = take (n * ONE_INDEX_SIZE) (ints_bytes (idx_array af))"

definition avi_add_index :: "avi_file \<Rightarrow> rec_env \<Rightarrow> io \<Rightarrow> (int \<times> avi_file \<times> io) option" where
  "avi_add_index af env w =
     (if g_sd_tats env < 0 then Some (-1, af, w)
      else let (ret, f, w) = write_fourcc (MAKE_FOURCC CHR ''i'' CHR ''d'' CHR ''x'' CHR ''1'') (af_file af) w;
               af = af\<lparr>af_file := f\<rparr> in
        if ret \<noteq> 1 then Some (-1, af, w)
        else let idx_count = pre_index_pos af;
                 (ret, i, w) = (if idx_count > 0 then fwrite1 (idx_bytes af idx_count) (af_idx af) w
                                else (1, af_idx af, w));
                 af = af\<lparr>af_idx := i\<rparr> in
          if ret \<noteq> 1 then Some (-1, af, w)
          else let af = af\<lparr>pre_index_pos := 0\<rparr>;
                   (ret, f, w) = write_int32 (16 * int (index_count af)) (af_file af) w;
                   af = af\<lparr>af_file := f\<rparr> in
            if ret \<noteq> 1 then Some (-1, af, w)
            else let (ret, i, f, w) = copy_index (index_count af) (fseek_set 0 (af_idx af)) (af_file af) w;
                     af = af\<lparr>af_idx := i, af_file := f\<rparr> in
              if ret < 0 then Some (-1, af, w)
              else case update_avi_header af env w of
                     None \<Rightarrow> None
                   | Some (ret, af, w) \<Rightarrow> Some (if ret < 0 then -1 else 0, af, w))"

definition avi_add_index_fixed :: "avi_file \<Rightarrow> rec_env \<Rightarrow> io \<Rightarrow> (int \<times> avi_file \<times> io) option" where
  "avi_add_index_fixed af env w =
     (if g_sd_tats env < 0 then Some (-1, af, w)
      else let (ret, f, w) = write_fourcc (MAKE_FOURCC CHR ''i'' CHR ''d'' CHR ''x'' CHR ''1'')
                               (fseek_end (af_file af)) w;
               af = af\<lparr>af_file := f\<rparr> in
        if ret \<noteq> 1 then Some (-1, af, w)
        else let (ret, f, w) = write_int32 (16 * int (index_count af)) (af_file af) w;
                 af = af\<lparr>af_file := f\<rparr> in
          if ret \<noteq> 1 then Some (-1, af, w)
          else let (ret, i, f, w) = copy_index (index_count af) (fseek_set 0 (af_idx af)) (af_file af) w;
                   af = af\<lparr>af_idx := i, af_file := f\<rparr> in
            if ret < 0 then Some (-1, af, w)
            else case update_avi_header af env w of
                   None \<Rightarrow> None
                 | Some (ret, af, w) \<Rightarrow> Some (if ret < 0 then -1 else 0, af, w))"

section \<open>Opening a recording\<close>

definition RECORD_FIXED_DURATION :: int where "RECORD_FIXED_DURATION = 2"

definition init_rec_param :: "avi_init_param \<Rightarrow> avi_init_param" where
  "init_rec_param p =
     (let compression_type = 96 :: int in
      \<lparr>ip_bps = 2048 * 1024, ip_fps = 25, ip_width = 1280, ip_height = 720,
       ip_codec_type = (if compression_type = 96 then 0 else if compression_type = 230 then 1
                        else if compression_type = 1002 then 2 else 0),
       ip_type = 0, ip_fcctype = 0, ip_a_enc_type = 0, ip_a_chans = 1, ip_a_rate = 8000, ip_a_bits = 8,
       ip_ch_num = 0, ip_mode = RECORD_FIXED_DURATION, ip_size_m = 50, ip_duration = 0\<rparr>)"

text \<open>
  The start of both opening routines: reset the counters and size the recording. \<open>frames_per_second\<close> is
  the estimate each of them uses; \<open>None\<close> is the error return for an unknown mode.
\<close>

definition size_record :: "int \<Rightarrow> avi_file \<Rightarrow> avi_file option" where
  "size_record frames_per_second af =
     (let af = af\<lparr>data_offset := 0, video_count := 0, audio_bytes := 0, index_count := 0, idx_array_count := 0\<rparr>;
          p = init_param af in
      if ip_mode p AND 1 \<noteq> 0 then Some af
      else if ip_mode p AND 2 \<noteq> 0 then
        Some (af\<lparr>idx_array_count := ip_duration p * frames_per_second * 2,
                 init_param := p\<lparr>ip_size_m :=
                   cdiv (cdiv (cdiv (cdiv (ip_bps p) 8) 1024 * ip_duration p * 3) 2) 1024 + 300\<rparr>\<rparr>)
      else None)"

text \<open>\<^verbatim>\<open>memset(idx_array, 0, INDEX_ARRAY_MAX_NUMBER)\<close> clears that many bytes, a quarter of the array.\<close>

definition clear_idx :: "cuint list \<Rightarrow> cuint list" where
  "clear_idx a = put_at 0 (replicate (INDEX_ARRAY_MAX_NUMBER div 4) 0) a"

definition reset_buffers :: "avi_file \<Rightarrow> avi_file" where
  "reset_buffers af = af\<lparr>buf_offset := 0, buf_index := 0\<rparr>"

definition close_file :: "avi_file \<Rightarrow> avi_file" where
  "close_file af = af\<lparr>af_fopen := False\<rparr>"

definition make_dir :: "(string \<Rightarrow> bool) \<Rightarrow> string \<Rightarrow> io \<Rightarrow> bool \<times> io" where
  "make_dir exists path w = (if exists path then (True, w) else os_call w)"

definition open_index :: "avi_file \<Rightarrow> io \<Rightarrow> bool \<times> avi_file \<times> io" where
  "open_index af w =
     (let af = af\<lparr>af_iopen := False, idxfilename := GRD_SD_MOUNT_POINT @ ''/'' @ show_nat (unat (file_start af))\<rparr>;
          (ok, w) = os_call w
      in if ok then (True, af\<lparr>af_idx := \<lparr>fdata = [], fpos = 0\<rparr>, af_iopen := True,
                              idx_array := clear_idx (idx_array af)\<rparr>, w)
         else (False, af, w))"

definition avi_normal_record_open ::
  "(string \<Rightarrow> bool) \<Rightarrow> tm \<Rightarrow> avi_file \<Rightarrow> rec_env \<Rightarrow> io \<Rightarrow> int \<times> avi_file \<times> rec_env \<times> io" where
  "avi_normal_record_open exists ptm af env w =
     (case size_record 30 af of
        None \<Rightarrow> (-1, af\<lparr>data_offset := 0, video_count := 0, audio_bytes := 0, index_count := 0,
                        idx_array_count := 0\<rparr>, env, w)
      | Some af \<Rightarrow>
          let date_path = GRD_SD_MOUNT_POINT @ ''/'' @ get_date_str ptm in
          if g_sd_tats env < 0 then (-1, af, env, w)
          else let (ok, w) = make_dir exists date_path w in
            if \<not> ok then (-1, af, env, w)
            else let af = af\<lparr>filename := date_path @ ''/'' @ show_nat (unat (file_start af)), af_fopen := False\<rparr>;
                     (ok, w) = os_call w in
              if \<not> ok then (-1, af, env, w)
              else let af = af\<lparr>af_file := \<lparr>fdata = [], fpos = 0\<rparr>, af_fopen := True\<rparr>;
                       (ok, af, w) = open_index af w in
                if \<not> ok then (-1, af, env, w)
                else let (ret, af, env, w) = avi_write_header af env w in
                  if ret < 0 then (-1, af, env, w)
                  else let af = (close_file af)\<lparr>new_flag := 1\<rparr>;
                           env = (if normal_buf_flag af = 1
                                  then env\<lparr>normal_data_array := replicate REC_BUF_SIZE 0\<rparr> else env)
                       in (0, reset_buffers af, env, w))"

definition avi_event_record_open ::
  "(string \<Rightarrow> bool) \<Rightarrow> tm \<Rightarrow> avi_file \<Rightarrow> rec_env \<Rightarrow> io \<Rightarrow> int \<times> avi_file \<times> rec_env \<times> io" where
  "avi_event_record_open exists ptm af env w =
     (case size_record 60 (af\<lparr>audio_count := 0\<rparr>) of
        None \<Rightarrow> (-1, af\<lparr>audio_count := 0, data_offset := 0, video_count := 0, audio_bytes := 0,
                        index_count := 0, idx_array_count := 0\<rparr>, env, w)
      | Some af \<Rightarrow>
          let date_path = GRD_SD_MOUNT_POINT @ ''/'' @ substr0 (get_nowtime_str ptm) 0 8 in
          if g_sd_tats env < 0 then (-1, af, env, w)
          else let (ok, w) = make_dir exists date_path w in
            if \<not> ok then (-1, af, env, w)
            else let af = af\<lparr>filename := date_path @ ''/'' @ show_nat (unat (file_start af))\<rparr>;
                     (ok, w) = os_call w in
              if \<not> ok then (-1, af\<lparr>af_fopen := False\<rparr>, env, w)
              else let af = af\<lparr>af_file := \<lparr>fdata = [], fpos = 0\<rparr>, af_fopen := True\<rparr>;
                       (ok, af, w) = open_index af w in
                if \<not> ok then (-1, af, env, w)
                else if g_sd_tats env < 0 then (-1, af, env, w)
                else let (ret, af, env, w) = avi_write_header af env w in
                  if ret < 0 then (-1, af, env, w)
                  else let af = (close_file af)\<lparr>new_flag := 1\<rparr>;
                           env = (if event_buf_flag af = 1
                                  then env\<lparr>event_data_array := replicate REC_BUF_SIZE 0\<rparr> else env)
                       in (0, reset_buffers af, env, w))"

definition record_start_param :: "avi_file \<Rightarrow> int \<Rightarrow> int \<Rightarrow> int \<Rightarrow> avi_file" where
  "record_start_param af rtype record_duration frame_rate =
     af\<lparr>init_param := (init_rec_param (init_param af))\<lparr>ip_duration := record_duration, ip_fps := frame_rate\<rparr>,
        record_type := rtype\<rparr>"

definition record_event_start ::
  "(string \<Rightarrow> bool) \<Rightarrow> tm \<Rightarrow> avi_file \<Rightarrow> int \<Rightarrow> int \<Rightarrow> int \<Rightarrow> rec_env \<Rightarrow> io \<Rightarrow> int \<times> avi_file \<times> rec_env \<times> io" where
  "record_event_start exists ptm af rtype record_duration frame_rate env w =
     (let af = record_start_param af rtype record_duration frame_rate in
      if ip_duration (init_param af) > 0 then avi_event_record_open exists ptm af env w else (0, af, env, w))"

definition record_normal_start ::
  "(string \<Rightarrow> bool) \<Rightarrow> tm \<Rightarrow> avi_file \<Rightarrow> int \<Rightarrow> int \<Rightarrow> int \<Rightarrow> rec_env \<Rightarrow> io \<Rightarrow> int \<times> avi_file \<times> rec_env \<times> io" where
  "record_normal_start exists ptm af rtype record_duration frame_rate env w =
     (let af = record_start_param af rtype record_duration frame_rate in
      if ip_duration (init_param af) > 0 then avi_normal_record_open exists ptm af env w else (0, af, env, w))"

section \<open>Writing frames\<close>

text \<open>The repeated pair \<^verbatim>\<open>if(1 == event_buf_flag) ... if(1 == normal_buf_flag)\<close> over the two arrays.\<close>

definition on_arrays :: "avi_file \<Rightarrow> (byte list \<Rightarrow> byte list) \<Rightarrow> rec_env \<Rightarrow> rec_env" where
  "on_arrays af g env =
     (let env = (if event_buf_flag af = 1 then env\<lparr>event_data_array := g (event_data_array env)\<rparr> else env)
      in if normal_buf_flag af = 1 then env\<lparr>normal_data_array := g (normal_data_array env)\<rparr> else env)"

definition write_arrays :: "avi_file \<Rightarrow> rec_env \<Rightarrow> int \<Rightarrow> io \<Rightarrow> int \<times> avi_file \<times> io" where
  "write_arrays af env ret w =
     (let (ret, f, w) = (if event_buf_flag af = 1
            then fwrite1 (take (buf_offset af) (event_data_array env)) (af_file af) w
            else (ret, af_file af, w));
          (ret, f, w) = (if normal_buf_flag af = 1
            then fwrite1 (take (buf_offset af) (normal_data_array env)) f w else (ret, f, w))
      in (ret, af\<lparr>af_file := f\<rparr>, w))"

text \<open>A first frame that is not a key frame is refused; a key frame reopens the file behind the header.\<close>

definition frame_reopen :: "avi_file \<Rightarrow> int \<Rightarrow> io \<Rightarrow> int option \<times> avi_file \<times> io" where
  "frame_reopen af intra w =
     (if new_flag af \<noteq> 0 then
        if intra = 1 \<or> intra = 3 then
          let (ok, w) = os_call w in
          if \<not> ok then (Some (-1), af\<lparr>af_fopen := False\<rparr>, w)
          else (None, af\<lparr>af_fopen := True, data_offset := sizeof_AviHeader,
                         af_file := fseek_set sizeof_AviHeader (af_file af), new_flag := 0\<rparr>, w)
        else (Some 1, af, w)
      else (None, af, w))"

definition idx_put :: "avi_file \<Rightarrow> cuint list \<Rightarrow> avi_file option" where
  "idx_put af ws =
     (if 4 * pre_index_pos af + 4 \<le> INDEX_ARRAY_MAX_NUMBER
      then Some (af\<lparr>idx_array := put_at (4 * pre_index_pos af) ws (idx_array af)\<rparr>) else None)"

definition frame_index :: "avi_file \<Rightarrow> nat \<Rightarrow> int \<Rightarrow> avi_file option" where
  "frame_index af len intra =
     (let is_align = len mod 2 in
      if intra = 1 \<or> intra = 0 \<or> intra = 3 then
        idx_put (af\<lparr>video_count := video_count af + 1\<rparr>)
          [MAKE_FOURCC CHR ''0'' CHR ''0'' CHR ''d'' CHR ''c'', if intra \<noteq> 0 then 0x11 else 0x10,
           word_of_nat (data_offset af), word_of_nat (len + is_align)]
      else
        idx_put (af\<lparr>audio_bytes := audio_bytes af + (len + is_align), audio_count := audio_count af + 1\<rparr>)
          [MAKE_FOURCC CHR ''0'' CHR ''1'' CHR ''w'' CHR ''b'', 0,
           word_of_nat (data_offset af), word_of_nat (len + is_align)])"

definition frame_put ::
  "avi_file \<Rightarrow> byte list \<Rightarrow> int \<Rightarrow> cuint \<Rightarrow> cuint \<Rightarrow> rec_env \<Rightarrow> (avi_file \<times> rec_env) option" where
  "frame_put af data intra t1 t2 env =
     (let len = length data; is_align = len mod 2; off = buf_offset af;
          fcc = (if intra = 2 then MAKE_FOURCC CHR ''0'' CHR ''1'' CHR ''w'' CHR ''b''
                 else MAKE_FOURCC CHR ''0'' CHR ''0'' CHR ''d'' CHR ''c'');
          env = on_arrays af (avi_set_32 fcc off) env;
          env = on_arrays af (avi_set_32 (word_of_nat (len + is_align)) (off + 4)) env;
          off = off + 8;
          env = on_arrays af (put_at off data) env;
          off = off + (len + is_align);
          env = on_arrays af (avi_set_32 (MAKE_FOURCC CHR ''J'' CHR ''U'' CHR ''N'' CHR ''K'') off) env;
          env = on_arrays af (avi_set_32 8 (off + 4)) env;
          env = on_arrays af (avi_set_32 t1 (off + 8)) env;
          env = on_arrays af (avi_set_32 t2 (off + 12)) env;
          af = af\<lparr>buf_offset := off + 16, buf_index := buf_index af + 1\<rparr> in
      case frame_index af len intra of
        None \<Rightarrow> None
      | Some af \<Rightarrow> Some (af\<lparr>data_offset := data_offset af + (8 + len + is_align + 16),
                             index_count := index_count af + 1, pre_index_pos := pre_index_pos af + 1\<rparr>, env))"

definition frame_flush :: "avi_file \<Rightarrow> rec_env \<Rightarrow> io \<Rightarrow> int \<times> avi_file \<times> rec_env \<times> io" where
  "frame_flush af env w =
     (let af = af\<lparr>buf_index := 0\<rparr>;
          idx_count = (if pre_index_pos af > DATA_SAVE_NUM then DATA_SAVE_NUM else pre_index_pos af);
          (ret, i, w) = fwrite1 (idx_bytes af idx_count) (af_idx af) w;
          af = af\<lparr>af_idx := i\<rparr> in
      if ret \<noteq> 1 then (-1, af, env, w)
      else let af = af\<lparr>pre_index_pos := 0\<rparr>;
               (ret, af, w) = write_arrays af env ret w in
        if ret \<noteq> 1 then (-1, af, env, w)
        else (0, af\<lparr>buf_offset := 0\<rparr>, on_arrays af (\<lambda>_. replicate REC_BUF_SIZE 0) env, w))"

text \<open>Writing through a NULL handle is undefined.\<close>

definition flush_open :: "avi_file \<Rightarrow> rec_env \<Rightarrow> io \<Rightarrow> (int \<times> avi_file \<times> rec_env \<times> io) option" where
  "flush_open af env w = (if af_iopen af \<and> af_fopen af then Some (frame_flush af env w) else None)"

text \<open>The body shared, line by line, by \<^verbatim>\<open>avi_write_frame_data\<close> and \<^verbatim>\<open>avi_write_frame_data_extend\<close>, which
  differ in the two time stamp words.\<close>

definition write_frame ::
  "avi_file \<Rightarrow> byte list \<Rightarrow> int \<Rightarrow> cuint \<Rightarrow> cuint \<Rightarrow> rec_env \<Rightarrow> io \<Rightarrow> (int \<times> avi_file \<times> rec_env \<times> io) option" where
  "write_frame af data intra t1 t2 env w =
     (if g_sd_tats env < 0 then Some (-1, af, env, w)
      else case frame_reopen af intra w of
        (Some ret, af, w) \<Rightarrow> Some (ret, af, env, w)
      | (None, af, w) \<Rightarrow>
          if buf_offset af + 8 + length data + length data mod 2 + 16 > REC_BUF_SIZE
          then flush_open af env w
          else if \<not> (intra = 1 \<or> intra = 0 \<or> intra = 3) \<and> intra \<noteq> 2 then Some (-1, af, env, w)
          else case frame_put af data intra t1 t2 env of
            None \<Rightarrow> None
          | Some (af, env) \<Rightarrow>
              if buf_index af = DATA_SAVE_NUM then flush_open af env w else Some (0, af, env, w))"

definition avi_write_frame_data ::
  "avi_file \<Rightarrow> byte list \<Rightarrow> int \<Rightarrow> cuint \<times> cuint \<Rightarrow> rec_env \<Rightarrow> io \<Rightarrow> (int \<times> avi_file \<times> rec_env \<times> io) option" where
  "avi_write_frame_data af data intra tv env w = write_frame af data intra (fst tv) (snd tv) env w"

definition avi_write_frame_data_extend ::
  "avi_file \<Rightarrow> byte list \<Rightarrow> int \<Rightarrow> 64 word \<Rightarrow> rec_env \<Rightarrow> io \<Rightarrow> (int \<times> avi_file \<times> rec_env \<times> io) option" where
  "avi_write_frame_data_extend af data intra t env w = write_frame af data intra (ucast t) (ucast t) env w"

definition write_result :: "int \<times> avi_file \<times> rec_env \<times> io \<Rightarrow> int \<times> avi_file \<times> rec_env \<times> io" where
  "write_result r = (case r of (ret, af, env, w) \<Rightarrow>
     if ret < 0 then (-1, reset_buffers (af\<lparr>new_flag := 1\<rparr>), on_arrays af (\<lambda>_. replicate REC_BUF_SIZE 0) env, w)
     else (ret, af, env, w))"

definition avi_record_write ::
  "avi_file \<Rightarrow> byte list \<Rightarrow> int \<Rightarrow> cuint \<times> cuint \<Rightarrow> rec_env \<Rightarrow> io \<Rightarrow> (int \<times> avi_file \<times> rec_env \<times> io) option" where
  "avi_record_write af data intra tv env w = map_option write_result (avi_write_frame_data af data intra tv env w)"

definition avi_record_write_extend ::
  "avi_file \<Rightarrow> byte list \<Rightarrow> int \<Rightarrow> 64 word \<Rightarrow> rec_env \<Rightarrow> io \<Rightarrow> (int \<times> avi_file \<times> rec_env \<times> io) option" where
  "avi_record_write_extend af data intra t env w =
     map_option write_result (avi_write_frame_data_extend af data intra t env w)"

section \<open>Closing a recording\<close>

definition avi_record_event_close :: "avi_file \<Rightarrow> rec_env \<Rightarrow> io \<Rightarrow> (int \<times> avi_file \<times> io) option" where
  "avi_record_event_close af env w =
     (let finish = (\<lambda>af w. Some (0, af\<lparr>pre_index_pos := 0, af_fopen := False, af_iopen := False,
                                      event_buf_flag := 0\<rparr>, w)) in
      if g_sd_tats env < 0 then Some (-1, af, w)
      else if new_flag af \<noteq> 0 then finish af w
      else if \<not> af_fopen af \<or> \<not> af_iopen af then None
      else if buf_offset af \<noteq> 0 \<and> event_buf_flag af \<noteq> 1 \<and> normal_buf_flag af \<noteq> 1 then None
      else let (ret, af, w) = (if buf_offset af \<noteq> 0 then write_arrays af env 1 w else (1, af, w)) in
        if ret \<noteq> 1 then Some (-1, af, w)
        else case avi_add_index (if buf_offset af \<noteq> 0 then reset_buffers af else af) env w of
          None \<Rightarrow> None
        | Some (ret, af, w) \<Rightarrow>
            if ret < 0 then Some (-1, af, w)
            else case strstr (filename af) ''ch'' of
              None \<Rightarrow> None
            | Some k \<Rightarrow>
                let newname = take 22 (filename af) @ ''al'' @ drop (k + 2) (filename af) @ ''_'' @
                              show_nat (unat (file_stop af)) @ ''.avi'';
                    af = af\<lparr>filename := newname\<rparr>;
                    (ok, w) = os_call w
                in if \<not> ok then Some (-1, af, w) else finish af w)"

definition avi_record_nornal_close :: "avi_file \<Rightarrow> rec_env \<Rightarrow> io \<Rightarrow> (int \<times> avi_file \<times> io) option" where
  "avi_record_nornal_close af env w =
     (let finish = (\<lambda>af w. Some (0, af\<lparr>pre_index_pos := 0, af_fopen := False, normal_buf_flag := 0\<rparr>, w)) in
      if g_sd_tats env < 0 then Some (-1, af, w)
      else if new_flag af \<noteq> 0 then finish af w
      else if \<not> af_fopen af \<or> \<not> af_iopen af then None
      else if buf_offset af \<noteq> 0 \<and> event_buf_flag af \<noteq> 1 \<and> normal_buf_flag af \<noteq> 1 then None
      else let (ret, af, w) = (if buf_offset af \<noteq> 0 then write_arrays af env 1 w else (1, af, w)) in
        if ret \<noteq> 1 then Some (-1, af, w)
        else case avi_add_index (if buf_offset af \<noteq> 0 then reset_buffers af else af) env w of
          None \<Rightarrow> None
        | Some (ret, af, w) \<Rightarrow>
            if ret < 0 then Some (-1, af, w)
            else let af = af\<lparr>af_iopen := False\<rparr>; (ok, w) = os_call w in
              if \<not> ok then Some (-1, af, w)
              else let record_duration = uint (duration af div 1000);
                       af = af\<lparr>filename := filename af @ ''-'' @ show_int record_duration @ ''.avi''\<rparr>;
                       (ok, w) = os_call w
                   in if \<not> ok then Some (-1, af, w) else finish af w)"

text \<open>Both take the time from the clock; their argument is not used.\<close>

definition record_set_start_time :: "io \<Rightarrow> int \<Rightarrow> avi_file \<Rightarrow> avi_file" where
  "record_set_start_time w start_second af = af\<lparr>file_start := ucast (get_UTC_Time w)\<rparr>"

definition record_set_end_time :: "io \<Rightarrow> int \<Rightarrow> avi_file \<Rightarrow> avi_file" where
  "record_set_end_time w end_second af = af\<lparr>file_stop := ucast (get_UTC_Time w)\<rparr>"

definition record_event_stop :: "avi_file \<Rightarrow> rec_env \<Rightarrow> io \<Rightarrow> (int \<times> avi_file \<times> io) option" where
  "record_event_stop af env w = avi_record_event_close af env w"

definition record_normal_stop :: "avi_file \<Rightarrow> rec_env \<Rightarrow> io \<Rightarrow> (int \<times> avi_file \<times> io) option" where
  "record_normal_stop af env w = avi_record_nornal_close af env w"

text \<open>\<^verbatim>\<open>write_record_node_index\<close> appends a 24 byte \<^verbatim>\<open>NodeIndex\<close> (type, padding, start, duration, padding).\<close>

definition write_record_node_index :: "byte \<Rightarrow> cuint \<Rightarrow> cuint \<Rightarrow> cfile option \<Rightarrow> io \<Rightarrow> int \<times> cfile option \<times> io" where
  "write_record_node_index recordtype start end fpIdx w =
     (case fpIdx of
        None \<Rightarrow> (-1, None, w)
      | Some f \<Rightarrow>
          let node = le32 (ucast recordtype) @ [0, 0, 0, 0] @ le64 (ucast start) @ le32 (end - start) @ [0, 0, 0, 0];
              (_, f, w) = fwrite1 node (fseek_end f) w
          in (0, Some f, w))"

end
