(* ===== verification/AviRecCorrect.thy ===== *)
theory AviRecCorrect
  imports AviRec
begin

text \<open>
  What the recorder promises. \<open>spec_write\<close> is its contract on abstract states (frames on the card,
  frames in the buffer), \<open>recording\<close> the refinement relation, and the main results are that every
  write keeps it without touching memory outside the arrays and that a session ends in a file that
  is exactly the image of the accepted frames with their index. \<open>taken_from\<close> says which frames of a run are accepted.
\<close>

section \<open>Buffers\<close>

definition one_flag :: "avi_file \<Rightarrow> bool" where
  "one_flag af \<longleftrightarrow> (event_buf_flag af = 1) \<noteq> (normal_buf_flag af = 1)"

definition cur :: "avi_file \<Rightarrow> rec_env \<Rightarrow> byte list" where
  "cur af env = (if event_buf_flag af = 1 then event_data_array env else normal_data_array env)"

lemma cur_on_arrays [simp]:
  "one_flag af \<Longrightarrow> event_buf_flag af' = event_buf_flag af \<Longrightarrow> cur af' (on_arrays af g env) = g (cur af' env)"
  by (auto simp: one_flag_def cur_def on_arrays_def Let_def)

lemma g_sd_on_arrays [simp]:
  "g_sd_tats (on_arrays af g env) = g_sd_tats env" "g_a_bits (on_arrays af g env) = g_a_bits env"
  by (simp_all add: on_arrays_def Let_def)

lemma write_arrays_one:
  "one_flag af \<Longrightarrow> write_arrays af env ret w =
     (let (ret, f, w) = fwrite1 (take (buf_offset af) (cur af env)) (af_file af) w in (ret, af\<lparr>af_file := f\<rparr>, w))"
  by (auto simp: one_flag_def cur_def write_arrays_def Let_def split: prod.splits)

lemma put_at_zeros:
  "length X = off \<Longrightarrow> length bs \<le> k \<Longrightarrow>
   put_at off bs (X @ replicate k 0) = (X @ bs) @ replicate (k - length bs) (0 :: byte)"
  by (simp add: put_at_def)

lemma zeros_split: "p \<le> k \<Longrightarrow> X @ replicate k 0 = (X @ replicate p 0) @ replicate (k - p) (0 :: byte)"
  by (simp flip: replicate_add)

lemma frame_fcc_video: "is_video i \<Longrightarrow> frame_fcc i = MAKE_FOURCC CHR ''0'' CHR ''0'' CHR ''d'' CHR ''c''"
  and frame_fcc_audio: "\<not> is_video i \<Longrightarrow> frame_fcc i = MAKE_FOURCC CHR ''0'' CHR ''1'' CHR ''w'' CHR ''b''"
  by (simp_all add: frame_fcc_def)

definition kind_ok :: "int \<Rightarrow> bool" where
  "kind_ok i \<longleftrightarrow> is_video i \<or> i = 2"

text \<open>The five writes of a frame amount to appending its chunk to the used part of the array.\<close>

lemma chunk_writes:
  assumes "length X = off" "24 + padded_length data \<le> k"
  shows "avi_set_32 t2 (off + 8 + padded_length data + 12)
    (avi_set_32 t1 (off + 8 + padded_length data + 8)
      (avi_set_32 8 (off + 8 + padded_length data + 4)
        (avi_set_32 (MAKE_FOURCC CHR ''J'' CHR ''U'' CHR ''N'' CHR ''K'') (off + 8 + padded_length data)
          (put_at (off + 8) data
            (avi_set_32 (word_of_nat (padded_length data)) (off + 4)
              (avi_set_32 (frame_fcc intra) off (X @ replicate k 0))))))) =
    (X @ chunk \<lparr>fr_data = data, fr_intra = intra, fr_t1 = t1, fr_t2 = t2\<rparr>) @
      replicate (k - (24 + padded_length data)) 0"
proof -
  let ?p = "length data mod 2"
  let ?A = "X @ le32 (frame_fcc intra)"
  let ?B = "?A @ le32 (word_of_nat (padded_length data))"
  let ?C = "?B @ data"
  let ?D = "?C @ replicate ?p 0"
  let ?E = "?D @ le32 (MAKE_FOURCC CHR ''J'' CHR ''U'' CHR ''N'' CHR ''K'')"
  let ?F = "?E @ le32 8"
  let ?G = "?F @ le32 t1"
  have pl: "padded_length data = length data + ?p" by (simp add: padded_length_def)
  have k: "24 + length data + ?p \<le> k" using assms(2) pl by simp
  have 1: "avi_set_32 (frame_fcc intra) off (X @ replicate k 0) = ?A @ replicate (k - 4) 0"
    unfolding avi_set_32_le32 using assms(1) k by (subst put_at_zeros) simp_all
  have 2: "avi_set_32 (word_of_nat (padded_length data)) (off + 4) (?A @ replicate (k - 4) 0) =
      ?B @ replicate (k - 8) 0"
    unfolding avi_set_32_le32 using assms(1) k by (subst put_at_zeros) simp_all
  have 3: "put_at (off + 8) data (?B @ replicate (k - 8) 0) = ?C @ replicate (k - 8 - length data) 0"
    using assms(1) k by (subst put_at_zeros) simp_all
  have 4: "?C @ replicate (k - 8 - length data) 0 = ?D @ replicate (k - 8 - length data - ?p) 0"
    using k by (subst zeros_split [of ?p]) simp_all
  have 5: "avi_set_32 (MAKE_FOURCC CHR ''J'' CHR ''U'' CHR ''N'' CHR ''K'') (off + 8 + padded_length data)
      (?D @ replicate (k - 8 - length data - ?p) 0) = ?E @ replicate (k - 12 - length data - ?p) 0"
    unfolding avi_set_32_le32 pl using assms(1) k by (subst put_at_zeros) simp_all
  have 6: "avi_set_32 8 (off + 8 + padded_length data + 4) (?E @ replicate (k - 12 - length data - ?p) 0) =
      ?F @ replicate (k - 16 - length data - ?p) 0"
    unfolding avi_set_32_le32 pl using assms(1) k by (subst put_at_zeros) simp_all
  have 7: "avi_set_32 t1 (off + 8 + padded_length data + 8) (?F @ replicate (k - 16 - length data - ?p) 0) =
      ?G @ replicate (k - 20 - length data - ?p) 0"
    unfolding avi_set_32_le32 pl using assms(1) k by (subst put_at_zeros) simp_all
  have 8: "avi_set_32 t2 (off + 8 + padded_length data + 12) (?G @ replicate (k - 20 - length data - ?p) 0) =
      (?G @ le32 t2) @ replicate (k - 24 - length data - ?p) 0"
    unfolding avi_set_32_le32 pl using assms(1) k by (subst put_at_zeros) simp_all
  show ?thesis unfolding 1 2 3 4 5 6 7 8 by (simp add: chunk_def pl)
qed

section \<open>The contract\<close>

record rec_spec =
  rs_disk :: "frame list"
  rs_buf :: "frame list"

definition fits :: "frame list \<Rightarrow> frame \<Rightarrow> bool" where
  "fits buf f \<longleftrightarrow> length (chunks buf) + length (chunk f) \<le> REC_BUF_SIZE"

text \<open>A frame joins the buffer; a full count of frames, or a frame that does not fit any more, writes the
  buffer to the card, in the second case without the frame.\<close>

definition spec_write :: "frame \<Rightarrow> rec_spec \<Rightarrow> rec_spec" where
  "spec_write f s =
     (if \<not> fits (rs_buf s) f then \<lparr>rs_disk = rs_disk s @ rs_buf s, rs_buf = []\<rparr>
      else if length (rs_buf s) + 1 = DATA_SAVE_NUM
      then \<lparr>rs_disk = rs_disk s @ rs_buf s @ [f], rs_buf = []\<rparr>
      else s\<lparr>rs_buf := rs_buf s @ [f]\<rparr>)"

definition frame_ok :: "frame \<Rightarrow> bool" where
  "frame_ok f \<longleftrightarrow> kind_ok (fr_intra f) \<and> length (chunk f) \<le> REC_BUF_SIZE"

definition audio_total :: "frame list \<Rightarrow> nat" where
  "audio_total fs = sum_list (map (\<lambda>f. padded_length (fr_data f)) (filter (\<lambda>f. \<not> is_video (fr_intra f)) fs))"

definition video_total :: "frame list \<Rightarrow> nat" where
  "video_total fs = length (filter (\<lambda>f. is_video (fr_intra f)) fs)"

lemma totals_append [simp]:
  "audio_total (xs @ ys) = audio_total xs + audio_total ys"
  "video_total (xs @ ys) = video_total xs + video_total ys"
  "audio_total [] = 0" "video_total [] = 0"
  by (simp_all add: audio_total_def video_total_def)

text \<open>The refinement relation: what the handle, the arrays and the files hold for an abstract state.\<close>

definition rec_static :: "avi_file \<Rightarrow> rec_env \<Rightarrow> bool" where
  "rec_static af env \<longleftrightarrow> one_flag af \<and> \<not> g_sd_tats env < 0 \<and> af_iopen af \<and>
     length (idx_array af) = INDEX_ARRAY_MAX_NUMBER"

definition rec_buffer :: "frame list \<Rightarrow> avi_file \<Rightarrow> rec_env \<Rightarrow> bool" where
  "rec_buffer buf af env \<longleftrightarrow>
     buf_offset af = length (chunks buf) \<and> length (chunks buf) \<le> REC_BUF_SIZE \<and>
     cur af env = chunks buf @ replicate (REC_BUF_SIZE - length (chunks buf)) 0 \<and>
     buf_index af = length buf \<and> pre_index_pos af = length buf \<and> length buf < DATA_SAVE_NUM"

definition rec_files :: "byte list \<Rightarrow> frame list \<Rightarrow> avi_file \<Rightarrow> bool" where
  "rec_files hdr disk af \<longleftrightarrow>
     length hdr = sizeof_AviHeader \<and>
     af_file af = \<lparr>fdata = hdr @ chunks disk, fpos = length hdr + length (chunks disk)\<rparr> \<and>
     af_idx af = \<lparr>fdata = ints_bytes (index_entries sizeof_AviHeader disk), fpos = 16 * length disk\<rparr>"

definition rec_counts :: "frame list \<Rightarrow> avi_file \<Rightarrow> bool" where
  "rec_counts fs af \<longleftrightarrow>
     data_offset af = sizeof_AviHeader + length (chunks fs) \<and> index_count af = length fs \<and>
     video_count af = video_total fs \<and> audio_bytes af = audio_total fs"

definition recording :: "byte list \<Rightarrow> rec_spec \<Rightarrow> avi_file \<Rightarrow> rec_env \<Rightarrow> bool" where
  "recording hdr s af env \<longleftrightarrow> new_flag af = 0 \<and> af_fopen af \<and> rec_static af env \<and>
     rec_buffer (rs_buf s) af env \<and> rec_files hdr (rs_disk s) af \<and> rec_counts (rs_disk s @ rs_buf s) af \<and>
     take (4 * length (rs_buf s)) (idx_array af) =
       index_entries (sizeof_AviHeader + length (chunks (rs_disk s))) (rs_buf s)"

definition opened :: "byte list \<Rightarrow> avi_file \<Rightarrow> rec_env \<Rightarrow> bool" where
  "opened hdr af env \<longleftrightarrow> new_flag af = 1 \<and> rec_static af env \<and> rec_buffer [] af env \<and>
     length hdr = sizeof_AviHeader \<and> fdata (af_file af) = hdr \<and> af_idx af = \<lparr>fdata = [], fpos = 0\<rparr> \<and>
     index_count af = 0 \<and> video_count af = 0 \<and> audio_bytes af = 0"

section \<open>One write\<close>

lemma put_at_prefix:
  "length bs + n \<le> length m \<Longrightarrow> take (n + length bs) (put_at n bs m) = take n m @ bs"
  by (simp add: put_at_def)

definition mkframe :: "byte list \<Rightarrow> int \<Rightarrow> cuint \<Rightarrow> cuint \<Rightarrow> frame" where
  "mkframe data intra t1 t2 = \<lparr>fr_data = data, fr_intra = intra, fr_t1 = t1, fr_t2 = t2\<rparr>"

lemma mkframe_simps [simp]:
  "fr_data (mkframe d i a b) = d" "fr_intra (mkframe d i a b) = i"
  "fr_t1 (mkframe d i a b) = a" "fr_t2 (mkframe d i a b) = b"
  by (simp_all add: mkframe_def)

lemma length_chunk_mk: "length (chunk (mkframe data intra t1 t2)) = 24 + padded_length data"
  by (simp add: length_chunk)

lemma frame_index_ok:
  assumes "kind_ok intra" "length (idx_array af) = INDEX_ARRAY_MAX_NUMBER" "pre_index_pos af < DATA_SAVE_NUM"
  shows "\<exists>af'. frame_index af (length data) intra = Some af' \<and>
    af' = af\<lparr>idx_array := put_at (4 * pre_index_pos af) (index_entry (data_offset af) (mkframe data intra t1 t2)) (idx_array af),
            video_count := video_count af + video_total [mkframe data intra t1 t2],
            audio_bytes := audio_bytes af + audio_total [mkframe data intra t1 t2],
            audio_count := audio_count af'\<rparr>"
  using assms
  by (auto simp: frame_index_def idx_put_def kind_ok_def is_video_def index_entry_def frame_fcc_def index_flags_def
      padded_length_def video_total_def audio_total_def INDEX_ARRAY_MAX_NUMBER_def DATA_SAVE_NUM_def Let_def)

lemma one_flag_upd [simp]:
  "one_flag (af\<lparr>buf_offset := a, buf_index := b\<rparr>) = one_flag af"
  by (simp add: one_flag_def)

lemma frame_put_recording:
  assumes rec: "recording hdr s af env" and ok: "kind_ok intra"
    and fit: "fits (rs_buf s) (mkframe data intra t1 t2)"
  shows "\<exists>af' env'. frame_put af data intra t1 t2 env = Some (af', env') \<and>
    new_flag af' = 0 \<and> af_fopen af' \<and> rec_static af' env' \<and> rec_files hdr (rs_disk s) af' \<and>
    rec_counts (rs_disk s @ rs_buf s @ [mkframe data intra t1 t2]) af' \<and>
    buf_offset af' = length (chunks (rs_buf s @ [mkframe data intra t1 t2])) \<and>
    cur af' env' = chunks (rs_buf s @ [mkframe data intra t1 t2]) @
      replicate (REC_BUF_SIZE - length (chunks (rs_buf s @ [mkframe data intra t1 t2]))) 0 \<and>
    buf_index af' = length (rs_buf s) + 1 \<and> pre_index_pos af' = length (rs_buf s) + 1 \<and>
    take (4 * (length (rs_buf s) + 1)) (idx_array af') =
      index_entries (sizeof_AviHeader + length (chunks (rs_disk s))) (rs_buf s @ [mkframe data intra t1 t2])"
proof -
  let ?f = "mkframe data intra t1 t2"
  let ?buf = "rs_buf s" and ?p = "padded_length data"
  let ?off = "length (chunks ?buf)"
  have one: "one_flag af" and idxl: "length (idx_array af) = INDEX_ARRAY_MAX_NUMBER"
    and st: "\<not> g_sd_tats env < 0" "af_iopen af"
    using rec by (auto simp: recording_def rec_static_def)
  have off: "buf_offset af = ?off" and bi: "buf_index af = length ?buf" and pp: "pre_index_pos af = length ?buf"
    and lt: "length ?buf < DATA_SAVE_NUM"
    and cur: "cur af env = chunks ?buf @ replicate (REC_BUF_SIZE - ?off) 0"
    using rec by (auto simp: recording_def rec_buffer_def)
  have fit': "24 + ?p \<le> REC_BUF_SIZE - ?off"
    using fit by (simp add: fits_def length_chunk)
  have pl: "length data + length data mod 2 = ?p" by (simp add: padded_length_def)
  define env' where "env' =
    on_arrays af (avi_set_32 t2 (?off + 8 + ?p + 12))
     (on_arrays af (avi_set_32 t1 (?off + 8 + ?p + 8))
      (on_arrays af (avi_set_32 8 (?off + 8 + ?p + 4))
       (on_arrays af (avi_set_32 (MAKE_FOURCC CHR ''J'' CHR ''U'' CHR ''N'' CHR ''K'') (?off + 8 + ?p))
        (on_arrays af (put_at (?off + 8) data)
         (on_arrays af (avi_set_32 (word_of_nat ?p) (?off + 4))
          (on_arrays af (avi_set_32 (frame_fcc intra) ?off) env))))))"
  define af1 where "af1 = af\<lparr>buf_offset := ?off + 8 + ?p + 16, buf_index := buf_index af + 1\<rparr>"
  have fcc: "(if intra = 2 then MAKE_FOURCC CHR ''0'' CHR ''1'' CHR ''w'' CHR ''b''
                 else MAKE_FOURCC CHR ''0'' CHR ''0'' CHR ''d'' CHR ''c'') = frame_fcc intra"
    using ok by (auto simp: frame_fcc_def kind_ok_def is_video_def)
  have cur': "cur af env' = chunks (?buf @ [?f]) @ replicate (REC_BUF_SIZE - length (chunks (?buf @ [?f]))) 0"
    using chunk_writes [where ?t2.0 = t2 and ?t1.0 = t1 and intra = intra and X = "chunks ?buf", OF refl fit'] one cur
    by (simp add: env'_def mkframe_def length_chunk)
  obtain af2 where af2: "frame_index af1 (length data) intra = Some af2"
    "af2 = af1\<lparr>idx_array := put_at (4 * pre_index_pos af1) (index_entry (data_offset af1) ?f) (idx_array af1),
            video_count := video_count af1 + video_total [?f],
            audio_bytes := audio_bytes af1 + audio_total [?f], audio_count := audio_count af2\<rparr>"
    using frame_index_ok [OF ok, of af1 data] idxl lt pp by (auto simp: af1_def)
  have put: "frame_put af data intra t1 t2 env =
      Some (af2\<lparr>data_offset := data_offset af2 + (24 + ?p), index_count := index_count af2 + 1,
                pre_index_pos := pre_index_pos af2 + 1\<rparr>, env')"
  proof -
    have e: "8 + length data + length data mod 2 + 16 = 24 + ?p" using pl by simp
    show ?thesis
      by (simp only: frame_put_def Let_def off pl fcc e af1_def [symmetric] env'_def [symmetric] af2(1) option.case)
  qed
  have fields: "new_flag af2 = 0" "af_fopen af2" "af_iopen af2" "one_flag af2" "af_file af2 = af_file af"
      "af_idx af2 = af_idx af" "data_offset af2 = data_offset af" "index_count af2 = index_count af"
      "buf_offset af2 = ?off + 24 + ?p" "buf_index af2 = length ?buf + 1" "pre_index_pos af2 = length ?buf"
      "event_buf_flag af2 = event_buf_flag af" "normal_buf_flag af2 = normal_buf_flag af"
      "idx_array af2 = put_at (4 * length ?buf) (index_entry (data_offset af) ?f) (idx_array af)"
      "video_count af2 = video_count af + video_total [?f]" "audio_bytes af2 = audio_bytes af + audio_total [?f]"
    using rec by (subst af2(2), simp add: af1_def recording_def rec_static_def one_flag_def bi pp off)+
  have do: "data_offset af = sizeof_AviHeader + length (chunks (rs_disk s)) + ?off"
    using rec by (simp add: recording_def rec_counts_def)
  have idx: "take (4 * (length ?buf + 1)) (idx_array af2) =
      index_entries (sizeof_AviHeader + length (chunks (rs_disk s))) (?buf @ [?f])"
    using put_at_prefix [of "index_entry (data_offset af) ?f" "4 * length ?buf" "idx_array af"] idxl lt rec
    by (simp add: fields recording_def index_entries_snoc do INDEX_ARRAY_MAX_NUMBER_def DATA_SAVE_NUM_def add.commute)
  have idxl2: "length (idx_array af2) = INDEX_ARRAY_MAX_NUMBER"
    using idxl lt by (simp add: fields length_put_at INDEX_ARRAY_MAX_NUMBER_def DATA_SAVE_NUM_def)
  have cur2: "cur (af2\<lparr>data_offset := x, index_count := y, pre_index_pos := z\<rparr>) env' = cur af env'" for x y z
    by (simp add: cur_def fields)
  have one2: "one_flag (af2\<lparr>data_offset := x, index_count := y, pre_index_pos := z\<rparr>)" for x y z
    using fields(4) by (simp add: one_flag_def)
  have sd: "g_sd_tats env' = g_sd_tats env" by (simp add: env'_def)
  show ?thesis
    unfolding put using rec cur' idx idxl2 st
    by (simp add: cur2 one2 sd rec_static_def)
      (simp add: fields recording_def rec_files_def rec_counts_def length_chunk)
qed

text \<open>A buffer about to be written out: as in \<open>recording\<close>, but it may hold the full count of frames.\<close>

definition loaded :: "byte list \<Rightarrow> frame list \<Rightarrow> frame list \<Rightarrow> avi_file \<Rightarrow> rec_env \<Rightarrow> bool" where
  "loaded hdr disk buf af env \<longleftrightarrow> new_flag af = 0 \<and> af_fopen af \<and> rec_static af env \<and>
     rec_files hdr disk af \<and> rec_counts (disk @ buf) af \<and>
     buf_offset af = length (chunks buf) \<and> length (chunks buf) \<le> REC_BUF_SIZE \<and>
     cur af env = chunks buf @ replicate (REC_BUF_SIZE - length (chunks buf)) 0 \<and>
     pre_index_pos af = length buf \<and> length buf \<le> DATA_SAVE_NUM \<and>
     take (4 * length buf) (idx_array af) = index_entries (sizeof_AviHeader + length (chunks disk)) buf"

lemma recording_loaded: "recording hdr s af env \<Longrightarrow> loaded hdr (rs_disk s) (rs_buf s) af env"
  by (simp add: recording_def loaded_def rec_buffer_def)

lemma index_entries_append:
  "index_entries off (xs @ ys) = index_entries off xs @ index_entries (off + length (chunks xs)) ys"
  by (induction xs arbitrary: off) (simp_all add: chunks_def add.assoc)

lemma idx_bytes_take: "idx_bytes af n = ints_bytes (take (4 * n) (idx_array af))"
  using take_ints_bytes [of "4 * n" "idx_array af"] by (simp add: idx_bytes_def ONE_INDEX_SIZE_def mult.commute)

lemma chunk_nonempty [simp]: "chunk f \<noteq> []"
proof -
  have "length (chunk f) \<noteq> 0" by (simp add: length_chunk)
  then show ?thesis by fastforce
qed

lemma chunks_empty_iff [simp]: "chunks fs = [] \<longleftrightarrow> fs = []"
  by (cases fs) (simp_all add: chunks_def)

lemma ints_bytes_empty_iff [simp]: "ints_bytes ws = [] \<longleftrightarrow> ws = []"
  by (cases ws) (simp_all add: ints_bytes_def le32_def)

lemma write_index_loaded:
  assumes "loaded hdr disk buf af env" "no_faults w" "buf \<noteq> []"
  shows "fwrite1 (idx_bytes af (length buf)) (af_idx af) w =
    (1, \<lparr>fdata = ints_bytes (index_entries sizeof_AviHeader (disk @ buf)), fpos = 16 * length (disk @ buf)\<rparr>,
     w\<lparr>ncall := Suc (ncall w)\<rparr>)"
proof -
  have b: "idx_bytes af (length buf) = ints_bytes (index_entries (sizeof_AviHeader + length (chunks disk)) buf)"
    using assms(1) by (simp add: idx_bytes_take loaded_def)
  have ne: "index_entries off buf \<noteq> []" for off using assms(3) length_index_entries [of off buf] by fastforce
  show ?thesis
    using assms(1,2) ne unfolding b
    by (simp add: fwrite1_ok loaded_def rec_files_def file_put_end index_entries_append)
qed

lemma write_data_loaded:
  assumes "loaded hdr disk buf af env" "no_faults w" "buf \<noteq> []"
  shows "fwrite1 (take (buf_offset af) (cur af env)) (af_file af) w =
    (1, \<lparr>fdata = hdr @ chunks (disk @ buf), fpos = length hdr + length (chunks (disk @ buf))\<rparr>,
     w\<lparr>ncall := Suc (ncall w)\<rparr>)"
  using assms by (simp add: fwrite1_ok loaded_def rec_files_def file_put_end)

lemma frame_flush_loaded:
  assumes l: "loaded hdr disk buf af env" and w: "no_faults w" and ne: "buf \<noteq> []"
  shows "\<exists>af' env' w'. frame_flush af env w = (0, af', env', w') \<and> no_faults w' \<and>
    recording hdr \<lparr>rs_disk = disk @ buf, rs_buf = []\<rparr> af' env'"
proof -
  define I where "I = \<lparr>fdata = ints_bytes (index_entries sizeof_AviHeader (disk @ buf)),
    fpos = 16 * length (disk @ buf)\<rparr>"
  define D where "D = \<lparr>fdata = hdr @ chunks (disk @ buf), fpos = length hdr + length (chunks (disk @ buf))\<rparr>"
  define w1 where "w1 = w\<lparr>ncall := Suc (ncall w)\<rparr>"
  define w2 where "w2 = w1\<lparr>ncall := Suc (ncall w1)\<rparr>"
  define af1 where "af1 = af\<lparr>buf_index := 0, af_idx := I, pre_index_pos := 0\<rparr>"
  define af2 where "af2 = af1\<lparr>af_file := D\<rparr>"
  have nf: "no_faults w1" "no_faults w2" using w by (simp_all add: w1_def w2_def)
  have one: "one_flag af1" "one_flag af2" "one_flag (af2\<lparr>buf_offset := 0\<rparr>)"
    using l by (simp_all add: loaded_def rec_static_def one_flag_def af1_def af2_def)
  have ib: "idx_bytes (af\<lparr>buf_index := 0\<rparr>) n = idx_bytes af n" for n by (simp add: idx_bytes_def)
  have same: "cur af1 env = cur af env" "buf_offset af1 = buf_offset af" "af_file af1 = af_file af"
    by (simp_all add: cur_def af1_def)
  have cnt: "\<not> DATA_SAVE_NUM < pre_index_pos af" "pre_index_pos af = length buf"
    using l by (simp_all add: loaded_def)
  have iw: "fwrite1 (idx_bytes af (length buf)) (af_idx af) w = (1, I, w1)"
    using write_index_loaded [OF l w ne] by (simp only: I_def w1_def)
  have dw: "write_arrays af1 env 1 w1 = (1, af2, w2)"
    using write_data_loaded [OF l nf(1) ne] one(1) same
    by (simp add: write_arrays_one D_def af2_def w2_def del: chunks_simps length_append)
  have fl: "frame_flush af env w = (0, af2\<lparr>buf_offset := 0\<rparr>,
      on_arrays af2 (\<lambda>_. replicate REC_BUF_SIZE 0) env, w2)"
    using cnt by (simp add: frame_flush_def Let_def ib iw dw [unfolded af1_def])
  have "cur (af2\<lparr>buf_offset := 0\<rparr>) (on_arrays af2 (\<lambda>_. replicate REC_BUF_SIZE 0) env) = replicate REC_BUF_SIZE 0"
    using one by simp
  then have "recording hdr \<lparr>rs_disk = disk @ buf, rs_buf = []\<rparr> (af2\<lparr>buf_offset := 0\<rparr>)
      (on_arrays af2 (\<lambda>_. replicate REC_BUF_SIZE 0) env)"
    using l one(3)
    by (simp add: recording_def loaded_def rec_static_def rec_buffer_def rec_files_def rec_counts_def DATA_SAVE_NUM_def)
      (simp add: af2_def af1_def D_def I_def)
  then show ?thesis using fl nf by blast
qed

text \<open>A write in the middle of a recording follows the contract.\<close>

lemma frame_reopen_recording: "new_flag af = 0 \<Longrightarrow> frame_reopen af intra w = (None, af, w)"
  by (simp add: frame_reopen_def)

lemma write_frame_recording:
  assumes rec: "recording hdr s af env" and ok: "frame_ok f" and w: "no_faults w"
  shows "\<exists>af' env' w'. write_frame af (fr_data f) (fr_intra f) (fr_t1 f) (fr_t2 f) env w = Some (0, af', env', w') \<and>
    no_faults w' \<and> recording hdr (spec_write f s) af' env'"
proof -
  have f: "f = mkframe (fr_data f) (fr_intra f) (fr_t1 f) (fr_t2 f)" by (simp add: mkframe_def)
  have sd: "\<not> g_sd_tats env < 0" and nf: "new_flag af = 0" and op: "af_iopen af" "af_fopen af"
    and off: "buf_offset af = length (chunks (rs_buf s))"
    using rec by (auto simp: recording_def rec_static_def rec_buffer_def)
  have size: "(buf_offset af + 8 + length (fr_data f) + length (fr_data f) mod 2 + 16 > REC_BUF_SIZE) \<longleftrightarrow>
      \<not> fits (rs_buf s) f"
    by (auto simp: off fits_def length_chunk padded_length_def)
  have wf: "write_frame af (fr_data f) (fr_intra f) (fr_t1 f) (fr_t2 f) env w =
      (if \<not> fits (rs_buf s) f then flush_open af env w
       else if \<not> (fr_intra f = 1 \<or> fr_intra f = 0 \<or> fr_intra f = 3) \<and> fr_intra f \<noteq> 2 then Some (-1, af, env, w)
       else case frame_put af (fr_data f) (fr_intra f) (fr_t1 f) (fr_t2 f) env of
            None \<Rightarrow> None
          | Some (af, env) \<Rightarrow>
              if buf_index af = DATA_SAVE_NUM then flush_open af env w else Some (0, af, env, w))"
    by (simp only: write_frame_def frame_reopen_recording [OF nf] prod.case option.case size sd if_False)
  show ?thesis
  proof (cases "fits (rs_buf s) f")
    case False
    then have "rs_buf s \<noteq> []" using ok by (auto simp: fits_def frame_ok_def)
    from frame_flush_loaded [OF recording_loaded [OF rec] w this]
    show ?thesis
      using False op unfolding wf by (auto simp: flush_open_def spec_write_def)
  next
    case True
    have kind: "\<not> (\<not> (fr_intra f = 1 \<or> fr_intra f = 0 \<or> fr_intra f = 3) \<and> fr_intra f \<noteq> 2)"
      using ok by (auto simp: frame_ok_def kind_ok_def is_video_def)
    obtain af1 env1 where put: "frame_put af (fr_data f) (fr_intra f) (fr_t1 f) (fr_t2 f) env = Some (af1, env1)"
      and st: "new_flag af1 = 0" "af_fopen af1" "rec_static af1 env1" "rec_files hdr (rs_disk s) af1"
        "rec_counts (rs_disk s @ rs_buf s @ [f]) af1" "buf_offset af1 = length (chunks (rs_buf s @ [f]))"
        "cur af1 env1 = chunks (rs_buf s @ [f]) @ replicate (REC_BUF_SIZE - length (chunks (rs_buf s @ [f]))) 0"
        "buf_index af1 = length (rs_buf s) + 1" "pre_index_pos af1 = length (rs_buf s) + 1"
        "take (4 * (length (rs_buf s) + 1)) (idx_array af1) =
          index_entries (sizeof_AviHeader + length (chunks (rs_disk s))) (rs_buf s @ [f])"
      using frame_put_recording [OF rec, of "fr_intra f" "fr_data f" "fr_t1 f" "fr_t2 f"] f True ok
      by (auto simp: frame_ok_def)
    have lt: "length (rs_buf s) + 1 \<le> DATA_SAVE_NUM" using rec by (simp add: recording_def rec_buffer_def)
    have sz: "length (chunks (rs_buf s @ [f])) \<le> REC_BUF_SIZE" using True by (simp add: fits_def)
    show ?thesis
    proof (cases "length (rs_buf s) + 1 = DATA_SAVE_NUM")
      case full: True
      have "loaded hdr (rs_disk s) (rs_buf s @ [f]) af1 env1"
        using st sz lt by (simp add: loaded_def)
      from frame_flush_loaded [OF this w]
      show ?thesis
        using True full st put kind unfolding wf by (auto simp: flush_open_def spec_write_def rec_static_def)
    next
      case notfull: False
      have "recording hdr (s\<lparr>rs_buf := rs_buf s @ [f]\<rparr>) af1 env1"
        using st sz lt notfull by (simp add: recording_def rec_buffer_def)
      then show ?thesis
        using True notfull st put kind w unfolding wf by (auto simp: spec_write_def)
    qed
  qed
qed

section \<open>A session of writes\<close>

fun run_writes :: "frame list \<Rightarrow> avi_file \<Rightarrow> rec_env \<Rightarrow> io \<Rightarrow> (int list \<times> avi_file \<times> rec_env \<times> io) option" where
  "run_writes [] af env w = Some ([], af, env, w)"
| "run_writes (f # fs) af env w =
     (case avi_record_write af (fr_data f) (fr_intra f) (fr_t1 f, fr_t2 f) env w of
        None \<Rightarrow> None
      | Some (r, af, env, w) \<Rightarrow> map_option (\<lambda>(rs, x). (r # rs, x)) (run_writes fs af env w))"

definition spec_run :: "frame list \<Rightarrow> rec_spec \<Rightarrow> rec_spec" where
  "spec_run fs s = fold spec_write fs s"

definition rs_all :: "rec_spec \<Rightarrow> frame list" where
  "rs_all s = rs_disk s @ rs_buf s"

lemma record_write_frame:
  "write_frame af (fr_data f) (fr_intra f) (fr_t1 f) (fr_t2 f) env w = Some (0, af', env', w') \<Longrightarrow>
   avi_record_write af (fr_data f) (fr_intra f) (fr_t1 f, fr_t2 f) env w = Some (0, af', env', w')"
  by (simp add: avi_record_write_def avi_write_frame_data_def write_result_def)

lemma run_writes_recording:
  "recording hdr s af env \<Longrightarrow> \<forall>f \<in> set fs. frame_ok f \<Longrightarrow> no_faults w \<Longrightarrow>
   \<exists>af' env' w'. run_writes fs af env w = Some (replicate (length fs) 0, af', env', w') \<and> no_faults w' \<and>
     recording hdr (spec_run fs s) af' env'"
proof (induction fs arbitrary: s af env w)
  case Nil
  then show ?case by (simp add: spec_run_def)
next
  case (Cons f fs)
  obtain af1 env1 w1 where 1: "write_frame af (fr_data f) (fr_intra f) (fr_t1 f) (fr_t2 f) env w = Some (0, af1, env1, w1)"
    "no_faults w1" "recording hdr (spec_write f s) af1 env1"
    using write_frame_recording [OF Cons.prems(1) _ Cons.prems(3), of f] Cons.prems(2) by auto
  from Cons.IH [OF 1(3) _ 1(2)] Cons.prems(2)
  show ?case using record_write_frame [OF 1(1)] by (auto simp: spec_run_def)
qed

lemma frame_reopen_opened:
  assumes "opened hdr af env" "intra = 1 \<or> intra = 3" "no_faults w"
  shows "\<exists>af' w'. frame_reopen af intra w = (None, af', w') \<and> no_faults w' \<and> new_flag af' = 0 \<and>
    recording hdr \<lparr>rs_disk = [], rs_buf = []\<rparr> af' env"
  using assms
  by (auto simp: frame_reopen_def opened_def recording_def rec_static_def rec_buffer_def rec_files_def rec_counts_def
      one_flag_def cur_def fseek_set_def)

lemma write_frame_opened:
  assumes o: "opened hdr af env" and k: "fr_intra f = 1 \<or> fr_intra f = 3" and ok: "frame_ok f" and w: "no_faults w"
  shows "\<exists>af' env' w'. write_frame af (fr_data f) (fr_intra f) (fr_t1 f) (fr_t2 f) env w = Some (0, af', env', w') \<and>
    no_faults w' \<and> recording hdr (spec_write f \<lparr>rs_disk = [], rs_buf = []\<rparr>) af' env'"
proof -
  obtain af1 w1 where r: "frame_reopen af (fr_intra f) w = (None, af1, w1)" "no_faults w1" "new_flag af1 = 0"
    "recording hdr \<lparr>rs_disk = [], rs_buf = []\<rparr> af1 env"
    using frame_reopen_opened [OF o k w] by auto
  have "write_frame af (fr_data f) (fr_intra f) (fr_t1 f) (fr_t2 f) env w =
      write_frame af1 (fr_data f) (fr_intra f) (fr_t1 f) (fr_t2 f) env w1"
    using o by (simp only: write_frame_def r(1) frame_reopen_recording [OF r(3)] prod.case option.case
        opened_def rec_static_def if_False)
  then show ?thesis using write_frame_recording [OF r(4) ok r(2)] by auto
qed

lemma write_frame_not_key:
  "opened hdr af env \<Longrightarrow> \<not> (i = 1 \<or> i = 3) \<Longrightarrow> write_frame af d i t1 t2 env w = Some (1, af, env, w)"
  by (auto simp: write_frame_def frame_reopen_def opened_def rec_static_def)

lemma rs_all_spec_write:
  "rs_all (spec_write f s) = rs_all s @ [f] \<or> rs_all (spec_write f s) = rs_all s"
  by (auto simp: rs_all_def spec_write_def)

lemma rs_all_spec_run: "\<exists>gs. rs_all (spec_run fs s) = rs_all s @ gs \<and> set gs \<subseteq> set fs"
proof (induction fs arbitrary: s)
  case (Cons f fs)
  obtain gs where gs: "rs_all (spec_run fs (spec_write f s)) = rs_all (spec_write f s) @ gs" "set gs \<subseteq> set fs"
    using Cons.IH by blast
  have run: "spec_run (f # fs) s = spec_run fs (spec_write f s)" by (simp add: spec_run_def)
  from rs_all_spec_write [of f s] show ?case
  proof
    assume "rs_all (spec_write f s) = rs_all s @ [f]"
    then have "rs_all (spec_run (f # fs) s) = rs_all s @ ([f] @ gs)" using gs run by simp
    moreover have "set ([f] @ gs) \<subseteq> set (f # fs)" using gs by auto
    ultimately show ?thesis by blast
  next
    assume "rs_all (spec_write f s) = rs_all s"
    then have "rs_all (spec_run (f # fs) s) = rs_all s @ gs" using gs run by simp
    moreover have "set gs \<subseteq> set (f # fs)" using gs by auto
    ultimately show ?thesis by blast
  qed
qed (simp add: spec_run_def)

lemma spec_first:
  "frame_ok f \<Longrightarrow> rs_all (spec_write f \<lparr>rs_disk = [], rs_buf = []\<rparr>) = [f]"
  by (auto simp: spec_write_def rs_all_def fits_def frame_ok_def DATA_SAVE_NUM_def)

text \<open>
  The items of a run that a buffer of \<open>REC_BUF_SIZE\<close> bytes takes, when \<open>used\<close> bytes and \<open>count\<close> items are in it already: the
  item that does not fit any more is lost, and the buffer is empty behind it, as it is behind the item that completes
  the count of \<open>DATA_SAVE_NUM\<close>.
\<close>

fun taken_from :: "('a \<Rightarrow> nat) \<Rightarrow> nat \<Rightarrow> nat \<Rightarrow> 'a list \<Rightarrow> 'a list" where
  "taken_from sz used count [] = []"
| "taken_from sz used count (x # xs) =
     (if used + sz x > REC_BUF_SIZE then taken_from sz 0 0 xs
      else if count + 1 = DATA_SAVE_NUM then x # taken_from sz 0 0 xs
      else x # taken_from sz (used + sz x) (count + 1) xs)"

definition frames_taken :: "frame list \<Rightarrow> frame list" where
  "frames_taken fs = taken_from (\<lambda>f. length (chunk f)) 0 0 fs"

text \<open>No stretch of \<open>DATA_SAVE_NUM\<close> items is larger than the buffer.\<close>

definition never_full :: "('a \<Rightarrow> nat) \<Rightarrow> 'a list \<Rightarrow> bool" where
  "never_full sz xs \<longleftrightarrow> (\<forall>i < length xs. sum_list (List.map sz (take DATA_SAVE_NUM (drop i xs))) \<le> REC_BUF_SIZE)"

lemma rs_all_run_taken:
  "rs_all (spec_run fs s) = rs_all s @ taken_from (\<lambda>f. length (chunk f)) (length (chunks (rs_buf s))) (length (rs_buf s)) fs"
proof (induction fs arbitrary: s)
  case (Cons f fs)
  have run: "spec_run (f # fs) s = spec_run fs (spec_write f s)" by (simp add: spec_run_def)
  show ?case unfolding run Cons.IH by (simp add: spec_write_def rs_all_def fits_def)
qed (simp add: spec_run_def)

lemma rs_all_run: "rs_all (spec_run fs \<lparr>rs_disk = [], rs_buf = []\<rparr>) = frames_taken fs"
  unfolding rs_all_run_taken by (simp add: frames_taken_def rs_all_def)

lemma taken_map: "taken_from sz u c (List.map g xs) = List.map g (taken_from (\<lambda>x. sz (g x)) u c xs)"
  by (induction xs arbitrary: u c) simp_all

lemma taken_subseq: "subseq (taken_from sz u c xs) xs"
  by (induction xs arbitrary: u c) auto

lemma sum_take_le: "sum_list (take n xs) \<le> (sum_list xs :: nat)"
  by (metis append_take_drop_id le_add1 sum_list_append)

lemma sum_drop_le: "sum_list (drop n xs) \<le> (sum_list xs :: nat)"
  by (metis append_take_drop_id le_add2 sum_list_append)

lemma never_full_small: "sum_list (List.map sz xs) \<le> REC_BUF_SIZE \<Longrightarrow> never_full sz xs"
  unfolding never_full_def take_map drop_map [symmetric] take_map [symmetric] by (meson le_trans sum_drop_le sum_take_le)

lemma never_full_tail: "never_full sz (xs @ ys) \<Longrightarrow> never_full sz ys"
  unfolding never_full_def
proof (intro allI impI)
  fix i assume n: "\<forall>i < length (xs @ ys). sum_list (List.map sz (take DATA_SAVE_NUM (drop i (xs @ ys)))) \<le> REC_BUF_SIZE"
    and i: "i < length ys"
  show "sum_list (List.map sz (take DATA_SAVE_NUM (drop i ys))) \<le> REC_BUF_SIZE" using n [rule_format, of "length xs + i"] i by simp
qed

lemma taken_all_from:
  "never_full sz (pre @ xs) \<Longrightarrow> length pre < DATA_SAVE_NUM \<Longrightarrow> taken_from sz (sum_list (List.map sz pre)) (length pre) xs = xs"
proof (induction xs arbitrary: pre)
  case (Cons x xs)
  have w: "sum_list (List.map sz (take DATA_SAVE_NUM (pre @ x # xs))) \<le> REC_BUF_SIZE"
    using Cons.prems(1) unfolding never_full_def by (metis add_gr_0 drop0 length_Cons length_append zero_less_Suc)
  have t: "take DATA_SAVE_NUM (pre @ x # xs) = (pre @ [x]) @ take (DATA_SAVE_NUM - Suc (length pre)) xs"
    using Cons.prems(2) by (simp add: take_Cons')
  have fit: "sum_list (List.map sz pre) + sz x \<le> REC_BUF_SIZE" using w unfolding t by simp
  show ?case
  proof (cases "length pre + 1 = DATA_SAVE_NUM")
    case True
    have "taken_from sz 0 0 xs = xs"
      using Cons.IH [of "[]"] never_full_tail [of sz "pre @ [x]" xs] Cons.prems(1) by (simp add: DATA_SAVE_NUM_def)
    then show ?thesis using fit True by simp
  next
    case False
    then show ?thesis using Cons.IH [of "pre @ [x]"] Cons.prems fit by simp
  qed
qed simp

lemma taken_all: "never_full sz xs \<Longrightarrow> taken_from sz 0 0 xs = xs"
  using taken_all_from [of sz "[]" xs] by (simp add: DATA_SAVE_NUM_def)

lemma frames_taken_all: "never_full (\<lambda>f. length (chunk f)) fs \<Longrightarrow> frames_taken fs = fs"
  by (simp add: frames_taken_def taken_all)

section \<open>Closing\<close>

lemma copy_index_all:
  "no_faults w \<Longrightarrow> p + 16 * left = length d \<Longrightarrow> fpos f = length (fdata f) \<Longrightarrow>
   \<exists>w'. copy_index left \<lparr>fdata = d, fpos = p\<rparr> f w =
     (0, \<lparr>fdata = d, fpos = length d\<rparr>, f\<lparr>fdata := fdata f @ drop p d, fpos := length (fdata f) + 16 * left\<rparr>, w') \<and>
     no_faults w'"
proof (induction left arbitrary: p f w rule: less_induct)
  case (less left)
  show ?case
  proof (cases "left = 0")
    case True
    then show ?thesis using less.prems by (auto simp: copy_index.simps)
  next
    case False
    define n where "n = (if 64 > left then left else 64)"
    have n: "0 < n" "n \<le> left" using False by (auto simp: n_def)
    define b where "b = slice p (16 * n) d"
    have lb: "length b = 16 * n" using less.prems n by (simp add: b_def slice_def)
    have ne: "b \<noteq> []" using lb n by auto
    define f1 where "f1 = f\<lparr>fdata := fdata f @ b, fpos := length (fdata f) + 16 * n\<rparr>"
    have rd: "fread1 (16 * n) \<lparr>fdata = d, fpos = p\<rparr> = (1, b, \<lparr>fdata = d, fpos = p + 16 * n\<rparr>)"
      using less.prems n by (simp add: fread1_def b_def)
    have wr: "fwrite1 b f w = (1, f1, w\<lparr>ncall := Suc (ncall w)\<rparr>)"
      using less.prems ne lb by (simp add: fwrite1_ok file_put_end f1_def)
    have st: "copy_index left \<lparr>fdata = d, fpos = p\<rparr> f w =
        copy_index (left - n) \<lparr>fdata = d, fpos = p + 16 * n\<rparr> f1 (w\<lparr>ncall := Suc (ncall w)\<rparr>)"
      using False by (subst copy_index.simps) (simp add: rd wr flip: n_def)
    obtain w' where w': "copy_index (left - n) \<lparr>fdata = d, fpos = p + 16 * n\<rparr> f1 (w\<lparr>ncall := Suc (ncall w)\<rparr>) =
        (0, \<lparr>fdata = d, fpos = length d\<rparr>,
         f1\<lparr>fdata := fdata f1 @ drop (p + 16 * n) d, fpos := length (fdata f1) + 16 * (left - n)\<rparr>, w')" "no_faults w'"
      using less.IH [of "left - n" "w\<lparr>ncall := Suc (ncall w)\<rparr>" "p + 16 * n" f1] less.prems n lb
      by (auto simp: f1_def diff_mult_distrib2)
    have "b @ drop (p + 16 * n) d = drop p d"
      unfolding b_def slice_def by (metis add.commute append_take_drop_id drop_drop)
    moreover have "length (fdata f1) + 16 * (left - n) = length (fdata f) + 16 * left"
      using n lb by (simp add: f1_def diff_mult_distrib2)
    ultimately show ?thesis using st w' by (simp add: f1_def)
  qed
qed

lemma fwrite_inside:
  assumes "no_faults w" "off + 4 \<le> length X"
  shows "write_int32 v (fseek_set off \<lparr>fdata = X @ Y, fpos = p\<rparr>) w =
    (1, \<lparr>fdata = put_at off (le_int v) X @ Y, fpos = off + 4\<rparr>, w\<lparr>ncall := Suc (ncall w)\<rparr>)"
  using assms by (simp add: write_int32_def fwrite1_ok fseek_set_def file_put_inside put_at_inside)

lemma write_fields_header:
  assumes "no_faults w" "\<forall>(off, v) \<in> set fs. off + 4 \<le> length X" "fs \<noteq> []"
  shows "\<exists>w' p'. write_fields fs \<lparr>fdata = X @ Y, fpos = p\<rparr> w =
    (0, \<lparr>fdata = fold (\<lambda>(off, v) X. put_at off (le_int v) X) fs X @ Y, fpos = p'\<rparr>, w') \<and> no_faults w'"
  using assms
proof (induction fs arbitrary: X w p)
  case (Cons fv fs)
  obtain off v where fv: "fv = (off, v)" by (cases fv)
  have st: "write_fields (fv # fs) \<lparr>fdata = X @ Y, fpos = p\<rparr> w =
      write_fields fs \<lparr>fdata = put_at off (le_int v) X @ Y, fpos = off + 4\<rparr> (w\<lparr>ncall := Suc (ncall w)\<rparr>)"
    using Cons.prems by (simp add: fv fwrite_inside)
  show ?case
  proof (cases "fs = []")
    case True
    then show ?thesis using st Cons.prems(1) by (auto simp: fv)
  next
    case False
    have "length (put_at off (le_int v) X) = length X"
      using Cons.prems(2) by (simp add: fv length_put_at)
    then show ?thesis
      using Cons.IH [of "w\<lparr>ncall := Suc (ncall w)\<rparr>" "put_at off (le_int v) X" "off + 4"] Cons.prems False
      unfolding st by (simp add: fv)
  qed
qed simp

definition final_header :: "avi_header \<Rightarrow> frame list \<Rightarrow> cuint \<Rightarrow> int \<Rightarrow> avi_header" where
  "final_header h fs dur bits =
     (let per_frame = dur * 1000 div word_of_nat (video_total fs) in
      h\<lparr>avi_len := word_of_int (int (sizeof_AviHeader + length (chunks fs) + 8 + 16 * length fs) - 8),
        movi_len := word_of_int (int (length (chunks fs)) + 4),
        main_header := (main_header h)\<lparr>dwTotalFrames := word_of_nat (video_total fs), dwMicroSecPerFrame := per_frame\<rparr>,
        video_header := (video_header h)\<lparr>dwScale := per_frame, dwLength := word_of_nat (video_total fs)\<rparr>,
        audio_header := (audio_header h)\<lparr>dwLength := word_of_int (cdiv (int (audio_total fs)) (samplesize_of bits)),
                                          dwRate := 8000\<rparr>\<rparr>)"

definition idx1 :: cuint where "idx1 = MAKE_FOURCC CHR ''i'' CHR ''d'' CHR ''x'' CHR ''1''"

text \<open>The file a recording ends as: header, one chunk per frame, and the index.\<close>

definition recording_image :: "avi_header \<Rightarrow> frame list \<Rightarrow> cuint \<Rightarrow> int \<Rightarrow> byte list" where
  "recording_image h fs dur bits = encode_header (final_header h fs dur bits) @ chunks fs @
     le32 idx1 @ le32 (word_of_nat (16 * length fs)) @ ints_bytes (index_entries sizeof_AviHeader fs)"

lemma header_fields_eq:
  "fold (\<lambda>(off, v) X. put_at off (le_int v) X) [(256, 8000)]
    (fold (\<lambda>(off, v) X. put_at off (le_int v) X)
      [(32, uint pf), (128, uint pf), (140, int n), (264, a)]
      (fold (\<lambda>(off, v) X. put_at off (le_int v) X) [(4, l), (sizeof_AviHeader - 8, m), (48, int n)] (encode_header h))) =
   encode_header (h\<lparr>avi_len := word_of_int l, movi_len := word_of_int m,
     main_header := (main_header h)\<lparr>dwTotalFrames := word_of_nat n, dwMicroSecPerFrame := pf\<rparr>,
     video_header := (video_header h)\<lparr>dwScale := pf, dwLength := word_of_nat n\<rparr>,
     audio_header := (audio_header h)\<lparr>dwLength := word_of_int a, dwRate := 8000\<rparr>\<rparr>)"
  by (simp add: le_int_def sizeof_AviHeader_def header_puts)

lemma update_avi_header_ok:
  assumes w: "no_faults w" and sd: "\<not> g_sd_tats env < 0"
    and f: "af_file af = \<lparr>fdata = encode_header h @ Y, fpos = p\<rparr>" and p: "p = sizeof_AviHeader + length Y"
    and l: "length Y = length (chunks fs) + 8 + 16 * length fs"
    and c: "data_offset af = sizeof_AviHeader + length (chunks fs)" "video_count af = video_total fs"
      "audio_bytes af = audio_total fs" and v: "0 < video_total fs"
  shows "\<exists>w' p'. update_avi_header af env w =
    Some (0, af\<lparr>duration := (if duration af < 1000 then 1000 else duration af),
      af_file := \<lparr>fdata = encode_header (final_header h fs (duration af) (g_a_bits env)) @ Y, fpos = p'\<rparr>\<rparr>, w') \<and>
    no_faults w'"
proof -
  let ?F = "\<lambda>(off, v) X. put_at off (le_int v) X"
  let ?pf = "duration af * 1000 div word_of_nat (video_total fs)"
  let ?f1 = "[(4, int p - 8), (sizeof_AviHeader - 8, int (length (chunks fs)) + 4), (48, int (video_total fs))]"
  let ?f2 = "[(32, uint ?pf), (128, uint ?pf), (140, int (video_total fs)),
    (264, cdiv (int (audio_total fs)) (samplesize_of (g_a_bits env)))]"
  let ?f3 = "[(256, 8000)]"
  define X1 where "X1 = fold ?F ?f1 (encode_header h)"
  define X2 where "X2 = fold ?F ?f2 X1"
  define X3 where "X3 = fold ?F ?f3 X2"
  have len: "length (fold ?F fs X) = length X" if "\<forall>(off, v) \<in> set fs. off + 4 \<le> length X" for fs X
    using that by (induction fs arbitrary: X) (auto simp: length_put_at)
  have l1: "length X1 = sizeof_AviHeader" unfolding X1_def by (subst len) (simp_all add: sizeof_AviHeader_def)
  have l2: "length X2 = sizeof_AviHeader" unfolding X2_def
    by (subst len) (simp_all add: l1, simp add: sizeof_AviHeader_def)
  obtain w1 p1 where 1: "write_fields ?f1 \<lparr>fdata = encode_header h @ Y, fpos = p\<rparr> w =
      (0, \<lparr>fdata = X1 @ Y, fpos = p1\<rparr>, w1)" "no_faults w1"
    using write_fields_header [OF w, of ?f1 "encode_header h" Y p, folded X1_def] by (auto simp: sizeof_AviHeader_def)
  obtain w2 p2 where 2: "write_fields ?f2 \<lparr>fdata = X1 @ Y, fpos = p1\<rparr> w1 = (0, \<lparr>fdata = X2 @ Y, fpos = p2\<rparr>, w2)"
    "no_faults w2"
    using write_fields_header [OF 1(2), of ?f2 X1 Y p1, folded X2_def] l1 by (auto simp: sizeof_AviHeader_def)
  obtain w3 p3 where 3: "write_fields ?f3 \<lparr>fdata = X2 @ Y, fpos = p2\<rparr> w2 =
      (0, \<lparr>fdata = X3 @ Y, fpos = p3\<rparr>, w3)" "no_faults w3"
    using write_fields_header [OF 2(2), of ?f3 X2 Y p2, folded X3_def] l2 by (auto simp: sizeof_AviHeader_def)
  have m: "int (data_offset af) - int sizeof_AviHeader + 4 = int (length (chunks fs)) + 4" using c by simp
  have img: "X3 = encode_header (final_header h fs (duration af) (g_a_bits env))"
    unfolding X3_def X2_def X1_def header_fields_eq final_header_def Let_def p l by (simp add: add.assoc)
  have sel: "video_count (af\<lparr>af_file := x\<rparr>) = video_count af" "audio_bytes (af\<lparr>af_file := x\<rparr>) = audio_bytes af"
    "duration (af\<lparr>af_file := x\<rparr>) = duration af" for x
    by simp_all
  have "update_avi_header af env w =
    Some (0, af\<lparr>duration := (if duration af < 1000 then 1000 else duration af),
      af_file := \<lparr>fdata = X3 @ Y, fpos = p3\<rparr>\<rparr>, w3)"
    using v by (simp only: update_avi_header_def Let_def f cfile.simps m sel c(2,3) sd if_False 1(1) 2(1) 3(1) prod.case)
      simp
  then show ?thesis using 3(2) unfolding img by blast
qed

lemma le32_not_Nil [simp]: "le32 x \<noteq> []"
  by (simp add: le32_def)

lemma idx_rest_written:
  assumes i: "af_idx af = \<lparr>fdata = ints_bytes (index_entries sizeof_AviHeader disk), fpos = 16 * length disk\<rparr>"
    and pre: "pre_index_pos af = length buf"
    and arr: "take (4 * length buf) (idx_array af) = index_entries (sizeof_AviHeader + length (chunks disk)) buf"
    and w: "no_faults w"
  shows "\<exists>w' p. (if pre_index_pos af > 0 then fwrite1 (idx_bytes af (pre_index_pos af)) (af_idx af) w
      else (1, af_idx af, w)) =
    (1, \<lparr>fdata = ints_bytes (index_entries sizeof_AviHeader (disk @ buf)), fpos = p\<rparr>, w') \<and> no_faults w'"
proof (cases "buf = []")
  case True
  then show ?thesis using i pre w by simp
next
  case False
  then have ne: "index_entries off buf \<noteq> []" for off using length_index_entries [of off buf] by fastforce
  have b: "idx_bytes af (pre_index_pos af) =
      ints_bytes (index_entries (sizeof_AviHeader + length (chunks disk)) buf)"
    using pre arr by (simp add: idx_bytes_take)
  show ?thesis unfolding b
    using False i w ne pre by (simp add: fwrite1_ok file_put_end index_entries_append)
qed

lemma avi_add_index_ok:
  assumes w: "no_faults w" and sd: "\<not> g_sd_tats env < 0"
    and f: "af_file af = \<lparr>fdata = encode_header h @ chunks (disk @ buf), fpos = p\<rparr>"
    and p: "p = sizeof_AviHeader + length (chunks (disk @ buf))"
    and i: "af_idx af = \<lparr>fdata = ints_bytes (index_entries sizeof_AviHeader disk), fpos = 16 * length disk\<rparr>"
    and pre: "pre_index_pos af = length buf"
    and arr: "take (4 * length buf) (idx_array af) = index_entries (sizeof_AviHeader + length (chunks disk)) buf"
    and c: "rec_counts (disk @ buf) af" and v: "0 < video_total (disk @ buf)"
  shows "\<exists>af' w'. avi_add_index af env w = Some (0, af', w') \<and> no_faults w' \<and>
    fdata (af_file af') = recording_image h (disk @ buf) (duration af) (g_a_bits env) \<and>
    filename af' = filename af \<and> duration af' = (if duration af < 1000 then 1000 else duration af)"
proof -
  let ?fs = "disk @ buf"
  let ?d = "ints_bytes (index_entries sizeof_AviHeader ?fs)"
  define Y0 where "Y0 = chunks ?fs @ le32 idx1"
  define Y1 where "Y1 = Y0 @ le_int (16 * int (length ?fs))"
  define Y2 where "Y2 = Y1 @ ?d"
  define w1 where "w1 = w\<lparr>ncall := Suc (ncall w)\<rparr>"
  have w1: "no_faults w1" using w by (simp add: w1_def)
  have 1: "write_fourcc (MAKE_FOURCC CHR ''i'' CHR ''d'' CHR ''x'' CHR ''1'') (af_file af) w =
      (1, \<lparr>fdata = encode_header h @ Y0, fpos = sizeof_AviHeader + length Y0\<rparr>, w1)"
    using w p by (simp add: write_fourcc_def fwrite1_ok f file_put_end w1_def Y0_def idx1_def)
  define af1 where "af1 = af\<lparr>af_file := \<lparr>fdata = encode_header h @ Y0, fpos = sizeof_AviHeader + length Y0\<rparr>\<rparr>"
  have same: "pre_index_pos af1 = pre_index_pos af" "idx_bytes af1 n = idx_bytes af n" "af_idx af1 = af_idx af" for n
    by (simp_all add: af1_def idx_bytes_def)
  obtain w2 q where 2: "(if pre_index_pos af1 > 0 then fwrite1 (idx_bytes af1 (pre_index_pos af1)) (af_idx af1) w1
      else (1, af_idx af1, w1)) = (1, \<lparr>fdata = ?d, fpos = q\<rparr>, w2)" "no_faults w2"
    using idx_rest_written [OF i pre arr w1] unfolding same by blast
  define af2 where "af2 = af1\<lparr>af_idx := \<lparr>fdata = ?d, fpos = q\<rparr>, pre_index_pos := 0\<rparr>"
  define w3 where "w3 = w2\<lparr>ncall := Suc (ncall w2)\<rparr>"
  have cnt: "index_count af2 = length ?fs" using c by (simp add: af2_def af1_def rec_counts_def)
  have 3: "write_int32 (16 * int (index_count af2)) (af_file af2) w2 =
      (1, \<lparr>fdata = encode_header h @ Y1, fpos = sizeof_AviHeader + length Y1\<rparr>, w3)"
    using 2(2) by (simp add: cnt) (simp add: write_int32_def fwrite1_ok file_put_end w3_def af2_def af1_def Y1_def)
  have w3: "no_faults w3" using 2(2) by (simp add: w3_def)
  define af3 where "af3 = af2\<lparr>af_file := \<lparr>fdata = encode_header h @ Y1, fpos = sizeof_AviHeader + length Y1\<rparr>\<rparr>"
  obtain w4 where 4: "copy_index (index_count af3) (fseek_set 0 (af_idx af3)) (af_file af3) w3 =
      (0, \<lparr>fdata = ?d, fpos = length ?d\<rparr>,
       \<lparr>fdata = encode_header h @ Y2, fpos = sizeof_AviHeader + length Y2\<rparr>, w4)" "no_faults w4"
  proof -
    have e: "index_count af3 = length ?fs" using cnt by (simp add: af3_def)
    have f3: "af_file af3 = \<lparr>fdata = encode_header h @ Y1, fpos = sizeof_AviHeader + length Y1\<rparr>"
      "fseek_set 0 (af_idx af3) = \<lparr>fdata = ?d, fpos = 0\<rparr>"
      by (simp_all add: af3_def af2_def fseek_set_def)
    have "\<exists>w'. copy_index (length ?fs) \<lparr>fdata = ?d, fpos = 0\<rparr>
        \<lparr>fdata = encode_header h @ Y1, fpos = sizeof_AviHeader + length Y1\<rparr> w3 =
      (0, \<lparr>fdata = ?d, fpos = length ?d\<rparr>,
       \<lparr>fdata = encode_header h @ Y2, fpos = sizeof_AviHeader + length Y2\<rparr>, w') \<and> no_faults w'"
      using copy_index_all [OF w3, of 0 "length ?fs" ?d
          "\<lparr>fdata = encode_header h @ Y1, fpos = sizeof_AviHeader + length Y1\<rparr>"]
      by (simp add: Y2_def ac_simps)
    then show ?thesis using that unfolding e f3 by blast
  qed
  define af4 where "af4 = af3\<lparr>af_idx := \<lparr>fdata = ?d, fpos = length ?d\<rparr>,
    af_file := \<lparr>fdata = encode_header h @ Y2, fpos = sizeof_AviHeader + length Y2\<rparr>\<rparr>"
  have l2: "length Y2 = length (chunks ?fs) + 8 + 16 * length ?fs"
    by (simp add: Y2_def Y1_def Y0_def)
  have c4: "data_offset af4 = sizeof_AviHeader + length (chunks ?fs)" "video_count af4 = video_total ?fs"
    "audio_bytes af4 = audio_total ?fs"
    using c by (simp_all add: af4_def af3_def af2_def af1_def rec_counts_def)
  obtain w5 p5 where 5: "update_avi_header af4 env w4 =
      Some (0, af4\<lparr>duration := (if duration af4 < 1000 then 1000 else duration af4),
        af_file := \<lparr>fdata = encode_header (final_header h ?fs (duration af4) (g_a_bits env)) @ Y2, fpos = p5\<rparr>\<rparr>, w5)"
    "no_faults w5"
    using update_avi_header_ok [OF 4(2) sd _ _ l2 c4 v, of h] by (auto simp: af4_def)
  have step: "avi_add_index af env w =
      Some (0, af4\<lparr>duration := (if duration af4 < 1000 then 1000 else duration af4),
        af_file := \<lparr>fdata = encode_header (final_header h ?fs (duration af4) (g_a_bits env)) @ Y2, fpos = p5\<rparr>\<rparr>, w5)"
  proof -
    have u: "af1\<lparr>af_idx := \<lparr>fdata = ?d, fpos = q\<rparr>\<rparr>\<lparr>pre_index_pos := 0\<rparr> = af2" by (simp add: af2_def)
    have d: "duration af4 = duration af" by (simp add: af4_def af3_def af2_def af1_def)
    show ?thesis
      unfolding avi_add_index_def Let_def 1
      by (simp only: prod.case sd if_False af1_def [symmetric] 2(1) u 3 af3_def [symmetric] 4(1) af4_def [symmetric] 5(1))
        simp
  qed
  have img: "encode_header (final_header h ?fs (duration af) (g_a_bits env)) @ Y2 =
      recording_image h ?fs (duration af) (g_a_bits env)"
    by (simp add: recording_image_def Y2_def Y1_def Y0_def le_int_def)
  have d: "duration af4 = duration af" "filename af4 = filename af" by (simp_all add: af4_def af3_def af2_def af1_def)
  show ?thesis unfolding step using 5(2) img d by simp
qed

text \<open>What is left in the buffer is written before the index.\<close>

definition drained :: "avi_file \<Rightarrow> rec_env \<Rightarrow> io \<Rightarrow> int \<times> avi_file \<times> io" where
  "drained af env w = (if buf_offset af \<noteq> 0 then write_arrays af env 1 w else (1, af, w))"

lemma drained_ok:
  assumes rec: "recording hdr s af env" and w: "no_faults w"
  shows "\<exists>w'. drained af env w =
    (1, af\<lparr>af_file := \<lparr>fdata = hdr @ chunks (rs_all s), fpos = length hdr + length (chunks (rs_all s))\<rparr>\<rparr>, w') \<and>
    no_faults w'"
proof (cases "rs_buf s = []")
  case True
  then show ?thesis
    using rec w by (auto simp: drained_def recording_def rec_buffer_def rec_files_def rs_all_def intro: exI [of _ w])
next
  case False
  then have "buf_offset af \<noteq> 0" using rec by (simp add: recording_def rec_buffer_def)
  moreover have "one_flag af" using rec by (simp add: recording_def rec_static_def)
  ultimately show ?thesis
    using write_data_loaded [OF recording_loaded [OF rec] w False] w
    by (simp add: drained_def write_arrays_one rs_all_def del: chunks_simps)
qed

lemma close_add_index:
  assumes rec: "recording (encode_header h) s af env" and w: "no_faults w" and v: "0 < video_total (rs_all s)"
  shows "\<exists>af1 w1 af' w'. drained af env w = (1, af1, w1) \<and> buf_offset af1 = buf_offset af \<and>
    avi_add_index (if buf_offset af1 \<noteq> 0 then reset_buffers af1 else af1) env w1 = Some (0, af', w') \<and> no_faults w' \<and>
    fdata (af_file af') = recording_image h (rs_all s) (duration af) (g_a_bits env) \<and>
    filename af' = filename af \<and> duration af' = (if duration af < 1000 then 1000 else duration af)"
proof -
  define af1 where "af1 = af\<lparr>af_file := \<lparr>fdata = encode_header h @ chunks (rs_all s),
    fpos = length (encode_header h) + length (chunks (rs_all s))\<rparr>\<rparr>"
  obtain w1 where w1: "drained af env w = (1, af1, w1)" "no_faults w1"
    using drained_ok [OF rec w] by (auto simp: af1_def)
  define af2 where "af2 = (if buf_offset af1 \<noteq> 0 then reset_buffers af1 else af1)"
  have sd: "\<not> g_sd_tats env < 0" using rec by (simp add: recording_def rec_static_def)
  have 2: "af_idx af2 = \<lparr>fdata = ints_bytes (index_entries sizeof_AviHeader (rs_disk s)), fpos = 16 * length (rs_disk s)\<rparr>"
    "pre_index_pos af2 = length (rs_buf s)"
    "take (4 * length (rs_buf s)) (idx_array af2) =
      index_entries (sizeof_AviHeader + length (chunks (rs_disk s))) (rs_buf s)"
    "rec_counts (rs_disk s @ rs_buf s) af2" "duration af2 = duration af" "filename af2 = filename af"
    using rec by (auto simp: af2_def af1_def reset_buffers_def recording_def rec_files_def rec_buffer_def rec_counts_def)
  have f: "af_file af2 = \<lparr>fdata = encode_header h @ chunks (rs_disk s @ rs_buf s),
      fpos = sizeof_AviHeader + length (chunks (rs_disk s @ rs_buf s))\<rparr>"
    by (simp add: af2_def af1_def reset_buffers_def rs_all_def)
  have "\<exists>af' w'. avi_add_index af2 env w1 = Some (0, af', w') \<and> no_faults w' \<and>
    fdata (af_file af') = recording_image h (rs_disk s @ rs_buf s) (duration af2) (g_a_bits env) \<and>
    filename af' = filename af2 \<and> duration af' = (if duration af2 < 1000 then 1000 else duration af2)"
    by (rule avi_add_index_ok [OF w1(2) sd f refl 2(1-4)]) (use v in \<open>simp add: rs_all_def\<close>)
  then obtain af' w' where r: "avi_add_index af2 env w1 = Some (0, af', w')" "no_faults w'"
    "fdata (af_file af') = recording_image h (rs_disk s @ rs_buf s) (duration af2) (g_a_bits env)"
    "filename af' = filename af2" "duration af' = (if duration af2 < 1000 then 1000 else duration af2)"
    by blast
  have "buf_offset af1 = buf_offset af" by (simp add: af1_def)
  then show ?thesis
    using w1(1) r(1) [unfolded af2_def] r(2) r(3-5) [unfolded 2(5,6)] unfolding rs_all_def by blast
qed

lemma normal_close_ok:
  assumes rec: "recording (encode_header h) s af env" and w: "no_faults w" and v: "0 < video_total (rs_all s)"
  shows "\<exists>af' w'. avi_record_nornal_close af env w = Some (0, af', w') \<and> no_faults w' \<and>
    fdata (af_file af') = recording_image h (rs_all s) (duration af) (g_a_bits env) \<and>
    filename af' = filename af @ ''-'' @ show_int (uint ((if duration af < 1000 then 1000 else duration af) div 1000)) @ ''.avi''"
proof -
  obtain af1 w1 af2 w2 where d: "drained af env w = (1, af1, w1)" and b: "buf_offset af1 = buf_offset af"
    and a: "avi_add_index (if buf_offset af1 \<noteq> 0 then reset_buffers af1 else af1) env w1 = Some (0, af2, w2)"
    and w2: "no_faults w2"
    and f: "fdata (af_file af2) = recording_image h (rs_all s) (duration af) (g_a_bits env)"
      "filename af2 = filename af" "duration af2 = (if duration af < 1000 then 1000 else duration af)"
    using close_add_index [OF rec w v] by blast
  have one: "\<not> (buf_offset af \<noteq> 0 \<and> event_buf_flag af \<noteq> 1 \<and> normal_buf_flag af \<noteq> 1)"
    and st: "\<not> g_sd_tats env < 0" "\<not> new_flag af \<noteq> 0" "\<not> (\<not> af_fopen af \<or> \<not> af_iopen af)"
    using rec by (auto simp: recording_def rec_static_def one_flag_def)
  have "avi_record_nornal_close af env w =
      (let record_duration = uint (duration af2 div 1000);
           af = af2\<lparr>af_iopen := False, filename := filename af2 @ ''-'' @ show_int record_duration @ ''.avi''\<rparr>
       in Some (0, af\<lparr>pre_index_pos := 0, af_fopen := False, normal_buf_flag := 0\<rparr>,
            w2\<lparr>ncall := Suc (Suc (ncall w2))\<rparr>))"
    using w2 st one unfolding avi_record_nornal_close_def drained_def [symmetric] Let_def
    by (simp only: if_False d prod.case a) simp
  then show ?thesis using f w2 by (simp add: Let_def)
qed

section \<open>Opening\<close>

lemma size_record_mode:
  "ip_mode (init_param af) = RECORD_FIXED_DURATION \<Longrightarrow> \<exists>p ic. size_record k af =
     Some (af\<lparr>data_offset := 0, video_count := 0, audio_bytes := 0, index_count := 0, idx_array_count := ic,
              init_param := p\<rparr>) \<and> ip_duration p = ip_duration (init_param af) \<and> ip_mode p = ip_mode (init_param af)"
  by (auto simp: size_record_def RECORD_FIXED_DURATION_def Let_def)

definition header_for :: "int \<Rightarrow> avi_init_param \<Rightarrow> avi_header" where
  "header_for bits p = build_header p bits 0 0"

lemma set_codec_keeps [simp]:
  "ip_duration (set_codec p) = ip_duration p" "ip_mode (set_codec p) = ip_mode p"
  by (simp_all add: set_codec_def Let_def)

lemma avi_write_header_ok:
  assumes "no_faults w" "\<not> g_sd_tats env < 0" "af_file af = \<lparr>fdata = [], fpos = 0\<rparr>"
    "video_count af = 0" "audio_bytes af = 0"
  shows "\<exists>p bits w'. avi_write_header af env w =
    (0, af\<lparr>init_param := p, data_offset := sizeof_AviHeader,
           af_file := \<lparr>fdata = encode_header (header_for bits p), fpos = sizeof_AviHeader\<rparr>\<rparr>,
     env\<lparr>g_a_bits := bits\<rparr>, w') \<and> no_faults w' \<and> ip_duration p = ip_duration (init_param af) \<and> ip_mode p = ip_mode (init_param af)"
proof -
  have ne: "encode_header h \<noteq> []" for h
  proof -
    have "length (encode_header h) \<noteq> 0" by (simp only: length_encode_header sizeof_AviHeader_def)
    then show ?thesis by fastforce
  qed
  show ?thesis
    using assms ne
    by (intro exI [of _ "set_codec (init_param af)"]
        exI [of _ "if ip_a_enc_type (set_codec (init_param af)) = 3 then 16 else 8"])
      (simp add: avi_write_header_def fwrite1_ok file_put_end header_for_def Let_def)
qed

lemma normal_open_ok:
  assumes w: "no_faults w" and sd: "\<not> g_sd_tats env < 0"
    and m: "ip_mode (init_param af) = RECORD_FIXED_DURATION"
    and fl: "normal_buf_flag af = 1" "event_buf_flag af \<noteq> 1"
    and pre: "pre_index_pos af = 0" and l: "length (idx_array af) = INDEX_ARRAY_MAX_NUMBER"
  shows "\<exists>bits p af' env' w'. avi_normal_record_open ex ptm af env w = (0, af', env', w') \<and> no_faults w' \<and>
    g_a_bits env' = bits \<and> duration af' = duration af \<and> normal_buf_flag af' = 1 \<and> g_sd_tats env' = g_sd_tats env \<and>
    ip_duration (init_param af') = ip_duration (init_param af) \<and>
    filename af' = GRD_SD_MOUNT_POINT @ ''/'' @ get_date_str ptm @ ''/'' @ show_nat (unat (file_start af)) \<and>
    opened (encode_header (header_for bits p)) af' env'"
proof -
  obtain p0 ic where sz: "size_record 30 af =
      Some (af\<lparr>data_offset := 0, video_count := 0, audio_bytes := 0, index_count := 0, idx_array_count := ic,
               init_param := p0\<rparr>)" "ip_duration p0 = ip_duration (init_param af)"
    using size_record_mode [OF m] by blast
  obtain w1 where w1: "make_dir ex (GRD_SD_MOUNT_POINT @ ''/'' @ get_date_str ptm) w = (True, w1)" "no_faults w1"
  proof (cases "ex (GRD_SD_MOUNT_POINT @ ''/'' @ get_date_str ptm)")
    case True
    then show ?thesis using that [of w] w by (simp add: make_dir_def)
  next
    case False
    then show ?thesis using that [of "w\<lparr>ncall := Suc (ncall w)\<rparr>"] w by (simp add: make_dir_def)
  qed
  define w2 where "w2 = w1\<lparr>ncall := Suc (ncall w1)\<rparr>"
  define w3 where "w3 = w2\<lparr>ncall := Suc (ncall w2)\<rparr>"
  have nf: "no_faults w2" "no_faults w3" using w1 by (simp_all add: w2_def w3_def)
  define af1 where "af1 = af\<lparr>data_offset := 0, video_count := 0, audio_bytes := 0, index_count := 0, idx_array_count := ic,
      init_param := p0, filename := GRD_SD_MOUNT_POINT @ ''/'' @ get_date_str ptm @ ''/'' @ show_nat (unat (file_start af)),
      af_file := \<lparr>fdata = [], fpos = 0\<rparr>, af_fopen := True,
      idxfilename := GRD_SD_MOUNT_POINT @ ''/'' @ show_nat (unat (file_start af)),
      af_idx := \<lparr>fdata = [], fpos = 0\<rparr>, af_iopen := True, idx_array := clear_idx (idx_array af)\<rparr>"
  obtain p bits w4 where h: "avi_write_header af1 env w3 =
    (0, af1\<lparr>init_param := p, data_offset := sizeof_AviHeader,
           af_file := \<lparr>fdata = encode_header (header_for bits p), fpos = sizeof_AviHeader\<rparr>\<rparr>,
     env\<lparr>g_a_bits := bits\<rparr>, w4)" "no_faults w4" "ip_duration p = ip_duration (init_param af)"
    using avi_write_header_ok [OF nf(2) sd, of af1] sz(2) by (auto simp: af1_def)
  let ?af = "reset_buffers ((close_file (af1\<lparr>init_param := p, data_offset := sizeof_AviHeader,
           af_file := \<lparr>fdata = encode_header (header_for bits p), fpos = sizeof_AviHeader\<rparr>\<rparr>))\<lparr>new_flag := 1\<rparr>)"
  let ?env = "env\<lparr>g_a_bits := bits, normal_data_array := replicate REC_BUF_SIZE 0\<rparr>"
  have open_: "avi_normal_record_open ex ptm af env w = (0, ?af, ?env, w4)"
    using sd w1 fl h(1) unfolding af1_def w2_def w3_def
    by (simp add: avi_normal_record_open_def sz open_index_def Let_def close_file_def)
  have "length (clear_idx (idx_array af)) = INDEX_ARRAY_MAX_NUMBER"
    using l by (simp add: clear_idx_def length_put_at INDEX_ARRAY_MAX_NUMBER_def)
  then have "opened (encode_header (header_for bits p)) ?af ?env"
    using sd fl pre by (simp add: opened_def rec_static_def rec_buffer_def one_flag_def cur_def reset_buffers_def
        close_file_def af1_def DATA_SAVE_NUM_def)
  then show ?thesis using open_ h(2,3) fl
    by (intro exI [of _ bits] exI [of _ p] exI [of _ ?af] exI [of _ ?env] exI [of _ w4])
      (simp add: reset_buffers_def close_file_def af1_def)
qed

section \<open>A card that fails\<close>

text \<open>
  When the index file cannot be written, \<^verbatim>\<open>avi_record_write\<close> resets the buffer but not
  \<open>pre_index_pos\<close>, so every further batch of frames goes behind the entries of the failed one.
\<close>

definition writes_fail :: "io \<Rightarrow> bool" where
  "writes_fail w \<longleftrightarrow> (\<forall>n. (fault w n = None) = even n)"

text \<open>\<open>n\<close> index entries pending, \<open>k\<close> frames since the last failed batch.\<close>

definition stuck :: "frame \<Rightarrow> nat \<Rightarrow> nat \<Rightarrow> avi_file \<Rightarrow> rec_env \<Rightarrow> io \<Rightarrow> bool" where
  "stuck f n k af env w \<longleftrightarrow> writes_fail w \<and> \<not> g_sd_tats env < 0 \<and> af_iopen af \<and> pre_index_pos af = n \<and>
     buf_index af = k \<and> k < DATA_SAVE_NUM \<and> buf_offset af = k * length (chunk f) \<and>
     length (idx_array af) = INDEX_ARRAY_MAX_NUMBER \<and>
     (if k = 0 then new_flag af \<noteq> 0 \<and> even (ncall w) else new_flag af = 0 \<and> af_fopen af \<and> odd (ncall w))"

lemma frame_put_fields:
  assumes "frame_put af data intra t1 t2 env = Some (af', env')"
  shows "new_flag af' = new_flag af \<and> af_fopen af' = af_fopen af \<and> af_iopen af' = af_iopen af \<and>
    pre_index_pos af' = Suc (pre_index_pos af) \<and> buf_index af' = Suc (buf_index af) \<and>
    buf_offset af' = buf_offset af + (24 + padded_length data) \<and> g_sd_tats env' = g_sd_tats env \<and>
    (length (idx_array af) = INDEX_ARRAY_MAX_NUMBER \<longrightarrow> length (idx_array af') = INDEX_ARRAY_MAX_NUMBER)"
  using assms
  by (auto simp: frame_put_def frame_index_def idx_put_def Let_def padded_length_def length_put_at split: if_splits)

lemma frame_put_None:
  "frame_put af data intra t1 t2 env = None \<longleftrightarrow> INDEX_ARRAY_MAX_NUMBER < 4 * pre_index_pos af + 4"
  by (auto simp: frame_put_def frame_index_def idx_put_def Let_def)

lemma stuck_write_frame:
  assumes st: "stuck f n k af env w" and key: "fr_intra f = 1" and sz: "DATA_SAVE_NUM * length (chunk f) \<le> REC_BUF_SIZE"
  shows "\<exists>af1 w1. write_frame af (fr_data f) (fr_intra f) (fr_t1 f) (fr_t2 f) env w =
      (case frame_put af1 (fr_data f) (fr_intra f) (fr_t1 f) (fr_t2 f) env of
         None \<Rightarrow> None
       | Some (af, env) \<Rightarrow> if buf_index af = DATA_SAVE_NUM then flush_open af env w1 else Some (0, af, env, w1)) \<and>
     writes_fail w1 \<and> odd (ncall w1) \<and> new_flag af1 = 0 \<and> af_fopen af1 \<and> af_iopen af1 \<and>
     pre_index_pos af1 = n \<and> buf_index af1 = k \<and> buf_offset af1 = k * length (chunk f) \<and>
     length (idx_array af1) = INDEX_ARRAY_MAX_NUMBER"
proof -
  have k: "k < DATA_SAVE_NUM" using st by (simp add: stuck_def)
  obtain af1 w1 where r: "frame_reopen af (fr_intra f) w = (None, af1, w1)" "writes_fail w1" "odd (ncall w1)"
    "new_flag af1 = 0" "af_fopen af1" "af_iopen af1" "pre_index_pos af1 = n" "buf_index af1 = k"
    "buf_offset af1 = k * length (chunk f)" "length (idx_array af1) = INDEX_ARRAY_MAX_NUMBER"
  proof (cases "k = 0")
    case True
    then have "os_call w = (True, w\<lparr>ncall := Suc (ncall w)\<rparr>)"
      using st by (auto simp: stuck_def os_call_def writes_fail_def)
    then have "frame_reopen af (fr_intra f) w = (None, af\<lparr>af_fopen := True, data_offset := sizeof_AviHeader,
                         af_file := fseek_set sizeof_AviHeader (af_file af), new_flag := 0\<rparr>, w\<lparr>ncall := Suc (ncall w)\<rparr>)"
      using st True key by (simp add: frame_reopen_def stuck_def)
    then show ?thesis using that st True by (auto simp: stuck_def writes_fail_def)
  next
    case False
    then show ?thesis using that st by (simp add: stuck_def frame_reopen_def)
  qed
  have "Suc k * length (chunk f) \<le> REC_BUF_SIZE"
    using k sz by (meson Suc_leI le_trans mult_le_mono1)
  then have fit: "\<not> buf_offset af1 + 8 + length (fr_data f) + length (fr_data f) mod 2 + 16 > REC_BUF_SIZE"
    by (simp add: r(9) length_chunk padded_length_def)
  have sd: "\<not> g_sd_tats env < 0" using st by (simp add: stuck_def)
  have "write_frame af (fr_data f) (fr_intra f) (fr_t1 f) (fr_t2 f) env w =
      (case frame_put af1 (fr_data f) (fr_intra f) (fr_t1 f) (fr_t2 f) env of
         None \<Rightarrow> None
       | Some (af, env) \<Rightarrow> if buf_index af = DATA_SAVE_NUM then flush_open af env w1 else Some (0, af, env, w1))"
    using key unfolding write_frame_def r(1) by (simp only: sd fit prod.case option.case if_False) simp
  then show ?thesis using r by blast
qed

lemma stuck_step:
  assumes st: "stuck f n k af env w" and key: "fr_intra f = 1" and sz: "DATA_SAVE_NUM * length (chunk f) \<le> REC_BUF_SIZE"
    and n: "n < 512"
  shows "\<exists>r af' env' w'. avi_record_write af (fr_data f) (fr_intra f) (fr_t1 f, fr_t2 f) env w = Some (r, af', env', w') \<and>
    stuck f (Suc n) (if Suc k = DATA_SAVE_NUM then 0 else Suc k) af' env' w'"
proof -
  obtain af1 w1 where r: "write_frame af (fr_data f) (fr_intra f) (fr_t1 f) (fr_t2 f) env w =
      (case frame_put af1 (fr_data f) (fr_intra f) (fr_t1 f) (fr_t2 f) env of
         None \<Rightarrow> None
       | Some (af, env) \<Rightarrow> if buf_index af = DATA_SAVE_NUM then flush_open af env w1 else Some (0, af, env, w1))"
    "writes_fail w1" "odd (ncall w1)" "new_flag af1 = 0" "af_fopen af1" "af_iopen af1"
    "pre_index_pos af1 = n" "buf_index af1 = k" "buf_offset af1 = k * length (chunk f)"
    "length (idx_array af1) = INDEX_ARRAY_MAX_NUMBER"
    using stuck_write_frame [OF st key sz] by blast
  have sd: "\<not> g_sd_tats env < 0" and k: "k < DATA_SAVE_NUM" using st by (simp_all add: stuck_def)
  have "frame_put af1 (fr_data f) (fr_intra f) (fr_t1 f) (fr_t2 f) env \<noteq> None"
    using n r(7) by (simp add: frame_put_None INDEX_ARRAY_MAX_NUMBER_def)
  then obtain af2 env2 where p: "frame_put af1 (fr_data f) (fr_intra f) (fr_t1 f) (fr_t2 f) env = Some (af2, env2)" by auto
  note q = frame_put_fields [OF p]
  show ?thesis
  proof (cases "Suc k = DATA_SAVE_NUM")
    case False
    then have "write_frame af (fr_data f) (fr_intra f) (fr_t1 f) (fr_t2 f) env w = Some (0, af2, env2, w1)"
      using r(1,8) p q by simp
    then have "avi_record_write af (fr_data f) (fr_intra f) (fr_t1 f, fr_t2 f) env w = Some (0, af2, env2, w1)"
      by (rule record_write_frame)
    moreover have "stuck f (Suc n) (Suc k) af2 env2 w1"
      using r q sd k False by (simp add: stuck_def length_chunk)
    ultimately show ?thesis using False by auto
  next
    case True
    have ne: "idx_bytes (af2\<lparr>buf_index := 0\<rparr>) m \<noteq> []" if "0 < m" for m
    proof -
      have "length (idx_bytes (af2\<lparr>buf_index := 0\<rparr>) m) \<noteq> 0"
        using that q r(10) by (simp add: idx_bytes_def ONE_INDEX_SIZE_def INDEX_ARRAY_MAX_NUMBER_def)
      then show ?thesis by (metis list.size(3))
    qed
    obtain e where e: "fault w1 (ncall w1) = Some e" using r(2,3) by (auto simp: writes_fail_def)
    have fw1: "fwrite1 (idx_bytes (af2\<lparr>buf_index := 0\<rparr>) m) x w1 =
        (0, file_put (take e (idx_bytes (af2\<lparr>buf_index := 0\<rparr>) m)) x, w1\<lparr>ncall := Suc (ncall w1)\<rparr>)" if "0 < m" for m x
      using ne [OF that] e by (simp add: fwrite1_def)
    have pos: "0 < (if pre_index_pos af2 > DATA_SAVE_NUM then DATA_SAVE_NUM else pre_index_pos af2)"
      using q by (simp add: DATA_SAVE_NUM_def)
    obtain x where fl: "frame_flush af2 env2 w1 = (-1, af2\<lparr>buf_index := 0, af_idx := x\<rparr>, env2, w1\<lparr>ncall := Suc (ncall w1)\<rparr>)"
    proof -
      have sel: "pre_index_pos (af2\<lparr>buf_index := 0\<rparr>) = pre_index_pos af2" by simp
      show ?thesis using that unfolding frame_flush_def Let_def sel fw1 [OF pos] by simp
    qed
    have wf: "write_frame af (fr_data f) (fr_intra f) (fr_t1 f) (fr_t2 f) env w =
        Some (-1, af2\<lparr>buf_index := 0, af_idx := x\<rparr>, env2, w1\<lparr>ncall := Suc (ncall w1)\<rparr>)"
      using r p q True by (simp add: flush_open_def fl)
    let ?af = "reset_buffers (af2\<lparr>buf_index := 0, af_idx := x\<rparr>\<lparr>new_flag := 1\<rparr>)"
    let ?env = "on_arrays (af2\<lparr>buf_index := 0, af_idx := x\<rparr>) (\<lambda>_. replicate REC_BUF_SIZE 0) env2"
    have "avi_record_write af (fr_data f) (fr_intra f) (fr_t1 f, fr_t2 f) env w =
        Some (-1, ?af, ?env, w1\<lparr>ncall := Suc (ncall w1)\<rparr>)"
      by (simp add: avi_record_write_def avi_write_frame_data_def write_result_def wf)
    moreover have "stuck f (Suc n) 0 ?af ?env (w1\<lparr>ncall := Suc (ncall w1)\<rparr>)"
      using r q sd by (simp add: stuck_def reset_buffers_def writes_fail_def DATA_SAVE_NUM_def)
    ultimately show ?thesis using True by auto
  qed
qed

lemma stuck_overflow:
  "stuck f n k af env w \<Longrightarrow> fr_intra f = 1 \<Longrightarrow> DATA_SAVE_NUM * length (chunk f) \<le> REC_BUF_SIZE \<Longrightarrow> n \<le> 512 \<Longrightarrow>
   run_writes (replicate (513 - n) f) af env w = None"
proof (induction "512 - n" arbitrary: n k af env w)
  case 0
  then have n: "n = 512" by simp
  obtain af1 w1 where r: "write_frame af (fr_data f) (fr_intra f) (fr_t1 f) (fr_t2 f) env w =
      (case frame_put af1 (fr_data f) (fr_intra f) (fr_t1 f) (fr_t2 f) env of
         None \<Rightarrow> None
       | Some (af, env) \<Rightarrow> if buf_index af = DATA_SAVE_NUM then flush_open af env w1 else Some (0, af, env, w1))"
    "pre_index_pos af1 = n"
    using stuck_write_frame [OF 0(2-4)] by blast
  then have "frame_put af1 (fr_data f) (fr_intra f) (fr_t1 f) (fr_t2 f) env = None"
    using n by (simp add: frame_put_None INDEX_ARRAY_MAX_NUMBER_def)
  then have "write_frame af (fr_data f) (fr_intra f) (fr_t1 f) (fr_t2 f) env w = None" using r(1) by simp
  then show ?case using n by (simp add: avi_record_write_def avi_write_frame_data_def)
next
  case (Suc d)
  then have n: "n < 512" "d = 512 - Suc n" by auto
  obtain r af' env' w' where
    s: "avi_record_write af (fr_data f) (fr_intra f) (fr_t1 f, fr_t2 f) env w = Some (r, af', env', w')"
      "stuck f (Suc n) (if Suc k = DATA_SAVE_NUM then 0 else Suc k) af' env' w'"
    using stuck_step [OF Suc(3-5) n(1)] by blast
  have "run_writes (replicate (513 - Suc n) f) af' env' w' = None"
    using Suc(1) [OF n(2) s(2) Suc(4,5)] n by simp
  moreover have "replicate (513 - n) f = f # replicate (513 - Suc n) f"
    using n by (simp add: Suc_diff_Suc [symmetric] flip: replicate_Suc)
  ultimately show ?case using s(1) by simp
qed

section \<open>Event recordings\<close>

lemma event_open_ok:
  assumes w: "no_faults w" and sd: "\<not> g_sd_tats env < 0"
    and m: "ip_mode (init_param af) = RECORD_FIXED_DURATION"
    and fl: "event_buf_flag af = 1" "normal_buf_flag af \<noteq> 1"
    and pre: "pre_index_pos af = 0" and l: "length (idx_array af) = INDEX_ARRAY_MAX_NUMBER"
  shows "\<exists>bits p af' env' w'. avi_event_record_open ex ptm af env w = (0, af', env', w') \<and> no_faults w' \<and>
    ip_duration (init_param af') = ip_duration (init_param af) \<and> ip_mode (init_param af') = RECORD_FIXED_DURATION \<and>
    filename af' = GRD_SD_MOUNT_POINT @ ''/'' @ substr0 (get_nowtime_str ptm) 0 8 @ ''/'' @ show_nat (unat (file_start af)) \<and>
    opened (encode_header (header_for bits p)) af' env'"
proof -
  obtain p0 ic where sz: "size_record 60 (af\<lparr>audio_count := 0\<rparr>) =
      Some (af\<lparr>audio_count := 0, data_offset := 0, video_count := 0, audio_bytes := 0, index_count := 0,
               idx_array_count := ic, init_param := p0\<rparr>)"
    "ip_duration p0 = ip_duration (init_param af)" "ip_mode p0 = RECORD_FIXED_DURATION"
    using size_record_mode [of "af\<lparr>audio_count := 0\<rparr>" 60] m by auto
  obtain w1 where w1: "make_dir ex (GRD_SD_MOUNT_POINT @ ''/'' @ substr0 (get_nowtime_str ptm) 0 8) w = (True, w1)" "no_faults w1"
  proof (cases "ex (GRD_SD_MOUNT_POINT @ ''/'' @ substr0 (get_nowtime_str ptm) 0 8)")
    case True
    then show ?thesis using that [of w] w by (simp add: make_dir_def)
  next
    case False
    then show ?thesis using that [of "w\<lparr>ncall := Suc (ncall w)\<rparr>"] w by (simp add: make_dir_def)
  qed
  define w2 where "w2 = w1\<lparr>ncall := Suc (ncall w1)\<rparr>"
  define w3 where "w3 = w2\<lparr>ncall := Suc (ncall w2)\<rparr>"
  have nf: "no_faults w2" "no_faults w3" using w1 by (simp_all add: w2_def w3_def)
  define af1 where "af1 = af\<lparr>audio_count := 0, data_offset := 0, video_count := 0, audio_bytes := 0, index_count := 0,
      idx_array_count := ic, init_param := p0,
      filename := GRD_SD_MOUNT_POINT @ ''/'' @ substr0 (get_nowtime_str ptm) 0 8 @ ''/'' @ show_nat (unat (file_start af)),
      af_file := \<lparr>fdata = [], fpos = 0\<rparr>, af_fopen := True,
      idxfilename := GRD_SD_MOUNT_POINT @ ''/'' @ show_nat (unat (file_start af)),
      af_idx := \<lparr>fdata = [], fpos = 0\<rparr>, af_iopen := True, idx_array := clear_idx (idx_array af)\<rparr>"
  obtain p bits w4 where h: "avi_write_header af1 env w3 =
    (0, af1\<lparr>init_param := p, data_offset := sizeof_AviHeader,
           af_file := \<lparr>fdata = encode_header (header_for bits p), fpos = sizeof_AviHeader\<rparr>\<rparr>,
     env\<lparr>g_a_bits := bits\<rparr>, w4)" "no_faults w4"
    "ip_duration p = ip_duration (init_param af)" "ip_mode p = RECORD_FIXED_DURATION"
    using avi_write_header_ok [OF nf(2) sd, of af1] sz(2,3) by (auto simp: af1_def)
  let ?af = "reset_buffers ((close_file (af1\<lparr>init_param := p, data_offset := sizeof_AviHeader,
           af_file := \<lparr>fdata = encode_header (header_for bits p), fpos = sizeof_AviHeader\<rparr>\<rparr>))\<lparr>new_flag := 1\<rparr>)"
  let ?env = "env\<lparr>g_a_bits := bits, event_data_array := replicate REC_BUF_SIZE 0\<rparr>"
  have open_: "avi_event_record_open ex ptm af env w = (0, ?af, ?env, w4)"
    using sd w1 fl h(1) unfolding af1_def w2_def w3_def
    by (simp add: avi_event_record_open_def sz open_index_def Let_def close_file_def)
  have "length (clear_idx (idx_array af)) = INDEX_ARRAY_MAX_NUMBER"
    using l by (simp add: clear_idx_def length_put_at INDEX_ARRAY_MAX_NUMBER_def)
  then have "opened (encode_header (header_for bits p)) ?af ?env"
    using sd fl pre by (simp add: opened_def rec_static_def rec_buffer_def one_flag_def cur_def reset_buffers_def
        close_file_def af1_def DATA_SAVE_NUM_def)
  then show ?thesis using open_ h(2-4)
    by (intro exI [of _ bits] exI [of _ p] exI [of _ ?af] exI [of _ ?env] exI [of _ w4])
      (simp add: reset_buffers_def close_file_def af1_def)
qed

lemma strstr_chars: "strstr s pat = Some i \<Longrightarrow> set pat \<subseteq> set s"
proof -
  assume "strstr s pat = Some i"
  then have "take (length pat) (drop i s) = pat" by (rule strstr_Some [THEN conjunct2])
  then show ?thesis by (metis dual_order.trans set_drop_subset set_take_subset)
qed

lemma substr0_chars: "c \<in> set (substr0 s a b) \<Longrightarrow> c \<in> set s"
  by (auto simp: substr0_def avi_substring_def slice_def Let_def split: option.splits if_splits
      dest: in_set_takeD in_set_dropD)

lemma event_name_no_ch:
  "strstr (GRD_SD_MOUNT_POINT @ ''/'' @ substr0 (get_nowtime_str ptm) 0 8 @ ''/'' @ show_nat n) ''ch'' = None"
proof (rule ccontr)
  assume "strstr (GRD_SD_MOUNT_POINT @ ''/'' @ substr0 (get_nowtime_str ptm) 0 8 @ ''/'' @ show_nat n) ''ch'' \<noteq> None"
  then have "CHR ''h'' \<in> set (GRD_SD_MOUNT_POINT @ ''/'' @ substr0 (get_nowtime_str ptm) 0 8 @ ''/'' @ show_nat n)"
    using strstr_chars by fastforce
  then have "CHR ''h'' \<in> set (get_nowtime_str ptm) \<or> CHR ''h'' \<in> set (show_nat n)"
    using substr0_chars by (auto simp: GRD_SD_MOUNT_POINT_def)
  then have "is_digit_char (CHR ''h'')"
    by (auto simp: get_nowtime_str_def dest: set_pad0 set_show_nat)
  then show False by (simp add: is_digit_char_def)
qed

lemma avi_add_index_filename:
  "avi_add_index af env w = Some (r, af', w') \<Longrightarrow> filename af' = filename af"
  by (auto simp: avi_add_index_def update_avi_header_def Let_def split: if_splits prod.splits option.splits)

lemma event_close_crash:
  assumes rec: "recording (encode_header h) s af env" and w: "no_faults w" and v: "0 < video_total (rs_all s)"
    and n: "strstr (filename af) ''ch'' = None"
  shows "avi_record_event_close af env w = None"
proof -
  obtain af1 w1 af2 w2 where d: "drained af env w = (1, af1, w1)" and b: "buf_offset af1 = buf_offset af"
    and a: "avi_add_index (if buf_offset af1 \<noteq> 0 then reset_buffers af1 else af1) env w1 = Some (0, af2, w2)"
    and f: "filename af2 = filename af"
    using close_add_index [OF rec w v] by blast
  have one: "\<not> (buf_offset af \<noteq> 0 \<and> event_buf_flag af \<noteq> 1 \<and> normal_buf_flag af \<noteq> 1)"
    and st: "\<not> g_sd_tats env < 0" "\<not> new_flag af \<noteq> 0" "\<not> (\<not> af_fopen af \<or> \<not> af_iopen af)"
    using rec by (auto simp: recording_def rec_static_def one_flag_def)
  show ?thesis
    using st one n f unfolding avi_record_event_close_def drained_def [symmetric] Let_def
    by (simp only: if_False d prod.case a) simp
qed

text \<open>Writing keeps the name of the file.\<close>

lemma filename_frame_put: "frame_put af d i t1 t2 env = Some (af', env') \<Longrightarrow> filename af' = filename af"
  by (auto simp: frame_put_def frame_index_def idx_put_def Let_def split: if_splits)

lemma filename_frame_flush: "frame_flush af env w = (r, af', env', w') \<Longrightarrow> filename af' = filename af"
  by (auto simp: frame_flush_def write_arrays_def Let_def split: if_splits prod.splits)

lemma filename_frame_reopen: "frame_reopen af i w = (r, af', w') \<Longrightarrow> filename af' = filename af"
  by (auto simp: frame_reopen_def split: if_splits prod.splits)

lemma filename_write_frame:
  "write_frame af d i t1 t2 env w = Some (r, af', env', w') \<Longrightarrow> filename af' = filename af"
  by (auto simp: write_frame_def flush_open_def split: if_splits prod.splits option.splits
      dest!: filename_frame_put filename_frame_flush filename_frame_reopen)

lemma filename_run_writes:
  "run_writes fs af env w = Some (rs, af', env', w') \<Longrightarrow> filename af' = filename af"
  by (induction fs arbitrary: af env w rs)
    (auto simp: avi_record_write_def avi_write_frame_data_def write_result_def reset_buffers_def
      dest!: filename_write_frame split: option.splits prod.splits if_splits)

text \<open>The frames of an opened recording, key frame first.\<close>

lemma opened_run:
  assumes o: "opened (encode_header h) af1 env1" and w: "no_faults w1"
    and f: "fr_intra f = 1 \<or> fr_intra f = 3" and ok: "\<forall>g \<in> set (f # fs). frame_ok g"
  shows "\<exists>af2 env2 w2. run_writes (f # fs) af1 env1 w1 = Some (replicate (Suc (length fs)) 0, af2, env2, w2) \<and>
    no_faults w2 \<and> recording (encode_header h) (spec_run (f # fs) \<lparr>rs_disk = [], rs_buf = []\<rparr>) af2 env2 \<and>
    0 < video_total (rs_all (spec_run (f # fs) \<lparr>rs_disk = [], rs_buf = []\<rparr>))"
proof -
  let ?s0 = "\<lparr>rs_disk = [], rs_buf = []\<rparr>"
  obtain afa enva wa where a: "write_frame af1 (fr_data f) (fr_intra f) (fr_t1 f) (fr_t2 f) env1 w1 = Some (0, afa, enva, wa)"
    "no_faults wa" "recording (encode_header h) (spec_write f ?s0) afa enva"
    using write_frame_opened [OF o f _ w] ok by auto
  obtain af2 env2 w2 where b: "run_writes fs afa enva wa = Some (replicate (length fs) 0, af2, env2, w2)" "no_faults w2"
    "recording (encode_header h) (spec_run fs (spec_write f ?s0)) af2 env2"
    using run_writes_recording [OF a(3) _ a(2), of fs] ok by auto
  have run: "run_writes (f # fs) af1 env1 w1 = Some (replicate (Suc (length fs)) 0, af2, env2, w2)"
    using record_write_frame [OF a(1)] b(1) by simp
  have sr: "spec_run (f # fs) ?s0 = spec_run fs (spec_write f ?s0)" by (simp add: spec_run_def)
  obtain gs where "rs_all (spec_run fs (spec_write f ?s0)) = [f] @ gs"
    using rs_all_spec_run [of fs "spec_write f ?s0"] spec_first [of f] ok by auto
  then have v: "0 < video_total (rs_all (spec_run fs (spec_write f ?s0)))"
    using f by (auto simp: video_total_def is_video_def)
  show ?thesis using run b v unfolding sr by blast
qed

definition zero_env :: rec_env where
  "zero_env = \<lparr>normal_data_array = replicate REC_BUF_SIZE 0, event_data_array = replicate REC_BUF_SIZE 0,
     g_sd_tats = 0, g_a_bits = 8\<rparr>"

definition good_io :: io where "good_io = \<lparr>fault = \<lambda>_. None, ncall = 0, utc = \<lambda>_. 0\<rparr>"

lemma good_io_ok [simp]: "no_faults good_io"
  by (simp add: good_io_def no_faults_def)

lemma recording_zero:
  "recording (encode_header h) \<lparr>rs_disk = [], rs_buf = []\<rparr>
    ((zero_file 1 0)\<lparr>af_fopen := True, af_iopen := True, data_offset := sizeof_AviHeader,
      af_file := \<lparr>fdata = encode_header h, fpos = sizeof_AviHeader\<rparr>\<rparr>) zero_env"
  by (simp add: recording_def zero_file_def zero_env_def rec_static_def one_flag_def rec_buffer_def rec_files_def
      rec_counts_def cur_def DATA_SAVE_NUM_def)

section \<open>Properties\<close>

text \<open>C11: frames written to a running recording follow the contract: each call succeeds, stays inside
  the frame buffer and the index array, and leaves the handle, both arrays and both files in the
  state the abstract recorder says, flushing after 100 frames or when the next frame does not fit.\<close>

theorem record_write_refines:
  assumes "recording hdr s af env" "\<forall>f \<in> set fs. frame_ok f" "no_faults w"
  shows "\<exists>af' env' w'. run_writes fs af env w = Some (replicate (length fs) 0, af', env', w') \<and>
    recording hdr (spec_run fs s) af' env'"
  using run_writes_recording [OF assms] by blast

lemma record_write_refines_witness:
  "\<exists>af' env' w'. run_writes [mkframe [1, 2, 3] 0 7 8, mkframe [4] 2 7 9]
      ((zero_file 1 0)\<lparr>af_fopen := True, af_iopen := True, data_offset := sizeof_AviHeader,
        af_file := \<lparr>fdata = encode_header (header_for 8 (init_param (zero_file 1 0))), fpos = sizeof_AviHeader\<rparr>\<rparr>)
      zero_env good_io = Some (replicate (length [mkframe [1, 2, 3] 0 7 8, mkframe [4] 2 7 9]) 0, af', env', w') \<and>
    recording (encode_header (header_for 8 (init_param (zero_file 1 0))))
      (spec_run [mkframe [1, 2, 3] 0 7 8, mkframe [4] 2 7 9] \<lparr>rs_disk = [], rs_buf = []\<rparr>) af' env'"
  by (rule record_write_refines [OF recording_zero])
    (simp_all add: frame_ok_def kind_ok_def is_video_def length_chunk padded_length_def REC_BUF_SIZE_def)

text \<open>C4: a recording that is started, fed with frames of which the first is a key frame, and stopped
  ends in a file that is exactly the image of the accepted frames: the 326 byte header with the
  final lengths and counts, one chunk per frame, and an index whose entries give each chunk's place.\<close>

theorem record_session_image:
  assumes w: "no_faults w" and sd: "\<not> g_sd_tats env < 0" and dur: "0 < dur"
    and af: "normal_buf_flag af = 1" "event_buf_flag af \<noteq> 1"
      "pre_index_pos af = 0" "length (idx_array af) = INDEX_ARRAY_MAX_NUMBER"
    and f: "fr_intra f = 1 \<or> fr_intra f = 3" and ok: "\<forall>g \<in> set (f # fs). frame_ok g"
  shows "\<exists>af1 env1 w1 af2 env2 w2 af3 w3 h.
    record_normal_start ex ptm af rtype dur rate env w = (0, af1, env1, w1) \<and>
    run_writes (f # fs) af1 env1 w1 = Some (replicate (Suc (length fs)) 0, af2, env2, w2) \<and>
    record_normal_stop af2 env2 w2 = Some (0, af3, w3) \<and>
    fdata (af_file af3) = recording_image h (rs_all (spec_run (f # fs) \<lparr>rs_disk = [], rs_buf = []\<rparr>))
      (duration af2) (g_a_bits env2)"
proof -
  let ?af = "record_start_param af rtype dur rate"
  have p: "ip_mode (init_param ?af) = RECORD_FIXED_DURATION" "ip_duration (init_param ?af) = dur"
    "normal_buf_flag ?af = 1" "event_buf_flag ?af \<noteq> 1" "pre_index_pos ?af = 0"
    "length (idx_array ?af) = INDEX_ARRAY_MAX_NUMBER"
    using af by (simp_all add: record_start_param_def init_rec_param_def Let_def)
  obtain bits q af1 env1 w1 where o: "avi_normal_record_open ex ptm ?af env w = (0, af1, env1, w1)" "no_faults w1"
    "opened (encode_header (header_for bits q)) af1 env1"
    using normal_open_ok [OF w sd p(1,3-6)] by blast
  have start: "record_normal_start ex ptm af rtype dur rate env w = (0, af1, env1, w1)"
    using o(1) dur p(2) by (simp add: record_normal_start_def Let_def)
  obtain af2 env2 w2 where r: "run_writes (f # fs) af1 env1 w1 = Some (replicate (Suc (length fs)) 0, af2, env2, w2)"
    "no_faults w2" "recording (encode_header (header_for bits q)) (spec_run (f # fs) \<lparr>rs_disk = [], rs_buf = []\<rparr>) af2 env2"
    "0 < video_total (rs_all (spec_run (f # fs) \<lparr>rs_disk = [], rs_buf = []\<rparr>))"
    using opened_run [OF o(3,2) f ok] by blast
  obtain af3 w3 where c: "avi_record_nornal_close af2 env2 w2 = Some (0, af3, w3)"
    "fdata (af_file af3) = recording_image (header_for bits q)
      (rs_all (spec_run (f # fs) \<lparr>rs_disk = [], rs_buf = []\<rparr>)) (duration af2) (g_a_bits env2)"
    using normal_close_ok [OF r(3,2,4)] by blast
  show ?thesis unfolding record_normal_stop_def using start r(1) c by blast
qed

lemma record_session_image_witness:
  "\<exists>af1 env1 w1 af2 env2 w2 af3 w3 h.
    record_normal_start (\<lambda>_. True) \<lparr>tm_year = 115, tm_mon = 0, tm_mday = 27, tm_hour = 1, tm_min = 2, tm_sec = 3\<rparr>
      (zero_file 1 0) 0 600 25 zero_env good_io = (0, af1, env1, w1) \<and>
    run_writes [mkframe [1, 2, 3] 1 7 8] af1 env1 w1 = Some (replicate (Suc (length ([] :: frame list))) 0, af2, env2, w2) \<and>
    record_normal_stop af2 env2 w2 = Some (0, af3, w3) \<and>
    fdata (af_file af3) = recording_image h (rs_all (spec_run [mkframe [1, 2, 3] 1 7 8] \<lparr>rs_disk = [], rs_buf = []\<rparr>))
      (duration af2) (g_a_bits env2)"
  by (rule record_session_image)
    (simp_all add: zero_file_def zero_env_def frame_ok_def kind_ok_def is_video_def length_chunk padded_length_def
      REC_BUF_SIZE_def)

text \<open>while the writes to the card fail, every batch of 100 frames leaves its index entries pending,
  and the 513th frame is written behind the end of the index array.\<close>

theorem failing_card_overflows_index:
  assumes "writes_fail w" "even (ncall w)" "\<not> g_sd_tats env < 0" "af_iopen af" "new_flag af = 1"
    "pre_index_pos af = 0" "buf_index af = 0" "buf_offset af = 0" "length (idx_array af) = INDEX_ARRAY_MAX_NUMBER"
    "fr_intra f = 1" "DATA_SAVE_NUM * length (chunk f) \<le> REC_BUF_SIZE"
  shows "run_writes (replicate 513 f) af env w = None"
  using stuck_overflow [of f 0 0 af env w] assms by (simp add: stuck_def DATA_SAVE_NUM_def)

lemma failing_card_overflows_index_witness:
  "run_writes (replicate 513 (mkframe [1, 2, 3] 1 7 8))
     ((zero_file 1 0)\<lparr>af_iopen := True, new_flag := 1\<rparr>) zero_env
     \<lparr>fault = \<lambda>n. if even n then None else Some 0, ncall = 0, utc = \<lambda>_. 0\<rparr> = None"
  by (rule failing_card_overflows_index)
    (simp_all add: writes_fail_def zero_file_def zero_env_def length_chunk padded_length_def DATA_SAVE_NUM_def
      REC_BUF_SIZE_def)

text \<open>C40: stopping an event recording that has frames dereferences an invalid pointer: the new name is
  built from the position of \<open>ch\<close> in the file name, and the names that are now given have no \<open>ch\<close>.\<close>

theorem event_stop_crashes:
  assumes w: "no_faults w" and sd: "\<not> g_sd_tats env < 0" and dur: "0 < dur"
    and af: "event_buf_flag af = 1" "normal_buf_flag af \<noteq> 1"
      "pre_index_pos af = 0" "length (idx_array af) = INDEX_ARRAY_MAX_NUMBER"
    and f: "fr_intra f = 1 \<or> fr_intra f = 3" and ok: "\<forall>g \<in> set (f # fs). frame_ok g"
  shows "\<exists>af1 env1 w1 af2 env2 w2.
    record_event_start ex ptm af rtype dur rate env w = (0, af1, env1, w1) \<and>
    run_writes (f # fs) af1 env1 w1 = Some (replicate (Suc (length fs)) 0, af2, env2, w2) \<and>
    record_event_stop af2 env2 w2 = None"
proof -
  let ?af = "record_start_param af rtype dur rate"
  have p: "ip_mode (init_param ?af) = RECORD_FIXED_DURATION" "ip_duration (init_param ?af) = dur"
    "event_buf_flag ?af = 1" "normal_buf_flag ?af \<noteq> 1" "pre_index_pos ?af = 0"
    "length (idx_array ?af) = INDEX_ARRAY_MAX_NUMBER"
    using af by (simp_all add: record_start_param_def init_rec_param_def Let_def)
  obtain bits q af1 env1 w1 where o: "avi_event_record_open ex ptm ?af env w = (0, af1, env1, w1)" "no_faults w1"
    "opened (encode_header (header_for bits q)) af1 env1" "strstr (filename af1) ''ch'' = None"
    using event_open_ok [OF w sd p(1,3-6)] event_name_no_ch by metis
  have start: "record_event_start ex ptm af rtype dur rate env w = (0, af1, env1, w1)"
    using o(1) dur p(2) by (simp add: record_event_start_def Let_def)
  obtain af2 env2 w2 where r: "run_writes (f # fs) af1 env1 w1 = Some (replicate (Suc (length fs)) 0, af2, env2, w2)"
    "no_faults w2" "recording (encode_header (header_for bits q)) (spec_run (f # fs) \<lparr>rs_disk = [], rs_buf = []\<rparr>) af2 env2"
    "0 < video_total (rs_all (spec_run (f # fs) \<lparr>rs_disk = [], rs_buf = []\<rparr>))"
    using opened_run [OF o(3,2) f ok] by blast
  have "strstr (filename af2) ''ch'' = None" using filename_run_writes [OF r(1)] o(4) by simp
  then have "record_event_stop af2 env2 w2 = None"
    unfolding record_event_stop_def by (rule event_close_crash [OF r(3,2,4)])
  then show ?thesis using start r(1) by blast
qed

lemma event_stop_crashes_witness:
  "\<exists>af1 env1 w1 af2 env2 w2.
    record_event_start (\<lambda>_. True) \<lparr>tm_year = 115, tm_mon = 0, tm_mday = 27, tm_hour = 1, tm_min = 2, tm_sec = 3\<rparr>
      (zero_file 0 1) 1 60 25 zero_env good_io = (0, af1, env1, w1) \<and>
    run_writes [mkframe [1, 2, 3] 1 7 8] af1 env1 w1 = Some (replicate (Suc (length ([] :: frame list))) 0, af2, env2, w2) \<and>
    record_event_stop af2 env2 w2 = None"
  by (rule event_stop_crashes)
    (simp_all add: zero_file_def zero_env_def frame_ok_def kind_ok_def is_video_def length_chunk padded_length_def
      REC_BUF_SIZE_def)

end
