(* ===== verification/Mmc.thy ===== *)
theory Mmc
  imports AviSearch "HOL-Library.Char_ord"
begin

text \<open>
  The SD card management of \<^verbatim>\<open>storage/src/mmc_api.c\<close>: recognising file names, finding the oldest date
  directory and the oldest recording in it, and freeing space. The card is a map from directory
  paths to their entries; whether \<^verbatim>\<open>remove\<close>, \<^verbatim>\<open>rename\<close>, \<^verbatim>\<open>mkdir\<close> and the shell succeed is given by
  the environment.
\<close>

section \<open>Names\<close>

definition is_digit :: "string \<Rightarrow> bool" where
  "is_digit str = list_all (\<lambda>c. \<not> (c < CHR ''0'' \<or> c > CHR ''9'')) str"

definition is_fix_format_file :: "string \<Rightarrow> bool" where
  "is_fix_format_file str =
     (if length str \<noteq> 18 then False
      else if str ! 0 \<noteq> CHR ''c'' \<or> str ! 1 \<noteq> CHR ''h'' then False
      else if str ! 2 < CHR ''0'' \<or> str ! 2 > CHR ''9'' then False
      else if str ! 3 \<noteq> CHR ''_'' then False
      else is_digit (substr0 str 4 (4 + 14)))"

definition basename :: "string \<Rightarrow> string option" where
  "basename file_path =
     (let i = last_index_at (CHR 0x00) file_path (CHR ''/'') in
      if i < 0 then None else Some (take 128 (drop (nat (i + 1)) file_path)))"

definition is_fix_format_path :: "string \<Rightarrow> bool" where
  "is_fix_format_path file_path =
     (case basename file_path of
        None \<Rightarrow> False
      | Some str \<Rightarrow>
          if length str \<noteq> 18 then False
          else if str ! 0 \<noteq> CHR ''c'' \<or> str ! 1 \<noteq> CHR ''h'' then False
          else if str ! 2 < CHR ''0'' \<or> str ! 2 > CHR ''9'' then False
          else if str ! 3 \<noteq> CHR ''_'' then False
          else is_digit (substr0 str 4 (4 + 14)))"

definition is_avi_file_path_format :: "string \<Rightarrow> bool" where
  "is_avi_file_path_format file_path =
     (case basename file_path of None \<Rightarrow> False | Some str \<Rightarrow> is_avi_file_format str)"

definition is_jpg_pic_format :: "string \<Rightarrow> int" where
  "is_jpg_pic_format file_name =
     (if length file_name \<noteq> 18 then -1
      else if file_name ! 14 = CHR ''.'' \<and> file_name ! 15 = CHR ''j'' \<and>
              file_name ! 16 = CHR ''p'' \<and> file_name ! 17 = CHR ''g'' then 0
      else -1)"

section \<open>The oldest directory and file\<close>

type_synonym dirs = "string \<Rightarrow> dirent list option"

definition NO_DATE :: int where "NO_DATE = 99999999"
definition NO_TIME :: int where "NO_TIME = 99999999999999"

fun min_dir_loop :: "int \<Rightarrow> dirent list \<Rightarrow> int" where
  "min_dir_loop m [] = m"
| "min_dir_loop m (ent # ents) =
     (if d_type ent AND DT_DIR = 0 then min_dir_loop m ents
      else if d_name ent = ''.'' \<or> d_name ent = ''..'' then min_dir_loop m ents
      else let tmp = atoi (d_name ent) in min_dir_loop (if tmp < m then tmp else m) ents)"

text \<open>The second argument is the caller's buffer, which an unsuccessful search leaves as it was.\<close>

definition find_oldest_dir :: "dirs \<Rightarrow> string \<Rightarrow> int \<times> string" where
  "find_oldest_dir dirs min_dir =
     (case dirs GRD_SD_MOUNT_POINT of
        None \<Rightarrow> (2, min_dir)
      | Some ents \<Rightarrow>
          let m = min_dir_loop NO_DATE ents in
          if m = NO_DATE then (2, min_dir) else (0, GRD_SD_MOUNT_POINT @ ''/'' @ show_int m))"

definition find_oldest_file :: "string \<Rightarrow> int \<times> string \<Rightarrow> int \<times> string" where
  "find_oldest_file file_name r =
     (case r of (m, min_filename) \<Rightarrow>
        let tmp32 = atoi (substr0 file_name 0 10) in
        if tmp32 < m then (tmp32, file_name) else (m, min_filename))"

fun oldest_file_loop :: "int \<times> string \<Rightarrow> dirent list \<Rightarrow> int \<times> string" where
  "oldest_file_loop r [] = r"
| "oldest_file_loop r (ent # ents) =
     (if d_type ent AND DT_REG = 0 then oldest_file_loop r ents
      else if \<not> is_avi_file_format (d_name ent) then oldest_file_loop r ents
      else oldest_file_loop (find_oldest_file (d_name ent) r) ents)"

definition remove_file :: "string \<Rightarrow> string \<Rightarrow> dirs \<Rightarrow> dirs" where
  "remove_file dir name dirs = dirs(dir := map_option (filter (\<lambda>e. d_name e \<noteq> name)) (dirs dir))"

text \<open>\<^verbatim>\<open>rm -rf\<close> of a directory directly under the mount point.\<close>

definition rm_rf :: "string \<Rightarrow> dirs \<Rightarrow> dirs" where
  "rm_rf dir dirs =
     (dirs(dir := None))
       (GRD_SD_MOUNT_POINT := map_option (filter (\<lambda>e. GRD_SD_MOUNT_POINT @ ''/'' @ d_name e \<noteq> dir))
          (dirs GRD_SD_MOUNT_POINT))"

definition del_oldest_file :: "bool \<Rightarrow> bool \<Rightarrow> string \<Rightarrow> dirs \<Rightarrow> int \<times> dirs" where
  "del_oldest_file remove_ok shell_ok min_dir dirs =
     (case dirs min_dir of
        None \<Rightarrow> (-1, dirs)
      | Some ents \<Rightarrow>
          let (m, min_filename) = oldest_file_loop (NO_TIME, []) ents in
          if m \<noteq> NO_TIME then
            if \<not> remove_ok then (-1, dirs) else (0, remove_file min_dir min_filename dirs)
          else if \<not> shell_ok then (-1, dirs) else (3, rm_rf min_dir dirs))"

definition rename_oldest_file ::
  "(string \<Rightarrow> bool) \<Rightarrow> bool \<Rightarrow> bool \<Rightarrow> bool \<Rightarrow> tm \<Rightarrow> string \<Rightarrow> string \<times> string \<Rightarrow> dirs \<Rightarrow>
   int \<times> (string \<times> string) \<times> dirs" where
  "rename_oldest_file exists mkdir_ok rename_ok shell_ok now min_dir names dirs =
     (case dirs min_dir of
        None \<Rightarrow> (3, names, dirs)
      | Some ents \<Rightarrow>
          let (m, min_filename) = oldest_file_loop (NO_TIME, []) ents in
          if m \<noteq> NO_TIME then
            let del_file = min_dir @ ''/'' @ min_filename;
                date_path = GRD_SD_MOUNT_POINT @ ''/'' @ substr0 (get_nowtime_str now) 0 8 in
            if \<not> exists date_path \<and> \<not> mkdir_ok then (-1, names, dirs)
            else let names = (date_path @ ''/ch'', del_file) in
              if \<not> rename_ok then (-1, names, dirs) else (0, names, remove_file min_dir min_filename dirs)
          else if \<not> shell_ok then (-1, names, dirs) else (3, names, rm_rf min_dir dirs))"

definition grd_sd_del_oldest_avi_file :: "bool \<Rightarrow> bool \<Rightarrow> dirs \<Rightarrow> int \<times> dirs" where
  "grd_sd_del_oldest_avi_file remove_ok shell_ok dirs =
     (let (ret, min_dir) = find_oldest_dir dirs [] in
      if ret = 2 then (2, dirs) else (0, snd (del_oldest_file remove_ok shell_ok min_dir dirs)))"

section \<open>Mounting\<close>

definition get_sd_stats :: "bool \<Rightarrow> int" where
  "get_sd_stats has_sd_card = (if \<not> has_sd_card then -1 else 0)"

text \<open>\<open>flag\<close> is the content of \<^verbatim>\<open>/var/log/has_sd_card\<close>, when it can be opened.\<close>

definition get_mmc_devname :: "bool \<Rightarrow> string option \<Rightarrow> nat \<Rightarrow> string \<Rightarrow> int \<times> string" where
  "get_mmc_devname has_sd_card flag iMaxsize pDevname =
     (if get_sd_stats has_sd_card < 0 then (-1, pDevname)
      else case flag of
        None \<Rightarrow> (0, pDevname)
      | Some content \<Rightarrow>
          let devnode = takeWhile (\<lambda>c. c \<noteq> CHR 0x00) (take 64 content) in
          (0, take (iMaxsize - 1) (if devnode = [] then ''/dev/mmcblk0p1'' else devnode)))"

definition is_mount_line :: "bool \<Rightarrow> string \<Rightarrow> bool" where
  "is_mount_line vfat line \<longleftrightarrow> strstr line ''mmcblk0p1'' \<noteq> None \<and> strstr line GRD_SD_MOUNT_POINT \<noteq> None \<and>
     (vfat \<longrightarrow> strstr line ''vfat'' \<noteq> None)"

fun mount_scan :: "bool \<Rightarrow> int \<Rightarrow> string list \<Rightarrow> int" where
  "mount_scan vfat flag [] = flag"
| "mount_scan vfat flag (line # rest) = (if is_mount_line vfat line then 3 else mount_scan vfat 0 rest)"

text \<open>The lines of \<^verbatim>\<open>/proc/mounts\<close> and of \<^verbatim>\<open>df\<close>, when the temporary files can be opened.\<close>

definition grd_sd_is_mount :: "bool \<Rightarrow> string list option \<Rightarrow> string list option \<Rightarrow> int" where
  "grd_sd_is_mount statfs_ok mounts df =
     (if \<not> statfs_ok then 0
      else case mounts of
        None \<Rightarrow> 0
      | Some ms \<Rightarrow>
          let flag = mount_scan True 0 ms in
          case df of None \<Rightarrow> -1 | Some ds \<Rightarrow> mount_scan False flag ds)"

definition st_creat_mount_dir :: "bool \<Rightarrow> bool \<Rightarrow> int \<times> bool" where
  "st_creat_mount_dir exists mkdir_ok = (0, exists \<or> mkdir_ok)"

definition grd_sd_mount :: "bool \<Rightarrow> bool \<Rightarrow> int \<Rightarrow> int" where
  "grd_sd_mount exists mkdir_ok mount =
     (let (_, exists) = st_creat_mount_dir exists mkdir_ok in
      if \<not> exists then -1 else if mount < 0 then -1 else 0)"

definition grd_sd_umount :: "int \<Rightarrow> int" where
  "grd_sd_umount umount2 = (if umount2 = 0 then 0 else -1)"

text \<open>\<open>None\<close>: \<^verbatim>\<open>fclose\<close> of the NULL handle in the branch for a card that cannot be written.\<close>

definition is_sd_card_valid :: "bool \<Rightarrow> int option" where
  "is_sd_card_valid fopen_ok = (if fopen_ok then Some 0 else None)"

section \<open>Correctness\<close>

lemma char_le_iff: "(c :: char) < d \<longleftrightarrow> (of_char c :: nat) < of_char d"
  by (simp add: less_char_def)

lemma is_digit_iff: "is_digit str \<longleftrightarrow> (\<forall>c \<in> set str. is_digit_char c)"
  by (auto simp: is_digit_def list_all_iff is_digit_char_def char_le_iff not_less)

text \<open>The directories the search looks at.\<close>

definition dated :: "dirent \<Rightarrow> bool" where
  "dated e \<longleftrightarrow> d_type e AND DT_DIR \<noteq> 0 \<and> d_name e \<noteq> ''.'' \<and> d_name e \<noteq> ''..''"

lemma min_dir_loop_le: "min_dir_loop m es \<le> m"
  by (induction m es rule: min_dir_loop.induct) (auto simp: Let_def split: if_splits)

lemma min_dir_loop_lower: "e \<in> set es \<Longrightarrow> dated e \<Longrightarrow> min_dir_loop m es \<le> atoi (d_name e)"
proof (induction es arbitrary: m)
  case (Cons x xs)
  show ?case
  proof (cases "e = x")
    case True
    then show ?thesis
      using Cons.prems(2) min_dir_loop_le [of "atoi (d_name x)" xs] min_dir_loop_le [of m xs]
      by (auto simp: dated_def Let_def)
  next
    case False
    then show ?thesis using Cons by (auto simp: Let_def)
  qed
qed simp

lemma min_dir_loop_in:
  "min_dir_loop m es = m \<or> (\<exists>e \<in> set es. dated e \<and> min_dir_loop m es = atoi (d_name e))"
proof (induction es arbitrary: m)
  case (Cons x xs)
  let ?m = "if atoi (d_name x) < m then atoi (d_name x) else m"
  show ?case
    using Cons.IH [of m] Cons.IH [of ?m] by (auto simp: dated_def Let_def split: if_splits)
qed simp

text \<open>Recordings the search looks at, and the start time it reads in their names.\<close>

definition recording_entry :: "dirent \<Rightarrow> bool" where
  "recording_entry e \<longleftrightarrow> d_type e AND DT_REG \<noteq> 0 \<and> is_avi_file_format (d_name e)"

definition start_of :: "dirent \<Rightarrow> int" where
  "start_of e = atoi (substr0 (d_name e) 0 10)"

lemma oldest_loop_le: "fst (oldest_file_loop r es) \<le> fst r"
proof (induction r es rule: oldest_file_loop.induct)
  case (2 r e es)
  have "fst (find_oldest_file (d_name e) r) \<le> fst r"
    by (auto simp: find_oldest_file_def Let_def split: prod.splits)
  then show ?case using 2 by auto
qed simp

lemma oldest_loop_lower: "e \<in> set es \<Longrightarrow> recording_entry e \<Longrightarrow> fst (oldest_file_loop r es) \<le> start_of e"
proof (induction es arbitrary: r)
  case (Cons x xs)
  show ?case
  proof (cases "e = x")
    case True
    have "fst (find_oldest_file (d_name x) r) \<le> start_of x"
      by (auto simp: find_oldest_file_def start_of_def Let_def split: prod.splits)
    then show ?thesis
      using True Cons.prems(2) oldest_loop_le [of "find_oldest_file (d_name x) r" xs]
      by (auto simp: recording_entry_def)
  next
    case False
    then show ?thesis using Cons by auto
  qed
qed simp

lemma oldest_loop_in:
  "oldest_file_loop r es = r \<or>
   (\<exists>e \<in> set es. recording_entry e \<and> oldest_file_loop r es = (start_of e, d_name e))"
proof (induction es arbitrary: r)
  case (Cons x xs)
  have f: "find_oldest_file (d_name x) r = r \<or> find_oldest_file (d_name x) r = (start_of x, d_name x)"
    by (auto simp: find_oldest_file_def start_of_def Let_def split: prod.splits)
  show ?case
  proof (cases "recording_entry x")
    case True
    then have "oldest_file_loop r (x # xs) = oldest_file_loop (find_oldest_file (d_name x) r) xs"
      by (simp add: recording_entry_def)
    then show ?thesis using f True Cons.IH [of "find_oldest_file (d_name x) r"] by auto
  next
    case False
    then have "oldest_file_loop r (x # xs) = oldest_file_loop r xs" by (auto simp: recording_entry_def)
    then show ?thesis using Cons.IH [of r] by auto
  qed
qed simp

lemma digits_acc_bound: "digits_acc a xs < (a + 1) * 10 ^ length xs"
proof (induction xs arbitrary: a)
  case (Cons x xs)
  show ?case
  proof (cases "is_digit_char x")
    case True
    have "digits_acc a (x # xs) < (a * 10 + digit_val x + 1) * 10 ^ length xs"
      using True Cons.IH by simp
    also have "\<dots> \<le> ((a + 1) * 10) * 10 ^ length xs"
      using digit_val_less [OF True] by (intro mult_le_mono1) simp
    finally show ?thesis by (simp only: length_Cons power_Suc mult.assoc)
  next
    case False
    have "1 \<le> (10::nat) ^ length (x # xs)" by simp
    then have "a + 1 \<le> (a + 1) * 10 ^ length (x # xs)" by (metis mult_le_mono2 mult.right_neutral)
    then show ?thesis using False by simp
  qed
qed simp

lemma digits_acc_lt: "digits_acc 0 xs < 10 ^ length xs"
  using digits_acc_bound [of 0 xs] by simp

lemma atoi_lt: "length s \<le> n \<Longrightarrow> atoi s < 10 ^ n"
proof -
  assume l: "length s \<le> n"
  obtain t where t: "dropWhile is_space_char s = t" "length t \<le> n"
    using l length_dropWhile_le [of is_space_char s] by (meson le_trans)
  have b: "int (digits_acc 0 u) < 10 ^ n" if "length u \<le> n" for u
  proof -
    have "digits_acc 0 u < 10 ^ length u" by (rule digits_acc_lt)
    also have "\<dots> \<le> (10::nat) ^ n" using that by (intro power_increasing) auto
    finally show ?thesis by (metis of_nat_less_iff of_nat_numeral of_nat_power)
  qed
  have z: "(0::int) < 10 ^ n" by simp
  show ?thesis
  proof (cases t)
    case Nil
    then show ?thesis using z unfolding atoi_def t(1) Nil by simp
  next
    case (Cons c cs)
    have "- int (digits_acc 0 cs) < 10 ^ n" using z by (smt (verit) of_nat_0_le_iff)
    then show ?thesis using t Cons b [of cs] b [of t] unfolding atoi_def t(1) Cons by simp
  qed
qed

lemma start_of_lt: "start_of e < NO_TIME"
proof -
  have "length (substr0 (d_name e) 0 10) \<le> 10"
    by (auto simp: substr0_def avi_substring_def slice_def)
  then have "start_of e < 10 ^ 10" unfolding start_of_def by (rule atoi_lt)
  then show ?thesis by (simp add: NO_TIME_def)
qed

text \<open>The loop over a directory finds a recording whenever there is one, the one with the least start.\<close>

lemma oldest_file_found:
  assumes "e \<in> set es" "recording_entry e"
  shows "\<exists>f \<in> set es. recording_entry f \<and> oldest_file_loop (NO_TIME, []) es = (start_of f, d_name f) \<and>
    (\<forall>g \<in> set es. recording_entry g \<longrightarrow> start_of f \<le> start_of g)"
proof -
  have "oldest_file_loop (NO_TIME, []) es \<noteq> (NO_TIME, [])"
    using oldest_loop_lower [OF assms, of "(NO_TIME, [])"] start_of_lt [of e] by auto
  then obtain f where f: "f \<in> set es" "recording_entry f" "oldest_file_loop (NO_TIME, []) es = (start_of f, d_name f)"
    using oldest_loop_in [of "(NO_TIME, [])" es] by blast
  moreover have "start_of f \<le> start_of g" if "g \<in> set es" "recording_entry g" for g
    using oldest_loop_lower [OF that, of "(NO_TIME, [])"] f(3) by simp
  ultimately show ?thesis by blast
qed

lemma oldest_file_none:
  "\<forall>e \<in> set es. \<not> recording_entry e \<Longrightarrow> oldest_file_loop r es = r"
  using oldest_loop_in by blast

text \<open>A card as the recorder lays it out: the directories under the mount point are named by dates.\<close>

definition date_name :: "string \<Rightarrow> bool" where
  "date_name s \<longleftrightarrow> (\<exists>n. s = show_nat n \<and> 10000000 \<le> n \<and> n < 99999999)"

definition dir_path :: "dirent \<Rightarrow> string" where
  "dir_path e = GRD_SD_MOUNT_POINT @ ''/'' @ d_name e"

definition card_ok :: "dirs \<Rightarrow> bool" where
  "card_ok dirs \<longleftrightarrow> (\<exists>ents. dirs GRD_SD_MOUNT_POINT = Some ents \<and> distinct (map d_name ents) \<and>
     (\<forall>e \<in> set ents. dated e \<longrightarrow> date_name (d_name e) \<and> dirs (dir_path e) \<noteq> None))"

lemma date_name_atoi: "date_name s \<Longrightarrow> 10000000 \<le> atoi s \<and> atoi s < NO_DATE \<and> show_int (atoi s) = s"
  by (auto simp: date_name_def NO_DATE_def show_int_def)

lemma find_oldest_dir_dates:
  assumes ents: "dirs GRD_SD_MOUNT_POINT = Some ents" and dates: "\<forall>e \<in> set ents. dated e \<longrightarrow> date_name (d_name e)"
    and e: "e \<in> set ents" "dated e"
  shows "\<exists>d \<in> set ents. dated d \<and> find_oldest_dir dirs buf = (0, dir_path d) \<and>
    (\<forall>g \<in> set ents. dated g \<longrightarrow> atoi (d_name d) \<le> atoi (d_name g))"
proof -
  let ?m = "min_dir_loop NO_DATE ents"
  have "?m \<noteq> NO_DATE"
    using min_dir_loop_lower [OF e, of NO_DATE] date_name_atoi dates e by fastforce
  then obtain d where d: "d \<in> set ents" "dated d" "?m = atoi (d_name d)"
    using min_dir_loop_in [of NO_DATE ents] by blast
  then have "find_oldest_dir dirs buf = (0, dir_path d)"
    using ents \<open>?m \<noteq> NO_DATE\<close> dates date_name_atoi by (simp add: find_oldest_dir_def dir_path_def Let_def)
  then show ?thesis using d min_dir_loop_lower [of _ ents NO_DATE] by auto
qed

lemma find_oldest_dir_none:
  "dirs GRD_SD_MOUNT_POINT = Some ents \<Longrightarrow> \<forall>e \<in> set ents. \<not> dated e \<Longrightarrow> find_oldest_dir dirs buf = (2, buf)"
  using min_dir_loop_in [of NO_DATE ents] by (auto simp: find_oldest_dir_def)

lemma dir_path_not_mount [simp]: "dir_path e \<noteq> GRD_SD_MOUNT_POINT" "GRD_SD_MOUNT_POINT \<noteq> dir_path e"
  by (simp_all add: dir_path_def)

lemma dir_path_inj: "dir_path e = dir_path f \<longleftrightarrow> d_name e = d_name f"
  by (simp add: dir_path_def)

text \<open>The room on a card: its date directories and the recordings in them.\<close>

definition recordings :: "dirent list \<Rightarrow> nat" where
  "recordings es = length (filter recording_entry es)"

definition weight :: "dirs \<Rightarrow> nat" where
  "weight dirs = (case dirs GRD_SD_MOUNT_POINT of None \<Rightarrow> 0
     | Some ents \<Rightarrow> sum_list (map (\<lambda>e. 1 + (case dirs (dir_path e) of None \<Rightarrow> 0 | Some es \<Rightarrow> recordings es))
         (filter dated ents)))"

text \<open>One cleaning step on a good card: the oldest recording of the oldest date goes, or an oldest
  directory without recordings.\<close>

definition freed :: "dirs \<Rightarrow> dirs \<Rightarrow> bool" where
  "freed dirs dirs' \<longleftrightarrow> (\<exists>ents d es. dirs GRD_SD_MOUNT_POINT = Some ents \<and> d \<in> set ents \<and> dated d \<and>
     dirs (dir_path d) = Some es \<and> (\<forall>g \<in> set ents. dated g \<longrightarrow> atoi (d_name d) \<le> atoi (d_name g)) \<and>
     (if \<forall>e \<in> set es. \<not> recording_entry e then dirs' = rm_rf (dir_path d) dirs
      else \<exists>f \<in> set es. recording_entry f \<and> (\<forall>g \<in> set es. recording_entry g \<longrightarrow> start_of f \<le> start_of g) \<and>
             dirs' = remove_file (dir_path d) (d_name f) dirs))"

lemma del_oldest_step:
  assumes ok: "card_ok dirs"
  shows "case grd_sd_del_oldest_avi_file True True dirs of (ret, dirs') \<Rightarrow>
    if \<exists>e \<in> set (the (dirs GRD_SD_MOUNT_POINT)). dated e then ret = 0 \<and> freed dirs dirs'
    else ret = 2 \<and> dirs' = dirs"
proof -
  obtain ents where ents: "dirs GRD_SD_MOUNT_POINT = Some ents"
    and dates: "\<forall>e \<in> set ents. dated e \<longrightarrow> date_name (d_name e)"
    and sub: "\<forall>e \<in> set ents. dated e \<longrightarrow> dirs (dir_path e) \<noteq> None"
    using ok by (auto simp: card_ok_def)
  show ?thesis
  proof (cases "\<exists>e \<in> set ents. dated e")
    case False
    then show ?thesis
      using find_oldest_dir_none [of dirs ents "[]"] ents by (auto simp: grd_sd_del_oldest_avi_file_def)
  next
    case True
    then obtain d where d: "d \<in> set ents" "dated d" "find_oldest_dir dirs [] = (0, dir_path d)"
      "\<forall>g \<in> set ents. dated g \<longrightarrow> atoi (d_name d) \<le> atoi (d_name g)"
      using find_oldest_dir_dates [of dirs ents _ "[]"] ents dates by blast
    obtain es where es: "dirs (dir_path d) = Some es" using sub d by auto
    have g: "grd_sd_del_oldest_avi_file True True dirs = (0, snd (del_oldest_file True True (dir_path d) dirs))"
      by (simp add: grd_sd_del_oldest_avi_file_def d(3))
    have "freed dirs (snd (del_oldest_file True True (dir_path d) dirs))"
    proof (cases "\<forall>e \<in> set es. \<not> recording_entry e")
      case none: True
      then have "snd (del_oldest_file True True (dir_path d) dirs) = rm_rf (dir_path d) dirs"
        by (simp add: del_oldest_file_def es oldest_file_none)
      then show ?thesis unfolding freed_def using ents d es none
        by (intro exI [of _ ents] exI [of _ d] exI [of _ es]) auto
    next
      case False
      then obtain e where e: "e \<in> set es" "recording_entry e" by blast
      from oldest_file_found [OF e] obtain f where
        f: "f \<in> set es" "recording_entry f" "oldest_file_loop (NO_TIME, []) es = (start_of f, d_name f)"
          "\<forall>g \<in> set es. recording_entry g \<longrightarrow> start_of f \<le> start_of g" by blast
      have "snd (del_oldest_file True True (dir_path d) dirs) = remove_file (dir_path d) (d_name f) dirs"
        using start_of_lt [of f] by (simp add: del_oldest_file_def es f(3))
      then show ?thesis unfolding freed_def using ents d es f False
        by (intro exI [of _ ents] exI [of _ d] exI [of _ es]) auto
    qed
    then show ?thesis using True g ents by simp
  qed
qed

section \<open>Cleaning ends\<close>

lemma sum_list_strict:
  "\<forall>x \<in> set xs. f x \<le> (g x :: nat) \<Longrightarrow> y \<in> set xs \<Longrightarrow> f y < g y \<Longrightarrow>
   sum_list (map f xs) < sum_list (map g xs)"
proof (induction xs)
  case (Cons x xs)
  have le: "sum_list (map f xs) \<le> sum_list (map g xs)"
    using Cons.prems(1) by (intro sum_list_mono) auto
  show ?case
  proof (cases "y = x")
    case True
    then show ?thesis using le Cons.prems by (simp add: add_less_le_mono)
  next
    case False
    then show ?thesis using Cons by (simp add: add_le_less_mono)
  qed
qed simp

lemma sum_list_filter_less:
  "d \<in> set xs \<Longrightarrow> \<not> P d \<Longrightarrow> 0 < f d \<Longrightarrow> sum_list (map f (filter P xs)) < (sum_list (map f xs) :: nat)"
proof (induction xs)
  case (Cons x xs)
  have le: "sum_list (map f (filter P ys)) \<le> sum_list (map f ys)" for ys
    by (induction ys) auto
  show ?case using Cons le [of xs] by (auto simp: add.commute intro: le_less_trans)
qed simp

lemma freed_root:
  "freed dirs dirs' \<Longrightarrow> \<exists>ents d. dirs GRD_SD_MOUNT_POINT = Some ents \<and> d \<in> set ents \<and> dated d"
  by (auto simp: freed_def)

lemma card_ok_freed:
  assumes ok: "card_ok dirs" and fr: "freed dirs dirs'"
  shows "card_ok dirs' \<and> weight dirs' < weight dirs"
proof -
  obtain ents d es where ents: "dirs GRD_SD_MOUNT_POINT = Some ents" and d: "d \<in> set ents" "dated d"
    and es: "dirs (dir_path d) = Some es"
    and step: "if \<forall>e \<in> set es. \<not> recording_entry e then dirs' = rm_rf (dir_path d) dirs
      else \<exists>f \<in> set es. recording_entry f \<and> (\<forall>g \<in> set es. recording_entry g \<longrightarrow> start_of f \<le> start_of g) \<and>
             dirs' = remove_file (dir_path d) (d_name f) dirs"
    using fr unfolding freed_def by blast
  have dist: "distinct (map d_name ents)"
    and sub: "\<forall>e \<in> set ents. dated e \<longrightarrow> date_name (d_name e) \<and> dirs (dir_path e) \<noteq> None"
    using ok ents by (auto simp: card_ok_def)
  define W where "W = (\<lambda>(D :: dirs) e. 1 + (case D (dir_path e) of None \<Rightarrow> 0 | Some es \<Rightarrow> recordings es))"
  have wt: "weight D = sum_list (map (W D) (filter dated es'))" if "D GRD_SD_MOUNT_POINT = Some es'" for D es'
    using that by (simp add: weight_def W_def)
  show ?thesis
  proof (cases "\<forall>e \<in> set es. \<not> recording_entry e")
    case True
    let ?P = "\<lambda>e. dir_path e \<noteq> dir_path d"
    have dirs': "dirs' = rm_rf (dir_path d) dirs" using step True by simp
    then have root: "dirs' GRD_SD_MOUNT_POINT = Some (filter ?P ents)"
      by (simp add: rm_rf_def ents dir_path_def)
    have same: "dirs' (dir_path e) = dirs (dir_path e)" if "?P e" for e
      using that dirs' by (simp add: rm_rf_def)
    have "card_ok dirs'"
      using root same sub dist by (auto simp: card_ok_def distinct_map_filter)
    moreover have "weight dirs' < weight dirs"
    proof -
      have "sum_list (map (W dirs') (filter dated (filter ?P ents))) =
          sum_list (map (W dirs) (filter ?P (filter dated ents)))"
        by (rule arg_cong [of _ _ sum_list]) (auto simp: W_def same filter_filter conj_commute intro!: map_cong)
      also have "\<dots> < sum_list (map (W dirs) (filter dated ents))"
        using d by (intro sum_list_filter_less [of d]) (auto simp: W_def)
      finally show ?thesis using wt [of dirs' "filter ?P ents"] wt [of dirs ents] root ents by simp
    qed
    ultimately show ?thesis by simp
  next
    case False
    from step [unfolded if_not_P [OF False]]
    obtain f where f: "f \<in> set es" "recording_entry f" and dirs': "dirs' = remove_file (dir_path d) (d_name f) dirs"
      by blast
    have root: "dirs' GRD_SD_MOUNT_POINT = Some ents" by (simp add: dirs' remove_file_def ents)
    have at_d: "dirs' (dir_path d) = Some (filter (\<lambda>e. d_name e \<noteq> d_name f) es)"
      by (simp add: dirs' remove_file_def es)
    have same: "dir_path e \<noteq> dir_path d \<Longrightarrow> dirs' (dir_path e) = dirs (dir_path e)" for e
      by (simp add: dirs' remove_file_def)
    have "dirs' (dir_path e) \<noteq> None" if "e \<in> set ents" "dated e" for e
      using that sub at_d same [of e] by (cases "dir_path e = dir_path d") auto
    then have "card_ok dirs'" using root dist sub by (auto simp: card_ok_def)
    moreover have "weight dirs' < weight dirs"
    proof -
      have less: "recordings (filter (\<lambda>e. d_name e \<noteq> d_name f) es) < recordings es"
      proof -
        have "filter recording_entry (filter (\<lambda>e. d_name e \<noteq> d_name f) es) =
            filter (\<lambda>e. d_name e \<noteq> d_name f) (filter recording_entry es)"
          by (simp add: filter_filter conj_commute)
        moreover have "length (filter (\<lambda>e. d_name e \<noteq> d_name f) (filter recording_entry es)) <
            length (filter recording_entry es)"
          by (rule length_filter_less [of f]) (use f in auto)
        ultimately show ?thesis by (simp add: recordings_def)
      qed
      have "W dirs' e \<le> W dirs e" for e
        using less es at_d same [of e] by (cases "dir_path e = dir_path d") (auto simp: W_def)
      moreover have "W dirs' d < W dirs d" using less es at_d by (simp add: W_def)
      ultimately show ?thesis
        using wt [of dirs' ents] wt [of dirs ents] root ents d
          sum_list_strict [of "filter dated ents" "W dirs'" "W dirs" d] by simp
    qed
    ultimately show ?thesis by simp
  qed
qed

text \<open>Freeing space again and again until nothing is left; the first argument is fuel.\<close>

definition no_dates :: "dirs \<Rightarrow> bool" where
  "no_dates dirs \<longleftrightarrow> (\<forall>e \<in> set (the (dirs GRD_SD_MOUNT_POINT)). \<not> dated e)"

definition clean :: "nat \<Rightarrow> dirs \<Rightarrow> dirs option" where
  "clean n dirs = exhaust (grd_sd_del_oldest_avi_file True True) n dirs"

interpretation card: reclaimer card_ok no_dates weight "grd_sd_del_oldest_avi_file True True"
proof
  fix dirs dirs' :: dirs and ret :: int
  assume c: "card_ok dirs"
  note step = del_oldest_step [OF c]
  show "ret \<noteq> 2 \<and> card_ok dirs' \<and> weight dirs' < weight dirs"
    if "\<not> no_dates dirs" and "grd_sd_del_oldest_avi_file True True dirs = (ret, dirs')"
    using step that card_ok_freed [OF c, of dirs'] by (auto simp: no_dates_def)
  show "grd_sd_del_oldest_avi_file True True dirs = (2, dirs)" if "no_dates dirs"
    using step that by (auto simp: no_dates_def split: prod.splits)
qed

section \<open>Properties\<close>

text \<open>C24: On a card whose directories are named by dates, and when the calls of \<^verbatim>\<open>remove\<close> and of the shell succeed, freeing
  space removes the recording with the smallest start time of the oldest date; when the directory of the oldest date holds no
  recording, it is removed with whatever else is in it. Nothing else goes, and 2 is reported exactly when no date
  directory is left.\<close>

theorem del_oldest_correct:
  assumes "card_ok dirs"
  shows "case grd_sd_del_oldest_avi_file True True dirs of (ret, dirs') \<Rightarrow>
    if \<exists>e \<in> set (the (dirs GRD_SD_MOUNT_POINT)). dated e then ret = 0 \<and> freed dirs dirs'
    else ret = 2 \<and> dirs' = dirs"
  by (rule del_oldest_step [OF assms])

definition sample_card :: dirs where
  "sample_card = [GRD_SD_MOUNT_POINT \<mapsto> [\<lparr>d_type = 4, d_name = ''20150127''\<rparr>],
     GRD_SD_MOUNT_POINT @ ''/20150127'' \<mapsto> [\<lparr>d_type = 8, d_name = ''1422355512-60.avi''\<rparr>]]"

lemma show_20150127: "show_nat 20150127 = ''20150127''"
  by (simp add: show_nat.simps digit_char_def) code_simp

lemma sample_card_ok: "card_ok sample_card"
proof -
  have "date_name ''20150127''" unfolding date_name_def by (rule exI [of _ 20150127]) (simp add: show_20150127)
  then show ?thesis by (simp add: card_ok_def sample_card_def dir_path_def)
qed

lemma del_oldest_correct_witness:
  "case grd_sd_del_oldest_avi_file True True sample_card of (ret, dirs') \<Rightarrow> ret = 0 \<and> freed sample_card dirs'"
proof -
  have "\<exists>e \<in> set (the (sample_card GRD_SD_MOUNT_POINT)). dated e"
    by (simp add: sample_card_def dated_def DT_DIR_def)
  then show ?thesis using del_oldest_correct [OF sample_card_ok] by (auto split: prod.splits)
qed

text \<open>C27: On a card whose directories are named by dates, and as long as the calls of \<^verbatim>\<open>remove\<close> and of the shell succeed,
  freeing space repeatedly ends: after at most as many calls as there are date directories and recordings, no date
  directory is left.\<close>

theorem clean_terminates:
  assumes "card_ok dirs"
  shows "\<exists>dirs'. clean (Suc (weight dirs)) dirs = Some dirs' \<and> card_ok dirs' \<and> no_dates dirs'"
  unfolding clean_def by (rule card.exhaust_ends) (use assms in simp_all)

lemma clean_terminates_witness:
  "\<exists>dirs'. clean (Suc (weight sample_card)) sample_card = Some dirs' \<and> card_ok dirs' \<and> no_dates dirs'"
  by (rule clean_terminates [OF sample_card_ok])

text \<open>one directory whose name is not a number, as FAT cards have them, stops the recycling: the
  search takes it for the date 0, whose directory does not exist, and no call frees anything.\<close>

theorem foreign_dir_blocks_cleaning:
  assumes "dirs GRD_SD_MOUNT_POINT = Some ents" "e \<in> set ents" "dated e" "atoi (d_name e) = 0"
    and "\<forall>g \<in> set ents. dated g \<longrightarrow> 0 \<le> atoi (d_name g)"
    and "dirs (GRD_SD_MOUNT_POINT @ ''/0'') = None"
  shows "grd_sd_del_oldest_avi_file remove_ok shell_ok dirs = (0, dirs)"
proof -
  have "min_dir_loop NO_DATE ents = 0"
    using min_dir_loop_lower [OF assms(2,3), of NO_DATE] min_dir_loop_in [of NO_DATE ents] assms(4,5)
    by (auto simp: NO_DATE_def)
  moreover have "show_int 0 = ''0''"
    by (simp add: show_int_def show_nat.simps [of 0] digit_char_def char_of_48)
  ultimately show ?thesis
    using assms(1,6) by (simp add: grd_sd_del_oldest_avi_file_def find_oldest_dir_def del_oldest_file_def NO_DATE_def)
qed

lemma foreign_dir_blocks_cleaning_witness:
  "grd_sd_del_oldest_avi_file True True
     [GRD_SD_MOUNT_POINT \<mapsto> [\<lparr>d_type = 4, d_name = ''LOST.DIR''\<rparr>, \<lparr>d_type = 4, d_name = ''20150127''\<rparr>]] =
   (0, [GRD_SD_MOUNT_POINT \<mapsto> [\<lparr>d_type = 4, d_name = ''LOST.DIR''\<rparr>, \<lparr>d_type = 4, d_name = ''20150127''\<rparr>]])"
  by (rule foreign_dir_blocks_cleaning [where e = "\<lparr>d_type = 4, d_name = ''LOST.DIR''\<rparr>" and
        ents = "[\<lparr>d_type = 4, d_name = ''LOST.DIR''\<rparr>, \<lparr>d_type = 4, d_name = ''20150127''\<rparr>]"])
    (auto simp: dated_def DT_DIR_def atoi_def is_space_char_def is_digit_char_def digit_val_def GRD_SD_MOUNT_POINT_def)

end
