(* ===== verification/RecCtl.thy ===== *)
theory RecCtl
  imports AviRecCorrect Mmc
begin

text \<open>
  The recording control of \<^verbatim>\<open>storage/src/record.c\<close> and \<^verbatim>\<open>storage.c\<close>: starting and stopping the two kinds of
  recording, and the thread that takes frames from the shared memory rings and writes them, with
  the cut into files of a fixed duration. One round of the thread's loop is a function of what the
  two rings deliver in it.
\<close>

section \<open>Control state\<close>

record record_work =
  g_normal_status :: int
  g_event_status :: int
  g_event_duration :: int
  g_normal_duration :: int
  record_time_zone :: byte
  record_time_zone_pre :: byte

record record_manage =
  rm_record_type :: int
  record_switch_time :: int
  record_ctl_flag :: int

definition RECORD_STATE_START :: int where "RECORD_STATE_START = 0"

text \<open>What a call asks of the thread library: the threads it creates.\<close>

datatype thread_req = NormalThread | EventThread

record rec_ctl =
  work :: record_work
  manage :: record_manage
  threads :: "thread_req list"
  zone_calls :: nat

definition start_normal_record_stream :: "bool \<Rightarrow> int \<Rightarrow> int \<Rightarrow> rec_ctl \<Rightarrow> int \<times> rec_ctl" where
  "start_normal_record_stream create_ok rtype dur c =
     (if g_normal_status (work c) = 1 then (0, c)
      else let c = c\<lparr>manage := (manage c)\<lparr>rm_record_type := rtype, record_ctl_flag := RECORD_STATE_START,
                                         record_switch_time := (if 15 > dur then 15 else dur)\<rparr>\<rparr>
           in if \<not> create_ok then (-1, c) else (0, c\<lparr>threads := threads c @ [NormalThread]\<rparr>))"

definition stop_normal_record_stream :: "rec_ctl \<Rightarrow> int \<times> rec_ctl" where
  "stop_normal_record_stream c = (0, c\<lparr>work := (work c)\<lparr>g_normal_status := 0\<rparr>\<rparr>)"

definition start_event_record_stream :: "bool \<Rightarrow> int \<Rightarrow> int \<Rightarrow> rec_ctl \<Rightarrow> int \<times> rec_ctl" where
  "start_event_record_stream create_ok rtype dur c =
     (if g_event_status (work c) = 1 then (-1, c)
      else let local_duration = (if dur > 10 then dur else 10);
               c = c\<lparr>work := (work c)\<lparr>g_event_status := 1, g_event_duration := local_duration\<rparr>\<rparr>
           in if \<not> create_ok then (-1, c) else (0, c\<lparr>threads := threads c @ [EventThread]\<rparr>))"

definition stop_event_record_stream :: "rec_ctl \<Rightarrow> int \<times> rec_ctl" where
  "stop_event_record_stream c = (0, c\<lparr>work := (work c)\<lparr>g_event_status := 0\<rparr>\<rparr>)"

definition st_get_event_status :: "rec_ctl \<Rightarrow> int" where
  "st_get_event_status c = (if g_event_status (work c) = 1 then 1 else 0)"

definition st_record_start :: "bool \<Rightarrow> bool \<Rightarrow> int \<Rightarrow> int \<Rightarrow> rec_ctl \<Rightarrow> int \<times> rec_ctl" where
  "st_record_start has_sd create_ok rtype dur c =
     (if get_sd_stats has_sd = -1 then (-1, c)
      else if rtype = 1 \<or> rtype = 2 then (0, snd (start_normal_record_stream create_ok rtype dur c))
      else if rtype = 3 \<or> rtype = 4 \<or> rtype = 8 then (0, snd (start_event_record_stream create_ok rtype dur c))
      else (0, c))"

definition st_record_stop :: "int \<Rightarrow> rec_ctl \<Rightarrow> int \<times> rec_ctl" where
  "st_record_stop rtype c =
     (if rtype = 0 then (0, snd (stop_event_record_stream (snd (stop_normal_record_stream c))))
      else if rtype = 1 \<or> rtype = 2 then (0, snd (stop_normal_record_stream c))
      else if rtype = 3 \<or> rtype = 4 \<or> rtype = 5 \<or> rtype = 6 \<or> rtype = 7 \<or> rtype = 8
      then (0, snd (stop_event_record_stream c))
      else (0, c))"

text \<open>\<open>zone_calls\<close> is the function's static counter.\<close>

definition st_refresh_time_zone :: "bool \<Rightarrow> int \<Rightarrow> rec_ctl \<Rightarrow> int \<times> rec_ctl" where
  "st_refresh_time_zone create_ok time_zone c =
     (let old_zone = record_time_zone (work c) in
      if time_zone < 0 \<or> time_zone > 24 then (-1, c)
      else let c = c\<lparr>work := (work c)\<lparr>record_time_zone := word_of_int time_zone\<rparr>\<rparr>;
               c = (if zone_calls c \<noteq> 0 \<and> old_zone \<noteq> record_time_zone (work c) then
                      let c = (if g_event_status (work c) = 1
                               then snd (start_event_record_stream create_ok 3 (g_event_duration (work c))
                                           (snd (stop_event_record_stream c))) else c)
                      in if g_normal_status (work c) = 1
                         then snd (start_normal_record_stream create_ok 1 (g_normal_duration (work c))
                                     (snd (stop_normal_record_stream c))) else c
                    else c)
           in (0, c\<lparr>zone_calls := zone_calls c + 1\<rparr>))"

section \<open>The normal recording thread\<close>

text \<open>
  Local variables of \<^verbatim>\<open>normal_record_thread\<close>. \<open>aextra_ts\<close> is the time stamp in the audio extra data, which
  is not initialised before the first audio frame.
\<close>

record normal_thread =
  start_flag :: bool
  start_rec_ms :: cuint
  avi_handle :: avi_file
  video_ms :: u64
  audio_ms :: u64
  aextra_ts :: u64
  nt_env :: rec_env
  nt_io :: io
  nt_work :: record_work
  running :: bool

record video_frame =
  vf_data :: "byte list"
  vf_key :: bool
  vf_ts :: u64

definition timeval_diff_ms :: "cuint \<Rightarrow> u64 \<Rightarrow> cuint" where
  "timeval_diff_ms start end = ucast end - start"

definition write_normal :: "byte list \<Rightarrow> int \<Rightarrow> normal_thread \<Rightarrow> normal_thread option" where
  "write_normal data intra t =
     (case avi_record_write_extend (avi_handle t) data intra (aextra_ts t) (nt_env t) (nt_io t) of
        None \<Rightarrow> None
      | Some (_, af, env, w) \<Rightarrow> Some (t\<lparr>avi_handle := af, nt_env := env, nt_io := w\<rparr>))"

definition stop_normal_file :: "u64 \<Rightarrow> normal_thread \<Rightarrow> normal_thread option" where
  "stop_normal_file ts t =
     (let af = (record_set_end_time (nt_io t) (sint (ucast ts :: cuint)) (avi_handle t))\<lparr>duration := timeval_diff_ms (start_rec_ms t) ts\<rparr> in
      case record_normal_stop af (nt_env t) (nt_io t) of
        None \<Rightarrow> None
      | Some (_, af, w) \<Rightarrow> Some (t\<lparr>avi_handle := af, nt_io := w, start_flag := False\<rparr>))"

definition begin_normal_file ::
  "(string \<Rightarrow> bool) \<Rightarrow> tm \<Rightarrow> record_manage \<Rightarrow> u64 \<Rightarrow> normal_thread \<Rightarrow> normal_thread" where
  "begin_normal_file ex ptm mg ts t =
     (let af = record_set_start_time (nt_io t) (sint (ucast ts :: cuint)) (zero_file 1 0);
          (ret, af, env, w) = record_normal_start ex ptm af (rm_record_type mg) (record_switch_time mg) 20 (nt_env t) (nt_io t)
      in t\<lparr>avi_handle := af, nt_env := env, nt_io := w, start_rec_ms := ucast ts,
           nt_work := (nt_work t)\<lparr>g_normal_duration := record_switch_time mg\<rparr>,
           start_flag := \<not> ret < 0, running := \<not> ret < 0\<rparr>)"

text \<open>The cut: a key frame when the file has lasted its duration, compared as 64 bit numbers.\<close>

definition time_to_cut :: "video_frame \<Rightarrow> normal_thread \<Rightarrow> bool" where
  "time_to_cut v t \<longleftrightarrow> vf_key v \<and>
     vf_ts v - ucast (start_rec_ms t) \<ge> word_of_int (ip_duration (init_param (avi_handle t)) * 1000)"

definition audio_step :: "byte list \<times> u64 \<Rightarrow> normal_thread \<Rightarrow> normal_thread option" where
  "audio_step frame t = write_normal (fst frame) 2 (t\<lparr>audio_ms := snd frame, aextra_ts := snd frame\<rparr>)"

text \<open>The inner loop: audio frames while the audio is behind the video and the ring has one.\<close>

definition audio_loop :: "(byte list \<times> u64) list \<Rightarrow> normal_thread \<Rightarrow> normal_thread option" where
  "audio_loop = run_steps (\<lambda>t. audio_ms t < video_ms t) audio_step"

text \<open>The video part of a round: the new state, and whether the round goes on to the audio part.\<close>

definition video_part ::
  "(string \<Rightarrow> bool) \<Rightarrow> tm \<Rightarrow> record_manage \<Rightarrow> video_frame option \<Rightarrow> normal_thread \<Rightarrow> (bool \<times> normal_thread) option" where
  "video_part ex ptm mg video t =
     (case video of
        None \<Rightarrow> Some (True, t)
      | Some v \<Rightarrow>
          let t = t\<lparr>video_ms := vf_ts v\<rparr>;
              t = (if \<not> start_flag t \<and> vf_key v then begin_normal_file ex ptm mg (vf_ts v) t else t) in
          if \<not> running t then Some (False, t)
          else if \<not> start_flag t then Some (True, t)
          else if time_to_cut v t then map_option (Pair False) (stop_normal_file (vf_ts v) t)
          else map_option (Pair True) (write_normal (vf_data v) (if vf_key v then 1 else 0) t))"

definition normal_round ::
  "(string \<Rightarrow> bool) \<Rightarrow> tm \<Rightarrow> record_manage \<Rightarrow> video_frame option \<times> (byte list \<times> u64) list \<Rightarrow> normal_thread \<Rightarrow>
   normal_thread option" where
  "normal_round ex ptm mg inp t =
     (case video_part ex ptm mg (fst inp) t of
        None \<Rightarrow> None
      | Some (go, t) \<Rightarrow> if go \<and> start_flag t then audio_loop (snd inp) t else Some t)"

definition normal_rounds ::
  "(string \<Rightarrow> bool) \<Rightarrow> tm \<Rightarrow> record_manage \<Rightarrow> (video_frame option \<times> (byte list \<times> u64) list) list \<Rightarrow> normal_thread \<Rightarrow>
   normal_thread option" where
  "normal_rounds ex ptm mg = run_steps running (normal_round ex ptm mg)"

text \<open>The thread: rounds until the status is cleared (the end of the input), then the last file is closed.\<close>

definition normal_record_thread ::
  "(string \<Rightarrow> bool) \<Rightarrow> tm \<Rightarrow> record_manage \<Rightarrow> u64 \<Rightarrow> rec_env \<Rightarrow> io \<Rightarrow> record_work \<Rightarrow>
   (video_frame option \<times> (byte list \<times> u64) list) list \<Rightarrow> normal_thread option" where
  "normal_record_thread ex ptm mg junk env w rw inps =
     (let t = \<lparr>start_flag = False, start_rec_ms = 0, avi_handle = zero_file 0 0, video_ms = 0, audio_ms = 0,
               aextra_ts = junk, nt_env = env, nt_io = w, nt_work = rw\<lparr>g_normal_status := 1\<rparr>, running = True\<rparr> in
      case normal_rounds ex ptm mg inps t of
        None \<Rightarrow> None
      | Some t \<Rightarrow>
          (case (if start_flag t then stop_normal_file (aextra_ts t) t else Some t) of
             None \<Rightarrow> None
           | Some t \<Rightarrow> Some (t\<lparr>nt_work := (nt_work t)\<lparr>g_normal_status := 0\<rparr>, running := False\<rparr>)))"

section \<open>The thread never runs into undefined behaviour\<close>

text \<open>A file that is open for frames: nothing written yet, or a recording with a video frame in it.\<close>

definition live :: "avi_file \<Rightarrow> rec_env \<Rightarrow> bool" where
  "live af env \<longleftrightarrow> (\<exists>h. opened (encode_header h) af env \<or>
     (\<exists>s. recording (encode_header h) s af env \<and> 0 < video_total (rs_all s)))"

definition MAX_FRAME :: nat where "MAX_FRAME = 256 * 1024"

lemma small_frame_ok: "kind_ok i \<Longrightarrow> length data \<le> MAX_FRAME \<Longrightarrow> frame_ok (mkframe data i a b)"
  by (simp add: frame_ok_def length_chunk padded_length_def MAX_FRAME_def REC_BUF_SIZE_def)

lemma live_write:
  assumes l: "live af env" and w: "no_faults w" and k: "kind_ok i" and d: "length data \<le> MAX_FRAME"
  shows "\<exists>r af' env' w'. avi_record_write_extend af data i ts env w = Some (r, af', env', w') \<and>
    no_faults w' \<and> live af' env'"
proof -
  let ?f = "mkframe data i (ucast ts) (ucast ts)"
  have ok: "frame_ok ?f" using k d by (rule small_frame_ok)
  have ext: "avi_record_write_extend af data i ts env w =
      map_option write_result (write_frame af (fr_data ?f) (fr_intra ?f) (fr_t1 ?f) (fr_t2 ?f) env w)"
    by (simp add: avi_record_write_extend_def avi_write_frame_data_extend_def)
  consider (new) h where "opened (encode_header h) af env" "\<not> (i = 1 \<or> i = 3)"
    | (first) h where "opened (encode_header h) af env" "i = 1 \<or> i = 3"
    | (more) h s where "recording (encode_header h) s af env" "0 < video_total (rs_all s)"
    using l by (auto simp: live_def)
  then show ?thesis
  proof cases
    case new
    then show ?thesis
      using ext write_frame_not_key [OF new] w l by (simp add: write_result_def)
  next
    case first
    have k1: "fr_intra ?f = 1 \<or> fr_intra ?f = 3" using first by simp
    obtain af' env' w' where r: "write_frame af (fr_data ?f) (fr_intra ?f) (fr_t1 ?f) (fr_t2 ?f) env w = Some (0, af', env', w')"
      "no_faults w'" "recording (encode_header h) (spec_write ?f \<lparr>rs_disk = [], rs_buf = []\<rparr>) af' env'"
      using write_frame_opened [OF first(1) k1 ok w] by blast
    have "0 < video_total (rs_all (spec_write ?f \<lparr>rs_disk = [], rs_buf = []\<rparr>))"
      using k1 unfolding spec_first [OF ok] by (auto simp: video_total_def is_video_def)
    then have "live af' env'" using r(3) by (auto simp: live_def)
    then show ?thesis using ext r by (simp add: write_result_def)
  next
    case more
    obtain af' env' w' where r: "write_frame af (fr_data ?f) (fr_intra ?f) (fr_t1 ?f) (fr_t2 ?f) env w = Some (0, af', env', w')"
      "no_faults w'" "recording (encode_header h) (spec_write ?f s) af' env'"
      using write_frame_recording [OF more(1) ok w] by blast
    have "0 < video_total (rs_all (spec_write ?f s))"
      using rs_all_spec_write [of ?f s] more(2) by auto
    then have "live af' env'" using r(3) by (auto simp: live_def)
    then show ?thesis using ext r by (simp add: write_result_def)
  qed
qed

lemma opened_times [simp]:
  "opened hdr (af\<lparr>file_stop := a, duration := b\<rparr>) env = opened hdr af env"
  by (simp add: opened_def rec_static_def rec_buffer_def one_flag_def cur_def)

lemma recording_times [simp]:
  "recording hdr s (af\<lparr>file_stop := a, duration := b\<rparr>) env = recording hdr s af env"
  by (simp add: recording_def rec_static_def rec_buffer_def rec_files_def rec_counts_def one_flag_def cur_def)

lemma opened_close:
  assumes "opened hdr af env"
  shows "record_normal_stop af env w =
    Some (0, af\<lparr>pre_index_pos := 0, af_fopen := False, normal_buf_flag := 0\<rparr>, w)"
  using assms by (simp add: record_normal_stop_def avi_record_nornal_close_def opened_def rec_static_def Let_def)

lemma live_close:
  assumes l: "live af env" and w: "no_faults w"
  shows "\<exists>af' w'. record_normal_stop (af\<lparr>file_stop := a, duration := b\<rparr>) env w = Some (0, af', w') \<and> no_faults w'"
proof -
  let ?af = "af\<lparr>file_stop := a, duration := b\<rparr>"
  from l consider (o) h where "opened (encode_header h) ?af env"
    | (r) h s where "recording (encode_header h) s ?af env" "0 < video_total (rs_all s)"
    unfolding live_def by auto
  then show ?thesis
  proof cases
    case o
    then show ?thesis using opened_close [OF o, of w] w by auto
  next
    case r
    then show ?thesis using normal_close_ok [OF r(1) w r(2)] unfolding record_normal_stop_def by blast
  qed
qed

definition thread_inv :: "normal_thread \<Rightarrow> bool" where
  "thread_inv t \<longleftrightarrow> no_faults (nt_io t) \<and> \<not> g_sd_tats (nt_env t) < 0 \<and>
     (start_flag t \<longrightarrow> live (avi_handle t) (nt_env t))"

lemma live_sd: "live af env \<Longrightarrow> \<not> g_sd_tats env < 0"
  by (auto simp: live_def opened_def recording_def rec_static_def)

lemma write_normal_ok:
  assumes "thread_inv t" "start_flag t" "kind_ok i" "length data \<le> MAX_FRAME"
  shows "\<exists>t'. write_normal data i t = Some t' \<and> thread_inv t' \<and> start_flag t' \<and> running t' = running t"
  using live_write [of "avi_handle t" "nt_env t" "nt_io t" i data "aextra_ts t"] assms live_sd
  by (auto simp: thread_inv_def write_normal_def)

lemma stop_normal_ok:
  assumes "thread_inv t" "start_flag t"
  shows "\<exists>t'. stop_normal_file ts t = Some t' \<and> thread_inv t' \<and> \<not> start_flag t' \<and> running t' = running t"
  using live_close [where af = "avi_handle t" and env = "nt_env t" and w = "nt_io t" and a = "ucast (get_UTC_Time (nt_io t))" and
      b = "timeval_diff_ms (start_rec_ms t) ts"] assms
  by (auto simp: thread_inv_def stop_normal_file_def record_set_end_time_def Let_def)

lemma begin_normal_ok:
  assumes t: "thread_inv t" and dur: "0 < record_switch_time mg"
  shows "thread_inv (begin_normal_file ex ptm mg ts t) \<and> start_flag (begin_normal_file ex ptm mg ts t) \<and>
    running (begin_normal_file ex ptm mg ts t) \<and>
    (\<exists>h. opened (encode_header h) (avi_handle (begin_normal_file ex ptm mg ts t)) (nt_env (begin_normal_file ex ptm mg ts t))) \<and>
    start_rec_ms (begin_normal_file ex ptm mg ts t) = ucast ts \<and>
    ip_duration (init_param (avi_handle (begin_normal_file ex ptm mg ts t))) = record_switch_time mg"
proof -
  let ?af = "record_start_param (record_set_start_time (nt_io t) (sint (ucast ts :: cuint)) (zero_file 1 0)) (rm_record_type mg) (record_switch_time mg) 20"
  have p: "ip_mode (init_param ?af) = RECORD_FIXED_DURATION" "ip_duration (init_param ?af) = record_switch_time mg"
    "normal_buf_flag ?af = 1" "event_buf_flag ?af \<noteq> 1" "pre_index_pos ?af = 0"
    "length (idx_array ?af) = INDEX_ARRAY_MAX_NUMBER"
    by (simp_all add: record_start_param_def record_set_start_time_def init_rec_param_def zero_file_def Let_def)
  have io: "no_faults (nt_io t)" "\<not> g_sd_tats (nt_env t) < 0" using t by (auto simp: thread_inv_def)
  obtain bits q af1 env1 w1 where o: "avi_normal_record_open ex ptm ?af (nt_env t) (nt_io t) = (0, af1, env1, w1)" "no_faults w1"
    "opened (encode_header (header_for bits q)) af1 env1" "ip_duration (init_param af1) = record_switch_time mg"
    "g_sd_tats env1 = g_sd_tats (nt_env t)"
    using normal_open_ok [OF io p(1,3-6)] p(2) by metis
  have "record_normal_start ex ptm (record_set_start_time (nt_io t) (sint (ucast ts :: cuint)) (zero_file 1 0)) (rm_record_type mg) (record_switch_time mg) 20
      (nt_env t) (nt_io t) = (0, af1, env1, w1)"
    using o(1) dur p(2) by (simp add: record_normal_start_def Let_def)
  then show ?thesis
    using o io by (auto simp: begin_normal_file_def thread_inv_def live_def Let_def)
qed

definition audio_small :: "byte list \<times> u64 \<Rightarrow> bool" where
  "audio_small frame \<longleftrightarrow> length (fst frame) \<le> MAX_FRAME"

definition frames_small :: "video_frame option \<times> (byte list \<times> u64) list \<Rightarrow> bool" where
  "frames_small inp \<longleftrightarrow> (\<forall>v. fst inp = Some v \<longrightarrow> length (vf_data v) \<le> MAX_FRAME) \<and>
     (\<forall>frame \<in> set (snd inp). audio_small frame)"

interpretation audio: safe_loop "\<lambda>t. thread_inv t \<and> start_flag t \<and> running t = b" audio_small
  "\<lambda>t. audio_ms t < video_ms t" audio_step for b
proof
  fix t frame
  assume t: "thread_inv t \<and> start_flag t \<and> running t = b" and f: "audio_small frame"
  let ?t = "t\<lparr>audio_ms := snd frame, aextra_ts := snd frame\<rparr>"
  have "thread_inv ?t" "start_flag ?t" "running ?t = b" using t by (simp_all add: thread_inv_def)
  moreover have "length (fst frame) \<le> MAX_FRAME" "kind_ok 2" using f by (simp_all add: audio_small_def kind_ok_def)
  ultimately show "\<exists>t'. audio_step frame t = Some t' \<and> thread_inv t' \<and> start_flag t' \<and> running t' = b"
    using write_normal_ok [of ?t 2 "fst frame"] by (auto simp: audio_step_def)
qed

lemma video_part_ok:
  assumes t: "thread_inv t" "running t" and dur: "0 < record_switch_time mg"
    and v: "\<forall>x. video = Some x \<longrightarrow> length (vf_data x) \<le> MAX_FRAME"
  shows "\<exists>go t'. video_part ex ptm mg video t = Some (go, t') \<and> thread_inv t' \<and> running t'"
proof (cases video)
  case None
  then show ?thesis using t by (auto simp: video_part_def)
next
  case (Some x)
  define t1 where "t1 = t\<lparr>video_ms := vf_ts x\<rparr>"
  define t2 where "t2 = (if \<not> start_flag t1 \<and> vf_key x then begin_normal_file ex ptm mg (vf_ts x) t1 else t1)"
  have t1: "thread_inv t1" "running t1" using t by (simp_all add: t1_def thread_inv_def)
  have t2: "thread_inv t2" "running t2" using t1 begin_normal_ok [OF t1(1) dur] by (simp_all add: t2_def)
  have step: "video_part ex ptm mg video t =
      (if \<not> start_flag t2 then Some (True, t2)
       else if time_to_cut x t2 then map_option (Pair False) (stop_normal_file (vf_ts x) t2)
       else map_option (Pair True) (write_normal (vf_data x) (if vf_key x then 1 else 0) t2))"
    using t2(2) unfolding video_part_def Some option.case Let_def t1_def [symmetric] t2_def [symmetric] by simp
  show ?thesis
  proof (cases "start_flag t2")
    case False
    then show ?thesis using step t2 by auto
  next
    case True
    have k: "kind_ok (if vf_key x then 1 else 0)" by (simp add: kind_ok_def is_video_def)
    have d: "length (vf_data x) \<le> MAX_FRAME" using v Some by simp
    show ?thesis
      using step True t2 stop_normal_ok [OF t2(1) True, of "vf_ts x"] write_normal_ok [OF t2(1) True k d] by auto
  qed
qed

lemma normal_round_ok:
  assumes "thread_inv t" "running t" "0 < record_switch_time mg" "frames_small inp"
  shows "\<exists>t'. normal_round ex ptm mg inp t = Some t' \<and> thread_inv t' \<and> running t'"
proof -
  obtain go t1 where 1: "video_part ex ptm mg (fst inp) t = Some (go, t1)" "thread_inv t1" "running t1"
    using video_part_ok [OF assms(1-3), of "fst inp" ex ptm] assms(4) by (auto simp: frames_small_def)
  show ?thesis
  proof (cases "go \<and> start_flag t1")
    case True
    then show ?thesis
      using 1 audio.run_safe [of t1 True "snd inp"] assms(4)
      by (auto simp: normal_round_def frames_small_def audio_loop_def)
  qed (use 1 in \<open>auto simp: normal_round_def\<close>)
qed

interpretation normal: safe_loop "\<lambda>t. thread_inv t \<and> running t \<and> 0 < record_switch_time mg" frames_small running
  "normal_round ex ptm mg" for ex ptm mg
  by unfold_locales (use normal_round_ok in blast)

section \<open>After 49 days\<close>

text \<open>The start of a file is kept in 32 bits, the time stamps of the frames in 64.\<close>

lemma cut_at_once:
  assumes "2 ^ 32 \<le> unat ts" "0 < dur" "dur * 1000 < 2 ^ 32"
  shows "(ts :: u64) - ucast (ucast ts :: cuint) \<ge> word_of_int (dur * 1000)"
proof -
  have u: "unat (ucast (ucast ts :: cuint) :: u64) = unat ts mod 2 ^ 32"
    by (simp add: unsigned_ucast_eq take_bit_take_bit) (simp add: unsigned_take_bit_eq, simp add: take_bit_eq_mod)
  have "unat ts mod 2 ^ 32 \<le> unat ts" by simp
  then have sub: "unat (ts - ucast (ucast ts :: cuint)) = unat ts - unat ts mod 2 ^ 32"
    unfolding u [symmetric] by (intro unat_sub) (simp add: word_le_nat_alt u)
  have "2 ^ 32 \<le> unat ts - unat ts mod 2 ^ 32"
    using assms(1) by (metis div_greater_zero_iff minus_mod_eq_mult_div mult.right_neutral mult_le_mono2 
        One_nat_def Suc_leI zero_less_numeral zero_less_power)
  moreover have "unat (word_of_int (dur * 1000) :: u64) < 2 ^ 32"
  proof -
    have small: "uint (word_of_int k :: u64) = k" if "0 \<le> k" "k < 2 ^ 32" for k
      using that by (simp add: uint_word_of_int_eq take_bit_int_eq_self)
    have "uint (word_of_int (dur * 1000) :: u64) = dur * 1000"
      using assms by (intro small) auto
    then have "nat (uint (word_of_int (dur * 1000) :: u64)) < 2 ^ 32" using assms by simp
    then show ?thesis by (simp only: nat_uint_eq)
  qed
  ultimately show ?thesis by (simp add: word_le_nat_alt sub)
qed

definition no_frames :: "normal_thread \<Rightarrow> bool" where
  "no_frames t \<longleftrightarrow> \<not> start_flag t \<and> length (fdata (af_file (avi_handle t))) \<le> sizeof_AviHeader"

lemma opened_stop_file:
  assumes o: "opened (encode_header h) (avi_handle t) (nt_env t)"
  shows "\<exists>t'. stop_normal_file ts t = Some t' \<and> no_frames t' \<and> running t' = running t"
proof -
  have o': "opened (encode_header h) ((avi_handle t)\<lparr>file_stop := ucast (get_UTC_Time (nt_io t)), duration := timeval_diff_ms (start_rec_ms t) ts\<rparr>) (nt_env t)"
    using o by simp
  show ?thesis
    using opened_close [OF o', of "nt_io t"] o
    by (auto simp: stop_normal_file_def record_set_end_time_def no_frames_def opened_def Let_def)
qed

lemma no_frames_round:
  assumes n: "no_frames t" and t: "thread_inv t" "running t"
    and dur: "0 < record_switch_time mg" "record_switch_time mg * 1000 < 2 ^ 32"
    and ts: "\<forall>x. fst inp = Some x \<longrightarrow> 2 ^ 32 \<le> unat (vf_ts x)"
  shows "\<exists>t'. normal_round ex ptm mg inp t = Some t' \<and> no_frames t'"
proof (cases "fst inp")
  case None
  then show ?thesis using n by (simp add: normal_round_def video_part_def no_frames_def)
next
  case (Some x)
  define t1 where "t1 = t\<lparr>video_ms := vf_ts x\<rparr>"
  have t1: "thread_inv t1" "running t1" "no_frames t1" using t n by (simp_all add: t1_def thread_inv_def no_frames_def)
  show ?thesis
  proof (cases "vf_key x")
    case False
    then have "video_part ex ptm mg (fst inp) t = Some (True, t1)"
      using Some t1 by (simp add: video_part_def Let_def no_frames_def flip: t1_def)
    then show ?thesis using t1(3) by (simp add: normal_round_def no_frames_def)
  next
    case True
    define t2 where "t2 = begin_normal_file ex ptm mg (vf_ts x) t1"
    obtain h where t2: "start_flag t2" "running t2" "opened (encode_header h) (avi_handle t2) (nt_env t2)"
      "start_rec_ms t2 = ucast (vf_ts x)" "ip_duration (init_param (avi_handle t2)) = record_switch_time mg"
      using begin_normal_ok [OF t1(1) dur(1), of ex ptm "vf_ts x"] unfolding t2_def [symmetric] by blast
    have cut: "time_to_cut x t2"
      using cut_at_once [OF _ dur, of "vf_ts x"] ts Some True t2(4,5) by (simp add: time_to_cut_def)
    obtain t3 where t3: "stop_normal_file (vf_ts x) t2 = Some t3" "no_frames t3"
      using opened_stop_file [OF t2(3)] by blast
    have "\<not> start_flag t1" using t1(3) by (simp add: no_frames_def)
    then have "video_part ex ptm mg (fst inp) t = Some (False, t3)"
      using True t2(1,2) cut t3
      unfolding video_part_def Some option.case Let_def t1_def [symmetric] by (simp flip: t2_def)
    then show ?thesis using t3 by (simp add: normal_round_def)
  qed
qed

definition late :: "video_frame option \<times> (byte list \<times> u64) list \<Rightarrow> bool" where
  "late inp \<longleftrightarrow> (\<forall>x. fst inp = Some x \<longrightarrow> 2 ^ 32 \<le> unat (vf_ts x))"

interpretation late: safe_loop
  "\<lambda>t. no_frames t \<and> thread_inv t \<and> running t \<and> 0 < record_switch_time mg \<and> record_switch_time mg * 1000 < 2 ^ 32"
  "\<lambda>inp. frames_small inp \<and> late inp" running "normal_round ex ptm mg" for ex ptm mg
proof
  fix t inp
  assume t: "no_frames t \<and> thread_inv t \<and> running t \<and> 0 < record_switch_time mg \<and> record_switch_time mg * 1000 < 2 ^ 32"
    and i: "frames_small inp \<and> late inp"
  show "\<exists>t'. normal_round ex ptm mg inp t = Some t' \<and> no_frames t' \<and> thread_inv t' \<and> running t' \<and>
      0 < record_switch_time mg \<and> record_switch_time mg * 1000 < 2 ^ 32"
    using normal_round_ok [of t mg inp ex ptm] no_frames_round [of t mg inp ex ptm] t i by (auto simp: late_def)
qed

section \<open>Properties\<close>

lemma thread_safe:
  assumes "no_faults w" "\<not> g_sd_tats env < 0" "0 < record_switch_time mg" "\<forall>inp \<in> set inps. frames_small inp"
  shows "\<exists>t. normal_record_thread ex ptm mg junk env w rw inps = Some t \<and> g_normal_status (nt_work t) = 0 \<and>
    \<not> start_flag t"
proof -
  let ?t0 = "\<lparr>start_flag = False, start_rec_ms = 0, avi_handle = zero_file 0 0, video_ms = 0, audio_ms = 0,
               aextra_ts = junk, nt_env = env, nt_io = w, nt_work = rw\<lparr>g_normal_status := 1\<rparr>, running = True\<rparr>"
  have "thread_inv ?t0" "running ?t0" using assms(1,2) by (simp_all add: thread_inv_def)
  then obtain t where t: "normal_rounds ex ptm mg inps ?t0 = Some t" "thread_inv t"
    using normal.run_safe [of ?t0 mg inps ex ptm] assms(3,4) unfolding normal_rounds_def by blast
  show ?thesis
  proof (cases "start_flag t")
    case True
    then obtain t' where "stop_normal_file (aextra_ts t) t = Some t'" "\<not> start_flag t'"
      using stop_normal_ok [OF t(2) True] by blast
    then show ?thesis using t True by (simp add: normal_record_thread_def)
  qed (use t in \<open>simp add: normal_record_thread_def\<close>)
qed

text \<open>C12: with a working card and frames of at most 256 KB the recording thread never runs into undefined
  behaviour, whatever the two rings deliver: no write leaves its array, no file is written through a
  NULL handle, no count is divided by zero; when it ends it has cleared its status.\<close>

theorem normal_thread_safe:
  assumes "no_faults w" "\<not> g_sd_tats env < 0" "0 < record_switch_time mg" "\<forall>inp \<in> set inps. frames_small inp"
  shows "\<exists>t. normal_record_thread ex ptm mg junk env w rw inps = Some t \<and> g_normal_status (nt_work t) = 0 \<and>
    \<not> start_flag t"
  by (rule thread_safe [OF assms])

lemma normal_thread_safe_witness:
  "\<exists>t. normal_record_thread (\<lambda>_. True) \<lparr>tm_year = 115, tm_mon = 0, tm_mday = 27, tm_hour = 1, tm_min = 2, tm_sec = 3\<rparr>
      \<lparr>rm_record_type = 1, record_switch_time = 15, record_ctl_flag = 0\<rparr> 0 zero_env good_io
      \<lparr>g_normal_status = 0, g_event_status = 0, g_event_duration = 0, g_normal_duration = 0,
        record_time_zone = 0, record_time_zone_pre = 0\<rparr>
      [(Some \<lparr>vf_data = [1, 2], vf_key = True, vf_ts = 5000\<rparr>, [([3], 5000)]), (None, [])] = Some t \<and>
    g_normal_status (nt_work t) = 0 \<and> \<not> start_flag t"
  by (rule normal_thread_safe) (simp_all add: zero_env_def frames_small_def audio_small_def late_def MAX_FRAME_def)

text \<open>once the time stamps, milliseconds since the start of the device, no longer fit 32 bits (after
  49.7 days), the thread writes no frame: each key frame opens a file and closes it in the same round,
  because the start time is kept in 32 bits.\<close>

theorem no_recording_after_49_days:
  assumes "no_faults w" "\<not> g_sd_tats env < 0" "0 < record_switch_time mg" "record_switch_time mg * 1000 < 2 ^ 32"
    and "\<forall>inp \<in> set inps. frames_small inp \<and> late inp"
  shows "\<exists>t. normal_record_thread ex ptm mg junk env w rw inps = Some t \<and>
    length (fdata (af_file (avi_handle t))) \<le> sizeof_AviHeader"
proof -
  let ?t0 = "\<lparr>start_flag = False, start_rec_ms = 0, avi_handle = zero_file 0 0, video_ms = 0, audio_ms = 0,
               aextra_ts = junk, nt_env = env, nt_io = w, nt_work = rw\<lparr>g_normal_status := 1\<rparr>, running = True\<rparr>"
  have "no_frames ?t0" "thread_inv ?t0" "running ?t0"
    using assms(1,2) by (simp_all add: thread_inv_def no_frames_def zero_file_def)
  then obtain t where "normal_rounds ex ptm mg inps ?t0 = Some t" "no_frames t"
    using late.run_safe [of ?t0 mg inps ex ptm] assms(3-5) unfolding normal_rounds_def by blast
  then show ?thesis by (simp add: normal_record_thread_def no_frames_def)
qed

lemma no_recording_after_49_days_witness:
  "\<exists>t. normal_record_thread (\<lambda>_. True) \<lparr>tm_year = 115, tm_mon = 0, tm_mday = 27, tm_hour = 1, tm_min = 2, tm_sec = 3\<rparr>
      \<lparr>rm_record_type = 1, record_switch_time = 15, record_ctl_flag = 0\<rparr> 0 zero_env good_io
      \<lparr>g_normal_status = 0, g_event_status = 0, g_event_duration = 0, g_normal_duration = 0,
        record_time_zone = 0, record_time_zone_pre = 0\<rparr>
      [(Some \<lparr>vf_data = [1, 2], vf_key = True, vf_ts = 4294967296\<rparr>, [([3], 4294967296)])] = Some t \<and>
    length (fdata (af_file (avi_handle t))) \<le> sizeof_AviHeader"
  by (rule no_recording_after_49_days) (simp_all add: zero_env_def frames_small_def audio_small_def late_def MAX_FRAME_def)

end
