(* ===== verification/RecSession.thy ===== *)
theory RecSession
  imports RecCtl
begin

text \<open>
  What the normal recording thread writes: the frames of a run of rounds that starts with a key frame and
  stays within one file, merged from the two rings, and the file they end in.
\<close>

section \<open>Fields a write leaves alone\<close>

lemma frame_reopen_param: "frame_reopen af intra w = (r, af', w') \<Longrightarrow> init_param af' = init_param af"
  by (auto simp: frame_reopen_def split: if_splits prod.splits)

lemma frame_put_param: "frame_put af data intra t1 t2 env = Some (af', env') \<Longrightarrow> init_param af' = init_param af"
  by (auto simp: frame_put_def frame_index_def idx_put_def Let_def split: if_splits option.splits)

lemma write_arrays_param: "write_arrays af env ret w = (r, af', w') \<Longrightarrow> init_param af' = init_param af"
  by (auto simp: write_arrays_def split: prod.splits)

lemma frame_flush_param: "frame_flush af env w = (r, af', env', w') \<Longrightarrow> init_param af' = init_param af"
  by (auto simp: frame_flush_def Let_def split: prod.splits if_splits dest: write_arrays_param)

lemma write_frame_param:
  assumes "write_frame af data intra t1 t2 env w = Some (r, af', env', w')"
  shows "init_param af' = init_param af"
proof -
  have flush: "init_param af'' = init_param a" if "flush_open a e v = Some (r'', af'', e'', v'')" for a e v r'' af'' e'' v''
    using that by (auto simp: flush_open_def split: if_splits dest: frame_flush_param)
  show ?thesis
    using assms
    by (auto simp: write_frame_def Let_def split: if_splits option.splits prod.splits
        dest!: flush frame_put_param frame_reopen_param)
qed

section \<open>The frames of a run of rounds\<close>

text \<open>The audio part of a round writes audio frames while they are behind the video. The state: the time of the last
  audio frame read, and the time stamp in the audio extra data.\<close>

fun round_audio :: "u64 \<Rightarrow> (byte list \<times> u64) list \<Rightarrow> u64 \<times> u64 \<Rightarrow> frame list \<times> u64 \<times> u64" where
  "round_audio vms [] s = ([], s)"
| "round_audio vms ((data, ts) # xs) s =
     (if fst s < vms
      then let (fs, s') = round_audio vms xs (ts, ts) in (mkframe data 2 (ucast ts) (ucast ts) # fs, s')
      else ([], s))"

definition video_to_frame :: "video_frame \<Rightarrow> u64 \<Rightarrow> frame" where
  "video_to_frame v aex = mkframe (vf_data v) (if vf_key v then 1 else 0) (ucast aex) (ucast aex)"

fun session_frames ::
  "(video_frame option \<times> (byte list \<times> u64) list) list \<Rightarrow> u64 \<Rightarrow> u64 \<times> u64 \<Rightarrow> frame list \<times> u64" where
  "session_frames [] vms s = ([], snd s)"
| "session_frames ((None, as) # inps) vms s =
     (let (fs, s') = round_audio vms as s; (gs, aex) = session_frames inps vms s' in (fs @ gs, aex))"
| "session_frames ((Some v, as) # inps) vms s =
     (let (fs, s') = round_audio (vf_ts v) as s; (gs, aex) = session_frames inps (vf_ts v) s'
      in (video_to_frame v (snd s) # fs @ gs, aex))"

text \<open>No key frame comes after the duration of the file that starts at \<open>ts0\<close>.\<close>

definition within_file :: "u64 \<Rightarrow> int \<Rightarrow> video_frame option \<times> (byte list \<times> u64) list \<Rightarrow> bool" where
  "within_file ts0 dur inp \<longleftrightarrow>
     (\<forall>v. fst inp = Some v \<and> vf_key v \<longrightarrow> vf_ts v - ucast (ucast ts0 :: cuint) < word_of_int (dur * 1000))"

definition in_session :: "byte list \<Rightarrow> rec_spec \<Rightarrow> u64 \<Rightarrow> int \<Rightarrow> u64 \<Rightarrow> u64 \<times> u64 \<Rightarrow> normal_thread \<Rightarrow> bool" where
  "in_session hdr s ts0 dur vms a t \<longleftrightarrow>
     start_flag t \<and> running t \<and> no_faults (nt_io t) \<and> recording hdr s (avi_handle t) (nt_env t) \<and>
     0 < video_total (rs_all s) \<and> start_rec_ms t = ucast ts0 \<and> ip_duration (init_param (avi_handle t)) = dur \<and>
     video_ms t = vms \<and> audio_ms t = fst a \<and> aextra_ts t = snd a"

lemma spec_run_simps [simp]:
  "spec_run [] s = s" "spec_run (f # fs) s = spec_run fs (spec_write f s)"
  "spec_run (fs @ gs) s = spec_run gs (spec_run fs s)"
  by (simp_all add: spec_run_def)

lemma write_in_session:
  assumes t: "in_session hdr s ts0 dur vms a t" and k: "kind_ok i" and d: "length data \<le> MAX_FRAME"
  shows "\<exists>t'. write_normal data i t = Some t' \<and>
    in_session hdr (spec_write (mkframe data i (ucast (snd a)) (ucast (snd a))) s) ts0 dur vms a t'"
proof -
  let ?f = "mkframe data i (ucast (snd a)) (ucast (snd a))"
  obtain af' env' w' where r: "write_frame (avi_handle t) (fr_data ?f) (fr_intra ?f) (fr_t1 ?f) (fr_t2 ?f) (nt_env t) (nt_io t) =
      Some (0, af', env', w')" "no_faults w'" "recording hdr (spec_write ?f s) af' env'"
    using write_frame_recording [OF _ small_frame_ok [OF k d]] t unfolding in_session_def by blast
  have "avi_record_write_extend (avi_handle t) data i (aextra_ts t) (nt_env t) (nt_io t) = Some (0, af', env', w')"
    using r(1) t by (simp add: avi_record_write_extend_def avi_write_frame_data_extend_def write_result_def in_session_def)
  moreover have "0 < video_total (rs_all (spec_write ?f s))"
    using rs_all_spec_write [of ?f s] t by (auto simp: in_session_def)
  moreover have "init_param af' = init_param (avi_handle t)" using write_frame_param [OF r(1)] .
  ultimately show ?thesis using t r(2,3) by (simp add: write_normal_def in_session_def)
qed

lemma audio_in_session:
  "in_session hdr s ts0 dur vms a t \<Longrightarrow> \<forall>x \<in> set xs. audio_small x \<Longrightarrow> round_audio vms xs a = (fs, a') \<Longrightarrow>
   \<exists>t'. audio_loop xs t = Some t' \<and> in_session hdr (spec_run fs s) ts0 dur vms a' t'"
proof (induction xs arbitrary: s a t fs)
  case Nil
  then show ?case by (simp add: audio_loop_def)
next
  case (Cons x xs)
  obtain data ts where x: "x = (data, ts)" by (cases x)
  show ?case
  proof (cases "fst a < vms")
    case False
    then show ?thesis using Cons.prems x by (simp add: audio_loop_def in_session_def)
  next
    case True
    obtain gs where gs: "round_audio vms xs (ts, ts) = (gs, a')" "fs = mkframe data 2 (ucast ts) (ucast ts) # gs"
      using Cons.prems(3) x True by (auto split: prod.splits)
    have "in_session hdr s ts0 dur vms (ts, ts) (t\<lparr>audio_ms := ts, aextra_ts := ts\<rparr>)"
      using Cons.prems(1) by (simp add: in_session_def)
    then obtain t1 where t1: "write_normal data 2 (t\<lparr>audio_ms := ts, aextra_ts := ts\<rparr>) = Some t1"
      "in_session hdr (spec_write (mkframe data 2 (ucast ts) (ucast ts)) s) ts0 dur vms (ts, ts) t1"
      using write_in_session [where i = 2 and data = data] Cons.prems(2) x by (fastforce simp: kind_ok_def audio_small_def)
    obtain t' where "audio_loop xs t1 = Some t'" "in_session hdr (spec_run fs s) ts0 dur vms a' t'"
      using Cons.IH [OF t1(2) _ gs(1)] Cons.prems(2) gs(2) by auto
    then show ?thesis
      using t1(1) True Cons.prems(1) x by (simp add: audio_loop_def audio_step_def in_session_def)
  qed
qed

lemma round_in_session:
  assumes t: "in_session hdr s ts0 dur vms a t" and i: "frames_small (video, xs)" "within_file ts0 dur (video, xs)"
    and fs: "session_frames [(video, xs)] vms a = (fs, aex)"
  shows "\<exists>t' a'. normal_round ex ptm mg (video, xs) t = Some t' \<and> snd a' = aex \<and>
    in_session hdr (spec_run fs s) ts0 dur (case video of None \<Rightarrow> vms | Some v \<Rightarrow> vf_ts v) a' t' \<and>
    (\<forall>inps. session_frames ((video, xs) # inps) vms a =
       (let (gs, e) = session_frames inps (case video of None \<Rightarrow> vms | Some v \<Rightarrow> vf_ts v) a' in (fs @ gs, e)))"
proof (cases video)
  case None
  obtain gs a' where r: "round_audio vms xs a = (gs, a')" by (metis surj_pair)
  then have "fs = gs" "aex = snd a'" using fs None by simp_all
  moreover obtain t' where "audio_loop xs t = Some t'" "in_session hdr (spec_run gs s) ts0 dur vms a' t'"
    using audio_in_session [OF t _ r] i(1) by (auto simp: frames_small_def)
  moreover have "start_flag t" using t by (simp add: in_session_def)
  ultimately show ?thesis using None r
    by (intro exI [of _ t'] exI [of _ a']) (auto simp: normal_round_def video_part_def split: prod.splits)
next
  case (Some v)
  let ?f = "video_to_frame v (snd a)" and ?t = "t\<lparr>video_ms := vf_ts v\<rparr>"
  obtain gs a' where r: "round_audio (vf_ts v) xs a = (gs, a')" by (metis surj_pair)
  then have fs': "fs = ?f # gs" "aex = snd a'" using fs Some by simp_all
  have t1: "in_session hdr s ts0 dur (vf_ts v) a ?t" using t by (simp add: in_session_def)
  have k: "kind_ok (if vf_key v then 1 else 0)" by (simp add: kind_ok_def is_video_def)
  have d: "length (vf_data v) \<le> MAX_FRAME" using i(1) Some by (simp add: frames_small_def)
  obtain t2 where t2: "write_normal (vf_data v) (if vf_key v then 1 else 0) ?t = Some t2"
    "in_session hdr (spec_write ?f s) ts0 dur (vf_ts v) a t2"
    using write_in_session [OF t1 k d] unfolding video_to_frame_def by blast
  have "\<not> time_to_cut v ?t"
    using i(2) Some t by (auto simp: time_to_cut_def within_file_def in_session_def not_le)
  then have "video_part ex ptm mg video t = Some (True, t2)"
    using Some t t2(1) by (simp add: video_part_def in_session_def Let_def)
  moreover obtain t3 where "audio_loop xs t2 = Some t3" "in_session hdr (spec_run gs (spec_write ?f s)) ts0 dur (vf_ts v) a' t3"
    using audio_in_session [OF t2(2) _ r] i(1) by (auto simp: frames_small_def)
  moreover have "start_flag t2" using t2(2) by (simp add: in_session_def)
  ultimately show ?thesis using Some r fs'
    by (intro exI [of _ t3] exI [of _ a']) (auto simp: normal_round_def split: prod.splits)
qed

lemma rounds_in_session:
  "in_session hdr s ts0 dur vms a t \<Longrightarrow> \<forall>inp \<in> set inps. frames_small inp \<and> within_file ts0 dur inp \<Longrightarrow>
   session_frames inps vms a = (fs, aex) \<Longrightarrow>
   \<exists>t' vms' a'. normal_rounds ex ptm mg inps t = Some t' \<and> snd a' = aex \<and> in_session hdr (spec_run fs s) ts0 dur vms' a' t'"
proof (induction inps arbitrary: s vms a t fs)
  case Nil
  then show ?case by (cases a) (auto simp: normal_rounds_def)
next
  case (Cons inp inps)
  obtain video xs where inp: "inp = (video, xs)" by (cases inp)
  obtain gs e where one: "session_frames [(video, xs)] vms a = (gs, e)" by fastforce
  let ?vms = "case video of None \<Rightarrow> vms | Some v \<Rightarrow> vf_ts v"
  obtain t1 a1 where t1: "normal_round ex ptm mg (video, xs) t = Some t1" "in_session hdr (spec_run gs s) ts0 dur ?vms a1 t1"
    "session_frames ((video, xs) # inps) vms a = (let (hs, e) = session_frames inps ?vms a1 in (gs @ hs, e))"
    using round_in_session [OF Cons.prems(1) _ _ one] Cons.prems(2) inp by fastforce
  obtain hs where hs: "session_frames inps ?vms a1 = (hs, aex)" "fs = gs @ hs"
    using t1(3) Cons.prems(3) inp by (auto split: prod.splits)
  obtain t' vms' a' where "normal_rounds ex ptm mg inps t1 = Some t'" "snd a' = aex"
    "in_session hdr (spec_run fs s) ts0 dur vms' a' t'"
    using Cons.IH [OF t1(2) _ hs(1)] Cons.prems(2) hs(2) by auto
  moreover have "running t" using Cons.prems(1) by (simp add: in_session_def)
  ultimately show ?case using t1(1) inp
    by (intro exI [of _ t'] exI [of _ vms'] exI [of _ a']) (simp add: normal_rounds_def)
qed

section \<open>One file\<close>

lemma begin_in_session:
  assumes t: "thread_inv t" "running t" "\<not> start_flag t" and dur: "0 < record_switch_time mg"
    and v: "vf_key v" "length (vf_data v) \<le> MAX_FRAME" "within_file (vf_ts v) (record_switch_time mg) (Some v, xs)"
  shows "\<exists>h t'. video_part ex ptm mg (Some v) t = Some (True, t') \<and>
    in_session (encode_header h) (spec_write (video_to_frame v (aextra_ts t)) \<lparr>rs_disk = [], rs_buf = []\<rparr>)
      (vf_ts v) (record_switch_time mg) (vf_ts v) (audio_ms t, aextra_ts t) t'"
proof -
  define t1 where "t1 = begin_normal_file ex ptm mg (vf_ts v) (t\<lparr>video_ms := vf_ts v\<rparr>)"
  let ?f = "video_to_frame v (aextra_ts t)" and ?s = "\<lparr>rs_disk = [], rs_buf = []\<rparr>"
  have ti: "thread_inv (t\<lparr>video_ms := vf_ts v\<rparr>)" using t(1) by (simp add: thread_inv_def)
  obtain h where b: "thread_inv t1" "start_flag t1" "running t1" "opened (encode_header h) (avi_handle t1) (nt_env t1)"
    "start_rec_ms t1 = ucast (vf_ts v)" "ip_duration (init_param (avi_handle t1)) = record_switch_time mg"
    using begin_normal_ok [OF ti dur, of ex ptm "vf_ts v"] unfolding t1_def [symmetric] by blast
  have same: "video_ms t1 = vf_ts v" "audio_ms t1 = audio_ms t" "aextra_ts t1 = aextra_ts t"
    by (simp_all add: t1_def begin_normal_file_def Let_def split: prod.splits)
  have ok: "frame_ok ?f" and k: "fr_intra ?f = 1 \<or> fr_intra ?f = 3"
    using v(1,2) small_frame_ok [of 1] by (simp_all add: video_to_frame_def kind_ok_def is_video_def)
  have io: "no_faults (nt_io t1)" using b(1) by (simp add: thread_inv_def)
  obtain af' env' w' where r: "write_frame (avi_handle t1) (fr_data ?f) (fr_intra ?f) (fr_t1 ?f) (fr_t2 ?f) (nt_env t1) (nt_io t1) =
      Some (0, af', env', w')" "no_faults w'" "recording (encode_header h) (spec_write ?f ?s) af' env'"
    using write_frame_opened [OF b(4) k ok io] by blast
  have ext: "avi_record_write_extend (avi_handle t1) (vf_data v) 1 (aextra_ts t1) (nt_env t1) (nt_io t1) = Some (0, af', env', w')"
    using r(1) v(1) same
    by (simp add: avi_record_write_extend_def avi_write_frame_data_extend_def write_result_def video_to_frame_def)
  have cut: "\<not> time_to_cut v t1"
    using v(1,3) b(5,6) by (simp add: time_to_cut_def within_file_def not_le)
  have "0 < video_total (rs_all (spec_write ?f ?s))"
    using k unfolding spec_first [OF ok] by (auto simp: video_total_def is_video_def)
  moreover have "init_param af' = init_param (avi_handle t1)" using write_frame_param [OF r(1)] .
  ultimately have "in_session (encode_header h) (spec_write ?f ?s) (vf_ts v) (record_switch_time mg) (vf_ts v)
      (audio_ms t, aextra_ts t) (t1\<lparr>avi_handle := af', nt_env := env', nt_io := w'\<rparr>)"
    using b r(2,3) same by (simp add: in_session_def)
  moreover have "video_part ex ptm mg (Some v) t = Some (True, t1\<lparr>avi_handle := af', nt_env := env', nt_io := w'\<rparr>)"
    using t(2,3) v(1) b(2,3) cut ext
    by (simp add: video_part_def write_normal_def Let_def flip: t1_def)
  ultimately show ?thesis by blast
qed

lemma stop_in_session:
  assumes "in_session (encode_header h) s ts0 dur vms a t"
  shows "\<exists>t'. stop_normal_file ts t = Some t' \<and>
    fdata (af_file (avi_handle t')) = recording_image h (rs_all s) (timeval_diff_ms (ucast ts0) ts) (g_a_bits (nt_env t'))"
proof -
  let ?af = "(avi_handle t)\<lparr>file_stop := ucast (get_UTC_Time (nt_io t)), duration := timeval_diff_ms (ucast ts0) ts\<rparr>"
  have "recording (encode_header h) s ?af (nt_env t)" using assms by (simp add: in_session_def)
  moreover have "no_faults (nt_io t)" "0 < video_total (rs_all s)" "start_rec_ms t = ucast ts0"
    using assms by (simp_all add: in_session_def)
  ultimately show ?thesis
    using normal_close_ok [of h s ?af "nt_env t" "nt_io t"]
    by (auto simp: stop_normal_file_def record_normal_stop_def record_set_end_time_def Let_def)
qed

lemma thread_image:
  assumes "no_faults w" "\<not> g_sd_tats env < 0" "0 < record_switch_time mg"
    and "vf_key v" "\<forall>inp \<in> set ((Some v, xs) # inps). frames_small inp \<and> within_file (vf_ts v) (record_switch_time mg) inp"
    and "session_frames ((Some v, xs) # inps) 0 (0, junk) = (fs, aex)"
  shows "\<exists>t h. normal_record_thread ex ptm mg junk env w rw ((Some v, xs) # inps) = Some t \<and>
    fdata (af_file (avi_handle t)) = recording_image h (rs_all (spec_run fs \<lparr>rs_disk = [], rs_buf = []\<rparr>))
      (timeval_diff_ms (ucast (vf_ts v)) aex) (g_a_bits (nt_env t))"
proof -
  let ?t0 = "\<lparr>start_flag = False, start_rec_ms = 0, avi_handle = zero_file 0 0, video_ms = 0, audio_ms = 0,
               aextra_ts = junk, nt_env = env, nt_io = w, nt_work = rw\<lparr>g_normal_status := 1\<rparr>, running = True\<rparr>"
  let ?s = "\<lparr>rs_disk = [], rs_buf = []\<rparr>"
  have t0: "thread_inv ?t0" "running ?t0" "\<not> start_flag ?t0" using assms(1,2) by (simp_all add: thread_inv_def)
  have v: "length (vf_data v) \<le> MAX_FRAME" "within_file (vf_ts v) (record_switch_time mg) (Some v, xs)"
    using assms(5) by (simp_all add: frames_small_def)
  obtain h t1 where t1: "video_part ex ptm mg (Some v) ?t0 = Some (True, t1)"
    "in_session (encode_header h) (spec_write (video_to_frame v junk) ?s) (vf_ts v) (record_switch_time mg) (vf_ts v) (0, junk) t1"
    using begin_in_session [OF t0 assms(3,4) v, of ex ptm] by auto
  obtain gs a' where r: "round_audio (vf_ts v) xs (0, junk) = (gs, a')" by (metis surj_pair)
  obtain t2 where t2: "audio_loop xs t1 = Some t2"
    "in_session (encode_header h) (spec_run gs (spec_write (video_to_frame v junk) ?s)) (vf_ts v) (record_switch_time mg) (vf_ts v) a' t2"
    using audio_in_session [OF t1(2) _ r] assms(5) by (auto simp: frames_small_def)
  obtain hs where hs: "session_frames inps (vf_ts v) a' = (hs, aex)" "fs = video_to_frame v junk # gs @ hs"
    using assms(6) r by (auto split: prod.splits)
  obtain t3 vms' a3 where t3: "normal_rounds ex ptm mg inps t2 = Some t3" "snd a3 = aex"
    "in_session (encode_header h) (spec_run hs (spec_run gs (spec_write (video_to_frame v junk) ?s))) (vf_ts v)
      (record_switch_time mg) vms' a3 t3"
    using rounds_in_session [OF t2(2) _ hs(1), where mg = mg and ex = ex and ptm = ptm] assms(5) by auto
  have "normal_round ex ptm mg (Some v, xs) ?t0 = Some t2"
    using t1 t2(1) by (simp add: normal_round_def in_session_def)
  then have run: "normal_rounds ex ptm mg ((Some v, xs) # inps) ?t0 = Some t3" using t3(1) by (simp add: normal_rounds_def)
  obtain t4 where t4: "stop_normal_file aex t3 = Some t4"
    "fdata (af_file (avi_handle t4)) = recording_image h (rs_all (spec_run fs ?s))
      (timeval_diff_ms (ucast (vf_ts v)) aex) (g_a_bits (nt_env t4))"
    using stop_in_session [OF t3(3), of aex] hs(2) by auto
  have "aextra_ts t3 = aex" "start_flag t3" using t3(2,3) by (simp_all add: in_session_def)
  then show ?thesis using run t4 by (auto simp: normal_record_thread_def)
qed

text \<open>C3: A run of the recording thread that starts with a key frame and stays within one file leaves exactly the image
  of the frames that its buffer takes: of the video frames in the order in which the ring gave them and, after each, those
  audio frames that were behind it, up to the time the thread is stopped, exactly those are missing that find no room in
  the 512 KB of the buffer; and none is missing when no 100 frames in a row are larger than the buffer.\<close>

theorem thread_session_image:
  assumes "no_faults w" "\<not> g_sd_tats env < 0" "0 < record_switch_time mg"
    and "vf_key v" "\<forall>inp \<in> set ((Some v, xs) # inps). frames_small inp \<and> within_file (vf_ts v) (record_switch_time mg) inp"
    and "session_frames ((Some v, xs) # inps) 0 (0, junk) = (fs, aex)"
  shows "(\<exists>t h. normal_record_thread ex ptm mg junk env w rw ((Some v, xs) # inps) = Some t \<and>
      fdata (af_file (avi_handle t)) = recording_image h (frames_taken fs) (timeval_diff_ms (ucast (vf_ts v)) aex) (g_a_bits (nt_env t))) \<and>
    (never_full (\<lambda>f. length (chunk f)) fs \<longrightarrow> frames_taken fs = fs)"
  using thread_image [OF assms, unfolded rs_all_run] frames_taken_all by blast

lemma thread_session_image_witness:
  "\<exists>t h. normal_record_thread (\<lambda>_. True) \<lparr>tm_year = 115, tm_mon = 0, tm_mday = 27, tm_hour = 1, tm_min = 2, tm_sec = 3\<rparr>
      \<lparr>rm_record_type = 1, record_switch_time = 15, record_ctl_flag = 0\<rparr> 0 zero_env good_io
      \<lparr>g_normal_status = 0, g_event_status = 0, g_event_duration = 0, g_normal_duration = 0,
        record_time_zone = 0, record_time_zone_pre = 0\<rparr>
      [(Some \<lparr>vf_data = [1, 2], vf_key = True, vf_ts = 5000\<rparr>, [([3], 5000), ([4], 5040)]), (None, []),
       (Some \<lparr>vf_data = [5], vf_key = False, vf_ts = 5040\<rparr>, [([4], 5040)])] = Some t \<and>
    fdata (af_file (avi_handle t)) = recording_image h
      [mkframe [1, 2] 1 0 0, mkframe [3] 2 5000 5000, mkframe [5] 0 5000 5000, mkframe [4] 2 5040 5040]
      (timeval_diff_ms (ucast (vf_ts \<lparr>vf_data = [1, 2], vf_key = True, vf_ts = 5000\<rparr>)) 5040) (g_a_bits (nt_env t))"
proof -
  let ?fs = "[mkframe [1, 2] 1 0 0, mkframe [3] 2 5000 5000, mkframe [5] 0 5000 5000, mkframe [4] 2 5040 5040]"
  have n: "never_full (\<lambda>f. length (chunk f)) ?fs"
    by (rule never_full_small) (simp add: length_chunk padded_length_def mkframe_def REC_BUF_SIZE_def)
  have run: "(\<exists>t h. normal_record_thread (\<lambda>_. True) \<lparr>tm_year = 115, tm_mon = 0, tm_mday = 27, tm_hour = 1, tm_min = 2, tm_sec = 3\<rparr>
      \<lparr>rm_record_type = 1, record_switch_time = 15, record_ctl_flag = 0\<rparr> 0 zero_env good_io
      \<lparr>g_normal_status = 0, g_event_status = 0, g_event_duration = 0, g_normal_duration = 0,
        record_time_zone = 0, record_time_zone_pre = 0\<rparr>
      [(Some \<lparr>vf_data = [1, 2], vf_key = True, vf_ts = 5000\<rparr>, [([3], 5000), ([4], 5040)]), (None, []),
       (Some \<lparr>vf_data = [5], vf_key = False, vf_ts = 5040\<rparr>, [([4], 5040)])] = Some t \<and>
    fdata (af_file (avi_handle t)) = recording_image h (frames_taken ?fs)
      (timeval_diff_ms (ucast (vf_ts \<lparr>vf_data = [1, 2], vf_key = True, vf_ts = 5000\<rparr>)) 5040) (g_a_bits (nt_env t))) \<and>
    (never_full (\<lambda>f. length (chunk f)) ?fs \<longrightarrow> frames_taken ?fs = ?fs)"
    by (rule thread_session_image)
      (simp_all add: zero_env_def frames_small_def audio_small_def MAX_FRAME_def within_file_def video_to_frame_def mkframe_def)
  note all = mp [OF conjunct2 [OF run] n]
  show ?thesis using conjunct1 [OF run] unfolding all .
qed

end
