(* ===== verification/SdDetect.thy ===== *)
theory SdDetect
  imports RecCtl
begin

text \<open>
  The SD card thread of \<^verbatim>\<open>storage/src/mmc_api.c\<close> (\<^verbatim>\<open>thread_sd_card_detecte\<close>), which watches for removal and
  insertion of the card, stops and restarts the recordings, and recycles space; and the formatting of
  the card, which runs in another thread. One round of the loop is a function; the other threads
  (formatting, the recording threads, the callers of the recording control) take their steps between
  rounds, as an inductive step relation over the shared globals.
\<close>

section \<open>State\<close>

text \<open>
  The globals of the module, the flag file, the card, and the local variables of the thread that live
  from round to round. \<open>has_sd_card\<close> is the presence of \<^verbatim>\<open>/var/log/has_sd_card\<close>.
\<close>

record sd_state =
  SD_CARD_FORMATING :: int
  g_format_SDcard :: int
  sd_tats :: int
  has_sd_card :: bool
  sd_files :: dirs
  ctl :: rec_ctl
  tmp_normal_record :: int
  tmp_event_record :: int
  tmp_normal_duration :: int
  tmp_event_duration :: int
  oldest_dir_name :: string

text \<open>What the system answers in a round: thread creation, removal of files, the shell, and the free bytes.\<close>

record sd_answers =
  create_ok :: bool
  remove_ok :: bool
  shell_ok :: bool
  available :: u64

section \<open>A round of the detection thread\<close>

text \<open>A format that has been asked for is acknowledged once: the card counts as gone and recordings are not resumed.\<close>

definition sd_acknowledge_format :: "sd_state \<Rightarrow> sd_state" where
  "sd_acknowledge_format s =
     (if g_format_SDcard s = 1
      then s\<lparr>g_format_SDcard := -1, sd_tats := -1, tmp_normal_record := 0, tmp_event_record := 0\<rparr> else s)"

definition sd_card_gone :: "sd_state \<Rightarrow> sd_state" where
  "sd_card_gone s =
     (let s = s\<lparr>sd_tats := -1\<rparr>;
          s = (if g_normal_status (work (ctl s)) = 1
               then s\<lparr>tmp_normal_record := 1, tmp_normal_duration := g_normal_duration (work (ctl s)),
                      ctl := snd (stop_normal_record_stream (ctl s))\<rparr> else s)
      in if g_event_status (work (ctl s)) = 1
         then s\<lparr>tmp_event_record := 1, tmp_event_duration := g_event_duration (work (ctl s)),
                ctl := snd (stop_event_record_stream (ctl s))\<rparr> else s)"

definition sd_resume :: "sd_answers \<Rightarrow> sd_state \<Rightarrow> sd_state" where
  "sd_resume a s =
     (let s = (if tmp_normal_record s = 1
               then s\<lparr>tmp_normal_record := 0, tmp_normal_duration := 0,
                      ctl := snd (st_record_start (has_sd_card s) (create_ok a) (uint SDK_RECORD_TYPE_MANU)
                                    (tmp_normal_duration s) (ctl s))\<rparr> else s)
      in if tmp_event_record s = 1
         then s\<lparr>tmp_event_record := 0, tmp_event_duration := 0,
                ctl := snd (st_record_start (has_sd_card s) (create_ok a) (uint SDK_RECORD_TYPE_MOTION)
                              (tmp_event_duration s) (ctl s))\<rparr> else s)"

text \<open>Below 30 MB the oldest recording goes. A search that finds no directory leaves the name of the last one.\<close>

definition sd_recycle :: "sd_answers \<Rightarrow> sd_state \<Rightarrow> sd_state" where
  "sd_recycle a s =
     (if drop_bit 20 (available a) < 30 then
        let s = s\<lparr>oldest_dir_name := snd (find_oldest_dir (sd_files s) (oldest_dir_name s))\<rparr>
        in s\<lparr>sd_files := snd (del_oldest_file (remove_ok a) (shell_ok a) (oldest_dir_name s) (sd_files s))\<rparr>
      else s)"

definition thread_sd_card_detecte :: "sd_answers \<Rightarrow> sd_state \<Rightarrow> sd_state" where
  "thread_sd_card_detecte a s =
     (if SD_CARD_FORMATING s = 1 then s
      else let s = sd_acknowledge_format s in
        if 0 > get_sd_stats (has_sd_card s) then sd_card_gone s
        else sd_recycle a (sd_resume a (s\<lparr>sd_tats := 1\<rparr>)))"

section \<open>Formatting\<close>

text \<open>
  \<open>fresh\<close> is the card after \<^verbatim>\<open>mkfs.vfat\<close>. The function sleeps between the parts, so that other
  threads run between \<open>format_begin\<close> and \<open>format_end\<close>.
\<close>

definition format_begin :: "string option \<Rightarrow> sd_state \<Rightarrow> int \<times> sd_state" where
  "format_begin flag s =
     (let s = s\<lparr>g_format_SDcard := 1\<rparr>;
          (ret, _) = get_mmc_devname (has_sd_card s) flag 64 [] in
      if ret < 0 then (-1, s)
      else (0, s\<lparr>SD_CARD_FORMATING := 1,
                 ctl := snd (stop_event_record_stream (snd (stop_normal_record_stream (ctl s)))),
                 has_sd_card := False\<rparr>))"

definition format_end :: "dirs \<Rightarrow> int \<Rightarrow> sd_state \<Rightarrow> int \<times> sd_state" where
  "format_end fresh mount s =
     (let s = s\<lparr>sd_files := fresh\<rparr> in
      if 0 > mount then (-1, s) else (0, s\<lparr>has_sd_card := True, SD_CARD_FORMATING := 0\<rparr>))"

definition st_sd_card_format :: "string option \<Rightarrow> dirs \<Rightarrow> int \<Rightarrow> sd_state \<Rightarrow> int \<times> sd_state" where
  "st_sd_card_format flag fresh mount s =
     (let (ret, s) = format_begin flag s in if ret < 0 then (ret, s) else format_end fresh mount s)"

section \<open>The threads together\<close>

text \<open>
  The steps of the system. The recording threads are seen here only through the globals they write:
  the normal thread sets its status when it starts, its duration when it opens a file, and both
  threads clear their status when they end. The last two rules are the card being plugged and the
  calls of the recording control from other modules.
\<close>

definition set_work :: "(record_work \<Rightarrow> record_work) \<Rightarrow> sd_state \<Rightarrow> sd_state" where
  "set_work f s = s\<lparr>ctl := (ctl s)\<lparr>work := f (work (ctl s))\<rparr>\<rparr>"

inductive sd_step :: "sd_state \<Rightarrow> sd_state \<Rightarrow> bool" where
  detect: "sd_step s (thread_sd_card_detecte a s)"
| begin_format: "sd_step s (snd (format_begin flag s))"
| end_format: "SD_CARD_FORMATING s = 1 \<Longrightarrow> sd_step s (snd (format_end fresh mount s))"
| normal_starts: "NormalThread \<in> set (threads (ctl s)) \<Longrightarrow> sd_step s (set_work (g_normal_status_update (\<lambda>_. 1)) s)"
| normal_opens: "NormalThread \<in> set (threads (ctl s)) \<Longrightarrow>
    sd_step s (set_work (g_normal_duration_update (\<lambda>_. record_switch_time (manage (ctl s)))) s)"
| normal_ends: "sd_step s (set_work (g_normal_status_update (\<lambda>_. 0)) s)"
| event_ends: "sd_step s (set_work (g_event_status_update (\<lambda>_. 0)) s)"
| plug: "sd_step s (s\<lparr>has_sd_card := b, sd_files := c\<rparr>)"
| start: "sd_step s (s\<lparr>ctl := snd (st_record_start (has_sd_card s) ok rtype dur (ctl s))\<rparr>)"
| stop: "sd_step s (s\<lparr>ctl := snd (st_record_stop rtype (ctl s))\<rparr>)"
| zone: "sd_step s (s\<lparr>ctl := snd (st_refresh_time_zone ok z (ctl s))\<rparr>)"

inductive_cases sd_stepE: "sd_step s s'"

text \<open>The state at start: the globals of the program are zero, except \<^verbatim>\<open>g_format_SDcard\<close>.\<close>

definition sd_init :: "bool \<Rightarrow> dirs \<Rightarrow> sd_state" where
  "sd_init has c =
     \<lparr>SD_CARD_FORMATING = 0, g_format_SDcard = -1, sd_tats = 0, has_sd_card = has, sd_files = c,
      ctl = \<lparr>work = \<lparr>g_normal_status = 0, g_event_status = 0, g_event_duration = 0, g_normal_duration = 0,
                     record_time_zone = 0, record_time_zone_pre = 0\<rparr>,
             manage = \<lparr>rm_record_type = 0, record_switch_time = 0, record_ctl_flag = 0\<rparr>,
             threads = [], zone_calls = 0\<rparr>,
      tmp_normal_record = 0, tmp_event_record = 0, tmp_normal_duration = 0, tmp_event_duration = 0,
      oldest_dir_name = []\<rparr>"

inductive sd_reachable :: "sd_state \<Rightarrow> bool" where
  init: "sd_reachable (sd_init has c)"
| step: "sd_reachable s \<Longrightarrow> sd_step s s' \<Longrightarrow> sd_reachable s'"

section \<open>Invariants\<close>

text \<open>Every recording that has been started has a minimal length, and the flags keep their values.\<close>

definition ctl_ok :: "rec_ctl \<Rightarrow> bool" where
  "ctl_ok c \<longleftrightarrow>
     (NormalThread \<in> set (threads c) \<longrightarrow> 15 \<le> record_switch_time (manage c)) \<and>
     (g_normal_duration (work c) = 0 \<or> 15 \<le> g_normal_duration (work c)) \<and>
     (g_event_status (work c) = 1 \<or> EventThread \<in> set (threads c) \<longrightarrow> 10 \<le> g_event_duration (work c)) \<and>
     g_normal_status (work c) \<in> {0, 1} \<and> g_event_status (work c) \<in> {0, 1}"

definition flags_ok :: "sd_state \<Rightarrow> bool" where
  "flags_ok s \<longleftrightarrow> SD_CARD_FORMATING s \<in> {0, 1} \<and> g_format_SDcard s \<in> {-1, 1} \<and> sd_tats s \<in> {-1, 0, 1} \<and>
     tmp_normal_record s \<in> {0, 1} \<and> tmp_event_record s \<in> {0, 1} \<and>
     (SD_CARD_FORMATING s = 1 \<longrightarrow> g_format_SDcard s = 1)"

lemma start_normal_ok: "ctl_ok c \<Longrightarrow> ctl_ok (snd (start_normal_record_stream ok rtype dur c))"
  by (auto simp: start_normal_record_stream_def ctl_ok_def Let_def)

lemma stop_normal_ctl_ok: "ctl_ok c \<Longrightarrow> ctl_ok (snd (stop_normal_record_stream c))"
  by (auto simp: stop_normal_record_stream_def ctl_ok_def)

lemma start_event_ok: "ctl_ok c \<Longrightarrow> ctl_ok (snd (start_event_record_stream ok rtype dur c))"
  by (auto simp: start_event_record_stream_def ctl_ok_def Let_def)

lemma stop_event_ok: "ctl_ok c \<Longrightarrow> ctl_ok (snd (stop_event_record_stream c))"
  by (auto simp: stop_event_record_stream_def ctl_ok_def)

lemmas ctl_ok_basic = start_normal_ok stop_normal_ctl_ok start_event_ok stop_event_ok

lemma st_record_start_ok: "ctl_ok c \<Longrightarrow> ctl_ok (snd (st_record_start has ok rtype dur c))"
  by (simp add: st_record_start_def ctl_ok_basic)

lemma st_record_stop_ok: "ctl_ok c \<Longrightarrow> ctl_ok (snd (st_record_stop rtype c))"
  by (simp add: st_record_stop_def ctl_ok_basic)

lemma ctl_ok_zone [simp]:
  "ctl_ok (c\<lparr>zone_calls := n\<rparr>) = ctl_ok c" "ctl_ok (c\<lparr>work := (work c)\<lparr>record_time_zone := z\<rparr>\<rparr>) = ctl_ok c"
  by (simp_all add: ctl_ok_def)

lemma st_refresh_time_zone_ok: "ctl_ok c \<Longrightarrow> ctl_ok (snd (st_refresh_time_zone ok z c))"
  by (simp add: st_refresh_time_zone_def Let_def ctl_ok_basic)

lemma ctl_ok_set_work:
  "ctl_ok c \<Longrightarrow> ctl_ok (c\<lparr>work := (work c)\<lparr>g_normal_status := 0\<rparr>\<rparr>)"
  "ctl_ok c \<Longrightarrow> ctl_ok (c\<lparr>work := (work c)\<lparr>g_normal_status := 1\<rparr>\<rparr>)"
  "ctl_ok c \<Longrightarrow> ctl_ok (c\<lparr>work := (work c)\<lparr>g_event_status := 0\<rparr>\<rparr>)"
  "ctl_ok c \<Longrightarrow> NormalThread \<in> set (threads c) \<Longrightarrow>
     ctl_ok (c\<lparr>work := (work c)\<lparr>g_normal_duration := record_switch_time (manage c)\<rparr>\<rparr>)"
  by (auto simp: ctl_ok_def)

definition sd_inv :: "sd_state \<Rightarrow> bool" where
  "sd_inv s \<longleftrightarrow> ctl_ok (ctl s) \<and> flags_ok s"

lemma sd_inv_detect: "sd_inv s \<Longrightarrow> sd_inv (thread_sd_card_detecte a s)"
  unfolding sd_inv_def
  by (auto simp: thread_sd_card_detecte_def sd_acknowledge_format_def sd_card_gone_def sd_resume_def sd_recycle_def
      flags_ok_def Let_def ctl_ok_basic st_record_start_ok)

lemma sd_inv_format:
  "sd_inv s \<Longrightarrow> sd_inv (snd (format_begin flag s))"
  "sd_inv s \<Longrightarrow> sd_inv (snd (format_end fresh mount s))"
  by (auto simp: sd_inv_def format_begin_def format_end_def flags_ok_def Let_def ctl_ok_basic split: prod.splits)

lemma sd_inv_upd [simp]:
  "sd_inv (s\<lparr>ctl := c\<rparr>) = (ctl_ok c \<and> flags_ok s)"
  "sd_inv (s\<lparr>has_sd_card := b, sd_files := d\<rparr>) = sd_inv s"
  by (simp_all add: sd_inv_def flags_ok_def)

lemma sd_inv_step: "sd_step s s' \<Longrightarrow> sd_inv s \<Longrightarrow> sd_inv s'"
  by (induction rule: sd_step.induct)
    (simp_all add: sd_inv_detect sd_inv_format set_work_def, simp_all add: sd_inv_def st_record_start_ok st_record_stop_ok
      st_refresh_time_zone_ok ctl_ok_set_work)

lemma sd_inv_init: "sd_inv (sd_init has c)"
  by (simp add: sd_inv_def sd_init_def ctl_ok_def flags_ok_def)

lemma sd_inv_reachable: "sd_reachable s \<Longrightarrow> sd_inv s"
  by (induction rule: sd_reachable.induct) (auto intro: sd_inv_init sd_inv_step)

section \<open>Removal and insertion\<close>

text \<open>A recording that waits for the card: what the thread has noted when the card went.\<close>

definition waiting :: "int \<Rightarrow> int \<Rightarrow> sd_state \<Rightarrow> bool" where
  "waiting n e s \<longleftrightarrow> SD_CARD_FORMATING s \<noteq> 1 \<and> g_format_SDcard s \<noteq> 1 \<and>
     g_normal_status (work (ctl s)) = 0 \<and> g_event_status (work (ctl s)) = 0 \<and>
     tmp_normal_record s = 1 \<and> tmp_event_record s = 1 \<and> tmp_normal_duration s = n \<and> tmp_event_duration s = e"

lemma gone_waits:
  assumes "SD_CARD_FORMATING s \<noteq> 1" "g_format_SDcard s \<noteq> 1" "\<not> has_sd_card s"
    and "g_normal_status (work (ctl s)) = 1" "g_event_status (work (ctl s)) = 1"
  shows "waiting (g_normal_duration (work (ctl s))) (g_event_duration (work (ctl s))) (thread_sd_card_detecte a s) \<and>
    sd_tats (thread_sd_card_detecte a s) = -1 \<and>
    threads (ctl (thread_sd_card_detecte a s)) = threads (ctl s) \<and>
    has_sd_card (thread_sd_card_detecte a s) = has_sd_card s"
  using assms by (simp add: thread_sd_card_detecte_def sd_acknowledge_format_def get_sd_stats_def sd_card_gone_def
      stop_normal_record_stream_def stop_event_record_stream_def waiting_def Let_def)

lemma waiting_stays:
  "waiting n e s \<Longrightarrow> \<not> has_sd_card s \<Longrightarrow> thread_sd_card_detecte a s = s\<lparr>sd_tats := -1\<rparr>"
  by (simp add: thread_sd_card_detecte_def sd_acknowledge_format_def get_sd_stats_def sd_card_gone_def waiting_def Let_def)

lemma waiting_tats [simp]: "waiting n e (s\<lparr>sd_tats := t\<rparr>) = waiting n e s"
  by (simp add: waiting_def)

lemma waiting_rounds:
  "waiting n e s \<Longrightarrow> \<not> has_sd_card s \<Longrightarrow> sd_tats s = -1 \<Longrightarrow> fold thread_sd_card_detecte as s = s"
  by (induction as arbitrary: s) (simp_all add: waiting_stays)

lemma back_resumes:
  assumes "waiting n e s" "create_ok a"
  shows "case thread_sd_card_detecte a (s\<lparr>has_sd_card := True\<rparr>) of s' \<Rightarrow>
    sd_tats s' = 1 \<and> threads (ctl s') = threads (ctl s) @ [NormalThread, EventThread] \<and>
    rm_record_type (manage (ctl s')) = uint SDK_RECORD_TYPE_MANU \<and> record_switch_time (manage (ctl s')) = max 15 n \<and>
    g_event_status (work (ctl s')) = 1 \<and> g_event_duration (work (ctl s')) = max 10 e \<and>
    tmp_normal_record s' = 0 \<and> tmp_event_record s' = 0"
  using assms
  by (auto simp: thread_sd_card_detecte_def sd_acknowledge_format_def get_sd_stats_def sd_resume_def sd_recycle_def
      st_record_start_def start_normal_record_stream_def start_event_record_stream_def waiting_def Let_def max_def
      SDK_RECORD_TYPE_MANU_def SDK_RECORD_TYPE_MOTION_def)

section \<open>Recycling\<close>

lemma find_oldest_dir_same:
  "find_oldest_dir dirs buf = (0, p) \<Longrightarrow> find_oldest_dir dirs buf' = (0, p)"
  by (auto simp: find_oldest_dir_def Let_def split: option.splits if_splits)

section \<open>A failed format\<close>

lemma formatting_detect: "SD_CARD_FORMATING s = 1 \<Longrightarrow> thread_sd_card_detecte a s = s"
  by (simp add: thread_sd_card_detecte_def)

lemma formatting_step: "sd_step s s' \<Longrightarrow> SD_CARD_FORMATING s = 1 \<Longrightarrow> sd_tats s' = sd_tats s"
  by (induction rule: sd_step.induct)
    (simp_all add: formatting_detect format_begin_def format_end_def set_work_def Let_def split: prod.splits)

lemma formatting_steps:
  "(\<lambda>x y. sd_step x y \<and> SD_CARD_FORMATING y = 1)\<^sup>*\<^sup>* s s' \<Longrightarrow> SD_CARD_FORMATING s = 1 \<Longrightarrow>
   SD_CARD_FORMATING s' = 1 \<and> sd_tats s' = sd_tats s"
  by (induction rule: rtranclp_induct) (auto dest: formatting_step)

section \<open>Properties\<close>

text \<open>C22: in every state the threads can reach, whatever the order of their steps, a normal recording that
  has been asked for lasts at least 15 seconds per file and an event recording at least 10, and the
  flags of the detection thread hold only the values it tests for; while a format runs, the detection
  thread is bound to acknowledge it afterwards.\<close>

theorem sd_reachable_invariant:
  assumes "sd_reachable s"
  shows "ctl_ok (ctl s) \<and> flags_ok s"
  using sd_inv_reachable [OF assms] by (simp add: sd_inv_def)

definition sample_start :: sd_state where
  "sample_start = (sd_init True sample_card)
     \<lparr>ctl := snd (st_record_start True True 1 5 (ctl (sd_init True sample_card)))\<rparr>"

lemma sd_reachable_invariant_witness: "ctl_ok (ctl sample_start) \<and> flags_ok sample_start"
proof (rule sd_reachable_invariant)
  have "sd_step (sd_init True sample_card) sample_start"
    using sd_step.start [of "sd_init True sample_card" True 1 5] by (simp add: sample_start_def sd_init_def)
  then show "sd_reachable sample_start" using sd_reachable.init sd_reachable.step by blast
qed

text \<open>C23: pulling the card out and putting it back resumes both recordings: after the round that finds
  the card gone, and any number of rounds without it, the first round with the card starts a normal
  and an event recording with the durations they had, and forgets that they were waiting.\<close>

theorem hot_swap_resumes:
  assumes "SD_CARD_FORMATING s \<noteq> 1" "g_format_SDcard s \<noteq> 1" "\<not> has_sd_card s" "create_ok b"
    and "g_normal_status (work (ctl s)) = 1" "g_event_status (work (ctl s)) = 1"
  shows "case thread_sd_card_detecte b ((fold thread_sd_card_detecte as (thread_sd_card_detecte a s))\<lparr>has_sd_card := True\<rparr>)
    of s' \<Rightarrow> sd_tats s' = 1 \<and> threads (ctl s') = threads (ctl s) @ [NormalThread, EventThread] \<and>
      rm_record_type (manage (ctl s')) = uint SDK_RECORD_TYPE_MANU \<and>
      record_switch_time (manage (ctl s')) = max 15 (g_normal_duration (work (ctl s))) \<and>
      g_event_status (work (ctl s')) = 1 \<and> g_event_duration (work (ctl s')) = max 10 (g_event_duration (work (ctl s))) \<and>
      tmp_normal_record s' = 0 \<and> tmp_event_record s' = 0"
proof -
  note g = gone_waits [OF assms(1-3,5,6), of a]
  have "fold thread_sd_card_detecte as (thread_sd_card_detecte a s) = thread_sd_card_detecte a s"
    using g assms(3) by (intro waiting_rounds) auto
  then show ?thesis using back_resumes [OF conjunct1 [OF g] assms(4)] g by simp
qed

definition sample_recording :: sd_state where
  "sample_recording = set_work (\<lambda>rw. rw\<lparr>g_normal_status := 1, g_event_status := 1, g_normal_duration := 60,
     g_event_duration := 30\<rparr>) (sd_init False sample_card)"

definition good_answers :: sd_answers where
  "good_answers = \<lparr>create_ok = True, remove_ok = True, shell_ok = True, available = 2 ^ 30\<rparr>"

lemma hot_swap_resumes_witness:
  "case thread_sd_card_detecte good_answers ((fold thread_sd_card_detecte [good_answers]
      (thread_sd_card_detecte good_answers sample_recording))\<lparr>has_sd_card := True\<rparr>)
    of s' \<Rightarrow> sd_tats s' = 1 \<and> threads (ctl s') = threads (ctl sample_recording) @ [NormalThread, EventThread] \<and>
      rm_record_type (manage (ctl s')) = uint SDK_RECORD_TYPE_MANU \<and>
      record_switch_time (manage (ctl s')) = max 15 (g_normal_duration (work (ctl sample_recording))) \<and>
      g_event_status (work (ctl s')) = 1 \<and>
      g_event_duration (work (ctl s')) = max 10 (g_event_duration (work (ctl sample_recording))) \<and>
      tmp_normal_record s' = 0 \<and> tmp_event_record s' = 0"
  by (rule hot_swap_resumes) (simp_all add: sample_recording_def good_answers_def sd_init_def set_work_def)

text \<open>with less than 30 MB left on a card whose directories are named by dates, a round frees space as
  the recorder expects, the oldest recording or an empty oldest directory; with 30 MB or more it
  leaves the card alone.\<close>

theorem round_recycles:
  assumes "SD_CARD_FORMATING s \<noteq> 1" "has_sd_card s" "card_ok (sd_files s)" "\<not> no_dates (sd_files s)"
    and "remove_ok a" "shell_ok a"
  shows "if drop_bit 20 (available a) < 30 then freed (sd_files s) (sd_files (thread_sd_card_detecte a s))
    else sd_files (thread_sd_card_detecte a s) = sd_files s"
proof -
  let ?s1 = "(sd_acknowledge_format s)\<lparr>sd_tats := 1\<rparr>"
  let ?s2 = "sd_resume a ?s1"
  have c: "sd_files ?s2 = sd_files s" by (simp add: sd_resume_def sd_acknowledge_format_def Let_def)
  have r: "thread_sd_card_detecte a s = sd_recycle a ?s2"
    using assms(1,2) by (simp add: thread_sd_card_detecte_def get_sd_stats_def sd_acknowledge_format_def Let_def)
  obtain ents where ents: "sd_files s GRD_SD_MOUNT_POINT = Some ents"
    "\<forall>e \<in> set ents. dated e \<longrightarrow> date_name (d_name e)"
    using assms(3) by (auto simp: card_ok_def)
  then obtain e where "e \<in> set ents" "dated e" using assms(4) by (auto simp: no_dates_def)
  then obtain d where "find_oldest_dir (sd_files s) [] = (0, dir_path d)"
    using find_oldest_dir_dates [of "sd_files s" ents e "[]"] ents by blast
  then have d: "find_oldest_dir (sd_files s) buf = (0, dir_path d)" for buf by (rule find_oldest_dir_same)
  have "grd_sd_del_oldest_avi_file True True (sd_files s) = (0, snd (del_oldest_file True True (dir_path d) (sd_files s)))"
    by (simp add: grd_sd_del_oldest_avi_file_def d)
  then have "freed (sd_files s) (snd (del_oldest_file True True (dir_path d) (sd_files s)))"
    using del_oldest_step [OF assms(3)] assms(4) by (auto simp: no_dates_def split: if_splits)
  then show ?thesis using r c assms(5,6) by (simp add: sd_recycle_def d Let_def)
qed

lemma round_recycles_witness:
  "freed sample_card (sd_files (thread_sd_card_detecte (good_answers\<lparr>available := 2 ^ 20\<rparr>) (sd_init True sample_card)))"
proof -
  have "\<not> no_dates sample_card" by (simp add: no_dates_def sample_card_def dated_def DT_DIR_def)
  then show ?thesis
    using round_recycles [of "sd_init True sample_card" "good_answers\<lparr>available := 2 ^ 20\<rparr>"] sample_card_ok
    by (simp add: sd_init_def good_answers_def)
qed

text \<open>a format whose mount fails blinds the detection thread: \<^verbatim>\<open>SD_CARD_FORMATING\<close> stays set, and until some
  later format succeeds no step of any thread changes the card status, and a round of the detection
  thread does nothing, whether the card is pulled out or put back.\<close>

theorem failed_format_blinds_detection:
  assumes "has_sd_card s" "mount < 0" "st_sd_card_format flag fresh mount s = (ret, s1)"
    and "(\<lambda>x y. sd_step x y \<and> SD_CARD_FORMATING y = 1)\<^sup>*\<^sup>* s1 s2"
  shows "ret = -1 \<and> sd_tats s2 = sd_tats s \<and> thread_sd_card_detecte a s2 = s2"
proof -
  have "ret = -1" "SD_CARD_FORMATING s1 = 1" "sd_tats s1 = sd_tats s"
    using assms(1-3)
    by (auto simp: st_sd_card_format_def format_begin_def format_end_def get_mmc_devname_def get_sd_stats_def Let_def
        split: option.splits)
  then show ?thesis using formatting_steps [OF assms(4)] formatting_detect by metis
qed

lemma failed_format_blinds_detection_witness:
  "case st_sd_card_format None sample_card (-1) (sd_init True sample_card) of (ret, s1) \<Rightarrow>
    ret = -1 \<and> sd_tats s1 = sd_tats (sd_init True sample_card) \<and> thread_sd_card_detecte good_answers s1 = s1"
proof -
  have h: "has_sd_card (sd_init True sample_card)" by (simp add: sd_init_def)
  obtain ret s1 where r: "st_sd_card_format None sample_card (-1) (sd_init True sample_card) = (ret, s1)" by fastforce
  show ?thesis using failed_format_blinds_detection [OF h _ r rtranclp.rtrancl_refl, of good_answers] r by simp
qed

text \<open>Starting a normal recording twice before the first thread has run creates two recording threads,
  since the guard reads a status that only the thread sets.\<close>

theorem two_starts_two_threads:
  assumes "g_normal_status (work c) \<noteq> 1"
  shows "case start_normal_record_stream True t2 d2 (snd (start_normal_record_stream True t1 d1 c)) of (ret, c') \<Rightarrow>
    ret = 0 \<and> threads c' = threads c @ [NormalThread, NormalThread]"
  using assms by (simp add: start_normal_record_stream_def Let_def)

lemma two_starts_two_threads_witness:
  "case start_normal_record_stream True 1 60 (snd (start_normal_record_stream True 1 60 (ctl (sd_init True sample_card))))
   of (ret, c') \<Rightarrow> ret = 0 \<and> threads c' = threads (ctl (sd_init True sample_card)) @ [NormalThread, NormalThread]"
  by (rule two_starts_two_threads) (simp add: sd_init_def)

end
