(* ===== verification/ShmRing.thy ===== *)
theory ShmRing
  imports Prelude
begin

text \<open>
  The shared memory ring between the capture process and its readers (\<^verbatim>\<open>libshmav\<close>): the classes
  \<^verbatim>\<open>ShmBase\<close>, \<^verbatim>\<open>ShmWrite\<close> and \<^verbatim>\<open>ShmRead\<close>. The segment is an array of bytes; the structures
  \<^verbatim>\<open>ShmHeadStruct\<close> and \<^verbatim>\<open>ShmFrameHeadStruct\<close> are overlaid on it at their byte offsets. \<open>None\<close> stands for an
  access outside the segment. Every method holds the semaphore of the segment, so it is one step.
\<close>

section \<open>Layout\<close>

definition SHM_FRAME_INITIAL_POSITION :: cuint where "SHM_FRAME_INITIAL_POSITION = 0"
definition SHM_FRAME_INITIAL_SEQUENCE :: cuint where "SHM_FRAME_INITIAL_SEQUENCE = 0"
definition SHM_FRAME_MAX_SEQUENCE :: cuint where "SHM_FRAME_MAX_SEQUENCE = 4294967295"
definition SHM_FRAME_MAGIC_NUM :: cuint where "SHM_FRAME_MAGIC_NUM = 0x7F7E7D7C"

text \<open>\<^verbatim>\<open>sizeof(ShmVideoExtraData)\<close> is 24 where \<^verbatim>\<open>unsigned long long\<close> is aligned to 8 bytes.\<close>

definition SHM_SIZE_OF_FRAME_EXTRAS :: nat where "SHM_SIZE_OF_FRAME_EXTRAS = 24"
definition SHM_SIZE_OF_SHM_HEAD :: nat where "SHM_SIZE_OF_SHM_HEAD = 52"
definition SHM_SIZE_OF_FRAME_HEAD :: nat where "SHM_SIZE_OF_FRAME_HEAD = 44"
definition SHM_FRAME_START_POSITION :: cuint where "SHM_FRAME_START_POSITION = 52"

text \<open>Return codes.\<close>

definition SHM_ENUM_EMPTY_SPACE :: int where "SHM_ENUM_EMPTY_SPACE = -3"
definition SHM_ENUM_WRITE_OVERFLOW :: int where "SHM_ENUM_WRITE_OVERFLOW = -2"
definition SHM_ENUM_NO_FRAME :: int where "SHM_ENUM_NO_FRAME = -2"
definition SHM_ENUM_ERROR :: int where "SHM_ENUM_ERROR = -1"
definition SHM_ENUM_OK :: int where "SHM_ENUM_OK = 0"
definition SHM_ENUM_NO_NEW_FRAME :: int where "SHM_ENUM_NO_NEW_FRAME = 0"
definition SHM_ENUM_FRAME_TOO_LARGE :: int where "SHM_ENUM_FRAME_TOO_LARGE = 1"
definition SHM_ENUM_GET_A_NEW_FRAME :: int where "SHM_ENUM_GET_A_NEW_FRAME = 2"
definition SHM_ENUM_GET_A_NEW_KEY_FRAME :: int where "SHM_ENUM_GET_A_NEW_KEY_FRAME = 3"
definition SHM_ENUM_NEXT_FRAME_OF_NEWEST :: int where "SHM_ENUM_NEXT_FRAME_OF_NEWEST = 4"

lemmas shm_consts = SHM_FRAME_INITIAL_POSITION_def SHM_FRAME_INITIAL_SEQUENCE_def SHM_SIZE_OF_FRAME_EXTRAS_def
  SHM_SIZE_OF_SHM_HEAD_def SHM_SIZE_OF_FRAME_HEAD_def SHM_FRAME_START_POSITION_def

lemmas shm_codes = SHM_ENUM_EMPTY_SPACE_def SHM_ENUM_WRITE_OVERFLOW_def SHM_ENUM_NO_FRAME_def SHM_ENUM_ERROR_def
  SHM_ENUM_OK_def SHM_ENUM_NO_NEW_FRAME_def SHM_ENUM_FRAME_TOO_LARGE_def SHM_ENUM_GET_A_NEW_FRAME_def
  SHM_ENUM_GET_A_NEW_KEY_FRAME_def SHM_ENUM_NEXT_FRAME_OF_NEWEST_def

definition rd32 :: "nat \<Rightarrow> byte list \<Rightarrow> cuint" where
  "rd32 off m = get32 (slice off 4 m)"

definition wr32 :: "nat \<Rightarrow> cuint \<Rightarrow> byte list \<Rightarrow> byte list" where
  "wr32 off v m = put_at off (le32 v) m"

definition in_mem :: "byte list \<Rightarrow> nat \<Rightarrow> nat \<Rightarrow> bool" where
  "in_mem m off n \<longleftrightarrow> off + n \<le> length m"

text \<open>The fields of \<^verbatim>\<open>ShmHeadStruct\<close>, at the start of the segment.\<close>

definition head_magic :: "byte list \<Rightarrow> cuint" where "head_magic m = rd32 0 m"
definition uiNewestFramePos :: "byte list \<Rightarrow> cuint" where "uiNewestFramePos m = rd32 4 m"
definition uiNewestFrameSeq :: "byte list \<Rightarrow> cuint" where "uiNewestFrameSeq m = rd32 8 m"
definition iMaxFrameSize :: "byte list \<Rightarrow> int" where "iMaxFrameSize m = sint (rd32 12 m)"
definition head_iShmSize :: "byte list \<Rightarrow> int" where "head_iShmSize m = sint (rd32 16 m)"
definition carrUserDefinedInfo :: "byte list \<Rightarrow> byte list" where "carrUserDefinedInfo m = slice 20 32 m"

text \<open>The fields of \<^verbatim>\<open>ShmFrameHeadStruct\<close> at a position.\<close>

definition uiMagic :: "byte list \<Rightarrow> cuint \<Rightarrow> cuint" where "uiMagic m p = rd32 (unat p) m"
definition uiPrevFramePos :: "byte list \<Rightarrow> cuint \<Rightarrow> cuint" where "uiPrevFramePos m p = rd32 (unat p + 4) m"
definition uiNextFramePos :: "byte list \<Rightarrow> cuint \<Rightarrow> cuint" where "uiNextFramePos m p = rd32 (unat p + 8) m"
definition uiSequence :: "byte list \<Rightarrow> cuint \<Rightarrow> cuint" where "uiSequence m p = rd32 (unat p + 12) m"
definition iFrameSize :: "byte list \<Rightarrow> cuint \<Rightarrow> int" where "iFrameSize m p = sint (rd32 (unat p + 16) m)"
definition carrExtras :: "byte list \<Rightarrow> cuint \<Rightarrow> byte list" where
  "carrExtras m p = slice (unat p + 20) SHM_SIZE_OF_FRAME_EXTRAS m"

definition head_in_mem :: "byte list \<Rightarrow> cuint \<Rightarrow> bool" where
  "head_in_mem m p = in_mem m (unat p) SHM_SIZE_OF_FRAME_HEAD"

section \<open>The writer\<close>

text \<open>The object: the segment and the fields of the class.\<close>

record shm_obj =
  m_pcShm :: "byte list"
  m_iShmSize :: int
  m_uiFramePos :: cuint
  m_uiFrameSeq :: cuint

definition GetHeaderInfo :: "shm_obj \<Rightarrow> byte list" where
  "GetHeaderInfo w = carrUserDefinedInfo (m_pcShm w)"

definition SetHeaderInfo :: "byte list \<Rightarrow> shm_obj \<Rightarrow> shm_obj" where
  "SetHeaderInfo info w = w\<lparr>m_pcShm := put_at 20 (take 32 info) (m_pcShm w)\<rparr>"

text \<open>The constructor, on a segment of \<^verbatim>\<open>iShmSize\<close> bytes.\<close>

definition ShmWrite :: "int \<Rightarrow> int \<Rightarrow> byte list \<Rightarrow> byte list \<Rightarrow> shm_obj option" where
  "ShmWrite shm_size max_frame info segment =
     (if shm_size < 0 \<or> \<not> in_mem segment 0 (nat shm_size) \<or> \<not> in_mem segment 0 SHM_SIZE_OF_SHM_HEAD then None
      else let m = put_at 0 (replicate (nat shm_size) 0) segment;
               m = wr32 0 SHM_FRAME_MAGIC_NUM m;
               m = wr32 12 (word_of_int max_frame) m;
               m = wr32 16 (word_of_int shm_size) m;
               m = wr32 4 SHM_FRAME_START_POSITION m;
               m = wr32 8 SHM_FRAME_INITIAL_SEQUENCE m;
               m = put_at 20 (take 32 info) m
           in Some \<lparr>m_pcShm = m, m_iShmSize = shm_size, m_uiFramePos = SHM_FRAME_START_POSITION,
                    m_uiFrameSeq = SHM_FRAME_INITIAL_SEQUENCE\<rparr>)"

text \<open>
  \<^verbatim>\<open>complement = uiNextFramePos&3==0?0:(4 - uiNextFramePos&3)\<close>: C reads the condition as
  \<^verbatim>\<open>uiNextFramePos & (3==0)\<close>, which is never true, and the value as \<^verbatim>\<open>(4 - uiNextFramePos) & 3\<close>.
\<close>

definition align_up :: "cuint \<Rightarrow> cuint" where
  "align_up p = p + ((4 - p) AND 3)"

definition frame_end :: "cuint \<Rightarrow> int \<Rightarrow> cuint" where
  "frame_end pos len = align_up (pos + word_of_int len + of_nat SHM_SIZE_OF_FRAME_HEAD)"

text \<open>Where the frame goes and where the next one will: the positions, and the segment after the pointer
  of the newest frame has been turned to the start.\<close>

definition place_frame :: "int \<Rightarrow> shm_obj \<Rightarrow> (cuint \<times> cuint \<times> byte list) option" where
  "place_frame len w =
     (let m = m_pcShm w; next = frame_end (m_uiFramePos w) len; size = word_of_int (m_iShmSize w) in
      if next \<ge> size then
        if \<not> head_in_mem m (uiNewestFramePos m) then None
        else Some (SHM_FRAME_START_POSITION, frame_end SHM_FRAME_START_POSITION len,
                   wr32 (unat (uiNewestFramePos m) + 8) SHM_FRAME_START_POSITION m)
      else if next + of_nat SHM_SIZE_OF_FRAME_HEAD \<ge> size then Some (m_uiFramePos w, SHM_FRAME_START_POSITION, m)
      else Some (m_uiFramePos w, next, m))"

definition next_seq :: "cuint \<Rightarrow> cuint" where
  "next_seq s = (if s + 1 \<ge> SHM_FRAME_MAX_SEQUENCE then 1 else s + 1)"

definition put_frame :: "cuint \<Rightarrow> cuint \<Rightarrow> cuint \<Rightarrow> byte list \<Rightarrow> byte list \<Rightarrow> byte list \<Rightarrow> byte list" where
  "put_frame pos next seq data extras m =
     (let p = unat pos;
          m = put_at (p + SHM_SIZE_OF_FRAME_HEAD) data m;
          m = put_at (unat next) (replicate SHM_SIZE_OF_FRAME_HEAD 0) m;
          m = wr32 (p + 16) (word_of_nat (length data)) m;
          m = wr32 (p + 12) seq m;
          m = wr32 (p + 8) next m;
          m = wr32 (p + 4) (uiNewestFramePos m) m;
          m = wr32 p (head_magic m) m;
          m = put_at (p + 20) extras m;
          m = wr32 4 pos m
      in wr32 8 seq m)"

definition WriteFrame :: "byte list \<Rightarrow> int \<Rightarrow> byte list \<Rightarrow> shm_obj \<Rightarrow> (int \<times> shm_obj) option" where
  "WriteFrame pcBuf iBufLen pcExtras w =
     (if iBufLen \<le> 0 then Some (SHM_ENUM_ERROR, w)
      else if iBufLen > iMaxFrameSize (m_pcShm w) then Some (SHM_ENUM_WRITE_OVERFLOW, w)
      else case place_frame iBufLen w of
        None \<Rightarrow> None
      | Some (pos, next, m) \<Rightarrow>
          let seq = next_seq (m_uiFrameSeq w) in
          if \<not> in_mem m (unat pos) (SHM_SIZE_OF_FRAME_HEAD + nat iBufLen) \<or> \<not> head_in_mem m next then None
          else Some (SHM_ENUM_OK,
                 w\<lparr>m_pcShm := put_frame pos next seq (take (nat iBufLen) pcBuf)
                                (take SHM_SIZE_OF_FRAME_EXTRAS pcExtras) m,
                   m_uiFramePos := next, m_uiFrameSeq := seq\<rparr>))"

section \<open>The reader\<close>

text \<open>
  A method works on the segment and on the position and sequence number of the caller, which it
  returns updated; the class fields of the reader hold copies of them during the call only.
\<close>

definition IsInitState :: "cuint \<Rightarrow> bool" where
  "IsInitState p \<longleftrightarrow> p = SHM_FRAME_INITIAL_POSITION"

definition CheckOverflowed :: "byte list \<Rightarrow> cuint \<times> cuint \<Rightarrow> (cuint \<times> cuint) option" where
  "CheckOverflowed m r =
     (case r of (pos, seq) \<Rightarrow>
        if IsInitState pos then Some (pos, seq)
        else if \<not> head_in_mem m pos \<or> \<not> head_in_mem m SHM_FRAME_START_POSITION then None
        else if uiMagic m pos \<noteq> head_magic m \<and> seq = uiSequence m SHM_FRAME_START_POSITION
        then Some (SHM_FRAME_START_POSITION, seq) else Some (pos, seq))"

text \<open>What a read hands out: the frame and its extra data. \<open>copy\<close> is false when \<^verbatim>\<open>pcBuf\<close> is NULL; \<open>buf_len\<close> is
  \<^verbatim>\<open>*piBufLen\<close>.\<close>

definition wrap_seq :: "cuint \<times> cuint \<Rightarrow> cuint \<times> cuint" where
  "wrap_seq r = (fst r, if snd r \<ge> SHM_FRAME_MAX_SEQUENCE then 0 else snd r)"

definition ReadFrame ::
  "bool \<Rightarrow> int \<Rightarrow> byte list \<Rightarrow> cuint \<times> cuint \<Rightarrow> (int \<times> (byte list \<times> byte list) option \<times> cuint \<times> cuint) option" where
  "ReadFrame copy buf_len m r =
     (if uiNewestFrameSeq m = SHM_FRAME_INITIAL_SEQUENCE then Some (SHM_ENUM_EMPTY_SPACE, None, r)
      else if uiNewestFrameSeq m < snd r then
        if uiNewestFrameSeq m \<noteq> snd r - 1
        then Some (SHM_ENUM_ERROR, None, SHM_FRAME_INITIAL_POSITION, SHM_FRAME_INITIAL_SEQUENCE)
        else Some (SHM_ENUM_NO_NEW_FRAME, None, r)
      else case CheckOverflowed m r of
        None \<Rightarrow> None
      | Some (pos, seq) \<Rightarrow>
          if \<not> head_in_mem m pos then None
          else if uiMagic m pos \<noteq> head_magic m
          then Some (SHM_ENUM_ERROR, None, SHM_FRAME_INITIAL_POSITION, SHM_FRAME_INITIAL_SEQUENCE)
          else if iFrameSize m pos > iMaxFrameSize m
          then Some (SHM_ENUM_FRAME_TOO_LARGE, None, wrap_seq (uiNextFramePos m pos, uiSequence m pos + 1))
          else if iFrameSize m pos > buf_len then Some (SHM_ENUM_FRAME_TOO_LARGE, None, pos, seq)
          else if copy \<and> (iFrameSize m pos < 0 \<or>
                            \<not> in_mem m (unat pos) (SHM_SIZE_OF_FRAME_HEAD + nat (iFrameSize m pos))) then None
          else Some (SHM_ENUM_GET_A_NEW_FRAME,
                 if copy
                 then Some (slice (unat pos + SHM_SIZE_OF_FRAME_HEAD) (nat (iFrameSize m pos)) m, carrExtras m pos)
                 else None,
                 wrap_seq (uiNextFramePos m pos, uiSequence m pos + 1)))"

definition Distance2Newest :: "byte list \<Rightarrow> cuint \<times> cuint \<Rightarrow> int option" where
  "Distance2Newest m r =
     (case CheckOverflowed m r of
        None \<Rightarrow> None
      | Some (pos, seq) \<Rightarrow>
          if seq = uiNewestFrameSeq m + 1 then Some (-1)
          else if \<not> head_in_mem m pos then None
          else if uiMagic m pos = head_magic m \<and> uiSequence m pos = seq
          then Some (sint (uiNewestFrameSeq m - seq)) else Some (-2))"

definition MoveBack :: "byte list \<Rightarrow> cuint \<times> cuint \<Rightarrow> (int \<times> cuint \<times> cuint) option" where
  "MoveBack m r =
     (let lost = (SHM_ENUM_ERROR, SHM_FRAME_INITIAL_POSITION, SHM_FRAME_INITIAL_SEQUENCE) in
      if uiNewestFrameSeq m = SHM_FRAME_INITIAL_SEQUENCE then Some (SHM_ENUM_EMPTY_SPACE, r)
      else if fst r = SHM_FRAME_INITIAL_POSITION then
        if \<not> head_in_mem m (uiNewestFramePos m) then None
        else Some (SHM_ENUM_OK, uiNewestFramePos m, uiSequence m (uiNewestFramePos m))
      else if snd r = uiNewestFrameSeq m + 1 then Some (SHM_ENUM_OK, uiNewestFramePos m, uiNewestFrameSeq m)
      else case CheckOverflowed m r of
        None \<Rightarrow> None
      | Some (pos, seq) \<Rightarrow>
          if \<not> head_in_mem m pos then None
          else if uiMagic m pos \<noteq> head_magic m then Some lost
          else if pos = uiPrevFramePos m pos then Some lost
          else let prev = uiPrevFramePos m pos in
            if \<not> head_in_mem m prev then None
            else if uiMagic m prev = head_magic m then Some (SHM_ENUM_OK, prev, uiSequence m prev)
            else Some lost)"

definition MoveForward :: "byte list \<Rightarrow> cuint \<times> cuint \<Rightarrow> (int \<times> cuint \<times> cuint) option" where
  "MoveForward m r =
     map_option (\<lambda>(ret, _, r). (if ret = SHM_ENUM_GET_A_NEW_FRAME then 0 else -1, r)) (ReadFrame False (iMaxFrameSize m) m r)"

definition Refresh :: "byte list \<Rightarrow> (int \<times> cuint \<times> cuint) option" where
  "Refresh m =
     (let pos = uiNewestFramePos m in
      if \<not> head_in_mem m pos then None
      else Some (if uiMagic m pos = head_magic m then SHM_ENUM_OK else SHM_ENUM_ERROR, pos, uiNewestFrameSeq m))"

text \<open>The second argument is the caller's buffer, which an error leaves as it was.\<close>

definition GetExtras :: "byte list \<Rightarrow> byte list \<Rightarrow> cuint \<times> cuint \<Rightarrow> (int \<times> byte list) option" where
  "GetExtras m pcExtras r =
     (case CheckOverflowed m r of
        None \<Rightarrow> None
      | Some (pos, seq) \<Rightarrow>
          if \<not> head_in_mem m pos then None
          else if uiMagic m pos = head_magic m then Some (SHM_ENUM_OK, carrExtras m pos)
          else if seq = uiNewestFrameSeq m + 1
          then Some (SHM_ENUM_NEXT_FRAME_OF_NEWEST, replicate SHM_SIZE_OF_FRAME_EXTRAS 0)
          else Some (SHM_ENUM_ERROR, pcExtras))"

end
