(* ===== verification/ShmRingCorrect.thy ===== *)
theory ShmRingCorrect
  imports ShmRing
begin

text \<open>
  The shared memory ring refines a queue of frames: the frames of the lap the writer is in, and those of
  the lap before that it has not reached yet. Every write stays inside the segment and drops only the
  oldest frames; a reader gets the frames in the order in which they were written.
\<close>

section \<open>Fields in a byte array\<close>

lemma rd32_wr32 [mem_simps]: "off + 4 \<le> length m \<Longrightarrow> rd32 off (wr32 off v m) = v"
  by (simp add: rd32_def wr32_def slice_put_at_same)

lemma length_wr32 [mem_simps]: "off + 4 \<le> length m \<Longrightarrow> length (wr32 off v m) = length m"
  by (simp add: wr32_def length_put_at)

lemma slice_wr32 [mem_simps]:
  "a + n \<le> off \<or> off + 4 \<le> a \<Longrightarrow> off + 4 \<le> length m \<Longrightarrow> slice a n (wr32 off v m) = slice a n m"
  by (simp add: wr32_def slice_put_at_disjoint)

lemma slice_wr32_same [mem_simps]: "off + 4 \<le> length m \<Longrightarrow> slice off 4 (wr32 off v m) = le32 v"
  by (simp add: wr32_def slice_put_at_same)

section \<open>Placing a frame\<close>

lemma unat_small_add: "unat (a :: cuint) + unat b < 2 ^ 32 \<Longrightarrow> unat (a + b) = unat a + unat b"
  by (simp add: unat_add_lem [THEN iffD1])

lemma and3: "unat ((x :: cuint) AND 3) = unat x mod 4"
proof -
  have "x AND 3 = take_bit 2 x" by (simp add: take_bit_eq_mask mask_eq_exp_minus_1)
  then have "unat (x AND 3) = take_bit 2 (unat x)" by (simp only: unsigned_take_bit_eq)
  then show ?thesis by (simp add: take_bit_eq_mod)
qed

lemma align4: "u + (4 - u mod 4) mod 4 = 4 * ((u + 3) div (4 :: nat))"
proof -
  define q r where "q = u div 4" and "r = u mod 4"
  have u: "u = 4 * q + r" and r: "r < 4" by (simp_all add: q_def r_def)
  have "(u + 3) div 4 = (if r = 0 then q else Suc q)"
    unfolding u by (rule div_nat_eqI) (use r in auto)
  then show ?thesis using u r by (cases "r = 0") (auto simp: r_def [symmetric])
qed

lemma unat_align_up:
  assumes "unat p + 3 < 2 ^ 32"
  shows "unat (align_up p) = 4 * ((unat p + 3) div 4)"
proof -
  have lt: "unat p < 2 ^ 32" using unsigned_less [where 'a = nat, of p] by simp
  have "unat (4 - p) mod 4 = (4 - unat p mod 4) mod 4"
  proof (cases "unat p \<le> 4")
    case True
    then have "unat (4 - p) = 4 - unat p" by (simp add: unat_sub_if')
    then show ?thesis using True by (cases "unat p = 4") simp_all
  next
    case False
    have "unat p = 4 * (unat p div 4) + unat p mod 4" "unat p mod 4 < 4" "unat p div 4 < 1073741824" using lt by simp_all
    then have "4294967300 - unat p = 4 * (1073741824 - unat p div 4) + (4 - unat p mod 4)" by linarith
    moreover have "unat (4 - p) = 4294967300 - unat p" using False by (simp add: unat_sub_if')
    ultimately show ?thesis by (simp only: mod_mult_self4)
  qed
  then have "unat ((4 - p) AND 3) = (4 - unat p mod 4) mod 4" by (simp only: and3)
  moreover have "(4 - unat p mod 4) mod 4 \<le> 3" by simp
  ultimately have "unat (align_up p) = unat p + (4 - unat p mod 4) mod 4"
    unfolding align_up_def using assms by (subst unat_small_add) simp_all
  then show ?thesis by (simp only: align4)
qed

definition block_end :: "nat \<Rightarrow> nat \<Rightarrow> nat" where
  "block_end p n = 4 * ((p + n + 44 + 3) div 4)"

lemma block_end: "p + n + 44 \<le> block_end p n" "block_end p n \<le> p + n + 47" "4 dvd block_end p n"
  unfolding block_end_def by presburger+

lemma unat_frame_end:
  assumes "unat p + n + 47 < 2 ^ 32"
  shows "unat (frame_end p (int n)) = block_end (unat p) n"
proof -
  have n: "unat (word_of_int (int n) :: cuint) = n" using assms by (simp add: unsigned_of_nat take_bit_nat_eq_self)
  have "unat (p + word_of_int (int n) + of_nat SHM_SIZE_OF_FRAME_HEAD) = unat p + n + 44"
    using assms n by (simp add: unat_small_add SHM_SIZE_OF_FRAME_HEAD_def)
  then show ?thesis using assms by (simp add: frame_end_def unat_align_up block_end_def)
qed

section \<open>Frames in the segment\<close>

record sframe =
  sf_data :: "byte list"
  sf_extras :: "byte list"
  sf_seq :: cuint
  sf_prev :: cuint

definition frame_bytes :: "sframe \<Rightarrow> cuint \<Rightarrow> byte list" where
  "frame_bytes f next = le32 SHM_FRAME_MAGIC_NUM @ le32 (sf_prev f) @ le32 next @ le32 (sf_seq f) @
     le32 (word_of_nat (length (sf_data f))) @ sf_extras f @ sf_data f"

definition stored :: "byte list \<Rightarrow> nat \<Rightarrow> sframe \<Rightarrow> cuint \<Rightarrow> bool" where
  "stored m p f next \<longleftrightarrow> length (sf_extras f) = 24 \<and> p + 44 + length (sf_data f) \<le> length m \<and>
     slice p (44 + length (sf_data f)) m = frame_bytes f next"

lemma stored_slice:
  assumes "stored m p f next" "k + n \<le> 44 + length (sf_data f)"
  shows "slice (p + k) n m = slice k n (frame_bytes f next)"
proof -
  have "slice (p + k) n m = slice k n (slice p (44 + length (sf_data f)) m)"
    using assms(2) by (simp add: slice_slice)
  then show ?thesis using assms(1) by (simp add: stored_def)
qed

lemma stored_fields:
  assumes s: "stored m (unat p) f next" and l: "length (sf_data f) < 2 ^ 31"
  shows "uiMagic m p = SHM_FRAME_MAGIC_NUM" "uiPrevFramePos m p = sf_prev f" "uiNextFramePos m p = next"
    "uiSequence m p = sf_seq f" "iFrameSize m p = int (length (sf_data f))" "carrExtras m p = sf_extras f"
    "slice (unat p + 44) (length (sf_data f)) m = sf_data f"
    "head_in_mem m p" "in_mem m (unat p) (SHM_SIZE_OF_FRAME_HEAD + length (sf_data f))"
proof -
  have x: "length (sf_extras f) = 24" using s by (simp add: stored_def)
  note at = stored_slice [OF s]
  have le: "slice k 4 (xs @ le32 v @ ys) = le32 v" if "length xs = k" for k xs v and ys :: "byte list"
    using that by (simp add: slice_def)
  show "uiMagic m p = SHM_FRAME_MAGIC_NUM"
    using at [of 0 4] by (simp add: uiMagic_def rd32_def frame_bytes_def le [of "[]" 0, simplified])
  show "uiPrevFramePos m p = sf_prev f"
    using at [of 4 4] by (simp add: uiPrevFramePos_def rd32_def frame_bytes_def le)
  show "uiNextFramePos m p = next"
    using at [of 8 4] le [of "le32 SHM_FRAME_MAGIC_NUM @ le32 (sf_prev f)" 8]
    by (simp add: uiNextFramePos_def rd32_def frame_bytes_def)
  show "uiSequence m p = sf_seq f"
    using at [of 12 4] le [of "le32 SHM_FRAME_MAGIC_NUM @ le32 (sf_prev f) @ le32 next" 12]
    by (simp add: uiSequence_def rd32_def frame_bytes_def)
  have "sint (word_of_nat (length (sf_data f)) :: cuint) = int (length (sf_data f))"
    using sint_of_int32 [of "int (length (sf_data f))"] l by (simp add: in_int32_def)
  then show "iFrameSize m p = int (length (sf_data f))"
    using at [of 16 4] le [of "le32 SHM_FRAME_MAGIC_NUM @ le32 (sf_prev f) @ le32 next @ le32 (sf_seq f)" 16]
    by (simp add: iFrameSize_def rd32_def frame_bytes_def)
  show "carrExtras m p = sf_extras f"
    using at [of 20 24] x by (simp add: carrExtras_def SHM_SIZE_OF_FRAME_EXTRAS_def frame_bytes_def slice_def)
  show "slice (unat p + 44) (length (sf_data f)) m = sf_data f"
    using at [of 44 "length (sf_data f)"] x by (simp add: frame_bytes_def slice_def)
  show "head_in_mem m p" "in_mem m (unat p) (SHM_SIZE_OF_FRAME_HEAD + length (sf_data f))"
    using s by (simp_all add: stored_def head_in_mem_def in_mem_def SHM_SIZE_OF_FRAME_HEAD_def)
qed

text \<open>A frame keeps its place as long as its bytes are not written.\<close>

lemma stored_keep:
  "stored m p f next \<Longrightarrow> slice p (44 + length (sf_data f)) m' = slice p (44 + length (sf_data f)) m \<Longrightarrow>
   length m' = length m \<Longrightarrow> stored m' p f next"
  by (simp add: stored_def)

lemma stored_turn:
  assumes s: "stored m p f next"
  shows "stored (wr32 (p + 8) next' m) p f next'"
proof -
  let ?n = "length (sf_data f)"
  have b: "p + 44 + ?n \<le> length m" and x: "length (sf_extras f) = 24" using s by (simp_all add: stored_def)
  have split: "slice p (44 + ?n) M = slice p 8 M @ slice (p + 8) 4 M @ slice (p + 12) (32 + ?n) M" for M :: "byte list"
    using slice_add [of p 8 "36 + ?n" M] slice_add [of "p + 8" 4 "32 + ?n" M] by (simp add: add.assoc)
  have "slice p 8 m = le32 SHM_FRAME_MAGIC_NUM @ le32 (sf_prev f)"
    using stored_slice [OF s, of 0 8] by (simp add: frame_bytes_def slice_def)
  moreover have "slice (p + 12) (32 + ?n) m = le32 (sf_seq f) @ le32 (word_of_nat ?n) @ sf_extras f @ sf_data f"
    using stored_slice [OF s, of 12 "32 + ?n"] x by (simp add: frame_bytes_def slice_def)
  ultimately show ?thesis
    using b x by (simp add: stored_def split [of "wr32 (p + 8) next' m"] mem_simps frame_bytes_def)
qed

text \<open>The effect of the writes of one frame.\<close>

definition apart :: "nat \<Rightarrow> nat \<Rightarrow> nat \<Rightarrow> nat \<Rightarrow> bool" where
  "apart a n b k \<longleftrightarrow> a + n \<le> b \<or> b + k \<le> a"

lemma put_frame_effect:
  fixes seq :: cuint
  assumes p: "52 \<le> unat pos" "unat pos + 44 + length data \<le> length m" and x: "length extras = 24"
    and n: "52 \<le> unat next" "unat next + 44 \<le> length m" "apart (unat pos) (44 + length data) (unat next) 44"
    and mg: "head_magic m = SHM_FRAME_MAGIC_NUM"
  defines "m' \<equiv> put_frame pos next seq data extras m"
    and "f \<equiv> \<lparr>sf_data = data, sf_extras = extras, sf_seq = seq, sf_prev = uiNewestFramePos m\<rparr>"
  shows "length m' = length m" "stored m' (unat pos) f next" "rd32 (unat next) m' = 0"
    "uiNewestFramePos m' = pos" "uiNewestFrameSeq m' = seq" "head_magic m' = SHM_FRAME_MAGIC_NUM"
    "iMaxFrameSize m' = iMaxFrameSize m"
    "apart a k (unat pos) (44 + length data) \<Longrightarrow> apart a k (unat next) 44 \<Longrightarrow> 12 \<le> a \<Longrightarrow> slice a k m' = slice a k m"
proof -
  let ?P = "unat pos" and ?N = "unat next" and ?L = "length data"
  let ?np = "uiNewestFramePos m"
  have h [simp]: "SHM_SIZE_OF_FRAME_HEAD = 44" by (simp add: SHM_SIZE_OF_FRAME_HEAD_def)
  define m1 where "m1 = put_at (?P + 44) data m"
  define m2 where "m2 = put_at ?N (replicate 44 0) m1"
  define m3 where "m3 = wr32 (?P + 8) next (wr32 (?P + 12) seq (wr32 (?P + 16) (word_of_nat ?L) m2))"
  define m4 where "m4 = put_at (?P + 20) extras (wr32 ?P SHM_FRAME_MAGIC_NUM (wr32 (?P + 4) ?np m3))"
  have l1: "length m1 = length m" using p by (simp add: m1_def mem_simps)
  have l2: "length m2 = length m" using n l1 by (simp add: m2_def mem_simps)
  have l3: "length m3 = length m" using p l2 by (simp add: m3_def mem_simps)
  have l4: "length m4 = length m" using p x l3 by (simp add: m4_def mem_simps)
  have np: "rd32 4 m3 = ?np" "rd32 0 (wr32 (?P + 4) ?np m3) = SHM_FRAME_MAGIC_NUM"
    using p n mg l1 l2 l3
    by (simp_all add: m3_def m2_def m1_def rd32_def uiNewestFramePos_def head_magic_def mem_simps)
  have m': "m' = wr32 8 seq (wr32 4 pos m4)"
    by (simp add: m'_def put_frame_def Let_def uiNewestFramePos_def head_magic_def np [unfolded m3_def m2_def m1_def uiNewestFramePos_def]
        m4_def m3_def m2_def m1_def)
  show len: "length m' = length m" using p l4 by (simp add: m' mem_simps)
  have keep: "slice a k m' = slice a k m"
    if "apart a k ?P (44 + ?L)" "apart a k ?N 44" "a + k \<le> 4 \<or> 12 \<le> a" for a k
  proof -
    have "slice a k m' = slice a k m4"
      using that(3) p l4 by (auto simp: m' mem_simps)
    also have "\<dots> = slice a k m3"
      using that(1) p x l3 by (auto simp: m4_def mem_simps apart_def)
    also have "\<dots> = slice a k m2"
      using that(1) p l2 by (auto simp: m3_def mem_simps apart_def)
    also have "\<dots> = slice a k m1"
      using that(2) n l1 by (auto simp: m2_def mem_simps apart_def)
    also have "\<dots> = slice a k m"
      using that(1) p by (auto simp: m1_def mem_simps apart_def)
    finally show ?thesis .
  qed
  then show "apart a k ?P (44 + ?L) \<Longrightarrow> apart a k ?N 44 \<Longrightarrow> 12 \<le> a \<Longrightarrow> slice a k m' = slice a k m" by simp
  show "head_magic m' = SHM_FRAME_MAGIC_NUM" "iMaxFrameSize m' = iMaxFrameSize m"
    using keep [of 0 4] keep [of 12 4] mg p n by (simp_all add: head_magic_def iMaxFrameSize_def rd32_def apart_def)
  show "uiNewestFramePos m' = pos" "uiNewestFrameSeq m' = seq"
    using p l4 by (simp_all add: m' uiNewestFramePos_def uiNewestFrameSeq_def rd32_def mem_simps)
  have "slice ?N 4 m' = slice ?N 4 m2"
    using n p l2 l3 l4 x by (auto simp: m' m4_def m3_def mem_simps apart_def)
  also have "\<dots> = slice 0 4 (slice ?N 44 m2)" by (simp add: slice_slice)
  also have "\<dots> = replicate 4 0"
    using n l1 by (simp add: m2_def mem_simps) (simp add: slice_def)
  finally show "rd32 ?N m' = 0" by (simp add: rd32_def numeral_eq_Suc)
  have top: "slice a k m' = slice a k m4" if "12 \<le> a" for a k
    using that p l4 by (simp add: m' mem_simps)
  have body: "slice (?P + 44) ?L m' = data"
    using n p l1 l2 l3 x by (auto simp: top m4_def m3_def m2_def m1_def mem_simps apart_def)
  have ex: "slice (?P + 20) 24 m' = extras" using p l3 x by (simp add: top m4_def mem_simps)
  have words: "slice ?P 4 m' = le32 SHM_FRAME_MAGIC_NUM" "slice (?P + 4) 4 m' = le32 ?np"
    "slice (?P + 8) 4 m' = le32 next" "slice (?P + 12) 4 m' = le32 seq"
    "slice (?P + 16) 4 m' = le32 (word_of_nat ?L)"
    using p l2 l3 x by (simp_all add: top m4_def mem_simps, simp_all add: m3_def mem_simps)
  have "slice ?P (44 + ?L) m' = slice ?P 4 m' @ slice (?P + 4) 4 m' @ slice (?P + 8) 4 m' @ slice (?P + 12) 4 m' @
      slice (?P + 16) 4 m' @ slice (?P + 20) 24 m' @ slice (?P + 44) ?L m'"
    using slice_add [of ?P 4 "40 + ?L" m'] slice_add [of "?P + 4" 4 "36 + ?L" m'] slice_add [of "?P + 8" 4 "32 + ?L" m']
      slice_add [of "?P + 12" 4 "28 + ?L" m'] slice_add [of "?P + 16" 4 "24 + ?L" m'] slice_add [of "?P + 20" 24 ?L m']
    by (simp add: add.assoc)
  then show "stored m' ?P f next"
    using p x len by (simp add: stored_def f_def frame_bytes_def words ex body)
qed

section \<open>The layout of the segment\<close>

text \<open>
  The frames in the segment with their places: \<open>cur\<close> the lap the writer is in, up to its position, \<open>old\<close>
  what is left of the lap before, behind the head the writer has cleared in advance. \<open>packed a fs b\<close>: the
  frames follow each other, apart, between \<open>a\<close> and \<open>b\<close>.
\<close>

type_synonym placed = "(nat \<times> sframe) list"

fun packed :: "nat \<Rightarrow> placed \<Rightarrow> nat \<Rightarrow> bool" where
  "packed a [] b \<longleftrightarrow> a \<le> b"
| "packed a ((p, f) # fs) b \<longleftrightarrow> a \<le> p \<and> 4 dvd p \<and> 0 < length (sf_data f) \<and> packed (p + 44 + length (sf_data f)) fs b"

fun linked :: "byte list \<Rightarrow> placed \<Rightarrow> cuint \<Rightarrow> bool" where
  "linked m [] e \<longleftrightarrow> True"
| "linked m ((p, f) # fs) e \<longleftrightarrow>
     stored m p f (case fs of [] \<Rightarrow> e | (q, _) # _ \<Rightarrow> word_of_nat q) \<and> linked m fs e"

definition numbered :: "cuint \<Rightarrow> placed \<Rightarrow> bool" where
  "numbered newest fs \<longleftrightarrow> (\<forall>i < length fs. unat (sf_seq (snd (fs ! i))) + (length fs - i) = unat newest + 1)"

definition back_linked :: "placed \<Rightarrow> bool" where
  "back_linked fs \<longleftrightarrow> (\<forall>i. Suc i < length fs \<longrightarrow> sf_prev (snd (fs ! Suc i)) = word_of_nat (fst (fs ! i)))"

lemma back_linked_code [code]:
  "back_linked fs \<longleftrightarrow> (\<forall>i < length fs - 1. sf_prev (snd (fs ! Suc i)) = word_of_nat (fst (fs ! i)))"
  by (auto simp: back_linked_def)

definition ring_config :: "shm_obj \<Rightarrow> bool" where
  "ring_config w \<longleftrightarrow>
     (let m = m_pcShm w in
      m_iShmSize w = int (length m) \<and> length m < 2 ^ 31 \<and> head_magic m = SHM_FRAME_MAGIC_NUM \<and>
      0 \<le> iMaxFrameSize m \<and> 2 * iMaxFrameSize m + 240 \<le> int (length m))"

definition ring_inv :: "shm_obj \<Rightarrow> placed \<Rightarrow> placed \<Rightarrow> bool" where
  "ring_inv w old cur \<longleftrightarrow> ring_config w \<and>
     (let m = m_pcShm w; p = unat (m_uiFramePos w); held = old @ cur in
      4 dvd p \<and> 52 \<le> p \<and> p + 44 \<le> length m \<and> rd32 p m \<noteq> SHM_FRAME_MAGIC_NUM \<and>
      packed 52 cur p \<and> packed (p + 44) old (length m) \<and>
      (if cur = [] then p = 52 else fst (hd cur) = 52) \<and>
      linked m held (m_uiFramePos w) \<and> numbered (m_uiFrameSeq w) held \<and> back_linked held \<and>
      uiNewestFrameSeq m = m_uiFrameSeq w \<and> unat (m_uiFrameSeq w) < 2 ^ 32 - 2 \<and>
      uiNewestFramePos m = (if held = [] then 52 else word_of_nat (fst (last held))) \<and>
      (held = [] \<longleftrightarrow> m_uiFrameSeq w = 0))"

lemma packed_bounds:
  "packed a fs b \<Longrightarrow> (p, f) \<in> set fs \<Longrightarrow> a \<le> p \<and> 4 dvd p \<and> 0 < length (sf_data f) \<and> p + 44 + length (sf_data f) \<le> b"
proof (induction fs arbitrary: a)
  case (Cons x fs)
  obtain q g where x: "x = (q, g)" by (cases x)
  have b: "packed c gs b \<Longrightarrow> c \<le> b" for c gs by (induction c gs b rule: packed.induct) auto
  show ?case
  proof (cases "(p, f) = (q, g)")
    case True
    then show ?thesis using Cons.prems(1) b [of "q + 44 + length (sf_data g)" fs] by (auto simp: x)
  next
    case False
    then have "(p, f) \<in> set fs" using Cons.prems(2) x by auto
    then show ?thesis using Cons.IH [of "q + 44 + length (sf_data g)"] Cons.prems(1) by (auto simp: x)
  qed
qed simp

lemma packed_le: "packed a fs b \<Longrightarrow> a \<le> b"
  by (induction a fs b rule: packed.induct) auto

lemma packed_weaken: "packed a fs b \<Longrightarrow> a' \<le> a \<Longrightarrow> b \<le> b' \<Longrightarrow> packed a' fs b'"
  by (induction a fs b arbitrary: a' rule: packed.induct) auto

lemma packed_append:
  "packed a (fs @ gs) c \<longleftrightarrow> (\<exists>b. packed a fs b \<and> packed b gs c)"
proof (induction fs arbitrary: a)
  case Nil
  have "packed a gs c" if "a \<le> b" "packed b gs c" for b
    by (rule packed_weaken [OF that(2,1) order_refl])
  then show ?case by auto
next
  case (Cons x fs)
  then show ?case by (cases x) auto
qed

lemma packed_snoc:
  "packed a (fs @ [(p, f)]) c \<longleftrightarrow> packed a fs p \<and> 4 dvd p \<and> 0 < length (sf_data f) \<and> p + 44 + length (sf_data f) \<le> c"
proof
  assume "packed a (fs @ [(p, f)]) c"
  then obtain b where "packed a fs b" "b \<le> p" "4 dvd p" "0 < length (sf_data f)" "p + 44 + length (sf_data f) \<le> c"
    by (auto simp: packed_append)
  then show "packed a fs p \<and> 4 dvd p \<and> 0 < length (sf_data f) \<and> p + 44 + length (sf_data f) \<le> c"
    using packed_weaken [of a fs b a p] by simp
qed (auto simp: packed_append)

text \<open>The frames behind a position are the last ones.\<close>

definition behind :: "nat \<Rightarrow> placed \<Rightarrow> placed" where
  "behind c fs = filter (\<lambda>x. c \<le> fst x) fs"

lemma behind_suffix:
  "packed a fs b \<Longrightarrow> \<exists>lost. fs = lost @ behind c fs"
proof (induction fs arbitrary: a)
  case (Cons x fs)
  obtain p f where x: "x = (p, f)" by (cases x)
  show ?case
  proof (cases "c \<le> p")
    case True
    have "\<forall>y \<in> set fs. c \<le> fst y"
      using Cons.prems True by (auto simp: x dest: packed_bounds)
    then have "behind c (x # fs) = x # fs" using True by (simp add: behind_def x filter_id_conv)
    then show ?thesis by simp
  next
    case False
    obtain lost where "fs = lost @ behind c fs" using Cons x by auto
    then have "x # fs = (x # lost) @ behind c (x # fs)" using False by (simp add: behind_def x)
    then show ?thesis by blast
  qed
qed (simp add: behind_def)

lemma packed_behind: "packed a fs b \<Longrightarrow> c \<le> b \<Longrightarrow> packed c (behind c fs) b"
proof (induction fs arbitrary: a)
  case (Cons x fs)
  obtain p f where x: "x = (p, f)" by (cases x)
  show ?case
  proof (cases "c \<le> p")
    case True
    have "\<forall>y \<in> set fs. c \<le> fst y"
      using Cons.prems True by (auto simp: x dest: packed_bounds)
    then have "behind c (x # fs) = x # fs" using True by (simp add: behind_def x filter_id_conv)
    then show ?thesis using Cons.prems True x by simp
  next
    case False
    then show ?thesis using Cons x by (auto simp: behind_def)
  qed
qed (simp add: behind_def)

lemma behind_all: "packed a fs b \<Longrightarrow> c \<le> a \<Longrightarrow> behind c fs = fs"
  by (auto simp: behind_def filter_id_conv dest: packed_bounds)

text \<open>Links.\<close>

lemma linked_append:
  "linked m (fs @ gs) e \<longleftrightarrow> linked m fs (case gs of [] \<Rightarrow> e | (q, _) # _ \<Rightarrow> word_of_nat q) \<and> linked m gs e"
proof (induction fs)
  case (Cons x fs)
  then show ?case by (cases x; cases fs) (auto split: list.splits)
qed simp

lemma linked_keep:
  "linked m fs e \<Longrightarrow>
   (\<And>p f n. (p, f) \<in> set fs \<Longrightarrow> stored m p f n \<Longrightarrow> stored m' p f n) \<Longrightarrow> linked m' fs e"
  by (induction m fs e rule: linked.induct) auto

lemma linked_stored:
  "linked m fs e \<Longrightarrow> i < length fs \<Longrightarrow> fs ! i = (p, f) \<Longrightarrow>
   stored m p f (if Suc i < length fs then word_of_nat (fst (fs ! Suc i)) else e)"
proof (induction m fs e arbitrary: i rule: linked.induct)
  case (2 m q g fs e)
  show ?case
  proof (cases i)
    case 0
    then show ?thesis using 2 by (cases fs) auto
  next
    case (Suc j)
    then show ?thesis using 2(1) [of j] 2(2-) by (simp split: if_splits)
  qed
qed simp

text \<open>Numbering.\<close>

lemma numbered_suffix: "numbered s (fs @ gs) \<Longrightarrow> numbered s gs"
  unfolding numbered_def
proof (intro allI impI)
  fix i assume a: "\<forall>i<length (fs @ gs). unat (sf_seq (snd ((fs @ gs) ! i))) + (length (fs @ gs) - i) = unat s + 1"
    and i: "i < length gs"
  show "unat (sf_seq (snd (gs ! i))) + (length gs - i) = unat s + 1"
    using a [rule_format, of "length fs + i"] i by (simp add: nth_append)
qed

lemma numbered_snoc:
  "numbered s fs \<Longrightarrow> unat s' = unat s + 1 \<Longrightarrow> sf_seq f = s' \<Longrightarrow> numbered s' (fs @ [(p, f)])"
  by (auto simp: numbered_def nth_append less_Suc_eq Suc_diff_le)

lemma back_linked_suffix: "back_linked (fs @ gs) \<Longrightarrow> back_linked gs"
  unfolding back_linked_def
proof (intro allI impI)
  fix i assume a: "\<forall>i. Suc i < length (fs @ gs) \<longrightarrow>
      sf_prev (snd ((fs @ gs) ! Suc i)) = word_of_nat (fst ((fs @ gs) ! i))" and i: "Suc i < length gs"
  show "sf_prev (snd (gs ! Suc i)) = word_of_nat (fst (gs ! i))"
    using a [rule_format, of "length fs + i"] i by (simp add: nth_append)
qed

lemma back_linked_snoc:
  "back_linked fs \<Longrightarrow> (fs \<noteq> [] \<longrightarrow> sf_prev f = word_of_nat (fst (last fs))) \<Longrightarrow> back_linked (fs @ [(p, f)])"
  unfolding back_linked_def
proof (intro allI impI)
  fix i assume a: "\<forall>i. Suc i < length fs \<longrightarrow> sf_prev (snd (fs ! Suc i)) = word_of_nat (fst (fs ! i))"
    and f: "fs \<noteq> [] \<longrightarrow> sf_prev f = word_of_nat (fst (last fs))" and i: "Suc i < length (fs @ [(p, f)])"
  show "sf_prev (snd ((fs @ [(p, f)]) ! Suc i)) = word_of_nat (fst ((fs @ [(p, f)]) ! i))"
  proof (cases "Suc i < length fs")
    case True
    then show ?thesis using a by (simp add: nth_append)
  next
    case False
    then have "Suc i = length fs" using i by simp
    then have "i = length fs - 1" "fs \<noteq> []" by auto
    then show ?thesis using f \<open>Suc i = length fs\<close> by (simp add: nth_append last_conv_nth)
  qed
qed

section \<open>Writing\<close>

text \<open>Storing a frame behind the frames that are kept.\<close>

lemma install:
  fixes seq :: cuint and kept :: placed
  assumes lk: "linked m kept pos" and num: "numbered s kept" and bl: "back_linked kept"
    and np: "kept \<noteq> [] \<longrightarrow> uiNewestFramePos m = word_of_nat (fst (last kept))"
    and seq: "unat seq = unat s + 1"
    and ap: "\<And>p f. (p, f) \<in> set kept \<Longrightarrow> 52 \<le> p \<and> apart p (44 + length (sf_data f)) (unat pos) (44 + length data) \<and>
               apart p (44 + length (sf_data f)) (unat next) 44"
    and p: "52 \<le> unat pos" "unat pos + 44 + length data \<le> length m" and x: "length extras = 24"
    and n: "52 \<le> unat next" "unat next + 44 \<le> length m" "apart (unat pos) (44 + length data) (unat next) 44"
    and mg: "head_magic m = SHM_FRAME_MAGIC_NUM"
  defines "m' \<equiv> put_frame pos next seq data extras m"
    and "f \<equiv> \<lparr>sf_data = data, sf_extras = extras, sf_seq = seq, sf_prev = uiNewestFramePos m\<rparr>"
  shows "linked m' (kept @ [(unat pos, f)]) next" "numbered seq (kept @ [(unat pos, f)])"
    "back_linked (kept @ [(unat pos, f)])"
proof -
  note eff = put_frame_effect [OF p x n mg, where seq = seq, folded m'_def f_def]
  have "linked m' kept pos"
  proof (rule linked_keep [OF lk])
    fix q g k assume q: "(q, g) \<in> set kept" "stored m q g k"
    then show "stored m' q g k"
      using stored_keep [OF q(2), of m'] eff(1) eff(8) [of q "44 + length (sf_data g)"] ap [OF q(1)] by simp
  qed
  then show "linked m' (kept @ [(unat pos, f)]) next" using eff(2) by (simp add: linked_append)
  show "numbered seq (kept @ [(unat pos, f)])" by (rule numbered_snoc [OF num seq]) (simp add: f_def)
  show "back_linked (kept @ [(unat pos, f)])" by (rule back_linked_snoc [OF bl]) (use np in \<open>simp add: f_def\<close>)
qed

text \<open>Where \<open>place_frame\<close> puts a frame.\<close>

definition turned :: "shm_obj \<Rightarrow> byte list" where
  "turned w = wr32 (unat (uiNewestFramePos (m_pcShm w)) + 8) SHM_FRAME_START_POSITION (m_pcShm w)"

lemma place_cases:
  fixes L :: nat
  assumes c: "ring_config w" and P: "unat (m_uiFramePos w) + 44 \<le> length (m_pcShm w)"
    and L: "int L \<le> iMaxFrameSize (m_pcShm w)" and np: "head_in_mem (m_pcShm w) (uiNewestFramePos (m_pcShm w))"
  defines "N \<equiv> length (m_pcShm w)" and "n \<equiv> block_end (unat (m_uiFramePos w)) L"
  obtains (room) nx where "place_frame (int L) w = Some (m_uiFramePos w, nx, m_pcShm w)" "unat nx = n" "n + 44 < N"
  | (last) "place_frame (int L) w = Some (m_uiFramePos w, SHM_FRAME_START_POSITION, m_pcShm w)" "n < N" "N \<le> n + 44"
  | (wrap) nx where "place_frame (int L) w = Some (SHM_FRAME_START_POSITION, nx, turned w)" "unat nx = block_end 52 L" "N \<le> n"
proof -
  have N: "m_iShmSize w = int N" "N < 2 ^ 31" "2 * L + 240 \<le> N"
    using c L by (simp_all add: ring_config_def N_def Let_def)
  have P': "unat (m_uiFramePos w) + 44 \<le> N" using P by (simp add: N_def)
  have e: "unat (frame_end (m_uiFramePos w) (int L)) = n"
    unfolding n_def by (rule unat_frame_end) (use N P' in auto)
  have s: "unat (SHM_FRAME_START_POSITION) = 52" by (simp add: SHM_FRAME_START_POSITION_def)
  have e1: "unat (frame_end SHM_FRAME_START_POSITION (int L)) = block_end 52 L"
    using unat_frame_end [of SHM_FRAME_START_POSITION L] N s by simp
  have sz: "unat (word_of_int (m_iShmSize w) :: cuint) = N"
    using N by (simp add: unsigned_of_nat take_bit_nat_eq_self)
  have n: "n \<le> unat (m_uiFramePos w) + L + 47" using block_end(2) by (simp add: n_def)
  have e44: "unat (frame_end (m_uiFramePos w) (int L) + of_nat SHM_SIZE_OF_FRAME_HEAD) = n + 44" 
    using N P' n e by (subst unat_small_add) (simp_all add: SHM_SIZE_OF_FRAME_HEAD_def)
  consider "N \<le> n" | "n < N" "N \<le> n + 44" | "n + 44 < N" by linarith
  then show ?thesis
  proof cases
    case 1
    then show ?thesis
      using wrap [of "frame_end SHM_FRAME_START_POSITION (int L)"] e1 np sz e
      by (simp add: place_frame_def turned_def Let_def word_le_nat_alt)
  next
    case 2
    then show ?thesis
      using last sz e e44 by (simp add: place_frame_def Let_def word_le_nat_alt)
  next
    case 3
    then show ?thesis
      using room [of "frame_end (m_uiFramePos w) (int L)"] sz e e44 by (simp add: place_frame_def Let_def word_le_nat_alt)
  qed
qed

definition written :: "cuint \<Rightarrow> cuint \<Rightarrow> byte list \<Rightarrow> byte list \<Rightarrow> byte list \<Rightarrow> shm_obj \<Rightarrow> shm_obj" where
  "written pos next m data extras w =
     w\<lparr>m_pcShm := put_frame pos next (m_uiFrameSeq w + 1) data extras m, m_uiFramePos := next,
       m_uiFrameSeq := m_uiFrameSeq w + 1\<rparr>"

definition new_frame :: "byte list \<Rightarrow> byte list \<Rightarrow> shm_obj \<Rightarrow> sframe" where
  "new_frame data extras w = \<lparr>sf_data = data, sf_extras = extras, sf_seq = m_uiFrameSeq w + 1,
     sf_prev = uiNewestFramePos (m_pcShm w)\<rparr>"

lemma seq_succ:
  "unat (s :: cuint) + 1 < 2 ^ 32 - 2 \<Longrightarrow> unat (s + 1) = unat s + 1 \<and> next_seq s = s + 1"
proof -
  assume s: "unat s + 1 < 2 ^ 32 - 2"
  then have "unat (s + 1) = unat s + 1" by (subst unat_small_add) simp_all
  then show ?thesis using s by (simp add: next_seq_def SHM_FRAME_MAX_SEQUENCE_def word_le_nat_alt)
qed

lemma WriteFrame_placed:
  assumes "data \<noteq> []" "int (length data) \<le> iMaxFrameSize (m_pcShm w)" "length extras = 24"
    and "unat (m_uiFrameSeq w) + 1 < 2 ^ 32 - 2" "place_frame (int (length data)) w = Some (pos, next, m)"
    and "unat pos + 44 + length data \<le> length m" "unat next + 44 \<le> length m"
  shows "WriteFrame data (int (length data)) extras w = Some (SHM_ENUM_OK, written pos next m data extras w)"
  using assms
  by (simp add: WriteFrame_def written_def seq_succ in_mem_def head_in_mem_def SHM_SIZE_OF_FRAME_HEAD_def
      SHM_SIZE_OF_FRAME_EXTRAS_def Let_def)

lemma written_inv:
  fixes kept :: placed
  assumes c: "ring_config w"
    and m: "length m = length (m_pcShm w)" "iMaxFrameSize m = iMaxFrameSize (m_pcShm w)"
      "head_magic m = SHM_FRAME_MAGIC_NUM" "uiNewestFramePos m = uiNewestFramePos (m_pcShm w)"
    and lk: "linked m kept pos" and num: "numbered (m_uiFrameSeq w) kept" and bl: "back_linked kept"
    and np: "kept \<noteq> [] \<longrightarrow> uiNewestFramePos m = word_of_nat (fst (last kept))"
    and seq: "unat (m_uiFrameSeq w) + 1 < 2 ^ 32 - 2"
    and ap: "\<And>p f. (p, f) \<in> set kept \<Longrightarrow> 52 \<le> p \<and> apart p (44 + length (sf_data f)) (unat pos) (44 + length data) \<and>
               apart p (44 + length (sf_data f)) (unat next) 44"
    and p: "52 \<le> unat pos" "unat pos + 44 + length data \<le> length m" and x: "length extras = 24"
    and n: "52 \<le> unat next" "unat next + 44 \<le> length m" "apart (unat pos) (44 + length data) (unat next) 44"
      "4 dvd unat next"
    and split: "old' @ cur' = kept @ [(unat pos, new_frame data extras w)]"
    and pack: "packed 52 cur' (unat next)" "packed (unat next + 44) old' (length m)"
    and start: "if cur' = [] then unat next = 52 else fst (hd cur') = 52"
  shows "ring_inv (written pos next m data extras w) old' cur'"
proof -
  have s: "unat (m_uiFrameSeq w + 1) = unat (m_uiFrameSeq w) + 1" using seq_succ [OF seq] by simp
  note eff = put_frame_effect [OF p x n(1-3) m(3), where seq = "m_uiFrameSeq w + 1", unfolded m(4), folded new_frame_def]
  note ins = install [OF lk num bl np s ap p x n(1-3) m(3), unfolded m(4), folded new_frame_def]
  have "ring_config (written pos next m data extras w)"
    using c eff(1,6,7) m by (simp add: ring_config_def written_def Let_def)
  moreover have "m_uiFrameSeq w + 1 \<noteq> 0" using s by (metis Suc_eq_plus1 nat.distinct(1) unat_0)
  moreover have "old' @ cur' \<noteq> []" "last (old' @ cur') = (unat pos, new_frame data extras w)"
    unfolding split by simp_all
  moreover have "unat (m_uiFrameSeq w + 1) < 2 ^ 32 - 2" using s seq by simp
  ultimately show ?thesis
    unfolding ring_inv_def Let_def split
    using ins eff(1,3-5) n pack start m(1) split
    by (simp add: written_def SHM_FRAME_MAGIC_NUM_def)
qed

text \<open>The three ways a write goes.\<close>

lemma linked_suffix: "linked m (fs @ gs) e \<Longrightarrow> linked m gs e"
  by (simp add: linked_append)

lemma np_suffix:
  "(if fs @ gs = [] then a = 52 else a = word_of_nat (fst (last (fs @ gs)))) \<Longrightarrow> gs \<noteq> [] \<Longrightarrow>
   a = word_of_nat (fst (last gs))"
  by simp

lemma behind_packed_apart:
  "packed a fs b \<Longrightarrow> (p, f) \<in> set (behind c fs) \<Longrightarrow>
   c \<le> p \<and> (p, f) \<in> set fs \<and> p + 44 + length (sf_data f) \<le> b"
  by (auto simp: behind_def dest: packed_bounds)

lemma ring_invD:
  assumes "ring_inv w old cur"
  shows "ring_config w" "4 dvd unat (m_uiFramePos w)" "52 \<le> unat (m_uiFramePos w)"
    "unat (m_uiFramePos w) + 44 \<le> length (m_pcShm w)" "rd32 (unat (m_uiFramePos w)) (m_pcShm w) \<noteq> SHM_FRAME_MAGIC_NUM"
    "packed 52 cur (unat (m_uiFramePos w))" "packed (unat (m_uiFramePos w) + 44) old (length (m_pcShm w))"
    "if cur = [] then unat (m_uiFramePos w) = 52 else fst (hd cur) = 52"
    "linked (m_pcShm w) (old @ cur) (m_uiFramePos w)" "numbered (m_uiFrameSeq w) (old @ cur)" "back_linked (old @ cur)"
    "uiNewestFrameSeq (m_pcShm w) = m_uiFrameSeq w" "unat (m_uiFrameSeq w) < 2 ^ 32 - 2"
    "uiNewestFramePos (m_pcShm w) = (if old @ cur = [] then 52 else word_of_nat (fst (last (old @ cur))))"
    "old @ cur = [] \<longleftrightarrow> m_uiFrameSeq w = 0"
    "head_magic (m_pcShm w) = SHM_FRAME_MAGIC_NUM" "length (m_pcShm w) < 2 ^ 31"
    "m_iShmSize w = int (length (m_pcShm w))" "2 * iMaxFrameSize (m_pcShm w) + 240 \<le> int (length (m_pcShm w))"
    "0 \<le> iMaxFrameSize (m_pcShm w)"
  using assms by (simp_all add: ring_inv_def ring_config_def Let_def split: if_splits)

lemma write_room:
  assumes inv: "ring_inv w old cur" and d: "data \<noteq> []" "length extras = 24"
    and seq: "unat (m_uiFrameSeq w) + 1 < 2 ^ 32 - 2" and n: "unat next = block_end (unat (m_uiFramePos w)) (length data)"
    and room: "unat next + 44 < length (m_pcShm w)"
  defines "P \<equiv> unat (m_uiFramePos w)"
  shows "ring_inv (written (m_uiFramePos w) next (m_pcShm w) data extras w) (behind (unat next + 44) old)
      (cur @ [(P, new_frame data extras w)])"
proof -
  note I = ring_invD [OF inv, folded P_def]
  let ?kept = "behind (unat next + 44) old @ cur"
  have b: "P + length data + 44 \<le> unat next" "4 dvd unat next"
    using block_end [of P "length data"] n by (simp_all add: P_def)
  obtain lost where lost: "old = lost @ behind (unat next + 44) old" using behind_suffix [OF I(7)] by blast
  then have held: "old @ cur = lost @ ?kept" by (metis append.assoc)
  show ?thesis
  proof (rule written_inv [where kept = ?kept and pos = "m_uiFramePos w" and m = "m_pcShm w", folded P_def])
    show "linked (m_pcShm w) ?kept (m_uiFramePos w)" using I(9) unfolding held by (rule linked_suffix)
    show "numbered (m_uiFrameSeq w) ?kept" using I(10) unfolding held by (rule numbered_suffix)
    show "back_linked ?kept" using I(11) unfolding held by (rule back_linked_suffix)
    show "?kept \<noteq> [] \<longrightarrow> uiNewestFramePos (m_pcShm w) = word_of_nat (fst (last ?kept))"
      using I(14) unfolding held by auto
    fix q g assume "(q, g) \<in> set ?kept"
    then consider "(q, g) \<in> set (behind (unat next + 44) old)" | "(q, g) \<in> set cur" by auto
    then show "52 \<le> q \<and> apart q (44 + length (sf_data g)) P (44 + length data) \<and>
        apart q (44 + length (sf_data g)) (unat next) 44"
      by cases (use b I(3) in \<open>auto simp: apart_def dest: behind_packed_apart [OF I(7)] packed_bounds [OF I(6)]\<close>)
  next
    show "packed 52 (cur @ [(P, new_frame data extras w)]) (unat next)"
      using I(2,6) d(1) b by (simp add: packed_snoc new_frame_def)
    show "packed (unat next + 44) (behind (unat next + 44) old) (length (m_pcShm w))"
      using room by (intro packed_behind [OF I(7)]) simp
    show "if cur @ [(P, new_frame data extras w)] = [] then unat next = 52
        else fst (hd (cur @ [(P, new_frame data extras w)])) = 52"
      using I(8) by (cases cur) auto
  qed (use I b d seq room in \<open>auto simp: apart_def\<close>)
qed

lemma write_last:
  assumes inv: "ring_inv w old cur" and d: "data \<noteq> []" "length extras = 24"
    and len: "int (length data) \<le> iMaxFrameSize (m_pcShm w)"
    and seq: "unat (m_uiFrameSeq w) + 1 < 2 ^ 32 - 2"
    and n: "block_end (unat (m_uiFramePos w)) (length data) < length (m_pcShm w)"
      "length (m_pcShm w) \<le> block_end (unat (m_uiFramePos w)) (length data) + 44"
  defines "P \<equiv> unat (m_uiFramePos w)"
  shows "ring_inv (written (m_uiFramePos w) SHM_FRAME_START_POSITION (m_pcShm w) data extras w)
      (behind 96 cur @ [(P, new_frame data extras w)]) []"
proof -
  note I = ring_invD [OF inv, folded P_def]
  let ?kept = "behind 96 cur"
  have b: "P + length data + 44 \<le> length (m_pcShm w)" "96 \<le> P"
    using block_end [of P "length data"] n I(19) len by (simp_all add: P_def)
  have st: "unat SHM_FRAME_START_POSITION = 52" by (simp add: SHM_FRAME_START_POSITION_def)
  obtain lost where lost: "cur = lost @ ?kept" using behind_suffix [OF I(6)] by blast
  then have held: "old @ cur = (old @ lost) @ ?kept" by (metis append.assoc)
  show ?thesis
  proof (rule written_inv [where kept = ?kept and pos = "m_uiFramePos w" and m = "m_pcShm w", folded P_def])
    show "linked (m_pcShm w) ?kept (m_uiFramePos w)" using I(9) unfolding held by (rule linked_suffix)
    show "numbered (m_uiFrameSeq w) ?kept" using I(10) unfolding held by (rule numbered_suffix)
    show "back_linked ?kept" using I(11) unfolding held by (rule back_linked_suffix)
    show "?kept \<noteq> [] \<longrightarrow> uiNewestFramePos (m_pcShm w) = word_of_nat (fst (last ?kept))"
      using I(14) unfolding held by auto
    fix q g assume "(q, g) \<in> set ?kept"
    then show "52 \<le> q \<and> apart q (44 + length (sf_data g)) P (44 + length data) \<and>
        apart q (44 + length (sf_data g)) (unat SHM_FRAME_START_POSITION) 44"
      using behind_packed_apart [OF I(6), of q g 96] by (auto simp: apart_def st)
  next
    have "packed 96 ?kept P" using b by (intro packed_behind [OF I(6)])
    then show "packed (unat SHM_FRAME_START_POSITION + 44) (?kept @ [(P, new_frame data extras w)]) (length (m_pcShm w))"
      using I(2) b d(1) by (simp add: packed_snoc st new_frame_def)
  qed (use I b d seq in \<open>auto simp: apart_def st\<close>)
qed

lemma turned_facts:
  assumes "52 \<le> unat (uiNewestFramePos (m_pcShm w))" "unat (uiNewestFramePos (m_pcShm w)) + 12 \<le> length (m_pcShm w)"
  shows "length (turned w) = length (m_pcShm w)" "iMaxFrameSize (turned w) = iMaxFrameSize (m_pcShm w)"
    "head_magic (turned w) = head_magic (m_pcShm w)" "uiNewestFramePos (turned w) = uiNewestFramePos (m_pcShm w)"
    "apart a k (unat (uiNewestFramePos (m_pcShm w)) + 8) 4 \<Longrightarrow> slice a k (turned w) = slice a k (m_pcShm w)"
  using assms
  by (auto simp: turned_def iMaxFrameSize_def head_magic_def uiNewestFramePos_def rd32_def mem_simps apart_def)

lemma linked_turned:
  assumes lk: "linked (m_pcShm w) (xs @ [(q, g)]) e" and pk: "packed 52 (xs @ [(q, g)]) b"
    and np: "unat (uiNewestFramePos (m_pcShm w)) = q" and len: "q + 12 \<le> length (m_pcShm w)"
  shows "linked (turned w) (xs @ [(q, g)]) SHM_FRAME_START_POSITION"
proof -
  have xs: "packed 52 xs q" and q: "52 \<le> q" using pk by (auto simp: packed_snoc dest: packed_le)
  note T = turned_facts [of w, unfolded np, OF q len]
  have "linked (turned w) xs (word_of_nat q)"
  proof (rule linked_keep)
    show "linked (m_pcShm w) xs (word_of_nat q)" using lk by (simp add: linked_append)
    fix p f k assume p: "(p, f) \<in> set xs" "stored (m_pcShm w) p f k"
    have "apart p (44 + length (sf_data f)) (q + 8) 4" using packed_bounds [OF xs p(1)] by (simp add: apart_def)
    then show "stored (turned w) p f k" using stored_keep [OF p(2)] T by simp
  qed
  moreover have "stored (turned w) q g SHM_FRAME_START_POSITION"
    using lk stored_turn [of "m_pcShm w" q g e] unfolding turned_def np by (simp add: linked_append)
  ultimately show ?thesis by (simp add: linked_append)
qed

lemma write_wrap:
  assumes inv: "ring_inv w old cur" and d: "data \<noteq> []" "length extras = 24"
    and len: "int (length data) \<le> iMaxFrameSize (m_pcShm w)"
    and seq: "unat (m_uiFrameSeq w) + 1 < 2 ^ 32 - 2" and n: "unat next = block_end 52 (length data)"
    and full: "length (m_pcShm w) \<le> block_end (unat (m_uiFramePos w)) (length data)"
  defines "w' \<equiv> written SHM_FRAME_START_POSITION next (turned w) data extras w"
  shows "ring_inv w' (behind (unat next + 44) cur) [(52, new_frame data extras w)]"
    "rd32 (unat (m_uiFramePos w)) (m_pcShm w') \<noteq> SHM_FRAME_MAGIC_NUM"
proof -
  let ?P = "unat (m_uiFramePos w)" and ?N = "length (m_pcShm w)"
  note I = ring_invD [OF inv]
  let ?kept = "behind (unat next + 44) cur"
  have b: "52 + length data + 44 \<le> unat next" "4 dvd unat next" "unat next \<le> 99 + length data"
    "?N \<le> ?P + length data + 47"
    using block_end [of 52 "length data"] block_end [of ?P "length data"] n full by simp_all
  then have far: "unat next + 44 \<le> ?P" "unat next + 44 \<le> ?N" using I(4,19) len by linarith+
  have st: "unat SHM_FRAME_START_POSITION = 52" by (simp add: SHM_FRAME_START_POSITION_def)
  have "cur \<noteq> []" using I(8) far(1) b(1) by (auto split: if_splits)
  then obtain xs q g where cur: "cur = xs @ [(q, g)]" by (metis rev_exhaust surj_pair)
  have q: "52 \<le> q" "q + 44 \<le> ?P" using I(6) packed_bounds [OF I(6), of q g] by (auto simp: cur)
  have np: "unat (uiNewestFramePos (m_pcShm w)) = q"
    using I(4,14,17) q by (simp add: cur unsigned_of_nat take_bit_nat_eq_self)
  have q12: "q + 12 \<le> ?N" using q I(4) by simp
  note T = turned_facts [of w, unfolded np, OF q(1) q12]
  have lk: "linked (turned w) cur SHM_FRAME_START_POSITION"
    using linked_turned [OF _ _ np q12, of xs g] I(6) linked_suffix [OF I(9)] unfolding cur by blast
  obtain lost where lost: "cur = lost @ ?kept" using behind_suffix [OF I(6)] by blast
  then have held: "old @ cur = (old @ lost) @ ?kept" by (metis append.assoc)
  show "ring_inv w' (behind (unat next + 44) cur) [(52, new_frame data extras w)]"
    unfolding w'_def
  proof (rule written_inv [where kept = ?kept])
    show "linked (turned w) ?kept SHM_FRAME_START_POSITION" using lk lost linked_suffix by metis
    show "numbered (m_uiFrameSeq w) ?kept" using I(10) unfolding held by (rule numbered_suffix)
    show "back_linked ?kept" using I(11) unfolding held by (rule back_linked_suffix)
    show "?kept \<noteq> [] \<longrightarrow> uiNewestFramePos (turned w) = word_of_nat (fst (last ?kept))"
      using I(14) unfolding T(4) held by auto
    fix p f assume "(p, f) \<in> set ?kept"
    then show "52 \<le> p \<and> apart p (44 + length (sf_data f)) (unat SHM_FRAME_START_POSITION) (44 + length data) \<and>
        apart p (44 + length (sf_data f)) (unat next) 44"
      using behind_packed_apart [OF I(6), of p f "unat next + 44"] b by (auto simp: apart_def st)
  next
    show "packed (unat next + 44) ?kept (length (turned w))"
      using packed_weaken [OF packed_behind [OF I(6) far(1)] order_refl] I(4) T(1) by simp
    show "packed 52 [(52, new_frame data extras w)] (unat next)" using b d(1) by (simp add: new_frame_def)
  qed (use I b far d seq T st in \<open>auto simp: apart_def\<close>)
  have a: "apart ?P 4 (unat SHM_FRAME_START_POSITION) (44 + length data)" "apart ?P 4 (unat next) 44" "12 \<le> ?P"
    using b far st by (auto simp: apart_def)
  have "slice ?P 4 (m_pcShm w') = slice ?P 4 (turned w)"
    using put_frame_effect(8) [of SHM_FRAME_START_POSITION data "turned w" extras "next" ?P 4] a b far d(2) T(1,3) I(16) st
    by (simp add: w'_def written_def apart_def)
  also have "\<dots> = slice ?P 4 (m_pcShm w)" using T(5) q by (simp add: apart_def)
  finally show "rd32 ?P (m_pcShm w') \<noteq> SHM_FRAME_MAGIC_NUM" using I(5) by (simp add: rd32_def)
qed

text \<open>One write: the oldest frames go, the new one comes last.\<close>

definition pushed :: "shm_obj \<Rightarrow> placed \<Rightarrow> byte list \<Rightarrow> byte list \<Rightarrow> shm_obj \<Rightarrow> placed \<Rightarrow> bool" where
  "pushed w held data extras w' held' \<longleftrightarrow>
     (\<exists>lost kept p. held = lost @ kept \<and> held' = kept @ [(p, new_frame data extras w)] \<and>
        m_uiFrameSeq w' = m_uiFrameSeq w + 1 \<and> length (m_pcShm w') = length (m_pcShm w) \<and>
        iMaxFrameSize (m_pcShm w') = iMaxFrameSize (m_pcShm w) \<and>
        (p = unat (m_uiFramePos w) \<or>
         p = 52 \<and> rd32 (unat (m_uiFramePos w)) (m_pcShm w') \<noteq> SHM_FRAME_MAGIC_NUM))"

definition frame_fits :: "shm_obj \<Rightarrow> byte list \<times> byte list \<Rightarrow> bool" where
  "frame_fits w f \<longleftrightarrow> fst f \<noteq> [] \<and> int (length (fst f)) \<le> iMaxFrameSize (m_pcShm w) \<and> length (snd f) = 24"

lemma written_simps [simp]:
  "m_uiFrameSeq (written pos next m data extras w) = m_uiFrameSeq w + 1"
  "m_uiFramePos (written pos next m data extras w) = next"
  by (simp_all add: written_def)

lemma newest_in_mem:
  assumes "ring_inv w old cur"
  shows "head_in_mem (m_pcShm w) (uiNewestFramePos (m_pcShm w))" "52 \<le> unat (uiNewestFramePos (m_pcShm w))"
proof -
  note I = ring_invD [OF assms]
  have "52 \<le> unat (uiNewestFramePos (m_pcShm w)) \<and> unat (uiNewestFramePos (m_pcShm w)) + 44 \<le> length (m_pcShm w)"
  proof (cases "old @ cur = []")
    case True
    then show ?thesis using I(14,19,20) by simp
  next
    case False
    obtain q g where qg: "last (old @ cur) = (q, g)" by (cases "last (old @ cur)")
    have "(q, g) \<in> set old \<or> (q, g) \<in> set cur" using last_in_set [OF False] unfolding qg by auto
    then have q: "52 \<le> q \<and> q + 44 \<le> length (m_pcShm w)"
      using packed_bounds [OF I(6), of q g] packed_bounds [OF I(7), of q g] I(3,4) by auto
    have "uiNewestFramePos (m_pcShm w) = word_of_nat q" using I(14) unfolding if_not_P [OF False] qg by simp
    then show ?thesis using q I(17) by (simp add: unsigned_of_nat take_bit_nat_eq_self)
  qed
  then show "head_in_mem (m_pcShm w) (uiNewestFramePos (m_pcShm w))" "52 \<le> unat (uiNewestFramePos (m_pcShm w))"
    by (simp_all add: head_in_mem_def in_mem_def SHM_SIZE_OF_FRAME_HEAD_def)
qed

lemma write_step:
  assumes inv: "ring_inv w old cur" and f: "frame_fits w (data, extras)"
    and seq: "unat (m_uiFrameSeq w) + 1 < 2 ^ 32 - 2"
  shows "\<exists>w' old' cur'. WriteFrame data (int (length data)) extras w = Some (SHM_ENUM_OK, w') \<and>
    ring_inv w' old' cur' \<and> pushed w (old @ cur) data extras w' (old' @ cur')"
proof -
  note I = ring_invD [OF inv]
  have d: "data \<noteq> []" "length extras = 24" "int (length data) \<le> iMaxFrameSize (m_pcShm w)"
    using f by (simp_all add: frame_fits_def)
  note wf = WriteFrame_placed [OF d(1,3,2) seq]
  have same: "length (m_pcShm w') = length (m_pcShm w) \<and> iMaxFrameSize (m_pcShm w') = iMaxFrameSize (m_pcShm w)"
    if "w' = written pos nx m data extras w" "52 \<le> unat pos" "unat pos + 44 + length data \<le> length (m_pcShm w)"
      "52 \<le> unat nx" "unat nx + 44 \<le> length (m_pcShm w)" "apart (unat pos) (44 + length data) (unat nx) 44"
      "head_magic m = SHM_FRAME_MAGIC_NUM" "length m = length (m_pcShm w)" "iMaxFrameSize m = iMaxFrameSize (m_pcShm w)"
    for w' pos nx m
    using put_frame_effect(1,7) [of pos data m extras nx] that d(2) by (simp add: written_def)
  have st: "unat SHM_FRAME_START_POSITION = 52" by (simp add: SHM_FRAME_START_POSITION_def)
  have be: "P + L + 44 \<le> block_end P L" "block_end P L \<le> P + L + 47" for P L by (rule block_end)+
  consider (room) nx where "place_frame (int (length data)) w = Some (m_uiFramePos w, nx, m_pcShm w)"
      "unat nx = block_end (unat (m_uiFramePos w)) (length data)"
      "block_end (unat (m_uiFramePos w)) (length data) + 44 < length (m_pcShm w)"
    | (last) "place_frame (int (length data)) w = Some (m_uiFramePos w, SHM_FRAME_START_POSITION, m_pcShm w)"
      "block_end (unat (m_uiFramePos w)) (length data) < length (m_pcShm w)"
      "length (m_pcShm w) \<le> block_end (unat (m_uiFramePos w)) (length data) + 44"
    | (wrap) nx where "place_frame (int (length data)) w = Some (SHM_FRAME_START_POSITION, nx, turned w)"
      "unat nx = block_end 52 (length data)" "length (m_pcShm w) \<le> block_end (unat (m_uiFramePos w)) (length data)"
    using place_cases [OF I(1,4) d(3) newest_in_mem(1) [OF inv]] by metis
  then show ?thesis
  proof cases
    case room
    let ?w = "written (m_uiFramePos w) nx (m_pcShm w) data extras w"
    have ok: "ring_inv ?w (behind (unat nx + 44) old) (cur @ [(unat (m_uiFramePos w), new_frame data extras w)])"
      by (rule write_room [OF inv d(1,2) seq]) (use room in simp_all)
    obtain lost where "old = lost @ behind (unat nx + 44) old" using behind_suffix [OF I(7)] by blast
    then have "pushed w (old @ cur) data extras ?w
        (behind (unat nx + 44) old @ cur @ [(unat (m_uiFramePos w), new_frame data extras w)])"
      using same [OF refl, of "m_uiFramePos w" nx "m_pcShm w"] room(2,3) be [of "unat (m_uiFramePos w)" "length data"] I(3,16)
      unfolding pushed_def
      by (intro exI [of _ lost] exI [of _ "behind (unat nx + 44) old @ cur"] exI [of _ "unat (m_uiFramePos w)"])
        (auto simp: apart_def)
    then show ?thesis
      using ok wf [OF room(1)] room(2,3) be [of "unat (m_uiFramePos w)" "length data"] by fastforce
  next
    case last
    let ?w = "written (m_uiFramePos w) SHM_FRAME_START_POSITION (m_pcShm w) data extras w"
    have ok: "ring_inv ?w (behind 96 cur @ [(unat (m_uiFramePos w), new_frame data extras w)]) []"
      by (rule write_last [OF inv d(1,2,3) seq]) (use last in simp_all)
    obtain lost where lost: "cur = lost @ behind 96 cur" using behind_suffix [OF I(6)] by blast
    have "96 \<le> unat (m_uiFramePos w)" using last be [of "unat (m_uiFramePos w)" "length data"] I(19) d(3) by linarith
    then have "pushed w (old @ cur) data extras ?w
        ((behind 96 cur @ [(unat (m_uiFramePos w), new_frame data extras w)]) @ [])"
      using same [OF refl, of "m_uiFramePos w" SHM_FRAME_START_POSITION "m_pcShm w"] last(2)
        be [of "unat (m_uiFramePos w)" "length data"] I(3,4,16,19,20) lost st
      unfolding pushed_def
      by (intro exI [of _ "old @ lost"] exI [of _ "behind 96 cur"] exI [of _ "unat (m_uiFramePos w)"])
        (auto simp: apart_def)
    then show ?thesis
      using ok wf [OF last(1)] last(2) be [of "unat (m_uiFramePos w)" "length data"] I(19,20) st by fastforce
  next
    case wrap
    let ?w = "written SHM_FRAME_START_POSITION nx (turned w) data extras w"
    note ok = write_wrap [OF inv d(1,2,3) seq wrap(2,3)]
    note T = turned_facts [OF newest_in_mem(2) [OF inv]]
    have np: "unat (uiNewestFramePos (m_pcShm w)) + 12 \<le> length (m_pcShm w)"
      using newest_in_mem(1) [OF inv] by (simp add: head_in_mem_def in_mem_def SHM_SIZE_OF_FRAME_HEAD_def)
    obtain lost where lost: "cur = lost @ behind (unat nx + 44) cur" using behind_suffix [OF I(6)] by blast
    have far: "unat nx + 44 \<le> length (m_pcShm w)" "96 + length data \<le> unat nx"
      using wrap(2) be [of 52 "length data"] I(19) d(3) by linarith+
    have "pushed w (old @ cur) data extras ?w (behind (unat nx + 44) cur @ [(52, new_frame data extras w)])"
      using same [OF refl, of SHM_FRAME_START_POSITION nx "turned w"] T(1-3) [OF np] far I(16) st lost ok(2)
      unfolding pushed_def
      by (intro exI [of _ "old @ lost"] exI [of _ "behind (unat nx + 44) cur"] exI [of _ 52])
        (auto simp: apart_def)
    then show ?thesis
      using ok(1) wf [OF wrap(1)] far T(1) [OF np] st by fastforce
  qed
qed

end
