(* ===== verification/ShmReader.thy ===== *)
theory ShmReader
  imports ShmRingCorrect
begin

text \<open>
  Readers of the shared memory ring: a reader stands at one of the frames in the segment, or behind the
  newest. Reading hands out the frames in order; moving back walks towards the oldest.
\<close>

section \<open>Where a reader stands\<close>

text \<open>The reader that had read the last frame of a lap keeps the place behind it when the writer wraps: the
  cleared head there and its sequence number send it to the start (\<^verbatim>\<open>CheckOverflowed\<close>).\<close>

definition reader_at :: "shm_obj \<Rightarrow> placed \<Rightarrow> nat \<Rightarrow> cuint \<times> cuint \<Rightarrow> bool" where
  "reader_at w held i r \<longleftrightarrow>
     (let m = m_pcShm w; pos = fst r in
      i \<le> length held \<and> unat (snd r) + length held = unat (m_uiFrameSeq w) + 1 + i \<and>
      52 \<le> unat pos \<and> unat pos + 44 \<le> length m \<and>
      (if i = length held then pos = m_uiFramePos w
       else unat pos = fst (held ! i) \<or> fst (held ! i) = 52 \<and> uiMagic m pos \<noteq> SHM_FRAME_MAGIC_NUM))"

definition sized :: "shm_obj \<Rightarrow> placed \<Rightarrow> bool" where
  "sized w held \<longleftrightarrow> (\<forall>x \<in> set held. int (length (sf_data (snd x))) \<le> iMaxFrameSize (m_pcShm w))"

definition payload :: "nat \<times> sframe \<Rightarrow> byte list \<times> byte list" where
  "payload x = (sf_data (snd x), sf_extras (snd x))"

lemma pushed_sized:
  "pushed w held data extras w' held' \<Longrightarrow> sized w held \<Longrightarrow> frame_fits w (data, extras) \<Longrightarrow> sized w' held'"
  unfolding pushed_def sized_def frame_fits_def new_frame_def by (elim exE conjE) (simp add: ball_Un)

text \<open>The frame at a place of the queue.\<close>

lemma held_frame:
  assumes inv: "ring_inv w old cur" and i: "i < length (old @ cur)" and x: "(old @ cur) ! i = (p, f)"
  shows "stored (m_pcShm w) p f (if Suc i < length (old @ cur) then word_of_nat (fst ((old @ cur) ! Suc i)) else m_uiFramePos w)"
    "52 \<le> p" "p + 44 + length (sf_data f) \<le> length (m_pcShm w)" "unat (word_of_nat p :: cuint) = p"
    "unat (sf_seq f) + length (old @ cur) = unat (m_uiFrameSeq w) + 1 + i"
proof -
  note I = ring_invD [OF inv]
  show "stored (m_pcShm w) p f (if Suc i < length (old @ cur) then word_of_nat (fst ((old @ cur) ! Suc i)) else m_uiFramePos w)"
    by (rule linked_stored [OF I(9) i x])
  have "(p, f) \<in> set old \<or> (p, f) \<in> set cur" using nth_mem [OF i] unfolding x by simp
  then show p: "52 \<le> p" "p + 44 + length (sf_data f) \<le> length (m_pcShm w)"
    using packed_bounds [OF I(6), of p f] packed_bounds [OF I(7), of p f] I(3,4) by auto
  then show "unat (word_of_nat p :: cuint) = p" using I(17) by (simp add: unsigned_of_nat take_bit_nat_eq_self)
  have "unat (sf_seq f) + (length (old @ cur) - i) = unat (m_uiFrameSeq w) + 1"
    using I(10) i x by (auto simp: numbered_def)
  then show "unat (sf_seq f) + length (old @ cur) = unat (m_uiFrameSeq w) + 1 + i" using i by linarith
qed

lemma start_frame:
  assumes inv: "ring_inv w old cur" and i: "i < length (old @ cur)" "fst ((old @ cur) ! i) = 52"
  shows "(old @ cur) ! i = hd cur \<and> cur \<noteq> [] \<and> i = length old"
proof -
  note I = ring_invD [OF inv]
  have a: "fst x \<noteq> 52" if "x \<in> set old" for x using that packed_bounds [OF I(7), of "fst x" "snd x"] I(3) by auto
  have "\<not> i < length old"
    using a [of "old ! i"] i by (auto simp: nth_append)
  then have c: "i - length old < length cur" "(old @ cur) ! i = cur ! (i - length old)" using i by (auto simp: nth_append)
  have "cur ! j = hd cur \<and> j = 0" if j: "j < length cur" "fst (cur ! j) = 52" for j
  proof (cases j)
    case 0
    then show ?thesis using j by (cases cur) auto
  next
    case (Suc k)
    then obtain y ys where cur: "cur = y # ys" using j by (cases cur) auto
    obtain q g where y: "y = (q, g)" by (cases y)
    have "packed (52 + 44) ys (unat (m_uiFramePos w))"
      using I(6) unfolding cur y by (auto elim: packed_weaken)
    moreover have "ys ! k \<in> set ys" using j(1) Suc cur by simp
    then have "(fst (ys ! k), snd (ys ! k)) \<in> set ys" by simp
    ultimately have "96 \<le> fst (ys ! k)" using packed_bounds by fastforce
    then show ?thesis using j Suc cur by simp
  qed
  then have "cur ! (i - length old) = hd cur" "i - length old = 0" using c i by metis+
  then show ?thesis using c i \<open>\<not> i < length old\<close> by auto
qed

text \<open>\<^verbatim>\<open>CheckOverflowed\<close> finds the frame.\<close>

lemma check_at:
  assumes inv: "ring_inv w old cur" and r: "reader_at w (old @ cur) i (pos, seq)" and i: "i < length (old @ cur)"
  shows "CheckOverflowed (m_pcShm w) (pos, seq) = Some (word_of_nat (fst ((old @ cur) ! i)), seq)"
    "seq = sf_seq (snd ((old @ cur) ! i))"
proof -
  note I = ring_invD [OF inv]
  obtain p f where x: "(old @ cur) ! i = (p, f)" by (cases "(old @ cur) ! i")
  note H = held_frame [OF inv i x]
  have len: "length (sf_data f) < 2 ^ 31" using H(3) I(17) by simp
  note F = stored_fields [OF _ len, of "m_pcShm w" "word_of_nat p", unfolded H(4), OF H(1)]
  have sq: "unat seq = unat (sf_seq f)" using r H(5) by (simp add: reader_at_def Let_def)
  then show "seq = sf_seq (snd ((old @ cur) ! i))" using x by (simp add: word_unat_eq_iff)
  have pos: "\<not> IsInitState pos" "head_in_mem (m_pcShm w) pos"
    using r by (auto simp: reader_at_def Let_def IsInitState_def SHM_FRAME_INITIAL_POSITION_def head_in_mem_def in_mem_def
        SHM_SIZE_OF_FRAME_HEAD_def)
  have st: "head_in_mem (m_pcShm w) SHM_FRAME_START_POSITION"
    using I(19,20) by (simp add: head_in_mem_def in_mem_def SHM_SIZE_OF_FRAME_HEAD_def SHM_FRAME_START_POSITION_def)
  from r i x consider "unat pos = p" | "p = 52" "uiMagic (m_pcShm w) pos \<noteq> SHM_FRAME_MAGIC_NUM"
    by (auto simp: reader_at_def Let_def)
  then show "CheckOverflowed (m_pcShm w) (pos, seq) = Some (word_of_nat (fst ((old @ cur) ! i)), seq)"
  proof cases
    case 1
    then have "pos = word_of_nat p" using H(4) by (simp add: word_unat_eq_iff)
    then show ?thesis using pos st F(1) I(16) x by (simp add: CheckOverflowed_def)
  next
    case 2
    have p: "(word_of_nat p :: cuint) = SHM_FRAME_START_POSITION" using 2 by (simp add: SHM_FRAME_START_POSITION_def)
    have "seq = uiSequence (m_pcShm w) SHM_FRAME_START_POSITION" using F(4) sq unfolding p by (simp add: word_unat_eq_iff)
    then show ?thesis
      using pos st 2(2) I(16) x p by (simp add: CheckOverflowed_def)
  qed
qed

lemma read_at:
  assumes inv: "ring_inv w old cur" and sz: "sized w (old @ cur)"
    and r: "reader_at w (old @ cur) i (pos, seq)" and i: "i < length (old @ cur)"
    and buf: "iMaxFrameSize (m_pcShm w) \<le> buf_len"
  shows "\<exists>r'. ReadFrame True buf_len (m_pcShm w) (pos, seq) =
      Some (SHM_ENUM_GET_A_NEW_FRAME, Some (payload ((old @ cur) ! i)), r') \<and> reader_at w (old @ cur) (Suc i) r'"
proof -
  note I = ring_invD [OF inv]
  obtain p f where x: "(old @ cur) ! i = (p, f)" by (cases "(old @ cur) ! i")
  note H = held_frame [OF inv i x]
  have len: "length (sf_data f) < 2 ^ 31" using H(3) I(17) by simp
  note F = stored_fields [OF _ len, of "m_pcShm w" "word_of_nat p", unfolded H(4), OF H(1)]
  note C = check_at [OF inv r i, unfolded x fst_conv snd_conv]
  have ne: "uiNewestFrameSeq (m_pcShm w) \<noteq> SHM_FRAME_INITIAL_SEQUENCE"
    using I(12,15) i by (auto simp: SHM_FRAME_INITIAL_SEQUENCE_def)
  have sq: "unat seq + length (old @ cur) = unat (m_uiFrameSeq w) + 1 + i" using r by (simp add: reader_at_def Let_def)
  then have lt: "\<not> uiNewestFrameSeq (m_pcShm w) < seq" using i I(12) by (simp add: word_less_nat_alt)
  have s1: "unat (seq + 1) = unat seq + 1" "\<not> seq + 1 \<ge> SHM_FRAME_MAX_SEQUENCE"
    using I(13) sq i unat_small_add [of seq 1] by (auto simp: SHM_FRAME_MAX_SEQUENCE_def word_le_nat_alt)
  have m: "int (length (sf_data f)) \<le> iMaxFrameSize (m_pcShm w)"
    using sz nth_mem [OF i] unfolding x sized_def by fastforce
  let ?n = "if Suc i < length (old @ cur) then word_of_nat (fst ((old @ cur) ! Suc i)) else m_uiFramePos w"
  have read: "ReadFrame True buf_len (m_pcShm w) (pos, seq) =
      Some (SHM_ENUM_GET_A_NEW_FRAME, Some (payload ((old @ cur) ! i)), (?n, seq + 1))"
    using ne lt C F m buf I(16) s1 x H(4)
    by (simp add: ReadFrame_def wrap_seq_def payload_def SHM_SIZE_OF_FRAME_HEAD_def)
  moreover have "reader_at w (old @ cur) (Suc i) (?n, seq + 1)"
  proof (cases "Suc i < length (old @ cur)")
    case True
    obtain q g where y: "(old @ cur) ! Suc i = (q, g)" by (cases "(old @ cur) ! Suc i")
    note Y = held_frame [OF inv True y]
    show ?thesis using True s1 sq Y(2-4) y by (simp add: reader_at_def Let_def)
  next
    case False
    then show ?thesis using s1 sq i I(3,4) by (simp add: reader_at_def Let_def)
  qed
  ultimately show ?thesis by blast
qed

lemma read_end:
  assumes inv: "ring_inv w old cur" and r: "reader_at w (old @ cur) (length (old @ cur)) r" and ne: "old @ cur \<noteq> []"
  shows "ReadFrame copy buf_len (m_pcShm w) r = Some (SHM_ENUM_NO_NEW_FRAME, None, r)"
proof -
  note I = ring_invD [OF inv]
  have "unat (snd r) = unat (m_uiFrameSeq w) + 1" using r by (simp add: reader_at_def Let_def)
  moreover from this have "snd r = m_uiFrameSeq w + 1" using unat_small_add [of "m_uiFrameSeq w" 1] I(13)
    by (simp add: word_unat_eq_iff)
  ultimately show ?thesis using I(12,15) ne
    by (simp add: ReadFrame_def word_less_nat_alt SHM_FRAME_INITIAL_SEQUENCE_def)
qed

end
