(* ===== verification/ShmMoves.thy ===== *)
theory ShmMoves
  imports ShmReader
begin

text \<open>
  The other moves of a reader of the ring, by its place in the queue of frames: back, forward, to the
  newest frame, the extra data of its frame and its distance to the newest; and what a write does to it.
\<close>

lemma ring_pos:
  assumes "ring_inv w old cur" "reader_at w (old @ cur) i (pos, seq)"
  shows "pos \<noteq> 0" "\<not> IsInitState pos" "head_in_mem (m_pcShm w) pos" "i \<le> length (old @ cur)"
  using assms(2) by (auto simp: reader_at_def Let_def IsInitState_def SHM_FRAME_INITIAL_POSITION_def head_in_mem_def
      in_mem_def SHM_SIZE_OF_FRAME_HEAD_def)

text \<open>The fields of the frame a reader stands at.\<close>

lemma frame_at:
  assumes inv: "ring_inv w old cur" and r: "reader_at w (old @ cur) i (pos, seq)" and i: "i < length (old @ cur)"
    and x: "(old @ cur) ! i = (p, f)"
  shows "CheckOverflowed (m_pcShm w) (pos, seq) = Some (word_of_nat p, sf_seq f)" "seq = sf_seq f"
    "uiMagic (m_pcShm w) (word_of_nat p) = SHM_FRAME_MAGIC_NUM" "uiPrevFramePos (m_pcShm w) (word_of_nat p) = sf_prev f"
    "uiSequence (m_pcShm w) (word_of_nat p) = sf_seq f" "carrExtras (m_pcShm w) (word_of_nat p) = sf_extras f"
    "iFrameSize (m_pcShm w) (word_of_nat p) = int (length (sf_data f))"
    "head_in_mem (m_pcShm w) (word_of_nat p)" "unat (sf_seq f) + length (old @ cur) = unat (m_uiFrameSeq w) + 1 + i"
proof -
  note H = held_frame [OF inv i x]
  have len: "length (sf_data f) < 2 ^ 31" using H(3) ring_invD(17) [OF inv] by simp
  note F = stored_fields [OF _ len, of "m_pcShm w" "word_of_nat p", unfolded H(4), OF H(1)]
  show "uiMagic (m_pcShm w) (word_of_nat p) = SHM_FRAME_MAGIC_NUM"
    "uiPrevFramePos (m_pcShm w) (word_of_nat p) = sf_prev f" "uiSequence (m_pcShm w) (word_of_nat p) = sf_seq f"
    "carrExtras (m_pcShm w) (word_of_nat p) = sf_extras f"
    "iFrameSize (m_pcShm w) (word_of_nat p) = int (length (sf_data f))" "head_in_mem (m_pcShm w) (word_of_nat p)"
    by (rule F)+
  show "CheckOverflowed (m_pcShm w) (pos, seq) = Some (word_of_nat p, sf_seq f)" "seq = sf_seq f"
    using check_at [OF inv r i] x by simp_all
  show "unat (sf_seq f) + length (old @ cur) = unat (m_uiFrameSeq w) + 1 + i" by (rule H)
qed

lemma reader_at_place:
  assumes inv: "ring_inv w old cur" and i: "i < length (old @ cur)" and x: "(old @ cur) ! i = (p, f)"
  shows "reader_at w (old @ cur) i (word_of_nat p, sf_seq f)"
  using held_frame [OF inv i x] i x by (simp add: reader_at_def Let_def)

lemma behind_newest:
  assumes inv: "ring_inv w old cur" and r: "reader_at w (old @ cur) i (pos, seq)"
  shows "seq = uiNewestFrameSeq (m_pcShm w) + 1 \<longleftrightarrow> i = length (old @ cur)"
proof -
  note I = ring_invD [OF inv]
  have "unat (m_uiFrameSeq w + 1) = unat (m_uiFrameSeq w) + 1" using unat_small_add [of "m_uiFrameSeq w" 1] I(13) by simp
  moreover have "unat seq + length (old @ cur) = unat (m_uiFrameSeq w) + 1 + i" using r by (simp add: reader_at_def Let_def)
  ultimately have "unat seq = unat (m_uiFrameSeq w + 1) \<longleftrightarrow> i = length (old @ cur)" by linarith
  then show ?thesis unfolding I(12) by (simp only: word_unat_eq_iff)
qed

lemma newest_at:
  assumes inv: "ring_inv w old cur" and ne: "old @ cur \<noteq> []"
  shows "reader_at w (old @ cur) (length (old @ cur) - 1) (uiNewestFramePos (m_pcShm w), uiNewestFrameSeq (m_pcShm w))"
    "uiMagic (m_pcShm w) (uiNewestFramePos (m_pcShm w)) = SHM_FRAME_MAGIC_NUM"
    "uiSequence (m_pcShm w) (uiNewestFramePos (m_pcShm w)) = uiNewestFrameSeq (m_pcShm w)"
proof -
  note I = ring_invD [OF inv]
  let ?i = "length (old @ cur) - 1"
  have i: "?i < length (old @ cur)" using ne by (cases "old @ cur") auto
  obtain p f where x: "(old @ cur) ! ?i = (p, f)" by (cases "(old @ cur) ! ?i")
  then have "last (old @ cur) = (p, f)" using last_conv_nth [OF ne] by simp
  then have np: "uiNewestFramePos (m_pcShm w) = word_of_nat p" using I(14) ne by (simp only: if_False fst_conv)
  note at = reader_at_place [OF inv i x]
  note F = frame_at [OF inv at i x]
  have "unat (sf_seq f) = unat (m_uiFrameSeq w)" using F(9) i by linarith
  then have sq: "uiNewestFrameSeq (m_pcShm w) = sf_seq f" using I(12) by (simp add: word_unat_eq_iff)
  show "reader_at w (old @ cur) ?i (uiNewestFramePos (m_pcShm w), uiNewestFrameSeq (m_pcShm w))"
    using at by (simp only: np sq)
  show "uiMagic (m_pcShm w) (uiNewestFramePos (m_pcShm w)) = SHM_FRAME_MAGIC_NUM"
    "uiSequence (m_pcShm w) (uiNewestFramePos (m_pcShm w)) = uiNewestFrameSeq (m_pcShm w)"
    using F(3,5) by (simp_all only: np sq)
qed

lemma refresh_at:
  assumes inv: "ring_inv w old cur" and ne: "old @ cur \<noteq> []"
  shows "\<exists>r. Refresh (m_pcShm w) = Some (SHM_ENUM_OK, r) \<and> reader_at w (old @ cur) (length (old @ cur) - 1) r"
  using newest_at [OF inv ne] newest_in_mem(1) [OF inv] ring_invD(16) [OF inv] by (simp add: Refresh_def)

lemma not_empty:
  assumes "ring_inv w old cur" "old @ cur \<noteq> []"
  shows "uiNewestFrameSeq (m_pcShm w) \<noteq> SHM_FRAME_INITIAL_SEQUENCE"
  using ring_invD(12,15) [OF assms(1)] assms(2) by (simp add: SHM_FRAME_INITIAL_SEQUENCE_def)

lemma packed_distinct: "packed a fs b \<Longrightarrow> distinct (List.map fst fs)"
proof (induction fs arbitrary: a)
  case (Cons x fs)
  obtain p f where x: "x = (p, f)" by (cases x)
  have "q \<noteq> p" if "(q, g) \<in> set fs" for q g
    using packed_bounds [of "p + 44 + length (sf_data f)" fs b q g] Cons.prems that x by auto
  then show ?case using Cons x by force
qed simp

lemma places_distinct:
  assumes "ring_inv w old cur"
  shows "distinct (List.map fst (old @ cur))"
proof -
  note I = ring_invD [OF assms]
  have "p \<noteq> q" if "(p, f) \<in> set old" "(q, g) \<in> set cur" for p f q g
    using packed_bounds [OF I(7) that(1)] packed_bounds [OF I(6) that(2)] by linarith
  then show ?thesis using packed_distinct [OF I(6)] packed_distinct [OF I(7)] by force
qed

lemma MoveBack_from:
  assumes "uiNewestFrameSeq m \<noteq> SHM_FRAME_INITIAL_SEQUENCE" "pos \<noteq> 0" "seq \<noteq> uiNewestFrameSeq m + 1"
    "CheckOverflowed m (pos, seq) = Some (p, s)" "head_in_mem m p" "uiMagic m p = head_magic m"
    "uiPrevFramePos m p = q" "p \<noteq> q" "head_in_mem m q" "uiMagic m q = head_magic m"
  shows "MoveBack m (pos, seq) = Some (SHM_ENUM_OK, q, uiSequence m q)"
  using assms by (simp add: MoveBack_def SHM_FRAME_INITIAL_POSITION_def)

lemma back_at:
  assumes inv: "ring_inv w old cur" and r: "reader_at w (old @ cur) i r" and i: "0 < i"
  shows "\<exists>r'. MoveBack (m_pcShm w) r = Some (SHM_ENUM_OK, r') \<and> reader_at w (old @ cur) (i - 1) r'"
proof -
  obtain pos seq where rr: "r = (pos, seq)" by (cases r)
  note P = ring_pos [OF inv r [unfolded rr]]
  have ne: "old @ cur \<noteq> []" using P(4) i by auto
  note N = not_empty [OF inv ne]
  show ?thesis
  proof (cases "i = length (old @ cur)")
    case True
    then show ?thesis
      using N P(1) newest_at(1) [OF inv ne] behind_newest [OF inv r [unfolded rr]] rr
      by (simp add: MoveBack_def SHM_FRAME_INITIAL_POSITION_def)
  next
    case False
    then have lt: "i < length (old @ cur)" and pre: "i - 1 < length (old @ cur)" using P(4) by simp_all
    obtain p f where x: "(old @ cur) ! i = (p, f)" by (cases "(old @ cur) ! i")
    obtain q g where y: "(old @ cur) ! (i - 1) = (q, g)" by (cases "(old @ cur) ! (i - 1)")
    note F = frame_at [OF inv r [unfolded rr] lt x]
    note at = reader_at_place [OF inv pre y]
    note G = frame_at [OF inv at pre y]
    have prev: "sf_prev f = word_of_nat q"
      using ring_invD(11) [OF inv, unfolded back_linked_def, rule_format, of "i - 1"] lt i x y by simp
    have "p \<noteq> q"
      using nth_eq_iff_index_eq [OF places_distinct [OF inv], of i "i - 1"] lt pre i
        nth_map [OF lt, of fst] nth_map [OF pre, of fst] x y by simp
    then have ne': "(word_of_nat p :: cuint) \<noteq> word_of_nat q"
      using held_frame(4) [OF inv lt x] held_frame(4) [OF inv pre y] by (metis (no_types))
    have s: "seq \<noteq> uiNewestFrameSeq (m_pcShm w) + 1" using behind_newest [OF inv r [unfolded rr]] False by blast
    note hm = ring_invD(16) [OF inv, symmetric]
    have "MoveBack (m_pcShm w) (pos, seq) = Some (SHM_ENUM_OK, word_of_nat q, uiSequence (m_pcShm w) (word_of_nat q))"
      by (rule MoveBack_from [OF N P(1) s F(1,8) trans [OF F(3) hm] trans [OF F(4) prev] ne' G(8) trans [OF G(3) hm]])
    then have "MoveBack (m_pcShm w) (pos, seq) = Some (SHM_ENUM_OK, word_of_nat q, sf_seq g)" unfolding G(5) .
    then show ?thesis using at unfolding rr by blast
  qed
qed

text \<open>The first frame of the segment follows the newest frame of the lap before; behind it, a reader at the oldest
  frame is carried to the writer's lap.\<close>

lemma back_from_oldest:
  assumes inv: "ring_inv w old cur" and r: "reader_at w (old @ cur) 0 r" and ne: "old \<noteq> []" "cur \<noteq> []"
    and prev: "sf_prev (snd (hd old)) = SHM_FRAME_START_POSITION"
  shows "\<exists>r'. MoveBack (m_pcShm w) r = Some (SHM_ENUM_OK, r') \<and> reader_at w (old @ cur) (length old) r'"
proof -
  obtain pos seq where rr: "r = (pos, seq)" by (cases r)
  obtain p f where x: "hd old = (p, f)" by (cases "hd old")
  then have x0: "(old @ cur) ! 0 = (p, f)" using ne by (cases old) auto
  obtain q g where y: "hd cur = (q, g)" by (cases "hd cur")
  then have y0: "(old @ cur) ! length old = (q, g)" using ne by (cases cur) (auto simp: nth_append)
  have lt: "0 < length (old @ cur)" "length old < length (old @ cur)" using ne by simp_all
  note P = ring_pos [OF inv r [unfolded rr]]
  note F = frame_at [OF inv r [unfolded rr] lt(1) x0]
  note at = reader_at_place [OF inv lt(2) y0]
  note G = frame_at [OF inv at lt(2) y0]
  have ne0: "old @ cur \<noteq> []" using ne by simp
  have q: "q = 52" using ring_invD(8) [OF inv] ne y by simp
  have "52 < p" using packed_bounds [OF ring_invD(7) [OF inv], of p f] ring_invD(3) [OF inv] x hd_in_set [OF ne(1)] by simp
  then have ne': "(word_of_nat p :: cuint) \<noteq> word_of_nat q"
    using held_frame(4) [OF inv lt(1) x0] held_frame(4) [OF inv lt(2) y0] q by (metis (no_types) less_irrefl)
  have s: "seq \<noteq> uiNewestFrameSeq (m_pcShm w) + 1" using behind_newest [OF inv r [unfolded rr]] lt(1) by simp
  have prev': "sf_prev f = word_of_nat q" using prev x q by (simp add: SHM_FRAME_START_POSITION_def)
  note hm = ring_invD(16) [OF inv, symmetric]
  have "MoveBack (m_pcShm w) (pos, seq) = Some (SHM_ENUM_OK, word_of_nat q, uiSequence (m_pcShm w) (word_of_nat q))"
    by (rule MoveBack_from [OF not_empty [OF inv ne0] P(1) s F(1,8) trans [OF F(3) hm] trans [OF F(4) prev'] ne' G(8)
        trans [OF G(3) hm]])
  then have "MoveBack (m_pcShm w) (pos, seq) = Some (SHM_ENUM_OK, word_of_nat q, sf_seq g)" unfolding G(5) .
  then show ?thesis using at unfolding rr by blast
qed

lemma forward_at:
  assumes inv: "ring_inv w old cur" and sz: "sized w (old @ cur)" and r: "reader_at w (old @ cur) i r"
    and i: "i < length (old @ cur)"
  shows "\<exists>r'. MoveForward (m_pcShm w) r = Some (0, r') \<and> reader_at w (old @ cur) (Suc i) r'"
proof -
  obtain pos seq where rr: "r = (pos, seq)" by (cases r)
  obtain r' where "ReadFrame True (iMaxFrameSize (m_pcShm w)) (m_pcShm w) r =
      Some (SHM_ENUM_GET_A_NEW_FRAME, Some (payload ((old @ cur) ! i)), r')" "reader_at w (old @ cur) (Suc i) r'"
    using read_at [OF inv sz r [unfolded rr] i order_refl] rr by blast
  moreover from this have "ReadFrame False (iMaxFrameSize (m_pcShm w)) (m_pcShm w) r = Some (SHM_ENUM_GET_A_NEW_FRAME, None, r')"
    by (auto simp: ReadFrame_def shm_codes split: if_splits option.splits prod.splits)
  ultimately show ?thesis by (simp add: MoveForward_def)
qed

lemma extras_at:
  assumes inv: "ring_inv w old cur" and r: "reader_at w (old @ cur) i r" and i: "i < length (old @ cur)"
  shows "GetExtras (m_pcShm w) buf r = Some (SHM_ENUM_OK, sf_extras (snd ((old @ cur) ! i)))"
proof -
  obtain pos seq where rr: "r = (pos, seq)" by (cases r)
  obtain p f where x: "(old @ cur) ! i = (p, f)" by (cases "(old @ cur) ! i")
  note F = frame_at [OF inv r [unfolded rr] i x]
  show ?thesis unfolding GetExtras_def rr F(1) x using F(3,6,8) ring_invD(16) [OF inv] by simp
qed

lemma check_end:
  assumes inv: "ring_inv w old cur" and r: "reader_at w (old @ cur) (length (old @ cur)) (pos, seq)"
  shows "CheckOverflowed (m_pcShm w) (pos, seq) = Some (pos, seq)" "uiMagic (m_pcShm w) pos \<noteq> head_magic (m_pcShm w)"
proof -
  note P = ring_pos [OF inv r] and I = ring_invD [OF inv]
  have pos: "pos = m_uiFramePos w" using r by (simp add: reader_at_def Let_def)
  show mg: "uiMagic (m_pcShm w) pos \<noteq> head_magic (m_pcShm w)" using I(5,16) pos by (simp add: uiMagic_def)
  have st: "head_in_mem (m_pcShm w) SHM_FRAME_START_POSITION"
    using I(19,20) by (simp add: head_in_mem_def in_mem_def SHM_SIZE_OF_FRAME_HEAD_def SHM_FRAME_START_POSITION_def)
  show "CheckOverflowed (m_pcShm w) (pos, seq) = Some (pos, seq)"
  proof (cases "cur = []")
    case True
    then have "pos = SHM_FRAME_START_POSITION" using I(8) pos by (simp add: SHM_FRAME_START_POSITION_def word_unat_eq_iff)
    then show ?thesis using P st by (simp add: CheckOverflowed_def)
  next
    case False
    obtain q g where y: "hd cur = (q, g)" by (cases "hd cur")
    then have y0: "(old @ cur) ! length old = (q, g)" using False by (cases cur) (auto simp: nth_append)
    have lt: "length old < length (old @ cur)" using False by simp
    note G = frame_at [OF inv reader_at_place [OF inv lt y0] lt y0]
    have "(word_of_nat q :: cuint) = SHM_FRAME_START_POSITION" using I(8) False y by (simp add: SHM_FRAME_START_POSITION_def)
    then have "uiSequence (m_pcShm w) SHM_FRAME_START_POSITION = sf_seq g" using G(5) by simp
    moreover have "unat seq = unat (m_uiFrameSeq w) + 1" using r by (simp add: reader_at_def Let_def)
    then have "seq \<noteq> sf_seq g" using G(9) lt by auto
    ultimately show ?thesis using P st by (simp add: CheckOverflowed_def)
  qed
qed

lemma extras_end:
  assumes inv: "ring_inv w old cur" and r: "reader_at w (old @ cur) (length (old @ cur)) r"
  shows "GetExtras (m_pcShm w) buf r = Some (SHM_ENUM_NEXT_FRAME_OF_NEWEST, replicate 24 0)"
proof -
  obtain pos seq where rr: "r = (pos, seq)" by (cases r)
  show ?thesis
    using check_end [OF inv r [unfolded rr]] ring_pos(3) [OF inv r [unfolded rr]] behind_newest [OF inv r [unfolded rr]]
    by (simp add: GetExtras_def rr SHM_SIZE_OF_FRAME_EXTRAS_def)
qed

lemma packed_length: "packed a fs b \<Longrightarrow> a + 45 * length fs \<le> b"
  by (induction a fs b rule: packed.induct) (auto simp flip: length_greater_0_conv)

lemma distance_at:
  assumes inv: "ring_inv w old cur" and r: "reader_at w (old @ cur) i r"
  shows "Distance2Newest (m_pcShm w) r = Some (int (length (old @ cur)) - 1 - int i)"
proof -
  obtain pos seq where rr: "r = (pos, seq)" by (cases r)
  note P = ring_pos [OF inv r [unfolded rr]] and I = ring_invD [OF inv]
  note E = behind_newest [OF inv r [unfolded rr]]
  show ?thesis
  proof (cases "i = length (old @ cur)")
    case True
    then show ?thesis using check_end [OF inv] r rr E by (simp add: Distance2Newest_def)
  next
    case False
    then have lt: "i < length (old @ cur)" using P(4) by simp
    obtain p f where x: "(old @ cur) ! i = (p, f)" by (cases "(old @ cur) ! i")
    note F = frame_at [OF inv r [unfolded rr] lt x]
    let ?k = "length (old @ cur) - 1 - i"
    have k: "?k < 2 ^ 31" using packed_length [OF I(6)] packed_length [OF I(7)] I(4,17) by simp
    have u: "unat (uiNewestFrameSeq (m_pcShm w)) = unat seq + ?k" using F(9) lt unfolding I(12) F(2) by linarith
    have k': "unat (word_of_nat ?k :: cuint) = ?k" using k by (simp add: unsigned_of_nat take_bit_nat_eq_self)
    have "unat (uiNewestFrameSeq (m_pcShm w)) < 2 ^ 32" using unsigned_less [where 'a = nat, of "uiNewestFrameSeq (m_pcShm w)"] by simp
    then have "uiNewestFrameSeq (m_pcShm w) = seq + word_of_nat ?k"
      using u k' by (simp add: word_unat_eq_iff unat_small_add)
    then have "uiNewestFrameSeq (m_pcShm w) - seq = word_of_int (int ?k)" by simp
    then have "sint (uiNewestFrameSeq (m_pcShm w) - seq) = int ?k" using sint_of_int32 [of "int ?k"] k by (simp add: in_int32_def)
    moreover have "seq \<noteq> uiNewestFrameSeq (m_pcShm w) + 1" using E False by blast
    ultimately show ?thesis
      unfolding Distance2Newest_def rr F(1) using F(2,3,5,8) I(16) lt by simp
  qed
qed


lemma read_small:
  assumes inv: "ring_inv w old cur" and sz: "sized w (old @ cur)" and r: "reader_at w (old @ cur) i r"
    and i: "i < length (old @ cur)" and buf: "buf_len < int (length (sf_data (snd ((old @ cur) ! i))))"
  shows "\<exists>r'. ReadFrame True buf_len (m_pcShm w) r = Some (SHM_ENUM_FRAME_TOO_LARGE, None, r') \<and> reader_at w (old @ cur) i r'"
proof -
  obtain pos seq where rr: "r = (pos, seq)" by (cases r)
  obtain p f where x: "(old @ cur) ! i = (p, f)" by (cases "(old @ cur) ! i")
  note F = frame_at [OF inv r [unfolded rr] i x] and I = ring_invD [OF inv]
  have ne: "old @ cur \<noteq> []" using i by auto
  have "unat (sf_seq f) \<le> unat (m_uiFrameSeq w)" using F(9) i by linarith
  then have lt: "\<not> uiNewestFrameSeq (m_pcShm w) < sf_seq f" using I(12) by (simp add: word_less_nat_alt)
  have m: "int (length (sf_data f)) \<le> iMaxFrameSize (m_pcShm w)" using sz nth_mem [OF i] unfolding x sized_def by fastforce
  have "ReadFrame True buf_len (m_pcShm w) r = Some (SHM_ENUM_FRAME_TOO_LARGE, None, word_of_nat p, sf_seq f)"
    unfolding ReadFrame_def rr snd_conv F(1) F(2) using not_empty [OF inv ne] lt F(1,3,7,8) F(2) m buf I(16) x by simp
  then show ?thesis using reader_at_place [OF inv i x] by blast
qed

section \<open>A write and a reader\<close>

text \<open>A reader whose frame stays in the segment keeps its place; the reader behind the newest finds the new frame.\<close>

lemma reader_kept:
  assumes p: "pushed w held data extras w' held'" and r: "reader_at w held i r"
    and ex: "i < length held \<Longrightarrow> unat (fst r) = fst (held ! i)"
    and kept: "length held + 1 \<le> i + length held'" and seq: "unat (m_uiFrameSeq w) + 1 < 2 ^ 32"
  shows "reader_at w' held' (i + length held' - (length held + 1)) r"
proof -
  obtain lost kept p where P: "held = lost @ kept" "held' = kept @ [(p, new_frame data extras w)]"
    "m_uiFrameSeq w' = m_uiFrameSeq w + 1" "length (m_pcShm w') = length (m_pcShm w)"
    "p = unat (m_uiFramePos w) \<or> p = 52 \<and> rd32 (unat (m_uiFramePos w)) (m_pcShm w') \<noteq> SHM_FRAME_MAGIC_NUM"
    using p unfolding pushed_def by blast
  define j where "j = i - length lost"
  have j: "i = length lost + j" "i + length held' - (length held + 1) = j" using kept by (simp_all add: P j_def)
  have s: "unat (m_uiFrameSeq w') = unat (m_uiFrameSeq w) + 1" using seq unat_small_add [of "m_uiFrameSeq w" 1] P(3) by simp
  have R: "j \<le> length kept" "unat (snd r) + length held = unat (m_uiFrameSeq w) + 1 + i" "52 \<le> unat (fst r)"
    "unat (fst r) + 44 \<le> length (m_pcShm w)" "j = length kept \<longrightarrow> fst r = m_uiFramePos w"
    using r j(1) by (auto simp: reader_at_def Let_def P(1))
  have pos: "unat (fst r) = fst (held' ! j) \<or> fst (held' ! j) = 52 \<and> uiMagic (m_pcShm w') (fst r) \<noteq> SHM_FRAME_MAGIC_NUM"
  proof (cases "j = length kept")
    case True
    then show ?thesis using R(5) P(2,5) by (auto simp: uiMagic_def)
  next
    case False
    then show ?thesis using ex R(1) j(1) by (simp add: P(1,2) nth_append)
  qed
  show ?thesis unfolding j(2) using R s P(4) pos j(1) by (auto simp: reader_at_def Let_def P(1,2))
qed

end
