(* ===== verification/ShmApi.thy ===== *)
theory ShmApi
  imports ShmMoves
begin

text \<open>
  The interface of the shared memory library (\<^verbatim>\<open>shm_read.cpp\<close>, \<^verbatim>\<open>shm_write.cpp\<close>): streams are named by media
  type and profile, each with a segment of its own; a reading process keeps a position per id, a writing
  process the object of each stream it writes. The segments of the system are a map from their keys.
  \<open>Running\<close> is a loop that has used up its fuel, \<open>Fault\<close> an access outside a segment.
\<close>

datatype 'a run = Running | Fault | Returned 'a

section \<open>Streams\<close>

datatype media = SHM_ENUM_MEDIA_TYPE_AUDIO | SHM_ENUM_MEDIA_TYPE_VIDEO

definition SHM_VIDEO_DEVICE_BASE_KEY :: int where "SHM_VIDEO_DEVICE_BASE_KEY = 17830186"
definition SHM_AUDIO_DEVICE_BASE_KEY :: int where "SHM_AUDIO_DEVICE_BASE_KEY = 54607402"
definition SHM_KEY_MULTI_BASE :: int where "SHM_KEY_MULTI_BASE = 10000"

text \<open>\<^verbatim>\<open>cProfileNO\<close> is a \<^verbatim>\<open>char\<close>; \<^verbatim>\<open>(int)cProfileNO * SHM_KEY_MULTI_BASE\<close> does not overflow.\<close>

definition shm_key :: "media \<Rightarrow> int \<Rightarrow> int" where
  "shm_key mt profile =
     (if mt = SHM_ENUM_MEDIA_TYPE_VIDEO then SHM_VIDEO_DEVICE_BASE_KEY else SHM_AUDIO_DEVICE_BASE_KEY)
       + profile * SHM_KEY_MULTI_BASE"

type_synonym segments = "int \<Rightarrow> byte list option"

definition SHM_ENUM_VIDEO_CODEC_TYPE_H264 :: byte where "SHM_ENUM_VIDEO_CODEC_TYPE_H264 = 3"
definition SHM_ENUM_VIDEO_FRAME_TYPE_NORMAL :: byte where "SHM_ENUM_VIDEO_FRAME_TYPE_NORMAL = 0"
definition SHM_ENUM_VIDEO_FRAME_TYPE_KEY :: byte where "SHM_ENUM_VIDEO_FRAME_TYPE_KEY = 1"

text \<open>\<^verbatim>\<open>ucKeyFrameFlag\<close> is byte 19 of the extra data, \<^verbatim>\<open>ucCodec\<close> byte 1 of the header information.\<close>

definition key_frame_flag :: "byte list \<Rightarrow> bool" where
  "key_frame_flag extras \<longleftrightarrow> extras ! 19 = SHM_ENUM_VIDEO_FRAME_TYPE_KEY"

definition ucCodec :: "byte list \<Rightarrow> byte" where "ucCodec info = info ! 1"

section \<open>The reading process\<close>

record shm_info =
  cProfileNO :: int
  uiPos :: cuint
  uiSeq :: cuint

text \<open>The two pairs of maps; the objects of class \<^verbatim>\<open>ShmRead\<close> hold no state between calls, so the profiles that have
  one are enough.\<close>

record shm_peer =
  g_mapShmVideoInfo :: "int \<Rightarrow> shm_info option"
  g_mapShmAudioInfo :: "int \<Rightarrow> shm_info option"
  g_mapShmVideoRead :: "int set"
  g_mapShmAudioRead :: "int set"

definition shm_infos :: "media \<Rightarrow> shm_peer \<Rightarrow> int \<Rightarrow> shm_info option" where
  "shm_infos mt p = (if mt = SHM_ENUM_MEDIA_TYPE_VIDEO then g_mapShmVideoInfo p else g_mapShmAudioInfo p)"

definition shm_reads :: "media \<Rightarrow> shm_peer \<Rightarrow> int set" where
  "shm_reads mt p = (if mt = SHM_ENUM_MEDIA_TYPE_VIDEO then g_mapShmVideoRead p else g_mapShmAudioRead p)"

definition with_infos :: "media \<Rightarrow> ((int \<Rightarrow> shm_info option) \<Rightarrow> int \<Rightarrow> shm_info option) \<Rightarrow> shm_peer \<Rightarrow> shm_peer" where
  "with_infos mt g p =
     (if mt = SHM_ENUM_MEDIA_TYPE_VIDEO then p\<lparr>g_mapShmVideoInfo := g (g_mapShmVideoInfo p)\<rparr>
      else p\<lparr>g_mapShmAudioInfo := g (g_mapShmAudioInfo p)\<rparr>)"

definition with_reads :: "media \<Rightarrow> (int set \<Rightarrow> int set) \<Rightarrow> shm_peer \<Rightarrow> shm_peer" where
  "with_reads mt g p =
     (if mt = SHM_ENUM_MEDIA_TYPE_VIDEO then p\<lparr>g_mapShmVideoRead := g (g_mapShmVideoRead p)\<rparr>
      else p\<lparr>g_mapShmAudioRead := g (g_mapShmAudioRead p)\<rparr>)"

text \<open>The entry of an id and the segment its reader is attached to; \<open>None\<close> is the NULL pointer.\<close>

definition SHM_GetReadObject :: "media \<Rightarrow> segments \<Rightarrow> shm_peer \<Rightarrow> int \<Rightarrow> (shm_info \<times> byte list) option" where
  "SHM_GetReadObject mt segs p iID =
     (case shm_infos mt p iID of
        None \<Rightarrow> None
      | Some info \<Rightarrow>
          if cProfileNO info \<notin> shm_reads mt p then None
          else map_option (Pair info) (segs (shm_key mt (cProfileNO info))))"

definition set_place :: "media \<Rightarrow> int \<Rightarrow> cuint \<times> cuint \<Rightarrow> shm_peer \<Rightarrow> shm_peer" where
  "set_place mt iID r = with_infos mt (\<lambda>m. m(iID := map_option (\<lambda>i. i\<lparr>uiPos := fst r, uiSeq := snd r\<rparr>) (m iID)))"

text \<open>Ids.\<close>

definition MAX_IDS :: int where "MAX_IDS = 1000000"

function free_id :: "(int \<Rightarrow> shm_info option) \<Rightarrow> int \<Rightarrow> int option" where
  "free_id m idx = (if idx \<ge> MAX_IDS then None else if m idx = None then Some idx else free_id m (idx + 1))"
  by pat_completeness auto
termination by (relation "measure (\<lambda>(_, idx). nat (MAX_IDS - idx))") (auto simp: MAX_IDS_def)

declare free_id.simps [simp del]

definition new_id :: "media \<Rightarrow> shm_info \<Rightarrow> shm_peer \<Rightarrow> int \<times> shm_peer" where
  "new_id mt info p =
     (case free_id (shm_infos mt p) 0 of
        None \<Rightarrow> (SHM_ENUM_ERROR, p)
      | Some idx \<Rightarrow> (idx, with_infos mt (\<lambda>m. m(idx := Some info)) p))"

definition SHM_InitID :: "int \<Rightarrow> media \<Rightarrow> segments \<Rightarrow> shm_peer \<Rightarrow> int \<times> shm_peer" where
  "SHM_InitID profile mt segs p =
     (let info = \<lparr>cProfileNO = profile, uiPos = SHM_FRAME_INITIAL_POSITION, uiSeq = SHM_FRAME_INITIAL_SEQUENCE\<rparr> in
      if profile \<in> shm_reads mt p then new_id mt info p
      else if segs (shm_key mt profile) = None then (SHM_ENUM_ERROR, p)
      else new_id mt info (with_reads mt (insert profile) p))"

definition SHM_CopyID :: "int \<Rightarrow> media \<Rightarrow> shm_peer \<Rightarrow> int \<times> shm_peer" where
  "SHM_CopyID iID mt p =
     (case shm_infos mt p iID of None \<Rightarrow> (SHM_ENUM_ERROR, p) | Some info \<Rightarrow> new_id mt info p)"

definition SHM_RemoveID :: "int \<Rightarrow> media \<Rightarrow> shm_peer \<Rightarrow> shm_peer" where
  "SHM_RemoveID iID mt p = with_infos mt (\<lambda>m. m(iID := None)) p"

definition SHM_ENUM_ID1_NOT_EXIT :: int where "SHM_ENUM_ID1_NOT_EXIT = 10000000"
definition SHM_ENUM_ID2_NOT_EXIT :: int where "SHM_ENUM_ID2_NOT_EXIT = 10000001"
definition SHM_ENUM_ID1_ID2_NOT_EXIT :: int where "SHM_ENUM_ID1_ID2_NOT_EXIT = 10000002"

definition SHM_CompareWithID :: "int \<Rightarrow> int \<Rightarrow> media \<Rightarrow> segments \<Rightarrow> shm_peer \<Rightarrow> int" where
  "SHM_CompareWithID iID1 iID2 mt segs p =
     (case (SHM_GetReadObject mt segs p iID1, SHM_GetReadObject mt segs p iID2) of
        (Some (i1, _), Some (i2, _)) \<Rightarrow> sint (uiSeq i1 - uiSeq i2)
      | (None, None) \<Rightarrow> SHM_ENUM_ID1_ID2_NOT_EXIT
      | (None, Some _) \<Rightarrow> SHM_ENUM_ID1_NOT_EXIT
      | (Some _, None) \<Rightarrow> SHM_ENUM_ID2_NOT_EXIT)"

section \<open>Moving an id\<close>

definition shm_move :: "bool \<Rightarrow> byte list \<Rightarrow> cuint \<times> cuint \<Rightarrow> (int \<times> cuint \<times> cuint) option" where
  "shm_move isBack m r = (if isBack then MoveBack m r else MoveForward m r)"

text \<open>The loops return the steps that are left and the place. The key frame loop has fuel: it ends only at a key
  frame or when a move fails. \<open>buf\<close> is \<^verbatim>\<open>structExtraData\<close>, which a failed \<^verbatim>\<open>GetExtras\<close> leaves as it is.\<close>

fun step_frames :: "bool \<Rightarrow> nat \<Rightarrow> byte list \<Rightarrow> cuint \<times> cuint \<Rightarrow> (nat \<times> cuint \<times> cuint) run" where
  "step_frames isBack 0 m r = Returned (0, r)"
| "step_frames isBack (Suc n) m r =
     (case shm_move isBack m r of
        None \<Rightarrow> Fault
      | Some (ret, r') \<Rightarrow> if ret < 0 then Returned (Suc n, r') else step_frames isBack n m r')"

fun step_key_frames ::
  "nat \<Rightarrow> bool \<Rightarrow> nat \<Rightarrow> nat \<Rightarrow> byte list \<Rightarrow> byte list \<Rightarrow> cuint \<times> cuint \<Rightarrow> (nat \<times> cuint \<times> cuint) run" where
  "step_key_frames 0 isBack steps back_cnt buf m r = Running"
| "step_key_frames (Suc fuel) isBack steps back_cnt buf m r =
     (if steps = 0 then Returned (0, r)
      else case GetExtras m buf r of
        None \<Rightarrow> Fault
      | Some (_, buf') \<Rightarrow>
          let steps' = (if key_frame_flag buf' \<and> back_cnt > 0 then steps - 1 else steps) in
          if steps' = 0 then Returned (0, r)
          else case shm_move isBack m r of
            None \<Rightarrow> Fault
          | Some (ret, r') \<Rightarrow>
              if ret < 0 then Returned (steps', r')
              else step_key_frames fuel isBack steps' (Suc back_cnt) buf' m r')"

definition SHM_BackNFrameNolock ::
  "nat \<Rightarrow> byte list \<Rightarrow> int \<Rightarrow> int \<Rightarrow> int \<Rightarrow> bool \<Rightarrow> media \<Rightarrow> segments \<Rightarrow> shm_peer \<Rightarrow> (int \<times> shm_peer) run" where
  "SHM_BackNFrameNolock fuel buf iID iSteps iKeyFlag isBack mt segs p =
     (case SHM_GetReadObject mt segs p iID of
        Some (info, m) \<Rightarrow>
          if iSteps > 0 then
            case (if iKeyFlag = 1 then step_key_frames fuel isBack (nat iSteps) 0 buf m (uiPos info, uiSeq info)
                  else step_frames isBack (nat iSteps) m (uiPos info, uiSeq info)) of
              Running \<Rightarrow> Running
            | Fault \<Rightarrow> Fault
            | Returned (left, r) \<Rightarrow>
                if left = 0 then Returned (SHM_ENUM_OK, set_place mt iID r p)
                else Returned (SHM_ENUM_ERROR, p)
          else Returned (if iSteps = 0 then SHM_ENUM_OK else SHM_ENUM_ERROR, p)
      | None \<Rightarrow> Returned (if iSteps = 0 then SHM_ENUM_OK else SHM_ENUM_ERROR, p))"

definition SHM_BackNFrame ::
  "nat \<Rightarrow> byte list \<Rightarrow> int \<Rightarrow> int \<Rightarrow> int \<Rightarrow> media \<Rightarrow> segments \<Rightarrow> shm_peer \<Rightarrow> (int \<times> shm_peer) run" where
  "SHM_BackNFrame fuel buf iID iSteps iKeyFlag = SHM_BackNFrameNolock fuel buf iID iSteps iKeyFlag True"

definition SHM_ForwardNFrame ::
  "nat \<Rightarrow> byte list \<Rightarrow> int \<Rightarrow> int \<Rightarrow> int \<Rightarrow> media \<Rightarrow> segments \<Rightarrow> shm_peer \<Rightarrow> (int \<times> shm_peer) run" where
  "SHM_ForwardNFrame fuel buf iID iSteps iKeyFlag = SHM_BackNFrameNolock fuel buf iID iSteps iKeyFlag False"

definition SHM_RefreshNolock ::
  "nat \<Rightarrow> byte list \<Rightarrow> int \<Rightarrow> int \<Rightarrow> media \<Rightarrow> segments \<Rightarrow> shm_peer \<Rightarrow> (int \<times> shm_peer) run" where
  "SHM_RefreshNolock fuel buf iID iKeyFlag mt segs p =
     (case SHM_GetReadObject mt segs p iID of
        None \<Rightarrow> Returned (SHM_ENUM_ERROR, p)
      | Some (info, m) \<Rightarrow>
          case Refresh m of
            None \<Rightarrow> Fault
          | Some (rtn, r) \<Rightarrow>
              let p' = set_place mt iID r p in
              if iKeyFlag = 1 then
                case GetExtras m buf r of
                  None \<Rightarrow> Fault
                | Some (_, buf') \<Rightarrow>
                    if \<not> key_frame_flag buf' then SHM_BackNFrameNolock fuel buf iID 1 iKeyFlag True mt segs p'
                    else Returned (rtn, p')
              else Returned (rtn, p'))"

definition SHM_Refresh ::
  "nat \<Rightarrow> byte list \<Rightarrow> int \<Rightarrow> int \<Rightarrow> media \<Rightarrow> segments \<Rightarrow> shm_peer \<Rightarrow> (int \<times> shm_peer) run" where
  "SHM_Refresh = SHM_RefreshNolock"

definition SHM_Distance2Newest :: "int \<Rightarrow> media \<Rightarrow> segments \<Rightarrow> shm_peer \<Rightarrow> int run" where
  "SHM_Distance2Newest iID mt segs p =
     (case SHM_GetReadObject mt segs p iID of
        None \<Rightarrow> Returned SHM_ENUM_ERROR
      | Some (info, m) \<Rightarrow>
          case Distance2Newest m (uiPos info, uiSeq info) of None \<Rightarrow> Fault | Some d \<Rightarrow> Returned d)"

definition SHM_GetFrameExtras :: "int \<Rightarrow> byte list \<Rightarrow> media \<Rightarrow> segments \<Rightarrow> shm_peer \<Rightarrow> (int \<times> byte list) run" where
  "SHM_GetFrameExtras iID pcarrExtras mt segs p =
     (case SHM_GetReadObject mt segs p iID of
        None \<Rightarrow> Returned (SHM_ENUM_ERROR, pcarrExtras)
      | Some (info, m) \<Rightarrow>
          case GetExtras m pcarrExtras (uiPos info, uiSeq info) of None \<Rightarrow> Fault | Some x \<Rightarrow> Returned x)"

section \<open>Reading\<close>

definition read_from ::
  "int \<Rightarrow> int \<Rightarrow> media \<Rightarrow> segments \<Rightarrow> shm_peer \<Rightarrow> (int \<times> (byte list \<times> byte list) option \<times> shm_peer) run" where
  "read_from iID buf_len mt segs p =
     (case SHM_GetReadObject mt segs p iID of
        None \<Rightarrow> Returned (SHM_ENUM_ERROR, None, p)
      | Some (info, m) \<Rightarrow>
          case ReadFrame True buf_len m (uiPos info, uiSeq info) of
            None \<Rightarrow> Fault
          | Some (rtn, got, r) \<Rightarrow>
              Returned (if rtn = SHM_ENUM_GET_A_NEW_FRAME \<and> mt = SHM_ENUM_MEDIA_TYPE_VIDEO \<and>
                           (case got of Some (_, extras) \<Rightarrow> key_frame_flag extras | None \<Rightarrow> False)
                        then SHM_ENUM_GET_A_NEW_KEY_FRAME else rtn, got, set_place mt iID r p))"

definition SHM_ReadFrameWithExtras ::
  "nat \<Rightarrow> byte list \<Rightarrow> int \<Rightarrow> int \<Rightarrow> media \<Rightarrow> segments \<Rightarrow> shm_peer \<Rightarrow>
   (int \<times> (byte list \<times> byte list) option \<times> shm_peer) run" where
  "SHM_ReadFrameWithExtras fuel buf iID buf_len mt segs p =
     (case SHM_GetReadObject mt segs p iID of
        None \<Rightarrow> Returned (SHM_ENUM_ERROR, None, p)
      | Some (info, m) \<Rightarrow>
          if IsInitState (uiPos info) then
            let iKeyFlag = (if mt = SHM_ENUM_MEDIA_TYPE_VIDEO \<and>
                               ucCodec (carrUserDefinedInfo m) = SHM_ENUM_VIDEO_CODEC_TYPE_H264 then 1 else 0) in
            case SHM_RefreshNolock fuel buf iID iKeyFlag mt segs p of
              Running \<Rightarrow> Running
            | Fault \<Rightarrow> Fault
            | Returned (ret, p') \<Rightarrow>
                if ret < 0 then Returned (SHM_ENUM_NO_FRAME, None, p') else read_from iID buf_len mt segs p'
          else read_from iID buf_len mt segs p)"

section \<open>The writing process\<close>

text \<open>The fields of the writer's object beside the segment, with the key of the segment.\<close>

record shm_writer =
  w_size :: int
  w_pos :: cuint
  w_seq :: cuint

record shm_pool =
  g_mapShmVideoWrite :: "int \<Rightarrow> shm_writer option"
  g_mapShmAudioWrite :: "int \<Rightarrow> shm_writer option"

definition shm_writes :: "media \<Rightarrow> shm_pool \<Rightarrow> int \<Rightarrow> shm_writer option" where
  "shm_writes mt p = (if mt = SHM_ENUM_MEDIA_TYPE_VIDEO then g_mapShmVideoWrite p else g_mapShmAudioWrite p)"

definition with_writes :: "media \<Rightarrow> ((int \<Rightarrow> shm_writer option) \<Rightarrow> int \<Rightarrow> shm_writer option) \<Rightarrow> shm_pool \<Rightarrow> shm_pool" where
  "with_writes mt g p =
     (if mt = SHM_ENUM_MEDIA_TYPE_VIDEO then p\<lparr>g_mapShmVideoWrite := g (g_mapShmVideoWrite p)\<rparr>
      else p\<lparr>g_mapShmAudioWrite := g (g_mapShmAudioWrite p)\<rparr>)"

definition writer_obj :: "byte list \<Rightarrow> shm_writer \<Rightarrow> shm_obj" where
  "writer_obj m w = \<lparr>m_pcShm = m, m_iShmSize = w_size w, m_uiFramePos = w_pos w, m_uiFrameSeq = w_seq w\<rparr>"

definition obj_writer :: "shm_obj \<Rightarrow> shm_writer" where
  "obj_writer w = \<lparr>w_size = m_iShmSize w, w_pos = m_uiFramePos w, w_seq = m_uiFrameSeq w\<rparr>"

definition SHM_VIDEO_DEFAULT_MAX_FRAME_SIZE :: int where "SHM_VIDEO_DEFAULT_MAX_FRAME_SIZE = 100 * 1024"
definition SHM_AUDIO_DEFAULT_MAX_FRAME_SIZE :: int where "SHM_AUDIO_DEFAULT_MAX_FRAME_SIZE = 4096"
definition SHM_VIDEO_DEFAULT_SHM_SIZE :: int where "SHM_VIDEO_DEFAULT_SHM_SIZE = 3670016"
definition SHM_AUDIO_DEFAULT_SHM_SIZE :: int where "SHM_AUDIO_DEFAULT_SHM_SIZE = 409600"

text \<open>\<^verbatim>\<open>shmget(key, size, IPC_CREAT)\<close>: the segment of the key when it is large enough, else a new one of zeros;
  \<open>room\<close> says whether the system can create one.\<close>

definition shmget_creat :: "bool \<Rightarrow> segments \<Rightarrow> int \<Rightarrow> int \<Rightarrow> byte list option" where
  "shmget_creat room segs key sz =
     (case segs key of
        Some m \<Rightarrow> if sz \<le> int (length m) then Some m else None
      | None \<Rightarrow> if room \<and> 0 < sz then Some (replicate (nat sz) 0) else None)"

text \<open>\<^verbatim>\<open>SHM_VideoInitWrite\<close> and \<^verbatim>\<open>SHM_AudioInitWrite\<close>, which differ in the map, the keys and the defaults.\<close>

definition SHM_InitWrite ::
  "media \<Rightarrow> bool \<Rightarrow> int \<Rightarrow> int \<Rightarrow> int \<Rightarrow> byte list \<Rightarrow> segments \<Rightarrow> shm_pool \<Rightarrow> (int \<times> segments \<times> shm_pool) run" where
  "SHM_InitWrite mt room profile iSegSize iMaxFrame info segs p =
     (if shm_writes mt p profile \<noteq> None then Returned (SHM_ENUM_OK, segs, p)
      else
        let video = (mt = SHM_ENUM_MEDIA_TYPE_VIDEO);
            shm_size = (if iSegSize = 0 then if video then SHM_VIDEO_DEFAULT_SHM_SIZE else SHM_AUDIO_DEFAULT_SHM_SIZE
                    else iSegSize);
            max_frame = (if iMaxFrame = 0
                         then if video then SHM_VIDEO_DEFAULT_MAX_FRAME_SIZE else SHM_AUDIO_DEFAULT_MAX_FRAME_SIZE
                         else iMaxFrame);
            key = shm_key mt profile
        in case shmget_creat room segs key shm_size of
             None \<Rightarrow> Returned (SHM_ENUM_ERROR, segs, p)
           | Some m \<Rightarrow>
               case ShmWrite shm_size max_frame info m of
                 None \<Rightarrow> Fault
               | Some w \<Rightarrow> Returned (SHM_ENUM_OK, segs(key \<mapsto> m_pcShm w),
                                  with_writes mt (\<lambda>f. f(profile \<mapsto> obj_writer w)) p))"

definition SHM_WriteFrame ::
  "media \<Rightarrow> int \<Rightarrow> byte list \<Rightarrow> int \<Rightarrow> byte list \<Rightarrow> segments \<Rightarrow> shm_pool \<Rightarrow> (int \<times> segments \<times> shm_pool) run" where
  "SHM_WriteFrame mt profile pcBuf iBufLen pcExtras segs p =
     (case (shm_writes mt p profile, segs (shm_key mt profile)) of
        (Some w, Some m) \<Rightarrow>
          (case WriteFrame pcBuf iBufLen pcExtras (writer_obj m w) of
             None \<Rightarrow> Fault
           | Some (rtn, w') \<Rightarrow> Returned (rtn, segs(shm_key mt profile \<mapsto> m_pcShm w'),
                                    with_writes mt (\<lambda>f. f(profile \<mapsto> obj_writer w')) p))
      | _ \<Rightarrow> Returned (SHM_ENUM_ERROR, segs, p))"

definition SHM_DetachWrite :: "media \<Rightarrow> int \<Rightarrow> shm_pool \<Rightarrow> shm_pool" where
  "SHM_DetachWrite mt profile = with_writes mt (\<lambda>f. f(profile := None))"

definition SHM_SetHeaderInfoWithProfileNO :: "media \<Rightarrow> int \<Rightarrow> byte list \<Rightarrow> segments \<Rightarrow> shm_pool \<Rightarrow> int \<times> segments" where
  "SHM_SetHeaderInfoWithProfileNO mt profile info segs p =
     (case (shm_writes mt p profile, segs (shm_key mt profile)) of
        (Some w, Some m) \<Rightarrow> (SHM_ENUM_OK, segs(shm_key mt profile \<mapsto> m_pcShm (SetHeaderInfo info (writer_obj m w))))
      | _ \<Rightarrow> (SHM_ENUM_ERROR, segs))"

definition SHM_GetHeaderInfoWithID :: "int \<Rightarrow> media \<Rightarrow> segments \<Rightarrow> shm_peer \<Rightarrow> int \<times> byte list option" where
  "SHM_GetHeaderInfoWithID iID mt segs p =
     (case SHM_GetReadObject mt segs p iID of
        None \<Rightarrow> (SHM_ENUM_ERROR, None)
      | Some (info, m) \<Rightarrow> (SHM_ENUM_OK, Some (carrUserDefinedInfo m)))"

definition SHM_GetHeaderInfoWithProfileNO :: "media \<Rightarrow> int \<Rightarrow> segments \<Rightarrow> shm_pool \<Rightarrow> int \<times> byte list option" where
  "SHM_GetHeaderInfoWithProfileNO mt profile segs p =
     (case (shm_writes mt p profile, segs (shm_key mt profile)) of
        (Some w, Some m) \<Rightarrow> (SHM_ENUM_OK, Some (GetHeaderInfo (writer_obj m w)))
      | _ \<Rightarrow> (SHM_ENUM_ERROR, None))"

definition SHM_SetHeaderInfoWithID :: "int \<Rightarrow> byte list \<Rightarrow> media \<Rightarrow> segments \<Rightarrow> shm_peer \<Rightarrow> int \<times> segments" where
  "SHM_SetHeaderInfoWithID iID pcHeaderInfo mt segs p =
     (case SHM_GetReadObject mt segs p iID of
        None \<Rightarrow> (SHM_ENUM_ERROR, segs)
      | Some (info, m) \<Rightarrow>
          (SHM_ENUM_OK, segs(shm_key mt (cProfileNO info) \<mapsto> put_at 20 (take 32 pcHeaderInfo) m)))"

text \<open>One round of \<^verbatim>\<open>SHM_CaptureThread\<close>: \<open>pcBuf\<close> and \<open>iBufSize\<close> are what the capture function gave.\<close>

definition SHM_CaptureThread ::
  "media \<Rightarrow> int \<Rightarrow> byte list \<Rightarrow> int \<Rightarrow> segments \<Rightarrow> shm_pool \<Rightarrow> (segments \<times> shm_pool) run" where
  "SHM_CaptureThread mt profile pcBuf iBufSize segs p =
     (if iBufSize > 0 then
        let flag = (if pcBuf ! 5 = 0x10 then SHM_ENUM_VIDEO_FRAME_TYPE_KEY else SHM_ENUM_VIDEO_FRAME_TYPE_NORMAL);
            extras = (replicate SHM_SIZE_OF_FRAME_EXTRAS 0xff)[19 := flag]
        in case SHM_WriteFrame mt profile pcBuf iBufSize extras segs p of
             Running \<Rightarrow> Running
           | Fault \<Rightarrow> Fault
           | Returned (_, segs', p') \<Rightarrow> Returned (segs', p')
      else Returned (segs, p))"

end
