(* ===== verification/ShmStreams.thy ===== *)
theory ShmStreams
  imports ShmApi
begin

text \<open>
  What a stream of the shared memory library promises to its writer and its readers: the segment holds the
  newest frames written, a reader gets them in order, a new reader of an H264 stream starts at the newest key frame.
\<close>

section \<open>A stream and a reader of it\<close>

definition stream_ok :: "media \<Rightarrow> int \<Rightarrow> segments \<Rightarrow> shm_pool \<Rightarrow> shm_obj \<Rightarrow> placed \<Rightarrow> placed \<Rightarrow> bool" where
  "stream_ok mt profile segs pool w old cur \<longleftrightarrow>
     shm_writes mt pool profile = Some (obj_writer w) \<and> segs (shm_key mt profile) = Some (m_pcShm w) \<and>
     ring_inv w old cur \<and> sized w (old @ cur)"

definition peer_at :: "media \<Rightarrow> int \<Rightarrow> int \<Rightarrow> shm_peer \<Rightarrow> shm_obj \<Rightarrow> placed \<Rightarrow> nat \<Rightarrow> bool" where
  "peer_at mt profile iID peer w held i \<longleftrightarrow>
     (\<exists>info. shm_infos mt peer iID = Some info \<and> cProfileNO info = profile \<and> profile \<in> shm_reads mt peer \<and>
        reader_at w held i (uiPos info, uiSeq info))"

lemma infos_simps [simp]:
  "shm_infos mt (with_infos mt g p) = g (shm_infos mt p)"
  "mt' \<noteq> mt \<Longrightarrow> shm_infos mt' (with_infos mt g p) = shm_infos mt' p"
  "shm_infos mt' (with_reads mt h p) = shm_infos mt' p"
  "shm_reads mt' (with_infos mt g p) = shm_reads mt' p"
  "shm_reads mt (with_reads mt h p) = h (shm_reads mt p)"
  "shm_writes mt (with_writes mt k q) = k (shm_writes mt q)"
  by (cases mt; cases mt'; simp add: shm_infos_def with_infos_def shm_reads_def with_reads_def shm_writes_def with_writes_def)+

lemma writer_obj_writer [simp]:
  "writer_obj (m_pcShm w) (obj_writer w) = w" "obj_writer (writer_obj m v) = v" "m_pcShm (writer_obj m v) = m"
  by (simp_all add: writer_obj_def obj_writer_def)

lemma peer_object:
  assumes "peer_at mt profile iID peer w held i" "segs (shm_key mt profile) = Some m"
  shows "\<exists>info. SHM_GetReadObject mt segs peer iID = Some (info, m) \<and> shm_infos mt peer iID = Some info \<and>
      cProfileNO info = profile \<and> reader_at w held i (uiPos info, uiSeq info) \<and> \<not> IsInitState (uiPos info)"
  using assms by (auto simp: peer_at_def SHM_GetReadObject_def reader_at_def Let_def IsInitState_def SHM_FRAME_INITIAL_POSITION_def)

lemma peer_moved:
  assumes "peer_at mt profile iID peer w held i" "reader_at w' held' j r"
  shows "peer_at mt profile iID (set_place mt iID r peer) w' held' j"
  using assms by (cases r) (auto simp: peer_at_def set_place_def)

section \<open>Writing\<close>

fun write_frames :: "media \<Rightarrow> int \<Rightarrow> (byte list \<times> byte list) list \<Rightarrow> segments \<Rightarrow> shm_pool \<Rightarrow> (segments \<times> shm_pool) option" where
  "write_frames mt profile [] segs pool = Some (segs, pool)"
| "write_frames mt profile ((data, extras) # fs) segs pool =
     (case SHM_WriteFrame mt profile data (int (length data)) extras segs pool of
        Returned (rtn, segs', pool') \<Rightarrow> if rtn = SHM_ENUM_OK then write_frames mt profile fs segs' pool' else None
      | _ \<Rightarrow> None)"

lemma payload_new_frame [simp]: "payload (p, new_frame data extras w) = (data, extras)"
  by (simp add: payload_def new_frame_def)

lemma pushed_payload:
  "pushed w held data extras w' held' \<Longrightarrow>
   held' \<noteq> [] \<and> suffix (List.map payload held') (List.map payload held @ [(data, extras)]) \<and>
   payload (last held') = (data, extras) \<and> length held' \<le> length held + 1"
  unfolding pushed_def by (elim exE conjE) (auto simp: suffix_def)

lemma stream_write:
  assumes s: "stream_ok mt profile segs pool w old cur" and f: "frame_fits w (data, extras)"
    and seq: "unat (m_uiFrameSeq w) + 1 < 2 ^ 32 - 2"
  shows "\<exists>segs' pool' w' old' cur'.
      SHM_WriteFrame mt profile data (int (length data)) extras segs pool = Returned (SHM_ENUM_OK, segs', pool') \<and>
      stream_ok mt profile segs' pool' w' old' cur' \<and> pushed w (old @ cur) data extras w' (old' @ cur') \<and>
      (\<forall>k. k \<noteq> shm_key mt profile \<longrightarrow> segs' k = segs k)"
proof -
  have s': "shm_writes mt pool profile = Some (obj_writer w)" "segs (shm_key mt profile) = Some (m_pcShm w)"
    "ring_inv w old cur" "sized w (old @ cur)"
    using s by (simp_all add: stream_ok_def)
  obtain w' old' cur' where w': "WriteFrame data (int (length data)) extras w = Some (SHM_ENUM_OK, w')"
    "ring_inv w' old' cur'" "pushed w (old @ cur) data extras w' (old' @ cur')"
    using write_step [OF s'(3) f seq] by blast
  have "sized w' (old' @ cur')" by (rule pushed_sized [OF w'(3) s'(4) f])
  then show ?thesis using s' w' by (auto simp: SHM_WriteFrame_def stream_ok_def)
qed

lemma frame_fits_pushed: "pushed w held data extras w' held' \<Longrightarrow> frame_fits w' f = frame_fits w f"
  unfolding pushed_def frame_fits_def by (elim exE conjE) simp

lemma seq_pushed:
  "pushed w held data extras w' held' \<Longrightarrow> unat (m_uiFrameSeq w) + 1 < 2 ^ 32 \<Longrightarrow>
   unat (m_uiFrameSeq w') = unat (m_uiFrameSeq w) + 1"
  unfolding pushed_def by (elim exE conjE) (simp add: unat_small_add)

lemma write_frames_ok:
  "stream_ok mt profile segs pool w old cur \<Longrightarrow> \<forall>f \<in> set fs. frame_fits w f \<Longrightarrow>
   unat (m_uiFrameSeq w) + length fs < 2 ^ 32 - 2 \<Longrightarrow>
   \<exists>segs' pool' w' old' cur'. write_frames mt profile fs segs pool = Some (segs', pool') \<and>
     stream_ok mt profile segs' pool' w' old' cur' \<and>
     suffix (List.map payload (old' @ cur')) (List.map payload (old @ cur) @ fs) \<and>
     (old @ cur \<noteq> [] \<or> fs \<noteq> [] \<longrightarrow> old' @ cur' \<noteq> []) \<and> (\<forall>k. k \<noteq> shm_key mt profile \<longrightarrow> segs' k = segs k)"
proof (induction fs arbitrary: segs pool w old cur)
  case Nil
  then show ?case by fastforce
next
  case (Cons f fs)
  obtain data extras where f: "f = (data, extras)" by (cases f)
  obtain segs1 pool1 w1 old1 cur1 where one:
    "SHM_WriteFrame mt profile data (int (length data)) extras segs pool = Returned (SHM_ENUM_OK, segs1, pool1)"
    "stream_ok mt profile segs1 pool1 w1 old1 cur1" "pushed w (old @ cur) data extras w1 (old1 @ cur1)"
    "\<forall>k. k \<noteq> shm_key mt profile \<longrightarrow> segs1 k = segs k"
    using stream_write [OF Cons.prems(1), of data extras] Cons.prems(2,3) f by auto
  note P = pushed_payload [OF one(3)]
  have pre: "\<forall>g \<in> set fs. frame_fits w1 g" "unat (m_uiFrameSeq w1) + length fs < 2 ^ 32 - 2"
    using Cons.prems(2,3) frame_fits_pushed [OF one(3)] seq_pushed [OF one(3)] by auto
  obtain segs2 pool2 w2 old2 cur2 where rest: "write_frames mt profile fs segs1 pool1 = Some (segs2, pool2)"
    "stream_ok mt profile segs2 pool2 w2 old2 cur2"
    "suffix (List.map payload (old2 @ cur2)) (List.map payload (old1 @ cur1) @ fs)" "old1 @ cur1 \<noteq> [] \<or> fs \<noteq> [] \<longrightarrow> old2 @ cur2 \<noteq> []"
    "\<forall>k. k \<noteq> shm_key mt profile \<longrightarrow> segs2 k = segs1 k"
    using Cons.IH [OF one(2) pre] by blast
  have "suffix (List.map payload (old1 @ cur1) @ fs) ((List.map payload (old @ cur) @ [f]) @ fs)"
    using P f by (auto simp: suffix_def)
  then have "suffix (List.map payload (old2 @ cur2)) (List.map payload (old @ cur) @ f # fs)"
    using rest(3) suffix_order.trans by fastforce
  moreover have "old2 @ cur2 \<noteq> []" using rest(4) P by blast
  moreover have "write_frames mt profile (f # fs) segs pool = Some (segs2, pool2)" using one(1) rest(1) f by simp
  moreover have "\<forall>k. k \<noteq> shm_key mt profile \<longrightarrow> segs2 k = segs k" using one(4) rest(5) by simp
  ultimately show ?case using rest(2) by blast
qed

section \<open>A new stream\<close>

definition segment_ok :: "int \<Rightarrow> int \<Rightarrow> bool" where
  "segment_ok shm_size max_frame \<longleftrightarrow> 0 \<le> max_frame \<and> 2 * max_frame + 240 \<le> shm_size \<and> shm_size < 2 ^ 31"

lemma ring_fresh:
  assumes ok: "segment_ok shm_size max_frame" and len: "length m = nat shm_size"
  shows "\<exists>w. ShmWrite shm_size max_frame info m = Some w \<and> ring_inv w [] [] \<and>
    iMaxFrameSize (m_pcShm w) = max_frame \<and> m_uiFrameSeq w = 0 \<and> length (m_pcShm w) = nat shm_size"
proof -
  have sz: "0 \<le> max_frame" "2 * max_frame + 240 \<le> shm_size" "shm_size < 2 ^ 31" using ok by (simp_all add: segment_ok_def)
  let ?n = "nat shm_size" and ?i = "take 32 info"
  have n: "240 \<le> ?n" using sz by simp
  define m0 where "m0 = replicate ?n (0 :: byte)"
  define m1 where "m1 = wr32 16 (word_of_int shm_size) (wr32 12 (word_of_int max_frame) (wr32 0 SHM_FRAME_MAGIC_NUM m0))"
  define m2 where "m2 = put_at 20 ?i (wr32 8 SHM_FRAME_INITIAL_SEQUENCE (wr32 4 SHM_FRAME_START_POSITION m1))"
  have l: "length m0 = ?n" "length m1 = ?n" using n by (simp_all add: m0_def m1_def mem_simps)
  then have l2: "length m2 = ?n" using n by (simp add: m2_def mem_simps)
  have m0: "put_at 0 (replicate ?n 0) m = m0" using len by (simp add: put_at_def m0_def)
  have w: "ShmWrite shm_size max_frame info m = Some \<lparr>m_pcShm = m2, m_iShmSize = shm_size,
      m_uiFramePos = SHM_FRAME_START_POSITION, m_uiFrameSeq = SHM_FRAME_INITIAL_SEQUENCE\<rparr>"
    using sz len by (simp add: ShmWrite_def Let_def m0 m1_def m2_def in_mem_def SHM_SIZE_OF_SHM_HEAD_def)
  have f: "head_magic m2 = SHM_FRAME_MAGIC_NUM" "rd32 12 m2 = word_of_int max_frame"
    "uiNewestFramePos m2 = 52" "uiNewestFrameSeq m2 = 0"
    using n l by (simp_all add: m2_def m1_def head_magic_def uiNewestFramePos_def uiNewestFrameSeq_def rd32_def mem_simps
        SHM_FRAME_START_POSITION_def SHM_FRAME_INITIAL_SEQUENCE_def)
  have mx: "iMaxFrameSize m2 = max_frame"
    using sz sint_of_int32 [of max_frame] by (simp add: iMaxFrameSize_def f(2) in_int32_def)
  have "slice 52 4 m2 = slice 52 4 m0" using n l by (simp add: m2_def m1_def mem_simps)
  also have "\<dots> = replicate 4 0" using n by (simp add: m0_def slice_def)
  finally have "rd32 52 m2 = 0" by (simp add: rd32_def numeral_eq_Suc)
  then have z: "rd32 52 m2 \<noteq> SHM_FRAME_MAGIC_NUM" by (simp add: SHM_FRAME_MAGIC_NUM_def)
  show ?thesis
    unfolding w using sz n l2 f mx z
    by (simp add: ring_inv_def ring_config_def Let_def numbered_def back_linked_def SHM_FRAME_START_POSITION_def
        SHM_FRAME_INITIAL_SEQUENCE_def)
qed

lemma stream_fresh:
  assumes ok: "segment_ok shm_size max_frame" and size: "shm_size \<noteq> 0" "max_frame \<noteq> 0"
    and new: "shm_writes mt pool profile = None" "segs (shm_key mt profile) = None"
  shows "\<exists>segs' pool' w. SHM_InitWrite mt True profile shm_size max_frame info segs pool = Returned (SHM_ENUM_OK, segs', pool') \<and>
    stream_ok mt profile segs' pool' w [] [] \<and> iMaxFrameSize (m_pcShm w) = max_frame \<and> m_uiFrameSeq w = 0 \<and>
    (\<forall>k. k \<noteq> shm_key mt profile \<longrightarrow> segs' k = segs k)"
proof -
  have "0 < shm_size" using ok by (simp add: segment_ok_def)
  then show ?thesis
    using ring_fresh [OF ok, of "replicate (nat shm_size) 0" info] size new
    by (auto simp: SHM_InitWrite_def shmget_creat_def Let_def stream_ok_def sized_def)
qed

section \<open>Reading on\<close>

definition frame_code :: "media \<Rightarrow> byte list \<Rightarrow> int" where
  "frame_code mt extras =
     (if mt = SHM_ENUM_MEDIA_TYPE_VIDEO \<and> key_frame_flag extras then SHM_ENUM_GET_A_NEW_KEY_FRAME
      else SHM_ENUM_GET_A_NEW_FRAME)"

lemma peer_reads:
  assumes s: "stream_ok mt profile segs pool w old cur" and p: "peer_at mt profile iID peer w (old @ cur) i"
    and i: "i < length (old @ cur)" and buf: "iMaxFrameSize (m_pcShm w) \<le> buf_len"
  shows "\<exists>peer'. SHM_ReadFrameWithExtras fuel buf iID buf_len mt segs peer =
      Returned (frame_code mt (snd (payload ((old @ cur) ! i))), Some (payload ((old @ cur) ! i)), peer') \<and>
      peer_at mt profile iID peer' w (old @ cur) (Suc i)"
proof -
  have s': "segs (shm_key mt profile) = Some (m_pcShm w)" "ring_inv w old cur" "sized w (old @ cur)"
    using s by (simp_all add: stream_ok_def)
  obtain info where info: "SHM_GetReadObject mt segs peer iID = Some (info, m_pcShm w)"
    "reader_at w (old @ cur) i (uiPos info, uiSeq info)" "\<not> IsInitState (uiPos info)"
    using peer_object [OF p, of segs, OF s'(1)] by blast
  obtain r where r: "ReadFrame True buf_len (m_pcShm w) (uiPos info, uiSeq info) =
      Some (SHM_ENUM_GET_A_NEW_FRAME, Some (payload ((old @ cur) ! i)), r)" "reader_at w (old @ cur) (Suc i) r"
    using read_at [OF s'(2,3) info(2) i buf] by blast
  have "read_from iID buf_len mt segs peer = Returned (frame_code mt (snd (payload ((old @ cur) ! i))),
      Some (payload ((old @ cur) ! i)), set_place mt iID r peer)"
    using info(1) r(1) by (cases "payload ((old @ cur) ! i)") (simp add: read_from_def frame_code_def)
  then show ?thesis using info(1,3) peer_moved [OF p r(2)] by (simp add: SHM_ReadFrameWithExtras_def)
qed

lemma peer_waits:
  assumes s: "stream_ok mt profile segs pool w old cur"
    and p: "peer_at mt profile iID peer w (old @ cur) (length (old @ cur))" and ne: "old @ cur \<noteq> []"
  shows "\<exists>peer'. SHM_ReadFrameWithExtras fuel buf iID buf_len mt segs peer = Returned (SHM_ENUM_NO_NEW_FRAME, None, peer') \<and>
      peer_at mt profile iID peer' w (old @ cur) (length (old @ cur))"
proof -
  have s': "segs (shm_key mt profile) = Some (m_pcShm w)" "ring_inv w old cur" using s by (simp_all add: stream_ok_def)
  obtain info where info: "SHM_GetReadObject mt segs peer iID = Some (info, m_pcShm w)"
    "reader_at w (old @ cur) (length (old @ cur)) (uiPos info, uiSeq info)" "\<not> IsInitState (uiPos info)"
    using peer_object [OF p, of segs, OF s'(1)] by blast
  show ?thesis
    using info read_end [OF s'(2) info(2) ne] peer_moved [OF p info(2)]
    by (simp add: SHM_ReadFrameWithExtras_def read_from_def shm_codes)
qed

text \<open>Reading a stream that is not written meanwhile is a cursor over the frames behind the reader.\<close>

definition next_frame :: "media \<Rightarrow> int \<Rightarrow> int \<Rightarrow> segments \<Rightarrow> shm_peer \<Rightarrow> ((byte list \<times> byte list) \<times> shm_peer) option" where
  "next_frame mt iID buf_len segs peer =
     (case SHM_ReadFrameWithExtras 0 [] iID buf_len mt segs peer of
        Returned (rtn, Some x, peer') \<Rightarrow>
          if rtn = SHM_ENUM_GET_A_NEW_FRAME \<or> rtn = SHM_ENUM_GET_A_NEW_KEY_FRAME then Some (x, peer') else None
      | _ \<Rightarrow> None)"

definition place_of :: "media \<Rightarrow> int \<Rightarrow> shm_peer \<Rightarrow> shm_obj \<Rightarrow> placed \<Rightarrow> nat" where
  "place_of mt iID peer w held =
     (case shm_infos mt peer iID of
        None \<Rightarrow> 0 | Some info \<Rightarrow> unat (uiSeq info) + length held - (unat (m_uiFrameSeq w) + 1))"

definition unread :: "media \<Rightarrow> int \<Rightarrow> shm_obj \<Rightarrow> placed \<Rightarrow> shm_peer \<Rightarrow> (byte list \<times> byte list) list" where
  "unread mt iID w held peer = List.map payload (drop (place_of mt iID peer w held) held)"

lemma unread_at: "peer_at mt profile iID peer w held i \<Longrightarrow> unread mt iID w held peer = List.map payload (drop i held)"
  by (auto simp: unread_def place_of_def peer_at_def reader_at_def Let_def)

definition reading :: "media \<Rightarrow> int \<Rightarrow> int \<Rightarrow> segments \<Rightarrow> shm_pool \<Rightarrow> shm_obj \<Rightarrow> placed \<Rightarrow> placed \<Rightarrow> shm_peer \<Rightarrow> bool" where
  "reading mt profile iID segs pool w old cur peer \<longleftrightarrow>
     stream_ok mt profile segs pool w old cur \<and> old @ cur \<noteq> [] \<and> (\<exists>i. peer_at mt profile iID peer w (old @ cur) i)"

interpretation stream: cursor "reading mt profile iID segs pool w old cur" "unread mt iID w (old @ cur)"
  "next_frame mt iID (iMaxFrameSize (m_pcShm w)) segs"
  for mt profile iID segs pool w old cur
proof
  fix peer
  let ?held = "old @ cur" and ?next = "next_frame mt iID (iMaxFrameSize (m_pcShm w)) segs"
  assume a: "reading mt profile iID segs pool w old cur peer"
  then obtain i where i: "peer_at mt profile iID peer w ?held i" and s: "stream_ok mt profile segs pool w old cur"
    and ne: "?held \<noteq> []"
    by (auto simp: reading_def)
  then have le: "i \<le> length ?held" by (auto simp: peer_at_def reader_at_def Let_def)
  have at_end: "?next peer = None" if "i = length ?held"
    using peer_waits [OF s i [unfolded that] ne, of 0 "[]" "iMaxFrameSize (m_pcShm w)"] by (auto simp: next_frame_def)
  have at_frame: "\<exists>peer'. ?next peer = Some (payload (?held ! i), peer') \<and> reading mt profile iID segs pool w old cur peer' \<and>
      unread mt iID w ?held peer = payload (?held ! i) # unread mt iID w ?held peer'" if lt: "i < length ?held"
  proof -
    obtain peer' where p: "SHM_ReadFrameWithExtras 0 [] iID (iMaxFrameSize (m_pcShm w)) mt segs peer =
        Returned (frame_code mt (snd (payload (?held ! i))), Some (payload (?held ! i)), peer')"
      "peer_at mt profile iID peer' w ?held (Suc i)"
      using peer_reads [OF s i lt order_refl] by blast
    have "unread mt iID w ?held peer = payload (?held ! i) # unread mt iID w ?held peer'"
      unfolding unread_at [OF i] unread_at [OF p(2)] Cons_nth_drop_Suc [OF lt, symmetric] by (rule list.map)
    then show ?thesis using p s ne by (auto simp: next_frame_def frame_code_def reading_def)
  qed
  show "unread mt iID w ?held peer = []" if "?next peer = None"
    using at_frame that le unread_at [OF i] by (cases "i = length ?held") auto
  show "reading mt profile iID segs pool w old cur peer' \<and> unread mt iID w ?held peer = x # unread mt iID w ?held peer'"
    if "?next peer = Some (x, peer')" for x peer'
    using at_frame at_end that le by (cases "i = length ?held") auto
qed

lemma peer_kept_end:
  assumes p: "peer_at mt profile iID peer w held (length held)" and w: "pushed w held data extras w' held'"
    and seq: "unat (m_uiFrameSeq w) + 1 < 2 ^ 32"
  shows "peer_at mt profile iID peer w' held' (length held' - 1)"
proof -
  have ne: "Suc 0 \<le> length held'" using pushed_payload [OF w] by (cases held') auto
  then show ?thesis
    using p reader_kept [OF w _ _ _ seq, of "length held"] by (auto simp: peer_at_def)
qed

section \<open>Moving an id\<close>

lemma step_back:
  "ring_inv w old cur \<Longrightarrow> reader_at w (old @ cur) i r \<Longrightarrow> n \<le> i \<Longrightarrow>
   \<exists>r'. step_frames True n (m_pcShm w) r = Returned (0, r') \<and> reader_at w (old @ cur) (i - n) r'"
proof (induction n arbitrary: i r)
  case (Suc n)
  obtain r1 where "MoveBack (m_pcShm w) r = Some (SHM_ENUM_OK, r1)" "reader_at w (old @ cur) (i - 1) r1"
    using back_at [OF Suc.prems(1,2)] Suc.prems(3) by auto
  then show ?case using Suc.IH [of "i - 1" r1] Suc.prems by (simp add: shm_move_def SHM_ENUM_OK_def)
qed auto

lemma step_forward:
  "ring_inv w old cur \<Longrightarrow> sized w (old @ cur) \<Longrightarrow> reader_at w (old @ cur) i r \<Longrightarrow> i + n \<le> length (old @ cur) \<Longrightarrow>
   \<exists>r'. step_frames False n (m_pcShm w) r = Returned (0, r') \<and> reader_at w (old @ cur) (i + n) r'"
proof (induction n arbitrary: i r)
  case (Suc n)
  obtain r1 where "MoveForward (m_pcShm w) r = Some (0, r1)" "reader_at w (old @ cur) (Suc i) r1"
    using forward_at [OF Suc.prems(1-3)] Suc.prems(4) by auto
  then show ?case using Suc.IH [of "Suc i" r1] Suc.prems by (simp add: shm_move_def)
qed auto

definition key_at :: "placed \<Rightarrow> nat \<Rightarrow> bool" where
  "key_at held i \<longleftrightarrow> key_frame_flag (sf_extras (snd (held ! i)))"

text \<open>The search for a key frame stops at the nearest one behind the reader; its own frame does not count.\<close>

lemma step_to_key:
  "ring_inv w old cur \<Longrightarrow> reader_at w (old @ cur) i r \<Longrightarrow> i < length (old @ cur) \<Longrightarrow>
   k \<le> i \<Longrightarrow> key_at (old @ cur) k \<Longrightarrow> \<forall>j. k < j \<and> j \<le> i \<longrightarrow> \<not> key_at (old @ cur) j \<Longrightarrow> k < i \<or> 0 < cnt \<Longrightarrow>
   i - k < fuel \<Longrightarrow>
   \<exists>r'. step_key_frames fuel True 1 cnt buf (m_pcShm w) r = Returned (0, r') \<and> reader_at w (old @ cur) k r'"
proof (induction fuel arbitrary: i r cnt buf)
  case (Suc fuel)
  note e = extras_at [OF Suc.prems(1-3)]
  show ?case
  proof (cases "i = k")
    case True
    then show ?thesis using e Suc.prems(2,5,7) by (auto simp: key_at_def)
  next
    case False
    then have nk: "\<not> key_frame_flag (sf_extras (snd ((old @ cur) ! i)))" using Suc.prems(4,6) by (simp add: key_at_def)
    obtain r1 where r1: "MoveBack (m_pcShm w) r = Some (SHM_ENUM_OK, r1)" "reader_at w (old @ cur) (i - 1) r1"
      using back_at [OF Suc.prems(1,2)] Suc.prems(4) False by auto
    have pre: "i - 1 < length (old @ cur)" "k \<le> i - 1" "\<forall>j. k < j \<and> j \<le> i - 1 \<longrightarrow> \<not> key_at (old @ cur) j"
      "k < i - 1 \<or> 0 < Suc cnt" "i - 1 - k < fuel"
      using Suc.prems(3,4,6,8) False by auto
    obtain r' where "step_key_frames fuel True 1 (Suc cnt) (sf_extras (snd ((old @ cur) ! i))) (m_pcShm w) r1 = Returned (0, r')"
      "reader_at w (old @ cur) k r'"
      using Suc.IH [OF Suc.prems(1) r1(2) pre(1,2) Suc.prems(5) pre(3,4,5)] by blast
    then show ?thesis using e r1(1) nk by (simp add: shm_move_def SHM_ENUM_OK_def)
  qed
qed simp

text \<open>Without a key frame in the segment, the search goes round for ever once the oldest frame leads back to the start.\<close>

lemma step_no_key:
  "ring_inv w old cur \<Longrightarrow> reader_at w (old @ cur) i r \<Longrightarrow> i < length (old @ cur) \<Longrightarrow>
   \<forall>j < length (old @ cur). \<not> key_at (old @ cur) j \<Longrightarrow>
   old \<noteq> [] \<Longrightarrow> cur \<noteq> [] \<Longrightarrow> sf_prev (snd (hd old)) = SHM_FRAME_START_POSITION \<Longrightarrow>
   step_key_frames fuel True 1 cnt buf (m_pcShm w) r = Running"
proof (induction fuel arbitrary: i r cnt buf)
  case (Suc fuel)
  note e = extras_at [OF Suc.prems(1-3)]
  have nk: "\<not> key_frame_flag (sf_extras (snd ((old @ cur) ! i)))" using Suc.prems(3,4) by (simp add: key_at_def)
  obtain r1 i1 where r1: "MoveBack (m_pcShm w) r = Some (SHM_ENUM_OK, r1)" "reader_at w (old @ cur) i1 r1"
    "i1 < length (old @ cur)"
  proof (cases i)
    case 0
    then show ?thesis using that back_from_oldest [OF Suc.prems(1) _ Suc.prems(5,6,7)] Suc.prems(2,6) by fastforce
  next
    case (Suc j)
    then show ?thesis using that back_at [OF Suc.prems(1,2)] Suc.prems(3) by fastforce
  qed
  show ?case
    using e r1(1) nk Suc.IH [OF Suc.prems(1) r1(2,3) Suc.prems(4-7)] by (simp add: shm_move_def SHM_ENUM_OK_def)
qed simp

section \<open>To the newest frame\<close>

lemma refresh_peer:
  assumes s: "stream_ok mt profile segs pool w old cur" and ne: "old @ cur \<noteq> []"
    and p: "shm_infos mt peer iID = Some info" "cProfileNO info = profile" "profile \<in> shm_reads mt peer"
  obtains r where "Refresh (m_pcShm w) = Some (SHM_ENUM_OK, r)" "reader_at w (old @ cur) (length (old @ cur) - 1) r"
    "GetExtras (m_pcShm w) buf r = Some (SHM_ENUM_OK, sf_extras (snd ((old @ cur) ! (length (old @ cur) - 1))))"
    "SHM_GetReadObject mt segs peer iID = Some (info, m_pcShm w)"
    "SHM_GetReadObject mt segs (set_place mt iID r peer) iID = Some (info\<lparr>uiPos := fst r, uiSeq := snd r\<rparr>, m_pcShm w)"
    "peer_at mt profile iID (set_place mt iID r peer) w (old @ cur) (length (old @ cur) - 1)"
    "\<And>r' i. reader_at w (old @ cur) i r' \<Longrightarrow> peer_at mt profile iID (set_place mt iID r' (set_place mt iID r peer)) w (old @ cur) i"
proof -
  have s': "segs (shm_key mt profile) = Some (m_pcShm w)" "ring_inv w old cur" using s by (simp_all add: stream_ok_def)
  obtain r where r: "Refresh (m_pcShm w) = Some (SHM_ENUM_OK, r)" "reader_at w (old @ cur) (length (old @ cur) - 1) r"
    using refresh_at [OF s'(2) ne] by blast
  have lt: "length (old @ cur) - 1 < length (old @ cur)" using ne by (cases "old @ cur") auto
  show ?thesis
    by (rule that [OF r extras_at [OF s'(2) r(2) lt]])
      (use p s' r(2) in \<open>auto simp: SHM_GetReadObject_def set_place_def peer_at_def\<close>)
qed

lemma refresh_to_key:
  assumes s: "stream_ok mt profile segs pool w old cur"
    and p: "shm_infos mt peer iID = Some \<lparr>cProfileNO = profile, uiPos = 0, uiSeq = 0\<rparr>" "profile \<in> shm_reads mt peer"
    and k: "k < length (old @ cur)" "key_at (old @ cur) k" "\<forall>j. k < j \<and> j < length (old @ cur) \<longrightarrow> \<not> key_at (old @ cur) j"
    and fuel: "length (old @ cur) \<le> fuel"
  shows "\<exists>peer'. SHM_RefreshNolock fuel buf iID 1 mt segs peer = Returned (SHM_ENUM_OK, peer') \<and>
    peer_at mt profile iID peer' w (old @ cur) k"
proof -
  have inv: "ring_inv w old cur" and ne: "old @ cur \<noteq> []" using s k(1) by (auto simp: stream_ok_def)
  let ?n = "length (old @ cur) - 1"
  have n: "?n < length (old @ cur)" "k \<le> ?n" "?n - k < fuel" "\<forall>j. k < j \<and> j \<le> ?n \<longrightarrow> \<not> key_at (old @ cur) j"
    using k(1,3) fuel by auto
  obtain r where r: "Refresh (m_pcShm w) = Some (SHM_ENUM_OK, r)" "reader_at w (old @ cur) ?n r"
    "GetExtras (m_pcShm w) buf r = Some (SHM_ENUM_OK, sf_extras (snd ((old @ cur) ! ?n)))"
    "SHM_GetReadObject mt segs peer iID = Some (\<lparr>cProfileNO = profile, uiPos = 0, uiSeq = 0\<rparr>, m_pcShm w)"
    "SHM_GetReadObject mt segs (set_place mt iID r peer) iID =
       Some (\<lparr>cProfileNO = profile, uiPos = 0, uiSeq = 0\<rparr>\<lparr>uiPos := fst r, uiSeq := snd r\<rparr>, m_pcShm w)"
    "peer_at mt profile iID (set_place mt iID r peer) w (old @ cur) ?n"
    "\<And>r' i. reader_at w (old @ cur) i r' \<Longrightarrow> peer_at mt profile iID (set_place mt iID r' (set_place mt iID r peer)) w (old @ cur) i"
    by (rule refresh_peer [OF s ne p(1) _ p(2), of buf]) simp_all
  show ?thesis
  proof (cases "key_at (old @ cur) ?n")
    case True
    then have "k = ?n" using n by (metis le_neq_implies_less order_refl)
    then show ?thesis using True r(1,3,4,6) by (simp add: SHM_RefreshNolock_def key_at_def)
  next
    case False
    then have "k < ?n" using k(2) n(2) by (metis le_neq_implies_less)
    then obtain r' where r': "step_key_frames fuel True 1 0 buf (m_pcShm w) r = Returned (0, r')" "reader_at w (old @ cur) k r'"
      using step_to_key [OF inv r(2) n(1,2) k(2) n(4) _ n(3), of 0 buf] by blast
    then have "SHM_RefreshNolock fuel buf iID 1 mt segs peer =
        Returned (SHM_ENUM_OK, set_place mt iID r' (set_place mt iID r peer))"
      using False r(1,3-5) by (simp add: SHM_RefreshNolock_def key_at_def SHM_BackNFrameNolock_def)
    then show ?thesis using r(7) [OF r'(2)] by blast
  qed
qed

lemma refresh_no_key:
  assumes s: "stream_ok mt profile segs pool w old cur"
    and p: "shm_infos mt peer iID = Some \<lparr>cProfileNO = profile, uiPos = 0, uiSeq = 0\<rparr>" "profile \<in> shm_reads mt peer"
    and k: "\<forall>j < length (old @ cur). \<not> key_at (old @ cur) j"
    and c: "old \<noteq> []" "cur \<noteq> []" "sf_prev (snd (hd old)) = SHM_FRAME_START_POSITION"
  shows "SHM_RefreshNolock fuel buf iID 1 mt segs peer = Running"
proof -
  have inv: "ring_inv w old cur" and ne: "old @ cur \<noteq> []" using s c(1) by (auto simp: stream_ok_def)
  let ?n = "length (old @ cur) - 1"
  have n: "?n < length (old @ cur)" using ne by (cases "old @ cur") auto
  obtain r where r: "Refresh (m_pcShm w) = Some (SHM_ENUM_OK, r)" "reader_at w (old @ cur) ?n r"
    "GetExtras (m_pcShm w) buf r = Some (SHM_ENUM_OK, sf_extras (snd ((old @ cur) ! ?n)))"
    "SHM_GetReadObject mt segs peer iID = Some (\<lparr>cProfileNO = profile, uiPos = 0, uiSeq = 0\<rparr>, m_pcShm w)"
    "SHM_GetReadObject mt segs (set_place mt iID r peer) iID =
       Some (\<lparr>cProfileNO = profile, uiPos = 0, uiSeq = 0\<rparr>\<lparr>uiPos := fst r, uiSeq := snd r\<rparr>, m_pcShm w)"
    by (rule refresh_peer [OF s ne p(1) _ p(2), of buf]) simp_all
  have "\<not> key_frame_flag (sf_extras (snd ((old @ cur) ! ?n)))" using k n by (simp add: key_at_def)
  then show ?thesis
    using step_no_key [OF inv r(2) n k c, of fuel 0 buf] r(1,3-5) by (simp add: SHM_RefreshNolock_def SHM_BackNFrameNolock_def)
qed

section \<open>Ids\<close>

lemma free_id_first:
  "m j = None \<Longrightarrow> i \<le> j \<Longrightarrow> j < MAX_IDS \<Longrightarrow>
   \<exists>k. free_id m i = Some k \<and> i \<le> k \<and> k \<le> j \<and> m k = None \<and> (\<forall>l. i \<le> l \<and> l < k \<longrightarrow> m l \<noteq> None)"
proof (induction m i rule: free_id.induct)
  case (1 m i)
  show ?case
  proof (cases "m i = None")
    case True
    then show ?thesis using 1 by (subst free_id.simps) auto
  next
    case False
    then have "i + 1 \<le> j" using 1(2,3) by (metis add_mono1 le_less zless_imp_add1_zle)
    then obtain k where "free_id m (i + 1) = Some k" "i + 1 \<le> k" "k \<le> j" "m k = None" "\<forall>l. i + 1 \<le> l \<and> l < k \<longrightarrow> m l \<noteq> None"
      using 1 False by auto
    moreover have "m l \<noteq> None" if "i \<le> l" "l < k" for l
      using that False calculation(5) by (cases "l = i") auto
    moreover have "free_id m i = free_id m (i + 1)" using False 1(3,4) by (simp only: free_id.simps [of m i] if_False) auto
    ultimately show ?thesis by force
  qed
qed

section \<open>Different streams\<close>

text \<open>A profile is a \<^verbatim>\<open>char\<close>; the keys of two streams of the library differ.\<close>

lemma shm_key_inj:
  assumes "shm_key mt p = shm_key mt' p'" "\<bar>p\<bar> \<le> 128" "\<bar>p'\<bar> \<le> 128"
  shows "mt = mt' \<and> p = p'"
  using assms by (cases mt; cases mt')
    (auto simp: shm_key_def SHM_VIDEO_DEVICE_BASE_KEY_def SHM_AUDIO_DEVICE_BASE_KEY_def SHM_KEY_MULTI_BASE_def)

text \<open>The interface looks at no other segment than that of the id's stream.\<close>

lemma object_same_segment:
  assumes "shm_infos mt peer iID = Some info" "cProfileNO info = profile" "segs' (shm_key mt profile) = segs (shm_key mt profile)"
  shows "SHM_GetReadObject mt segs' peer iID = SHM_GetReadObject mt segs peer iID"
  using assms by (simp add: SHM_GetReadObject_def)

lemma infos_set_place:
  "shm_infos mt peer iID = Some info \<Longrightarrow> shm_infos mt (set_place mt iID r peer) iID = Some (info\<lparr>uiPos := fst r, uiSeq := snd r\<rparr>)"
  by (simp add: set_place_def)

lemma back_same_segment:
  assumes "shm_infos mt peer iID = Some info" "cProfileNO info = profile" "segs' (shm_key mt profile) = segs (shm_key mt profile)"
  shows "SHM_BackNFrameNolock fuel buf iID n k b mt segs' peer = SHM_BackNFrameNolock fuel buf iID n k b mt segs peer"
  by (simp only: SHM_BackNFrameNolock_def object_same_segment [of mt peer iID info profile segs' segs, OF assms])

lemma back_same_profile:
  assumes "shm_infos mt peer iID = Some info" "SHM_BackNFrameNolock fuel buf iID n k b mt segs peer = Returned (ret, peer')"
  shows "\<exists>info'. shm_infos mt peer' iID = Some info' \<and> cProfileNO info' = cProfileNO info"
  using assms by (auto simp: SHM_BackNFrameNolock_def infos_set_place split: option.splits run.splits if_splits prod.splits)

lemma refresh_same_segment:
  assumes "shm_infos mt peer iID = Some info" "cProfileNO info = profile" "segs' (shm_key mt profile) = segs (shm_key mt profile)"
  shows "SHM_RefreshNolock fuel buf iID k mt segs' peer = SHM_RefreshNolock fuel buf iID k mt segs peer"
proof -
  have "SHM_BackNFrameNolock fuel buf iID 1 k True mt segs' (set_place mt iID r peer) =
      SHM_BackNFrameNolock fuel buf iID 1 k True mt segs (set_place mt iID r peer)" for r
    by (rule back_same_segment [OF infos_set_place [OF assms(1)]]) (use assms(2,3) in simp_all)
  then show ?thesis
    by (simp only: SHM_RefreshNolock_def Let_def object_same_segment [of mt peer iID info profile segs' segs, OF assms])
qed

lemma refresh_same_profile:
  assumes "shm_infos mt peer iID = Some info" "SHM_RefreshNolock fuel buf iID k mt segs peer = Returned (ret, peer')"
  shows "\<exists>info'. shm_infos mt peer' iID = Some info' \<and> cProfileNO info' = cProfileNO info"
  using assms back_same_profile [OF infos_set_place [OF assms(1)]]
  by (fastforce simp: SHM_RefreshNolock_def infos_set_place Let_def split: option.splits if_splits)

lemma read_same_segment:
  assumes "shm_infos mt peer iID = Some info" "cProfileNO info = profile" "segs' (shm_key mt profile) = segs (shm_key mt profile)"
  shows "SHM_ReadFrameWithExtras fuel buf iID buf_len mt segs' peer = SHM_ReadFrameWithExtras fuel buf iID buf_len mt segs peer"
proof -
  have read: "read_from iID buf_len mt segs' p = read_from iID buf_len mt segs p"
    if "shm_infos mt p iID = Some i" "cProfileNO i = profile" for p i
    by (simp only: read_from_def object_same_segment [of mt p iID i profile segs' segs, OF that assms(3)])
  have later: "read_from iID buf_len mt segs' p = read_from iID buf_len mt segs p"
    if "SHM_RefreshNolock fuel buf iID k mt segs peer = Returned (ret, p)" for p ret k
    using refresh_same_profile [OF assms(1) that] read assms(2) by blast
  show ?thesis
    using read [OF assms(1,2)] later
    by (auto simp: SHM_ReadFrameWithExtras_def object_same_segment [of mt peer iID info profile segs' segs, OF assms]
        refresh_same_segment [of mt peer iID info profile segs' segs, OF assms] split: option.splits run.splits)
qed

end
