(* ===== verification/ShmPromises.thy ===== *)
theory ShmPromises
  imports ShmStreams
begin

text \<open>
  The properties of the shared memory streams, on the model of the library's interface, with a sample ring:
  a segment of 340 bytes for frames of at most 48, after four writes that went round it once.
\<close>

section \<open>A sample ring\<close>

definition sample_extras :: "byte \<Rightarrow> byte list" where
  "sample_extras flag = replicate 19 0 @ [flag, 0, 0, 0, 0]"

definition sample_frames :: "byte \<Rightarrow> (byte list \<times> byte list) list" where
  "sample_frames flag =
     [(replicate 48 1, sample_extras 0), (replicate 48 2, sample_extras 0), (replicate 48 3, sample_extras flag),
      ([4], sample_extras 0)]"

fun sample_writes :: "(byte list \<times> byte list) list \<Rightarrow> shm_obj \<Rightarrow> shm_obj option" where
  "sample_writes [] w = Some w"
| "sample_writes ((data, extras) # fs) w =
     (case WriteFrame data (int (length data)) extras w of Some (_, w') \<Rightarrow> sample_writes fs w' | None \<Rightarrow> None)"

definition sample_ring :: "byte \<Rightarrow> shm_obj option" where
  "sample_ring flag =
     (case ShmWrite 340 48 (1 # 3 # replicate 30 0) (replicate 340 0) of
        Some w \<Rightarrow> sample_writes (sample_frames flag) w | None \<Rightarrow> None)"

definition sample_old :: "byte \<Rightarrow> placed" where
  "sample_old flag =
     [(144, \<lparr>sf_data = replicate 48 2, sf_extras = sample_extras 0, sf_seq = 2, sf_prev = 52\<rparr>),
      (236, \<lparr>sf_data = replicate 48 3, sf_extras = sample_extras flag, sf_seq = 3, sf_prev = 144\<rparr>)]"

definition sample_cur :: placed where
  "sample_cur = [(52, \<lparr>sf_data = [4], sf_extras = sample_extras 0, sf_seq = 4, sf_prev = 236\<rparr>)]"

definition sample_layout :: "shm_obj \<Rightarrow> placed \<Rightarrow> placed \<Rightarrow> bool" where
  "sample_layout w old cur \<longleftrightarrow>
     (let m = m_pcShm w; held = old @ cur in
      m_iShmSize w = 340 \<and> length m = 340 \<and> head_magic m = SHM_FRAME_MAGIC_NUM \<and> iMaxFrameSize m = 48 \<and>
      m_uiFramePos w = 100 \<and>
      rd32 100 m \<noteq> SHM_FRAME_MAGIC_NUM \<and> packed 52 cur 100 \<and> packed 144 old 340 \<and>
      linked m held 100 \<and> numbered 4 held \<and> back_linked held \<and> uiNewestFrameSeq m = 4 \<and> m_uiFrameSeq w = 4 \<and> uiNewestFramePos m = 52 \<and>
      carrUserDefinedInfo m = 1 # 3 # replicate 30 0)"

lemma sample_plain: "case sample_ring 0 of Some w \<Rightarrow> sample_layout w (sample_old 0) sample_cur | None \<Rightarrow> False"
  by code_simp

lemma sample_key: "case sample_ring 1 of Some w \<Rightarrow> sample_layout w (sample_old 1) sample_cur | None \<Rightarrow> False"
  by code_simp

definition sample_segs :: "shm_obj \<Rightarrow> segments" where
  "sample_segs w = [shm_key SHM_ENUM_MEDIA_TYPE_VIDEO 1 \<mapsto> m_pcShm w]"

definition sample_pool :: "shm_obj \<Rightarrow> shm_pool" where
  "sample_pool w = \<lparr>g_mapShmVideoWrite = [1 \<mapsto> obj_writer w], g_mapShmAudioWrite = \<lambda>_. None\<rparr>"

definition sample_peer :: "cuint \<times> cuint \<Rightarrow> shm_peer" where
  "sample_peer r =
     \<lparr>g_mapShmVideoInfo = [0 \<mapsto> \<lparr>cProfileNO = 1, uiPos = fst r, uiSeq = snd r\<rparr>], g_mapShmAudioInfo = \<lambda>_. None,
      g_mapShmVideoRead = {1}, g_mapShmAudioRead = {}\<rparr>"

lemma sample_stream:
  assumes "flag = 0 \<or> flag = 1"
  obtains w where "sample_ring flag = Some w"
    "stream_ok SHM_ENUM_MEDIA_TYPE_VIDEO 1 (sample_segs w) (sample_pool w) w (sample_old flag) sample_cur"
    "iMaxFrameSize (m_pcShm w) = 48" "m_uiFrameSeq w = 4" "carrUserDefinedInfo (m_pcShm w) = 1 # 3 # replicate 30 0"
proof -
  obtain w where w: "sample_ring flag = Some w" and l: "sample_layout w (sample_old flag) sample_cur"
    using assms sample_plain sample_key by (cases "sample_ring flag") auto
  let ?m = "m_pcShm w" and ?held = "sample_old flag @ sample_cur"
  have L: "m_iShmSize w = 340" "length ?m = 340" "head_magic ?m = SHM_FRAME_MAGIC_NUM" "iMaxFrameSize ?m = 48"
    "m_uiFramePos w = 100" "rd32 100 ?m \<noteq> SHM_FRAME_MAGIC_NUM" "packed 52 sample_cur 100"
    "packed 144 (sample_old flag) 340" "linked ?m ?held 100" "numbered 4 ?held"
    "back_linked ?held" "uiNewestFrameSeq ?m = 4" "m_uiFrameSeq w = 4" "uiNewestFramePos ?m = 52"
    "carrUserDefinedInfo ?m = 1 # 3 # replicate 30 0"
    using l unfolding sample_layout_def Let_def by blast+
  have H: "?held \<noteq> []" "sample_cur \<noteq> []" "fst (hd sample_cur) = 52" "fst (last ?held) = 52"
    by (simp_all add: sample_cur_def)
  have r: "ring_inv w (sample_old flag) sample_cur"
    unfolding ring_inv_def ring_config_def Let_def L(1-5,12,13,14) using L(6-11) H by simp
  moreover have "sized w ?held" using L(4) by (simp add: sized_def sample_old_def sample_cur_def)
  ultimately have "stream_ok SHM_ENUM_MEDIA_TYPE_VIDEO 1 (sample_segs w) (sample_pool w) w (sample_old flag) sample_cur"
    by (simp add: stream_ok_def sample_segs_def sample_pool_def shm_writes_def)
  then show ?thesis using that w L(4,13,15) by blast
qed

lemma sample_reader:
  assumes "reader_at w held i r"
  shows "peer_at SHM_ENUM_MEDIA_TYPE_VIDEO 1 0 (sample_peer r) w held i"
  using assms by (simp add: peer_at_def sample_peer_def shm_infos_def shm_reads_def)

section \<open>Properties\<close>

text \<open>C5: A new stream takes every frame that fits, never writes outside its segment (\<^verbatim>\<open>Fault\<close> does not occur) and never
  touches another stream's; the segment then holds, in order, the newest of the frames written.\<close>

lemma stream_holds_newest:
  assumes "segment_ok shm_size max_frame" "0 < max_frame"
    and "shm_writes mt pool profile = None" "segs (shm_key mt profile) = None"
    and "\<forall>f \<in> set fs. fst f \<noteq> [] \<and> int (length (fst f)) \<le> max_frame \<and> length (snd f) = 24" "length fs < 2 ^ 32 - 2"
  shows "\<exists>segs0 pool0 segs' pool' w old cur.
    SHM_InitWrite mt True profile shm_size max_frame info segs pool = Returned (SHM_ENUM_OK, segs0, pool0) \<and>
    write_frames mt profile fs segs0 pool0 = Some (segs', pool') \<and> stream_ok mt profile segs' pool' w old cur \<and>
    suffix (List.map payload (old @ cur)) fs \<and> (fs \<noteq> [] \<longrightarrow> old @ cur \<noteq> []) \<and>
    (\<forall>k. k \<noteq> shm_key mt profile \<longrightarrow> segs' k = segs k)"
proof -
  have ne: "shm_size \<noteq> 0" "max_frame \<noteq> 0" using assms(1,2) by (simp_all add: segment_ok_def)
  obtain segs0 pool0 w where w: "SHM_InitWrite mt True profile shm_size max_frame info segs pool = Returned (SHM_ENUM_OK, segs0, pool0)"
    "stream_ok mt profile segs0 pool0 w [] []" "iMaxFrameSize (m_pcShm w) = max_frame" "m_uiFrameSeq w = 0"
    "\<forall>k. k \<noteq> shm_key mt profile \<longrightarrow> segs0 k = segs k"
    using stream_fresh [OF assms(1) ne assms(3), of segs, OF assms(4)] by blast
  have "\<forall>f \<in> set fs. frame_fits w f" "unat (m_uiFrameSeq w) + length fs < 2 ^ 32 - 2"
    using assms(5,6) w(3,4) by (simp_all add: frame_fits_def)
  from write_frames_ok [OF w(2) this] show ?thesis using w(1,5) by auto
qed

lemma stream_holds_newest_witness:
  "\<exists>segs0 pool0 segs' pool' w old cur.
    SHM_InitWrite SHM_ENUM_MEDIA_TYPE_AUDIO True 1 340 48 [] (\<lambda>_. None)
      \<lparr>g_mapShmVideoWrite = \<lambda>_. None, g_mapShmAudioWrite = \<lambda>_. None\<rparr> = Returned (SHM_ENUM_OK, segs0, pool0) \<and>
    write_frames SHM_ENUM_MEDIA_TYPE_AUDIO 1 [([7, 8], replicate 24 0)] segs0 pool0 = Some (segs', pool') \<and>
    stream_ok SHM_ENUM_MEDIA_TYPE_AUDIO 1 segs' pool' w old cur \<and> old @ cur \<noteq> []"
  using stream_holds_newest [of 340 48 SHM_ENUM_MEDIA_TYPE_AUDIO "\<lparr>g_mapShmVideoWrite = \<lambda>_. None, g_mapShmAudioWrite = \<lambda>_. None\<rparr>" 1
      "\<lambda>_. None" "[([7, 8], replicate 24 0)]" "[]"]
  by (fastforce simp: segment_ok_def shm_writes_def)

text \<open>C7: A reader that stands at a frame of the segment gets that frame and all newer ones, each once and in the order
  they were written, and then nothing more.\<close>

lemma frames_in_order:
  assumes "stream_ok mt profile segs pool w old cur" "old @ cur \<noteq> []" "peer_at mt profile iID peer w (old @ cur) i"
    and "length (old @ cur) \<le> n"
  shows "drain (next_frame mt iID (iMaxFrameSize (m_pcShm w)) segs) n peer = List.map payload (drop i (old @ cur))"
proof -
  have "reading mt profile iID segs pool w old cur peer" using assms(1-3) unfolding reading_def by blast
  moreover have "length (unread mt iID w (old @ cur) peer) \<le> n" using assms(4) by (simp add: unread_def)
  ultimately show ?thesis unfolding unread_at [OF assms(3), symmetric] by (rule stream.drain_all)
qed

lemma frames_in_order_witness:
  "\<exists>w peer. drain (next_frame SHM_ENUM_MEDIA_TYPE_VIDEO 0 48 (sample_segs w)) 3 peer =
     [(replicate 48 3, sample_extras 1), ([4], sample_extras 0)]"
proof -
  obtain w where w: "stream_ok SHM_ENUM_MEDIA_TYPE_VIDEO 1 (sample_segs w) (sample_pool w) w (sample_old 1) sample_cur"
    "iMaxFrameSize (m_pcShm w) = 48"
    using sample_stream [of 1] by blast
  have i: "1 < length (sample_old 1 @ sample_cur)"
    "(sample_old 1 @ sample_cur) ! 1 = (236, \<lparr>sf_data = replicate 48 3, sf_extras = sample_extras 1, sf_seq = 3, sf_prev = 144\<rparr>)"
    by (simp_all add: sample_old_def sample_cur_def)
  have inv: "ring_inv w (sample_old 1) sample_cur" using w(1) by (simp add: stream_ok_def)
  note at = sample_reader [OF reader_at_place [OF inv i]]
  have "drain (next_frame SHM_ENUM_MEDIA_TYPE_VIDEO 0 (iMaxFrameSize (m_pcShm w)) (sample_segs w)) 3
      (sample_peer (word_of_nat 236, 3)) = List.map payload (drop 1 (sample_old 1 @ sample_cur))"
    using frames_in_order [OF w(1) _ at, of 3] i(1) by (simp add: sample_old_def sample_cur_def)
  then show ?thesis using w(2) by (auto simp: sample_old_def sample_cur_def payload_def)
qed

fun relay ::
  "media \<Rightarrow> int \<Rightarrow> int \<Rightarrow> int \<Rightarrow> (byte list \<times> byte list) list \<Rightarrow> segments \<Rightarrow> shm_pool \<Rightarrow> shm_peer \<Rightarrow> (byte list \<times> byte list) list option"
  where
  "relay mt profile iID buf_len [] segs pool peer = Some []"
| "relay mt profile iID buf_len ((data, extras) # fs) segs pool peer =
     (case SHM_WriteFrame mt profile data (int (length data)) extras segs pool of
        Returned (_, segs', pool') \<Rightarrow>
          (case SHM_ReadFrameWithExtras 0 [] iID buf_len mt segs' peer of
             Returned (_, Some x, peer') \<Rightarrow> map_option ((#) x) (relay mt profile iID buf_len fs segs' pool' peer')
           | _ \<Rightarrow> None)
      | _ \<Rightarrow> None)"

lemma relay_all:
  assumes "stream_ok mt profile segs pool w old cur" "peer_at mt profile iID peer w (old @ cur) (length (old @ cur))"
    and "\<forall>f \<in> set fs. frame_fits w f" "unat (m_uiFrameSeq w) + length fs < 2 ^ 32 - 2"
    and "iMaxFrameSize (m_pcShm w) \<le> buf_len"
  shows "relay mt profile iID buf_len fs segs pool peer = Some fs"
  using assms
proof (induction fs arbitrary: segs pool w old cur peer)
  case (Cons f fs)
  obtain data extras where f: "f = (data, extras)" by (cases f)
  obtain segs1 pool1 w1 old1 cur1 where one:
    "SHM_WriteFrame mt profile data (int (length data)) extras segs pool = Returned (SHM_ENUM_OK, segs1, pool1)"
    "stream_ok mt profile segs1 pool1 w1 old1 cur1" "pushed w (old @ cur) data extras w1 (old1 @ cur1)"
    using stream_write [OF Cons.prems(1), of data extras] Cons.prems(3,4) f by auto
  note P = pushed_payload [OF one(3)]
  have at: "peer_at mt profile iID peer w1 (old1 @ cur1) (length (old1 @ cur1) - 1)"
    by (rule peer_kept_end [OF Cons.prems(2) one(3)]) (use Cons.prems(4) in simp)
  have lt: "length (old1 @ cur1) - 1 < length (old1 @ cur1)" "Suc (length (old1 @ cur1) - 1) = length (old1 @ cur1)"
    using P by (cases "old1 @ cur1"; simp)+
  have "payload ((old1 @ cur1) ! (length (old1 @ cur1) - 1)) = f" using P f by (metis last_conv_nth)
  moreover have mx: "iMaxFrameSize (m_pcShm w1) \<le> buf_len" using Cons.prems(5) one(3) unfolding pushed_def by auto
  ultimately obtain peer1 where r: "SHM_ReadFrameWithExtras 0 [] iID buf_len mt segs1 peer =
      Returned (frame_code mt (snd f), Some f, peer1)" "peer_at mt profile iID peer1 w1 (old1 @ cur1) (length (old1 @ cur1))"
    using peer_reads [OF one(2) at lt(1) mx, of 0 "[]"] unfolding lt(2) by auto
  have "relay mt profile iID buf_len fs segs1 pool1 peer1 = Some fs"
    by (rule Cons.IH [OF one(2) r(2)])
      (use Cons.prems(3,4) mx frame_fits_pushed [OF one(3)] seq_pushed [OF one(3)] in auto)
  then show ?case using one(1) r(1) f by simp
qed simp

text \<open>C6: A reader that has caught up and reads after every write gets exactly the frames written, whatever the writer's
  position in the segment: also when the segment wraps under it.\<close>

lemma caught_up_relay:
  assumes "stream_ok mt profile segs pool w old cur" "peer_at mt profile iID peer w (old @ cur) (length (old @ cur))"
    and "\<forall>f \<in> set fs. frame_fits w f" "unat (m_uiFrameSeq w) + length fs < 2 ^ 32 - 2"
    and "iMaxFrameSize (m_pcShm w) \<le> buf_len"
  shows "relay mt profile iID buf_len fs segs pool peer = Some fs"
  by (rule relay_all [OF assms])

lemma caught_up_relay_witness:
  "\<exists>segs pool peer. relay SHM_ENUM_MEDIA_TYPE_VIDEO 1 0 48 (sample_frames 1 @ sample_frames 0) segs pool peer =
     Some (sample_frames 1 @ sample_frames 0)"
proof -
  obtain w where w: "stream_ok SHM_ENUM_MEDIA_TYPE_VIDEO 1 (sample_segs w) (sample_pool w) w (sample_old 1) sample_cur"
    "iMaxFrameSize (m_pcShm w) = 48" "m_uiFrameSeq w = 4"
    using sample_stream [of 1] by blast
  have inv: "ring_inv w (sample_old 1) sample_cur" using w(1) by (simp add: stream_ok_def)
  have e: "reader_at w (sample_old 1 @ sample_cur) (length (sample_old 1 @ sample_cur)) (m_uiFramePos w, 5)"
    using ring_invD(3,4) [OF inv] w(3) by (simp add: reader_at_def Let_def)
  have fits: "\<forall>f \<in> set (sample_frames 1 @ sample_frames 0). frame_fits w f"
    using w(2) by (simp add: sample_frames_def sample_extras_def frame_fits_def)
  have "relay SHM_ENUM_MEDIA_TYPE_VIDEO 1 0 48 (sample_frames 1 @ sample_frames 0) (sample_segs w) (sample_pool w)
      (sample_peer (m_uiFramePos w, 5)) = Some (sample_frames 1 @ sample_frames 0)"
    by (rule caught_up_relay [OF w(1) sample_reader [OF e] fits]) (use w(2,3) in \<open>simp_all add: sample_frames_def\<close>)
  then show ?thesis by blast
qed

text \<open>The first read of a new id of an H264 video stream hands out the newest key frame in the segment, and the
  id goes on from there.\<close>

lemma new_reader_gets_key_frame:
  assumes "stream_ok SHM_ENUM_MEDIA_TYPE_VIDEO profile segs pool w old cur"
    and "shm_infos SHM_ENUM_MEDIA_TYPE_VIDEO peer iID = Some \<lparr>cProfileNO = profile, uiPos = 0, uiSeq = 0\<rparr>"
      "profile \<in> shm_reads SHM_ENUM_MEDIA_TYPE_VIDEO peer"
    and "ucCodec (carrUserDefinedInfo (m_pcShm w)) = SHM_ENUM_VIDEO_CODEC_TYPE_H264"
    and "k < length (old @ cur)" "key_at (old @ cur) k" "\<forall>j. k < j \<and> j < length (old @ cur) \<longrightarrow> \<not> key_at (old @ cur) j"
    and "length (old @ cur) \<le> fuel" "iMaxFrameSize (m_pcShm w) \<le> buf_len"
  shows "\<exists>peer'. SHM_ReadFrameWithExtras fuel buf iID buf_len SHM_ENUM_MEDIA_TYPE_VIDEO segs peer =
      Returned (SHM_ENUM_GET_A_NEW_KEY_FRAME, Some (payload ((old @ cur) ! k)), peer') \<and>
      peer_at SHM_ENUM_MEDIA_TYPE_VIDEO profile iID peer' w (old @ cur) (Suc k)"
proof -
  obtain p1 where p1: "SHM_RefreshNolock fuel buf iID 1 SHM_ENUM_MEDIA_TYPE_VIDEO segs peer = Returned (SHM_ENUM_OK, p1)"
    "peer_at SHM_ENUM_MEDIA_TYPE_VIDEO profile iID p1 w (old @ cur) k"
    using refresh_to_key [OF assms(1,2,3,5-8)] by blast
  have seg: "segs (shm_key SHM_ENUM_MEDIA_TYPE_VIDEO profile) = Some (m_pcShm w)" using assms(1) by (simp add: stream_ok_def)
  obtain i1 where i1: "SHM_GetReadObject SHM_ENUM_MEDIA_TYPE_VIDEO segs p1 iID = Some (i1, m_pcShm w)" "\<not> IsInitState (uiPos i1)"
    using peer_object [OF p1(2), of segs, OF seg] by blast
  obtain p2 where p2: "SHM_ReadFrameWithExtras fuel buf iID buf_len SHM_ENUM_MEDIA_TYPE_VIDEO segs p1 =
      Returned (SHM_ENUM_GET_A_NEW_KEY_FRAME, Some (payload ((old @ cur) ! k)), p2)"
    "peer_at SHM_ENUM_MEDIA_TYPE_VIDEO profile iID p2 w (old @ cur) (Suc k)"
    using peer_reads [OF assms(1) p1(2) assms(5,9), of fuel buf] assms(6) by (auto simp: frame_code_def payload_def key_at_def)
  have "SHM_ReadFrameWithExtras fuel buf iID buf_len SHM_ENUM_MEDIA_TYPE_VIDEO segs peer =
      SHM_ReadFrameWithExtras fuel buf iID buf_len SHM_ENUM_MEDIA_TYPE_VIDEO segs p1"
    using assms(2-4) p1(1) seg i1
    by (simp add: SHM_ReadFrameWithExtras_def SHM_GetReadObject_def IsInitState_def SHM_FRAME_INITIAL_POSITION_def SHM_ENUM_OK_def)
  then show ?thesis using p2 by simp
qed

lemma new_reader_gets_key_frame_witness:
  "\<exists>w peer'. sample_ring 1 = Some w \<and>
     SHM_ReadFrameWithExtras 3 [] 0 48 SHM_ENUM_MEDIA_TYPE_VIDEO (sample_segs w) (sample_peer (0, 0)) =
       Returned (SHM_ENUM_GET_A_NEW_KEY_FRAME, Some (replicate 48 3, sample_extras 1), peer')"
proof -
  obtain w where w: "sample_ring 1 = Some w"
    "stream_ok SHM_ENUM_MEDIA_TYPE_VIDEO 1 (sample_segs w) (sample_pool w) w (sample_old 1) sample_cur"
    "iMaxFrameSize (m_pcShm w) = 48" "carrUserDefinedInfo (m_pcShm w) = 1 # 3 # replicate 30 0"
    using sample_stream [of 1] by blast
  have k: "key_at (sample_old 1 @ sample_cur) 1" "\<forall>j. 1 < j \<and> j < length (sample_old 1 @ sample_cur) \<longrightarrow> \<not> key_at (sample_old 1 @ sample_cur) j"
    "1 < length (sample_old 1 @ sample_cur)" "length (sample_old 1 @ sample_cur) \<le> 3"
    by (auto simp: sample_old_def sample_cur_def sample_extras_def key_at_def key_frame_flag_def nth_append nth_Cons'
        SHM_ENUM_VIDEO_FRAME_TYPE_KEY_def)
  have p: "shm_infos SHM_ENUM_MEDIA_TYPE_VIDEO (sample_peer (0, 0)) 0 = Some \<lparr>cProfileNO = 1, uiPos = 0, uiSeq = 0\<rparr>"
    "1 \<in> shm_reads SHM_ENUM_MEDIA_TYPE_VIDEO (sample_peer (0, 0))"
    by (simp_all add: sample_peer_def shm_infos_def shm_reads_def)
  have c: "ucCodec (carrUserDefinedInfo (m_pcShm w)) = SHM_ENUM_VIDEO_CODEC_TYPE_H264"
    by (simp add: w(4) ucCodec_def SHM_ENUM_VIDEO_CODEC_TYPE_H264_def)
  have "payload ((sample_old 1 @ sample_cur) ! 1) = (replicate 48 3, sample_extras 1)"
    by (simp add: sample_old_def payload_def)
  then show ?thesis
    using new_reader_gets_key_frame [OF w(2) p c k(3,1,2,4), of 48 "[]"] w(1,3) by auto
qed

text \<open>C30: When the segment holds no key frame and the frame before the oldest one was at the start of the segment, where
  the writer's lap has begun since, the search of a new id for a key frame goes round the segment for ever, however
  long it runs; the lock of the media type is held meanwhile.\<close>

lemma key_frame_search_never_ends:
  assumes "stream_ok SHM_ENUM_MEDIA_TYPE_VIDEO profile segs pool w old cur"
    and "shm_infos SHM_ENUM_MEDIA_TYPE_VIDEO peer iID = Some \<lparr>cProfileNO = profile, uiPos = 0, uiSeq = 0\<rparr>"
      "profile \<in> shm_reads SHM_ENUM_MEDIA_TYPE_VIDEO peer"
    and "ucCodec (carrUserDefinedInfo (m_pcShm w)) = SHM_ENUM_VIDEO_CODEC_TYPE_H264"
    and "\<forall>j < length (old @ cur). \<not> key_at (old @ cur) j"
    and "old \<noteq> []" "cur \<noteq> []" "sf_prev (snd (hd old)) = SHM_FRAME_START_POSITION"
  shows "SHM_ReadFrameWithExtras fuel buf iID buf_len SHM_ENUM_MEDIA_TYPE_VIDEO segs peer = Running"
proof -
  have "segs (shm_key SHM_ENUM_MEDIA_TYPE_VIDEO profile) = Some (m_pcShm w)" using assms(1) by (simp add: stream_ok_def)
  then show ?thesis
    using refresh_no_key [OF assms(1-3,5-8), of fuel buf] assms(2-4)
    by (simp add: SHM_ReadFrameWithExtras_def SHM_GetReadObject_def IsInitState_def SHM_FRAME_INITIAL_POSITION_def)
qed

lemma key_frame_search_never_ends_witness:
  "\<exists>w. sample_ring 0 = Some w \<and>
     (\<forall>fuel. SHM_ReadFrameWithExtras fuel [] 0 48 SHM_ENUM_MEDIA_TYPE_VIDEO (sample_segs w) (sample_peer (0, 0)) = Running)"
proof -
  obtain w where w: "sample_ring 0 = Some w"
    "stream_ok SHM_ENUM_MEDIA_TYPE_VIDEO 1 (sample_segs w) (sample_pool w) w (sample_old 0) sample_cur"
    "carrUserDefinedInfo (m_pcShm w) = 1 # 3 # replicate 30 0"
    using sample_stream [of 0] by blast
  have k: "\<forall>j < length (sample_old 0 @ sample_cur). \<not> key_at (sample_old 0 @ sample_cur) j"
    "sample_old 0 \<noteq> []" "sample_cur \<noteq> []" "sf_prev (snd (hd (sample_old 0))) = SHM_FRAME_START_POSITION"
    by (auto simp: sample_old_def sample_cur_def sample_extras_def key_at_def key_frame_flag_def nth_append nth_Cons'
        SHM_ENUM_VIDEO_FRAME_TYPE_KEY_def SHM_FRAME_START_POSITION_def)
  have p: "shm_infos SHM_ENUM_MEDIA_TYPE_VIDEO (sample_peer (0, 0)) 0 = Some \<lparr>cProfileNO = 1, uiPos = 0, uiSeq = 0\<rparr>"
    "1 \<in> shm_reads SHM_ENUM_MEDIA_TYPE_VIDEO (sample_peer (0, 0))"
    by (simp_all add: sample_peer_def shm_infos_def shm_reads_def)
  have c: "ucCodec (carrUserDefinedInfo (m_pcShm w)) = SHM_ENUM_VIDEO_CODEC_TYPE_H264"
    by (simp add: w(3) ucCodec_def SHM_ENUM_VIDEO_CODEC_TYPE_H264_def)
  show ?thesis using w(1) key_frame_search_never_ends [OF w(2) p c k] by blast
qed

text \<open>Moving an id back by \<^verbatim>\<open>n\<close> frames that are still in the segment succeeds and puts it at the frame \<^verbatim>\<open>n\<close> before, and
  moving it forward by as many brings it back.\<close>

lemma back_and_forward:
  assumes "stream_ok mt profile segs pool w old cur" "peer_at mt profile iID peer w (old @ cur) i" "0 < n" "n \<le> i"
  shows "\<exists>peer' peer''. SHM_BackNFrame fuel buf iID (int n) 0 mt segs peer = Returned (SHM_ENUM_OK, peer') \<and>
    peer_at mt profile iID peer' w (old @ cur) (i - n) \<and>
    SHM_ForwardNFrame fuel buf iID (int n) 0 mt segs peer' = Returned (SHM_ENUM_OK, peer'') \<and>
    peer_at mt profile iID peer'' w (old @ cur) i"
proof -
  have inv: "ring_inv w old cur" "sized w (old @ cur)" "segs (shm_key mt profile) = Some (m_pcShm w)"
    using assms(1) by (simp_all add: stream_ok_def)
  obtain i0 where i0: "SHM_GetReadObject mt segs peer iID = Some (i0, m_pcShm w)" "reader_at w (old @ cur) i (uiPos i0, uiSeq i0)"
    using peer_object [OF assms(2), of segs, OF inv(3)] by blast
  obtain r where r: "step_frames True n (m_pcShm w) (uiPos i0, uiSeq i0) = Returned (0, r)" "reader_at w (old @ cur) (i - n) r"
    using step_back [OF inv(1) i0(2) assms(4)] by blast
  note p1 = peer_moved [OF assms(2) r(2)]
  obtain i1 where i1: "SHM_GetReadObject mt segs (set_place mt iID r peer) iID = Some (i1, m_pcShm w)"
    "reader_at w (old @ cur) (i - n) (uiPos i1, uiSeq i1)"
    using peer_object [OF p1, of segs, OF inv(3)] by blast
  have "i - n + n \<le> length (old @ cur)" using ring_pos(4) [OF inv(1) i0(2)] assms(4) by simp
  then obtain r' where r': "step_frames False n (m_pcShm w) (uiPos i1, uiSeq i1) = Returned (0, r')" "reader_at w (old @ cur) i r'"
    using step_forward [OF inv(1,2) i1(2), of n] assms(4) by auto
  show ?thesis
    using i0(1) i1(1) r(1) r'(1) p1 peer_moved [OF p1 r'(2)] assms(3)
    by (simp add: SHM_BackNFrame_def SHM_ForwardNFrame_def SHM_BackNFrameNolock_def)
qed

lemma sample_newest:
  assumes "stream_ok SHM_ENUM_MEDIA_TYPE_VIDEO 1 (sample_segs w) (sample_pool w) w (sample_old flag) sample_cur"
  shows "peer_at SHM_ENUM_MEDIA_TYPE_VIDEO 1 0 (sample_peer (52, 4)) w (sample_old flag @ sample_cur) 2"
proof -
  have inv: "ring_inv w (sample_old flag) sample_cur" using assms by (simp add: stream_ok_def)
  have x: "2 < length (sample_old flag @ sample_cur)" "(sample_old flag @ sample_cur) ! 2 =
      (52, \<lparr>sf_data = [4], sf_extras = sample_extras 0, sf_seq = 4, sf_prev = 236\<rparr>)"
    by (simp_all add: sample_old_def sample_cur_def)
  show ?thesis using sample_reader [OF reader_at_place [OF inv x]] by simp
qed

lemma back_and_forward_witness:
  "\<exists>w peer' peer''. SHM_BackNFrame 0 [] 0 2 0 SHM_ENUM_MEDIA_TYPE_VIDEO (sample_segs w) (sample_peer (52, 4)) = Returned (SHM_ENUM_OK, peer') \<and>
     SHM_ForwardNFrame 0 [] 0 2 0 SHM_ENUM_MEDIA_TYPE_VIDEO (sample_segs w) peer' = Returned (SHM_ENUM_OK, peer'')"
proof -
  obtain w where w: "stream_ok SHM_ENUM_MEDIA_TYPE_VIDEO 1 (sample_segs w) (sample_pool w) w (sample_old 0) sample_cur"
    using sample_stream [of 0] by blast
  show ?thesis using back_and_forward [OF w sample_newest [OF w], of 2 0 "[]"] by auto
qed

text \<open>A read into a buffer that is too small for the frame reports so and loses nothing: the id stays at the frame,
  and a read with a larger buffer gets it.\<close>

lemma small_buffer_keeps_frame:
  assumes "stream_ok mt profile segs pool w old cur" "peer_at mt profile iID peer w (old @ cur) i" "i < length (old @ cur)"
    and "buf_len < int (length (fst (payload ((old @ cur) ! i))))"
  shows "\<exists>peer' peer''. SHM_ReadFrameWithExtras fuel buf iID buf_len mt segs peer = Returned (SHM_ENUM_FRAME_TOO_LARGE, None, peer') \<and>
    SHM_ReadFrameWithExtras fuel buf iID (iMaxFrameSize (m_pcShm w)) mt segs peer' =
      Returned (frame_code mt (snd (payload ((old @ cur) ! i))), Some (payload ((old @ cur) ! i)), peer'')"
proof -
  have inv: "ring_inv w old cur" "sized w (old @ cur)" "segs (shm_key mt profile) = Some (m_pcShm w)"
    using assms(1) by (simp_all add: stream_ok_def)
  obtain i0 where i0: "SHM_GetReadObject mt segs peer iID = Some (i0, m_pcShm w)" "reader_at w (old @ cur) i (uiPos i0, uiSeq i0)"
    "\<not> IsInitState (uiPos i0)"
    using peer_object [OF assms(2), of segs, OF inv(3)] by blast
  obtain r where r: "ReadFrame True buf_len (m_pcShm w) (uiPos i0, uiSeq i0) = Some (SHM_ENUM_FRAME_TOO_LARGE, None, r)"
    "reader_at w (old @ cur) i r"
    using read_small [OF inv(1,2) i0(2) assms(3), of buf_len] assms(4) unfolding payload_def fst_conv by blast
  have one: "SHM_ReadFrameWithExtras fuel buf iID buf_len mt segs peer =
      Returned (SHM_ENUM_FRAME_TOO_LARGE, None, set_place mt iID r peer)"
    using i0 r(1) by (simp add: SHM_ReadFrameWithExtras_def read_from_def shm_codes)
  show ?thesis using one peer_reads [OF assms(1) peer_moved [OF assms(2) r(2)] assms(3) order_refl, of fuel buf] by blast
qed

lemma small_buffer_keeps_frame_witness:
  "\<exists>w peer'. SHM_ReadFrameWithExtras 0 [] 0 0 SHM_ENUM_MEDIA_TYPE_VIDEO (sample_segs w) (sample_peer (52, 4)) =
     Returned (SHM_ENUM_FRAME_TOO_LARGE, None, peer')"
proof -
  obtain w where w: "stream_ok SHM_ENUM_MEDIA_TYPE_VIDEO 1 (sample_segs w) (sample_pool w) w (sample_old 0) sample_cur"
    using sample_stream [of 0] by blast
  have "2 < length (sample_old 0 @ sample_cur)" "0 < int (length (fst (payload ((sample_old 0 @ sample_cur) ! 2))))"
    by (simp_all add: sample_old_def sample_cur_def payload_def)
  from small_buffer_keeps_frame [OF w sample_newest [OF w] this, of 0 "[]"] show ?thesis by blast
qed

text \<open>A new id is one that was free, the smallest; it starts in the initial state, every other id of either media type
  keeps its entry, and removing it restores the table.\<close>

lemma new_id_is_free:
  assumes "profile \<in> shm_reads mt peer" "shm_infos mt peer j = None" "0 \<le> j" "j < MAX_IDS"
  shows "\<exists>iID peer'. SHM_InitID profile mt segs peer = (iID, peer') \<and> 0 \<le> iID \<and> iID \<le> j \<and> shm_infos mt peer iID = None \<and>
    (\<forall>k. 0 \<le> k \<and> k < iID \<longrightarrow> shm_infos mt peer k \<noteq> None) \<and>
    shm_infos mt peer' = (shm_infos mt peer)(iID \<mapsto> \<lparr>cProfileNO = profile, uiPos = 0, uiSeq = 0\<rparr>) \<and>
    (\<forall>mt'. mt' \<noteq> mt \<longrightarrow> shm_infos mt' peer' = shm_infos mt' peer) \<and> SHM_RemoveID iID mt peer' = peer"
proof -
  obtain iID where f: "free_id (shm_infos mt peer) 0 = Some iID" "0 \<le> iID" "iID \<le> j" "shm_infos mt peer iID = None"
    "\<forall>k. 0 \<le> k \<and> k < iID \<longrightarrow> shm_infos mt peer k \<noteq> None"
    using free_id_first [of "shm_infos mt peer" j 0] assms(2-4) by blast
  have "SHM_RemoveID iID mt (with_infos mt (\<lambda>m. m(iID \<mapsto> x)) peer) = peer" for x
    using f(4) by (cases mt) (simp_all add: SHM_RemoveID_def with_infos_def shm_infos_def fun_upd_idem)
  then show ?thesis
    using assms(1) f
    by (simp add: SHM_InitID_def new_id_def SHM_FRAME_INITIAL_POSITION_def SHM_FRAME_INITIAL_SEQUENCE_def fun_eq_iff)
qed

lemma new_id_is_free_witness:
  "\<exists>iID peer'. SHM_InitID 1 SHM_ENUM_MEDIA_TYPE_VIDEO (\<lambda>_. None) (sample_peer (52, 4)) = (iID, peer') \<and> iID = 1 \<and>
     SHM_RemoveID iID SHM_ENUM_MEDIA_TYPE_VIDEO peer' = sample_peer (52, 4)"
proof -
  have p: "1 \<in> shm_reads SHM_ENUM_MEDIA_TYPE_VIDEO (sample_peer (52, 4))" "shm_infos SHM_ENUM_MEDIA_TYPE_VIDEO (sample_peer (52, 4)) 1 = None"
    "shm_infos SHM_ENUM_MEDIA_TYPE_VIDEO (sample_peer (52, 4)) 0 \<noteq> None"
    by (simp_all add: sample_peer_def shm_infos_def shm_reads_def)
  obtain iID peer' where r: "SHM_InitID 1 SHM_ENUM_MEDIA_TYPE_VIDEO (\<lambda>_. None) (sample_peer (52, 4)) = (iID, peer')"
    "0 \<le> iID" "iID \<le> 1" "shm_infos SHM_ENUM_MEDIA_TYPE_VIDEO (sample_peer (52, 4)) iID = None"
    "SHM_RemoveID iID SHM_ENUM_MEDIA_TYPE_VIDEO peer' = sample_peer (52, 4)"
    using new_id_is_free [OF p(1,2), of "\<lambda>_. None"] by (auto simp: MAX_IDS_def)
  have "iID \<noteq> 0" using p(3) r(4) by auto
  then show ?thesis using r by force
qed

text \<open>C29: Streams do not disturb each other: whatever is written to one, every read of another behaves as before.\<close>

lemma other_stream_undisturbed:
  assumes "mt' \<noteq> mt \<or> profile' \<noteq> profile" "\<bar>profile\<bar> \<le> 128" "\<bar>profile'\<bar> \<le> 128"
    and "SHM_WriteFrame mt profile pcBuf iBufLen pcExtras segs pool = Returned (rtn, segs', pool')"
    and "shm_infos mt' peer iID = Some info" "cProfileNO info = profile'"
  shows "SHM_ReadFrameWithExtras fuel buf iID buf_len mt' segs' peer = SHM_ReadFrameWithExtras fuel buf iID buf_len mt' segs peer"
proof -
  have "shm_key mt' profile' \<noteq> shm_key mt profile"
    using shm_key_inj [of mt' profile' mt profile] assms(1-3) by blast
  then have "segs' (shm_key mt' profile') = segs (shm_key mt' profile')"
    using assms(4) by (auto simp: SHM_WriteFrame_def split: option.splits)
  then show ?thesis by (rule read_same_segment [OF assms(5,6)])
qed

lemma other_stream_undisturbed_witness:
  "\<exists>w segs' pool'. SHM_WriteFrame SHM_ENUM_MEDIA_TYPE_VIDEO 1 [9] 1 (sample_extras 1) (sample_segs w) (sample_pool w) =
       Returned (SHM_ENUM_OK, segs', pool') \<and>
     (let peer = with_infos SHM_ENUM_MEDIA_TYPE_VIDEO (\<lambda>m. m(1 \<mapsto> \<lparr>cProfileNO = 2, uiPos = 0, uiSeq = 0\<rparr>)) (sample_peer (52, 4))
      in SHM_ReadFrameWithExtras 0 [] 1 48 SHM_ENUM_MEDIA_TYPE_VIDEO segs' peer =
         SHM_ReadFrameWithExtras 0 [] 1 48 SHM_ENUM_MEDIA_TYPE_VIDEO (sample_segs w) peer)"
proof -
  obtain w where w: "stream_ok SHM_ENUM_MEDIA_TYPE_VIDEO 1 (sample_segs w) (sample_pool w) w (sample_old 0) sample_cur"
    "iMaxFrameSize (m_pcShm w) = 48" "m_uiFrameSeq w = 4"
    using sample_stream [of 0] by blast
  have "frame_fits w ([9], sample_extras 1)" using w(2) by (simp add: frame_fits_def sample_extras_def)
  then obtain segs' pool' where wr: "SHM_WriteFrame SHM_ENUM_MEDIA_TYPE_VIDEO 1 [9] 1 (sample_extras 1) (sample_segs w) (sample_pool w) =
      Returned (SHM_ENUM_OK, segs', pool')"
    using stream_write [OF w(1), of "[9]" "sample_extras 1"] w(3) by auto
  let ?peer = "with_infos SHM_ENUM_MEDIA_TYPE_VIDEO (\<lambda>m. m(1 \<mapsto> \<lparr>cProfileNO = 2, uiPos = 0, uiSeq = 0\<rparr>)) (sample_peer (52, 4))"
  have "SHM_ReadFrameWithExtras 0 [] 1 48 SHM_ENUM_MEDIA_TYPE_VIDEO segs' ?peer =
      SHM_ReadFrameWithExtras 0 [] 1 48 SHM_ENUM_MEDIA_TYPE_VIDEO (sample_segs w) ?peer"
    by (rule other_stream_undisturbed [where info = "\<lparr>cProfileNO = 2, uiPos = 0, uiSeq = 0\<rparr>" and profile' = 2, OF _ _ _ wr]) simp_all
  then show ?thesis using wr unfolding Let_def by blast
qed

end
