(* ===== verification/Pipeline.thy ===== *)
theory Pipeline
  imports RecSession SdDetect ShmPromises
begin

text \<open>
  The shared memory streams and the recorder together: what the recording thread makes of a frame it reads
  from the ring of the main video stream, and of a run of such frames.
\<close>

text \<open>The time stamp is the first field of the extra data, an \<^verbatim>\<open>unsigned long long\<close>.\<close>

definition ullTimeStamp :: "byte list \<Rightarrow> 64 word" where
  "ullTimeStamp extras = push_bit 32 (ucast (get32 (slice 4 4 extras))) OR ucast (get32 (slice 0 4 extras))"

definition ring_frame :: "byte list \<times> byte list \<Rightarrow> video_frame" where
  "ring_frame f = \<lparr>vf_data = fst f, vf_key = key_frame_flag (snd f), vf_ts = ullTimeStamp (snd f)\<rparr>"

definition video_round :: "byte list \<times> byte list \<Rightarrow> video_frame option \<times> (byte list \<times> 64 word) list" where
  "video_round f = (Some (ring_frame f), [])"

lemma video_session:
  "session_frames (List.map video_round fs) vms a = (List.map (\<lambda>f. video_to_frame (ring_frame f) (snd a)) fs, snd a)"
  by (induction fs arbitrary: vms a) (simp_all add: video_round_def)

lemma video_round_small:
  "frame_fits w f \<Longrightarrow> iMaxFrameSize (m_pcShm w) \<le> int MAX_FRAME \<Longrightarrow> frames_small (video_round f)"
  by (simp add: frame_fits_def frames_small_def video_round_def ring_frame_def)

end
