(* ===== verification/EventRec.thy ===== *)
theory EventRec
  imports RecCtl
begin

text \<open>
  The event recording thread of \<^verbatim>\<open>storage/src/record.c\<close>: pulling frames from the video and the audio
  stream in the order of their time stamps, and writing them to one file of a fixed duration. A
  stream is the list of what its successive reads return, \<open>None\<close> when the read has no frame yet. The
  result of the thread tells undefined behaviour from waiting for a frame that never comes.
\<close>

section \<open>Streams\<close>

text \<open>The fields of \<^verbatim>\<open>sdk_frame_t\<close> that the thread reads.\<close>

record sdk_frame =
  frame_type :: byte
  frame_sec :: cuint
  pts :: u64
  frame_rate :: byte
  frame_data :: "byte list"

definition SDK_VIDEO_FRAME_I :: byte where "SDK_VIDEO_FRAME_I = 1"
definition SDK_AUDIO_FRAME_A :: byte where "SDK_AUDIO_FRAME_A = 4"

record event_stream =
  es_video :: "sdk_frame option list"
  es_audio :: "sdk_frame option list"
  g_audio_priority :: bool
  g_sync_flag :: bool
  g_video_offset :: cuint
  g_audio_offset :: cuint

text \<open>The offsets are signed; \<open>g_start_ms\<close> is the constant 0.\<close>

definition g_start_ms :: u64 where "g_start_ms = 0"

definition open_event_stream :: "sdk_frame option list \<Rightarrow> sdk_frame option list \<Rightarrow> event_stream \<Rightarrow> event_stream" where
  "open_event_stream video audio es =
     es\<lparr>es_video := video, es_audio := audio, g_audio_priority := False, g_sync_flag := False\<rparr>"

definition close_event_stream :: "event_stream \<Rightarrow> event_stream" where
  "close_event_stream es =
     es\<lparr>es_video := [], es_audio := [], g_audio_priority := False, g_video_offset := 0, g_audio_offset := 0,
        g_sync_flag := False\<rparr>"

definition stream_read :: "sdk_frame option list \<Rightarrow> sdk_frame option \<times> sdk_frame option list" where
  "stream_read st = (case st of [] \<Rightarrow> (None, []) | f # rest \<Rightarrow> (f, rest))"

definition in_sync :: "sdk_frame \<Rightarrow> sdk_frame \<Rightarrow> bool" where
  "in_sync v a \<longleftrightarrow> pts v \<le> pts a \<or> pts v - pts a < 200"

text \<open>The first video frame waits for an audio frame that is not older than 200 ms; \<open>None\<close>: it waits on.\<close>

fun sync_loop :: "sdk_frame \<Rightarrow> sdk_frame option list \<Rightarrow> (sdk_frame \<times> sdk_frame option list) option" where
  "sync_loop v [] = None"
| "sync_loop v (None # rest) = sync_loop v rest"
| "sync_loop v (Some a # rest) = (if in_sync v a then Some (a, rest) else sync_loop v rest)"

definition pull_event_stream :: "event_stream \<Rightarrow> (sdk_frame option \<times> event_stream) option" where
  "pull_event_stream es =
     (let (v, video) = (if \<not> g_audio_priority es then stream_read (es_video es) else (None, es_video es));
          es = es\<lparr>es_video := video\<rparr> in
      case v of
        Some v \<Rightarrow>
          let es = es\<lparr>g_video_offset := ucast (pts v - g_start_ms)\<rparr> in
          if \<not> g_sync_flag es then
            case sync_loop v (es_audio es) of
              None \<Rightarrow> None
            | Some (a, rest) \<Rightarrow>
                Some (Some v, es\<lparr>es_audio := rest, g_sync_flag := True, g_audio_priority := True,
                                 g_audio_offset := ucast (pts a - g_start_ms)\<rparr>)
          else Some (Some v, es\<lparr>g_audio_priority := (sint (g_video_offset es) > sint (g_audio_offset es))\<rparr>)
      | None \<Rightarrow>
          let (a, audio) = (if g_audio_priority es then stream_read (es_audio es) else (None, es_audio es));
              es = es\<lparr>es_audio := audio\<rparr> in
          case a of
            Some a \<Rightarrow>
              let es = es\<lparr>g_audio_offset := ucast (pts a - g_start_ms)\<rparr>
              in Some (Some a, es\<lparr>g_audio_priority := \<not> sint (g_audio_offset es - g_video_offset es) > 200\<rparr>)
          | None \<Rightarrow> Some (None, es\<lparr>g_audio_priority := True\<rparr>))"

section \<open>The thread\<close>

datatype 'a outcome = Done 'a | Undef | Waits

text \<open>\<open>et_break\<close> leaves the loop, \<open>et_quit\<close> the function; \<open>et_frame\<close> is \<^verbatim>\<open>frame_head\<close>, NULL at first.\<close>

record event_thread =
  et_start :: bool
  et_start_ms :: cuint
  et_handle :: avi_file
  et_frame :: "sdk_frame option"
  et_stream :: event_stream
  et_env :: rec_env
  et_io :: io
  et_work :: record_work
  et_break :: bool
  et_quit :: bool

text \<open>The time since the start of the recording, in 64 bits, and \<^verbatim>\<open>abs\<close> of it as an \<^verbatim>\<open>int\<close>.\<close>

definition rec_elapsed :: "sdk_frame \<Rightarrow> event_thread \<Rightarrow> u64" where
  "rec_elapsed f t = pts f - ucast (et_start_ms t)"

definition abs_int :: "cuint \<Rightarrow> int" where
  "abs_int x = sint (if sint x < 0 then - x else x)"

definition event_cut :: "sdk_frame \<Rightarrow> event_thread \<Rightarrow> bool" where
  "event_cut f t \<longleftrightarrow>
     (let p = init_param (et_handle t) in
      (frame_type f = SDK_VIDEO_FRAME_I \<or> abs_int (ucast (rec_elapsed f t)) \<ge> ip_duration p * 2 * 1000) \<and>
      (if ip_mode p AND 1 \<noteq> 0 then
         int (data_offset (et_handle t)) + 8 + int (index_count (et_handle t)) * 16 + 100 > ip_size_m p * 1024 * 1024
       else ip_mode p AND 2 \<noteq> 0 \<and> rec_elapsed f t \<ge> word_of_int (ip_duration p * 1000)))"

text \<open>A recording begins with a key frame; a failed start ends the thread.\<close>

definition begin_event ::
  "(string \<Rightarrow> bool) \<Rightarrow> tm \<Rightarrow> int \<Rightarrow> sdk_frame \<Rightarrow> event_thread \<Rightarrow> event_thread" where
  "begin_event ex ptm dur f t =
     (let af = record_set_start_time (et_io t) (sint (frame_sec f)) (et_handle t);
          (ret, af, env, w) = record_event_start ex ptm af (uint SDK_RECORD_TYPE_ALARM) dur (uint (frame_rate f)) (et_env t) (et_io t);
          t = t\<lparr>et_start_ms := ucast (pts f), et_handle := af, et_env := env, et_io := w\<rparr>
      in if ret = -1
         then t\<lparr>et_stream := close_event_stream (et_stream t), et_work := (et_work t)\<lparr>g_event_status := 0\<rparr>, et_quit := True\<rparr>
         else t\<lparr>et_start := True\<rparr>)"

definition event_kind :: "sdk_frame \<Rightarrow> int" where
  "event_kind f = (if frame_type f = SDK_AUDIO_FRAME_A then 2 else if frame_type f = SDK_VIDEO_FRAME_I then 1 else 0)"

definition event_write :: "sdk_frame \<Rightarrow> event_thread \<Rightarrow> event_thread outcome" where
  "event_write f t =
     (case avi_record_write (et_handle t) (frame_data f) (event_kind f)
             (ucast (pts f div 1000), ucast (pts f mod 1000 * 1000)) (et_env t) (et_io t) of
        None \<Rightarrow> Undef
      | Some (ret, af, env, w) \<Rightarrow> Done (t\<lparr>et_handle := af, et_env := env, et_io := w, et_break := ret < 0\<rparr>))"

definition event_frame ::
  "(string \<Rightarrow> bool) \<Rightarrow> tm \<Rightarrow> int \<Rightarrow> sdk_frame \<Rightarrow> event_thread \<Rightarrow> event_thread outcome" where
  "event_frame ex ptm dur f t =
     (if \<not> et_start t \<and> frame_type f \<noteq> SDK_VIDEO_FRAME_I then Done t
      else let t = (if \<not> et_start t then begin_event ex ptm dur f t else t) in
        if et_quit t then Done t
        else if event_cut f t then Done (t\<lparr>et_break := True\<rparr>)
        else event_write f t)"

definition event_round :: "(string \<Rightarrow> bool) \<Rightarrow> tm \<Rightarrow> int \<Rightarrow> event_thread \<Rightarrow> event_thread outcome" where
  "event_round ex ptm dur t =
     (case pull_event_stream (et_stream t) of
        None \<Rightarrow> Waits
      | Some (None, es) \<Rightarrow> Done (t\<lparr>et_stream := es\<rparr>)
      | Some (Some f, es) \<Rightarrow> event_frame ex ptm dur f (t\<lparr>et_stream := es, et_frame := Some f\<rparr>))"

text \<open>The first argument is the number of rounds after which someone clears the status.\<close>

fun event_rounds :: "nat \<Rightarrow> (string \<Rightarrow> bool) \<Rightarrow> tm \<Rightarrow> int \<Rightarrow> event_thread \<Rightarrow> event_thread outcome" where
  "event_rounds 0 ex ptm dur t = Done t"
| "event_rounds (Suc n) ex ptm dur t =
     (if et_break t \<or> et_quit t then Done t
      else case event_round ex ptm dur t of Done t \<Rightarrow> event_rounds n ex ptm dur t | r \<Rightarrow> r)"

text \<open>Behind the loop: \<^verbatim>\<open>frame_head\<close> is read, the file is closed, the status is cleared.\<close>

definition end_event :: "event_thread \<Rightarrow> event_thread outcome" where
  "end_event t =
     (case et_frame t of
        None \<Rightarrow> Undef
      | Some f \<Rightarrow>
          let d = timeval_diff_ms (et_start_ms t) (pts f);
              af = (record_set_end_time (et_io t) (sint (frame_sec f)) (et_handle t))\<lparr>duration := (if d < 1000 then 1000 else d)\<rparr> in
          case record_event_stop af (et_env t) (et_io t) of
            None \<Rightarrow> Undef
          | Some (ret, af, w) \<Rightarrow>
              Done (t\<lparr>et_handle := af, et_io := w, et_stream := close_event_stream (et_stream t),
                      et_work := (et_work t)\<lparr>g_event_status := 0\<rparr>\<rparr>))"

definition event_record_thread ::
  "nat \<Rightarrow> (string \<Rightarrow> bool) \<Rightarrow> tm \<Rightarrow> sdk_frame option list \<Rightarrow> sdk_frame option list \<Rightarrow> event_stream \<Rightarrow> rec_env \<Rightarrow> io \<Rightarrow>
   record_work \<Rightarrow> event_thread outcome" where
  "event_record_thread n ex ptm video audio es env w rw =
     (let rw' = rw\<lparr>record_time_zone_pre := record_time_zone rw\<rparr>;
          t = \<lparr>et_start = False, et_start_ms = 0, et_handle = zero_file 0 1, et_frame = None, et_stream = es,
               et_env = env, et_io = w, et_work = rw', et_break = False, et_quit = False\<rparr> in
      if g_sd_tats env < 0 then Done (t\<lparr>et_work := rw'\<lparr>g_event_status := 0\<rparr>, et_quit := True\<rparr>)
      else case event_rounds n ex ptm (g_event_duration rw) (t\<lparr>et_stream := open_event_stream video audio es\<rparr>) of
        Done t \<Rightarrow> if et_quit t then Done t else end_event t
      | r \<Rightarrow> r)"

section \<open>Pulling frames\<close>

text \<open>One call hands out at most one frame, the next of the stream it reads, and leaves the other stream
  alone once the two are in step.\<close>

definition next_of :: "sdk_frame option list \<Rightarrow> sdk_frame option \<Rightarrow> sdk_frame option list \<Rightarrow> bool" where
  "next_of st r rest \<longleftrightarrow> (st = r # rest) \<or> (st = [] \<and> r = None \<and> rest = [])"

lemma pull_synced:
  assumes "g_sync_flag es"
  shows "\<exists>r es'. pull_event_stream es = Some (r, es') \<and> g_sync_flag es' \<and>
    (if g_audio_priority es then next_of (es_audio es) r (es_audio es') \<and> es_video es' = es_video es
     else next_of (es_video es) r (es_video es') \<and> es_audio es' = es_audio es)"
  using assms
  by (auto simp: pull_event_stream_def Let_def stream_read_def next_of_def split: list.splits option.splits)

lemma sync_loop_drop:
  "sync_loop v st = Some (a, rest) \<Longrightarrow> \<exists>skipped. st = skipped @ Some a # rest \<and> in_sync v a \<and>
     (\<forall>f. Some f \<in> set skipped \<longrightarrow> \<not> in_sync v f)"
proof (induction v st rule: sync_loop.induct)
  case (2 v st)
  then obtain sk where "st = sk @ Some a # rest" "in_sync v a" "\<forall>f. Some f \<in> set sk \<longrightarrow> \<not> in_sync v f" by auto
  then show ?case by (intro exI [of _ "None # sk"]) auto
next
  case (3 v b st)
  show ?case
  proof (cases "in_sync v b")
    case False
    then obtain sk where "st = sk @ Some a # rest" "in_sync v a" "\<forall>f. Some f \<in> set sk \<longrightarrow> \<not> in_sync v f"
      using 3 by auto
    then show ?thesis using False by (intro exI [of _ "Some b # sk"]) auto
  qed (use 3 in auto)
qed simp

lemma pull_first:
  assumes "\<not> g_sync_flag es" "pull_event_stream es = Some (Some v, es')" "\<not> g_audio_priority es"
  shows "\<exists>a skipped. es_video es = Some v # es_video es' \<and> es_audio es = skipped @ Some a # es_audio es' \<and>
    in_sync v a \<and> (\<forall>f. Some f \<in> set skipped \<longrightarrow> \<not> in_sync v f) \<and> g_sync_flag es' \<and> g_audio_priority es'"
  using assms
  by (auto simp: pull_event_stream_def Let_def stream_read_def split: list.splits option.splits prod.splits
      dest: sync_loop_drop)

text \<open>Without audio frames no video frame comes any more.\<close>

definition no_audio :: "event_stream \<Rightarrow> bool" where
  "no_audio es \<longleftrightarrow> g_audio_priority es \<and> (\<forall>r \<in> set (es_audio es). r = None)"

lemma no_audio_pull:
  "no_audio es \<Longrightarrow> \<exists>es'. pull_event_stream es = Some (None, es') \<and> no_audio es' \<and> es_video es' = es_video es"
  by (auto simp: no_audio_def pull_event_stream_def Let_def stream_read_def split: list.splits)

section \<open>The thread ends in undefined behaviour\<close>

definition frames_ok :: "sdk_frame option list \<Rightarrow> bool" where
  "frames_ok st \<longleftrightarrow> (\<forall>f. Some f \<in> set st \<longrightarrow> length (frame_data f) \<le> MAX_FRAME \<and> unat (pts f) < 2 ^ 32)"

lemma pull_frames:
  "pull_event_stream es = Some (r, es') \<Longrightarrow> frames_ok (es_video es) \<Longrightarrow> frames_ok (es_audio es) \<Longrightarrow>
   frames_ok (es_video es') \<and> frames_ok (es_audio es') \<and>
   (\<forall>f. r = Some f \<longrightarrow> length (frame_data f) \<le> MAX_FRAME \<and> unat (pts f) < 2 ^ 32)"
  by (auto simp: pull_event_stream_def Let_def stream_read_def frames_ok_def split: list.splits option.splits prod.splits if_splits
      dest!: sync_loop_drop)

text \<open>An event recording with a video frame in it; its name does not have the letters the closing code looks for.\<close>

definition event_live :: "avi_file \<Rightarrow> rec_env \<Rightarrow> bool" where
  "event_live af env \<longleftrightarrow> strstr (filename af) ''ch'' = None \<and>
     (\<exists>h s. recording (encode_header h) s af env \<and> 0 < video_total (rs_all s))"

lemma event_live_write:
  assumes l: "event_live af env" and w: "no_faults w" and k: "kind_ok i" and d: "length data \<le> MAX_FRAME"
  shows "\<exists>af' env' w'. avi_record_write af data i tv env w = Some (0, af', env', w') \<and> no_faults w' \<and>
    event_live af' env'"
proof -
  let ?f = "mkframe data i (fst tv) (snd tv)"
  have ok: "frame_ok ?f" using k d by (rule small_frame_ok)
  obtain h s where r: "recording (encode_header h) s af env" "0 < video_total (rs_all s)"
    using l by (auto simp: event_live_def)
  obtain af' env' w' where wr: "write_frame af (fr_data ?f) (fr_intra ?f) (fr_t1 ?f) (fr_t2 ?f) env w = Some (0, af', env', w')"
    "no_faults w'" "recording (encode_header h) (spec_write ?f s) af' env'"
    using write_frame_recording [OF r(1) ok w] by blast
  have "0 < video_total (rs_all (spec_write ?f s))" using rs_all_spec_write [of ?f s] r(2) by auto
  moreover have "filename af' = filename af" using filename_write_frame [OF wr(1)] .
  ultimately have "event_live af' env'" using wr(3) l by (auto simp: event_live_def)
  then show ?thesis using record_write_frame [OF wr(1)] wr(2) by simp
qed

lemma event_first_write:
  assumes o: "opened (encode_header h) af env" and n: "strstr (filename af) ''ch'' = None"
    and w: "no_faults w" and d: "length data \<le> MAX_FRAME"
  shows "\<exists>af' env' w'. avi_record_write af data 1 tv env w = Some (0, af', env', w') \<and> no_faults w' \<and>
    event_live af' env'"
proof -
  let ?f = "mkframe data 1 (fst tv) (snd tv)"
  have ok: "frame_ok ?f" using d by (intro small_frame_ok) (simp_all add: kind_ok_def is_video_def)
  obtain af' env' w' where wr: "write_frame af (fr_data ?f) (fr_intra ?f) (fr_t1 ?f) (fr_t2 ?f) env w = Some (0, af', env', w')"
    "no_faults w'" "recording (encode_header h) (spec_write ?f \<lparr>rs_disk = [], rs_buf = []\<rparr>) af' env'"
    using write_frame_opened [OF o _ ok w] by auto
  have "0 < video_total (rs_all (spec_write ?f \<lparr>rs_disk = [], rs_buf = []\<rparr>))"
    unfolding spec_first [OF ok] by (simp add: video_total_def is_video_def)
  moreover have "filename af' = filename af" using filename_write_frame [OF wr(1)] .
  ultimately have "event_live af' env'" using wr(3) n by (auto simp: event_live_def)
  then show ?thesis using record_write_frame [OF wr(1)] wr(2) by simp
qed

lemma event_live_times [simp]:
  "event_live (af\<lparr>file_stop := a, duration := b\<rparr>) env = event_live af env"
  by (simp add: event_live_def)

lemma event_live_stop: "event_live af env \<Longrightarrow> no_faults w \<Longrightarrow> record_event_stop af env w = None"
  unfolding event_live_def record_event_stop_def using event_close_crash by blast

text \<open>A handle on which no recording was started has no file to close.\<close>

lemma zero_file_stop:
  "\<not> g_sd_tats env < 0 \<Longrightarrow> record_event_stop ((zero_file 0 1)\<lparr>file_stop := a, duration := b\<rparr>) env w = None"
  by (simp add: record_event_stop_def avi_record_event_close_def zero_file_def Let_def)

definition event_inv :: "event_thread \<Rightarrow> bool" where
  "event_inv t \<longleftrightarrow> no_faults (et_io t) \<and> \<not> g_sd_tats (et_env t) < 0 \<and> \<not> et_quit t \<and>
     frames_ok (es_video (et_stream t)) \<and> frames_ok (es_audio (et_stream t)) \<and>
     (if et_start t then event_live (et_handle t) (et_env t) else et_handle t = zero_file 0 1)"

lemma event_live_sd: "event_live af env \<Longrightarrow> \<not> g_sd_tats env < 0"
  by (auto simp: event_live_def recording_def rec_static_def)

lemma event_write_ok:
  assumes "event_inv t" "et_start t" "length (frame_data f) \<le> MAX_FRAME"
  shows "\<exists>t'. event_write f t = Done t' \<and> event_inv t'"
proof -
  have k: "kind_ok (event_kind f)" by (simp add: event_kind_def kind_ok_def is_video_def)
  obtain af env w where "avi_record_write (et_handle t) (frame_data f) (event_kind f)
      (ucast (pts f div 1000), ucast (pts f mod 1000 * 1000)) (et_env t) (et_io t) = Some (0, af, env, w)"
    "no_faults w" "event_live af env"
    using event_live_write [OF _ _ k assms(3)] assms(1,2) by (fastforce simp: event_inv_def)
  then show ?thesis using assms(1,2) event_live_sd by (simp add: event_write_def event_inv_def)
qed

text \<open>The first key frame opens the file, does not cut it, and is written.\<close>

lemma pts_wrap: "unat (p :: u64) < 2 ^ 32 \<Longrightarrow> p - ucast (ucast p :: cuint) = 0"
proof -
  assume "unat p < 2 ^ 32"
  then have "unat (take_bit 32 p) = unat p" by (simp add: unsigned_take_bit_eq take_bit_nat_eq_self)
  then have "take_bit 32 p = p" by (simp only: word_unat_eq_iff)
  then have "(ucast (ucast p :: cuint) :: u64) = p" by (simp add: unsigned_ucast_eq)
  then show ?thesis by simp
qed

lemma begin_event_ok:
  assumes t: "event_inv t" "\<not> et_start t" and dur: "0 < dur"
  shows "\<exists>t' h. begin_event ex ptm dur f t = t' \<and> et_start t' \<and> \<not> et_quit t' \<and> et_break t' = et_break t \<and>
    et_stream t' = et_stream t \<and> et_frame t' = et_frame t \<and> et_start_ms t' = ucast (pts f) \<and>
    no_faults (et_io t') \<and> \<not> g_sd_tats (et_env t') < 0 \<and>
    ip_duration (init_param (et_handle t')) = dur \<and> ip_mode (init_param (et_handle t')) = RECORD_FIXED_DURATION \<and>
    opened (encode_header h) (et_handle t') (et_env t') \<and> strstr (filename (et_handle t')) ''ch'' = None"
proof -
  let ?start = "record_set_start_time (et_io t) (sint (frame_sec f)) (zero_file 0 1)"
  let ?af = "record_start_param ?start (uint SDK_RECORD_TYPE_ALARM) dur (uint (frame_rate f))"
  have p: "ip_mode (init_param ?af) = RECORD_FIXED_DURATION" "ip_duration (init_param ?af) = dur"
    "event_buf_flag ?af = 1" "normal_buf_flag ?af \<noteq> 1" "pre_index_pos ?af = 0"
    "length (idx_array ?af) = INDEX_ARRAY_MAX_NUMBER"
    by (simp_all add: record_start_param_def record_set_start_time_def init_rec_param_def zero_file_def Let_def)
  have io: "no_faults (et_io t)" "\<not> g_sd_tats (et_env t) < 0" "et_handle t = zero_file 0 1" "\<not> et_quit t"
    using t by (auto simp: event_inv_def)
  obtain bits q af1 env1 w1 where o: "avi_event_record_open ex ptm ?af (et_env t) (et_io t) = (0, af1, env1, w1)" "no_faults w1"
    "ip_duration (init_param af1) = dur" "ip_mode (init_param af1) = RECORD_FIXED_DURATION"
    "strstr (filename af1) ''ch'' = None" "opened (encode_header (header_for bits q)) af1 env1"
    using event_open_ok [OF io(1,2) p(1,3-6)] event_name_no_ch p(2) by metis
  have "record_event_start ex ptm ?start (uint SDK_RECORD_TYPE_ALARM) dur (uint (frame_rate f)) (et_env t) (et_io t) =
      (0, af1, env1, w1)"
    using o(1) dur p(2) by (simp add: record_event_start_def Let_def)
  then have "begin_event ex ptm dur f t =
      t\<lparr>et_start_ms := ucast (pts f), et_handle := af1, et_env := env1, et_io := w1, et_start := True\<rparr>"
    by (simp add: begin_event_def io(3) Let_def)
  moreover have "\<not> g_sd_tats env1 < 0" using o(6) by (auto simp: opened_def rec_static_def)
  ultimately show ?thesis using o io by auto
qed

lemma first_frame_ok:
  assumes t: "event_inv t" "\<not> et_start t" and f: "frame_type f = SDK_VIDEO_FRAME_I"
    and d: "length (frame_data f) \<le> MAX_FRAME" and p: "unat (pts f) < 2 ^ 32"
    and dur: "0 < dur" "dur * 1000 < 2 ^ 31"
  shows "\<exists>t'. event_frame ex ptm dur f t = Done t' \<and> event_inv t'"
proof -
  obtain t1 h where t1: "begin_event ex ptm dur f t = t1" "et_start t1" "\<not> et_quit t1"
    "et_stream t1 = et_stream t" "et_start_ms t1 = ucast (pts f)" "no_faults (et_io t1)"
    "ip_duration (init_param (et_handle t1)) = dur" "ip_mode (init_param (et_handle t1)) = RECORD_FIXED_DURATION"
    "opened (encode_header h) (et_handle t1) (et_env t1)" "strstr (filename (et_handle t1)) ''ch'' = None"
    using begin_event_ok [OF t dur(1), of ex ptm f] by blast
  have small: "uint (word_of_int k :: u64) = k" if "0 \<le> k" "k < 2 ^ 31" for k
    using that by (simp add: uint_word_of_int_eq take_bit_int_eq_self)
  have "uint (word_of_int (dur * 1000) :: u64) = dur * 1000"
    using dur by (intro small) auto
  then have "(word_of_int (dur * 1000) :: u64) \<noteq> 0" using dur(1) by auto
  then have cut: "\<not> event_cut f t1"
    using t1(5,7,8) pts_wrap [OF p] by (simp add: event_cut_def rec_elapsed_def RECORD_FIXED_DURATION_def Let_def)
  have k: "event_kind f = 1" using f by (simp add: event_kind_def SDK_VIDEO_FRAME_I_def SDK_AUDIO_FRAME_A_def)
  obtain af env w where w: "avi_record_write (et_handle t1) (frame_data f) 1
      (ucast (pts f div 1000), ucast (pts f mod 1000 * 1000)) (et_env t1) (et_io t1) = Some (0, af, env, w)"
    "no_faults w" "event_live af env"
    using event_first_write [OF t1(9,10,6) d] by blast
  have "event_frame ex ptm dur f t = event_write f t1"
    using t(2) f t1(1,3) cut by (simp add: event_frame_def)
  then show ?thesis
    using w k t1(2,3,4) t(1) event_live_sd [OF w(3)] by (simp add: event_write_def event_inv_def)
qed

lemma event_frame_ok:
  assumes t: "event_inv t" and d: "length (frame_data f) \<le> MAX_FRAME" "unat (pts f) < 2 ^ 32"
    and dur: "0 < dur" "dur * 1000 < 2 ^ 31"
  shows "\<exists>t'. event_frame ex ptm dur f t = Done t' \<and> event_inv t'"
proof (cases "et_start t")
  case False
  then show ?thesis using first_frame_ok [OF t False _ d dur] t by (auto simp: event_frame_def)
next
  case True
  then show ?thesis using event_write_ok [OF t True d(1)] t by (auto simp: event_frame_def event_inv_def)
qed

lemma event_rounds_ok:
  "event_inv t \<Longrightarrow> 0 < dur \<Longrightarrow> dur * 1000 < 2 ^ 31 \<Longrightarrow>
   event_rounds n ex ptm dur t = Waits \<or> (\<exists>t'. event_rounds n ex ptm dur t = Done t' \<and> event_inv t')"
proof (induction n arbitrary: t)
  case (Suc n)
  show ?case
  proof (cases "et_break t \<or> et_quit t \<or> pull_event_stream (et_stream t) = None")
    case True
    then show ?thesis using Suc.prems(1) by (auto simp: event_round_def event_inv_def)
  next
    case False
    then obtain r es where r: "pull_event_stream (et_stream t) = Some (r, es)" by fastforce
    have ok: "frames_ok (es_video es)" "frames_ok (es_audio es)"
      "\<forall>f. r = Some f \<longrightarrow> length (frame_data f) \<le> MAX_FRAME \<and> unat (pts f) < 2 ^ 32"
      using pull_frames [OF r] Suc.prems(1) by (auto simp: event_inv_def)
    have i: "event_inv (t\<lparr>et_stream := es\<rparr>)" "event_inv (t\<lparr>et_stream := es, et_frame := g\<rparr>)" for g
      using Suc.prems(1) ok by (simp_all add: event_inv_def)
    have "\<exists>t1. event_round ex ptm dur t = Done t1 \<and> event_inv t1"
      using r ok(3) i event_frame_ok [OF i(2) _ _ Suc.prems(2,3)] by (cases r) (auto simp: event_round_def)
    then obtain t1 where "event_round ex ptm dur t = Done t1" "event_inv t1" by blast
    then show ?thesis using Suc.IH [OF _ Suc.prems(2,3), of t1] False by simp
  qed
qed simp

section \<open>Properties\<close>

text \<open>C31: an event recording always ends in undefined behaviour on a working card: whatever the streams
  deliver, the thread either waits for an audio frame that never comes, or crashes when it leaves its
  loop, on a missing frame, on a file that was never opened, or on a file name without the letters
  the closing code looks for.\<close>

theorem event_thread_crashes:
  assumes "no_faults w" "\<not> g_sd_tats env < 0" "0 < g_event_duration rw" "g_event_duration rw * 1000 < 2 ^ 31"
    and "frames_ok video" "frames_ok audio"
  shows "event_record_thread n ex ptm video audio es env w rw \<in> {Waits, Undef}"
proof -
  let ?t0 = "\<lparr>et_start = False, et_start_ms = 0, et_handle = zero_file 0 1, et_frame = None,
               et_stream = open_event_stream video audio es, et_env = env, et_io = w,
               et_work = rw\<lparr>record_time_zone_pre := record_time_zone rw\<rparr>, et_break = False, et_quit = False\<rparr>"
  have "event_inv ?t0" using assms by (simp add: event_inv_def open_event_stream_def)
  from event_rounds_ok [OF this assms(3,4), of n ex ptm]
  consider "event_rounds n ex ptm (g_event_duration rw) ?t0 = Waits"
    | t where "event_rounds n ex ptm (g_event_duration rw) ?t0 = Done t" "event_inv t" by blast
  then show ?thesis
  proof cases
    case (2 t)
    have "end_event t = Undef"
      using 2(2) event_live_stop zero_file_stop
      by (auto simp: end_event_def event_inv_def record_set_end_time_def Let_def split: option.splits if_splits)
    then show ?thesis using 2 assms(2) by (simp add: event_record_thread_def event_inv_def Let_def)
  qed (use assms(2) in \<open>simp add: event_record_thread_def Let_def\<close>)
qed

definition key_frame :: sdk_frame where
  "key_frame = \<lparr>frame_type = 1, frame_sec = 5, pts = 5000, frame_rate = 20, frame_data = [1, 2, 3]\<rparr>"

definition sound_frame :: sdk_frame where
  "sound_frame = \<lparr>frame_type = 4, frame_sec = 5, pts = 5010, frame_rate = 0, frame_data = [7]\<rparr>"

definition no_stream :: event_stream where
  "no_stream = \<lparr>es_video = [], es_audio = [], g_audio_priority = False, g_sync_flag = False, g_video_offset = 0,
     g_audio_offset = 0\<rparr>"

definition sample_work :: record_work where
  "sample_work = \<lparr>g_normal_status = 0, g_event_status = 1, g_event_duration = 10, g_normal_duration = 0,
     record_time_zone = 0, record_time_zone_pre = 0\<rparr>"

lemma event_thread_crashes_witness:
  "event_record_thread 3 (\<lambda>_. True) \<lparr>tm_year = 115, tm_mon = 0, tm_mday = 27, tm_hour = 1, tm_min = 2, tm_sec = 3\<rparr>
     [Some key_frame] [Some sound_frame] no_stream zero_env good_io sample_work \<in> {Waits, Undef}"
  by (rule event_thread_crashes)
    (simp_all add: zero_env_def sample_work_def frames_ok_def key_frame_def sound_frame_def MAX_FRAME_def)

text \<open>once the two streams are in step, each call reads one of them, the audio stream when it has
  priority and the video stream otherwise, hands out what that read returned and leaves the other
  stream as it is: no frame is lost or reordered between the streams and the file.\<close>

theorem pull_event_in_order:
  assumes "g_sync_flag es"
  shows "\<exists>r es'. pull_event_stream es = Some (r, es') \<and> g_sync_flag es' \<and>
    (if g_audio_priority es then next_of (es_audio es) r (es_audio es') \<and> es_video es' = es_video es
     else next_of (es_video es) r (es_video es') \<and> es_audio es' = es_audio es)"
  by (rule pull_synced [OF assms])

lemma pull_event_in_order_witness:
  "\<exists>r es'. pull_event_stream (no_stream\<lparr>g_sync_flag := True, es_video := [Some key_frame]\<rparr>) = Some (r, es') \<and>
     g_sync_flag es' \<and> next_of [Some key_frame] r (es_video es')"
  using pull_event_in_order [of "no_stream\<lparr>g_sync_flag := True, es_video := [Some key_frame]\<rparr>"]
  by (auto simp: no_stream_def)

fun pulls :: "nat \<Rightarrow> event_stream \<Rightarrow> sdk_frame option list" where
  "pulls 0 es = []"
| "pulls (Suc n) es = (case pull_event_stream es of None \<Rightarrow> [] | Some (r, es) \<Rightarrow> r # pulls n es)"

text \<open>an event recording needs sound: when the audio stream has priority and delivers no frame any
  more, no later call hands out a frame, whatever the video stream holds.\<close>

theorem silence_stops_video:
  assumes "g_audio_priority es" "\<forall>r \<in> set (es_audio es). r = None"
  shows "pulls n es = replicate n None"
proof -
  have "no_audio es \<Longrightarrow> pulls n es = replicate n None" for es
  proof (induction n arbitrary: es)
    case (Suc n)
    then show ?case using no_audio_pull [OF Suc.prems] by auto
  qed simp
  then show ?thesis using assms by (simp add: no_audio_def)
qed

lemma silence_stops_video_witness:
  "pulls 3 (no_stream\<lparr>g_audio_priority := True, es_video := [Some key_frame]\<rparr>) = replicate 3 None"
  by (rule silence_stops_video) (simp_all add: no_stream_def)

end
