(* ===== verification/G711.thy ===== *)
theory G711
  imports Prelude
begin

text \<open>
  The G.711 codec of the audio path (\<^verbatim>\<open>grain_codec/src/audio/g711.c\<close>): the tables, the conversions of a
  sample, and the routines for buffers, which may work in place. Samples are 16 bit words; \<open>None\<close> is an access
  outside a table or a buffer.
\<close>

section \<open>Tables\<close>

definition u2a_table :: "byte list" where
  "u2a_table = [
     1, 1, 2, 2, 3, 3, 4, 4, 5, 5, 6, 6, 7, 7, 8, 8, 9, 10, 11, 12, 13, 14, 15, 16,
     17, 18, 19, 20, 21, 22, 23, 24, 25, 27, 29, 31, 33, 34, 35, 36, 37, 38, 39, 40, 41, 42, 43, 44,
     46, 48, 49, 50, 51, 52, 53, 54, 55, 56, 57, 58, 59, 60, 61, 62, 64, 65, 66, 67, 68, 69, 70, 71,
     72, 73, 74, 75, 76, 77, 78, 79, 81, 82, 83, 84, 85, 86, 87, 88, 89, 90, 91, 92, 93, 94, 95, 96,
     97, 98, 99, 100, 101, 102, 103, 104, 105, 106, 107, 108, 109, 110, 111, 112, 113, 114, 115, 116, 117, 118, 119, 120,
     121, 122, 123, 124, 125, 126, 127, 128]"

definition a2u_table :: "byte list" where
  "a2u_table = [
     1, 3, 5, 7, 9, 11, 13, 15, 16, 17, 18, 19, 20, 21, 22, 23, 24, 25, 26, 27, 28, 29, 30, 31,
     32, 32, 33, 33, 34, 34, 35, 35, 36, 37, 38, 39, 40, 41, 42, 43, 44, 45, 46, 47, 48, 48, 49, 49,
     50, 51, 52, 53, 54, 55, 56, 57, 58, 59, 60, 61, 62, 63, 64, 64, 65, 66, 67, 68, 69, 70, 71, 72,
     73, 74, 75, 76, 77, 78, 79, 79, 80, 81, 82, 83, 84, 85, 86, 87, 88, 89, 90, 91, 92, 93, 94, 95,
     96, 97, 98, 99, 100, 101, 102, 103, 104, 105, 106, 107, 108, 109, 110, 111, 112, 113, 114, 115, 116, 117, 118, 119,
     120, 121, 122, 123, 124, 125, 126, 127]"

definition l2A_table :: "byte list" where
  "l2A_table = [
     213, 212, 215, 214, 209, 208, 211, 210, 221, 220, 223, 222, 217, 216, 219, 218, 197, 196, 199, 198, 193, 192, 195, 194,
     205, 204, 207, 206, 201, 200, 203, 202, 245, 245, 244, 244, 247, 247, 246, 246, 241, 241, 240, 240, 243, 243, 242, 242,
     253, 253, 252, 252, 255, 255, 254, 254, 249, 249, 248, 248, 251, 251, 250, 250, 229, 229, 229, 229, 228, 228, 228, 228,
     231, 231, 231, 231, 230, 230, 230, 230, 225, 225, 225, 225, 224, 224, 224, 224, 227, 227, 227, 227, 226, 226, 226, 226,
     237, 237, 237, 237, 236, 236, 236, 236, 239, 239, 239, 239, 238, 238, 238, 238, 233, 233, 233, 233, 232, 232, 232, 232,
     235, 235, 235, 235, 234, 234, 234, 234, 149, 149, 149, 149, 149, 149, 149, 149, 148, 148, 148, 148, 148, 148, 148, 148,
     151, 151, 151, 151, 151, 151, 151, 151, 150, 150, 150, 150, 150, 150, 150, 150, 145, 145, 145, 145, 145, 145, 145, 145,
     144, 144, 144, 144, 144, 144, 144, 144, 147, 147, 147, 147, 147, 147, 147, 147, 146, 146, 146, 146, 146, 146, 146, 146,
     157, 157, 157, 157, 157, 157, 157, 157, 156, 156, 156, 156, 156, 156, 156, 156, 159, 159, 159, 159, 159, 159, 159, 159,
     158, 158, 158, 158, 158, 158, 158, 158, 153, 153, 153, 153, 153, 153, 153, 153, 152, 152, 152, 152, 152, 152, 152, 152,
     155, 155, 155, 155, 155, 155, 155, 155, 154, 154, 154, 154, 154, 154, 154, 154, 133, 133, 133, 133, 133, 133, 133, 133,
     133, 133, 133, 133, 133, 133, 133, 133, 132, 132, 132, 132, 132, 132, 132, 132, 132, 132, 132, 132, 132, 132, 132, 132,
     135, 135, 135, 135, 135, 135, 135, 135, 135, 135, 135, 135, 135, 135, 135, 135, 134, 134, 134, 134, 134, 134, 134, 134,
     134, 134, 134, 134, 134, 134, 134, 134, 129, 129, 129, 129, 129, 129, 129, 129, 129, 129, 129, 129, 129, 129, 129, 129,
     128, 128, 128, 128, 128, 128, 128, 128, 128, 128, 128, 128, 128, 128, 128, 128, 131, 131, 131, 131, 131, 131, 131, 131,
     131, 131, 131, 131, 131, 131, 131, 131, 130, 130, 130, 130, 130, 130, 130, 130, 130, 130, 130, 130, 130, 130, 130, 130,
     141, 141, 141, 141, 141, 141, 141, 141, 141, 141, 141, 141, 141, 141, 141, 141, 140, 140, 140, 140, 140, 140, 140, 140,
     140, 140, 140, 140, 140, 140, 140, 140, 143, 143, 143, 143, 143, 143, 143, 143, 143, 143, 143, 143, 143, 143, 143, 143,
     142, 142, 142, 142, 142, 142, 142, 142, 142, 142, 142, 142, 142, 142, 142, 142, 137, 137, 137, 137, 137, 137, 137, 137,
     137, 137, 137, 137, 137, 137, 137, 137, 136, 136, 136, 136, 136, 136, 136, 136, 136, 136, 136, 136, 136, 136, 136, 136,
     139, 139, 139, 139, 139, 139, 139, 139, 139, 139, 139, 139, 139, 139, 139, 139, 138, 138, 138, 138, 138, 138, 138, 138,
     138, 138, 138, 138, 138, 138, 138, 138, 181, 181, 181, 181, 181, 181, 181, 181, 181, 181, 181, 181, 181, 181, 181, 181,
     181, 181, 181, 181, 181, 181, 181, 181, 181, 181, 181, 181, 181, 181, 181, 181, 180, 180, 180, 180, 180, 180, 180, 180,
     180, 180, 180, 180, 180, 180, 180, 180, 180, 180, 180, 180, 180, 180, 180, 180, 180, 180, 180, 180, 180, 180, 180, 180,
     183, 183, 183, 183, 183, 183, 183, 183, 183, 183, 183, 183, 183, 183, 183, 183, 183, 183, 183, 183, 183, 183, 183, 183,
     183, 183, 183, 183, 183, 183, 183, 183, 182, 182, 182, 182, 182, 182, 182, 182, 182, 182, 182, 182, 182, 182, 182, 182,
     182, 182, 182, 182, 182, 182, 182, 182, 182, 182, 182, 182, 182, 182, 182, 182, 177, 177, 177, 177, 177, 177, 177, 177,
     177, 177, 177, 177, 177, 177, 177, 177, 177, 177, 177, 177, 177, 177, 177, 177, 177, 177, 177, 177, 177, 177, 177, 177,
     176, 176, 176, 176, 176, 176, 176, 176, 176, 176, 176, 176, 176, 176, 176, 176, 176, 176, 176, 176, 176, 176, 176, 176,
     176, 176, 176, 176, 176, 176, 176, 176, 179, 179, 179, 179, 179, 179, 179, 179, 179, 179, 179, 179, 179, 179, 179, 179,
     179, 179, 179, 179, 179, 179, 179, 179, 179, 179, 179, 179, 179, 179, 179, 179, 178, 178, 178, 178, 178, 178, 178, 178,
     178, 178, 178, 178, 178, 178, 178, 178, 178, 178, 178, 178, 178, 178, 178, 178, 178, 178, 178, 178, 178, 178, 178, 178,
     189, 189, 189, 189, 189, 189, 189, 189, 189, 189, 189, 189, 189, 189, 189, 189, 189, 189, 189, 189, 189, 189, 189, 189,
     189, 189, 189, 189, 189, 189, 189, 189, 188, 188, 188, 188, 188, 188, 188, 188, 188, 188, 188, 188, 188, 188, 188, 188,
     188, 188, 188, 188, 188, 188, 188, 188, 188, 188, 188, 188, 188, 188, 188, 188, 191, 191, 191, 191, 191, 191, 191, 191,
     191, 191, 191, 191, 191, 191, 191, 191, 191, 191, 191, 191, 191, 191, 191, 191, 191, 191, 191, 191, 191, 191, 191, 191,
     190, 190, 190, 190, 190, 190, 190, 190, 190, 190, 190, 190, 190, 190, 190, 190, 190, 190, 190, 190, 190, 190, 190, 190,
     190, 190, 190, 190, 190, 190, 190, 190, 185, 185, 185, 185, 185, 185, 185, 185, 185, 185, 185, 185, 185, 185, 185, 185,
     185, 185, 185, 185, 185, 185, 185, 185, 185, 185, 185, 185, 185, 185, 185, 185, 184, 184, 184, 184, 184, 184, 184, 184,
     184, 184, 184, 184, 184, 184, 184, 184, 184, 184, 184, 184, 184, 184, 184, 184, 184, 184, 184, 184, 184, 184, 184, 184,
     187, 187, 187, 187, 187, 187, 187, 187, 187, 187, 187, 187, 187, 187, 187, 187, 187, 187, 187, 187, 187, 187, 187, 187,
     187, 187, 187, 187, 187, 187, 187, 187, 186, 186, 186, 186, 186, 186, 186, 186, 186, 186, 186, 186, 186, 186, 186, 186,
     186, 186, 186, 186, 186, 186, 186, 186, 186, 186, 186, 186, 186, 186, 186, 186, 165, 165, 165, 165, 165, 165, 165, 165,
     165, 165, 165, 165, 165, 165, 165, 165, 165, 165, 165, 165, 165, 165, 165, 165, 165, 165, 165, 165, 165, 165, 165, 165,
     165, 165, 165, 165, 165, 165, 165, 165, 165, 165, 165, 165, 165, 165, 165, 165, 165, 165, 165, 165, 165, 165, 165, 165,
     165, 165, 165, 165, 165, 165, 165, 165, 164, 164, 164, 164, 164, 164, 164, 164, 164, 164, 164, 164, 164, 164, 164, 164,
     164, 164, 164, 164, 164, 164, 164, 164, 164, 164, 164, 164, 164, 164, 164, 164, 164, 164, 164, 164, 164, 164, 164, 164,
     164, 164, 164, 164, 164, 164, 164, 164, 164, 164, 164, 164, 164, 164, 164, 164, 164, 164, 164, 164, 164, 164, 164, 164,
     167, 167, 167, 167, 167, 167, 167, 167, 167, 167, 167, 167, 167, 167, 167, 167, 167, 167, 167, 167, 167, 167, 167, 167,
     167, 167, 167, 167, 167, 167, 167, 167, 167, 167, 167, 167, 167, 167, 167, 167, 167, 167, 167, 167, 167, 167, 167, 167,
     167, 167, 167, 167, 167, 167, 167, 167, 167, 167, 167, 167, 167, 167, 167, 167, 166, 166, 166, 166, 166, 166, 166, 166,
     166, 166, 166, 166, 166, 166, 166, 166, 166, 166, 166, 166, 166, 166, 166, 166, 166, 166, 166, 166, 166, 166, 166, 166,
     166, 166, 166, 166, 166, 166, 166, 166, 166, 166, 166, 166, 166, 166, 166, 166, 166, 166, 166, 166, 166, 166, 166, 166,
     166, 166, 166, 166, 166, 166, 166, 166, 161, 161, 161, 161, 161, 161, 161, 161, 161, 161, 161, 161, 161, 161, 161, 161,
     161, 161, 161, 161, 161, 161, 161, 161, 161, 161, 161, 161, 161, 161, 161, 161, 161, 161, 161, 161, 161, 161, 161, 161,
     161, 161, 161, 161, 161, 161, 161, 161, 161, 161, 161, 161, 161, 161, 161, 161, 161, 161, 161, 161, 161, 161, 161, 161,
     160, 160, 160, 160, 160, 160, 160, 160, 160, 160, 160, 160, 160, 160, 160, 160, 160, 160, 160, 160, 160, 160, 160, 160,
     160, 160, 160, 160, 160, 160, 160, 160, 160, 160, 160, 160, 160, 160, 160, 160, 160, 160, 160, 160, 160, 160, 160, 160,
     160, 160, 160, 160, 160, 160, 160, 160, 160, 160, 160, 160, 160, 160, 160, 160, 163, 163, 163, 163, 163, 163, 163, 163,
     163, 163, 163, 163, 163, 163, 163, 163, 163, 163, 163, 163, 163, 163, 163, 163, 163, 163, 163, 163, 163, 163, 163, 163,
     163, 163, 163, 163, 163, 163, 163, 163, 163, 163, 163, 163, 163, 163, 163, 163, 163, 163, 163, 163, 163, 163, 163, 163,
     163, 163, 163, 163, 163, 163, 163, 163, 162, 162, 162, 162, 162, 162, 162, 162, 162, 162, 162, 162, 162, 162, 162, 162,
     162, 162, 162, 162, 162, 162, 162, 162, 162, 162, 162, 162, 162, 162, 162, 162, 162, 162, 162, 162, 162, 162, 162, 162,
     162, 162, 162, 162, 162, 162, 162, 162, 162, 162, 162, 162, 162, 162, 162, 162, 162, 162, 162, 162, 162, 162, 162, 162,
     173, 173, 173, 173, 173, 173, 173, 173, 173, 173, 173, 173, 173, 173, 173, 173, 173, 173, 173, 173, 173, 173, 173, 173,
     173, 173, 173, 173, 173, 173, 173, 173, 173, 173, 173, 173, 173, 173, 173, 173, 173, 173, 173, 173, 173, 173, 173, 173,
     173, 173, 173, 173, 173, 173, 173, 173, 173, 173, 173, 173, 173, 173, 173, 173, 172, 172, 172, 172, 172, 172, 172, 172,
     172, 172, 172, 172, 172, 172, 172, 172, 172, 172, 172, 172, 172, 172, 172, 172, 172, 172, 172, 172, 172, 172, 172, 172,
     172, 172, 172, 172, 172, 172, 172, 172, 172, 172, 172, 172, 172, 172, 172, 172, 172, 172, 172, 172, 172, 172, 172, 172,
     172, 172, 172, 172, 172, 172, 172, 172, 175, 175, 175, 175, 175, 175, 175, 175, 175, 175, 175, 175, 175, 175, 175, 175,
     175, 175, 175, 175, 175, 175, 175, 175, 175, 175, 175, 175, 175, 175, 175, 175, 175, 175, 175, 175, 175, 175, 175, 175,
     175, 175, 175, 175, 175, 175, 175, 175, 175, 175, 175, 175, 175, 175, 175, 175, 175, 175, 175, 175, 175, 175, 175, 175,
     174, 174, 174, 174, 174, 174, 174, 174, 174, 174, 174, 174, 174, 174, 174, 174, 174, 174, 174, 174, 174, 174, 174, 174,
     174, 174, 174, 174, 174, 174, 174, 174, 174, 174, 174, 174, 174, 174, 174, 174, 174, 174, 174, 174, 174, 174, 174, 174,
     174, 174, 174, 174, 174, 174, 174, 174, 174, 174, 174, 174, 174, 174, 174, 174, 169, 169, 169, 169, 169, 169, 169, 169,
     169, 169, 169, 169, 169, 169, 169, 169, 169, 169, 169, 169, 169, 169, 169, 169, 169, 169, 169, 169, 169, 169, 169, 169,
     169, 169, 169, 169, 169, 169, 169, 169, 169, 169, 169, 169, 169, 169, 169, 169, 169, 169, 169, 169, 169, 169, 169, 169,
     169, 169, 169, 169, 169, 169, 169, 169, 168, 168, 168, 168, 168, 168, 168, 168, 168, 168, 168, 168, 168, 168, 168, 168,
     168, 168, 168, 168, 168, 168, 168, 168, 168, 168, 168, 168, 168, 168, 168, 168, 168, 168, 168, 168, 168, 168, 168, 168,
     168, 168, 168, 168, 168, 168, 168, 168, 168, 168, 168, 168, 168, 168, 168, 168, 168, 168, 168, 168, 168, 168, 168, 168,
     171, 171, 171, 171, 171, 171, 171, 171, 171, 171, 171, 171, 171, 171, 171, 171, 171, 171, 171, 171, 171, 171, 171, 171,
     171, 171, 171, 171, 171, 171, 171, 171, 171, 171, 171, 171, 171, 171, 171, 171, 171, 171, 171, 171, 171, 171, 171, 171,
     171, 171, 171, 171, 171, 171, 171, 171, 171, 171, 171, 171, 171, 171, 171, 171, 170, 170, 170, 170, 170, 170, 170, 170,
     170, 170, 170, 170, 170, 170, 170, 170, 170, 170, 170, 170, 170, 170, 170, 170, 170, 170, 170, 170, 170, 170, 170, 170,
     170, 170, 170, 170, 170, 170, 170, 170, 170, 170, 170, 170, 170, 170, 170, 170, 170, 170, 170, 170, 170, 170, 170, 170,
     170, 170, 170, 170, 170, 170, 170, 170]"

definition A2l_table :: "16 word list" where
  "A2l_table = [
     -5504, -5248, -6016, -5760, -4480, -4224, -4992, -4736, -7552, -7296, -8064, -7808, -6528, -6272, -7040, -6784, -2752, -2624, -3008, -2880, -2240, -2112, -2496, -2368,
     -3776, -3648, -4032, -3904, -3264, -3136, -3520, -3392, -22016, -20992, -24064, -23040, -17920, -16896, -19968, -18944, -30208, -29184, -32256, -31232, -26112, -25088, -28160, -27136,
     -11008, -10496, -12032, -11520, -8960, -8448, -9984, -9472, -15104, -14592, -16128, -15616, -13056, -12544, -14080, -13568, -344, -328, -376, -360, -280, -264, -312, -296,
     -472, -456, -504, -488, -408, -392, -440, -424, -88, -72, -120, -104, -24, -8, -56, -40, -216, -200, -248, -232, -152, -136, -184, -168,
     -1376, -1312, -1504, -1440, -1120, -1056, -1248, -1184, -1888, -1824, -2016, -1952, -1632, -1568, -1760, -1696, -688, -656, -752, -720, -560, -528, -624, -592,
     -944, -912, -1008, -976, -816, -784, -880, -848, 5504, 5248, 6016, 5760, 4480, 4224, 4992, 4736, 7552, 7296, 8064, 7808, 6528, 6272, 7040, 6784,
     2752, 2624, 3008, 2880, 2240, 2112, 2496, 2368, 3776, 3648, 4032, 3904, 3264, 3136, 3520, 3392, 22016, 20992, 24064, 23040, 17920, 16896, 19968, 18944,
     30208, 29184, 32256, 31232, 26112, 25088, 28160, 27136, 11008, 10496, 12032, 11520, 8960, 8448, 9984, 9472, 15104, 14592, 16128, 15616, 13056, 12544, 14080, 13568,
     344, 328, 376, 360, 280, 264, 312, 296, 472, 456, 504, 488, 408, 392, 440, 424, 88, 72, 120, 104, 24, 8, 56, 40,
     216, 200, 248, 232, 152, 136, 184, 168, 1376, 1312, 1504, 1440, 1120, 1056, 1248, 1184, 1888, 1824, 2016, 1952, 1632, 1568, 1760, 1696,
     688, 656, 752, 720, 560, 528, 624, 592, 944, 912, 1008, 976, 816, 784, 880, 848]"

definition seg_end :: "int list" where
  "seg_end = [255, 511, 1023, 2047, 4095, 8191, 16383, 32767]"

section \<open>Samples\<close>

definition BIAS :: int where "BIAS = 0x84"

text \<open>The sign is taken in 16 bits: the negation of -32768 is -32768, whose shifted value is negative.\<close>

definition linear2alaw :: "16 word \<Rightarrow> byte option" where
  "linear2alaw l =
     (let mask = (if sint l < 0 then 0x7f else 0xff); l = (if sint l < 0 then - l else l); i = sint l div 16
      in if i < 0 \<or> i \<ge> int (length l2A_table) then None else Some (l2A_table ! nat i AND mask))"

definition alaw2linear :: "byte \<Rightarrow> 16 word" where
  "alaw2linear a = A2l_table ! unat a"

fun search :: "int \<Rightarrow> int list \<Rightarrow> nat" where
  "search val [] = 0"
| "search val (e # table) = (if val \<le> e then 0 else Suc (search val table))"

text \<open>The two routines the tables replace; they are compiled out.\<close>

definition linear2alaw_ref :: "int \<Rightarrow> byte" where
  "linear2alaw_ref pcm_val =
     (let (v, mask) = (if pcm_val \<ge> 0 then (pcm_val, 0xD5) else (- pcm_val - 8, 0x55)); seg = search v seg_end
      in if seg \<ge> 8 then 0x7F XOR mask
         else (word_of_int (int seg * 16) OR
               word_of_int ((if seg < 2 then v div 16 else v div 2 ^ (seg + 3)) mod 16)) XOR mask)"

definition alaw2linear_ref :: "byte \<Rightarrow> int" where
  "alaw2linear_ref a_val =
     (let a = a_val XOR 0x55; t = uint (a AND 0xf) * 16; seg = uint (drop_bit 4 (a AND 0x70));
          t = (if seg = 0 then t + 8 else if seg = 1 then t + 0x108 else (t + 0x108) * 2 ^ nat (seg - 1))
      in if a AND 0x80 \<noteq> 0 then t else - t)"

definition linear2ulaw :: "int \<Rightarrow> byte" where
  "linear2ulaw pcm_val =
     (let (v, mask) = (if pcm_val < 0 then (BIAS - pcm_val, 0x7F) else (pcm_val + BIAS, 0xFF)); seg = search v seg_end
      in if seg \<ge> 8 then 0x7F XOR mask
         else word_of_int (int seg * 16 + v div 2 ^ (seg + 3) mod 16) XOR mask)"

definition ulaw2linear :: "byte \<Rightarrow> int" where
  "ulaw2linear u_val =
     (let u = NOT u_val; t = (uint (u AND 0xf) * 8 + BIAS) * 2 ^ unat (drop_bit 4 (u AND 0x70))
      in if u AND 0x80 \<noteq> 0 then BIAS - t else t - BIAS)"

definition ulaw2linear_ex :: "byte \<Rightarrow> 16 word" where
  "ulaw2linear_ex u_val = word_of_int (ulaw2linear u_val)"

definition alaw2ulaw :: "byte \<Rightarrow> byte" where
  "alaw2ulaw aval =
     (if aval AND 0x80 \<noteq> 0 then 0xFF XOR a2u_table ! unat (aval XOR 0xD5) else 0x7F XOR a2u_table ! unat (aval XOR 0x55))"

definition ulaw2alaw :: "byte \<Rightarrow> byte" where
  "ulaw2alaw uval =
     (if uval AND 0x80 \<noteq> 0 then 0xD5 XOR (u2a_table ! unat (0xFF XOR uval) - 1)
      else 0x55 XOR (u2a_table ! unat (0x7F XOR uval) - 1))"

section \<open>Buffers\<close>

text \<open>The buffers are the source and, unless \<^verbatim>\<open>pDst\<close> is NULL, the destination; with NULL the result replaces the source
  as the loop goes, forwards when the samples shrink and backwards when they grow.\<close>

definition enc_step :: "(16 word \<Rightarrow> byte option) \<Rightarrow> nat \<Rightarrow> byte list \<times> byte list option \<Rightarrow> (byte list \<times> byte list option) option" where
  "enc_step f i st =
     (case st of (src, dst) \<Rightarrow>
        if length src < 2 * i + 2 then None
        else case f (get16 (slice (2 * i) 2 src)) of
          None \<Rightarrow> None
        | Some b \<Rightarrow> (case dst of
              None \<Rightarrow> Some (src[i := b], None)
            | Some d \<Rightarrow> if i < length d then Some (src, Some (d[i := b])) else None))"

fun enc_loop :: "(16 word \<Rightarrow> byte option) \<Rightarrow> nat \<Rightarrow> nat \<Rightarrow> byte list \<times> byte list option \<Rightarrow> (byte list \<times> byte list option) option" where
  "enc_loop f i 0 st = Some st"
| "enc_loop f i (Suc n) st = (case enc_step f i st of None \<Rightarrow> None | Some st' \<Rightarrow> enc_loop f (Suc i) n st')"

definition dec_step :: "(byte \<Rightarrow> 16 word) \<Rightarrow> nat \<Rightarrow> byte list \<times> byte list option \<Rightarrow> (byte list \<times> byte list option) option" where
  "dec_step f i st =
     (case st of (src, dst) \<Rightarrow>
        if length src \<le> i then None
        else let s = le16 (f (src ! i)) in
          case dst of
            None \<Rightarrow> if length src < 2 * i + 2 then None else Some (put_at (2 * i) s src, None)
          | Some d \<Rightarrow> if length d < 2 * i + 2 then None else Some (src, Some (put_at (2 * i) s d)))"

fun dec_loop :: "(byte \<Rightarrow> 16 word) \<Rightarrow> nat \<Rightarrow> byte list \<times> byte list option \<Rightarrow> (byte list \<times> byte list option) option" where
  "dec_loop f 0 st = Some st"
| "dec_loop f (Suc i) st = (case dec_step f i st of None \<Rightarrow> None | Some st' \<Rightarrow> dec_loop f i st')"

definition G711AEnc :: "byte list \<times> byte list option \<Rightarrow> int \<Rightarrow> (int \<times> byte list \<times> byte list option) option" where
  "G711AEnc st len = map_option (Pair len) (enc_loop linear2alaw 0 (nat len) st)"

definition G711UEnc :: "byte list \<times> byte list option \<Rightarrow> int \<Rightarrow> (int \<times> byte list \<times> byte list option) option" where
  "G711UEnc st len = map_option (Pair len) (enc_loop (\<lambda>l. Some (linear2ulaw (sint l))) 0 (nat len) st)"

definition G711ADec :: "byte list \<times> byte list option \<Rightarrow> int \<Rightarrow> (int \<times> byte list \<times> byte list option) option" where
  "G711ADec st src_len = map_option (Pair (src_len * 2)) (dec_loop alaw2linear (nat src_len) st)"

definition G711UDec :: "byte list \<times> byte list option \<Rightarrow> int \<Rightarrow> (int \<times> byte list \<times> byte list option) option" where
  "G711UDec st len = map_option (Pair len) (dec_loop ulaw2linear_ex (nat len) st)"

text \<open>The routines of the audio module, on separate buffers; they write the length through a pointer and return 1.\<close>

definition g711a_Encode :: "byte list \<Rightarrow> byte list \<Rightarrow> nat \<Rightarrow> (nat \<times> byte list) option" where
  "g711a_Encode src dest srclen =
     (case enc_loop linear2alaw 0 (srclen div 2) (src, Some dest) of
        Some (_, Some d) \<Rightarrow> Some (srclen div 2, d)
      | _ \<Rightarrow> None)"

fun decode_up :: "nat \<Rightarrow> nat \<Rightarrow> byte list \<Rightarrow> byte list \<Rightarrow> byte list option" where
  "decode_up i 0 src dest = Some dest"
| "decode_up i (Suc n) src dest =
     (if length src \<le> i \<or> length dest < 2 * i + 2 then None
      else decode_up (Suc i) n src (put_at (2 * i) (le16 (alaw2linear (src ! i))) dest))"

definition g711a_Decode :: "byte list \<Rightarrow> byte list \<Rightarrow> nat \<Rightarrow> (nat \<times> byte list) option" where
  "g711a_Decode src dest srclen = map_option (Pair (2 * srclen)) (decode_up 0 srclen src dest)"

end
