(* ===== verification/G711Tables.thy ===== *)
theory G711Tables
  imports G711
begin

text \<open>
  The tables of the G.711 codec evaluated once: the decoder's table against the formula it replaces, and the
  encoder's table as runs of equal codes, with the conditions on each run that the proofs about a sample use.
\<close>

section \<open>The tables\<close>

fun bytes_from :: "nat \<Rightarrow> byte \<Rightarrow> byte list" where
  "bytes_from 0 b = []"
| "bytes_from (Suc n) b = b # bytes_from n (b + 1)"

lemma length_bytes_from [simp]: "length (bytes_from n b) = n"
  by (induction n arbitrary: b) auto

lemma nth_bytes_from: "k < n \<Longrightarrow> bytes_from n b ! k = b + word_of_nat k"
  by (induction n arbitrary: b k) (auto simp: nth_Cons' add.commute gr0_conv_Suc)

lemma A2l_values: "List.map sint A2l_table = List.map alaw2linear_ref (bytes_from 256 0)"
  by code_simp

lemma length_A2l: "length A2l_table = 256"
  using arg_cong [OF A2l_values, of length] by simp

lemma byte_lt: "unat (a :: byte) < 256"
  using unsigned_less [where 'a = nat, of a] by simp

lemma alaw2linear_formula: "sint (alaw2linear a) = alaw2linear_ref a"
proof -
  have "sint (A2l_table ! unat a) = alaw2linear_ref (bytes_from 256 0 ! unat a)"
    using A2l_values byte_lt [of a] nth_map [of "unat a" A2l_table sint] nth_map [of "unat a" "bytes_from 256 0" alaw2linear_ref]
    by (simp add: length_A2l)
  then show ?thesis using byte_lt [of a] by (simp add: alaw2linear_def nth_bytes_from)
qed

text \<open>The encoder's table in runs of equal codes.\<close>

definition l2A_runs :: "(int \<times> byte) list" where
  "l2A_runs = [
     (1, 213), (1, 212), (1, 215), (1, 214), (1, 209), (1, 208), (1, 211), (1, 210), (1, 221), (1, 220),
     (1, 223), (1, 222), (1, 217), (1, 216), (1, 219), (1, 218), (1, 197), (1, 196), (1, 199), (1, 198),
     (1, 193), (1, 192), (1, 195), (1, 194), (1, 205), (1, 204), (1, 207), (1, 206), (1, 201), (1, 200),
     (1, 203), (1, 202), (2, 245), (2, 244), (2, 247), (2, 246), (2, 241), (2, 240), (2, 243), (2, 242),
     (2, 253), (2, 252), (2, 255), (2, 254), (2, 249), (2, 248), (2, 251), (2, 250), (4, 229), (4, 228),
     (4, 231), (4, 230), (4, 225), (4, 224), (4, 227), (4, 226), (4, 237), (4, 236), (4, 239), (4, 238),
     (4, 233), (4, 232), (4, 235), (4, 234), (8, 149), (8, 148), (8, 151), (8, 150), (8, 145), (8, 144),
     (8, 147), (8, 146), (8, 157), (8, 156), (8, 159), (8, 158), (8, 153), (8, 152), (8, 155), (8, 154),
     (16, 133), (16, 132), (16, 135), (16, 134), (16, 129), (16, 128), (16, 131), (16, 130), (16, 141), (16, 140),
     (16, 143), (16, 142), (16, 137), (16, 136), (16, 139), (16, 138), (32, 181), (32, 180), (32, 183), (32, 182),
     (32, 177), (32, 176), (32, 179), (32, 178), (32, 189), (32, 188), (32, 191), (32, 190), (32, 185), (32, 184),
     (32, 187), (32, 186), (64, 165), (64, 164), (64, 167), (64, 166), (64, 161), (64, 160), (64, 163), (64, 162),
     (64, 173), (64, 172), (64, 175), (64, 174), (64, 169), (64, 168), (64, 171), (64, 170)]"

fun unrun :: "(int \<times> byte) list \<Rightarrow> byte list" where
  "unrun [] = []"
| "unrun ((n, b) # rs) = replicate (nat n) b @ unrun rs"

fun lookup :: "(int \<times> byte) list \<Rightarrow> int \<Rightarrow> byte" where
  "lookup [] i = 0"
| "lookup ((n, b) # rs) i = (if i < n then b else lookup rs (i - n))"

lemma l2A_unrun: "l2A_table = unrun l2A_runs"
  by code_simp

text \<open>A run that starts at \<open>i\<close>: its code stands for a value among those it encodes, and both ends of its range are
  within a 32nd of it.\<close>

fun runs_ok :: "int \<Rightarrow> (int \<times> byte) list \<Rightarrow> bool" where
  "runs_ok i [] \<longleftrightarrow> i = 2048"
| "runs_ok i ((n, b) # rs) \<longleftrightarrow>
     (let d = alaw2linear_ref b in
      0 < n \<and> 0 < d \<and> alaw2linear_ref (b AND 0x7f) = - d \<and> 16 * i \<le> d \<and> d < 16 * (i + n) \<and>
      32 * \<bar>d - 16 * i\<bar> \<le> max 256 (16 * i) \<and>
      32 * \<bar>d - (16 * (i + n) - 1)\<bar> \<le> max 256 (16 * i) \<and> runs_ok (i + n) rs)"

lemma runs_ok_all: "runs_ok 0 l2A_runs"
  by code_simp

text \<open>Codes with the sign bit stand for positive values, the others for their negations.\<close>

lemma high_codes:
  "list_all (\<lambda>a. 0 < alaw2linear_ref a \<and> alaw2linear_ref a < 32768 \<and> lookup l2A_runs (alaw2linear_ref a div 16) = a \<and>
     alaw2linear_ref (a AND 0x7f) = - alaw2linear_ref a) (bytes_from 128 128)"
  by code_simp

lemma low_codes: "list_all (\<lambda>a. (a OR 0x80) AND 0x7f = a) (bytes_from 128 0)"
  by code_simp

lemma low_high: "List.map (\<lambda>a. a OR 0x80) (bytes_from 128 0) = bytes_from 128 128"
  by code_simp

text \<open>A run lies in one step of the formula: both ends of its range have the same segment and the same quotient.\<close>

fun runs_ref :: "int \<Rightarrow> (int \<times> byte) list \<Rightarrow> bool" where
  "runs_ref i [] \<longleftrightarrow> i = 2048"
| "runs_ref i ((n, b) # rs) \<longleftrightarrow>
     (let lo = 16 * i; hi = 16 * (i + n) - 1; seg = search lo seg_end; q = (if seg < 2 then 16 else 2 ^ (seg + 3)) in
      0 < n \<and> search hi seg_end = seg \<and> lo div q = hi div q \<and> linear2alaw_ref lo = b \<and> runs_ref (i + n) rs)"

lemma runs_ref_all: "runs_ref 0 l2A_runs"
  by code_simp

text \<open>The code 127 decodes to 0, which is encoded as 255.\<close>

lemma ulaw_codes: "list_all (\<lambda>u. linear2ulaw (ulaw2linear u) = (if u = 127 then 255 else u) \<and> \<bar>ulaw2linear u\<bar> \<le> 32124) (bytes_from 256 0)"
  by code_simp

end
