(* ===== verification/G711Facts.thy ===== *)
theory G711Facts
  imports G711Tables
begin

text \<open>
  What the G.711 codec promises of a sample and of a buffer.
\<close>

section \<open>Runs\<close>

lemma byte_halves: "(a :: byte) \<in> set (bytes_from 128 0) \<or> a \<in> set (bytes_from 128 128)"
proof (cases "unat a < 128")
  case True
  then have "bytes_from 128 0 ! unat a = a" by (simp add: nth_bytes_from)
  then show ?thesis using nth_mem [of "unat a" "bytes_from 128 0"] True by simp
next
  case False
  then have "word_of_nat (unat a - 128) = a - 128" by (simp add: of_nat_diff)
  then have "bytes_from 128 128 ! (unat a - 128) = a" using False byte_lt [of a] by (simp add: nth_bytes_from)
  then show ?thesis using nth_mem [of "unat a - 128" "bytes_from 128 128"] False byte_lt [of a] by simp
qed

lemma runs_le: "runs_ok i rs \<Longrightarrow> i \<le> 2048"
  by (induction i rs rule: runs_ok.induct) (auto simp: Let_def)

lemma runs_nth:
  "runs_ok i rs \<Longrightarrow> int (length (unrun rs)) = 2048 - i \<and>
   (\<forall>j. 0 \<le> j \<and> j < 2048 - i \<longrightarrow> unrun rs ! nat j = lookup rs j)"
proof (induction i rs rule: runs_ok.induct)
  case (2 i n b rs)
  then have n: "0 < n" and IH: "int (length (unrun rs)) = 2048 - (i + n)"
    "\<forall>j. 0 \<le> j \<and> j < 2048 - (i + n) \<longrightarrow> unrun rs ! nat j = lookup rs j"
    by (auto simp: Let_def)
  have "nat j - nat n = nat (j - n)" for j using n by simp
  then show ?case using n IH by (auto simp: nth_append)
qed auto

lemma runs_near:
  "runs_ok i rs \<Longrightarrow> i \<le> j \<Longrightarrow> j < 2048 \<Longrightarrow> 16 * j \<le> x \<Longrightarrow> x \<le> 16 * j + 15 \<Longrightarrow>
   alaw2linear_ref (lookup rs (j - i) AND 0x7f) = - alaw2linear_ref (lookup rs (j - i)) \<and>
   32 * \<bar>alaw2linear_ref (lookup rs (j - i)) - x\<bar> \<le> max 256 x"
proof (induction i rs rule: runs_ok.induct)
  case (2 i n b rs)
  show ?case
  proof (cases "j - i < n")
    case True
    then have x: "16 * i \<le> x" "x \<le> 16 * (i + n) - 1" using 2(3-6) by simp_all
    let ?v = "alaw2linear_ref b" and ?M = "max 256 (16 * i)"
    have R: "alaw2linear_ref (b AND 0x7f) = - ?v" "32 * \<bar>?v - 16 * i\<bar> \<le> ?M" "32 * \<bar>?v - (16 * (i + n) - 1)\<bar> \<le> ?M"
      using 2(2) unfolding runs_ok.simps Let_def by blast+
    have "32 * \<bar>?v - x\<bar> \<le> ?M" using R(2,3) x unfolding abs_if by (auto split: if_splits)
    moreover have "?M \<le> max 256 x" using x(1) by simp
    ultimately show ?thesis using R(1) True by simp
  next
    case False
    then have *: "i + n \<le> j" "lookup ((n, b) # rs) (j - i) = lookup rs (j - (i + n))" by (simp_all add: diff_diff_eq)
    have "runs_ok (i + n) rs" using 2(2) by (simp add: Let_def)
    then show ?thesis unfolding *(2) by (rule 2(1) [OF refl _ *(1) 2(4-6)])
  qed
qed auto

lemma search_mono: "u \<le> v \<Longrightarrow> search u t \<le> search v t"
  by (induction t) auto

lemma runs_ref_lookup:
  "runs_ref i rs \<Longrightarrow> 0 \<le> i \<Longrightarrow> i \<le> j \<Longrightarrow> j < 2048 \<Longrightarrow> 16 * j \<le> v \<Longrightarrow> v \<le> 16 * j + 15 \<Longrightarrow> linear2alaw_ref v = lookup rs (j - i)"
proof (induction i rs rule: runs_ref.induct)
  case (2 i n b rs)
  let ?lo = "16 * i" and ?hi = "16 * (i + n) - 1"
  let ?q = "if search ?lo seg_end < 2 then 16 else 2 ^ (search ?lo seg_end + 3) :: int"
  have R: "search ?hi seg_end = search ?lo seg_end" "?lo div ?q = ?hi div ?q" "linear2alaw_ref ?lo = b" "runs_ref (i + n) rs" "0 < n"
    using 2(2) unfolding runs_ref.simps Let_def by blast+
  show ?case
  proof (cases "j - i < n")
    case True
    then have v: "?lo \<le> v" "v \<le> ?hi" using 2(3-7) by simp_all
    have s: "search v seg_end = search ?lo seg_end"
      using search_mono [OF v(1), of seg_end] search_mono [OF v(2), of seg_end] R(1) by simp
    have "0 < ?q" by simp
    then have "v div ?q = ?lo div ?q"
      using zdiv_mono1 [OF v(1), of ?q] zdiv_mono1 [OF v(2), of ?q] R(2) by linarith
    then have "linear2alaw_ref v = linear2alaw_ref ?lo"
      using s 2(3) v(1) by (auto simp: linear2alaw_ref_def Let_def split: if_splits)
    then show ?thesis using R(3) True by simp
  next
    case False
    then have *: "i + n \<le> j" "lookup ((n, b) # rs) (j - i) = lookup rs (j - (i + n))" by (simp_all add: diff_diff_eq)
    have "0 \<le> i + n" using R(5) 2(3) by simp
    show ?thesis unfolding *(2) using 2(1) R(4) *(1) 2(5-7) \<open>0 \<le> i + n\<close> by (simp add: Let_def)
  qed
qed auto

section \<open>One sample\<close>

lemma byte_and_ff [simp]: "(b :: byte) AND 0xff = b"
proof -
  have "(0xff :: byte) = - 1" by simp
  then show ?thesis by (simp only: and.right_neutral)
qed

lemma sint_of_int16: "- 32768 \<le> k \<Longrightarrow> k < 32768 \<Longrightarrow> sint (word_of_int k :: 16 word) = k"
  by (simp add: sint_sbintrunc' signed_take_bit_int_eq_self)

lemma sint_range16: "- 32768 \<le> sint (l :: 16 word)" "sint l < 32768"
  using sint_ge [of l] sint_lt [of l] by simp_all

lemma sint_uminus16: "sint (l :: 16 word) \<noteq> - 32768 \<Longrightarrow> sint (- l) = - sint l"
proof -
  assume "sint l \<noteq> - 32768"
  then have "- 32768 \<le> - sint l" "- sint l < 32768" using sint_range16 [of l] by simp_all
  moreover have "- l = word_of_int (- sint l)" by simp
  ultimately show ?thesis using sint_of_int16 by metis
qed

lemma linear2alaw_lookup:
  assumes "sint l \<noteq> - 32768"
  shows "linear2alaw l = Some (lookup l2A_runs (\<bar>sint l\<bar> div 16) AND (if sint l < 0 then 0x7f else 0xff))"
proof -
  have a: "sint (if sint l < 0 then - l else l) = \<bar>sint l\<bar>" using sint_uminus16 [OF assms] by simp
  have "0 \<le> \<bar>sint l\<bar> div 16" "\<bar>sint l\<bar> div 16 < 2048" using sint_range16 [of l] assms by auto
  then show ?thesis
    using runs_nth [OF runs_ok_all] unfolding linear2alaw_def Let_def a l2A_unrun by auto
qed

lemma alaw_inverse: "linear2alaw (alaw2linear a) = Some a"
proof -
  have H: "0 < alaw2linear_ref b" "alaw2linear_ref b < 32768" "lookup l2A_runs (alaw2linear_ref b div 16) = b"
    "alaw2linear_ref (b AND 0x7f) = - alaw2linear_ref b" if "b \<in> set (bytes_from 128 128)" for b
    using high_codes that by (auto simp: list_all_iff)
  from byte_halves [of a] show ?thesis
  proof
    assume "a \<in> set (bytes_from 128 128)"
    from H [OF this] show ?thesis by (simp add: linear2alaw_lookup alaw2linear_formula)
  next
    assume l: "a \<in> set (bytes_from 128 0)"
    have "a OR 0x80 \<in> set (List.map (\<lambda>a. a OR 0x80) (bytes_from 128 0))" using l by simp
    then have h: "a OR 0x80 \<in> set (bytes_from 128 128)" unfolding low_high .
    have "(a OR 0x80) AND 0x7f = a" using low_codes l by (auto simp: list_all_iff)
    then show ?thesis using H [OF h] by (simp add: linear2alaw_lookup alaw2linear_formula)
  qed
qed

lemma linear2alaw_formula: "0 \<le> sint l \<Longrightarrow> linear2alaw l = Some (linear2alaw_ref (sint l))"
proof -
  assume l: "0 \<le> sint l"
  let ?k = "sint l div 16"
  have "0 \<le> ?k" "?k < 2048" "16 * ?k \<le> sint l" "sint l \<le> 16 * ?k + 15" using sint_range16 [of l] l by presburger+
  from runs_ref_lookup [OF runs_ref_all _ this] l show ?thesis by (simp add: linear2alaw_lookup)
qed

text \<open>The loudest negative sample is its own negation and reaches before the table.\<close>

lemma sint_min: "sint l = - 32768 \<longleftrightarrow> l = (word_of_int (- 32768) :: 16 word)"
proof
  assume "sint l = - 32768"
  then have "sint l = sint (word_of_int (- 32768) :: 16 word)" by simp
  then show "l = word_of_int (- 32768)" by (rule signed_word_eqI)
qed simp

lemma linear2alaw_min: "linear2alaw l = None \<longleftrightarrow> l = word_of_int (- 32768)"
proof
  assume "linear2alaw l = None"
  then have "sint l = - 32768" using linear2alaw_lookup [of l] by force
  then show "l = word_of_int (- 32768)" unfolding sint_min .
next
  show "l = word_of_int (- 32768) \<Longrightarrow> linear2alaw l = None" by (simp add: linear2alaw_def)
qed

lemma alaw_error:
  assumes "sint l \<noteq> - 32768"
  shows "\<exists>a. linear2alaw l = Some a \<and> 32 * \<bar>sint (alaw2linear a) - sint l\<bar> \<le> max 256 \<bar>sint l\<bar>"
proof -
  define x k b where "x = \<bar>sint l\<bar>" and "k = x div 16" and "b = lookup l2A_runs k"
  have "0 \<le> x" "x < 32768" using sint_range16 [of l] assms by (auto simp: x_def)
  then have "0 \<le> k" "k < 2048" "16 * k \<le> x" "x \<le> 16 * k + 15" unfolding k_def by presburger+
  from runs_near [OF runs_ok_all this]
  have n: "alaw2linear_ref (b AND 0x7f) = - alaw2linear_ref b" "32 * \<bar>alaw2linear_ref b - x\<bar> \<le> max 256 x"
    unfolding b_def by (simp_all only: diff_0_right)
  have l: "linear2alaw l = Some (b AND (if sint l < 0 then 0x7f else 0xff))"
    using linear2alaw_lookup [OF assms] unfolding b_def k_def x_def .
  show ?thesis
  proof (cases "sint l < 0")
    case True
    then have "alaw2linear_ref (b AND 0x7f) - sint l = - (alaw2linear_ref b - x)" using n(1) by (simp add: x_def)
    then have "32 * \<bar>alaw2linear_ref (b AND 0x7f) - sint l\<bar> \<le> max 256 x" using n(2) by (simp only: abs_minus_cancel)
    then show ?thesis using True l by (simp add: alaw2linear_formula x_def)
  next
    case False
    then show ?thesis using l n(2) by (simp add: byte_and_ff alaw2linear_formula x_def)
  qed
qed

section \<open>Buffers in place\<close>

text \<open>Decoding goes backwards, so that the samples written at \<open>2 * i\<close> never meet a code that is still to be read.\<close>

lemma dec_loop_in_place:
  "2 * n \<le> length src \<Longrightarrow>
   dec_loop f n (src, None) = Some (concat (List.map (\<lambda>b. le16 (f b)) (take n src)) @ drop (2 * n) src, None)"
proof (induction n arbitrary: src)
  case (Suc i)
  let ?s = "le16 (f (src ! i))"
  let ?t = "put_at (2 * i) ?s src"
  have t: "take i ?t = take i src" "drop (2 * i) ?t = ?s @ drop (2 * i + 2) src" "length ?t = length src"
    using Suc.prems by (simp_all add: put_at_def)
  have "dec_loop f (Suc i) (src, None) = dec_loop f i (?t, None)"
    using Suc.prems by (simp add: dec_step_def)
  also have "\<dots> = Some (concat (List.map (\<lambda>b. le16 (f b)) (take i src)) @ ?s @ drop (2 * i + 2) src, None)"
    using Suc.IH [of ?t] Suc.prems by (simp add: t)
  finally show ?case using Suc.prems by (simp add: take_Suc_conv_app_nth)
qed simp

text \<open>Encoding goes forwards: before sample \<open>i\<close>, \<open>i\<close> codes are written, \<open>i\<close> bytes are used up, and the rest is
  untouched.\<close>

lemma enc_loop_in_place:
  assumes "\<And>x. x \<in> set xs \<Longrightarrow> f x = Some (g x)"
  shows "length p = i \<Longrightarrow> length q = i \<Longrightarrow>
    \<exists>q'. length q' = i + length xs \<and>
      enc_loop f i (length xs) (p @ q @ concat (List.map le16 xs) @ r, None) = Some (p @ List.map g xs @ q' @ r, None)"
  using assms
proof (induction xs arbitrary: i p q)
  case (Cons x xs)
  let ?u = "tl (q @ le16 x)" and ?rest = "concat (List.map le16 xs) @ r"
  have u: "length ?u = Suc i" "q @ le16 x = hd (q @ le16 x) # ?u" using Cons.prems(2) by (simp_all add: le16_def)
  have g: "get16 (slice (2 * i) 2 (p @ q @ le16 x @ ?rest)) = x"
    using Cons.prems(1,2) by (simp add: slice_def)
  have "(p @ (q @ le16 x) @ ?rest)[i := g x] = p @ (g x # ?u) @ ?rest"
    using Cons.prems(1) by (subst u(2)) (simp add: list_update_append)
  then have "enc_step f i (p @ q @ le16 x @ ?rest, None) = Some ((p @ [g x]) @ ?u @ ?rest, None)"
    using Cons.prems g by (simp add: enc_step_def)
  then have "enc_loop f i (length (x # xs)) (p @ q @ concat (List.map le16 (x # xs)) @ r, None) =
      enc_loop f (Suc i) (length xs) ((p @ [g x]) @ ?u @ ?rest, None)"
    by simp
  moreover obtain q' where "length q' = Suc i + length xs"
    "enc_loop f (Suc i) (length xs) ((p @ [g x]) @ ?u @ ?rest, None) = Some ((p @ [g x]) @ List.map g xs @ q' @ r, None)"
    using Cons.IH [of "p @ [g x]" "Suc i" ?u] Cons.prems u(1) by auto
  ultimately show ?case by (intro exI [of _ q']) simp
qed simp

text \<open>Both on the codes of a buffer with room for the samples.\<close>

lemma G711ADec_in_place:
  "length pad = length bs \<Longrightarrow>
   G711ADec (bs @ pad, None) (int (length bs)) =
     Some (2 * int (length bs), concat (List.map (\<lambda>b. le16 (alaw2linear b)) bs), None)"
  by (simp add: G711ADec_def dec_loop_in_place)

lemma G711AEnc_decoded:
  "\<exists>q. length q = length bs \<and>
     G711AEnc (concat (List.map (\<lambda>b. le16 (alaw2linear b)) bs), None) (int (length bs)) =
       Some (int (length bs), bs @ q, None)"
proof -
  have "map (the \<circ> linear2alaw) (List.map alaw2linear bs) = bs"
    by (simp add: alaw_inverse comp_def)
  moreover have "\<And>x. x \<in> set (List.map alaw2linear bs) \<Longrightarrow> linear2alaw x = Some ((the \<circ> linear2alaw) x)"
    by (auto simp: alaw_inverse)
  ultimately show ?thesis
    using enc_loop_in_place [of "List.map alaw2linear bs" linear2alaw "the \<circ> linear2alaw" "[]" 0 "[]" "[]"]
    by (auto simp: G711AEnc_def comp_def)
qed

section \<open>Separate buffers\<close>

lemma get16_sample:
  "i < length xs \<Longrightarrow> get16 (slice (2 * i) 2 (concat (List.map le16 xs))) = xs ! i"
proof (induction xs arbitrary: i)
  case (Cons x xs)
  show ?case
  proof (cases i)
    case (Suc j)
    then show ?thesis using Cons by (simp add: slice_def le16_def)
  qed (simp add: slice_def)
qed simp

lemma length_samples [simp]: "length (concat (List.map le16 xs)) = 2 * length xs"
  by (induction xs) auto

lemma enc_loop_apart:
  "i + n = length xs \<Longrightarrow> length xs \<le> length d \<Longrightarrow>
   enc_loop f i n (concat (List.map le16 xs), Some d) =
     (if \<exists>x \<in> set (drop i xs). f x = None then None
      else Some (concat (List.map le16 xs), Some (put_at i (List.map (the \<circ> f) (drop i xs)) d)))"
proof (induction n arbitrary: i d)
  case (Suc n)
  then have i: "i < length xs" "drop i xs = xs ! i # drop (Suc i) xs" by (simp_all add: Cons_nth_drop_Suc)
  have "put_at (Suc i) bs (d[i := b]) = put_at i (b # bs) d" if "length bs = n" for b bs
    using i(1) Suc.prems by (simp add: put_at_def take_Suc_conv_app_nth)
  then show ?case
    using Suc.IH [of "Suc i"] Suc.prems i by (cases "f (xs ! i)") (auto simp: enc_step_def get16_sample)
qed (simp add: put_at_def)

lemma g711a_Encode_samples:
  "length xs \<le> length d \<Longrightarrow> word_of_int (- 32768) \<notin> set xs \<Longrightarrow>
   g711a_Encode (concat (List.map le16 xs)) d (2 * length xs) =
     Some (length xs, List.map (the \<circ> linear2alaw) xs @ drop (length xs) d)"
  by (auto simp: g711a_Encode_def enc_loop_apart linear2alaw_min put_at_def)

lemma g711a_Encode_min:
  "length xs \<le> length d \<Longrightarrow> word_of_int (- 32768) \<in> set xs \<Longrightarrow>
   g711a_Encode (concat (List.map le16 xs)) d (2 * length xs) = None"
  by (auto simp: g711a_Encode_def enc_loop_apart linear2alaw_min)

lemma decode_up_codes:
  "i + n \<le> length src \<Longrightarrow> 2 * (i + n) \<le> length d \<Longrightarrow>
   decode_up i n src d =
     Some (put_at (2 * i) (concat (List.map (\<lambda>b. le16 (alaw2linear b)) (take n (drop i src)))) d)"
proof (induction n arbitrary: i d)
  case (Suc n)
  then have i: "take (Suc n) (drop i src) = src ! i # take n (drop (Suc i) src)"
    by (simp add: Cons_nth_drop_Suc [symmetric])
  have p: "put_at (2 * Suc i) t (put_at (2 * i) (le16 b) d) = put_at (2 * i) (le16 b @ t) d" for b t
    using Suc.prems by (simp add: put_at_def add.commute)
  let ?b = "alaw2linear (src ! i)"
  have "decode_up i (Suc n) src d = decode_up (Suc i) n src (put_at (2 * i) (le16 ?b) d)" using Suc.prems by simp
  also have "\<dots> = Some (put_at (2 * Suc i) (concat (List.map (\<lambda>b. le16 (alaw2linear b)) (take n (drop (Suc i) src))))
      (put_at (2 * i) (le16 ?b) d))"
    using Suc.prems by (intro Suc.IH) (simp_all add: length_put_at)
  finally show ?case unfolding p i by simp
qed (simp add: put_at_def)

lemma g711a_Decode_codes:
  "n \<le> length src \<Longrightarrow> 2 * n \<le> length d \<Longrightarrow>
   g711a_Decode src d n =
     Some (2 * n, concat (List.map (\<lambda>b. le16 (alaw2linear b)) (take n src)) @ drop (2 * n) d)"
proof -
  have "length (concat (List.map (\<lambda>b. le16 (alaw2linear b)) bs)) = 2 * length bs" for bs by (induction bs) auto
  then show "n \<le> length src \<Longrightarrow> 2 * n \<le> length d \<Longrightarrow> ?thesis"
    by (simp add: g711a_Decode_def decode_up_codes put_at_def)
qed

section \<open>Properties\<close>

text \<open>C37: The table driven A-law routines agree with the arithmetic ones they replace: the decoder on every code, the encoder
  on every sample that is not negative.\<close>
theorem alaw_tables_equiv:
  "sint (alaw2linear a) = alaw2linear_ref a \<and> (0 \<le> sint l \<longrightarrow> linear2alaw l = Some (linear2alaw_ref (sint l)))"
  using alaw2linear_formula linear2alaw_formula by blast

theorem alaw_tables_equiv_witness: "linear2alaw 1000 = Some (linear2alaw_ref 1000)"
  using alaw_tables_equiv [of 0 1000] by simp

text \<open>A-law codes decoded in place, in a buffer with room for the samples, and encoded in place again are the codes one
  started from.\<close>
theorem alaw_in_place:
  assumes "length pad = length bs"
  shows "\<exists>m q. G711ADec (bs @ pad, None) (int (length bs)) = Some (2 * int (length bs), m, None) \<and>
    G711AEnc (m, None) (int (length bs)) = Some (int (length bs), bs @ q, None)"
  using G711ADec_in_place [OF assms] G711AEnc_decoded [of bs] by auto

theorem alaw_in_place_witness:
  "\<exists>m q. G711ADec ([0x2a, 0xd5, 0x7f] @ [0, 0, 0], None) 3 = Some (6, m, None) \<and>
    G711AEnc (m, None) 3 = Some (3, [0x2a, 0xd5, 0x7f] @ q, None)"
  using alaw_in_place [of "[0, 0, 0]" "[0x2a, 0xd5, 0x7f]"] by simp

text \<open>C38: Samples above the least one, encoded and decoded by the routines of the audio module, come back with the same number
  of samples, each within a 32nd of its magnitude, or within 8 where it is small.\<close>
theorem g711a_distortion:
  assumes "word_of_int (- 32768) \<notin> set xs" "length xs \<le> length d" "2 * length xs \<le> length d'"
  shows "\<exists>codes ys. g711a_Encode (concat (List.map le16 xs)) d (2 * length xs) = Some (length xs, codes) \<and>
    g711a_Decode codes d' (length xs) = Some (2 * length xs, concat (List.map le16 ys) @ drop (2 * length xs) d') \<and>
    list_all2 (\<lambda>x y. 32 * \<bar>sint y - sint x\<bar> \<le> max 256 \<bar>sint x\<bar>) xs ys"
proof -
  let ?c = "List.map (the \<circ> linear2alaw) xs"
  have "sint x \<noteq> - 32768" if "x \<in> set xs" for x
    using that assms(1) unfolding sint_min by metis
  then have "list_all2 (\<lambda>x y. 32 * \<bar>sint y - sint x\<bar> \<le> max 256 \<bar>sint x\<bar>) xs (List.map alaw2linear ?c)"
  proof (induction xs)
    case (Cons x xs)
    then show ?case using alaw_error [of x] by auto
  qed simp
  then show ?thesis
    using g711a_Encode_samples [OF assms(2,1)] g711a_Decode_codes [of "length xs" "?c @ drop (length xs) d" d'] assms(3)
    by (intro exI [of _ "?c @ drop (length xs) d"] exI [of _ "List.map alaw2linear ?c"]) (simp add: comp_def)
qed

theorem g711a_distortion_witness:
  "\<exists>codes ys. g711a_Encode (concat (List.map le16 [100, word_of_int (- 20000)])) [0, 0] (2 * 2) = Some (2, codes) \<and>
    g711a_Decode codes [0, 0, 0, 0] 2 = Some (2 * 2, concat (List.map le16 ys) @ []) \<and>
    list_all2 (\<lambda>x y. 32 * \<bar>sint y - sint x\<bar> \<le> max 256 \<bar>sint x\<bar>) [100, word_of_int (- 20000) :: 16 word] ys"
proof -
  have "length [100, word_of_int (- 20000) :: 16 word] = 2" by simp
  then show ?thesis using g711a_distortion [of "[100, word_of_int (- 20000)]" "[0, 0]" "[0, 0, 0, 0]"] by (simp only:) simp
qed

text \<open>A single sample of -32768 makes the encoder of the audio module read before its table.\<close>
theorem loudest_sample_escapes:
  assumes "word_of_int (- 32768) \<in> set xs" "length xs \<le> length d"
  shows "g711a_Encode (concat (List.map le16 xs)) d (2 * length xs) = None"
  using g711a_Encode_min [OF assms(2,1)] .

theorem loudest_sample_escapes_witness:
  "g711a_Encode (concat (List.map le16 [7, word_of_int (- 32768)])) [0, 0] 4 = None"
  using loudest_sample_escapes [of "[7, word_of_int (- 32768)]" "[0, 0]"] by simp

text \<open>The samples of the mu-law decoder fit the 16 bits they are stored in, and encoding them gives the code back; the
  code 127 alone, a negative zero, comes back as 255.\<close>
theorem ulaw_fits:
  "sint (ulaw2linear_ex u) = ulaw2linear u \<and> linear2ulaw (sint (ulaw2linear_ex u)) = (if u = 127 then 255 else u)"
proof -
  have "u = bytes_from 256 0 ! unat u" "unat u < length (bytes_from 256 0)"
    using byte_lt [of u] by (simp_all add: nth_bytes_from)
  then have "u \<in> set (bytes_from 256 0)" using nth_mem by metis
  then have *: "linear2ulaw (ulaw2linear u) = (if u = 127 then 255 else u)" "\<bar>ulaw2linear u\<bar> \<le> 32124"
    using ulaw_codes by (auto simp: list_all_iff)
  then have "sint (ulaw2linear_ex u) = ulaw2linear u" unfolding ulaw2linear_ex_def by (intro sint_of_int16) linarith+
  then show ?thesis using *(1) by simp
qed

end
