(* ===== verification/Params.thy ===== *)
theory Params
  imports Prelude
begin

text \<open>
  Messages and stored parameters: the message head of \<^verbatim>\<open>sdk_struct.h\<close>, the parameter accessors of
  \<^verbatim>\<open>adapt/src/adapt_param.c\<close>, and the message handlers of \<^verbatim>\<open>main/src/main_msg.c\<close> that store and fetch a
  configuration. The parameter library itself is not part of the sources: a \<open>param_lib\<close> is an argument of the
  definitions, and \<open>param_laws\<close> states what its documentation promises.
\<close>

section \<open>Messages\<close>

record sdk_msg =
  msg_magic :: "16 word"
  msg_version :: "16 word"
  msg_id :: "16 word"
  msg_dir :: byte
  msg_ack :: byte
  msg_args :: cuint
  msg_extend :: cuint
  msg_chann :: cuint
  msg_size :: cuint
  msg_data :: "byte list"

definition SDK_ERR_SUCCESS :: byte where "SDK_ERR_SUCCESS = 0"
definition SDK_ERR_FAILURE :: byte where "SDK_ERR_FAILURE = 1"
definition SDK_ERR_PASS :: byte where "SDK_ERR_PASS = 2"
definition SDK_ERR_USER_NOT_EXIST :: byte where "SDK_ERR_USER_NOT_EXIST = 3"
definition SDK_ERR_ROOT_USER :: byte where "SDK_ERR_ROOT_USER = 4"
definition SDK_ERR_TOO_MANY_USER :: byte where "SDK_ERR_TOO_MANY_USER = 5"
definition SDK_ERR_USER_ALREADY_EXIST :: byte where "SDK_ERR_USER_ALREADY_EXIST = 6"

definition SDK_PARAM_SET :: cuint where "SDK_PARAM_SET = 1"
definition CHANN_TYPE_ALL :: cuint where "CHANN_TYPE_ALL = 0xFA"
definition PARAM_MASK_ALL :: cuint where "PARAM_MASK_ALL = 0xFFFF"

definition SDK_MAIN_MSG_NET_MNG_CFG :: cuint where "SDK_MAIN_MSG_NET_MNG_CFG = 8"
definition SDK_MAIN_MSG_PTZ_CFG :: cuint where "SDK_MAIN_MSG_PTZ_CFG = 9"
definition SDK_MAIN_MSG_ENCODE_CFG :: cuint where "SDK_MAIN_MSG_ENCODE_CFG = 14"
definition SDK_MAIN_MSG_RECORD_CFG :: cuint where "SDK_MAIN_MSG_RECORD_CFG = 15"
definition SDK_MAIN_MSG_MOTION_CFG :: cuint where "SDK_MAIN_MSG_MOTION_CFG = 17"
definition SDK_MAIN_MSG_ALARM_IN_CFG :: cuint where "SDK_MAIN_MSG_ALARM_IN_CFG = 18"
definition SDK_MAIN_MSG_HIDE_CFG :: cuint where "SDK_MAIN_MSG_HIDE_CFG = 19"
definition SDK_MAIN_MSG_LOST_CFG :: cuint where "SDK_MAIN_MSG_LOST_CFG = 20"
definition SDK_MAIN_MSG_OSD_CFG :: cuint where "SDK_MAIN_MSG_OSD_CFG = 21"
definition SDK_MAIN_MSG_USER :: cuint where "SDK_MAIN_MSG_USER = 26"
definition SDK_MAIN_MSG_OVERLAY_CFG :: cuint where "SDK_MAIN_MSG_OVERLAY_CFG = 28"
definition SDK_MAIN_MSG_SERIAL_CFG :: cuint where "SDK_MAIN_MSG_SERIAL_CFG = 30"
definition SDK_MAIN_MSG_MANUAL_REC :: cuint where "SDK_MAIN_MSG_MANUAL_REC = 35"
definition SDK_MAIN_MSG_MANUAL_ALMIN :: cuint where "SDK_MAIN_MSG_MANUAL_ALMIN = 36"
definition SDK_MAIN_MSG_PLATFORM_CFG :: cuint where "SDK_MAIN_MSG_PLATFORM_CFG = 39"
definition SDK_MAIN_MSG_DDNS_CFG :: cuint where "SDK_MAIN_MSG_DDNS_CFG = 41"
definition SDK_MAIN_MSG_SCHED_CFG :: cuint where "SDK_MAIN_MSG_SCHED_CFG = 50"
definition SDK_MAIN_MSG_REGIONAL_CFG :: cuint where "SDK_MAIN_MSG_REGIONAL_CFG = 51"
definition SDK_MAIN_MSG_AWS :: cuint where "SDK_MAIN_MSG_AWS = 57"
definition SDK_MAIN_MSG_BUTT :: nat where "SDK_MAIN_MSG_BUTT = 58"

section \<open>The parameter library\<close>

text \<open>\<open>plget p key buf\<close>: the contents of a buffer after \<^verbatim>\<open>sdk_param_get\<close>; \<open>plset p key v\<close>: the parameters after
  \<^verbatim>\<open>sdk_param_set\<close>.\<close>

record 'p param_lib =
  plget :: "'p \<Rightarrow> cuint \<Rightarrow> byte list \<Rightarrow> byte list"
  plset :: "'p \<Rightarrow> cuint \<Rightarrow> byte list \<Rightarrow> 'p"

definition param_laws :: "'p param_lib \<Rightarrow> bool" where
  "param_laws lib \<longleftrightarrow>
     (\<forall>p k v buf. length buf = length v \<longrightarrow> plget lib (plset lib p k v) k buf = v) \<and>
     (\<forall>p k k' v buf. k \<noteq> k' \<longrightarrow> plget lib (plset lib p k v) k' buf = plget lib p k' buf) \<and>
     (\<forall>p k buf. length (plget lib p k buf) = length buf)"

lemma plget_same: "param_laws lib \<Longrightarrow> length buf = length v \<Longrightarrow> plget lib (plset lib p k v) k buf = v"
  by (simp add: param_laws_def)

lemma plget_other: "param_laws lib \<Longrightarrow> k \<noteq> k' \<Longrightarrow> plget lib (plset lib p k v) k' buf = plget lib p k' buf"
  by (simp add: param_laws_def)

lemma plget_length: "param_laws lib \<Longrightarrow> length (plget lib p k buf) = length buf"
  by (simp add: param_laws_def)

text \<open>A table from keys to values; a value shorter than the buffer leaves the rest of it.\<close>

definition table_lib :: "(cuint \<Rightarrow> byte list) param_lib" where
  "table_lib = \<lparr>plget = \<lambda>p k buf. take (length buf) (p k @ drop (length (p k)) buf), plset = \<lambda>p k v. p(k := v)\<rparr>"

lemma table_laws: "param_laws table_lib"
  by (auto simp: param_laws_def table_lib_def)

section \<open>Accessors\<close>

text \<open>The key of a parameter: its message id and a channel, which is not cut to the 8 bits it has room for.\<close>

definition param_key :: "cuint \<Rightarrow> cuint \<Rightarrow> cuint" where
  "param_key ch pid = push_bit 8 pid OR ch"

definition sdk_param_get_ch :: "'p param_lib \<Rightarrow> cuint \<Rightarrow> cuint \<Rightarrow> 'p \<Rightarrow> byte list \<Rightarrow> byte list" where
  "sdk_param_get_ch lib ch pid p buf = plget lib p (param_key ch pid) buf"

definition sdk_param_set_ch :: "'p param_lib \<Rightarrow> cuint \<Rightarrow> cuint \<Rightarrow> byte list \<Rightarrow> 'p \<Rightarrow> 'p" where
  "sdk_param_set_ch lib ch pid v p = plset lib p (param_key ch pid) v"

definition adapt_param_get_chnum :: int where "adapt_param_get_chnum = 0"
definition adapt_param_get_ana_chan_num :: int where "adapt_param_get_ana_chan_num = 0"

definition adapt_param_get_alarm_in_cfg :: "'p param_lib \<Rightarrow> cuint \<Rightarrow> 'p \<Rightarrow> byte list \<Rightarrow> byte list" where
  "adapt_param_get_alarm_in_cfg lib ch = sdk_param_get_ch lib ch SDK_MAIN_MSG_ALARM_IN_CFG"

definition adapt_param_set_alarm_in_cfg :: "'p param_lib \<Rightarrow> cuint \<Rightarrow> byte list \<Rightarrow> 'p \<Rightarrow> 'p" where
  "adapt_param_set_alarm_in_cfg lib ch = sdk_param_set_ch lib ch SDK_MAIN_MSG_ALARM_IN_CFG"

definition adapt_param_get_motion_cfg :: "'p param_lib \<Rightarrow> cuint \<Rightarrow> 'p \<Rightarrow> byte list \<Rightarrow> byte list" where
  "adapt_param_get_motion_cfg lib ch = sdk_param_get_ch lib ch SDK_MAIN_MSG_MOTION_CFG"

definition adapt_param_set_motion_cfg :: "'p param_lib \<Rightarrow> cuint \<Rightarrow> byte list \<Rightarrow> 'p \<Rightarrow> 'p" where
  "adapt_param_set_motion_cfg lib ch = sdk_param_set_ch lib ch SDK_MAIN_MSG_MOTION_CFG"

definition adapt_param_get_lost_cfg :: "'p param_lib \<Rightarrow> cuint \<Rightarrow> 'p \<Rightarrow> byte list \<Rightarrow> byte list" where
  "adapt_param_get_lost_cfg lib ch = sdk_param_get_ch lib ch SDK_MAIN_MSG_LOST_CFG"

definition adapt_param_set_lost_cfg :: "'p param_lib \<Rightarrow> cuint \<Rightarrow> byte list \<Rightarrow> 'p \<Rightarrow> 'p" where
  "adapt_param_set_lost_cfg lib ch = sdk_param_set_ch lib ch SDK_MAIN_MSG_LOST_CFG"

definition adapt_param_get_hide_cfg :: "'p param_lib \<Rightarrow> cuint \<Rightarrow> 'p \<Rightarrow> byte list \<Rightarrow> byte list" where
  "adapt_param_get_hide_cfg lib ch = sdk_param_get_ch lib ch SDK_MAIN_MSG_HIDE_CFG"

definition adapt_param_set_hide_cfg :: "'p param_lib \<Rightarrow> cuint \<Rightarrow> byte list \<Rightarrow> 'p \<Rightarrow> 'p" where
  "adapt_param_set_hide_cfg lib ch = sdk_param_set_ch lib ch SDK_MAIN_MSG_HIDE_CFG"

definition adapt_param_get_record_cfg :: "'p param_lib \<Rightarrow> cuint \<Rightarrow> 'p \<Rightarrow> byte list \<Rightarrow> byte list" where
  "adapt_param_get_record_cfg lib ch = sdk_param_get_ch lib ch SDK_MAIN_MSG_RECORD_CFG"

definition adapt_param_set_record_cfg :: "'p param_lib \<Rightarrow> cuint \<Rightarrow> byte list \<Rightarrow> 'p \<Rightarrow> 'p" where
  "adapt_param_set_record_cfg lib ch = sdk_param_set_ch lib ch SDK_MAIN_MSG_RECORD_CFG"

definition adapt_param_get_ptz_cfg :: "'p param_lib \<Rightarrow> cuint \<Rightarrow> 'p \<Rightarrow> byte list \<Rightarrow> byte list" where
  "adapt_param_get_ptz_cfg lib ch = sdk_param_get_ch lib ch SDK_MAIN_MSG_PTZ_CFG"

definition adapt_param_set_ptz_cfg :: "'p param_lib \<Rightarrow> cuint \<Rightarrow> byte list \<Rightarrow> 'p \<Rightarrow> 'p" where
  "adapt_param_set_ptz_cfg lib ch = sdk_param_set_ch lib ch SDK_MAIN_MSG_PTZ_CFG"

definition adapt_param_get_ddns_cfg :: "'p param_lib \<Rightarrow> 'p \<Rightarrow> byte list \<Rightarrow> byte list" where
  "adapt_param_get_ddns_cfg lib = sdk_param_get_ch lib 0 SDK_MAIN_MSG_DDNS_CFG"

definition adapt_param_set_ddns_cfg :: "'p param_lib \<Rightarrow> byte list \<Rightarrow> 'p \<Rightarrow> 'p" where
  "adapt_param_set_ddns_cfg lib = sdk_param_set_ch lib 0 SDK_MAIN_MSG_DDNS_CFG"

definition adapt_param_get_platform_cfg :: "'p param_lib \<Rightarrow> 'p \<Rightarrow> byte list \<Rightarrow> byte list" where
  "adapt_param_get_platform_cfg lib = sdk_param_get_ch lib 0 SDK_MAIN_MSG_PLATFORM_CFG"

definition adapt_param_set_platform_cfg :: "'p param_lib \<Rightarrow> byte list \<Rightarrow> 'p \<Rightarrow> 'p" where
  "adapt_param_set_platform_cfg lib = sdk_param_set_ch lib 0 SDK_MAIN_MSG_PLATFORM_CFG"

definition adapt_param_get_manual_rec_cfg :: "'p param_lib \<Rightarrow> 'p \<Rightarrow> byte list \<Rightarrow> byte list" where
  "adapt_param_get_manual_rec_cfg lib = sdk_param_get_ch lib 0 SDK_MAIN_MSG_MANUAL_REC"

definition adapt_param_set_manual_rec_cfg :: "'p param_lib \<Rightarrow> byte list \<Rightarrow> 'p \<Rightarrow> 'p" where
  "adapt_param_set_manual_rec_cfg lib = sdk_param_set_ch lib 0 SDK_MAIN_MSG_MANUAL_REC"

definition adapt_param_get_manual_almin_cfg :: "'p param_lib \<Rightarrow> 'p \<Rightarrow> byte list \<Rightarrow> byte list" where
  "adapt_param_get_manual_almin_cfg lib = sdk_param_get_ch lib 0 SDK_MAIN_MSG_MANUAL_ALMIN"

definition adapt_param_set_manual_almin_cfg :: "'p param_lib \<Rightarrow> byte list \<Rightarrow> 'p \<Rightarrow> 'p" where
  "adapt_param_set_manual_almin_cfg lib = sdk_param_set_ch lib 0 SDK_MAIN_MSG_MANUAL_ALMIN"

definition adapt_param_get_sched_param :: "'p param_lib \<Rightarrow> 'p \<Rightarrow> byte list \<Rightarrow> byte list" where
  "adapt_param_get_sched_param lib = sdk_param_get_ch lib 0 SDK_MAIN_MSG_SCHED_CFG"

definition adapt_param_set_sched_param :: "'p param_lib \<Rightarrow> byte list \<Rightarrow> 'p \<Rightarrow> 'p" where
  "adapt_param_set_sched_param lib = sdk_param_set_ch lib 0 SDK_MAIN_MSG_SCHED_CFG"

definition adapt_param_get_regional_param :: "'p param_lib \<Rightarrow> 'p \<Rightarrow> byte list \<Rightarrow> byte list" where
  "adapt_param_get_regional_param lib = sdk_param_get_ch lib 0 SDK_MAIN_MSG_REGIONAL_CFG"

definition adapt_param_set_regional_param :: "'p param_lib \<Rightarrow> byte list \<Rightarrow> 'p \<Rightarrow> 'p" where
  "adapt_param_set_regional_param lib = sdk_param_set_ch lib 0 SDK_MAIN_MSG_REGIONAL_CFG"

definition adapt_param_get_iodev_param :: "'p param_lib \<Rightarrow> 'p \<Rightarrow> byte list \<Rightarrow> byte list" where
  "adapt_param_get_iodev_param lib = sdk_param_get_ch lib 0 SDK_MAIN_MSG_REGIONAL_CFG"

definition adapt_param_set_iodev_param :: "'p param_lib \<Rightarrow> byte list \<Rightarrow> 'p \<Rightarrow> 'p" where
  "adapt_param_set_iodev_param lib = sdk_param_set_ch lib 0 SDK_MAIN_MSG_REGIONAL_CFG"

definition adapt_param_get_aws_cfg :: "'p param_lib \<Rightarrow> 'p \<Rightarrow> byte list \<Rightarrow> byte list" where
  "adapt_param_get_aws_cfg lib = sdk_param_get_ch lib 0 SDK_MAIN_MSG_AWS"

definition adapt_param_set_aws_cfg :: "'p param_lib \<Rightarrow> byte list \<Rightarrow> 'p \<Rightarrow> 'p" where
  "adapt_param_set_aws_cfg lib = sdk_param_set_ch lib 0 SDK_MAIN_MSG_AWS"

definition adapt_param_set_encode_cfg :: "'p param_lib \<Rightarrow> cuint \<Rightarrow> byte list \<Rightarrow> 'p \<Rightarrow> 'p" where
  "adapt_param_set_encode_cfg lib ch = sdk_param_set_ch lib ch SDK_MAIN_MSG_ENCODE_CFG"

definition adapt_param_set_osd_cfg :: "'p param_lib \<Rightarrow> cuint \<Rightarrow> byte list \<Rightarrow> 'p \<Rightarrow> 'p" where
  "adapt_param_set_osd_cfg lib ch = sdk_param_set_ch lib ch SDK_MAIN_MSG_OSD_CFG"

definition adapt_param_set_overlay_cfg :: "'p param_lib \<Rightarrow> cuint \<Rightarrow> byte list \<Rightarrow> 'p \<Rightarrow> 'p" where
  "adapt_param_set_overlay_cfg lib ch = sdk_param_set_ch lib ch SDK_MAIN_MSG_OVERLAY_CFG"

definition adapt_param_set_serial_cfg :: "'p param_lib \<Rightarrow> cuint \<Rightarrow> byte list \<Rightarrow> 'p \<Rightarrow> 'p" where
  "adapt_param_set_serial_cfg lib ch = sdk_param_set_ch lib ch SDK_MAIN_MSG_SERIAL_CFG"

definition adapt_param_set_net_mng_cfg :: "'p param_lib \<Rightarrow> byte list \<Rightarrow> 'p \<Rightarrow> 'p" where
  "adapt_param_set_net_mng_cfg lib = sdk_param_set_ch lib 0 SDK_MAIN_MSG_NET_MNG_CFG"

definition adapt_param_get_def_encode_cfg :: "'p param_lib \<Rightarrow> cuint \<Rightarrow> 'p \<Rightarrow> byte list \<Rightarrow> byte list" where
  "adapt_param_get_def_encode_cfg lib ch = sdk_param_get_ch lib ch SDK_MAIN_MSG_ENCODE_CFG"

definition adapt_param_get_def_ptz_cfg :: "'p param_lib \<Rightarrow> cuint \<Rightarrow> 'p \<Rightarrow> byte list \<Rightarrow> byte list" where
  "adapt_param_get_def_ptz_cfg lib ch = sdk_param_get_ch lib ch SDK_MAIN_MSG_PTZ_CFG"

definition adapt_param_get_def_record_cfg :: "'p param_lib \<Rightarrow> cuint \<Rightarrow> 'p \<Rightarrow> byte list \<Rightarrow> byte list" where
  "adapt_param_get_def_record_cfg lib ch = sdk_param_get_ch lib ch SDK_MAIN_MSG_RECORD_CFG"

definition adapt_param_get_def_net_mng_cfg :: "'p param_lib \<Rightarrow> 'p \<Rightarrow> byte list \<Rightarrow> byte list" where
  "adapt_param_get_def_net_mng_cfg lib = sdk_param_get_ch lib 0 SDK_MAIN_MSG_NET_MNG_CFG"

definition adapt_param_get_def_serial_cfg :: "'p param_lib \<Rightarrow> cuint \<Rightarrow> 'p \<Rightarrow> byte list \<Rightarrow> byte list" where
  "adapt_param_get_def_serial_cfg lib ch = sdk_param_get_ch lib ch SDK_MAIN_MSG_SERIAL_CFG"

definition adapt_param_get_def_overlay_cfg :: "'p param_lib \<Rightarrow> cuint \<Rightarrow> 'p \<Rightarrow> byte list \<Rightarrow> byte list" where
  "adapt_param_get_def_overlay_cfg lib ch = sdk_param_get_ch lib ch SDK_MAIN_MSG_OVERLAY_CFG"

definition adapt_param_get_def_motion_cfg :: "'p param_lib \<Rightarrow> cuint \<Rightarrow> 'p \<Rightarrow> byte list \<Rightarrow> byte list" where
  "adapt_param_get_def_motion_cfg lib ch = sdk_param_get_ch lib ch SDK_MAIN_MSG_MOTION_CFG"

definition adapt_param_get_def_osd_cfg :: "'p param_lib \<Rightarrow> cuint \<Rightarrow> 'p \<Rightarrow> byte list \<Rightarrow> byte list" where
  "adapt_param_get_def_osd_cfg lib ch = sdk_param_get_ch lib ch SDK_MAIN_MSG_OSD_CFG"

definition adapt_param_get_def_alarm_in_cfg :: "'p param_lib \<Rightarrow> cuint \<Rightarrow> 'p \<Rightarrow> byte list \<Rightarrow> byte list" where
  "adapt_param_get_def_alarm_in_cfg lib ch = sdk_param_get_ch lib ch SDK_MAIN_MSG_ALARM_IN_CFG"

definition adapt_param_get_def_hide_cfg :: "'p param_lib \<Rightarrow> cuint \<Rightarrow> 'p \<Rightarrow> byte list \<Rightarrow> byte list" where
  "adapt_param_get_def_hide_cfg lib ch = sdk_param_get_ch lib ch SDK_MAIN_MSG_HIDE_CFG"

definition adapt_param_get_def_lost_cfg :: "'p param_lib \<Rightarrow> cuint \<Rightarrow> 'p \<Rightarrow> byte list \<Rightarrow> byte list" where
  "adapt_param_get_def_lost_cfg lib ch = sdk_param_get_ch lib ch SDK_MAIN_MSG_LOST_CFG"

section \<open>Handlers\<close>

datatype log_event = WriteLog cuint cuint | SetLogUser "byte list"

text \<open>The globals: current and default parameters, the bytes of \<^verbatim>\<open>g_log_info\<close>, and what the log library and the shell
  have been asked to do.\<close>

record 'p main_st =
  params :: 'p
  def_params :: 'p
  log_info :: "byte list"
  main_log :: "log_event list"
  shell_cmds :: "string list"

type_synonym 'p handler = "sdk_msg \<Rightarrow> 'p main_st \<Rightarrow> (int \<times> sdk_msg \<times> 'p main_st) option"

definition LOG_MAJOR_OPERATE :: cuint where "LOG_MAJOR_OPERATE = 4"
definition LOG_MAJOR_PARAM :: cuint where "LOG_MAJOR_PARAM = 0x10"

definition WRITE_LOG :: "cuint \<Rightarrow> cuint \<Rightarrow> 'p main_st \<Rightarrow> 'p main_st" where
  "WRITE_LOG major minor st = st\<lparr>main_log := main_log st @ [WriteLog major minor]\<rparr>"

fun set_channels :: "nat \<Rightarrow> (cuint \<Rightarrow> 'p \<Rightarrow> 'p) \<Rightarrow> 'p \<Rightarrow> 'p" where
  "set_channels 0 f p = p"
| "set_channels (Suc n) f p = f (of_nat n) (set_channels n f p)"

text \<open>The handlers of a parameter with a channel have one shape: \<open>n\<close> is the size of the structure in the message, which is
  read and written without a look at the size the message gives; \<open>None\<close> is an access behind the message buffer.\<close>

definition chann_cfg ::
    "(cuint \<Rightarrow> 'p \<Rightarrow> byte list \<Rightarrow> byte list) \<Rightarrow> (cuint \<Rightarrow> byte list \<Rightarrow> 'p \<Rightarrow> 'p) \<Rightarrow> nat \<Rightarrow> int \<Rightarrow> ('p main_st \<Rightarrow> 'p main_st) \<Rightarrow> 'p handler" where
  "chann_cfg getf setf n max_ch log msg st =
     (let data = msg_data msg; ch = msg_chann msg in
      if msg_args msg = SDK_PARAM_SET then
        if CHANN_TYPE_ALL = ch then
          if 0 < max_ch \<and> length data < n then None
          else Some (0, msg\<lparr>msg_size := 0\<rparr>, log (st\<lparr>params := set_channels (nat max_ch) (\<lambda>i. setf i (take n data)) (params st)\<rparr>))
        else if length data < n then None
        else Some (0, msg\<lparr>msg_size := 0\<rparr>, log (st\<lparr>params := setf ch (take n data) (params st)\<rparr>))
      else if length data < n then None
      else Some (0, msg\<lparr>msg_size := of_nat n, msg_data := getf ch (params st) (take n data) @ drop n data\<rparr>, st))"

definition main_msg_record_cfg :: "'p param_lib \<Rightarrow> 'p handler" where
  "main_msg_record_cfg lib = chann_cfg (adapt_param_get_record_cfg lib) (adapt_param_set_record_cfg lib) 9984
     adapt_param_get_chnum (WRITE_LOG LOG_MAJOR_PARAM 8)"

definition main_msg_ptz_cfg :: "'p param_lib \<Rightarrow> 'p handler" where
  "main_msg_ptz_cfg lib = chann_cfg (adapt_param_get_ptz_cfg lib) (adapt_param_set_ptz_cfg lib) 12
     adapt_param_get_ana_chan_num (WRITE_LOG LOG_MAJOR_PARAM 3)"

definition main_msg_motion_cfg :: "'p param_lib \<Rightarrow> 'p handler" where
  "main_msg_motion_cfg lib = chann_cfg (adapt_param_get_motion_cfg lib) (adapt_param_set_motion_cfg lib) 344
     adapt_param_get_ana_chan_num (WRITE_LOG LOG_MAJOR_PARAM 9)"

definition main_msg_alarm_in_cfg :: "'p param_lib \<Rightarrow> 'p handler" where
  "main_msg_alarm_in_cfg lib = chann_cfg (adapt_param_get_alarm_in_cfg lib) (adapt_param_set_alarm_in_cfg lib) 340
     adapt_param_get_ana_chan_num (WRITE_LOG LOG_MAJOR_PARAM 11)"

definition main_msg_hide_cfg :: "'p param_lib \<Rightarrow> 'p handler" where
  "main_msg_hide_cfg lib = chann_cfg (adapt_param_get_hide_cfg lib) (adapt_param_set_hide_cfg lib) 344
     adapt_param_get_ana_chan_num id"

definition main_msg_lost_cfg :: "'p param_lib \<Rightarrow> 'p handler" where
  "main_msg_lost_cfg lib = chann_cfg (adapt_param_get_lost_cfg lib) (adapt_param_set_lost_cfg lib) 308
     adapt_param_get_ana_chan_num (WRITE_LOG LOG_MAJOR_PARAM 10)"

text \<open>The handlers of a parameter of the whole device.\<close>

definition global_cfg ::
    "('p \<Rightarrow> byte list \<Rightarrow> byte list) \<Rightarrow> (byte list \<Rightarrow> 'p \<Rightarrow> 'p) \<Rightarrow> nat \<Rightarrow> ('p main_st \<Rightarrow> 'p main_st) \<Rightarrow> 'p handler" where
  "global_cfg getf setf n log msg st =
     (let data = msg_data msg in
      if length data < n then None
      else if msg_args msg = SDK_PARAM_SET then
        Some (0, msg\<lparr>msg_size := 0\<rparr>, log (st\<lparr>params := setf (take n data) (params st)\<rparr>))
      else Some (0, msg\<lparr>msg_size := of_nat n, msg_data := getf (params st) (take n data) @ drop n data\<rparr>, st))"

definition main_msg_ddns_cfg :: "'p param_lib \<Rightarrow> 'p handler" where
  "main_msg_ddns_cfg lib = global_cfg (adapt_param_get_ddns_cfg lib) (adapt_param_set_ddns_cfg lib) 2456 id"

definition main_msg_platform_cfg :: "'p param_lib \<Rightarrow> 'p handler" where
  "main_msg_platform_cfg lib = global_cfg (adapt_param_get_platform_cfg lib) (adapt_param_set_platform_cfg lib) 148 id"

definition main_msg_manual_rec :: "'p param_lib \<Rightarrow> 'p handler" where
  "main_msg_manual_rec lib = global_cfg (adapt_param_get_manual_rec_cfg lib) (adapt_param_set_manual_rec_cfg lib) 6 id"

definition main_msg_manual_almin :: "'p param_lib \<Rightarrow> 'p handler" where
  "main_msg_manual_almin lib = global_cfg (adapt_param_get_manual_almin_cfg lib) (adapt_param_set_manual_almin_cfg lib) 32 id"

definition main_alarm_sched_cfg :: "'p param_lib \<Rightarrow> 'p handler" where
  "main_alarm_sched_cfg lib = global_cfg (adapt_param_get_sched_param lib) (adapt_param_set_sched_param lib) 284 id"

definition main_regional_cfg :: "'p param_lib \<Rightarrow> 'p handler" where
  "main_regional_cfg lib = global_cfg (adapt_param_get_regional_param lib) (adapt_param_set_regional_param lib) 4 id"

definition main_iodev_cfg :: "'p param_lib \<Rightarrow> 'p handler" where
  "main_iodev_cfg lib = global_cfg (adapt_param_get_iodev_param lib) (adapt_param_set_iodev_param lib) 8 id"

definition main_msg_aws_cfg :: "'p param_lib \<Rightarrow> 'p handler" where
  "main_msg_aws_cfg lib = global_cfg (adapt_param_get_aws_cfg lib) (adapt_param_set_aws_cfg lib) 4 (WRITE_LOG LOG_MAJOR_PARAM 16)"

definition main_msg_def :: "'p handler" where
  "main_msg_def msg st = Some (0, msg\<lparr>msg_size := 0\<rparr>, st)"

lemmas cfg_defs = chann_cfg_def global_cfg_def sdk_param_set_ch_def sdk_param_get_ch_def WRITE_LOG_def

lemma set_get_channel:
  assumes "param_laws lib" "length data = length data'" "n \<le> length data"
    and getf: "\<And>c. getf c = sdk_param_get_ch lib c k" and setf: "\<And>c. setf c = sdk_param_set_ch lib c k"
    and log: "\<And>s. params (log s) = params s" and ch: "ch \<noteq> CHANN_TYPE_ALL"
  shows "\<exists>m' st' m''. chann_cfg getf setf n max_ch log (m\<lparr>msg_args := SDK_PARAM_SET, msg_chann := ch, msg_data := data\<rparr>) st = Some (0, m', st') \<and>
    chann_cfg getf setf n max_ch log (m\<lparr>msg_args := SDK_PARAM_SET + 1, msg_chann := ch, msg_data := data'\<rparr>) st' = Some (0, m'', st') \<and>
    take n (msg_data m'') = take n data"
  using assms(2,3) ch not_sym [OF ch]
  by (simp add: chann_cfg_def Let_def getf setf log sdk_param_set_ch_def sdk_param_get_ch_def plget_same [OF assms(1)])

end
