(* ===== verification/Users.thy ===== *)
theory Users
  imports Params
begin

text \<open>
  User management (\<^verbatim>\<open>main/src/main_msg.c\<close>, \<open>main_msg_user\<close> and its five operations), the return to the default
  parameters (\<^verbatim>\<open>adapt_param_recovery_param\<close>), and the dispatch of messages (\<^verbatim>\<open>main/src/main.c\<close>). The
  table of users is the byte array the code fetches and stores; strings are read up to their NUL wherever it lies in
  the array or the message. \<open>None\<close> is an access outside them.
\<close>

section \<open>Strings in memory\<close>

text \<open>\<^verbatim>\<open>!strcmp(a, b)\<close> on what follows the two pointers.\<close>

fun strcmp_eq :: "byte list \<Rightarrow> byte list \<Rightarrow> bool option" where
  "strcmp_eq (a # as) (b # bs) = (if a \<noteq> b then Some False else if a = 0 then Some True else strcmp_eq as bs)"
| "strcmp_eq _ _ = None"

fun strlen :: "byte list \<Rightarrow> nat option" where
  "strlen (a # as) = (if a = 0 then Some 0 else map_option Suc (strlen as))"
| "strlen [] = None"

text \<open>\<^verbatim>\<open>!strncmp(a, b, n)\<close>.\<close>

fun strncmp_eq :: "nat \<Rightarrow> byte list \<Rightarrow> byte list \<Rightarrow> bool option" where
  "strncmp_eq 0 _ _ = Some True"
| "strncmp_eq (Suc n) (a # as) (b # bs) = (if a \<noteq> b then Some False else if a = 0 then Some True else strncmp_eq n as bs)"
| "strncmp_eq _ _ _ = None"

definition admin_str :: "byte list" where "admin_str = [97, 100, 109, 105, 110]"

section \<open>The table\<close>

definition MAX_USER_NUM :: nat where "MAX_USER_NUM = 16"
definition MAX_USER_NAME_LEN :: nat where "MAX_USER_NAME_LEN = 32"

text \<open>Offsets and size of \<^verbatim>\<open>sdk_user_right_t\<close>: the name at 0, the password, the two masks of rights and the two arrays of
  channel rights, with one byte for each of the two channels.\<close>

definition off_pwd :: nat where "off_pwd = 32"
definition off_local_right :: nat where "off_local_right = 64"
definition off_remote_right :: nat where "off_remote_right = 68"
definition off_local_backup_right :: nat where "off_local_backup_right = 72"
definition off_net_preview_right :: nat where "off_net_preview_right = 74"
definition user_right_size :: nat where "user_right_size = 76"

definition adapt_param_get_user_array :: "'p param_lib \<Rightarrow> nat \<Rightarrow> 'p \<Rightarrow> byte list" where
  "adapt_param_get_user_array lib n p = plget lib p (param_key 0 SDK_MAIN_MSG_USER) (replicate n 0)"

definition adapt_param_set_user_array :: "'p param_lib \<Rightarrow> byte list \<Rightarrow> 'p \<Rightarrow> 'p" where
  "adapt_param_set_user_array lib ua p = plset lib p (param_key 0 SDK_MAIN_MSG_USER) ua"

definition user_array_size :: nat where "user_array_size = MAX_USER_NUM * user_right_size"

definition user_array :: "'p param_lib \<Rightarrow> 'p main_st \<Rightarrow> byte list" where
  "user_array lib st = adapt_param_get_user_array lib user_array_size (params st)"

definition name_at :: "byte list \<Rightarrow> nat \<Rightarrow> byte list" where
  "name_at ua i = drop (i * user_right_size) ua"

definition pwd_at :: "byte list \<Rightarrow> nat \<Rightarrow> byte list" where
  "pwd_at ua i = drop (i * user_right_size + off_pwd) ua"

section \<open>Operations\<close>

text \<open>The search of a login ends at an entry (or at \<open>MAX_USER_NUM\<close>), or at the first entry with the name and another
  password.\<close>

fun aaa_loop :: "byte list \<Rightarrow> byte list \<Rightarrow> byte list \<Rightarrow> nat \<Rightarrow> nat \<Rightarrow> (nat + unit) option" where
  "aaa_loop ua nm pw i 0 = Some (Inl i)"
| "aaa_loop ua nm pw i (Suc n) =
     (case strcmp_eq (name_at ua i) nm of
        None \<Rightarrow> None
      | Some False \<Rightarrow> aaa_loop ua nm pw (Suc i) n
      | Some True \<Rightarrow> (case strcmp_eq (pwd_at ua i) pw of
            None \<Rightarrow> None
          | Some True \<Rightarrow> Some (Inl i)
          | Some False \<Rightarrow> Some (Inr ())))"

definition user_failed :: "byte \<Rightarrow> 'p handler" where
  "user_failed err msg st = Some (-1, msg\<lparr>msg_ack := err, msg_size := 0\<rparr>, st)"

text \<open>The name of the user is kept in \<^verbatim>\<open>g_log_info\<close>, behind the 40 bytes of the address.\<close>

definition note_log_user :: "byte list \<Rightarrow> 'p main_st \<Rightarrow> 'p main_st option" where
  "note_log_user nm st =
     (case strncmp_eq MAX_USER_NAME_LEN (drop 40 (log_info st)) nm of
        None \<Rightarrow> None
      | Some True \<Rightarrow> Some st
      | Some False \<Rightarrow>
          (case strlen nm of
             None \<Rightarrow> None
           | Some n \<Rightarrow>
               if 40 + n \<ge> 104 then None
               else let info = put_at 40 (take n nm) (replicate 104 0)
                    in Some (st\<lparr>log_info := info, main_log := main_log st @ [SetLogUser (take n nm)]\<rparr>)))"

definition msg_user_aaa :: "'p param_lib \<Rightarrow> 'p handler" where
  "msg_user_aaa lib msg st =
     (let data = msg_data msg; ua = user_array lib st in
      case aaa_loop ua data (drop off_pwd data) 0 MAX_USER_NUM of
        None \<Rightarrow> None
      | Some (Inr _) \<Rightarrow> user_failed SDK_ERR_PASS msg st
      | Some (Inl i) \<Rightarrow>
          if i < MAX_USER_NUM then
            if length data < user_right_size then None
            else let data = slice (i * user_right_size) user_right_size ua @ drop user_right_size data
                 in (case note_log_user data st of
                       None \<Rightarrow> None
                     | Some st \<Rightarrow> Some (0, msg\<lparr>msg_size := 0, msg_data := data\<rparr>, WRITE_LOG LOG_MAJOR_OPERATE 1 st))
          else user_failed SDK_ERR_USER_NOT_EXIST msg st)"

fun del_loop :: "byte list \<Rightarrow> byte list \<Rightarrow> byte list \<Rightarrow> nat \<Rightarrow> nat \<Rightarrow> nat option" where
  "del_loop ua nm pw i 0 = Some i"
| "del_loop ua nm pw i (Suc n) =
     (case strcmp_eq (name_at ua i) nm of
        None \<Rightarrow> None
      | Some False \<Rightarrow> del_loop ua nm pw (Suc i) n
      | Some True \<Rightarrow> (case strcmp_eq (pwd_at ua i) pw of
            None \<Rightarrow> None
          | Some True \<Rightarrow> Some i
          | Some False \<Rightarrow> del_loop ua nm pw (Suc i) n))"

text \<open>\<^verbatim>\<open>memcmp(name, "admin", strlen(name))\<close> compares as many bytes as the given name has. A name longer than the literal
  differs from it at the NUL of the literal at the latest, since a name has no NUL, so no byte behind the literal counts.\<close>

definition msg_user_del :: "'p param_lib \<Rightarrow> 'p handler" where
  "msg_user_del lib msg st =
     (let data = msg_data msg in
      case strlen data of
        None \<Rightarrow> None
      | Some n \<Rightarrow>
          if take n data = take n (admin_str @ [0]) then user_failed SDK_ERR_ROOT_USER msg st
          else let ua = user_array lib st in
            case del_loop ua data (drop off_pwd data) 0 MAX_USER_NUM of
              None \<Rightarrow> None
            | Some i \<Rightarrow>
                if i < MAX_USER_NUM then
                  let ua = put_at (i * user_right_size) (replicate user_right_size 0) ua
                  in Some (0, msg\<lparr>msg_size := 0\<rparr>, WRITE_LOG LOG_MAJOR_OPERATE 4 (st\<lparr>params := adapt_param_set_user_array lib ua (params st)\<rparr>))
                else user_failed SDK_ERR_USER_NOT_EXIST msg st)"

fun find_user :: "byte list \<Rightarrow> byte list \<Rightarrow> nat \<Rightarrow> nat \<Rightarrow> nat option" where
  "find_user ua nm i 0 = Some i"
| "find_user ua nm i (Suc n) =
     (case strcmp_eq (name_at ua i) nm of None \<Rightarrow> None | Some True \<Rightarrow> Some i | Some False \<Rightarrow> find_user ua nm (Suc i) n)"

fun find_free :: "byte list \<Rightarrow> nat \<Rightarrow> nat \<Rightarrow> nat option" where
  "find_free ua i 0 = Some i"
| "find_free ua i (Suc n) =
     (case strlen (name_at ua i) of None \<Rightarrow> None | Some k \<Rightarrow> if k = 0 then Some i else find_free ua (Suc i) n)"

text \<open>The log entry is written whether or not the user has been added.\<close>

definition msg_user_add :: "'p param_lib \<Rightarrow> 'p handler" where
  "msg_user_add lib msg st =
     (let data = msg_data msg; ua = user_array lib st;
          finish = (\<lambda>ret err st. Some (ret, msg\<lparr>msg_ack := err, msg_size := 0\<rparr>, WRITE_LOG LOG_MAJOR_OPERATE 3 st)) in
      case find_user ua data 0 MAX_USER_NUM of
        None \<Rightarrow> None
      | Some i \<Rightarrow>
          if i < MAX_USER_NUM then finish (-1) SDK_ERR_USER_ALREADY_EXIST st
          else case find_free ua 0 MAX_USER_NUM of
              None \<Rightarrow> None
            | Some i \<Rightarrow>
                if i < MAX_USER_NUM then
                  if length data < user_right_size then None
                  else let ua = put_at (i * user_right_size) (take user_right_size data) ua
                       in finish 0 (msg_ack msg) (st\<lparr>params := adapt_param_set_user_array lib ua (params st)\<rparr>)
                else finish (-1) SDK_ERR_TOO_MANY_USER st)"

definition strcpy_at :: "nat \<Rightarrow> byte list \<Rightarrow> byte list \<Rightarrow> byte list option" where
  "strcpy_at off s m =
     (case strlen s of None \<Rightarrow> None | Some n \<Rightarrow> if off + n < length m then Some (put_at off (take (Suc n) s) m) else None)"

text \<open>The entry 0 keeps the name \<^verbatim>\<open>admin\<close> and takes the new password only.\<close>

definition msg_user_modif :: "'p param_lib \<Rightarrow> 'p handler" where
  "msg_user_modif lib msg st =
     (let data = msg_data msg; ua = user_array lib st;
          finish = (\<lambda>ret err st. Some (ret, msg\<lparr>msg_ack := err, msg_size := 0\<rparr>, WRITE_LOG LOG_MAJOR_OPERATE 5 st));
          store = (\<lambda>ua. finish 0 (msg_ack msg) (st\<lparr>params := adapt_param_set_user_array lib ua (params st)\<rparr>)) in
      case find_user ua data 0 MAX_USER_NUM of
        None \<Rightarrow> None
      | Some i \<Rightarrow>
          if i < MAX_USER_NUM then
            if i = 0 then
              (case strcpy_at 0 (admin_str @ [0]) ua of
                 None \<Rightarrow> None
               | Some ua \<Rightarrow> (case strcpy_at off_pwd (drop off_pwd data) ua of None \<Rightarrow> None | Some ua \<Rightarrow> store ua))
            else if length data < user_right_size then None
            else store (put_at (i * user_right_size) (take user_right_size data) ua)
          else finish (-1) SDK_ERR_USER_NOT_EXIST st)"

fun query_loop :: "byte list \<Rightarrow> nat \<Rightarrow> nat \<Rightarrow> nat \<times> byte list \<Rightarrow> (nat \<times> byte list) option" where
  "query_loop ua i 0 r = Some r"
| "query_loop ua i (Suc n) (sz, data) =
     (case strlen (name_at ua i) of
        None \<Rightarrow> None
      | Some k \<Rightarrow>
          if k = 0 then query_loop ua (Suc i) n (sz, data)
          else if length data < sz + user_right_size then None
          else query_loop ua (Suc i) n (sz + user_right_size, put_at sz (slice (i * user_right_size) user_right_size ua) data))"

definition msg_user_query :: "'p param_lib \<Rightarrow> 'p handler" where
  "msg_user_query lib msg st =
     (case query_loop (user_array lib st) 0 MAX_USER_NUM (0, msg_data msg) of
        None \<Rightarrow> None
      | Some (sz, data) \<Rightarrow> Some (0, msg\<lparr>msg_size := of_nat sz, msg_data := data\<rparr>, st))"

definition main_msg_user :: "'p param_lib \<Rightarrow> 'p handler" where
  "main_msg_user lib msg st =
     (let op = msg_args msg in
      if op = 0 then msg_user_aaa lib msg st
      else if op = 1 then msg_user_add lib msg st
      else if op = 2 then msg_user_del lib msg st
      else if op = 3 then msg_user_modif lib msg st
      else if op = 4 then msg_user_query lib msg st
      else Some (-1, msg, st))"

section \<open>Strings\<close>

definition cstr :: "byte list \<Rightarrow> byte list" where
  "cstr m = takeWhile (\<lambda>b. b \<noteq> 0) m"

lemma cstr_simps [simp]: "cstr [] = []" "cstr (a # m) = (if a = 0 then [] else a # cstr m)"
  by (simp_all add: cstr_def)

lemma strcmp_cstr: "0 \<in> set a \<Longrightarrow> 0 \<in> set b \<Longrightarrow> strcmp_eq a b = Some (cstr a = cstr b)"
  by (induction a b rule: strcmp_eq.induct) auto

lemma strlen_cstr: "0 \<in> set a \<Longrightarrow> strlen a = Some (length (cstr a))"
  by (induction a) auto

lemma cstr_append: "0 \<in> set a \<Longrightarrow> cstr (a @ b) = cstr a"
  by (induction a) auto

lemma cstr_no0: "0 \<notin> set s \<Longrightarrow> cstr (s @ 0 # r) = s"
  by (induction s) auto

lemma take_cstr: "take (length (cstr m)) m = cstr m"
  by (induction m) auto

lemma cstr_split: "0 \<in> set m \<Longrightarrow> \<exists>r. m = cstr m @ 0 # r"
  by (induction m) auto

lemma set_cstr: "0 \<notin> set (cstr m)"
  by (induction m) auto

lemma length_cstr: "0 \<in> set (take n m) \<Longrightarrow> length (cstr m) < n"
proof (induction m arbitrary: n)
  case (Cons a m)
  then show ?case by (cases n) auto
qed simp

lemma in_take_slice: "0 \<in> set (slice a n m) \<Longrightarrow> 0 \<in> set (drop a m)"
  by (auto simp: slice_def dest: in_set_takeD)

lemma cstr_slice: "0 \<in> set (slice a n m) \<Longrightarrow> cstr (slice a n m) = cstr (drop a m)"
  using cstr_append [of "slice a n m" "drop n (drop a m)"] unfolding slice_def append_take_drop_id by simp

lemma strncmp_defined: "n \<le> length a \<Longrightarrow> 0 \<in> set (take n b) \<Longrightarrow> \<exists>r. strncmp_eq n a b = Some r"
  by (induction n a b rule: strncmp_eq.induct) auto

section \<open>Entries\<close>

definition entry :: "byte list \<Rightarrow> nat \<Rightarrow> byte list" where
  "entry ua i = slice (i * user_right_size) user_right_size ua"

definition entry_name :: "byte list \<Rightarrow> byte list" where
  "entry_name e = cstr (slice 0 32 e)"

definition entry_pwd :: "byte list \<Rightarrow> byte list" where
  "entry_pwd e = cstr (slice off_pwd 32 e)"

definition entry_ok :: "byte list \<Rightarrow> bool" where
  "entry_ok e \<longleftrightarrow> 0 \<in> set (slice 0 32 e) \<and> 0 \<in> set (slice off_pwd 32 e)"

text \<open>A table of users: every name and password ends inside its field, the first entry is \<^verbatim>\<open>admin\<close>, and no two
  entries have the same name, the empty name of a free entry apart.\<close>

definition users_ok :: "byte list \<Rightarrow> bool" where
  "users_ok ua \<longleftrightarrow> length ua = user_array_size \<and> (\<forall>i < MAX_USER_NUM. entry_ok (entry ua i)) \<and>
     entry_name (entry ua 0) = admin_str \<and>
     (\<forall>i < MAX_USER_NUM. \<forall>j < MAX_USER_NUM.
        entry_name (entry ua i) \<noteq> [] \<longrightarrow> entry_name (entry ua i) = entry_name (entry ua j) \<longrightarrow> i = j)"

definition msg_ok :: "sdk_msg \<Rightarrow> bool" where
  "msg_ok msg \<longleftrightarrow> user_array_size \<le> length (msg_data msg) \<and> entry_ok (msg_data msg)"

lemmas user_sizes = user_array_size_def user_right_size_def MAX_USER_NUM_def off_pwd_def

lemma length_entry: "length ua = user_array_size \<Longrightarrow> i < MAX_USER_NUM \<Longrightarrow> length (entry ua i) = user_right_size"
  by (simp add: entry_def length_slice user_sizes)

lemma entry_put:
  assumes "length ua = user_array_size" "i < MAX_USER_NUM" "j < MAX_USER_NUM" "length e = user_right_size"
  shows "entry (put_at (i * user_right_size) e ua) j = (if j = i then e else entry ua j)"
proof -
  have b: "i * user_right_size + length e \<le> length ua" using assms by (simp add: user_sizes)
  consider "j = i" | "j < i" | "i < j" by linarith
  then show ?thesis
  proof cases
    case 1
    then show ?thesis using b assms(4) by (simp add: entry_def slice_put_at_same)
  next
    case 2
    then show ?thesis using b assms(4) by (simp add: entry_def slice_put_at_before user_right_size_def)
  next
    case 3
    then show ?thesis using b assms(4) by (simp add: entry_def slice_put_at_after user_right_size_def)
  qed
qed

lemma name_at_entry:
  assumes "users_ok ua" "i < MAX_USER_NUM"
  shows "0 \<in> set (name_at ua i)" "cstr (name_at ua i) = entry_name (entry ua i)"
    "0 \<in> set (pwd_at ua i)" "cstr (pwd_at ua i) = entry_pwd (entry ua i)"
proof -
  have "entry_ok (entry ua i)" using assms by (simp add: users_ok_def)
  then have n: "0 \<in> set (slice (i * user_right_size) 32 ua)" and p: "0 \<in> set (slice (i * user_right_size + off_pwd) 32 ua)"
    by (simp_all add: entry_ok_def entry_def slice_slice user_right_size_def off_pwd_def)
  show "0 \<in> set (name_at ua i)" "0 \<in> set (pwd_at ua i)"
    using in_take_slice [OF n] in_take_slice [OF p] by (simp_all add: name_at_def pwd_at_def)
  show "cstr (name_at ua i) = entry_name (entry ua i)" "cstr (pwd_at ua i) = entry_pwd (entry ua i)"
    using cstr_slice [OF n] cstr_slice [OF p]
    by (simp_all add: name_at_def pwd_at_def entry_name_def entry_pwd_def entry_def slice_slice user_right_size_def off_pwd_def)
qed

lemma users_ok_put:
  assumes "users_ok ua" "i < MAX_USER_NUM" "length e = user_right_size" "entry_ok e"
    and "i = 0 \<Longrightarrow> entry_name e = admin_str"
    and "\<And>j. entry_name e \<noteq> [] \<Longrightarrow> j < MAX_USER_NUM \<Longrightarrow> j \<noteq> i \<Longrightarrow> entry_name (entry ua j) \<noteq> entry_name e"
  shows "users_ok (put_at (i * user_right_size) e ua)"
proof -
  let ?ua = "put_at (i * user_right_size) e ua"
  have l: "length ua = user_array_size" using assms(1) by (simp add: users_ok_def)
  then have "length ?ua = user_array_size" using assms(2,3) by (simp add: length_put_at user_sizes)
  moreover have E: "entry ?ua j = (if j = i then e else entry ua j)" if "j < MAX_USER_NUM" for j
    using entry_put [OF l assms(2) that assms(3)] .
  have "0 < MAX_USER_NUM" by (simp add: MAX_USER_NUM_def)
  ultimately show ?thesis
    using assms(1,4-6) unfolding users_ok_def by (auto simp: E) metis+
qed

section \<open>Searches\<close>

lemma msg_strings:
  assumes "msg_ok msg"
  shows "0 \<in> set (msg_data msg)" "cstr (msg_data msg) = entry_name (msg_data msg)"
    "0 \<in> set (drop off_pwd (msg_data msg))" "cstr (drop off_pwd (msg_data msg)) = entry_pwd (msg_data msg)"
    "user_right_size \<le> length (msg_data msg)"
  using assms in_take_slice [of 0 32 "msg_data msg"] in_take_slice [of off_pwd 32 "msg_data msg"]
    cstr_slice [of 0 32 "msg_data msg"] cstr_slice [of off_pwd 32 "msg_data msg"]
  by (simp_all add: msg_ok_def entry_ok_def entry_name_def entry_pwd_def user_sizes)

lemma name_cmp:
  "users_ok ua \<Longrightarrow> msg_ok msg \<Longrightarrow> i < MAX_USER_NUM \<Longrightarrow>
   strcmp_eq (name_at ua i) (msg_data msg) = Some (entry_name (entry ua i) = entry_name (msg_data msg))"
  by (simp add: strcmp_cstr name_at_entry msg_strings)

lemma pwd_cmp:
  "users_ok ua \<Longrightarrow> msg_ok msg \<Longrightarrow> i < MAX_USER_NUM \<Longrightarrow>
   strcmp_eq (pwd_at ua i) (drop off_pwd (msg_data msg)) = Some (entry_pwd (entry ua i) = entry_pwd (msg_data msg))"
  by (simp add: strcmp_cstr name_at_entry msg_strings)

lemma name_len:
  "users_ok ua \<Longrightarrow> i < MAX_USER_NUM \<Longrightarrow> strlen (name_at ua i) = Some (length (entry_name (entry ua i)))"
  by (simp add: strlen_cstr name_at_entry)

lemma range_from_Suc: "P i \<Longrightarrow> (\<forall>j. i \<le> j \<and> j < k \<longrightarrow> P j) \<longleftrightarrow> (\<forall>j. Suc i \<le> j \<and> j < k \<longrightarrow> P j)"
  by (metis Suc_leD Suc_le_eq le_neq_implies_less)

lemma find_user_spec:
  "users_ok ua \<Longrightarrow> msg_ok msg \<Longrightarrow> i + n \<le> MAX_USER_NUM \<Longrightarrow>
   \<exists>r. find_user ua (msg_data msg) i n = Some r \<and> i \<le> r \<and> r \<le> i + n \<and>
     (\<forall>k. i \<le> k \<and> k < r \<longrightarrow> entry_name (entry ua k) \<noteq> entry_name (msg_data msg)) \<and>
     (r < i + n \<longrightarrow> entry_name (entry ua r) = entry_name (msg_data msg))"
proof (induction n arbitrary: i)
  case (Suc n)
  show ?case
  proof (cases "entry_name (entry ua i) = entry_name (msg_data msg)")
    case True
    then show ?thesis using Suc.prems by (auto simp: name_cmp)
  next
    case False
    obtain r where "find_user ua (msg_data msg) (Suc i) n = Some r" "Suc i \<le> r" "r \<le> Suc i + n"
      "\<forall>k. Suc i \<le> k \<and> k < r \<longrightarrow> entry_name (entry ua k) \<noteq> entry_name (msg_data msg)"
      "r < Suc i + n \<longrightarrow> entry_name (entry ua r) = entry_name (msg_data msg)"
      using Suc.IH [of "Suc i"] Suc.prems by auto
    then show ?thesis
      using False Suc.prems range_from_Suc [of "\<lambda>k. entry_name (entry ua k) \<noteq> entry_name (msg_data msg)" i r]
      by (simp add: name_cmp)
  qed
qed auto

lemma find_free_spec:
  "users_ok ua \<Longrightarrow> i + n \<le> MAX_USER_NUM \<Longrightarrow>
   \<exists>r. find_free ua i n = Some r \<and> i \<le> r \<and> r \<le> i + n \<and> (r < i + n \<longleftrightarrow> (\<exists>k \<ge> i. k < i + n \<and> entry_name (entry ua k) = [])) \<and>
     (r < i + n \<longrightarrow> entry_name (entry ua r) = [])"
proof (induction n arbitrary: i)
  case (Suc n)
  then have "(\<exists>k \<ge> i. k < i + Suc n \<and> entry_name (entry ua k) = []) \<longleftrightarrow>
      entry_name (entry ua i) = [] \<or> (\<exists>k \<ge> Suc i. k < Suc i + n \<and> entry_name (entry ua k) = [])"
    by (metis add_Suc_right add_Suc Suc_leD Suc_le_eq le_eq_less_or_eq less_add_Suc1)
  then show ?case using Suc.IH [of "Suc i"] Suc.prems by (auto simp: name_len)
qed simp

lemma aaa_loop_spec:
  "users_ok ua \<Longrightarrow> msg_ok msg \<Longrightarrow> i + n \<le> MAX_USER_NUM \<Longrightarrow>
   \<exists>r. aaa_loop ua (msg_data msg) (drop off_pwd (msg_data msg)) i n = Some r \<and>
     (case r of
        Inl k \<Rightarrow> i \<le> k \<and> k \<le> i + n \<and> (\<forall>j. i \<le> j \<and> j < k \<longrightarrow> entry_name (entry ua j) \<noteq> entry_name (msg_data msg)) \<and>
          (k < i + n \<longrightarrow> entry_name (entry ua k) = entry_name (msg_data msg) \<and> entry_pwd (entry ua k) = entry_pwd (msg_data msg))
      | Inr _ \<Rightarrow> \<exists>k. i \<le> k \<and> k < i + n \<and> (\<forall>j. i \<le> j \<and> j < k \<longrightarrow> entry_name (entry ua j) \<noteq> entry_name (msg_data msg)) \<and>
          entry_name (entry ua k) = entry_name (msg_data msg) \<and> entry_pwd (entry ua k) \<noteq> entry_pwd (msg_data msg))"
proof (induction n arbitrary: i)
  case (Suc n)
  show ?case
  proof (cases "entry_name (entry ua i) = entry_name (msg_data msg)")
    case True
    then show ?thesis
      using Suc.prems by (cases "entry_pwd (entry ua i) = entry_pwd (msg_data msg)") (auto simp: name_cmp pwd_cmp)
  next
    case False
    have P: "(\<forall>j. i \<le> j \<and> j < k \<longrightarrow> entry_name (entry ua j) \<noteq> entry_name (msg_data msg)) \<longleftrightarrow>
        (\<forall>j. Suc i \<le> j \<and> j < k \<longrightarrow> entry_name (entry ua j) \<noteq> entry_name (msg_data msg))" for k
      using False by (rule range_from_Suc)
    obtain r where r: "aaa_loop ua (msg_data msg) (drop off_pwd (msg_data msg)) (Suc i) n = Some r"
      and s: "case r of
        Inl k \<Rightarrow> Suc i \<le> k \<and> k \<le> Suc i + n \<and> (\<forall>j. Suc i \<le> j \<and> j < k \<longrightarrow> entry_name (entry ua j) \<noteq> entry_name (msg_data msg)) \<and>
          (k < Suc i + n \<longrightarrow> entry_name (entry ua k) = entry_name (msg_data msg) \<and> entry_pwd (entry ua k) = entry_pwd (msg_data msg))
      | Inr _ \<Rightarrow> \<exists>k. Suc i \<le> k \<and> k < Suc i + n \<and> (\<forall>j. Suc i \<le> j \<and> j < k \<longrightarrow> entry_name (entry ua j) \<noteq> entry_name (msg_data msg)) \<and>
          entry_name (entry ua k) = entry_name (msg_data msg) \<and> entry_pwd (entry ua k) \<noteq> entry_pwd (msg_data msg)"
      using Suc.IH [of "Suc i"] Suc.prems by auto
    show ?thesis
    proof (cases r)
      case (Inl k)
      then show ?thesis using r s False Suc.prems by (simp add: name_cmp P)
    next
      case (Inr u)
      then obtain k where "Suc i \<le> k" "k < Suc i + n"
        "\<forall>j. Suc i \<le> j \<and> j < k \<longrightarrow> entry_name (entry ua j) \<noteq> entry_name (msg_data msg)"
        "entry_name (entry ua k) = entry_name (msg_data msg)" "entry_pwd (entry ua k) \<noteq> entry_pwd (msg_data msg)"
        using s by auto
      then show ?thesis using r Inr False Suc.prems by (simp add: name_cmp P) (metis Suc_leD add_Suc_right)
    qed
  qed
qed auto

lemma del_loop_spec:
  "users_ok ua \<Longrightarrow> msg_ok msg \<Longrightarrow> i + n \<le> MAX_USER_NUM \<Longrightarrow>
   \<exists>r. del_loop ua (msg_data msg) (drop off_pwd (msg_data msg)) i n = Some r \<and> i \<le> r \<and> r \<le> i + n \<and>
     (r < i + n \<longrightarrow> entry_name (entry ua r) = entry_name (msg_data msg) \<and> entry_pwd (entry ua r) = entry_pwd (msg_data msg))"
proof (induction n arbitrary: i)
  case (Suc n)
  then show ?case
    using Suc.IH [of "Suc i"]
    by (cases "entry_name (entry ua i) = entry_name (msg_data msg)";
        cases "entry_pwd (entry ua i) = entry_pwd (msg_data msg)") (auto simp: name_cmp pwd_cmp)
qed simp

lemma query_loop_spec:
  "users_ok ua \<Longrightarrow> i + n \<le> MAX_USER_NUM \<Longrightarrow> sz \<le> i * user_right_size \<Longrightarrow> user_array_size \<le> length data \<Longrightarrow>
   \<exists>r. query_loop ua i n (sz, data) = Some r"
proof (induction n arbitrary: i sz data)
  case (Suc n)
  have e: "length (slice (i * user_right_size) user_right_size ua) = user_right_size"
    using length_entry [of ua i] Suc.prems by (simp add: entry_def users_ok_def)
  have "sz + user_right_size \<le> length data" using Suc.prems by (simp add: user_sizes)
  then show ?case
    using Suc.IH [of "Suc i" "sz + user_right_size" "put_at sz (slice (i * user_right_size) user_right_size ua) data"]
      Suc.IH [of "Suc i" sz data] Suc.prems e
    by (auto simp: name_len length_put_at)
qed simp

section \<open>Effects of the operations\<close>

definition st_ok :: "'p param_lib \<Rightarrow> 'p main_st \<Rightarrow> bool" where
  "st_ok lib st \<longleftrightarrow> users_ok (user_array lib st) \<and> length (log_info st) = 104"

lemma user_array_store:
  "param_laws lib \<Longrightarrow> length ua = user_array_size \<Longrightarrow>
   plget lib (plset lib p (param_key 0 SDK_MAIN_MSG_USER) ua) (param_key 0 SDK_MAIN_MSG_USER) (replicate user_array_size 0) = ua"
  by (simp add: plget_same)

lemma st_ok_store:
  "param_laws lib \<Longrightarrow> st_ok lib st \<Longrightarrow> users_ok ua \<Longrightarrow>
   st_ok lib (WRITE_LOG a b (st\<lparr>params := adapt_param_set_user_array lib ua (params st)\<rparr>)) \<and>
   user_array lib (WRITE_LOG a b (st\<lparr>params := adapt_param_set_user_array lib ua (params st)\<rparr>)) = ua"
  by (simp add: st_ok_def user_array_def adapt_param_get_user_array_def adapt_param_set_user_array_def WRITE_LOG_def
      user_array_store users_ok_def [of ua])

lemma user_array_log [simp]: "user_array lib (WRITE_LOG a b st) = user_array lib st"
  by (simp add: user_array_def WRITE_LOG_def)

lemma st_ok_log [simp]: "st_ok lib (WRITE_LOG a b st) = st_ok lib st"
  by (simp add: st_ok_def user_array_def WRITE_LOG_def)

lemma note_log_user_ok:
  assumes "st_ok lib st" "0 \<in> set (take 32 nm)"
  shows "\<exists>st'. note_log_user nm st = Some st' \<and> st_ok lib st' \<and> params st' = params st"
proof -
  have l: "length (log_info st) = 104" using assms(1) by (simp add: st_ok_def)
  obtain r where r: "strncmp_eq MAX_USER_NAME_LEN (drop 40 (log_info st)) nm = Some r"
    using strncmp_defined [of 32 "drop 40 (log_info st)" nm] l assms(2) by (auto simp: MAX_USER_NAME_LEN_def)
  have n: "strlen nm = Some (length (cstr nm))" "length (cstr nm) < 32"
    using strlen_cstr [of nm] length_cstr [OF assms(2)] assms(2) by (auto dest: in_set_takeD)
  show ?thesis
  proof (cases r)
    case True
    then show ?thesis using r assms(1) by (simp add: note_log_user_def)
  next
    case False
    have "length (put_at 40 (take (length (cstr nm)) nm) (replicate 104 0)) = 104"
      using n(2) by (simp add: length_put_at take_cstr)
    then show ?thesis using False r n assms(1) by (auto simp: note_log_user_def Let_def st_ok_def user_array_def)
  qed
qed

lemma entry_slice: "slice (i * user_right_size) user_right_size ua = entry ua i"
  by (simp add: entry_def)

lemma take_32_entry:
  "entry_ok e \<Longrightarrow> length e = user_right_size \<Longrightarrow> 0 \<in> set (take 32 (e @ r))"
  by (simp add: entry_ok_def slice_def user_right_size_def)

lemma aaa_result:
  assumes "st_ok lib st" "msg_ok msg"
  defines "ua \<equiv> user_array lib st" and "nm \<equiv> entry_name (msg_data msg)" and "pw \<equiv> entry_pwd (msg_data msg)"
  shows "\<exists>ret msg' st'. msg_user_aaa lib msg st = Some (ret, msg', st') \<and> st_ok lib st' \<and> params st' = params st \<and>
    (ret = 0 \<longleftrightarrow> (\<exists>i < MAX_USER_NUM. entry_name (entry ua i) = nm \<and> entry_pwd (entry ua i) = pw \<and>
       (\<forall>j < i. entry_name (entry ua j) \<noteq> nm)))"
proof -
  have U: "users_ok ua" using assms(1) by (simp add: st_ok_def ua_def)
  note s = msg_strings [OF assms(2)]
  have ex1: "i = k" if "entry_name (entry ua i) = nm" "entry_name (entry ua k) = nm"
    "\<forall>j < i. entry_name (entry ua j) \<noteq> nm" "\<forall>j < k. entry_name (entry ua j) \<noteq> nm" for i k
    using that by (metis linorder_neqE_nat)
  have "\<exists>r. aaa_loop ua (msg_data msg) (drop off_pwd (msg_data msg)) 0 MAX_USER_NUM = Some r \<and>
    (case r of
        Inl k \<Rightarrow> k \<le> MAX_USER_NUM \<and> (\<forall>j < k. entry_name (entry ua j) \<noteq> nm) \<and>
          (k < MAX_USER_NUM \<longrightarrow> entry_name (entry ua k) = nm \<and> entry_pwd (entry ua k) = pw)
      | Inr _ \<Rightarrow> \<exists>k < MAX_USER_NUM. (\<forall>j < k. entry_name (entry ua j) \<noteq> nm) \<and>
          entry_name (entry ua k) = nm \<and> entry_pwd (entry ua k) \<noteq> pw)"
    using aaa_loop_spec [OF U assms(2), of 0 MAX_USER_NUM] unfolding nm_def pw_def by (simp cong: sum.case_cong)
  then obtain r where r: "aaa_loop ua (msg_data msg) (drop off_pwd (msg_data msg)) 0 MAX_USER_NUM = Some r"
    and R: "case r of
        Inl k \<Rightarrow> k \<le> MAX_USER_NUM \<and> (\<forall>j < k. entry_name (entry ua j) \<noteq> nm) \<and>
          (k < MAX_USER_NUM \<longrightarrow> entry_name (entry ua k) = nm \<and> entry_pwd (entry ua k) = pw)
      | Inr _ \<Rightarrow> \<exists>k < MAX_USER_NUM. (\<forall>j < k. entry_name (entry ua j) \<noteq> nm) \<and>
          entry_name (entry ua k) = nm \<and> entry_pwd (entry ua k) \<noteq> pw"
    by (elim exE conjE)
  show ?thesis
  proof (cases r)
    case (Inr u)
    then obtain k where "k < MAX_USER_NUM" "\<forall>j < k. entry_name (entry ua j) \<noteq> nm" "entry_name (entry ua k) = nm"
      "entry_pwd (entry ua k) \<noteq> pw"
      using R by auto
    then have "\<not> (\<exists>i < MAX_USER_NUM. entry_name (entry ua i) = nm \<and> entry_pwd (entry ua i) = pw \<and>
       (\<forall>j < i. entry_name (entry ua j) \<noteq> nm))"
      using ex1 by blast
    then show ?thesis
      using r Inr assms(1) by (simp add: msg_user_aaa_def Let_def user_failed_def ua_def)
  next
    case (Inl k)
    show ?thesis
    proof (cases "k < MAX_USER_NUM")
      case True
      have e: "entry_ok (entry ua k)" "length (entry ua k) = user_right_size"
        using U True length_entry by (simp_all add: users_ok_def)
      obtain st' where st': "note_log_user (entry ua k @ drop user_right_size (msg_data msg)) st = Some st'" "st_ok lib st'"
        "params st' = params st"
        using note_log_user_ok [OF assms(1) take_32_entry [OF e]] by auto
      have "\<exists>i < MAX_USER_NUM. entry_name (entry ua i) = nm \<and> entry_pwd (entry ua i) = pw \<and> (\<forall>j < i. entry_name (entry ua j) \<noteq> nm)"
        using R Inl True by auto
      moreover have "msg_user_aaa lib msg st = Some (0, msg\<lparr>msg_size := 0, msg_data := entry ua k @ drop user_right_size (msg_data msg)\<rparr>,
          WRITE_LOG LOG_MAJOR_OPERATE 1 st')"
        using r Inl True s(5) st'(1) by (simp add: msg_user_aaa_def Let_def ua_def entry_def)
      ultimately show ?thesis using st'(2,3) by (simp add: WRITE_LOG_def [of _ _ st', THEN arg_cong, of params])
    next
      case False
      then have "\<not> (\<exists>i < MAX_USER_NUM. entry_name (entry ua i) = nm \<and> entry_pwd (entry ua i) = pw \<and>
       (\<forall>j < i. entry_name (entry ua j) \<noteq> nm))"
        using R Inl by auto
      then show ?thesis
        using r Inl False assms(1) by (simp add: msg_user_aaa_def Let_def user_failed_def ua_def)
    qed
  qed
qed

lemma take_entry [simp]:
  "entry_name (take user_right_size d) = entry_name d" "entry_pwd (take user_right_size d) = entry_pwd d"
  "entry_ok (take user_right_size d) = entry_ok d"
  by (simp_all add: entry_name_def entry_pwd_def entry_ok_def slice_def drop_take user_right_size_def off_pwd_def)

text \<open>What a stored entry does to the table, for the operations that store one.\<close>

definition stores :: "'p param_lib \<Rightarrow> 'p main_st \<Rightarrow> 'p main_st \<Rightarrow> nat \<Rightarrow> byte list \<Rightarrow> bool" where
  "stores lib st st' i e \<longleftrightarrow> i < MAX_USER_NUM \<and> entry (user_array lib st') i = e \<and>
     (\<forall>j < MAX_USER_NUM. j \<noteq> i \<longrightarrow> entry (user_array lib st') j = entry (user_array lib st) j)"

abbreviation stored :: "'p param_lib \<Rightarrow> cuint \<Rightarrow> nat \<Rightarrow> byte list \<Rightarrow> 'p main_st \<Rightarrow> 'p main_st" where
  "stored lib b i e st \<equiv> WRITE_LOG LOG_MAJOR_OPERATE b
     (st\<lparr>params := adapt_param_set_user_array lib (put_at (i * user_right_size) e (user_array lib st)) (params st)\<rparr>)"

lemma store_entry:
  assumes "param_laws lib" "st_ok lib st" "i < MAX_USER_NUM" "length e = user_right_size" "entry_ok e"
    and "i = 0 \<Longrightarrow> entry_name e = admin_str"
    and "\<And>j. entry_name e \<noteq> [] \<Longrightarrow> j < MAX_USER_NUM \<Longrightarrow> j \<noteq> i \<Longrightarrow> entry_name (entry (user_array lib st) j) \<noteq> entry_name e"
  shows "st_ok lib (stored lib b i e st) \<and> stores lib st (stored lib b i e st) i e"
proof -
  have U: "users_ok (user_array lib st)" using assms(2) by (simp add: st_ok_def)
  then have l: "length (user_array lib st) = user_array_size" by (simp add: users_ok_def)
  note st_ok_store [OF assms(1,2) users_ok_put [OF U assms(3-7)], of LOG_MAJOR_OPERATE b]
  then show ?thesis
    unfolding stores_def using assms(3) by (auto simp: entry_put [OF l assms(3) _ assms(4)])
qed

lemma add_result:
  assumes "param_laws lib" "st_ok lib st" "msg_ok msg"
  shows "\<exists>ret msg' st'. msg_user_add lib msg st = Some (ret, msg', st') \<and> st_ok lib st' \<and>
    (ret = 0 \<longleftrightarrow> (\<forall>j < MAX_USER_NUM. entry_name (entry (user_array lib st) j) \<noteq> entry_name (msg_data msg)) \<and>
       (\<exists>j < MAX_USER_NUM. entry_name (entry (user_array lib st) j) = [])) \<and>
    (ret = 0 \<longrightarrow> (\<exists>i. stores lib st st' i (take user_right_size (msg_data msg))))"
proof -
  let ?ua = "user_array lib st" and ?e = "take user_right_size (msg_data msg)"
  have U: "users_ok ?ua" using assms(2) by (simp add: st_ok_def)
  have e: "length ?e = user_right_size" "entry_ok ?e" using assms(3) msg_strings(5) [OF assms(3)] by (simp_all add: msg_ok_def)
  obtain r where r: "find_user ?ua (msg_data msg) 0 MAX_USER_NUM = Some r"
    "\<forall>k < r. entry_name (entry ?ua k) \<noteq> entry_name (msg_data msg)" "r \<le> MAX_USER_NUM"
    "r < MAX_USER_NUM \<longrightarrow> entry_name (entry ?ua r) = entry_name (msg_data msg)"
    using find_user_spec [OF U assms(3), of 0 MAX_USER_NUM] by auto
  obtain f where f: "find_free ?ua 0 MAX_USER_NUM = Some f" "f < MAX_USER_NUM \<longrightarrow> entry_name (entry ?ua f) = []"
    "f < MAX_USER_NUM \<longleftrightarrow> (\<exists>j < MAX_USER_NUM. entry_name (entry ?ua j) = [])"
    using find_free_spec [OF U, of 0 MAX_USER_NUM] by auto
  show ?thesis
  proof (cases "r < MAX_USER_NUM \<or> \<not> f < MAX_USER_NUM")
    case True
    then have "\<exists>ret err. ret \<noteq> 0 \<and> msg_user_add lib msg st = Some (ret, msg\<lparr>msg_ack := err, msg_size := 0\<rparr>, WRITE_LOG LOG_MAJOR_OPERATE 3 st)"
      using r(1) f(1) by (auto simp: msg_user_add_def Let_def)
    moreover have "\<not> ((\<forall>j < MAX_USER_NUM. entry_name (entry ?ua j) \<noteq> entry_name (msg_data msg)) \<and>
        (\<exists>j < MAX_USER_NUM. entry_name (entry ?ua j) = []))"
      using True r(4) f(3) by blast
    ultimately show ?thesis using assms(2) by fastforce
  next
    case False
    then have n: "\<forall>j < MAX_USER_NUM. entry_name (entry ?ua j) \<noteq> entry_name (msg_data msg)" using r(2,3) by auto
    have "f \<noteq> 0" using False f(2) U by (intro notI) (simp add: users_ok_def admin_str_def)
    then have "st_ok lib (stored lib 3 f ?e st) \<and> stores lib st (stored lib 3 f ?e st) f ?e"
      using False n by (intro store_entry [OF assms(1,2) _ e]) auto
    moreover have "msg_user_add lib msg st = Some (0, msg\<lparr>msg_ack := msg_ack msg, msg_size := 0\<rparr>, stored lib 3 f ?e st)"
      using r(1) f(1) False msg_strings(5) [OF assms(3)] by (simp add: msg_user_add_def Let_def)
    moreover have "\<exists>j < MAX_USER_NUM. entry_name (entry ?ua j) = []" using False f(3) by blast
    ultimately show ?thesis using n by blast
  qed
qed

lemma cstr_memcmp: "0 \<in> set d \<Longrightarrow> cstr d = admin_str \<or> cstr d = [] \<Longrightarrow>
  take (length (cstr d)) d = take (length (cstr d)) (admin_str @ [0])"
  by (auto simp: take_cstr admin_str_def)

lemma del_result:
  assumes "param_laws lib" "st_ok lib st" "msg_ok msg"
  shows "\<exists>ret msg' st'. msg_user_del lib msg st = Some (ret, msg', st') \<and> st_ok lib st' \<and>
    (ret = 0 \<longrightarrow> (\<exists>i. stores lib st st' i (replicate user_right_size 0) \<and> 0 < i \<and>
       entry_name (entry (user_array lib st) i) = entry_name (msg_data msg)))"
proof -
  let ?ua = "user_array lib st" and ?z = "replicate user_right_size (0 :: byte)"
  have U: "users_ok ?ua" using assms(2) by (simp add: st_ok_def)
  note s = msg_strings [OF assms(3)]
  have z: "length ?z = user_right_size" "entry_ok ?z" "entry_name ?z = []"
    by (simp_all add: entry_ok_def entry_name_def slice_def user_right_size_def off_pwd_def numeral_eq_Suc)
  obtain r where r: "del_loop ?ua (msg_data msg) (drop off_pwd (msg_data msg)) 0 MAX_USER_NUM = Some r"
    "r < MAX_USER_NUM \<longrightarrow> entry_name (entry ?ua r) = entry_name (msg_data msg)"
    using del_loop_spec [OF U assms(3), of 0 MAX_USER_NUM] by auto
  let ?n = "length (cstr (msg_data msg))"
  show ?thesis
  proof (cases "take ?n (msg_data msg) = take ?n (admin_str @ [0]) \<or> \<not> r < MAX_USER_NUM")
    case True
    then show ?thesis using r(1) assms(2) strlen_cstr [OF s(1)] by (auto simp: msg_user_del_def Let_def user_failed_def)
  next
    case False
    then have "entry_name (msg_data msg) \<noteq> admin_str" using cstr_memcmp [OF s(1)] s(2) by auto
    then have "r \<noteq> 0" using r(2) False U by (intro notI) (simp add: users_ok_def)
    moreover have "st_ok lib (stored lib 4 r ?z st) \<and> stores lib st (stored lib 4 r ?z st) r ?z"
      using False \<open>r \<noteq> 0\<close> z(3) by (intro store_entry [OF assms(1,2) _ z(1,2)]) auto
    ultimately show ?thesis
      using r False strlen_cstr [OF s(1)] by (auto simp: msg_user_del_def Let_def)
  qed
qed

text \<open>A string copied into a field is an entry with that field replaced.\<close>

lemma put_at_entry:
  assumes "off + length bs \<le> user_right_size" "user_right_size \<le> length ua"
  shows "put_at off bs ua = put_at 0 (put_at off bs (take user_right_size ua)) ua"
proof -
  obtain e r where u: "ua = e @ r" "length e = user_right_size"
    using assms(2) by (metis append_take_drop_id length_take min.absorb2)
  then have "length (put_at off bs e) = user_right_size" using assms(1) by (simp add: length_put_at)
  then show ?thesis using u assms(1) by (simp add: put_at_def)
qed

lemma put_at_0_again:
  assumes "length y = length x" "length x \<le> length m"
  shows "put_at 0 y (put_at 0 x m) = put_at 0 y m" "take (length x) (put_at 0 x m) = x"
  using assms by (simp_all add: put_at_def)

lemma strcpy_cstr:
  "0 \<in> set s \<Longrightarrow> off + length (cstr s) < length m \<Longrightarrow> strcpy_at off s m = Some (put_at off (cstr s @ [0]) m)"
proof -
  assume s: "0 \<in> set s" and "off + length (cstr s) < length m"
  obtain r where "s = cstr s @ 0 # r" using cstr_split [OF s] by blast
  then have "take (Suc (length (cstr s))) s = cstr s @ [0]"
    by (metis append.assoc append_Cons append_Nil length_append_singleton append_eq_conv_conj)
  then show ?thesis using \<open>off + length (cstr s) < length m\<close> strlen_cstr [OF s] by (simp add: strcpy_at_def)
qed

text \<open>The entry 0 after its modification: \<^verbatim>\<open>admin\<close> with a password of the message.\<close>

definition admin_entry :: "byte list \<Rightarrow> byte list \<Rightarrow> byte list" where
  "admin_entry pw e = put_at off_pwd (pw @ [0]) (put_at 0 (admin_str @ [0]) e)"

lemma admin_entry_facts:
  assumes "length e = user_right_size" "length pw < 32" "0 \<notin> set pw"
  shows "length (admin_entry pw e) = user_right_size" "entry_name (admin_entry pw e) = admin_str"
    "entry_pwd (admin_entry pw e) = pw" "entry_ok (admin_entry pw e)"
proof -
  let ?m = "put_at 0 (admin_str @ [0]) e"
  have lm: "length ?m = user_right_size" using assms(1) by (simp add: length_put_at admin_str_def user_right_size_def)
  then show "length (admin_entry pw e) = user_right_size"
    using assms(2) by (simp add: admin_entry_def length_put_at off_pwd_def user_right_size_def)
  have "slice 0 32 (admin_entry pw e) = slice 0 32 ?m"
    using lm assms(2) by (simp add: admin_entry_def slice_put_at_before off_pwd_def user_right_size_def)
  also have "\<dots> = admin_str @ 0 # slice 6 26 e"
    using assms(1) by (simp add: put_at_def slice_def admin_str_def user_right_size_def numeral_eq_Suc)
  finally have n: "slice 0 32 (admin_entry pw e) = admin_str @ 0 # slice 6 26 e" .
  have "take 32 (pw @ 0 # drop (off_pwd + Suc (length pw)) ?m) = pw @ 0 # take (31 - length pw) (drop (off_pwd + Suc (length pw)) ?m)"
    using assms(2) by (simp add: take_append take_Cons')
  then have p: "slice off_pwd 32 (admin_entry pw e) = pw @ 0 # take (31 - length pw) (drop (off_pwd + Suc (length pw)) ?m)"
    using lm by (simp add: admin_entry_def put_at_def slice_def off_pwd_def user_right_size_def)
  have "0 \<notin> set admin_str" by (simp add: admin_str_def)
  then show "entry_name (admin_entry pw e) = admin_str" "entry_pwd (admin_entry pw e) = pw" "entry_ok (admin_entry pw e)"
    using assms(3) by (simp_all add: entry_name_def entry_pwd_def entry_ok_def n p cstr_no0)
qed

lemma strcpy_admin:
  assumes "length ua = user_array_size" "length pw < 32" "0 \<notin> set pw"
  shows "strcpy_at 0 (admin_str @ [0]) ua = Some (put_at 0 (admin_str @ [0]) ua)"
    "put_at off_pwd (pw @ [0]) (put_at 0 (admin_str @ [0]) ua) = put_at 0 (admin_entry pw (entry ua 0)) ua"
proof -
  show "strcpy_at 0 (admin_str @ [0]) ua = Some (put_at 0 (admin_str @ [0]) ua)"
    using strcpy_cstr [of "admin_str @ [0]" 0 ua] assms(1) by (simp add: admin_str_def user_sizes)
  have l: "user_right_size \<le> length ua" using assms(1) by (simp add: user_sizes)
  have e: "entry ua 0 = take user_right_size ua" by (simp add: entry_def slice_def)
  let ?x = "put_at 0 (admin_str @ [0]) (entry ua 0)" and ?b = "put_at 0 (admin_str @ [0]) ua"
  have x: "length ?x = user_right_size" using l by (simp add: e length_put_at admin_str_def user_right_size_def)
  have b: "?b = put_at 0 ?x ua"
    unfolding e by (rule put_at_entry) (use l in \<open>simp_all add: admin_str_def user_right_size_def\<close>)
  have "length ?b = length ua" using l by (simp add: length_put_at admin_str_def user_right_size_def)
  then have "put_at off_pwd (pw @ [0]) ?b = put_at 0 (put_at off_pwd (pw @ [0]) (take user_right_size ?b)) ?b"
    using l assms(2) by (intro put_at_entry) (simp_all add: off_pwd_def user_right_size_def)
  also have "take user_right_size ?b = ?x" unfolding b using put_at_0_again(2) [of ?x ?x ua] x l by simp
  also have "put_at 0 (put_at off_pwd (pw @ [0]) ?x) ?b = put_at 0 (put_at off_pwd (pw @ [0]) ?x) ua"
    unfolding b using put_at_0_again(1) [of "put_at off_pwd (pw @ [0]) ?x" ?x ua] x l assms(2)
    by (simp add: length_put_at off_pwd_def user_right_size_def)
  finally show "put_at off_pwd (pw @ [0]) ?b = put_at 0 (admin_entry pw (entry ua 0)) ua" by (simp add: admin_entry_def)
qed

lemma modif_result:
  assumes "param_laws lib" "st_ok lib st" "msg_ok msg"
  shows "\<exists>ret msg' st'. msg_user_modif lib msg st = Some (ret, msg', st') \<and> st_ok lib st' \<and>
    (ret = 0 \<longrightarrow> (\<exists>i e. stores lib st st' i e \<and> entry_name e = entry_name (msg_data msg) \<and>
       entry_name (entry (user_array lib st) i) = entry_name (msg_data msg) \<and> entry_pwd e = entry_pwd (msg_data msg)))"
proof -
  let ?ua = "user_array lib st" and ?e = "take user_right_size (msg_data msg)"
  have U: "users_ok ?ua" using assms(2) by (simp add: st_ok_def)
  then have l: "length ?ua = user_array_size" by (simp add: users_ok_def)
  note s = msg_strings [OF assms(3)]
  have e: "length ?e = user_right_size" "entry_ok ?e" using assms(3) s(5) by (simp_all add: msg_ok_def)
  obtain r where r: "find_user ?ua (msg_data msg) 0 MAX_USER_NUM = Some r" "r \<le> MAX_USER_NUM"
    "r < MAX_USER_NUM \<longrightarrow> entry_name (entry ?ua r) = entry_name (msg_data msg)"
    using find_user_spec [OF U assms(3), of 0 MAX_USER_NUM] by auto
  consider "\<not> r < MAX_USER_NUM" | (zero) "r = 0" | "0 < r" "r < MAX_USER_NUM" by linarith
  then show ?thesis
  proof cases
    case 1
    then show ?thesis using r(1) assms(2) by (auto simp: msg_user_modif_def Let_def)
  next
    case 3
    have "st_ok lib (stored lib 5 r ?e st) \<and> stores lib st (stored lib 5 r ?e st) r ?e"
      using 3 r(3) U by (intro store_entry [OF assms(1,2) 3(2) e]) (auto simp: users_ok_def)
    moreover have "msg_user_modif lib msg st = Some (0, msg\<lparr>msg_ack := msg_ack msg, msg_size := 0\<rparr>, stored lib 5 r ?e st)"
      using r(1) 3 s(5) by (simp add: msg_user_modif_def)
    ultimately show ?thesis using r(3) 3(2) take_entry by blast
  next
  case zero
    have m: "0 < MAX_USER_NUM" by (simp add: MAX_USER_NUM_def)
    let ?pw = "entry_pwd (msg_data msg)"
    have "0 \<in> set (take 32 (drop off_pwd (msg_data msg)))"
      using assms(3) by (simp add: msg_ok_def entry_ok_def slice_def)
    then have pw: "length ?pw < 32" "0 \<notin> set ?pw"
      using length_cstr set_cstr [of "drop off_pwd (msg_data msg)"] unfolding s(4) [symmetric] by blast+
    let ?z = "admin_entry ?pw (entry ?ua 0)"
    note z = admin_entry_facts [OF length_entry [OF l m] pw]
    have "st_ok lib (stored lib 5 0 ?z st) \<and> stores lib st (stored lib 5 0 ?z st) 0 ?z"
    proof (rule store_entry [OF assms(1,2) m z(1,4)])
      show "entry_name (entry ?ua j) \<noteq> entry_name ?z"
        if "entry_name ?z \<noteq> []" "j < MAX_USER_NUM" "j \<noteq> 0" for j
        using U that m unfolding z(2) users_ok_def by metis
    qed (rule z(2))
    moreover have "strcpy_at off_pwd (drop off_pwd (msg_data msg)) (put_at 0 (admin_str @ [0]) ?ua) =
        Some (put_at off_pwd (?pw @ [0]) (put_at 0 (admin_str @ [0]) ?ua))"
      using strcpy_cstr [OF s(3), of off_pwd "put_at 0 (admin_str @ [0]) ?ua"] s(4) pw(1) l
      by (simp add: length_put_at admin_str_def user_sizes)
    then have "msg_user_modif lib msg st = Some (0, msg\<lparr>msg_ack := msg_ack msg, msg_size := 0\<rparr>, stored lib 5 0 ?z st)"
      using r(1) zero m strcpy_admin [OF l pw] by (simp add: msg_user_modif_def Let_def)
    moreover have "entry_name (entry ?ua 0) = entry_name (msg_data msg)" "entry_name ?z = entry_name (msg_data msg)"
      using r(3) zero m z(2) U by (simp_all add: users_ok_def)
    ultimately show ?thesis using z(3) by blast
  qed
qed

end
