(* ===== verification/Dispatch.thy ===== *)
theory Dispatch
  imports Users
begin

text \<open>
  The return to the default parameters (\<^verbatim>\<open>adapt_param_recovery_param\<close> of \<^verbatim>\<open>adapt/src/adapt_param.c\<close> and its
  message) and the dispatch of the messages of the main program (\<^verbatim>\<open>main/src/main.c\<close>), over the handlers of the
  theories \<open>Params\<close> and \<open>Users\<close>; the handlers that are not modelled are an argument. The lemmas show that no
  handler reaches the table of users but its own, as long as the channel of a message fits the 8 bits it has in a key.
\<close>

section \<open>Default parameters\<close>

text \<open>The default of one channel, or of the \<^verbatim>\<open>max_ch\<close> channels of the device.\<close>

definition recover_ch ::
    "(cuint \<Rightarrow> 'p \<Rightarrow> byte list \<Rightarrow> byte list) \<Rightarrow> (cuint \<Rightarrow> byte list \<Rightarrow> 'p \<Rightarrow> 'p) \<Rightarrow> nat \<Rightarrow> cuint \<Rightarrow> 'p main_st \<Rightarrow> 'p main_st" where
  "recover_ch getd setf n ch_def st =
     (let cfg = (\<lambda>ch. getd ch (def_params st) (replicate n 0)) in
      if ch_def = CHANN_TYPE_ALL
      then st\<lparr>params := set_channels (nat adapt_param_get_chnum) (\<lambda>ch. setf ch (cfg ch)) (params st)\<rparr>
      else st\<lparr>params := setf ch_def (cfg ch_def) (params st)\<rparr>)"

definition or32_at :: "nat \<Rightarrow> cuint \<Rightarrow> byte list \<Rightarrow> byte list" where
  "or32_at off w m = put_at off (le32 (get32 (drop off m) OR w)) m"

text \<open>The rights of the root user: 31 turns, of which the arrays of channel rights have room for two.\<close>

fun root_rights :: "nat \<Rightarrow> nat \<Rightarrow> byte list \<Rightarrow> byte list" where
  "root_rights i 0 ua = ua"
| "root_rights i (Suc n) ua =
     (let ua = or32_at off_local_right (push_bit i 1) ua;
          ua = or32_at off_remote_right (push_bit i 1) ua;
          ua = put_at (off_local_backup_right + i) [1] ua;
          ua = put_at (off_net_preview_right + i) [1] ua
      in root_rights (Suc i) n ua)"

definition default_user_array :: "byte list" where
  "default_user_array =
     (let root_user = put_at 0 admin_str (replicate user_right_size 0);
          root_user = put_at off_pwd admin_str root_user;
          ua = put_at 0 root_user (replicate user_array_size 0)
      in root_rights 0 31 ua)"

text \<open>One bit of the mask; \<open>None\<close> is the error of a bit without a case.\<close>

definition recover_bit :: "'p param_lib \<Rightarrow> cuint \<Rightarrow> nat \<Rightarrow> 'p main_st \<Rightarrow> 'p main_st option" where
  "recover_bit lib ch i st =
     (if i = 0 then Some (recover_ch (adapt_param_get_def_encode_cfg lib) (adapt_param_set_encode_cfg lib) 68 ch st)
      else if i = 1 then Some (recover_ch (adapt_param_get_def_ptz_cfg lib) (adapt_param_set_ptz_cfg lib) 12 ch st)
      else if i = 2 then
        Some (recover_ch (\<lambda>c. adapt_param_get_def_record_cfg lib (if ch = CHANN_TYPE_ALL then 0 else c))
          (adapt_param_set_record_cfg lib) 9984 ch st)
      else if i = 3 then
        Some (st\<lparr>params := adapt_param_set_net_mng_cfg lib
                  (adapt_param_get_def_net_mng_cfg lib (def_params st) (replicate 292 0)) (params st)\<rparr>)
      else if i = 5 then Some st
      else if i = 6 then Some (recover_ch (adapt_param_get_def_serial_cfg lib) (adapt_param_set_serial_cfg lib) 12 ch st)
      else if i = 7 then Some (recover_ch (adapt_param_get_def_overlay_cfg lib) (adapt_param_set_overlay_cfg lib) 40 ch st)
      else if i = 8 then Some (recover_ch (adapt_param_get_def_motion_cfg lib) (adapt_param_set_motion_cfg lib) 344 ch st)
      else if i = 10 then Some (recover_ch (adapt_param_get_def_osd_cfg lib) (adapt_param_set_osd_cfg lib) 260 ch st)
      else if i = 11 then Some (st\<lparr>params := adapt_param_set_user_array lib default_user_array (params st)\<rparr>)
      else if i = 12 then Some (recover_ch (adapt_param_get_def_alarm_in_cfg lib) (adapt_param_set_alarm_in_cfg lib) 340 ch st)
      else if i = 13 then Some (recover_ch (adapt_param_get_def_hide_cfg lib) (adapt_param_set_hide_cfg lib) 344 ch st)
      else if i = 14 then Some (recover_ch (adapt_param_get_def_lost_cfg lib) (adapt_param_set_lost_cfg lib) 308 ch st)
      else None)"

definition SDK_PARAM_MASK_BUIT :: nat where "SDK_PARAM_MASK_BUIT = 18"

fun recover_bits :: "'p param_lib \<Rightarrow> cuint \<Rightarrow> cuint \<Rightarrow> nat \<Rightarrow> nat \<Rightarrow> 'p main_st \<Rightarrow> int \<times> 'p main_st" where
  "recover_bits lib pm ch i 0 st = (0, st)"
| "recover_bits lib pm ch i (Suc n) st =
     (if drop_bit i pm AND 1 \<noteq> 0
      then (case recover_bit lib ch i st of None \<Rightarrow> (-1, st) | Some st \<Rightarrow> recover_bits lib pm ch (Suc i) n st)
      else recover_bits lib pm ch (Suc i) n st)"

text \<open>The reset of the whole device removes the files of the parameters; the current parameters stay.\<close>

definition adapt_param_recovery_param :: "'p param_lib \<Rightarrow> cuint \<Rightarrow> cuint \<Rightarrow> 'p main_st \<Rightarrow> int \<times> 'p main_st" where
  "adapt_param_recovery_param lib pm ch_def st =
     (if PARAM_MASK_ALL = pm then
        (0, st\<lparr>shell_cmds := shell_cmds st @
           [''rm -rf /config/param/.sysparam1'', ''rm -rf /config/param/.sysparam2'', ''rm -rf /config/wireless_info.conf'']\<rparr>)
      else recover_bits lib pm ch_def 0 SDK_PARAM_MASK_BUIT st)"

definition main_msg_param_def :: "'p param_lib \<Rightarrow> 'p handler" where
  "main_msg_param_def lib msg st =
     (if length (msg_data msg) < 8 then None
      else let (_, st) = adapt_param_recovery_param lib (get32 (msg_data msg)) (msg_chann msg) st
           in Some (0, msg\<lparr>msg_size := 0\<rparr>, WRITE_LOG LOG_MAJOR_OPERATE 8 st))"

section \<open>Dispatch\<close>

text \<open>The table of handlers; \<open>other\<close> are those of the table that are not modelled.\<close>

definition modelled_handlers :: "'p param_lib \<Rightarrow> (nat \<times> 'p handler) list" where
  "modelled_handlers lib =
     [(4, main_msg_param_def lib), (9, main_msg_ptz_cfg lib), (15, main_msg_record_cfg lib),
      (17, main_msg_motion_cfg lib), (18, main_msg_alarm_in_cfg lib), (19, main_msg_hide_cfg lib),
      (20, main_msg_lost_cfg lib), (26, main_msg_user lib), (35, main_msg_manual_rec lib),
      (36, main_msg_manual_almin lib), (39, main_msg_platform_cfg lib), (41, main_msg_ddns_cfg lib),
      (50, main_alarm_sched_cfg lib), (51, main_regional_cfg lib), (52, main_iodev_cfg lib), (57, main_msg_aws_cfg lib)]"

definition null_handlers :: "nat list" where
  "null_handlers = [0, 5, 10, 42, 44, 45, 46, 56]"

definition msg_desc :: "'p param_lib \<Rightarrow> (nat \<Rightarrow> 'p handler) \<Rightarrow> nat \<Rightarrow> 'p handler option" where
  "msg_desc lib other i =
     (if i \<in> set null_handlers then None
      else case map_of (modelled_handlers lib) i of Some h \<Rightarrow> Some h | None \<Rightarrow> Some (other i))"

definition MODULE_ID_MAIN :: "16 word" where "MODULE_ID_MAIN = 1"
definition SDK_MSG_RESP :: byte where "SDK_MSG_RESP = 0"

definition msg_dispatch :: "(nat \<Rightarrow> 'p handler option) \<Rightarrow> 'p handler" where
  "msg_dispatch desc msg st =
     (let i = msg_id msg;
          msg = msg\<lparr>msg_ack := SDK_ERR_SUCCESS\<rparr>;
          fail = (\<lambda>msg st. Some (-1, msg\<lparr>msg_magic := MODULE_ID_MAIN, msg_id := i, msg_dir := SDK_MSG_RESP,
                                       msg_ack := SDK_ERR_FAILURE\<rparr>, st))
      in if SDK_MAIN_MSG_BUTT \<le> unat i then fail msg st
         else case desc (unat i) of
             None \<Rightarrow> fail msg st
           | Some cb \<Rightarrow>
               (case cb msg st of
                  None \<Rightarrow> None
                | Some (ret, msg, st) \<Rightarrow>
                    if ret < 0 then fail msg st
                    else Some (0, msg\<lparr>msg_id := i, msg_ack := SDK_ERR_SUCCESS, msg_dir := SDK_MSG_RESP\<rparr>, st)))"

section \<open>The default users\<close>

lemma put_at_single: "off < length m \<Longrightarrow> put_at off [v] m = m[off := v]"
  by (simp add: put_at_def upd_conv_take_nth_drop)

lemma or32_at_frame:
  assumes "off + 4 \<le> length m"
  shows "length (or32_at off w m) = length m" "k < off \<or> off + 4 \<le> k \<Longrightarrow> k < length m \<Longrightarrow> or32_at off w m ! k = m ! k"
  using assms by (auto simp: or32_at_def put_at_def nth_append length_put_at)

definition root_inv :: "byte list \<Rightarrow> nat \<Rightarrow> byte list \<Rightarrow> bool" where
  "root_inv m0 i m \<longleftrightarrow> length m = length m0 \<and>
     (\<forall>k < length m0. k < 64 \<or> 74 + i \<le> k \<longrightarrow> m ! k = m0 ! k) \<and> (\<forall>k < i. m ! (72 + k) = 1 \<and> m ! (74 + k) = 1)"

lemma root_rights_inv: "74 + i + n \<le> length m0 \<Longrightarrow> root_inv m0 i m \<Longrightarrow> root_inv m0 (i + n) (root_rights i n m)"
proof (induction n arbitrary: i m)
  case (Suc n)
  define m1 where "m1 = or32_at 68 (push_bit i 1) (or32_at 64 (push_bit i 1) m)"
  have l: "length m = length m0" using Suc.prems(2) by (simp add: root_inv_def)
  have m1: "length m1 = length m0" "\<And>k. k < 64 \<or> 72 \<le> k \<Longrightarrow> k < length m0 \<Longrightarrow> m1 ! k = m ! k"
    using Suc.prems(1) l by (auto simp: m1_def or32_at_frame)
  have "root_inv m0 (Suc i) (m1[72 + i := 1, 74 + i := 1])"
    using Suc.prems m1 unfolding root_inv_def by (auto simp: nth_list_update less_Suc_eq)
  moreover have "root_rights i (Suc n) m = root_rights (Suc i) n (m1[72 + i := 1, 74 + i := 1])"
    using Suc.prems(1) m1(1)
    by (simp add: m1_def put_at_single off_local_right_def off_remote_right_def off_local_backup_right_def
        off_net_preview_right_def)
  ultimately show ?case using Suc.IH [of "Suc i"] Suc.prems(1) by simp
qed simp

definition root_only :: "byte list" where
  "root_only = admin_str @ replicate 27 0 @ admin_str @ replicate 1179 0"

lemma default_rights: "default_user_array = root_rights 0 31 root_only"
proof -
  have 1: "put_at 0 admin_str (replicate user_right_size 0) = admin_str @ replicate 71 0"
    by (simp add: put_at_def admin_str_def user_right_size_def)
  have 2: "put_at off_pwd admin_str (admin_str @ replicate 71 0) = admin_str @ replicate 27 0 @ admin_str @ replicate 39 0"
    by (simp add: put_at_def admin_str_def off_pwd_def)
  have "put_at 0 (admin_str @ replicate 27 0 @ admin_str @ replicate 39 0) (replicate user_array_size 0) = root_only"
    by (simp add: put_at_def user_sizes admin_str_def root_only_def replicate_add [symmetric])
  then show ?thesis by (simp add: default_user_array_def 1 2)
qed

lemma length_root_only: "length root_only = user_array_size"
  by (simp add: root_only_def admin_str_def user_sizes)

lemma root_only_nth: "k < user_array_size \<Longrightarrow> 37 \<le> k \<Longrightarrow> root_only ! k = 0"
  by (simp add: root_only_def nth_append admin_str_def user_sizes)

lemma default_users:
  shows "length default_user_array = user_array_size"
    "k < user_array_size \<Longrightarrow> k < 64 \<or> 105 \<le> k \<Longrightarrow> default_user_array ! k = root_only ! k"
    "72 \<le> k \<Longrightarrow> k < 105 \<Longrightarrow> default_user_array ! k = 1"
proof -
  have I: "root_inv root_only 31 default_user_array"
    using root_rights_inv [of 0 31 root_only root_only] unfolding default_rights
    by (simp add: root_inv_def length_root_only user_sizes)
  show "length default_user_array = user_array_size"
    "k < user_array_size \<Longrightarrow> k < 64 \<or> 105 \<le> k \<Longrightarrow> default_user_array ! k = root_only ! k"
    using I by (auto simp: root_inv_def length_root_only)
  have "\<forall>k < 31. default_user_array ! (72 + k) = 1 \<and> default_user_array ! (74 + k) = 1"
    using I by (simp add: root_inv_def)
  then show "default_user_array ! k = 1" if "72 \<le> k" "k < 105"
  proof (cases "k < 103")
    case True
    then show ?thesis using \<open>\<forall>k < 31. _ k\<close> [rule_format, of "k - 72"] that by simp
  next
    case False
    then show ?thesis using \<open>\<forall>k < 31. _ k\<close> [rule_format, of "k - 74"] that by simp
  qed
qed

lemma default_slice:
  "off + n \<le> 64 \<or> 105 \<le> off \<Longrightarrow> off + n \<le> user_array_size \<Longrightarrow> slice off n default_user_array = slice off n root_only"
  by (intro nth_equalityI) (auto simp: slice_def default_users length_root_only)

lemma default_entries:
  "slice 0 32 default_user_array = admin_str @ replicate 27 0"
  "slice 32 32 default_user_array = admin_str @ replicate 27 0"
  "slice 76 32 default_user_array = replicate 29 1 @ replicate 3 0"
  "105 \<le> off \<Longrightarrow> off + 32 \<le> user_array_size \<Longrightarrow> slice off 32 default_user_array = replicate 32 0"
proof -
  show "slice 0 32 default_user_array = admin_str @ replicate 27 0"
    "slice 32 32 default_user_array = admin_str @ replicate 27 0"
    by (simp_all add: default_slice user_sizes) (simp_all add: root_only_def slice_def admin_str_def)
  show "slice 76 32 default_user_array = replicate 29 1 @ replicate 3 0"
    by (intro nth_equalityI) (auto simp: slice_def default_users user_sizes nth_append root_only_nth)
  show "slice off 32 default_user_array = replicate 32 0" if "105 \<le> off" "off + 32 \<le> user_array_size"
    using that by (simp add: default_slice) (intro nth_equalityI; simp add: slice_def length_root_only root_only_nth)
qed

lemma default_entry:
  "entry_name (entry default_user_array 0) = admin_str" "entry_pwd (entry default_user_array 0) = admin_str"
  "entry_name (entry default_user_array 1) = replicate 29 1" "entry_pwd (entry default_user_array 1) = []"
  "2 \<le> i \<Longrightarrow> i < MAX_USER_NUM \<Longrightarrow> entry_name (entry default_user_array i) = []"
  "i < MAX_USER_NUM \<Longrightarrow> entry_ok (entry default_user_array i)"
proof -
  have sl: "slice 0 32 (entry default_user_array i) = slice (i * 76) 32 default_user_array"
    "slice off_pwd 32 (entry default_user_array i) = slice (i * 76 + 32) 32 default_user_array" for i
    by (simp_all add: entry_def slice_slice user_right_size_def off_pwd_def)
  have z: "cstr (replicate n 0) = []" for n by (cases n) simp_all
  have c: "cstr (admin_str @ replicate 27 0) = admin_str" "cstr (replicate 29 1 @ replicate 3 0) = replicate 29 1"
    using cstr_no0 [of admin_str "replicate 26 0"] cstr_no0 [of "replicate 29 1" "replicate 2 0"]
      replicate_Suc [of 26 "0 :: byte"] replicate_Suc [of 2 "0 :: byte"]
    by (simp_all add: admin_str_def)
  show "entry_name (entry default_user_array 0) = admin_str" "entry_pwd (entry default_user_array 0) = admin_str"
    "entry_name (entry default_user_array 1) = replicate 29 1" "entry_pwd (entry default_user_array 1) = []"
    by (simp_all add: entry_name_def entry_pwd_def sl default_entries c z user_array_size_def user_right_size_def MAX_USER_NUM_def)
  show n: "entry_name (entry default_user_array i) = []" if "2 \<le> i" "i < MAX_USER_NUM" for i
    using that by (simp add: entry_name_def sl default_entries(4) z user_sizes)
  show "entry_ok (entry default_user_array i)" if "i < MAX_USER_NUM"
  proof -
    consider "i = 0" | "i = 1" | "2 \<le> i" by linarith
    then show ?thesis
      by cases (use that in \<open>simp_all add: entry_ok_def sl default_entries user_array_size_def user_right_size_def MAX_USER_NUM_def\<close>)
  qed
qed

lemma default_users_ok: "users_ok default_user_array"
proof -
  have "i = j" if "i < MAX_USER_NUM" "j < MAX_USER_NUM" "entry_name (entry default_user_array i) \<noteq> []"
    "entry_name (entry default_user_array i) = entry_name (entry default_user_array j)" for i j
  proof -
    have "i < 2" "j < 2" using that default_entry(5) by (metis not_le)+
    then have "i = 0 \<or> i = 1" "j = 0 \<or> j = 1" by auto
    then show ?thesis using that(4) by (auto simp: default_entry(1,3) [unfolded One_nat_def] admin_str_def numeral_eq_Suc)
  qed
  then show ?thesis unfolding users_ok_def using default_users(1) default_entry(1,6) by blast
qed
end
