(* ===== verification/DispatchSafe.thy ===== *)
theory DispatchSafe
  imports Dispatch
begin

text \<open>
  What the message handlers do to the table of users: with a channel below 256 no handler but the ones of the users
  and of the default parameters reaches it, and those keep its form; every modelled handler stays inside the message
  and the table. The dispatch of any sequence of such messages is a \<open>safe_loop\<close>.
\<close>

section \<open>Keys\<close>

lemma key_ne_user:
  assumes "ch < 256" "pid < 64" "pid \<noteq> SDK_MAIN_MSG_USER"
  shows "param_key ch pid \<noteq> param_key 0 SDK_MAIN_MSG_USER"
proof
  have d: "drop_bit 8 (param_key c q) = q" if "c < 256" "q < 64" for c q
  proof -
    have "drop_bit 8 c = 0" using that(1) by (simp add: drop_bit_eq_div word_less_nat_alt unat_div div_less word_unat_eq_iff)
    moreover have "drop_bit 8 (push_bit 8 q) = q"
    proof (rule bit_word_eqI)
      have "q = take_bit 6 q"
        using that(2) by (simp add: take_bit_eq_mod word_unat_eq_iff unat_mod word_less_nat_alt)
      then have *: "bit q i \<Longrightarrow> i < 6" for i by (metis bit_take_bit_iff)
      then have "bit q i \<Longrightarrow> i < 24" for i by (meson less_trans numeral_less_iff semiring_norm)
      then show "bit (drop_bit 8 (push_bit 8 q)) i = bit q i" for i by (auto simp: bit_simps)
    qed
    ultimately show ?thesis by (simp add: param_key_def)
  qed
  assume "param_key ch pid = param_key 0 SDK_MAIN_MSG_USER"
  then have "pid = SDK_MAIN_MSG_USER"
    using d [of ch pid] d [of 0 SDK_MAIN_MSG_USER] assms(1,2) by (simp add: SDK_MAIN_MSG_USER_def)
  then show False using assms(3) by simp
qed
section \<open>Handlers that leave the users alone\<close>

definition same_users :: "'p param_lib \<Rightarrow> 'p main_st \<Rightarrow> 'p main_st \<Rightarrow> bool" where
  "same_users lib st st' \<longleftrightarrow> user_array lib st' = user_array lib st \<and> log_info st' = log_info st"

lemma same_users_ok: "same_users lib st st' \<Longrightarrow> st_ok lib st \<Longrightarrow> st_ok lib st'"
  by (simp add: same_users_def st_ok_def)

lemma same_users_set:
  "param_laws lib \<Longrightarrow> ch < 256 \<Longrightarrow> pid < 64 \<Longrightarrow> pid \<noteq> SDK_MAIN_MSG_USER \<Longrightarrow>
   same_users lib st (st\<lparr>params := sdk_param_set_ch lib ch pid v (params st)\<rparr>)"
  by (simp add: same_users_def user_array_def adapt_param_get_user_array_def sdk_param_set_ch_def plget_other key_ne_user)

lemma same_users_log [simp]: "same_users lib st (WRITE_LOG a b st') = same_users lib st st'"
  by (simp add: same_users_def user_array_def WRITE_LOG_def)

lemma same_users_refl [simp]: "same_users lib st st"
  by (simp add: same_users_def)

text \<open>What a handler promises on a message whose channel has 8 bits and whose buffer holds every structure, and, for the
  messages of the users, two strings that end.\<close>

definition fit_msg :: "nat \<Rightarrow> sdk_msg \<Rightarrow> bool" where
  "fit_msg i msg \<longleftrightarrow> 9984 \<le> length (msg_data msg) \<and> msg_chann msg < 256 \<and> (i = 26 \<longrightarrow> entry_ok (msg_data msg))"

definition handler_ok :: "'p param_lib \<Rightarrow> nat \<Rightarrow> 'p handler \<Rightarrow> bool" where
  "handler_ok lib i h \<longleftrightarrow> (\<forall>msg st. fit_msg i msg \<longrightarrow> st_ok lib st \<longrightarrow>
     (\<exists>ret msg' st'. h msg st = Some (ret, msg', st') \<and> (ret = 0 \<or> ret = -1) \<and> st_ok lib st'))"

lemma chann_cfg_ok:
  assumes "param_laws lib" "n \<le> 9984" "m \<le> 0" "pid < 64" "pid \<noteq> SDK_MAIN_MSG_USER"
    and "\<And>st st'. same_users lib st (log st') = same_users lib st st'"
  shows "handler_ok lib i (chann_cfg getf (\<lambda>c. sdk_param_set_ch lib c pid) n m log)"
  unfolding handler_ok_def
proof (intro allI impI)
  fix msg and st :: "'a main_st"
  assume m: "fit_msg i msg" "st_ok lib st"
  then have l: "n \<le> length (msg_data msg)" "msg_chann msg < 256" using assms(2) by (simp_all add: fit_msg_def)
  have "\<exists>msg' st'. chann_cfg getf (\<lambda>c. sdk_param_set_ch lib c pid) n m log msg st = Some (0, msg', st') \<and> same_users lib st st'"
    using l assms(3) by (auto simp: chann_cfg_def Let_def assms(6) same_users_set [OF assms(1) _ assms(4,5)])
  then show "\<exists>ret msg' st'. chann_cfg getf (\<lambda>c. sdk_param_set_ch lib c pid) n m log msg st = Some (ret, msg', st') \<and>
      (ret = 0 \<or> ret = -1) \<and> st_ok lib st'"
    using same_users_ok m(2) by blast
qed

lemma global_cfg_ok:
  assumes "param_laws lib" "n \<le> 9984" "pid < 64" "pid \<noteq> SDK_MAIN_MSG_USER"
    and "\<And>st st'. same_users lib st (log st') = same_users lib st st'"
  shows "handler_ok lib i (global_cfg getf (sdk_param_set_ch lib 0 pid) n log)"
  unfolding handler_ok_def
proof (intro allI impI)
  fix msg and st :: "'a main_st"
  assume m: "fit_msg i msg" "st_ok lib st"
  have "\<exists>msg' st'. global_cfg getf (sdk_param_set_ch lib 0 pid) n log msg st = Some (0, msg', st') \<and> same_users lib st st'"
    using m(1) assms(2) by (auto simp: global_cfg_def Let_def fit_msg_def assms(5) same_users_set [OF assms(1) _ assms(3,4)])
  then show "\<exists>ret msg' st'. global_cfg getf (sdk_param_set_ch lib 0 pid) n log msg st = Some (ret, msg', st') \<and>
      (ret = 0 \<or> ret = -1) \<and> st_ok lib st'"
    using same_users_ok m(2) by blast
qed

section \<open>The default parameters\<close>

lemma recover_ch_same:
  assumes "param_laws lib" "ch < 256" "pid < 64" "pid \<noteq> SDK_MAIN_MSG_USER"
  shows "same_users lib st (recover_ch getd (\<lambda>c. sdk_param_set_ch lib c pid) n ch st)"
  using same_users_set [OF assms] by (simp add: recover_ch_def Let_def adapt_param_get_chnum_def)

lemma set_channel_defs:
  "adapt_param_set_encode_cfg lib = (\<lambda>c. sdk_param_set_ch lib c SDK_MAIN_MSG_ENCODE_CFG)"
  "adapt_param_set_ptz_cfg lib = (\<lambda>c. sdk_param_set_ch lib c SDK_MAIN_MSG_PTZ_CFG)"
  "adapt_param_set_record_cfg lib = (\<lambda>c. sdk_param_set_ch lib c SDK_MAIN_MSG_RECORD_CFG)"
  "adapt_param_set_serial_cfg lib = (\<lambda>c. sdk_param_set_ch lib c SDK_MAIN_MSG_SERIAL_CFG)"
  "adapt_param_set_overlay_cfg lib = (\<lambda>c. sdk_param_set_ch lib c SDK_MAIN_MSG_OVERLAY_CFG)"
  "adapt_param_set_motion_cfg lib = (\<lambda>c. sdk_param_set_ch lib c SDK_MAIN_MSG_MOTION_CFG)"
  "adapt_param_set_osd_cfg lib = (\<lambda>c. sdk_param_set_ch lib c SDK_MAIN_MSG_OSD_CFG)"
  "adapt_param_set_alarm_in_cfg lib = (\<lambda>c. sdk_param_set_ch lib c SDK_MAIN_MSG_ALARM_IN_CFG)"
  "adapt_param_set_hide_cfg lib = (\<lambda>c. sdk_param_set_ch lib c SDK_MAIN_MSG_HIDE_CFG)"
  "adapt_param_set_lost_cfg lib = (\<lambda>c. sdk_param_set_ch lib c SDK_MAIN_MSG_LOST_CFG)"
  by (simp_all add: fun_eq_iff adapt_param_set_encode_cfg_def adapt_param_set_ptz_cfg_def adapt_param_set_record_cfg_def adapt_param_set_serial_cfg_def adapt_param_set_overlay_cfg_def adapt_param_set_motion_cfg_def adapt_param_set_osd_cfg_def adapt_param_set_alarm_in_cfg_def adapt_param_set_hide_cfg_def adapt_param_set_lost_cfg_def)

lemmas set_defs = set_channel_defs adapt_param_set_net_mng_cfg_def adapt_param_set_ddns_cfg_def adapt_param_set_platform_cfg_def adapt_param_set_manual_rec_cfg_def adapt_param_set_manual_almin_cfg_def adapt_param_set_sched_param_def adapt_param_set_regional_param_def adapt_param_set_iodev_param_def adapt_param_set_aws_cfg_def

lemmas msg_ids = SDK_MAIN_MSG_NET_MNG_CFG_def SDK_MAIN_MSG_PTZ_CFG_def SDK_MAIN_MSG_ENCODE_CFG_def
  SDK_MAIN_MSG_RECORD_CFG_def SDK_MAIN_MSG_MOTION_CFG_def SDK_MAIN_MSG_ALARM_IN_CFG_def SDK_MAIN_MSG_HIDE_CFG_def
  SDK_MAIN_MSG_LOST_CFG_def SDK_MAIN_MSG_OSD_CFG_def SDK_MAIN_MSG_USER_def SDK_MAIN_MSG_OVERLAY_CFG_def
  SDK_MAIN_MSG_SERIAL_CFG_def SDK_MAIN_MSG_MANUAL_REC_def SDK_MAIN_MSG_MANUAL_ALMIN_def SDK_MAIN_MSG_PLATFORM_CFG_def
  SDK_MAIN_MSG_DDNS_CFG_def SDK_MAIN_MSG_SCHED_CFG_def SDK_MAIN_MSG_REGIONAL_CFG_def SDK_MAIN_MSG_AWS_def

lemma recover_bit_ok:
  assumes "param_laws lib" "ch < 256" "st_ok lib st" "recover_bit lib ch i st = Some st'"
  shows "st_ok lib st'"
proof (cases "i = 11")
  case True
  then have "st_ok lib st' = st_ok lib (WRITE_LOG 0 0 (st\<lparr>params := adapt_param_set_user_array lib default_user_array (params st)\<rparr>))"
    using assms(4) by (simp add: recover_bit_def)
  then show ?thesis using st_ok_store [OF assms(1,3) default_users_ok] by blast
next
  case False
  then have "same_users lib st st'"
    using assms(4) by (auto simp: recover_bit_def set_defs msg_ids recover_ch_same [OF assms(1,2)] same_users_set [OF assms(1)]
        split: if_splits)
  then show ?thesis using same_users_ok assms(3) by blast
qed

lemma recover_bits_ok:
  "param_laws lib \<Longrightarrow> ch < 256 \<Longrightarrow> st_ok lib st \<Longrightarrow> st_ok lib (snd (recover_bits lib pm ch i n st))"
proof (induction n arbitrary: i st)
  case (Suc n)
  then show ?case using recover_bit_ok [of lib ch st i] by (auto split: option.split)
qed simp

lemma recovery_ok:
  "param_laws lib \<Longrightarrow> ch < 256 \<Longrightarrow> st_ok lib st \<Longrightarrow> st_ok lib (snd (adapt_param_recovery_param lib pm ch st))"
  using recover_bits_ok [of lib ch st pm 0 SDK_PARAM_MASK_BUIT]
  by (auto simp: adapt_param_recovery_param_def) (simp add: st_ok_def user_array_def)

lemma param_def_ok: "param_laws lib \<Longrightarrow> handler_ok lib i (main_msg_param_def lib)"
  unfolding handler_ok_def main_msg_param_def_def
  using recovery_ok by (auto simp: fit_msg_def case_prod_unfold Let_def)

section \<open>The users\<close>

lemma user_returns:
  "msg_user_aaa lib msg st = Some (ret, msg', st') \<Longrightarrow> ret = 0 \<or> ret = -1"
  "msg_user_add lib msg st = Some (ret, msg', st') \<Longrightarrow> ret = 0 \<or> ret = -1"
  "msg_user_del lib msg st = Some (ret, msg', st') \<Longrightarrow> ret = 0 \<or> ret = -1"
  "msg_user_modif lib msg st = Some (ret, msg', st') \<Longrightarrow> ret = 0 \<or> ret = -1"
  by (auto simp: msg_user_aaa_def msg_user_add_def msg_user_del_def msg_user_modif_def user_failed_def Let_def
      split: option.splits sum.splits if_splits)

lemma query_result:
  assumes "st_ok lib st" "msg_ok msg"
  shows "\<exists>msg'. msg_user_query lib msg st = Some (0, msg', st)"
  using query_loop_spec [of "user_array lib st" 0 MAX_USER_NUM 0 "msg_data msg"] assms
  by (force simp: msg_user_query_def st_ok_def msg_ok_def)

lemma user_ok:
  assumes "param_laws lib"
  shows "handler_ok lib 26 (main_msg_user lib)"
  unfolding handler_ok_def
proof (intro allI impI)
  fix msg and st :: "'a main_st"
  assume m: "fit_msg 26 msg" and st: "st_ok lib st"
  have ok: "msg_ok msg" using m by (simp add: fit_msg_def msg_ok_def user_sizes)
  consider "msg_args msg = 0" | "msg_args msg = 1" | "msg_args msg = 2" | "msg_args msg = 3" | "msg_args msg = 4"
    | "msg_args msg \<notin> {0, 1, 2, 3, 4}" by auto
  then show "\<exists>ret msg' st'. main_msg_user lib msg st = Some (ret, msg', st') \<and> (ret = 0 \<or> ret = -1) \<and> st_ok lib st'"
  proof cases
    case 1
    then show ?thesis using aaa_result [OF st ok] user_returns(1) by (simp add: main_msg_user_def) blast
  next
    case 2
    then show ?thesis using add_result [OF assms st ok] user_returns(2) by (fastforce simp: main_msg_user_def)
  next
    case 3
    then show ?thesis using del_result [OF assms st ok] user_returns(3) by (fastforce simp: main_msg_user_def)
  next
    case 4
    then show ?thesis using modif_result [OF assms st ok] user_returns(4) by (fastforce simp: main_msg_user_def)
  next
    case 5
    then show ?thesis using query_result [OF st ok] st by (auto simp: main_msg_user_def)
  next
    case 6
    then show ?thesis using st by (simp add: main_msg_user_def)
  qed
qed

section \<open>The dispatch\<close>

lemma modelled_handlers_ok:
  assumes "param_laws lib"
  shows "\<forall>(i, h) \<in> set (modelled_handlers lib). handler_ok lib i h"
  unfolding modelled_handlers_def main_msg_ptz_cfg_def main_msg_record_cfg_def main_msg_motion_cfg_def
    main_msg_alarm_in_cfg_def main_msg_hide_cfg_def main_msg_lost_cfg_def main_msg_manual_rec_def main_msg_manual_almin_def
    main_msg_platform_cfg_def main_msg_ddns_cfg_def main_alarm_sched_cfg_def main_regional_cfg_def main_iodev_cfg_def
    main_msg_aws_cfg_def set_defs
  by (simp add: param_def_ok user_ok chann_cfg_ok global_cfg_ok assms msg_ids adapt_param_get_chnum_def
      adapt_param_get_ana_chan_num_def)

text \<open>A message that is answered without a handler of the argument \<open>other\<close>.\<close>

definition known_msg :: "nat \<Rightarrow> bool" where
  "known_msg i \<longleftrightarrow> i \<in> set null_handlers \<or> SDK_MAIN_MSG_BUTT \<le> i \<or>
     i \<in> {4, 9, 15, 17, 18, 19, 20, 26, 35, 36, 39, 41, 50, 51, 52, 57}"

lemma known_handler:
  assumes "param_laws lib" "known_msg i" "i < SDK_MAIN_MSG_BUTT"
  shows "msg_desc lib other i = None \<or> (\<exists>h. msg_desc lib other i = Some h \<and> handler_ok lib i h)"
proof (cases "i \<in> set null_handlers")
  case False
  have "i \<in> fst ` set (modelled_handlers lib)"
    using assms(2,3) False by (auto simp: known_msg_def modelled_handlers_def)
  then obtain h where "map_of (modelled_handlers lib) i = Some h" by (metis map_of_eq_None_iff option.exhaust)
  then show ?thesis
    using False map_of_SomeD [of "modelled_handlers lib" i h] modelled_handlers_ok [OF assms(1)]
    by (auto simp: msg_desc_def)
qed (simp add: msg_desc_def)

definition answered :: "sdk_msg \<Rightarrow> int \<Rightarrow> sdk_msg \<Rightarrow> bool" where
  "answered msg ret msg' \<longleftrightarrow> msg_id msg' = msg_id msg \<and> msg_dir msg' = SDK_MSG_RESP \<and>
     (ret = 0 \<and> msg_ack msg' = SDK_ERR_SUCCESS \<or> ret = -1 \<and> msg_ack msg' = SDK_ERR_FAILURE)"

lemma dispatch_ok:
  assumes "param_laws lib" "known_msg (unat (msg_id msg))" "fit_msg (unat (msg_id msg)) msg" "st_ok lib st"
  shows "\<exists>ret msg' st'. msg_dispatch (msg_desc lib other) msg st = Some (ret, msg', st') \<and> st_ok lib st' \<and> answered msg ret msg'"
proof (cases "unat (msg_id msg) < SDK_MAIN_MSG_BUTT")
  case True
  show ?thesis
  proof (cases "msg_desc lib other (unat (msg_id msg))")
    case None
    then show ?thesis using True assms(4) by (simp add: msg_dispatch_def answered_def)
  next
    case (Some h)
    then have "handler_ok lib (unat (msg_id msg)) h" using known_handler [OF assms(1,2) True, of other] by simp
    moreover have "fit_msg (unat (msg_id msg)) (msg\<lparr>msg_ack := SDK_ERR_SUCCESS\<rparr>)" using assms(3) by (simp add: fit_msg_def)
    ultimately obtain ret msg' st' where
      "h (msg\<lparr>msg_ack := SDK_ERR_SUCCESS\<rparr>) st = Some (ret, msg', st')" "ret = 0 \<or> ret = -1" "st_ok lib st'"
      using assms(4) unfolding handler_ok_def by blast
    then show ?thesis using True Some by (auto simp: msg_dispatch_def answered_def)
  qed
qed (use assms(4) in \<open>simp add: msg_dispatch_def answered_def\<close>)

end
