(* ===== verification/UserFacts.thy ===== *)
theory UserFacts
  imports DispatchSafe
begin

text \<open>
  What the messages of the users, of the default parameters and of the configuration promise through the dispatch of
  the main program: the table of users keeps its form, a login succeeds exactly for a stored name and password, and
  the ways around it that the code leaves.
\<close>

section \<open>Sequences of messages\<close>

text \<open>One message and the state after it; the sequence of messages is a loop of such steps.\<close>

definition main_step :: "'p param_lib \<Rightarrow> (nat \<Rightarrow> 'p handler) \<Rightarrow> sdk_msg \<Rightarrow> 'p main_st \<Rightarrow> 'p main_st option" where
  "main_step lib other msg st = map_option (\<lambda>(ret, msg, st). st) (msg_dispatch (msg_desc lib other) msg st)"

definition good_msg :: "sdk_msg \<Rightarrow> bool" where
  "good_msg msg \<longleftrightarrow> known_msg (unat (msg_id msg)) \<and> fit_msg (unat (msg_id msg)) msg"

interpretation main_loop: safe_loop "\<lambda>st. param_laws lib \<and> st_ok lib st" good_msg "\<lambda>_. True" "main_step lib other"
  for lib :: "'p param_lib" and other
proof
  fix st :: "'p main_st" and msg
  assume "param_laws lib \<and> st_ok lib st" "good_msg msg"
  then show "\<exists>s'. main_step lib other msg st = Some s' \<and> param_laws lib \<and> st_ok lib s'"
    using dispatch_ok [of lib msg st other] by (auto simp: good_msg_def main_step_def)
qed

text \<open>A device with the default users, and a message.\<close>

definition sample_main_st :: "(cuint \<Rightarrow> byte list) main_st" where
  "sample_main_st = \<lparr>params = (\<lambda>_. [])(param_key 0 SDK_MAIN_MSG_USER := default_user_array), def_params = \<lambda>_. [],
     log_info = replicate 104 0, main_log = [], shell_cmds = []\<rparr>"

definition sample_msg :: "16 word \<Rightarrow> cuint \<Rightarrow> byte list \<Rightarrow> byte list \<Rightarrow> sdk_msg" where
  "sample_msg i args nm pw = \<lparr>msg_magic = 0, msg_version = 0, msg_id = i, msg_dir = 1, msg_ack = 0, msg_args = args,
     msg_extend = 0, msg_chann = 0, msg_size = 76,
     msg_data = nm @ replicate (32 - length nm) 0 @ pw @ replicate (10000 - length pw) 0\<rparr>"

lemma sample_st_ok: "st_ok table_lib sample_main_st" "user_array table_lib sample_main_st = default_user_array"
proof -
  show "user_array table_lib sample_main_st = default_user_array"
    by (simp add: user_array_def adapt_param_get_user_array_def sample_main_st_def table_lib_def default_users(1))
  then show "st_ok table_lib sample_main_st" by (simp add: st_ok_def default_users_ok) (simp add: sample_main_st_def)
qed

lemma cstr_pad: "0 \<notin> set s \<Longrightarrow> cstr (s @ replicate n 0) = s"
  by (cases n) (simp_all add: cstr_no0, auto simp: cstr_def takeWhile_eq_all_conv)

lemma sample_msg_ok:
  assumes "length nm < 32" "length pw < 32" "0 \<notin> set nm" "0 \<notin> set pw"
  shows "fit_msg i (sample_msg j args nm pw)" "entry_name (msg_data (sample_msg j args nm pw)) = nm"
    "entry_pwd (msg_data (sample_msg j args nm pw)) = pw"
proof -
  have s: "slice 0 32 (msg_data (sample_msg j args nm pw)) = nm @ replicate (32 - length nm) 0"
    "slice off_pwd 32 (msg_data (sample_msg j args nm pw)) = pw @ replicate (32 - length pw) 0"
    using assms(1,2) by (simp_all add: slice_def sample_msg_def off_pwd_def min_def)
  then show "fit_msg i (sample_msg j args nm pw)"
    using assms(1,2) by (simp add: fit_msg_def entry_ok_def) (simp add: sample_msg_def)
  show "entry_name (msg_data (sample_msg j args nm pw)) = nm" "entry_pwd (msg_data (sample_msg j args nm pw)) = pw"
    using assms(3,4) by (simp_all add: entry_name_def entry_pwd_def s cstr_pad)
qed

section \<open>Properties\<close>

text \<open>C15: Any sequence of messages that fit (a channel below 256, a buffer for every structure, ended strings in the
  messages of the users) to the modelled handlers, or to none, is answered without an access outside the message and
  the table of users, and the table keeps its form: every name and password ends in its field, the first user is
  admin, and no two users have the same name.\<close>

theorem main_messages_ok:
  assumes "param_laws lib" "st_ok lib st" "\<forall>msg \<in> set msgs. good_msg msg"
  shows "\<exists>st'. run_steps (\<lambda>_. True) (main_step lib other) msgs st = Some st' \<and> st_ok lib st'"
  using main_loop.run_safe [of lib st msgs other] assms by auto

lemma main_messages_ok_witness:
  "\<exists>st'. run_steps (\<lambda>_. True) (main_step table_lib (\<lambda>_. main_msg_def))
     [sample_msg 26 1 [98, 111, 98] [49], sample_msg 26 0 [98, 111, 98] [49], sample_msg 0 0 [] []] sample_main_st = Some st' \<and>
   st_ok table_lib st'"
  by (rule main_messages_ok [OF table_laws sample_st_ok(1)])
    (auto simp: good_msg_def sample_msg_ok known_msg_def null_handlers_def, simp_all add: sample_msg_def)

text \<open>The dispatch of a message of the users.\<close>

lemma user_dispatch:
  assumes "msg_id msg = 26" "main_msg_user lib (msg\<lparr>msg_ack := SDK_ERR_SUCCESS\<rparr>) st = Some (ret, msg', st')"
    "ret = 0 \<or> ret = -1"
  shows "\<exists>msg''. msg_dispatch (msg_desc lib other) msg st = Some (ret, msg'', st')"
  using assms by (auto simp: msg_dispatch_def msg_desc_def null_handlers_def modelled_handlers_def SDK_MAIN_MSG_BUTT_def)

definition login :: "'p param_lib \<Rightarrow> 'p main_st \<Rightarrow> sdk_msg \<Rightarrow> bool" where
  "login lib st msg \<longleftrightarrow> (\<exists>i < MAX_USER_NUM.
     entry_name (entry (user_array lib st) i) = entry_name (msg_data msg) \<and>
     entry_pwd (entry (user_array lib st) i) = entry_pwd (msg_data msg) \<and>
     (\<forall>j < i. entry_name (entry (user_array lib st) j) \<noteq> entry_name (msg_data msg)))"

lemma fit_msg_ok: "fit_msg 26 msg \<Longrightarrow> msg_ok (msg\<lparr>msg_ack := a\<rparr>)"
  by (simp add: fit_msg_def msg_ok_def user_sizes)

lemma login_dispatch:
  assumes "st_ok lib st" "msg_id msg = 26" "msg_args msg = 0" "fit_msg 26 msg"
  shows "\<exists>ret msg' st'. msg_dispatch (msg_desc lib other) msg st = Some (ret, msg', st') \<and> params st' = params st \<and>
    (ret = 0 \<longleftrightarrow> login lib st msg)"
proof -
  obtain ret msg' st' where r: "msg_user_aaa lib (msg\<lparr>msg_ack := SDK_ERR_SUCCESS\<rparr>) st = Some (ret, msg', st')"
    "params st' = params st" "ret = 0 \<longleftrightarrow> login lib st msg"
    using aaa_result [OF assms(1) fit_msg_ok [OF assms(4)], of SDK_ERR_SUCCESS] unfolding login_def by auto
  then have "main_msg_user lib (msg\<lparr>msg_ack := SDK_ERR_SUCCESS\<rparr>) st = Some (ret, msg', st')"
    using assms(3) by (simp add: main_msg_user_def)
  then show ?thesis using user_dispatch [OF assms(2)] user_returns(1) [OF r(1)] r(2,3) by blast
qed

lemma login_unique:
  assumes "users_ok (user_array lib st)" "entry_name (msg_data msg) \<noteq> []"
  shows "login lib st msg \<longleftrightarrow> (\<exists>i < MAX_USER_NUM. entry_name (entry (user_array lib st) i) = entry_name (msg_data msg) \<and>
     entry_pwd (entry (user_array lib st) i) = entry_pwd (msg_data msg))"
proof
  assume "\<exists>i < MAX_USER_NUM. entry_name (entry (user_array lib st) i) = entry_name (msg_data msg) \<and>
     entry_pwd (entry (user_array lib st) i) = entry_pwd (msg_data msg)"
  then obtain i where i: "i < MAX_USER_NUM" "entry_name (entry (user_array lib st) i) = entry_name (msg_data msg)"
    "entry_pwd (entry (user_array lib st) i) = entry_pwd (msg_data msg)" by blast
  have "entry_name (entry (user_array lib st) j) \<noteq> entry_name (msg_data msg)" if "j < i" for j
  proof
    assume "entry_name (entry (user_array lib st) j) = entry_name (msg_data msg)"
    then have "j = i" using assms i(1,2) that unfolding users_ok_def by (metis less_trans)
    then show False using that by simp
  qed
  then show "login lib st msg" using i unfolding login_def by blast
qed (auto simp: login_def)

text \<open>C16: A login with a name succeeds exactly when the table holds a user with that name and that password, and it
  changes no parameter.\<close>

theorem login_correct:
  assumes "st_ok lib st" "msg_id msg = 26" "msg_args msg = 0" "fit_msg 26 msg" "entry_name (msg_data msg) \<noteq> []"
  shows "\<exists>ret msg' st'. msg_dispatch (msg_desc lib other) msg st = Some (ret, msg', st') \<and> params st' = params st \<and>
    (ret = 0 \<longleftrightarrow> (\<exists>i < MAX_USER_NUM. entry_name (entry (user_array lib st) i) = entry_name (msg_data msg) \<and>
       entry_pwd (entry (user_array lib st) i) = entry_pwd (msg_data msg)))"
  using login_dispatch [OF assms(1-4), of other] login_unique [of lib st msg] assms(1,5) by (simp add: st_ok_def)

lemma login_correct_witness:
  "\<exists>ret msg' st'. msg_dispatch (msg_desc table_lib (\<lambda>_. main_msg_def)) (sample_msg 26 0 admin_str admin_str) sample_main_st =
       Some (ret, msg', st') \<and> params st' = params sample_main_st \<and>
    (ret = 0 \<longleftrightarrow> (\<exists>i < MAX_USER_NUM. entry_name (entry default_user_array i) = admin_str \<and>
       entry_pwd (entry default_user_array i) = admin_str))"
proof -
  have s: "fit_msg 26 (sample_msg 26 0 admin_str admin_str)"
    "entry_name (msg_data (sample_msg 26 0 admin_str admin_str)) = admin_str"
    "entry_pwd (msg_data (sample_msg 26 0 admin_str admin_str)) = admin_str"
    by (simp_all add: sample_msg_ok admin_str_def)
  have "msg_id (sample_msg 26 0 admin_str admin_str) = 26" "msg_args (sample_msg 26 0 admin_str admin_str) = 0"
    "admin_str \<noteq> []" by (simp_all add: sample_msg_def admin_str_def)
  then show ?thesis
    using login_correct [OF sample_st_ok(1) _ _ s(1), of "\<lambda>_. main_msg_def"] by (simp add: s(2,3) sample_st_ok(2))
qed

text \<open>A stored entry decides about the logins with its name.\<close>

lemma login_stored:
  assumes "st_ok lib st'" "stores lib st st' i e" "entry_name e \<noteq> []" "entry_name (msg_data msg) = entry_name e"
  shows "login lib st' msg \<longleftrightarrow> entry_pwd (msg_data msg) = entry_pwd e"
proof -
  have U: "users_ok (user_array lib st')" using assms(1) by (simp add: st_ok_def)
  have e: "i < MAX_USER_NUM" "entry (user_array lib st') i = e" using assms(2) by (simp_all add: stores_def)
  then have "entry_name (entry (user_array lib st') j) = entry_name e \<Longrightarrow> j < MAX_USER_NUM \<Longrightarrow> j = i" for j
    using U assms(3) unfolding users_ok_def by metis
  then show ?thesis using login_unique [OF U, of msg] assms(3,4) e by metis
qed

lemma user_dispatch_inv:
  assumes "msg_id msg = 26" "msg_dispatch (msg_desc lib other) msg st = Some (0, msg', st')"
  shows "\<exists>ret msg''. main_msg_user lib (msg\<lparr>msg_ack := SDK_ERR_SUCCESS\<rparr>) st = Some (ret, msg'', st') \<and> 0 \<le> ret"
  using assms by (auto simp: msg_dispatch_def msg_desc_def null_handlers_def modelled_handlers_def SDK_MAIN_MSG_BUTT_def Let_def
      split: option.splits if_splits)

text \<open>C17: After a user has been added or its entry modified, a login with the name succeeds with the password of that
  message and with no other.\<close>

theorem stored_user_logs_in:
  assumes "param_laws lib" "st_ok lib st" "msg_id msg = 26" "msg_args msg \<in> {1, 3}" "fit_msg 26 msg"
    "entry_name (msg_data msg) \<noteq> []" "msg_dispatch (msg_desc lib other) msg st = Some (0, msg', st')"
    and "msg_id msg2 = 26" "msg_args msg2 = 0" "fit_msg 26 msg2" "entry_name (msg_data msg2) = entry_name (msg_data msg)"
  shows "\<exists>ret msg'' st''. msg_dispatch (msg_desc lib other) msg2 st' = Some (ret, msg'', st'') \<and>
    (ret = 0 \<longleftrightarrow> entry_pwd (msg_data msg2) = entry_pwd (msg_data msg))"
proof -
  let ?msg = "msg\<lparr>msg_ack := SDK_ERR_SUCCESS\<rparr>"
  obtain ret msg'' where h: "main_msg_user lib ?msg st = Some (ret, msg'', st')" "0 \<le> ret"
    using user_dispatch_inv [OF assms(3,7)] by blast
  have ok: "msg_ok ?msg" using fit_msg_ok [OF assms(5)] .
  obtain i e where e: "st_ok lib st'" "stores lib st st' i e" "entry_name e = entry_name (msg_data msg)"
    "entry_pwd e = entry_pwd (msg_data msg)"
  proof (cases "msg_args msg = 1")
    case True
    then have a: "msg_user_add lib ?msg st = Some (ret, msg'', st')" using h(1) by (simp add: main_msg_user_def)
    then have "ret = 0" using user_returns(2) h(2) by force
    then show ?thesis using add_result [OF assms(1,2) ok] a that [of _ "take user_right_size (msg_data msg)"] by auto
  next
    case False
    then have a: "msg_user_modif lib ?msg st = Some (ret, msg'', st')" using h(1) assms(4) by (simp add: main_msg_user_def)
    then have "ret = 0" using user_returns(4) h(2) by force
    then show ?thesis using modif_result [OF assms(1,2) ok] a that by auto
  qed
  show ?thesis
    using login_dispatch [OF e(1) assms(8-10)] login_stored [OF e(1,2)] assms(6,11) e(3,4) by metis
qed

lemma sample_add:
  "\<exists>msg' st'. msg_dispatch (msg_desc table_lib other) (sample_msg 26 1 [98, 111, 98] [49]) sample_main_st = Some (0, msg', st')"
proof -
  let ?msg = "sample_msg 26 1 [98, 111, 98] [49]"
  have s: "fit_msg 26 ?msg" "entry_name (msg_data ?msg) = [98, 111, 98]" by (simp_all add: sample_msg_ok)
  have "entry_name (entry default_user_array j) \<noteq> [98, 111, 98]" if "j < MAX_USER_NUM" for j
  proof -
    consider "j = 0" | "j = 1" | "2 \<le> j" by linarith
    then show ?thesis by cases (use that default_entry in \<open>simp_all add: admin_str_def numeral_eq_Suc\<close>)
  qed
  moreover have "\<exists>j < MAX_USER_NUM. entry_name (entry default_user_array j) = []"
    using default_entry(5) [of 2] by (intro exI [of _ 2]) (simp add: MAX_USER_NUM_def)
  ultimately obtain msg' st' where
    "msg_user_add table_lib (?msg\<lparr>msg_ack := SDK_ERR_SUCCESS\<rparr>) sample_main_st = Some (0, msg', st')"
    using add_result [OF table_laws sample_st_ok(1) fit_msg_ok [OF s(1)], of SDK_ERR_SUCCESS] s(2)
    by (auto simp: sample_st_ok(2))
  then have "main_msg_user table_lib (?msg\<lparr>msg_ack := SDK_ERR_SUCCESS\<rparr>) sample_main_st = Some (0, msg', st')"
    by (simp add: main_msg_user_def) (simp add: sample_msg_def)
  moreover have "msg_id ?msg = 26" by (simp add: sample_msg_def)
  ultimately show ?thesis using user_dispatch [of ?msg] by blast
qed

lemma stored_user_logs_in_witness:
  "\<exists>msg' st' ret msg'' st''.
     msg_dispatch (msg_desc table_lib (\<lambda>_. main_msg_def)) (sample_msg 26 1 [98, 111, 98] [49]) sample_main_st = Some (0, msg', st') \<and>
     msg_dispatch (msg_desc table_lib (\<lambda>_. main_msg_def)) (sample_msg 26 0 [98, 111, 98] [50]) st' = Some (ret, msg'', st'') \<and>
     ret \<noteq> 0"
proof -
  obtain msg' st' where a:
    "msg_dispatch (msg_desc table_lib (\<lambda>_. main_msg_def)) (sample_msg 26 1 [98, 111, 98] [49]) sample_main_st = Some (0, msg', st')"
    using sample_add by blast
  have s: "fit_msg 26 (sample_msg 26 k [98, 111, 98] [p])" "entry_name (msg_data (sample_msg 26 k [98, 111, 98] [p])) = [98, 111, 98]"
    "entry_pwd (msg_data (sample_msg 26 k [98, 111, 98] [p])) = [p]" if "p \<noteq> 0" for k p
    using that by (simp_all add: sample_msg_ok)
  have i: "msg_id (sample_msg 26 k n q) = 26" "msg_args (sample_msg 26 k n q) = k" for k n q by (simp_all add: sample_msg_def)
  show ?thesis
    using stored_user_logs_in [OF table_laws sample_st_ok(1) i(1) _ s(1) _ a i(1) i(2) s(1) [of 50]] a by (simp add: s i)
qed

text \<open>With a free entry in the table (one without a name and password), a login with an empty name and an empty
  password succeeds.\<close>

theorem empty_login_succeeds:
  assumes "st_ok lib st" "msg_id msg = 26" "msg_args msg = 0" "fit_msg 26 msg"
    and "entry_name (msg_data msg) = []" "entry_pwd (msg_data msg) = []"
    and "i < MAX_USER_NUM" "entry_name (entry (user_array lib st) i) = []" "entry_pwd (entry (user_array lib st) i) = []"
    and "\<forall>j < i. entry_name (entry (user_array lib st) j) \<noteq> []"
  shows "\<exists>msg' st'. msg_dispatch (msg_desc lib other) msg st = Some (0, msg', st')"
proof -
  have "login lib st msg" using assms(5-10) unfolding login_def by auto
  then show ?thesis using login_dispatch [OF assms(1-4), of other] by auto
qed

lemma empty_login_succeeds_witness:
  "\<exists>msg' st'. msg_dispatch (msg_desc table_lib (\<lambda>_. main_msg_def)) (sample_msg 26 0 [] []) sample_main_st = Some (0, msg', st')"
proof -
  have "entry_pwd (entry default_user_array 2) = []"
    using default_entries(4) [of 184] cstr_pad [of "[]" 32]
    by (simp add: entry_pwd_def entry_def slice_slice off_pwd_def user_right_size_def user_array_size_def MAX_USER_NUM_def)
  moreover have "entry_name (entry default_user_array j) \<noteq> []" if "j < 2" for j
  proof -
    have "j = 0 \<or> j = 1" using that by auto
    then show ?thesis using default_entry(1,3) by (auto simp: admin_str_def)
  qed
  ultimately show ?thesis
    using empty_login_succeeds [OF sample_st_ok(1), of "sample_msg 26 0 [] []" 2 "\<lambda>_. main_msg_def"] default_entry(5) [of 2]
      sample_msg_ok [of "[]" "[]"]
    by (simp add: sample_st_ok(2) MAX_USER_NUM_def) (simp add: sample_msg_def)
qed

text \<open>Reset of the users to their default.\<close>

lemma recover_bits_numeral:
  "recover_bits lib pm ch i (numeral v) st =
     (if bit pm i then (case recover_bit lib ch i st of None \<Rightarrow> (-1, st) | Some st \<Rightarrow> recover_bits lib pm ch (Suc i) (pred_numeral v) st)
      else recover_bits lib pm ch (Suc i) (pred_numeral v) st)"
  by (simp add: numeral_eq_Suc and_one_eq odd_iff_mod_2_eq_one bit_iff_odd_drop_bit)

lemma bit_0x800: "bit (0x800 :: cuint) i \<longleftrightarrow> i = 11"
proof -
  have "(0x800 :: cuint) = 2 ^ 11" by simp
  then show ?thesis by (simp only: bit_exp_iff) auto
qed

lemma recovery_user_bit:
  "adapt_param_recovery_param lib 0x800 ch st = (0, st\<lparr>params := adapt_param_set_user_array lib default_user_array (params st)\<rparr>)"
  by (simp add: adapt_param_recovery_param_def PARAM_MASK_ALL_def SDK_PARAM_MASK_BUIT_def recover_bits_numeral bit_0x800
      recover_bit_def)

lemma recovery_dispatch:
  assumes "msg_id msg = 4" "8 \<le> length (msg_data msg)" "get32 (msg_data msg) = 0x800"
  shows "\<exists>msg'. msg_dispatch (msg_desc lib other) msg st = Some (0, msg',
    WRITE_LOG LOG_MAJOR_OPERATE 8 (st\<lparr>params := adapt_param_set_user_array lib default_user_array (params st)\<rparr>))"
  using assms by (auto simp: msg_dispatch_def msg_desc_def null_handlers_def modelled_handlers_def SDK_MAIN_MSG_BUTT_def
      main_msg_param_def_def recovery_user_bit)

text \<open>C39: After the users have been set back to their default, a login whose name is 29 bytes of value 1, with an empty
  password, succeeds: the loop over the channel rights of the root user writes the name of a second user.\<close>

theorem recovery_backdoor:
  assumes "param_laws lib" "st_ok lib st" "msg_id msg = 4" "8 \<le> length (msg_data msg)" "get32 (msg_data msg) = 0x800"
    and "msg_id msg2 = 26" "msg_args msg2 = 0" "fit_msg 26 msg2"
    and "entry_name (msg_data msg2) = replicate 29 1" "entry_pwd (msg_data msg2) = []"
  shows "\<exists>msg' st' msg'' st''. msg_dispatch (msg_desc lib other) msg st = Some (0, msg', st') \<and>
    msg_dispatch (msg_desc lib other) msg2 st' = Some (0, msg'', st'')"
proof -
  let ?st = "WRITE_LOG LOG_MAJOR_OPERATE 8 (st\<lparr>params := adapt_param_set_user_array lib default_user_array (params st)\<rparr>)"
  have st: "st_ok lib ?st" "user_array lib ?st = default_user_array"
    using st_ok_store [OF assms(1,2) default_users_ok] by blast+
  have "1 < MAX_USER_NUM" "entry_name (msg_data msg2) \<noteq> []" using assms(9) by (simp_all add: MAX_USER_NUM_def)
  then have "login lib ?st msg2"
    using login_unique [of lib ?st msg2] default_entry(3,4) default_users_ok assms(9,10) unfolding st(2) by auto
  then show ?thesis using login_dispatch [OF st(1) assms(6-8), of other] recovery_dispatch [OF assms(3-5), of lib other st] by blast
qed

lemma recovery_backdoor_witness:
  "\<exists>msg' st' msg'' st''. msg_dispatch (msg_desc table_lib (\<lambda>_. main_msg_def)) (sample_msg 4 0 [0, 8] []) sample_main_st = Some (0, msg', st') \<and>
    msg_dispatch (msg_desc table_lib (\<lambda>_. main_msg_def)) (sample_msg 26 0 (replicate 29 1) []) st' = Some (0, msg'', st'')"
proof -
  have "fit_msg 26 (sample_msg 26 0 (replicate 29 1) [])" "entry_name (msg_data (sample_msg 26 0 (replicate 29 1) [])) = replicate 29 1"
    "entry_pwd (msg_data (sample_msg 26 0 (replicate 29 1) [])) = []"
    using sample_msg_ok [of "replicate 29 1" "[]"] by simp_all
  moreover have "get32 (msg_data (sample_msg 4 0 [0, 8] [])) = 0x800"
    using replicate_Suc [of 29 "0 :: byte"] replicate_Suc [of 28 "0 :: byte"] by (simp add: sample_msg_def)
  moreover have "msg_id (sample_msg i a n q) = i" "msg_args (sample_msg i a n q) = a" "8 \<le> length (msg_data (sample_msg i a n q))" for i a n q
    by (simp_all add: sample_msg_def)
  ultimately show ?thesis by (intro recovery_backdoor [OF table_laws sample_st_ok(1)])
qed

section \<open>Configuration messages\<close>

text \<open>A message that sets the alarm input of channel 2048 stores its bytes under the key of the table of users, so a
  client that may set an alarm input writes the users.\<close>

theorem channel_reaches_users:
  assumes "param_laws lib" "msg_id msg = 18" "msg_args msg = SDK_PARAM_SET" "msg_chann msg = 2048" "340 \<le> length (msg_data msg)"
  shows "\<exists>msg' st'. msg_dispatch (msg_desc lib other) msg st = Some (0, msg', st') \<and>
    adapt_param_get_user_array lib 340 (params st') = take 340 (msg_data msg)"
proof -
  have "param_key 2048 SDK_MAIN_MSG_ALARM_IN_CFG = param_key 0 SDK_MAIN_MSG_USER"
    by (simp add: param_key_def SDK_MAIN_MSG_ALARM_IN_CFG_def SDK_MAIN_MSG_USER_def)
  then show ?thesis
    using assms(2-5) plget_same [OF assms(1), of "replicate 340 0" "take 340 (msg_data msg)"]
    by (auto simp: msg_dispatch_def msg_desc_def null_handlers_def modelled_handlers_def SDK_MAIN_MSG_BUTT_def
        main_msg_alarm_in_cfg_def cfg_defs adapt_param_set_alarm_in_cfg_def CHANN_TYPE_ALL_def adapt_param_get_user_array_def Let_def)
qed

lemma channel_reaches_users_witness:
  "\<exists>msg' st'. msg_dispatch (msg_desc table_lib (\<lambda>_. main_msg_def)) (sample_msg 18 1 [109, 101] []\<lparr>msg_chann := 2048\<rparr>) sample_main_st = Some (0, msg', st') \<and>
    adapt_param_get_user_array table_lib 340 (params st') = 109 # 101 # replicate 338 0"
proof -
  have "take 340 (msg_data (sample_msg 18 1 [109, 101] []\<lparr>msg_chann := 2048\<rparr>)) = 109 # 101 # replicate 338 0"
    by (simp add: sample_msg_def replicate_add [symmetric])
  then show ?thesis
    using channel_reaches_users [OF table_laws, of "sample_msg 18 1 [109, 101] []\<lparr>msg_chann := 2048\<rparr>"]
    by (simp add: sample_msg_def SDK_PARAM_SET_def)
qed

text \<open>Setting a configuration for all the channels is acknowledged as a success and changes no parameter: the number
  of channels it loops over is 0.\<close>

theorem all_channels_set_is_lost:
  assumes "unat (msg_id msg) \<in> {9, 15, 17, 18, 19, 20}" "msg_args msg = SDK_PARAM_SET" "msg_chann msg = CHANN_TYPE_ALL"
  shows "\<exists>msg' st'. msg_dispatch (msg_desc lib other) msg st = Some (0, msg', st') \<and>
    msg_ack msg' = SDK_ERR_SUCCESS \<and> params st' = params st"
  using assms
  by (auto simp: msg_dispatch_def msg_desc_def null_handlers_def modelled_handlers_def SDK_MAIN_MSG_BUTT_def cfg_defs Let_def
      main_msg_ptz_cfg_def main_msg_record_cfg_def main_msg_motion_cfg_def main_msg_alarm_in_cfg_def main_msg_hide_cfg_def
      main_msg_lost_cfg_def adapt_param_get_chnum_def adapt_param_get_ana_chan_num_def)

lemma all_channels_set_is_lost_witness:
  "\<exists>msg' st'. msg_dispatch (msg_desc table_lib (\<lambda>_. main_msg_def)) (sample_msg 15 1 [] []\<lparr>msg_chann := 0xFA\<rparr>) sample_main_st = Some (0, msg', st') \<and>
    msg_ack msg' = SDK_ERR_SUCCESS \<and> params st' = params sample_main_st"
  by (rule all_channels_set_is_lost) (simp_all add: sample_msg_def SDK_PARAM_SET_def CHANN_TYPE_ALL_def)

text \<open>A user whose name is a prefix of admin can be added and log in, but never be deleted.\<close>

theorem prefix_user_not_deleted:
  assumes "msg_id msg = 26" "msg_args msg = 2" "fit_msg 26 msg" "prefix (entry_name (msg_data msg)) admin_str"
  shows "\<exists>msg'. msg_dispatch (msg_desc lib other) msg st = Some (-1, msg', st)"
proof -
  let ?d = "msg_data msg" and ?msg = "msg\<lparr>msg_ack := SDK_ERR_SUCCESS\<rparr>"
  note s = msg_strings [OF fit_msg_ok [OF assms(3)], of SDK_ERR_SUCCESS]
  obtain r where "admin_str = cstr ?d @ r" using assms(4) s(2) by (auto simp: prefix_def)
  then have "take (length (cstr ?d)) ?d = take (length (cstr ?d)) (admin_str @ [0])"
    unfolding take_cstr \<open>admin_str = cstr ?d @ r\<close> by simp
  then have "main_msg_user lib ?msg st = Some (-1, ?msg\<lparr>msg_ack := SDK_ERR_ROOT_USER, msg_size := 0\<rparr>, st)"
    using assms(2) strlen_cstr [OF s(1)] by (simp add: main_msg_user_def msg_user_del_def user_failed_def)
  then show ?thesis using user_dispatch [OF assms(1)] by blast
qed

lemma prefix_user_not_deleted_witness:
  "\<exists>msg'. msg_dispatch (msg_desc table_lib (\<lambda>_. main_msg_def)) (sample_msg 26 2 [97, 100] [49]) sample_main_st = Some (-1, msg', sample_main_st)"
  by (rule prefix_user_not_deleted) (simp_all add: sample_msg_ok admin_str_def, simp_all add: sample_msg_def)

end
