(* ===== verification/Wrapper.thy ===== *)
theory Wrapper
  imports Prelude
begin

text \<open>
  The functions of \<^verbatim>\<open>misc/src/wrapper.c\<close> that compute something: complete writes and reads over partial ones,
  copying of a file, the checks of an IP and a MAC address, and the conversion of numbers. What a \<^verbatim>\<open>write\<close> or a
  \<^verbatim>\<open>read\<close> answers is a list; \<open>None\<close> is a call for which the list has no answer. Strings are without their NUL.
\<close>

section \<open>Partial writes and reads\<close>

text \<open>A call moves so many bytes, or fails and sets \<^verbatim>\<open>errno\<close>. A call that moves bytes leaves \<^verbatim>\<open>errno\<close> alone.\<close>

datatype io_answer = Moved nat | Failed nat

definition EINTR :: nat where "EINTR = 4"
definition EIO :: nat where "EIO = 5"

text \<open>The result, \<^verbatim>\<open>errno\<close> afterwards, and the bytes that have been written.\<close>

fun writen_loop :: "int \<Rightarrow> io_answer list \<Rightarrow> nat \<Rightarrow> byte list \<Rightarrow> (int \<times> nat \<times> byte list) option" where
  "writen_loop n ans err [] = Some (n, err, [])"
| "writen_loop n [] err (b # bs) = None"
| "writen_loop n (a # ans) err (b # bs) =
     (let (k, err) = (case a of Moved k \<Rightarrow> (min k (length (b # bs)), err) | Failed e \<Rightarrow> (0, e)) in
      if k = 0 \<and> err \<noteq> EINTR then Some (-1, err, [])
      else if err = EIO then Some (-1, err, take k (b # bs))
      else (case writen_loop n ans err (drop k (b # bs)) of
              None \<Rightarrow> None
            | Some (ret, err, out) \<Rightarrow> Some (ret, err, take k (b # bs) @ out)))"

definition os_writen :: "io_answer list \<Rightarrow> nat \<Rightarrow> byte list \<Rightarrow> (int \<times> nat \<times> byte list) option" where
  "os_writen ans err bs = writen_loop (int (length bs)) ans err bs"

text \<open>The result, the bytes that have been read, and what is left of the source.\<close>

fun readn_loop :: "nat \<Rightarrow> nat \<Rightarrow> io_answer list \<Rightarrow> byte list \<Rightarrow> (int \<times> byte list \<times> byte list) option" where
  "readn_loop n nleft [] src = (if nleft = 0 then Some (int n, [], src) else None)"
| "readn_loop n nleft (a # ans) src =
     (if nleft = 0 then Some (int n, [], src)
      else case a of
          Failed e \<Rightarrow> if e = EINTR then readn_loop n nleft ans src else Some (-1, [], src)
        | Moved k \<Rightarrow>
            (let k = min k (min nleft (length src)) in
             if k = 0 then Some (int n - int nleft, [], src)
             else case readn_loop n (nleft - k) ans (drop k src) of
                 None \<Rightarrow> None
               | Some (ret, bs, src') \<Rightarrow> Some (ret, take k src @ bs, src')))"

definition os_readn :: "io_answer list \<Rightarrow> nat \<Rightarrow> byte list \<Rightarrow> (int \<times> byte list \<times> byte list) option" where
  "os_readn ans n src = readn_loop n n ans src"

section \<open>Copying a file\<close>

text \<open>The regular files by path, and the paths that can be opened for writing. Two paths are one file when they are
  equal.\<close>

record files =
  contents :: "string \<Rightarrow> byte list option"
  writable :: "string \<Rightarrow> bool"

definition BUCKET_SIZE :: nat where "BUCKET_SIZE = 8192"

text \<open>The answers of the write of each round; reads of a regular file are complete.\<close>

fun copy_loop :: "nat \<Rightarrow> (nat \<Rightarrow> io_answer list) \<Rightarrow> nat \<Rightarrow> nat \<Rightarrow> byte list \<Rightarrow> (int \<times> byte list) option" where
  "copy_loop 0 ans i err src = None"
| "copy_loop (Suc fuel) ans i err src =
     (let copylen = min (length src) BUCKET_SIZE in
      case os_writen (ans i) err (take copylen src) of
        None \<Rightarrow> None
      | Some (ret, err, out) \<Rightarrow>
          if ret < 0 then Some (-1, out)
          else if length src - copylen = 0 then Some (0, out)
          else (case copy_loop fuel ans (Suc i) err (drop copylen src) of
                  None \<Rightarrow> None
                | Some (ret, out') \<Rightarrow> Some (ret, out @ out')))"

definition os_copy_file :: "(nat \<Rightarrow> io_answer list) \<Rightarrow> nat \<Rightarrow> string \<Rightarrow> string \<Rightarrow> int \<Rightarrow> files \<Rightarrow> (int \<times> files) option" where
  "os_copy_file ans err oldpath newpath flag fs =
     (let skip = (if flag = 1 then
                    (case contents fs newpath of
                       None \<Rightarrow> None
                     | Some new \<Rightarrow> (case contents fs oldpath of
                           None \<Rightarrow> Some (-1)
                         | Some old \<Rightarrow> if length old = length new then Some 0 else None))
                  else None)
      in case skip of
           Some ret \<Rightarrow> Some (ret, fs)
         | None \<Rightarrow>
             (case contents fs oldpath of
                None \<Rightarrow> Some (-1, fs)
              | Some old \<Rightarrow>
                  if newpath = oldpath then Some (0, fs)
                  else if \<not> writable fs newpath then Some (-1, fs)
                  else (case copy_loop (Suc (length old)) ans 0 err old of
                          None \<Rightarrow> None
                        | Some (ret, out) \<Rightarrow> Some (ret, fs\<lparr>contents := (contents fs)(newpath \<mapsto> out)\<rparr>))))"

section \<open>Addresses\<close>

text \<open>\<^verbatim>\<open>strsep\<close> with one delimiter: the token, and the string behind the delimiter if there is one.\<close>

definition strsep :: "char \<Rightarrow> string \<Rightarrow> string \<times> string option" where
  "strsep c s = (takeWhile (\<lambda>x. x \<noteq> c) s, case dropWhile (\<lambda>x. x \<noteq> c) s of [] \<Rightarrow> None | _ # r \<Rightarrow> Some r)"

lemma strsep_less: "strsep c s = (t, Some r) \<Longrightarrow> length r < length s"
  using length_dropWhile_le [of "\<lambda>x. x \<noteq> c" s] by (auto simp: strsep_def split: list.splits)

function os_strsep :: "char \<Rightarrow> string option \<Rightarrow> (string \<times> string option) option" where
  "os_strsep c None = None"
| "os_strsep c (Some s) = (let (t, r) = strsep c s in if t = [] then os_strsep c r else Some (t, r))"
  by pat_completeness auto
termination
  by (relation "measure (\<lambda>(c, p). case p of None \<Rightarrow> 0 | Some s \<Rightarrow> Suc (length s))")
    (auto dest: strsep_less [OF sym] split: option.splits)

text \<open>The scan of the characters counts the dots; \<open>None\<close> is a character that is neither a digit nor a dot.\<close>

fun ip_scan :: "string \<Rightarrow> nat \<Rightarrow> nat option" where
  "ip_scan [] flag = Some flag"
| "ip_scan (c # cs) flag =
     (if is_digit_char c then ip_scan cs flag else if c = CHR ''.'' then ip_scan cs (flag + 1) else None)"

fun ip_tokens :: "nat \<Rightarrow> string option \<Rightarrow> int" where
  "ip_tokens 0 p = 0"
| "ip_tokens (Suc n) p =
     (case os_strsep (CHR ''.'') p of
        None \<Rightarrow> -1
      | Some (tmp, p) \<Rightarrow>
          if atoi tmp > 255 \<or> length tmp > 3 \<or> hd tmp = CHR ''0'' \<and> length tmp \<noteq> 1 then -1 else ip_tokens n p)"

definition os_check_ip_addr :: "string \<Rightarrow> int" where
  "os_check_ip_addr ipaddr =
     (if length ipaddr > 15 then -1
      else case ip_scan ipaddr 0 of
          None \<Rightarrow> -1
        | Some flag \<Rightarrow> if flag \<noteq> 3 then -1 else ip_tokens 4 (Some ipaddr))"

definition is_hex_char :: "char \<Rightarrow> bool" where
  "is_hex_char c \<longleftrightarrow> is_digit_char c \<or> 97 \<le> (of_char c :: nat) \<and> (of_char c :: nat) \<le> 102 \<or>
     65 \<le> (of_char c :: nat) \<and> (of_char c :: nat) \<le> 70"

fun mac_scan :: "string \<Rightarrow> nat \<Rightarrow> nat option" where
  "mac_scan [] flag = Some flag"
| "mac_scan (c # cs) flag =
     (if is_hex_char c then mac_scan cs flag else if c = CHR '':'' then mac_scan cs (flag + 1) else None)"

definition os_check_mac_addr :: "string option \<Rightarrow> int" where
  "os_check_mac_addr macaddr =
     (case macaddr of
        None \<Rightarrow> -1
      | Some s \<Rightarrow>
          if length s \<noteq> 17 then -1
          else case mac_scan s 0 of
              None \<Rightarrow> -1
            | Some flag \<Rightarrow>
                if flag \<noteq> 5 then -1
                else if s ! 2 \<noteq> CHR '':'' \<or> s ! 5 \<noteq> CHR '':'' \<or> s ! 8 \<noteq> CHR '':'' \<or> s ! 11 \<noteq> CHR '':'' \<or> s ! 14 \<noteq> CHR '':''
                then -1 else 0)"

text \<open>One digit; a character that is none leaves the value of the digit before. The char behind the end is the NUL.\<close>

definition mac_digit :: "int \<Rightarrow> nat \<Rightarrow> int" where
  "mac_digit old c =
     (if 48 \<le> c \<and> c \<le> 57 then int c - 48 else if 65 \<le> c \<and> c \<le> 70 then int c - 55 else if 97 \<le> c then int c - 87 else old)"

function os_mac2int :: "int \<Rightarrow> int \<Rightarrow> string \<Rightarrow> int list" where
  "os_mac2int n1 n2 [] = []"
| "os_mac2int n1 n2 (a # s) =
     (let n1 = mac_digit n1 (of_char a); n2 = mac_digit n2 (case s of [] \<Rightarrow> 0 | b # _ \<Rightarrow> of_char b)
      in (n1 * 16 + n2) # os_mac2int n1 n2 (drop 2 s))"
  by pat_completeness auto
termination by (relation "measure (\<lambda>(n1, n2, s). length s)") auto

section \<open>Numbers\<close>

text \<open>The result and the number, as far as it has been read.\<close>

fun atoul :: "string \<Rightarrow> cuint \<Rightarrow> int \<times> cuint" where
  "atoul [] ulResult = (0, ulResult)"
| "atoul (c # cs) ulResult =
     (if is_digit_char c then
        if ulResult < 429496729 \<or> ulResult = 429496729 \<and> (of_char c :: nat) < 54
        then atoul cs (ulResult * 10 + of_nat (of_char c) - 48)
        else (-1, ulResult)
      else (-1, ulResult))"

definition toupper :: "nat \<Rightarrow> nat" where
  "toupper c = (if 97 \<le> c \<and> c \<le> 122 then c - 32 else c)"

fun atoulx :: "string \<Rightarrow> cuint \<Rightarrow> int \<times> cuint" where
  "atoulx [] ulResult = (0, ulResult)"
| "atoulx (c # cs) ulResult =
     (let ch = toupper (of_char c) in
      if 48 \<le> ch \<and> ch \<le> 57 \<or> 65 \<le> ch \<and> ch \<le> 70 then
        if ulResult < 0x10000000
        then atoulx cs (push_bit 4 ulResult + (if ch \<le> 57 then of_nat ch - 48 else of_nat ch - 65 + 10))
        else (-1, ulResult)
      else (-1, ulResult))"

text \<open>\<open>None\<close>: the number has not been written.\<close>

definition os_str2number :: "string \<Rightarrow> int \<times> cuint option" where
  "os_str2number str =
     (if take 1 str = ''0'' \<and> (take 1 (drop 1 str) = ''x'' \<or> take 1 (drop 1 str) = ''X'') then
        if drop 2 str = [] then (-1, None)
        else map_prod id Some (atoulx (drop 2 str) 0)
      else map_prod id Some (atoul str 0))"

definition os_get_days :: "int \<Rightarrow> int \<Rightarrow> int" where
  "os_get_days year month =
     (if month \<in> {1, 3, 5, 7, 8, 10, 12} then 31
      else if month \<in> {4, 6, 9, 11} then 30
      else if month = 2 then if cmod year 4 = 0 then 29 else 28
      else -1)"

end
