(* ===== verification/Upgrade.thy ===== *)
theory Upgrade
  imports Wrapper Params
begin

text \<open>
  The upgrade over the network: the device's side (\<^verbatim>\<open>main/src/net_upgrad.c\<close> and the upgrade messages of
  \<^verbatim>\<open>main/src/main_msg.c\<close>) and the tool that sends a package (\<^verbatim>\<open>x86_tool/upgrade_tool.c\<close>). The library that
  writes the flash (\<^verbatim>\<open>upgrade_start\<close> and the rest of \<^verbatim>\<open>upgrade.h\<close>) is not part of the sources: its answers are in
  \<open>upg_env\<close>, and what it is asked to do is kept in \<open>upg_calls\<close>.
\<close>

section \<open>State\<close>

record pu_upg_handle =
  report_process :: int
  upgrad_session :: cuint
  file_open :: bool
  total_len :: cuint
  count_len :: cuint
  packet_num :: cuint
  total_packet :: cuint

text \<open>A start from a file notes the path and the contents of \<^verbatim>\<open>/tmp/upgrade_packet\<close> at that moment.\<close>

datatype upg_call = SetPercent int | StartFile "byte list" "byte list" | StartMem "byte list" | UpgLog cuint cuint | UpgLogFlush

record upg_st =
  upg_handle :: pu_upg_handle
  upg_file :: "byte list"
  upg_errno :: nat
  upg_calls :: "upg_call list"

record upg_env =
  tid_runing :: bool
  start_ret :: int
  rand_session :: cuint
  can_open :: bool
  file_writes :: "io_answer list"
  upg_status :: cuint
  usb_path :: "string option"

definition SDK_ERR_UPGRADING :: byte where "SDK_ERR_UPGRADING = 41"
definition SDK_ERR_UPGRADE_FILE_FIND :: byte where "SDK_ERR_UPGRADE_FILE_FIND = 43"
definition SDK_ERR_UPGRADE :: byte where "SDK_ERR_UPGRADE = 44"

text \<open>\<^verbatim>\<open>/tmp/upgrade_packet\<close>\<close>

definition DEFAULT_UPG_FILE :: "byte list" where
  "DEFAULT_UPG_FILE = List.map of_char ''/tmp/upgrade_packet''"

definition closed_handle :: pu_upg_handle where
  "closed_handle = \<lparr>report_process = 0, upgrad_session = 0, file_open = False, total_len = 0, count_len = 0, packet_num = 0,
     total_packet = 0\<rparr>"

type_synonym upg_result = "(int \<times> sdk_msg \<times> upg_st) option"

section \<open>The device\<close>

definition reset_upg :: "upg_st \<Rightarrow> upg_st" where
  "reset_upg st = (if file_open (upg_handle st) then st\<lparr>upg_handle := closed_handle\<rparr> else st)"

definition upg_call :: "upg_call \<Rightarrow> upg_st \<Rightarrow> upg_st" where
  "upg_call c st = st\<lparr>upg_calls := upg_calls st @ [c]\<rparr>"

definition upg_failed :: "byte \<Rightarrow> sdk_msg \<Rightarrow> upg_st \<Rightarrow> upg_result" where
  "upg_failed err msg st = Some (-1, msg\<lparr>msg_ack := err, msg_size := 0\<rparr>, st)"

definition msg_net_upgrade_req :: "upg_env \<Rightarrow> sdk_msg \<Rightarrow> upg_st \<Rightarrow> upg_result" where
  "msg_net_upgrade_req env msg st =
     (let data = msg_data msg in
      if tid_runing env then upg_failed SDK_ERR_UPGRADING msg st
      else if length data < 12 then None
      else if report_process (upg_handle st) \<noteq> 0 then upg_failed SDK_ERR_UPGRADING msg st
      else let st = reset_upg st in
        if \<not> can_open env then Some (-1, msg, st\<lparr>upg_handle := (upg_handle st)\<lparr>file_open := False\<rparr>\<rparr>)
        else let st = st\<lparr>upg_file := [], upg_handle := (upg_handle st)\<lparr>file_open := True, total_len := get32 (drop 8 data),
                       total_packet := get32 (drop 4 data), upgrad_session := rand_session env, packet_num := 0\<rparr>\<rparr>
             in Some (0, msg\<lparr>msg_data := put_at 0 (le32 (rand_session env)) data\<rparr>, upg_call (SetPercent 0) st))"

definition upgrade_start_file :: "upg_env \<Rightarrow> byte list \<Rightarrow> sdk_msg \<Rightarrow> upg_st \<Rightarrow> upg_result" where
  "upgrade_start_file env path msg st =
     (let st = upg_call (StartFile path (upg_file st)) st in
      if start_ret env < 0 then upg_failed SDK_ERR_UPGRADE msg st
      else Some (start_ret env, msg, upg_call UpgLogFlush (upg_call (UpgLog LOG_MAJOR_OPERATE 9) st)))"

text \<open>What \<^verbatim>\<open>os_writen\<close> returns is not looked at.\<close>

definition msg_net_upgrade_recv :: "upg_env \<Rightarrow> sdk_msg \<Rightarrow> upg_st \<Rightarrow> upg_result" where
  "msg_net_upgrade_recv env msg st =
     (let data = msg_data msg; h = upg_handle st in
      if length data < 16 then None
      else if \<not> file_open h \<or> upgrad_session h \<noteq> get32 (drop 4 data) then Some (-1, msg, st)
      else let n = get32 (drop 12 data) in
        if length data < 16 + unat n then None
        else case os_writen (file_writes env) (upg_errno st) (slice 16 (unat n) data) of
            None \<Rightarrow> None
          | Some (_, err, out) \<Rightarrow>
              let h = h\<lparr>count_len := count_len h + n, packet_num := packet_num h + 1\<rparr>;
                  st = st\<lparr>upg_file := upg_file st @ out, upg_errno := err, upg_handle := h\<rparr>
              in if packet_num h = total_packet h \<and> count_len h = total_len h
                 then (case upgrade_start_file env DEFAULT_UPG_FILE msg (reset_upg st) of
                         None \<Rightarrow> None
                       | Some (ret, msg, st) \<Rightarrow> if ret < 0 then Some (-1, msg, st) else Some (0, msg\<lparr>msg_size := 0\<rparr>, st))
                 else Some (0, msg\<lparr>msg_size := 0\<rparr>, st))"

definition msg_upgrade_req :: "upg_env \<Rightarrow> sdk_msg \<Rightarrow> upg_st \<Rightarrow> upg_result" where
  "msg_upgrade_req env msg st = (if tid_runing env then upg_failed SDK_ERR_UPGRADING msg st else Some (0, msg, st))"

text \<open>\<open>None\<close>: a read in front of the empty string. The join of a path without room returns the address -1, which the
  caller does not take for an error.\<close>

definition msg_add_slash :: "string \<Rightarrow> nat \<Rightarrow> string option" where
  "msg_add_slash s n =
     (if s = '''' then None
      else if last s \<noteq> CHR ''/'' then if length s + 1 \<ge> n then Some s else Some (s @ ''/'')
      else Some s)"

text \<open>The search of the directory is compiled out.\<close>

definition msg_upgrad_find_file :: "upg_env \<Rightarrow> sdk_msg \<Rightarrow> upg_st \<Rightarrow> upg_result" where
  "msg_upgrad_find_file env msg st =
     (let msg = msg\<lparr>msg_size := 0\<rparr> in
      case usb_path env of
        None \<Rightarrow> Some (-1, msg, st)
      | Some p \<Rightarrow> (case msg_add_slash p 32 of None \<Rightarrow> None | Some _ \<Rightarrow> Some (0, msg, st)))"

definition msg_upgrad_pro :: "upg_env \<Rightarrow> sdk_msg \<Rightarrow> upg_st \<Rightarrow> upg_result" where
  "msg_upgrad_pro env msg st = Some (0, msg\<lparr>msg_extend := upg_status env, msg_size := 0\<rparr>, st)"

definition main_msg_upgrad :: "upg_env \<Rightarrow> sdk_msg \<Rightarrow> upg_st \<Rightarrow> upg_result" where
  "main_msg_upgrad env msg st =
     (let op = msg_args msg in
      if op = 0 then msg_net_upgrade_req env msg st
      else if op = 1 then msg_net_upgrade_recv env msg st
      else if op = 2 then msg_upgrade_req env msg st
      else if op = 3 then
        if 0 \<notin> set (drop 116 (msg_data msg)) then None
        else upgrade_start_file env (takeWhile (\<lambda>b. b \<noteq> 0) (drop 116 (msg_data msg))) msg st
      else if op = 4 then
        let st = upg_call (StartMem (msg_data msg)) st in
        if start_ret env < 0 then upg_failed SDK_ERR_UPGRADE msg st else Some (start_ret env, msg, st)
      else if op = 5 then msg_upgrad_pro env msg st
      else if op = 6 then
        (case msg_upgrad_find_file env msg st of
           None \<Rightarrow> None
         | Some (ret, msg, st) \<Rightarrow> if ret < 0 then upg_failed SDK_ERR_UPGRADE_FILE_FIND msg st else Some (ret, msg, st))
      else Some (-1, msg, st))"

section \<open>The tool\<close>

definition MAX_BLOCK_SIZE :: nat where "MAX_BLOCK_SIZE = 4056"

definition tool_msg :: "cuint \<Rightarrow> byte list \<Rightarrow> sdk_msg" where
  "tool_msg args data = \<lparr>msg_magic = 0, msg_version = 0, msg_id = 49, msg_dir = 0, msg_ack = 0, msg_args = args,
     msg_extend = 0, msg_chann = 0, msg_size = of_nat (length data), msg_data = data\<rparr>"

definition tool_total :: "byte list \<Rightarrow> nat" where
  "tool_total f = (length f + MAX_BLOCK_SIZE) div MAX_BLOCK_SIZE"

definition tool_request :: "byte list \<Rightarrow> sdk_msg" where
  "tool_request f = tool_msg 0 (le32 0 @ le32 (of_nat (tool_total f)) @ le32 (of_nat (length f)))"

text \<open>The packets from number \<open>i\<close> on; \<open>None\<close> is the end of the tool at a short read.\<close>

fun tool_packets :: "cuint \<Rightarrow> nat \<Rightarrow> nat \<Rightarrow> nat \<Rightarrow> byte list \<Rightarrow> sdk_msg list option" where
  "tool_packets session npack i 0 f = Some []"
| "tool_packets session npack i (Suc n) f =
     (let block = take MAX_BLOCK_SIZE f in
      if length block \<noteq> MAX_BLOCK_SIZE \<and> i \<noteq> npack - 1 then None
      else case tool_packets session npack (Suc i) n (drop MAX_BLOCK_SIZE f) of
          None \<Rightarrow> None
        | Some msgs \<Rightarrow>
            Some (tool_msg 1 (le32 0 @ le32 session @ le32 (of_nat i) @ le32 (of_nat (length block)) @ block) # msgs))"

text \<open>The messages of a transfer as the device takes them, each with what the device meets then.\<close>

fun upg_run :: "(upg_env \<times> sdk_msg) list \<Rightarrow> upg_st \<Rightarrow> upg_st option" where
  "upg_run [] st = Some st"
| "upg_run ((env, msg) # xs) st =
     (case main_msg_upgrad env msg st of None \<Rightarrow> None | Some (_, _, st) \<Rightarrow> upg_run xs st)"

end
