(* ===== verification/WrapperFacts.thy ===== *)
theory WrapperFacts
  imports Wrapper
begin

text \<open>
  What the functions of \<open>Wrapper\<close> promise: complete transfers over partial ones, exact copies, and the strings the
  checks and conversions accept, with their values.
\<close>

section \<open>Transfers\<close>

definition moves :: "io_answer \<Rightarrow> bool" where
  "moves a \<longleftrightarrow> (case a of Moved k \<Rightarrow> 0 < k | Failed e \<Rightarrow> e = EINTR)"

definition moving :: "io_answer list \<Rightarrow> nat" where
  "moving ans = length (List.filter (\<lambda>a. a \<noteq> Failed EINTR) ans)"

lemma moving_simps [simp]: "moving [] = 0" "moving (a # ans) = (if a = Failed EINTR then moving ans else Suc (moving ans))"
  by (simp_all add: moving_def)

lemma EINTR_not_EIO [simp]: "EINTR \<noteq> EIO" "EIO \<noteq> EINTR"
  by (simp_all add: EINTR_def EIO_def)

lemma writen_complete:
  "\<forall>a \<in> set ans. moves a \<Longrightarrow> err \<noteq> EIO \<Longrightarrow> length bs \<le> moving ans \<Longrightarrow>
   \<exists>err'. err' \<noteq> EIO \<and> writen_loop n ans err bs = Some (n, err', bs)"
proof (induction n ans err bs rule: writen_loop.induct)
  case (3 n a ans err b bs)
  show ?case
  proof (cases a)
    case (Moved k)
    let ?k = "min k (length (b # bs))"
    have k: "0 < k" "?k \<noteq> 0" "length (drop ?k (b # bs)) \<le> moving ans" using 3(2,4) Moved by (auto simp: moves_def)
    obtain e where "e \<noteq> EIO" "writen_loop n ans err (drop ?k (b # bs)) = Some (n, e, drop ?k (b # bs))"
      using 3(1) [of "(?k, err)" ?k err] k(2,3) 3(2,3) Moved by auto
    then show ?thesis using k(2) 3(3) Moved by (simp del: take_Suc_Cons drop_Suc_Cons min_less_iff_disj add: Let_def)
  next
    case (Failed e)
    then have e: "e = EINTR" using 3(2) by (simp add: moves_def)
    then obtain e' where "e' \<noteq> EIO" "writen_loop n ans EINTR (b # bs) = Some (n, e', b # bs)"
      using 3(1) [of "(0, EINTR)" 0 EINTR] 3(2,4) Failed by auto
    then show ?thesis using Failed e by (simp add: Let_def)
  qed
qed auto

lemma readn_complete:
  "\<forall>a \<in> set ans. moves a \<Longrightarrow> nleft \<le> moving ans \<Longrightarrow> nleft \<le> length src \<Longrightarrow>
   readn_loop n nleft ans src = Some (int n, take nleft src, drop nleft src)"
proof (induction n nleft ans src rule: readn_loop.induct)
  case (2 n nleft a ans src)
  show ?case
  proof (cases a)
    case (Moved k)
    then have k: "0 < k" using 2(3) by (simp add: moves_def)
    show ?thesis
    proof (cases "nleft = 0")
      case False
      let ?k = "min k (min nleft (length src))"
      have "?k \<noteq> 0" "nleft - ?k \<le> moving ans" "nleft - ?k \<le> length (drop ?k src)" using k False 2(4,5) Moved by auto
      moreover have "take nleft src = take ?k src @ take (nleft - ?k) (drop ?k src)"
        by (metis le_add_diff_inverse min.cobounded1 min.cobounded2 min.assoc order_trans take_add)
      moreover have "drop (nleft - ?k) (drop ?k src) = drop nleft src" by simp
      moreover have "readn_loop n (nleft - ?k) ans (drop ?k src) =
          Some (int n, take (nleft - ?k) (drop ?k src), drop (nleft - ?k) (drop ?k src))"
      proof (rule 2(1) [OF False Moved refl \<open>?k \<noteq> 0\<close> _ \<open>nleft - ?k \<le> moving ans\<close> \<open>nleft - ?k \<le> length (drop ?k src)\<close>])
        show "\<forall>a \<in> set ans. moves a" using 2(3) by simp
      qed
      ultimately show ?thesis unfolding readn_loop.simps Moved io_answer.case Let_def by (simp only: False if_False option.case prod.case)
    qed simp
  next
    case (Failed e)
    then have "e = EINTR" using 2(3) by (simp add: moves_def)
    then show ?thesis using 2 Failed by (cases "nleft = 0") auto
  qed
qed auto

lemma writen_sound:
  "writen_loop n ans err bs = Some (ret, err', out) \<Longrightarrow> 0 \<le> n \<Longrightarrow> (ret = -1 \<or> ret = n \<and> out = bs) \<and> (\<exists>rest. bs = out @ rest)"
proof (induction n ans err bs arbitrary: ret err' out rule: writen_loop.induct)
  case (3 n a ans err b bs)
  obtain k e where ke: "(case a of Moved k \<Rightarrow> (min k (length (b # bs)), err) | Failed e \<Rightarrow> (0, e)) = (k, e)" by fastforce
  show ?case
  proof (cases "k = 0 \<and> e \<noteq> EINTR \<or> e = EIO")
    case True
    then have "ret = -1 \<and> (out = [] \<or> out = take k (b # bs))"
      using 3(2) unfolding writen_loop.simps ke Let_def prod.case by (auto split: if_splits)
    then show ?thesis by (metis append_Nil append_take_drop_id)
  next
    case False
    then obtain r2 e2 o2 where r: "writen_loop n ans e (drop k (b # bs)) = Some (r2, e2, o2)" "ret = r2" "out = take k (b # bs) @ o2"
      using 3(2) ke by (auto simp: Let_def split: option.splits)
    show ?thesis
      using 3(1) [OF ke [symmetric] refl _ _ r(1) 3(3)] False r(2,3) by (metis append.assoc append_take_drop_id)
  qed
qed auto

text \<open>Whatever the sizes of the partial writes and reads are, and however often a signal interrupts them, the bytes
  given to os_writen are the bytes os_readn returns at the other end, and no more are taken.\<close>

theorem transfer_complete:
  assumes "\<forall>a \<in> set wans. moves a" "length bs \<le> moving wans" "\<forall>a \<in> set rans. moves a" "length bs \<le> moving rans" "err \<noteq> EIO"
  shows "\<exists>err' out. os_writen wans err bs = Some (int (length bs), err', out) \<and>
    os_readn rans (length bs) (out @ later) = Some (int (length bs), bs, later)"
  using writen_complete [OF assms(1,5,2), of "int (length bs)"] readn_complete [OF assms(3,4), of "bs @ later" "length bs"]
  by (auto simp: os_writen_def os_readn_def)

lemma transfer_complete_witness:
  "\<exists>err' out. os_writen [Moved 2, Failed EINTR, Moved 5, Moved 1] 0 [1, 2, 3] = Some (3, err', out) \<and>
    os_readn [Failed EINTR, Moved 1, Moved 1, Moved 9] 3 (out @ [4]) = Some (3, [1, 2, 3], [4])"
  using transfer_complete [of "[Moved 2, Failed EINTR, Moved 5, Moved 1]" "[1, 2, 3]" "[Failed EINTR, Moved 1, Moved 1, Moved 9]" 0 "[4]"]
  by (simp add: moves_def EIO_def numeral_3_eq_3)

section \<open>Copies\<close>

lemma copy_loop_sound:
  "copy_loop fuel ans i err src = Some (ret, out) \<Longrightarrow> ret = 0 \<Longrightarrow> out = src"
proof (induction fuel arbitrary: i err src ret out)
  case (Suc fuel)
  let ?c = "min (length src) BUCKET_SIZE"
  obtain r e o1 where w: "os_writen (ans i) err (take ?c src) = Some (r, e, o1)"
    using Suc.prems by (auto simp: Let_def split: option.splits)
  then have r: "\<not> r < 0" using Suc.prems by (auto simp: Let_def)
  then have o1: "o1 = take ?c src"
    using writen_sound [of "int (length (take ?c src))" "ans i" err "take ?c src" r e o1] w by (auto simp: os_writen_def)
  show ?case
  proof (cases "length src - ?c = 0")
    case True
    then show ?thesis using Suc.prems w r o1 by (simp add: Let_def)
  next
    case False
    then obtain o2 where "copy_loop fuel ans (Suc i) e (drop ?c src) = Some (0, o2)" "out = o1 @ o2"
      using Suc.prems w r by (auto simp: Let_def split: option.splits)
    then show ?thesis using Suc.IH o1 by (metis append_take_drop_id)
  qed
qed simp

lemma copy_loop_complete:
  assumes "\<And>i. \<forall>a \<in> set (ans i). moves a" "\<And>i. BUCKET_SIZE \<le> moving (ans i)"
  shows "length src < fuel \<Longrightarrow> err \<noteq> EIO \<Longrightarrow> copy_loop fuel ans i err src = Some (0, src)"
proof (induction fuel arbitrary: i err src)
  case (Suc fuel)
  let ?c = "min (length src) BUCKET_SIZE"
  have "length (take ?c src) \<le> moving (ans i)" using assms(2) [of i] by simp
  then obtain e where w: "os_writen (ans i) err (take ?c src) = Some (int (length (take ?c src)), e, take ?c src)" "e \<noteq> EIO"
    using writen_complete [OF assms(1) Suc.prems(2), of "take ?c src" i] by (auto simp: os_writen_def)
  have "length (drop ?c src) < fuel" if "length src - ?c \<noteq> 0" using Suc.prems(1) that by (auto simp: BUCKET_SIZE_def)
  then show ?case using w Suc.IH [of "drop ?c src" e] by (auto simp: Let_def)
qed simp

text \<open>A copy that reports success has left the exact contents in the target and touched no other file, whatever the
  card answers to its writes; with flag 1 it may instead have kept an existing target of the same length, whatever
  its contents.\<close>

theorem copy_file_exact:
  assumes "os_copy_file ans err oldpath newpath flag fs = Some (0, fs')"
  shows "\<exists>c. contents fs oldpath = Some c \<and> (\<forall>p. p \<noteq> newpath \<longrightarrow> contents fs' p = contents fs p) \<and>
    (contents fs' newpath = Some c \<or> flag = 1 \<and> fs' = fs \<and> (\<exists>c'. contents fs newpath = Some c' \<and> length c' = length c))"
proof -
  obtain c where c: "contents fs oldpath = Some c"
    using assms by (auto simp: os_copy_file_def split: option.splits if_splits)
  show ?thesis
    using assms c copy_loop_sound [of "Suc (length c)" ans 0 err c]
    by (auto simp: os_copy_file_def split: option.splits if_splits)
qed

lemma copy_file_exact_witness:
  "\<exists>fs' c. os_copy_file (\<lambda>_. [Moved 9]) 0 ''a'' ''b'' 0 \<lparr>contents = [''a'' \<mapsto> [1, 2]], writable = \<lambda>_. True\<rparr> = Some (0, fs') \<and>
    contents fs' ''b'' = Some c \<and> c = [1, 2]"
proof -
  let ?fs = "\<lparr>contents = [''a'' \<mapsto> [1 :: byte, 2]], writable = \<lambda>_. True\<rparr>"
  have "os_copy_file (\<lambda>_. [Moved 9]) 0 ''a'' ''b'' 0 ?fs = Some (0, ?fs\<lparr>contents := (contents ?fs)(''b'' \<mapsto> [1, 2])\<rparr>)"
    by (simp add: os_copy_file_def os_writen_def BUCKET_SIZE_def EIO_def numeral_eq_Suc)
  then show ?thesis using copy_file_exact by fastforce
qed

section \<open>IP addresses\<close>

fun join_with :: "'a \<Rightarrow> 'a list list \<Rightarrow> 'a list" where
  "join_with c [] = []"
| "join_with c [x] = x"
| "join_with c (x # xs) = x @ c # join_with c xs"

definition dots :: "string \<Rightarrow> nat" where
  "dots s = length (List.filter (\<lambda>c. c = CHR ''.'') s)"

lemma ip_scan_iff: "ip_scan s f = Some g \<longleftrightarrow> (\<forall>c \<in> set s. is_digit_char c \<or> c = CHR ''.'') \<and> g = f + dots s"
  by (induction s arbitrary: f) (auto simp: dots_def)

lemma os_strsep_skip: "os_strsep c (Some (c # s)) = os_strsep c (Some s)"
  by (simp add: strsep_def)

lemma os_strsep_token:
  "t \<noteq> [] \<Longrightarrow> c \<notin> set t \<Longrightarrow> os_strsep c (Some t) = Some (t, None)"
  "t \<noteq> [] \<Longrightarrow> c \<notin> set t \<Longrightarrow> os_strsep c (Some (t @ c # r)) = Some (t, Some r)"
proof -
  assume t: "t \<noteq> []" "c \<notin> set t"
  then have "\<forall>x \<in> set t. x \<noteq> c" by auto
  then have e: "takeWhile (\<lambda>x. x \<noteq> c) t = t" "dropWhile (\<lambda>x. x \<noteq> c) t = []"
    "takeWhile (\<lambda>x. x \<noteq> c) (t @ c # r) = t" "dropWhile (\<lambda>x. x \<noteq> c) (t @ c # r) = c # r"
    by (simp_all add: takeWhile_eq_all_conv dropWhile_eq_Nil_conv takeWhile_append2 dropWhile_append2)
  have "strsep c t = (t, None)" "strsep c (t @ c # r) = (t, Some r)"
    unfolding strsep_def e by simp_all
  then show "os_strsep c (Some t) = Some (t, None)" "os_strsep c (Some (t @ c # r)) = Some (t, Some r)"
    using t(1) by simp_all
qed

lemma os_strsep_dest:
  "os_strsep c (Some s) = Some (t, p) \<Longrightarrow>
   \<exists>k. t \<noteq> [] \<and> c \<notin> set t \<and> s = replicate k c @ t @ (case p of None \<Rightarrow> [] | Some r \<Rightarrow> c # r)"
proof (induction s)
  case (Cons a s)
  show ?case
  proof (cases "a = c")
    case True
    then obtain k where "t \<noteq> [] \<and> c \<notin> set t \<and> s = replicate k c @ t @ (case p of None \<Rightarrow> [] | Some r \<Rightarrow> c # r)"
      using Cons os_strsep_skip by metis
    then show ?thesis using True by (intro exI [of _ "Suc k"]) simp
  next
    case False
    have d: "a # s = takeWhile (\<lambda>x. x \<noteq> c) (a # s) @ (case snd (strsep c (a # s)) of None \<Rightarrow> [] | Some r \<Rightarrow> c # r)"
    proof (cases "dropWhile (\<lambda>x. x \<noteq> c) (a # s)")
      case Nil
      then show ?thesis using takeWhile_dropWhile_id [of "\<lambda>x. x \<noteq> c" "a # s"] by (simp add: strsep_def)
    next
      case (Cons x r)
      then have "x = c" using hd_dropWhile [of "\<lambda>x. x \<noteq> c" "a # s"] by simp
      then show ?thesis using takeWhile_dropWhile_id [of "\<lambda>x. x \<noteq> c" "a # s"] Cons by (simp add: strsep_def)
    qed
    have t: "t = takeWhile (\<lambda>x. x \<noteq> c) (a # s)" "p = snd (strsep c (a # s))"
      using Cons.prems False by (simp_all add: strsep_def)
    then have "t \<noteq> []" "c \<notin> set t" using False by (auto dest: set_takeWhileD)
    then show ?thesis using d unfolding t(1,2) by (intro exI [of _ 0]) simp
  qed
qed (simp add: strsep_def)

lemma digits_less:
  "\<forall>c \<in> set xs. is_digit_char c \<Longrightarrow> digits_acc acc xs < (acc + 1) * 10 ^ length xs"
proof (induction xs arbitrary: acc)
  case (Cons x xs)
  have "digits_acc (acc * 10 + digit_val x) xs < (acc * 10 + digit_val x + 1) * 10 ^ length xs" using Cons by simp
  also have "\<dots> \<le> (acc * 10 + 10) * 10 ^ length xs" using digit_val_less [of x] Cons.prems by (intro mult_right_mono) auto
  finally show ?case using Cons.prems by (simp add: algebra_simps)
qed simp

definition octet :: "string \<Rightarrow> bool" where
  "octet t \<longleftrightarrow> (\<exists>n \<le> 255. t = show_nat n)"

lemma octet_token:
  "t \<noteq> [] \<Longrightarrow> \<forall>c \<in> set t. is_digit_char c \<Longrightarrow>
   octet t \<longleftrightarrow> \<not> (atoi t > 255 \<or> length t > 3 \<or> hd t = CHR ''0'' \<and> length t \<noteq> 1)"
proof
  assume t: "t \<noteq> []" "\<forall>c \<in> set t. is_digit_char c"
  assume "octet t"
  then obtain n where n: "n \<le> 255" "t = show_nat n" by (auto simp: octet_def)
  have "length t = 1" if "hd t = CHR ''0''"
  proof (rule ccontr)
    assume "length t \<noteq> 1"
    then obtain c d cs where "t = c # d # cs" using t(1) by (cases t; cases "tl t") auto
    then have z: "t = CHR ''0'' # d # cs" using that by simp
    have "digits_acc 0 (d # cs) = n"
    proof -
      have "digits_acc 0 (CHR ''0'' # d # cs) = n" using digits_acc_show_nat [of 0 n] n(2) z by simp
      then show ?thesis using digits_acc_zeros [of 1 "d # cs"] by (simp del: digits_acc.simps)
    qed
    moreover have "n < 10 ^ length (d # cs)"
      using digits_less [of "d # cs" 0] t(2) z \<open>digits_acc 0 (d # cs) = n\<close> by simp
    ultimately have "length (show_nat n) \<le> length (d # cs)" by (intro length_show_nat_le) simp_all
    moreover have "length (show_nat n) = 2 + length cs" unfolding n(2) [symmetric] z by simp
    ultimately show False by simp
  qed
  moreover have "length t \<le> 3" using length_show_nat_le [of n 3] n by simp
  ultimately show "\<not> (atoi t > 255 \<or> length t > 3 \<or> hd t = CHR ''0'' \<and> length t \<noteq> 1)" using n by auto
next
  assume t: "t \<noteq> []" "\<forall>c \<in> set t. is_digit_char c"
    and r: "\<not> (atoi t > 255 \<or> length t > 3 \<or> hd t = CHR ''0'' \<and> length t \<noteq> 1)"
  have "t = show_nat (digits_acc 0 t)"
  proof (cases "hd t = CHR ''0''")
    case True
    then have "t = [CHR ''0'']" using r t(1) by (cases t; cases "tl t") auto
    moreover have "digits_acc 0 [CHR ''0''] = 0" by (simp add: is_digit_char_def digit_val_def)
    moreover have "show_nat 0 = [CHR ''0'']" by (subst show_nat.simps) (simp add: digit_char_def char_of_48)
    ultimately show ?thesis by simp
  qed (use show_nat_digits t in simp)
  moreover have "digits_acc 0 t \<le> 255" using r atoi_digits [OF t] by simp
  ultimately show "octet t" unfolding octet_def by blast
qed

lemma dots_simps [simp]: "dots [] = 0" "dots (c # s) = (if c = CHR ''.'' then Suc (dots s) else dots s)"
  "dots (s @ s') = dots s + dots s'" "dots (replicate k (CHR ''.'')) = k"
  by (simp_all add: dots_def)

lemma dots_token: "CHR ''.'' \<notin> set t \<Longrightarrow> dots t = 0"
  by (simp add: dots_def filter_empty_conv) metis

lemma octet_chars: "octet t \<Longrightarrow> t \<noteq> [] \<and> (\<forall>c \<in> set t. is_digit_char c) \<and> CHR ''.'' \<notin> set t"
  by (auto simp: octet_def dest: set_show_nat)

lemma ip_tokens_dest:
  "\<forall>c \<in> set s. is_digit_char c \<or> c = CHR ''.'' \<Longrightarrow> ip_tokens (Suc n) (Some s) = 0 \<Longrightarrow>
   n \<le> dots s \<and> (dots s = n \<longrightarrow> (\<exists>ts. length ts = Suc n \<and> (\<forall>t \<in> set ts. octet t) \<and> s = join_with (CHR ''.'') ts))"
proof (induction n arbitrary: s)
  case 0
  then obtain t p where tp: "os_strsep (CHR ''.'') (Some s) = Some (t, p)"
    "\<not> (atoi t > 255 \<or> length t > 3 \<or> hd t = CHR ''0'' \<and> length t \<noteq> 1)"
    by (auto simp del: os_strsep.simps split: option.splits if_splits)
  then obtain k where k: "t \<noteq> []" "CHR ''.'' \<notin> set t" "s = replicate k (CHR ''.'') @ t @ (case p of None \<Rightarrow> [] | Some r \<Rightarrow> CHR ''.'' # r)"
    using os_strsep_dest by blast
  have "octet t" using octet_token [of t] k 0(1) tp(2) by auto
  moreover have "s = t" if "dots s = 0" using that k(3) by (auto split: option.splits)
  ultimately show ?case by (auto intro!: exI [of _ "[t]"])
next
  case (Suc n)
  then obtain t p where tp: "os_strsep (CHR ''.'') (Some s) = Some (t, p)" "ip_tokens (Suc n) p = 0"
    "\<not> (atoi t > 255 \<or> length t > 3 \<or> hd t = CHR ''0'' \<and> length t \<noteq> 1)"
    by (auto simp del: os_strsep.simps split: option.splits if_splits)
  then obtain r where p: "p = Some r" by (cases p) auto
  obtain k where k: "t \<noteq> []" "CHR ''.'' \<notin> set t" "s = replicate k (CHR ''.'') @ t @ CHR ''.'' # r"
    using os_strsep_dest [OF tp(1)] p by auto
  have o: "octet t" using octet_token [of t] k Suc.prems(1) tp(3) by auto
  have IH: "n \<le> dots r" "dots r = n \<Longrightarrow> \<exists>ts. length ts = Suc n \<and> (\<forall>t \<in> set ts. octet t) \<and> r = join_with (CHR ''.'') ts"
    using Suc.IH [of r] Suc.prems(1) tp(2) p k(3) by auto
  have d: "dots s = k + Suc (dots r)" using k(2,3) dots_token by simp
  have "\<exists>ts. length ts = Suc (Suc n) \<and> (\<forall>t \<in> set ts. octet t) \<and> s = join_with (CHR ''.'') ts" if "dots s = Suc n"
  proof -
    have "k = 0" "dots r = n" using that d IH(1) by auto
    then obtain ts where ts: "length ts = Suc n" "\<forall>t \<in> set ts. octet t" "r = join_with (CHR ''.'') ts" using IH(2) by blast
    then have "join_with (CHR ''.'') (t # ts) = s" using k(3) \<open>k = 0\<close> by (cases ts) auto
    then show ?thesis using ts(1,2) o by (intro exI [of _ "t # ts"]) auto
  qed
  then show ?case using d IH(1) by auto
qed

lemma join_with_Cons: "xs \<noteq> [] \<Longrightarrow> join_with c (x # xs) = x @ c # join_with c xs"
  by (cases xs) simp_all

lemma ip_tokens_join:
  "ts \<noteq> [] \<Longrightarrow> \<forall>t \<in> set ts. octet t \<Longrightarrow> ip_tokens (length ts) (Some (join_with (CHR ''.'') ts)) = 0"
proof (induction ts rule: list_nonempty_induct)
  case (single x)
  then show ?case using os_strsep_token(1) [of x] octet_token [of x] octet_chars [of x] by (auto simp del: os_strsep.simps)
next
  case (cons x xs)
  have x: "octet x" "x \<noteq> []" "\<forall>c \<in> set x. is_digit_char c" "CHR ''.'' \<notin> set x" using cons(3) octet_chars [of x] by auto
  show ?case
    using os_strsep_token(2) [OF x(2,4)] octet_token [OF x(2,3)] x(1) cons by (auto simp: join_with_Cons simp del: os_strsep.simps)
qed

lemma join_scan:
  "ts \<noteq> [] \<Longrightarrow> \<forall>t \<in> set ts. octet t \<Longrightarrow> (\<forall>c \<in> set (join_with (CHR ''.'') ts). is_digit_char c \<or> c = CHR ''.'') \<and>
   dots (join_with (CHR ''.'') ts) = length ts - 1"
proof (induction ts rule: list_nonempty_induct)
  case (single x)
  then show ?case using octet_chars [of x] dots_token [of x] by auto
next
  case (cons x xs)
  then show ?case using octet_chars [of x] dots_token [of x] by (cases xs) (auto simp: join_with_Cons)
qed

definition dotted_quad :: "nat \<Rightarrow> nat \<Rightarrow> nat \<Rightarrow> nat \<Rightarrow> string" where
  "dotted_quad a b c d = show_nat a @ ''.'' @ show_nat b @ ''.'' @ show_nat c @ ''.'' @ show_nat d"

text \<open>os_check_ip_addr accepts exactly the dotted quads: four numbers up to 255, printed without leading zeros.\<close>

theorem check_ip_addr_exact:
  "os_check_ip_addr s = 0 \<longleftrightarrow>
   (\<exists>a b c d. a \<le> 255 \<and> b \<le> 255 \<and> c \<le> 255 \<and> d \<le> 255 \<and> s = dotted_quad a b c d)"
proof
  assume *: "os_check_ip_addr s = 0"
  then have sc: "\<forall>c \<in> set s. is_digit_char c \<or> c = CHR ''.''" "dots s = 3"
    by (auto simp: os_check_ip_addr_def ip_scan_iff split: option.splits if_splits)
  moreover have "ip_tokens (Suc 3) (Some s) = 0"
    using * by (simp add: os_check_ip_addr_def del: ip_tokens.simps split: option.splits if_splits)
  ultimately obtain ts where ts: "length ts = Suc 3" "\<forall>t \<in> set ts. octet t" "s = join_with (CHR ''.'') ts"
    using ip_tokens_dest by blast
  then obtain t1 t2 t3 t4 where t: "ts = [t1, t2, t3, t4]" by (auto simp: length_Suc_conv numeral_3_eq_3)
  then show "\<exists>a b c d. a \<le> 255 \<and> b \<le> 255 \<and> c \<le> 255 \<and> d \<le> 255 \<and> s = dotted_quad a b c d"
    using ts(2,3) unfolding octet_def dotted_quad_def by fastforce
next
  assume "\<exists>a b c d. a \<le> 255 \<and> b \<le> 255 \<and> c \<le> 255 \<and> d \<le> 255 \<and> s = dotted_quad a b c d"
  then obtain a b c d where q: "a \<le> 255" "b \<le> 255" "c \<le> 255" "d \<le> 255" "s = dotted_quad a b c d" by blast
  let ?ts = "[show_nat a, show_nat b, show_nat c, show_nat d]"
  have o: "\<forall>t \<in> set ?ts. octet t" using q(1-4) by (auto simp: octet_def)
  have s: "s = join_with (CHR ''.'') ?ts" using q(5) by (simp add: dotted_quad_def)
  have "ip_scan s 0 = Some 3" using join_scan [OF _ o] unfolding ip_scan_iff s by simp
  moreover have "ip_tokens 4 (Some s) = 0" using ip_tokens_join [OF _ o] unfolding s
    by (simp add: numeral_eq_Suc del: ip_tokens.simps join_with.simps)
  moreover have l: "length (show_nat n) \<le> 3" if "n \<le> 255" for n using length_show_nat_le [of n 3] that by simp
  have "length s \<le> 15" using l [OF q(1)] l [OF q(2)] l [OF q(3)] l [OF q(4)] q(5) by (simp add: dotted_quad_def)
  ultimately show "os_check_ip_addr s = 0" by (simp add: os_check_ip_addr_def del: ip_tokens.simps)
qed

section \<open>MAC addresses\<close>

definition colons :: "string \<Rightarrow> nat" where
  "colons s = length (List.filter (\<lambda>c. c = CHR '':'') s)"

lemma colons_simps [simp]: "colons [] = 0" "colons (c # s) = (if c = CHR '':'' then Suc (colons s) else colons s)"
  by (simp_all add: colons_def)

lemma colon_no_hex [simp]: "\<not> is_hex_char (CHR '':'')"
  by (simp add: is_hex_char_def is_digit_char_def)

lemma mac_scan_iff: "mac_scan s f = Some g \<longleftrightarrow> (\<forall>c \<in> set s. is_hex_char c \<or> c = CHR '':'') \<and> g = f + colons s"
  by (induction s arbitrary: f) auto

definition hex_value :: "char \<Rightarrow> int" where
  "hex_value c = (let n = of_char c :: nat in if n \<le> 57 then int n - 48 else if n \<le> 70 then int n - 55 else int n - 87)"

lemma mac_digit_hex: "is_hex_char c \<Longrightarrow> mac_digit old (of_char c) = hex_value c"
  by (auto simp: is_hex_char_def is_digit_char_def mac_digit_def hex_value_def Let_def)

definition mac_of :: "(char \<times> char) list \<Rightarrow> string" where
  "mac_of ps = join_with (CHR '':'') (List.map (\<lambda>(a, b). [a, b]) ps)"

definition hex_pairs :: "(char \<times> char) list \<Rightarrow> bool" where
  "hex_pairs ps \<longleftrightarrow> (\<forall>(a, b) \<in> set ps. is_hex_char a \<and> is_hex_char b)"

lemma mac2int_of: "hex_pairs ps \<Longrightarrow> os_mac2int n1 n2 (mac_of ps) = List.map (\<lambda>(a, b). 16 * hex_value a + hex_value b) ps"
proof (induction ps arbitrary: n1 n2)
  case (Cons p ps)
  obtain a b where p: "p = (a, b)" by (cases p)
  have h: "is_hex_char a" "is_hex_char b" "hex_pairs ps" using Cons.prems p by (auto simp: hex_pairs_def)
  show ?case
  proof (cases "ps = []")
    case False
    then have "mac_of (p # ps) = a # b # CHR '':'' # mac_of ps" by (simp add: mac_of_def p join_with_Cons)
    then show ?thesis using Cons.IH [OF h(3)] h(1,2) p by (simp add: mac_digit_hex)
  qed (use h p in \<open>simp add: mac_of_def mac_digit_hex\<close>)
qed (simp add: mac_of_def)

text \<open>os_check_mac_addr accepts exactly six pairs of hexadecimal digits with colons between them, and for those
  _os_mac2int gives the six numbers they denote.\<close>

theorem check_mac_addr_exact:
  "os_check_mac_addr (Some s) = 0 \<longleftrightarrow>
   (\<exists>ps. length ps = 6 \<and> hex_pairs ps \<and> s = mac_of ps \<and> os_mac2int 0 0 s = List.map (\<lambda>(a, b). 16 * hex_value a + hex_value b) ps)"
proof
  assume *: "os_check_mac_addr (Some s) = 0"
  then have l: "length s = 17" and sc: "\<forall>c \<in> set s. is_hex_char c \<or> c = CHR '':''" "colons s = 5"
    and pos: "s ! 2 = CHR '':''" "s ! 5 = CHR '':''" "s ! 8 = CHR '':''" "s ! 11 = CHR '':''" "s ! 14 = CHR '':''"
    by (auto simp: os_check_mac_addr_def mac_scan_iff split: option.splits if_splits)
  obtain a0 a1 x a2 a3 y a4 a5 z a6 a7 v a8 a9 w b0 b1 where s:
    "s = [a0, a1, x, a2, a3, y, a4, a5, z, a6, a7, v, a8, a9, w, b0, b1]"
    using l by (auto simp: length_Suc_conv numeral_eq_Suc)
  let ?ps = "[(a0, a1), (a2, a3), (a4, a5), (a6, a7), (a8, a9), (b0, b1)]"
  have "\<forall>c \<in> {a0, a1, a2, a3, a4, a5, a6, a7, a8, a9, b0, b1}. c \<noteq> CHR '':''"
    using sc(2) pos unfolding s by (simp split: if_splits)
  then have h: "hex_pairs ?ps" using sc(1) unfolding s hex_pairs_def by simp
  moreover have "s = mac_of ?ps" using pos unfolding s by (simp add: mac_of_def)
  ultimately show "\<exists>ps. length ps = 6 \<and> hex_pairs ps \<and> s = mac_of ps \<and>
      os_mac2int 0 0 s = List.map (\<lambda>(a, b). 16 * hex_value a + hex_value b) ps"
    using mac2int_of [OF h, of 0 0] by (intro exI [of _ ?ps]) simp
next
  assume "\<exists>ps. length ps = 6 \<and> hex_pairs ps \<and> s = mac_of ps \<and>
      os_mac2int 0 0 s = List.map (\<lambda>(a, b). 16 * hex_value a + hex_value b) ps"
  then obtain ps where ps: "length ps = 6" "hex_pairs ps" "s = mac_of ps" by blast
  obtain a0 a1 a2 a3 a4 a5 a6 a7 a8 a9 b0 b1 where
    p: "ps = [(a0, a1), (a2, a3), (a4, a5), (a6, a7), (a8, a9), (b0, b1)]"
    using ps(1) by (auto simp: length_Suc_conv numeral_eq_Suc)
  have "c \<noteq> CHR '':''" if "is_hex_char c" for c using that by auto
  then show "os_check_mac_addr (Some s) = 0"
    using ps(2) unfolding ps(3) p hex_pairs_def by (simp add: os_check_mac_addr_def mac_of_def)
qed

section \<open>Numbers\<close>

text \<open>The number a string denotes: decimal digits, or hexadecimal ones behind a \<^verbatim>\<open>0x\<close>.\<close>

definition hex_num :: "nat \<Rightarrow> string \<Rightarrow> nat" where
  "hex_num acc s = foldl (\<lambda>v c. 16 * v + nat (hex_value c)) acc s"

lemma hex_num_simps [simp]: "hex_num acc [] = acc" "hex_num acc (c # s) = hex_num (16 * acc + nat (hex_value c)) s"
  by (simp_all add: hex_num_def)

lemma hex_num_ge: "acc \<le> hex_num acc s"
proof (induction s arbitrary: acc)
  case (Cons c s)
  have "acc \<le> 16 * acc + nat (hex_value c)" by simp
  also have "\<dots> \<le> hex_num (16 * acc + nat (hex_value c)) s" by (rule Cons.IH)
  finally show ?case by simp
qed simp

lemma atoul_exact:
  "v < 2 ^ 32 \<Longrightarrow>
   (fst (atoul s (of_nat v)) = 0 \<longleftrightarrow> (\<forall>c \<in> set s. is_digit_char c) \<and> digits_acc v s < 2 ^ 32) \<and>
   (fst (atoul s (of_nat v)) = 0 \<longrightarrow> snd (atoul s (of_nat v)) = of_nat (digits_acc v s))"
proof (induction s arbitrary: v)
  case (Cons c s)
  show ?case
  proof (cases "is_digit_char c")
    case True
    let ?n = "v * 10 + digit_val c"
    have c: "(of_char c :: nat) = 48 + digit_val c" "digit_val c < 10"
      using True digit_val_less [OF True] by (auto simp: is_digit_char_def digit_val_def)
    have u: "unat (of_nat v :: cuint) = v" using Cons.prems by (simp add: unat_of_nat)
    have lim: "((of_nat v :: cuint) < 429496729 \<or> (of_nat v :: cuint) = 429496729 \<and> (of_char c :: nat) < 54) \<longleftrightarrow> ?n < 2 ^ 32"
    proof -
      have "(of_nat v :: cuint) < 429496729 \<longleftrightarrow> v < 429496729" "(of_nat v :: cuint) = 429496729 \<longleftrightarrow> v = 429496729"
        using u by (simp_all add: word_less_nat_alt word_unat_eq_iff)
      then show ?thesis using c by auto
    qed
    have n: "(of_nat v * 10 + of_nat (of_char c :: nat) - 48 :: cuint) = of_nat ?n" unfolding c(1) by simp
    show ?thesis
    proof (cases "?n < 2 ^ 32")
      case True
      then show ?thesis using Cons.IH [OF True] \<open>is_digit_char c\<close> lim unfolding atoul.simps n by simp
    next
      case False
      then have "\<not> digits_acc ?n s < 2 ^ 32" using digits_acc_ge [of ?n s] by linarith
      then show ?thesis using False \<open>is_digit_char c\<close> lim by auto
    qed
  qed simp
qed simp

lemma hex_upper:
  "(48 \<le> toupper (of_char c) \<and> toupper (of_char c) \<le> 57 \<or> 65 \<le> toupper (of_char c) \<and> toupper (of_char c) \<le> 70) \<longleftrightarrow> is_hex_char c"
  by (auto simp: toupper_def is_hex_char_def is_digit_char_def)

lemma hex_digit_word:
  "is_hex_char c \<Longrightarrow> (if toupper (of_char c) \<le> 57 then of_nat (toupper (of_char c)) - 48 else of_nat (toupper (of_char c)) - 65 + 10 :: cuint) =
     of_nat (nat (hex_value c)) \<and> nat (hex_value c) < 16"
  by (auto simp: toupper_def is_hex_char_def is_digit_char_def hex_value_def Let_def of_nat_diff nat_diff_distrib')

lemma atoulx_exact:
  "v < 2 ^ 32 \<Longrightarrow>
   (fst (atoulx s (of_nat v)) = 0 \<longleftrightarrow> (\<forall>c \<in> set s. is_hex_char c) \<and> hex_num v s < 2 ^ 32) \<and>
   (fst (atoulx s (of_nat v)) = 0 \<longrightarrow> snd (atoulx s (of_nat v)) = of_nat (hex_num v s))"
proof (induction s arbitrary: v)
  case (Cons c s)
  show ?case
  proof (cases "is_hex_char c")
    case True
    let ?n = "16 * v + nat (hex_value c)"
    note h = hex_digit_word [OF True]
    have u: "unat (of_nat v :: cuint) = v" using Cons.prems by (simp add: unat_of_nat)
    have "v < 0x10000000 \<longleftrightarrow> ?n < 2 ^ 32" using conjunct2 [OF h] by auto
    then have lim: "(of_nat v :: cuint) < 0x10000000 \<longleftrightarrow> ?n < 2 ^ 32" using u by (simp add: word_less_nat_alt)
    have n: "push_bit 4 (of_nat v :: cuint) + of_nat (nat (hex_value c)) = of_nat ?n" by (simp add: push_bit_eq_mult)
    show ?thesis
    proof (cases "?n < 2 ^ 32")
      case t: True
      then show ?thesis using Cons.IH [OF t] True lim n h by (simp add: Let_def hex_upper)
    next
      case False
      then have "\<not> hex_num ?n s < 2 ^ 32" using hex_num_ge [of ?n s] by linarith
      then show ?thesis using False True lim by (simp add: Let_def hex_upper)
    qed
  qed (simp add: Let_def hex_upper)
qed simp

definition denotes :: "string \<Rightarrow> nat \<Rightarrow> bool" where
  "denotes s n \<longleftrightarrow>
     (if \<exists>h. s = ''0x'' @ h \<or> s = ''0X'' @ h
      then drop 2 s \<noteq> [] \<and> (\<forall>c \<in> set (drop 2 s). is_hex_char c) \<and> n = hex_num 0 (drop 2 s)
      else (\<forall>c \<in> set s. is_digit_char c) \<and> n = digits_acc 0 s)"

text \<open>os_str2number succeeds exactly for the strings that denote a number below 2^32, in decimal or behind 0x in
  hexadecimal, and gives that number; there is no wrap-around.\<close>

theorem str2number_exact:
  "(fst (os_str2number s) = 0 \<longleftrightarrow> (\<exists>n < 2 ^ 32. denotes s n)) \<and>
   (\<forall>n < 2 ^ 32. denotes s n \<longrightarrow> snd (os_str2number s) = Some (of_nat n))"
proof (cases "\<exists>h. s = ''0x'' @ h \<or> s = ''0X'' @ h")
  case True
  then obtain h where h: "s = ''0x'' @ h \<or> s = ''0X'' @ h" by blast
  then have "drop 2 s = h" "take 1 s = ''0''" "take 1 (drop 1 s) = ''x'' \<or> take 1 (drop 1 s) = ''X''" by auto
  then show ?thesis
    using atoulx_exact [of 0 h] h by (auto simp: os_str2number_def denotes_def)
next
  case False
  have "\<not> (take 1 s = ''0'' \<and> (take 1 (drop 1 s) = ''x'' \<or> take 1 (drop 1 s) = ''X''))"
  proof
    assume "take 1 s = ''0'' \<and> (take 1 (drop 1 s) = ''x'' \<or> take 1 (drop 1 s) = ''X'')"
    then have "s = ''0x'' @ drop 2 s \<or> s = ''0X'' @ drop 2 s"
      by (cases s; cases "tl s") auto
    then show False using False by blast
  qed
  then show ?thesis
    using atoul_exact [of 0 s] False by (auto simp: os_str2number_def denotes_def)
qed

lemma str2number_exact_witness:
  "snd (os_str2number ''0xfF'') = Some 255"
proof -
  have "denotes ''0xfF'' 255" by (auto simp: denotes_def is_hex_char_def is_digit_char_def hex_value_def)
  then show ?thesis using conjunct2 [OF str2number_exact, rule_format, of 255 "''0xfF''"] by simp
qed

end
