(* ===== verification/UpgradeFacts.thy ===== *)
theory UpgradeFacts
  imports Upgrade WrapperFacts
begin

text \<open>
  What the network upgrade promises: after any messages, a complete transfer hands the file to the upgrade exactly
  once; and what happens when the file cannot be written.
\<close>

section \<open>The state between messages\<close>

definition upg_inv :: "upg_st \<Rightarrow> bool" where
  "upg_inv st \<longleftrightarrow> report_process (upg_handle st) = 0 \<and> (\<not> file_open (upg_handle st) \<longrightarrow> count_len (upg_handle st) = 0)"

definition upg_init :: upg_st where
  "upg_init = \<lparr>upg_handle = closed_handle, upg_file = [], upg_errno = 0, upg_calls = []\<rparr>"

lemma reset_upg_inv [simp]: "upg_inv st \<Longrightarrow> upg_inv (reset_upg st)"
  by (simp add: reset_upg_def upg_inv_def closed_handle_def)

lemma upg_call_simps [simp]:
  "upg_handle (upg_call c st) = upg_handle st" "upg_file (upg_call c st) = upg_file st"
  "upg_errno (upg_call c st) = upg_errno st" "upg_calls (upg_call c st) = upg_calls st @ [c]"
  by (simp_all add: upg_call_def)

lemma upg_inv_call [simp]: "upg_inv (upg_call c st) = upg_inv st"
  by (simp add: upg_inv_def)

lemma upgrade_start_inv:
  "upgrade_start_file env path msg st = Some (ret, msg', st') \<Longrightarrow> upg_inv st \<Longrightarrow> upg_inv st'"
  by (auto simp: upgrade_start_file_def upg_failed_def Let_def split: if_splits)

lemma recv_inv:
  assumes "msg_net_upgrade_recv env msg st = Some (ret, msg', st')" "upg_inv st"
  shows "upg_inv st'"
proof -
  have I: "upg_inv (reset_upg (st\<lparr>upg_file := a, upg_errno := b, upg_handle := h\<rparr>))" if "report_process h = 0" "file_open h" for a b h
    using that by (simp add: reset_upg_def upg_inv_def closed_handle_def)
  show ?thesis
    using assms upgrade_start_inv I
    by (auto simp: msg_net_upgrade_recv_def Let_def upg_inv_def split: if_splits option.splits; fastforce)
qed

lemma main_upgrad_inv:
  assumes "main_msg_upgrad env msg st = Some (ret, msg', st')" "upg_inv st"
  shows "upg_inv st'"
proof -
  have "upg_inv st'" if "msg_net_upgrade_req env msg st = Some (ret, msg', st')"
    using that assms(2) reset_upg_inv [OF assms(2)]
    by (auto simp: msg_net_upgrade_req_def upg_failed_def Let_def upg_inv_def reset_upg_def closed_handle_def split: if_splits)
  then show ?thesis
    using assms recv_inv upgrade_start_inv
    by (auto simp: main_msg_upgrad_def msg_upgrade_req_def msg_upgrad_pro_def msg_upgrad_find_file_def upg_failed_def Let_def
        split: if_splits option.splits)
qed

lemma upg_run_inv: "upg_run xs st = Some st' \<Longrightarrow> upg_inv st \<Longrightarrow> upg_inv st'"
proof (induction xs arbitrary: st)
  case (Cons x xs)
  obtain env msg where x: "x = (env, msg)" by (cases x)
  obtain ret msg' s where s: "main_msg_upgrad env msg st = Some (ret, msg', s)" "upg_run xs s = Some st'"
    using Cons.prems(1) x by (auto split: option.splits)
  show ?case by (rule Cons.IH [OF s(2) main_upgrad_inv [OF s(1) Cons.prems(2)]])
qed simp

section \<open>A transfer\<close>

text \<open>The device while it takes a file: so many packets and bytes have come.\<close>

definition receiving :: "cuint \<Rightarrow> nat \<Rightarrow> nat \<Rightarrow> nat \<Rightarrow> byte list \<Rightarrow> upg_st \<Rightarrow> bool" where
  "receiving session npack sz i got st \<longleftrightarrow> upg_errno st \<noteq> EIO \<and> upg_file st = got \<and>
     upg_handle st = \<lparr>report_process = 0, upgrad_session = session, file_open = True, total_len = of_nat sz,
       count_len = of_nat (length got), packet_num = of_nat i, total_packet = of_nat npack\<rparr>"

definition good_upg_env :: "upg_env \<Rightarrow> bool" where
  "good_upg_env e \<longleftrightarrow> 0 \<le> start_ret e \<and> (\<forall>a \<in> set (file_writes e). moves a) \<and> MAX_BLOCK_SIZE \<le> moving (file_writes e)"

definition bin_msg :: "cuint \<Rightarrow> nat \<Rightarrow> byte list \<Rightarrow> sdk_msg" where
  "bin_msg session i block = tool_msg 1 (le32 0 @ le32 session @ le32 (of_nat i) @ le32 (of_nat (length block)) @ block)"

lemma bin_msg_fields:
  "get32 (drop 4 (msg_data (bin_msg session i block))) = session"
  "get32 (drop 12 (msg_data (bin_msg session i block))) = of_nat (length block)"
  "length (msg_data (bin_msg session i block)) = 16 + length block"
  "slice 16 (length block) (msg_data (bin_msg session i block)) = block" "msg_args (bin_msg session i block) = 1"
  by (simp_all add: bin_msg_def tool_msg_def slice_def)

lemma recv_packet:
  assumes "receiving session npack sz i got st" "good_upg_env e" "length block \<le> MAX_BLOCK_SIZE"
  shows "\<exists>err. err \<noteq> EIO \<and> main_msg_upgrad e (bin_msg session i block) st =
    (let st = st\<lparr>upg_file := got @ block, upg_errno := err,
           upg_handle := (upg_handle st)\<lparr>count_len := of_nat (length got + length block), packet_num := of_nat (Suc i)\<rparr>\<rparr> in
     if (of_nat (Suc i) :: cuint) = of_nat npack \<and> (of_nat (length got + length block) :: cuint) = of_nat sz
     then Some (0, (bin_msg session i block)\<lparr>msg_size := 0\<rparr>,
            upg_call UpgLogFlush (upg_call (UpgLog LOG_MAJOR_OPERATE 9)
              (upg_call (StartFile DEFAULT_UPG_FILE (got @ block)) (reset_upg st))))
     else Some (0, (bin_msg session i block)\<lparr>msg_size := 0\<rparr>, st))"
proof -
  have w: "\<forall>a \<in> set (file_writes e). moves a" "length block \<le> moving (file_writes e)" "\<not> start_ret e < 0"
    using assms(2,3) by (auto simp: good_upg_env_def)
  obtain err where err: "err \<noteq> EIO" "os_writen (file_writes e) (upg_errno st) block = Some (int (length block), err, block)"
    using writen_complete [OF w(1) _ w(2), of "upg_errno st" "int (length block)"] assms(1)
    by (auto simp: receiving_def os_writen_def)
  have u: "unat (of_nat (length block) :: cuint) = length block"
    using assms(3) by (simp add: unat_of_nat MAX_BLOCK_SIZE_def)
  have f: "upg_file (reset_upg s) = upg_file s" for s by (simp add: reset_upg_def)
  show ?thesis
    using err assms(1) w(3)
    by (intro exI [of _ err]) (simp add: main_msg_upgrad_def msg_net_upgrade_recv_def bin_msg_fields u receiving_def Let_def
        upgrade_start_file_def f add.commute)
qed

lemma transfer_packets:
  "receiving session npack sz i got st \<Longrightarrow> i + Suc n = npack \<Longrightarrow> npack < 2 ^ 32 \<Longrightarrow>
   sz = length got + length f \<Longrightarrow> n * MAX_BLOCK_SIZE \<le> length f \<Longrightarrow> length f < Suc n * MAX_BLOCK_SIZE \<Longrightarrow>
   length envs = Suc n \<Longrightarrow> \<forall>e \<in> set envs. good_upg_env e \<Longrightarrow>
   \<exists>msgs st'. tool_packets session npack i (Suc n) f = Some msgs \<and> upg_run (zip envs msgs) st = Some st' \<and>
     upg_calls st' = upg_calls st @ [StartFile DEFAULT_UPG_FILE (got @ f), UpgLog LOG_MAJOR_OPERATE 9, UpgLogFlush] \<and>
     \<not> file_open (upg_handle st')"
proof (induction n arbitrary: i got st f envs)
  case 0
  then obtain e where e: "envs = [e]" "good_upg_env e" by (auto simp: length_Suc_conv)
  have f: "take MAX_BLOCK_SIZE f = f" "length f \<le> MAX_BLOCK_SIZE" using 0(6) by simp_all
  have c: "(of_nat (Suc i) :: cuint) = of_nat npack \<and> (of_nat (length got + length f) :: cuint) = of_nat sz" using 0(2,4) by simp
  have p: "tool_packets session npack i (Suc 0) f = Some [bin_msg session i f]"
  proof -
    have "i = npack - 1" using 0(2) by simp
    then show ?thesis using f(1) by (simp add: bin_msg_def Let_def)
  qed
  obtain err where r: "main_msg_upgrad e (bin_msg session i f) st = Some (0, (bin_msg session i f)\<lparr>msg_size := 0\<rparr>,
      upg_call UpgLogFlush (upg_call (UpgLog LOG_MAJOR_OPERATE 9) (upg_call (StartFile DEFAULT_UPG_FILE (got @ f))
        (reset_upg (st\<lparr>upg_file := got @ f, upg_errno := err,
           upg_handle := (upg_handle st)\<lparr>count_len := of_nat (length got + length f), packet_num := of_nat (Suc i)\<rparr>\<rparr>)))))"
    using recv_packet [OF 0(1) e(2) f(2)] c by (auto simp: Let_def)
  then show ?case using p e(1) 0(1) by (simp add: reset_upg_def receiving_def closed_handle_def)
next
  case (Suc n)
  let ?b = "take MAX_BLOCK_SIZE f"
  obtain e es where e: "envs = e # es" "good_upg_env e" "length es = Suc n" "\<forall>e \<in> set es. good_upg_env e"
    using Suc.prems(7,8) by (cases envs) auto
  have b: "length ?b = MAX_BLOCK_SIZE" using Suc.prems(5) by simp
  have "Suc i < npack" using Suc.prems(2) by simp
  then have c: "(of_nat (Suc i) :: cuint) \<noteq> of_nat npack"
    using Suc.prems(3) by (simp add: word_unat_eq_iff unat_of_nat del: of_nat_Suc)
  obtain err where r: "err \<noteq> EIO" "main_msg_upgrad e (bin_msg session i ?b) st = Some (0, (bin_msg session i ?b)\<lparr>msg_size := 0\<rparr>,
      st\<lparr>upg_file := got @ ?b, upg_errno := err,
           upg_handle := (upg_handle st)\<lparr>count_len := of_nat (length got + length ?b), packet_num := of_nat (Suc i)\<rparr>\<rparr>)"
    using recv_packet [OF Suc.prems(1) e(2), of ?b] b c by (auto simp: Let_def)
  let ?st = "st\<lparr>upg_file := got @ ?b, upg_errno := err,
           upg_handle := (upg_handle st)\<lparr>count_len := of_nat (length got + length ?b), packet_num := of_nat (Suc i)\<rparr>\<rparr>"
  have "receiving session npack sz (Suc i) (got @ ?b) ?st" using Suc.prems(1) r(1) by (simp add: receiving_def)
  moreover have "sz = length (got @ ?b) + length (drop MAX_BLOCK_SIZE f)" using Suc.prems(4,5) by simp
  moreover have "n * MAX_BLOCK_SIZE \<le> length (drop MAX_BLOCK_SIZE f)" "length (drop MAX_BLOCK_SIZE f) < Suc n * MAX_BLOCK_SIZE"
    using Suc.prems(5,6) by (simp_all add: MAX_BLOCK_SIZE_def)
  ultimately obtain msgs st' where
    "tool_packets session npack (Suc i) (Suc n) (drop MAX_BLOCK_SIZE f) = Some msgs" "upg_run (zip es msgs) ?st = Some st'"
    "upg_calls st' = upg_calls ?st @ [StartFile DEFAULT_UPG_FILE ((got @ ?b) @ drop MAX_BLOCK_SIZE f), UpgLog LOG_MAJOR_OPERATE 9, UpgLogFlush]"
    "\<not> file_open (upg_handle st')"
    using Suc.IH [of "Suc i" "got @ ?b" ?st "drop MAX_BLOCK_SIZE f" es] Suc.prems(2,3) e(3,4) by auto
  moreover have "tool_packets session npack i (Suc (Suc n)) f = Some (bin_msg session i ?b # msgs)"
    using calculation(1) b by (subst tool_packets.simps) (simp add: bin_msg_def Let_def del: tool_packets.simps)
  ultimately show ?case using e(1) r(2) by simp
qed

text \<open>C25: Whatever messages came before, a transfer of a package below 2 GB that the device accepts and can write hands
  exactly the bytes of the package to the upgrade, once, and closes the transfer; the tool sends an empty last packet
  when the length is a multiple of the block size.\<close>

theorem transfer_starts_upgrade:
  assumes "upg_run before upg_init = Some st" "upg_errno st \<noteq> EIO" "\<not> tid_runing env" "can_open env"
    and "length f < 2 ^ 31" "length envs = tool_total f" "\<forall>e \<in> set envs. good_upg_env e"
  shows "\<exists>reply st1 msgs st'. main_msg_upgrad env (tool_request f) st = Some (0, reply, st1) \<and>
    tool_packets (get32 (msg_data reply)) (tool_total f) 0 (tool_total f) f = Some msgs \<and>
    upg_run (zip envs msgs) st1 = Some st' \<and>
    upg_calls st' = upg_calls st @ [SetPercent 0, StartFile DEFAULT_UPG_FILE f, UpgLog LOG_MAJOR_OPERATE 9, UpgLogFlush] \<and>
    \<not> file_open (upg_handle st')"
proof -
  have I: "upg_inv st" using upg_run_inv [OF assms(1)] by (simp add: upg_inv_def upg_init_def closed_handle_def)
  let ?n = "length f div MAX_BLOCK_SIZE" and ?npack = "tool_total f" and ?s = "rand_session env"
  have n: "tool_total f = Suc ?n" by (simp add: tool_total_def MAX_BLOCK_SIZE_def)
  have "?n \<le> length f" by (rule div_le_dividend)
  then have "?n < 2 ^ 31" using assms(5) by (rule le_less_trans)
  then have lt: "?npack < 2 ^ 32" unfolding n by simp
  let ?reply = "tool_msg 0 (le32 ?s @ le32 (of_nat ?npack) @ le32 (of_nat (length f)))\<lparr>msg_size := 12\<rparr>"
  let ?st = "upg_call (SetPercent 0) (st\<lparr>upg_file := [], upg_handle := \<lparr>report_process = 0, upgrad_session = ?s, file_open = True,
    total_len = of_nat (length f), count_len = 0, packet_num = 0, total_packet = of_nat ?npack\<rparr>\<rparr>)"
  have req: "main_msg_upgrad env (tool_request f) st = Some (0, ?reply, ?st)"
  proof -
    obtain h where h: "upg_handle st = h" by simp
    show ?thesis
      using I assms(3,4) unfolding upg_inv_def h
      by (cases h) (auto simp: main_msg_upgrad_def msg_net_upgrade_req_def tool_request_def tool_msg_def Let_def put_at_def
          reset_upg_def closed_handle_def upg_call_def h)
  qed
  have "receiving ?s ?npack (length f) 0 [] ?st" using assms(2) by (simp add: receiving_def)
  moreover have "?n * MAX_BLOCK_SIZE \<le> length f" "length f < Suc ?n * MAX_BLOCK_SIZE"
    by (simp_all add: MAX_BLOCK_SIZE_def div_times_less_eq_dividend)
  ultimately obtain msgs st' where "tool_packets ?s ?npack 0 (Suc ?n) f = Some msgs" "upg_run (zip envs msgs) ?st = Some st'"
    "upg_calls st' = upg_calls ?st @ [StartFile DEFAULT_UPG_FILE ([] @ f), UpgLog LOG_MAJOR_OPERATE 9, UpgLogFlush]"
    "\<not> file_open (upg_handle st')"
    using transfer_packets [of ?s ?npack "length f" 0 "[]" ?st ?n f envs] n lt assms(6,7) by auto
  then show ?thesis using req n by (auto simp: tool_msg_def simp del: tool_packets.simps)
qed

definition sample_upg_env :: "io_answer list \<Rightarrow> upg_env" where
  "sample_upg_env ws = \<lparr>tid_runing = False, start_ret = 0, rand_session = 77, can_open = True, file_writes = ws, upg_status = 0, usb_path = None\<rparr>"

lemma transfer_starts_upgrade_witness:
  "\<exists>reply st1 msgs st'. main_msg_upgrad (sample_upg_env []) (tool_request [1, 2, 3]) upg_init = Some (0, reply, st1) \<and>
    tool_packets (get32 (msg_data reply)) (tool_total [1, 2, 3]) 0 (tool_total [1, 2, 3]) [1, 2, 3] = Some msgs \<and>
    upg_run (zip [sample_upg_env (replicate 4056 (Moved 1))] msgs) st1 = Some st' \<and>
    upg_calls st' = [SetPercent 0, StartFile DEFAULT_UPG_FILE [1, 2, 3], UpgLog LOG_MAJOR_OPERATE 9, UpgLogFlush] \<and>
    \<not> file_open (upg_handle st')"
proof -
  have m: "moving (replicate n (Moved 1)) = n" for n by (induction n) simp_all
  have "good_upg_env (sample_upg_env (replicate 4056 (Moved 1)))"
    using m [of 4056] by (simp add: good_upg_env_def sample_upg_env_def moves_def MAX_BLOCK_SIZE_def)
  then show ?thesis
    using transfer_starts_upgrade [of "[]" upg_init "sample_upg_env []" "[1, 2, 3]" "[sample_upg_env (replicate 4056 (Moved 1))]"]
    by (simp add: tool_total_def MAX_BLOCK_SIZE_def EIO_def sample_upg_env_def upg_init_def)
qed

text \<open>The device does not look at the result of its writes: when the last packet of a transfer arrives, the upgrade is
  started with whatever has reached the file, also when the write of this packet has failed.\<close>

theorem failed_write_still_upgrades:
  assumes "receiving session (Suc i) (length got + length block) i got st"
    and "length block \<le> MAX_BLOCK_SIZE" "os_writen (file_writes env) (upg_errno st) block = Some (ret, err, out)" "0 \<le> start_ret env"
  shows "\<exists>reply st'. main_msg_upgrad env (bin_msg session i block) st = Some (0, reply, st') \<and>
    upg_calls st' = upg_calls st @ [StartFile DEFAULT_UPG_FILE (got @ out), UpgLog LOG_MAJOR_OPERATE 9, UpgLogFlush]"
proof -
  have u: "unat (of_nat (length block) :: cuint) = length block"
    using assms(2) by (simp add: unat_of_nat MAX_BLOCK_SIZE_def)
  have f: "upg_file (reset_upg s) = upg_file s" "upg_calls (reset_upg s) = upg_calls s" for s by (simp_all add: reset_upg_def)
  show ?thesis
    using assms(1,3,4)
    by (simp add: receiving_def main_msg_upgrad_def msg_net_upgrade_recv_def bin_msg_fields u Let_def upgrade_start_file_def f add.commute)
qed

lemma failed_write_still_upgrades_witness:
  "\<exists>reply st'. main_msg_upgrad (sample_upg_env [Failed 28]) (bin_msg 77 0 [1, 2, 3])
      \<lparr>upg_handle = \<lparr>report_process = 0, upgrad_session = 77, file_open = True, total_len = 3, count_len = 0, packet_num = 0, total_packet = 1\<rparr>,
       upg_file = [], upg_errno = 0, upg_calls = []\<rparr> = Some (0, reply, st') \<and>
    upg_calls st' = [StartFile DEFAULT_UPG_FILE [], UpgLog LOG_MAJOR_OPERATE 9, UpgLogFlush]"
proof -
  let ?st = "\<lparr>upg_handle = \<lparr>report_process = 0, upgrad_session = 77, file_open = True, total_len = 3, count_len = 0, packet_num = 0, total_packet = 1\<rparr>,
       upg_file = [], upg_errno = 0, upg_calls = []\<rparr>"
  have "receiving 77 (Suc 0) (length [] + length [1, 2, 3 :: byte]) 0 [] ?st" by (simp add: receiving_def EIO_def)
  moreover have "os_writen (file_writes (sample_upg_env [Failed 28])) (upg_errno ?st) [1, 2, 3] = Some (-1, 28, [])"
    by (simp add: os_writen_def sample_upg_env_def EINTR_def)
  ultimately show ?thesis
    using failed_write_still_upgrades [of 77 0 "[]" "[1, 2, 3]" ?st "sample_upg_env [Failed 28]" "-1" 28 "[]"]
    by (simp add: MAX_BLOCK_SIZE_def sample_upg_env_def)
qed

end
