(* ===== verification/UpgradePkg.thy ===== *)
theory UpgradePkg
  imports Wrapper
begin

text \<open>
  The upgrade packages: the tool that makes them (\<^verbatim>\<open>x86_tool/mkupgrade.c\<close>) with their layout from \<^verbatim>\<open>inc/upgrade.h\<close>.
  A package is a head of 64 bytes, one description of 140 bytes for each file, and the files one after the other. The
  input files are a map, the table of the flash partitions and the date are arguments, and so is what the calls of
  \<^verbatim>\<open>lseek\<close>, \<^verbatim>\<open>read\<close> and \<^verbatim>\<open>write\<close> answer; the length of an input file, which is a regular file, is that of its bytes.
\<close>

section \<open>Layout\<close>

definition pkg_head_size :: nat where "pkg_head_size = 64"
definition upg_file_size :: nat where "upg_file_size = 140"
definition MAX_FIELD_SIZE :: nat where "MAX_FIELD_SIZE = 16"

record upgrade_file =
  uf_name :: "byte list"
  uf_type :: "byte list"
  uf_ver :: "byte list"
  uf_addr :: cuint
  uf_size :: cuint
  uf_dst :: "byte list"
  uf_crc32 :: cuint

record upgrade_packet =
  up_crc32 :: cuint
  up_device :: "byte list"
  up_ver :: "byte list"
  up_date :: "byte list"
  up_file_num :: cuint
  up_size :: cuint
  up_ex_addr :: cuint
  up_file :: "upgrade_file list"

text \<open>\<^verbatim>\<open>strncpy(field, s, n)\<close> into a field of \<open>w\<close> bytes that are 0.\<close>

definition field :: "nat \<Rightarrow> nat \<Rightarrow> string \<Rightarrow> byte list" where
  "field w n s = (let b = take n (List.map of_char s) in b @ replicate (w - length b) 0)"

definition enc_file :: "upgrade_file \<Rightarrow> byte list" where
  "enc_file f = uf_name f @ uf_type f @ uf_ver f @ le32 (uf_addr f) @ le32 (uf_size f) @ uf_dst f @ le32 (uf_crc32 f)"

definition dec_file :: "byte list \<Rightarrow> upgrade_file" where
  "dec_file b = \<lparr>uf_name = slice 0 64 b, uf_type = slice 64 16 b, uf_ver = slice 80 16 b, uf_addr = get32 (drop 96 b),
     uf_size = get32 (drop 100 b), uf_dst = slice 104 32 b, uf_crc32 = get32 (drop 136 b)\<rparr>"

definition enc_head :: "upgrade_packet \<Rightarrow> byte list" where
  "enc_head p = le32 (up_crc32 p) @ up_device p @ up_ver p @ up_date p @ le32 (up_file_num p) @ le32 (up_size p) @
     le32 (up_ex_addr p) @ concat (List.map enc_file (up_file p))"

text \<open>\<^verbatim>\<open>pkg_read_head\<close>: the head and the descriptions, into a buffer of 16 KB that is 0; the second read may be
  short. \<open>Inl\<close>: more descriptions than the buffer has room for.\<close>

fun dec_files :: "nat \<Rightarrow> byte list \<Rightarrow> upgrade_file list" where
  "dec_files 0 b = []"
| "dec_files (Suc n) b = dec_file (take upg_file_size b) # dec_files n (drop upg_file_size b)"

definition packet_info_size :: nat where "packet_info_size = 16384"

definition pkg_read_head :: "byte list \<Rightarrow> unit + upgrade_packet option" where
  "pkg_read_head b =
     (if length b < pkg_head_size then Inr None
      else let n = unat (get32 (drop 52 b)); got = take (n * upg_file_size) (drop pkg_head_size b) in
        if pkg_head_size + n * upg_file_size > packet_info_size then Inl ()
        else Inr (Some \<lparr>up_crc32 = get32 b, up_device = slice 4 16 b, up_ver = slice 20 16 b, up_date = slice 36 16 b,
             up_file_num = get32 (drop 52 b), up_size = get32 (drop 56 b), up_ex_addr = get32 (drop 60 b),
             up_file = dec_files n (got @ replicate (n * upg_file_size - length got) 0)\<rparr>))"

section \<open>Names\<close>

text \<open>The first tokens of a name, up to \<open>n\<close>; \<open>None\<close> is a token that is too long.\<close>

fun parse_tokens :: "nat \<Rightarrow> string option \<Rightarrow> string list option" where
  "parse_tokens 0 left = Some []"
| "parse_tokens (Suc n) None = Some []"
| "parse_tokens (Suc n) (Some s) =
     (let (token, left) = strsep (CHR ''@'') s in
      if length token \<ge> MAX_FIELD_SIZE then None
      else (case parse_tokens n left of None \<Rightarrow> None | Some ts \<Rightarrow> Some (token # ts)))"

definition token_at :: "string list \<Rightarrow> nat \<Rightarrow> string" where
  "token_at ts i = (if i < length ts then ts ! i else '''')"

definition parse_device_type :: "string \<Rightarrow> (string \<times> string) option" where
  "parse_device_type s = map_option (\<lambda>ts. (token_at ts 0, token_at ts 1)) (parse_tokens 2 (Some s))"

definition parse_file_name :: "string \<Rightarrow> (string \<times> string \<times> string) option" where
  "parse_file_name s = map_option (\<lambda>ts. (token_at ts 0, token_at ts 1, token_at ts 2)) (parse_tokens 3 (Some s))"

section \<open>Partitions\<close>

record mtd_path =
  mtd_name :: string
  mtd_type :: string
  mtd_dst :: string
  mtd_size :: nat

type_synonym device_table = "(string \<times> mtd_path list) list"

text \<open>The table of the Grain build; the table ends with a device whose type and partition are called NULL.\<close>

definition grain_device :: device_table where
  "grain_device =
     [(''grain_813X'',
        [\<lparr>mtd_name = ''uboot'', mtd_type = ''uboot'', mtd_dst = ''/dev/mtd0'', mtd_size = 0x60000\<rparr>,
         \<lparr>mtd_name = ''kernel'', mtd_type = ''image'', mtd_dst = ''/dev/mtd1'', mtd_size = 0x300000\<rparr>,
         \<lparr>mtd_name = ''rootfs'', mtd_type = ''image'', mtd_dst = ''/dev/mtd2'', mtd_size = 0x400000\<rparr>,
         \<lparr>mtd_name = ''config'', mtd_type = ''jffs2'', mtd_dst = ''/dev/mtd3'', mtd_size = 0x100000\<rparr>,
         \<lparr>mtd_name = ''app'', mtd_type = ''jffs2'', mtd_dst = ''/dev/mtd4'', mtd_size = 0x7A0000\<rparr>,
         \<lparr>mtd_name = ''sysparam_upg'', mtd_type = ''file'', mtd_dst = ''/config/param/'', mtd_size = 0x100000\<rparr>,
         \<lparr>mtd_name = ''app.tgz'', mtd_type = ''file'', mtd_dst = ''/mnt/mtd/'', mtd_size = 0x7A0000\<rparr>,
         \<lparr>mtd_name = ''startapp'', mtd_type = ''file'', mtd_dst = ''/mnt/mtd/'', mtd_size = 0x7A0000\<rparr>]),
      (''NULL'', [\<lparr>mtd_name = ''NULL'', mtd_type = ''NULL'', mtd_dst = ''NULL'', mtd_size = 0\<rparr>])]"

text \<open>Both branches of \<^verbatim>\<open>_check_device\<close> look for the name only; every row of the table has a type.\<close>

fun check_device :: "device_table \<Rightarrow> string \<Rightarrow> string \<Rightarrow> string \<Rightarrow> mtd_path option" where
  "check_device [] device_type name type = None"
| "check_device ((d, mtds) # ds) device_type name type =
     (if device_type \<noteq> d then check_device ds device_type name type
      else case List.find (\<lambda>m. mtd_name m = name) mtds of
          None \<Rightarrow> check_device ds device_type name type
        | Some m \<Rightarrow> Some m)"

section \<open>Making a package\<close>

text \<open>A write behind the end of the file leaves zeros before it.\<close>

definition write_at :: "nat \<Rightarrow> byte list \<Rightarrow> byte list \<Rightarrow> byte list" where
  "write_at off bs m = (if bs = [] then m else put_at off bs (m @ replicate (off + length bs - length m) 0))"

text \<open>What the calls of \<^verbatim>\<open>lseek\<close>, \<^verbatim>\<open>read\<close> and \<^verbatim>\<open>write\<close> answer: each call, whatever its kind, takes the next number.\<close>

datatype io_call = Lseek | Read | Write

record pkg_io =
  answers :: "io_call \<Rightarrow> nat \<Rightarrow> io_answer"
  calls :: nat

definition ask :: "io_call \<Rightarrow> pkg_io \<Rightarrow> io_answer \<times> pkg_io" where
  "ask c w = (answers w c (calls w), w\<lparr>calls := Suc (calls w)\<rparr>)"

definition ask_lseek :: "pkg_io \<Rightarrow> bool \<times> pkg_io" where
  "ask_lseek w = (let (a, w) = ask Lseek w in (case a of Moved k \<Rightarrow> True | Failed e \<Rightarrow> False, w))"

definition ask_moved :: "io_call \<Rightarrow> nat \<Rightarrow> pkg_io \<Rightarrow> nat \<times> pkg_io" where
  "ask_moved c n w = (let (a, w) = ask c w in (case a of Moved k \<Rightarrow> min k n | Failed e \<Rightarrow> 0, w))"

text \<open>\<^verbatim>\<open>pkg_add_file\<close> copies in rounds of 8 KB. A round asks for its part of the file and writes it whatever the two
  calls answer: what has not been read is what the buffer held before, what has not been written is left out.\<close>

fun pkg_copy_loop :: "nat \<Rightarrow> nat \<Rightarrow> nat \<Rightarrow> byte list \<Rightarrow> byte list \<Rightarrow> byte list \<Rightarrow> pkg_io \<Rightarrow> byte list \<times> pkg_io" where
  "pkg_copy_loop 0 pos left_size src buf out w = (out, w)"
| "pkg_copy_loop (Suc fuel) pos left_size src buf out w =
     (if left_size = 0 then (out, w)
      else let copy_size = min left_size BUCKET_SIZE;
               (n, w) = ask_moved Read (min copy_size (length src)) w;
               buf = put_at 0 (take n src) buf;
               (k, w) = ask_moved Write copy_size w in
        pkg_copy_loop fuel (pos + k) (left_size - copy_size) (drop n src) buf (write_at pos (take k buf) out) w)"

definition pkg_add_file :: "nat \<Rightarrow> byte list \<Rightarrow> byte list \<Rightarrow> byte list \<Rightarrow> pkg_io \<Rightarrow> int \<times> byte list \<times> pkg_io" where
  "pkg_add_file pkg_offset bs buf out w =
     (let (ok, w) = ask_lseek w in
      if \<not> ok then (-1, out, w)
      else (0, pkg_copy_loop (Suc (length bs)) pkg_offset (length bs) bs buf out w))"

text \<open>The files of the command line from number \<open>j\<close> on, with the offset that is kept between the calls; \<open>bufs\<close> is what the
  memory of the buffers holds. A file that has failed keeps its address and size of 0, and the tool goes on.\<close>

fun add_files :: "device_table \<Rightarrow> (string \<Rightarrow> byte list option) \<Rightarrow> (nat \<Rightarrow> byte list) \<Rightarrow> string \<Rightarrow> string list \<Rightarrow> nat \<Rightarrow>
    byte list \<times> upgrade_file list \<Rightarrow> pkg_io \<Rightarrow> (byte list \<times> upgrade_file list \<times> pkg_io) option" where
  "add_files table fs bufs device_type [] off (out, files) w = Some (out, files, w)"
| "add_files table fs bufs device_type (arg # args) off (out, files) w =
     (case parse_file_name arg of
        None \<Rightarrow> None
      | Some (name, type, ver) \<Rightarrow>
          (case fs arg of
             None \<Rightarrow> None
           | Some bs \<Rightarrow>
               (case check_device table device_type name type of
                  None \<Rightarrow> None
                | Some m \<Rightarrow>
                    if mtd_dst m = '''' \<or> length bs > mtd_size m then None
                    else let (ret, out, w) = pkg_add_file off bs (bufs (length files)) out w in
                      add_files table fs bufs device_type args (if ret = 0 then off + length bs else off)
                           (out, files @ [\<lparr>uf_name = field 64 16 name, uf_type = field 16 16 type, uf_ver = field 16 16 ver,
                               uf_addr = (if ret = 0 then of_nat off else 0), uf_size = (if ret = 0 then of_nat (length bs) else 0),
                               uf_dst = field 32 32 (mtd_dst m), uf_crc32 = 0\<rparr>]) w)))"

definition pkg_add_head :: "upgrade_packet \<Rightarrow> byte list \<Rightarrow> pkg_io \<Rightarrow> int \<times> byte list \<times> pkg_io" where
  "pkg_add_head p out w =
     (let p = p\<lparr>up_size := up_size p + sum_list (List.map uf_size (up_file p))\<rparr>;
          pkg_head_len = pkg_head_size + unat (up_file_num p) * upg_file_size;
          (ok, w) = ask_lseek w in
      if \<not> ok then (-1, out, w)
      else let (k, w) = ask_moved Write pkg_head_len w; out = write_at 0 (take k (enc_head p)) out in
        (if k \<noteq> pkg_head_len then -1 else 0, out, w))"

text \<open>\<open>Inl\<close>: an argument longer than the buffer of the parser, or more files than the buffer of the head has room for.
  \<open>Inr None\<close>: the package has been removed and the tool ends with an error. What \<^verbatim>\<open>pkg_add_head\<close> returns is not looked at.\<close>

definition mkupgrade :: "device_table \<Rightarrow> (string \<Rightarrow> byte list option) \<Rightarrow> (nat \<Rightarrow> byte list) \<Rightarrow> string \<Rightarrow> string \<Rightarrow> string list \<Rightarrow>
    pkg_io \<Rightarrow> unit + byte list option" where
  "mkupgrade table fs bufs date target args w =
     (if (\<exists>a \<in> set (target # args). length a \<ge> 1024) \<or> pkg_head_size + length args * upg_file_size > packet_info_size then Inl ()
      else case parse_device_type target of
          None \<Rightarrow> Inr None
        | Some (device_type, ver) \<Rightarrow>
            (case add_files table fs bufs device_type args (pkg_head_size + length args * upg_file_size) ([], []) w of
               None \<Rightarrow> Inr None
             | Some (out, files, w) \<Rightarrow>
                 (case pkg_add_head
                   \<lparr>up_crc32 = 0, up_device = field 16 16 device_type, up_ver = field 16 16 ver, up_date = field 16 15 date,
                    up_file_num = of_nat (length args), up_size = of_nat (length args * upg_file_size), up_ex_addr = 0,
                    up_file = files\<rparr> out w of (ret, out, w) \<Rightarrow> Inr (Some out))))"

end
