(* ===== verification/UpgradePkgFacts.thy ===== *)
theory UpgradePkgFacts
  imports UpgradePkg
begin

text \<open>
  What an upgrade package promises: its head can be read back, and every file lies at its address, untouched, and fits
  the partition it is meant for.
\<close>

section \<open>Encoding\<close>

definition file_wf :: "upgrade_file \<Rightarrow> bool" where
  "file_wf f \<longleftrightarrow> length (uf_name f) = 64 \<and> length (uf_type f) = 16 \<and> length (uf_ver f) = 16 \<and> length (uf_dst f) = 32"

definition packet_wf :: "upgrade_packet \<Rightarrow> bool" where
  "packet_wf p \<longleftrightarrow> length (up_device p) = 16 \<and> length (up_ver p) = 16 \<and> length (up_date p) = 16 \<and>
     (\<forall>f \<in> set (up_file p). file_wf f) \<and> unat (up_file_num p) = length (up_file p)"

lemma length_enc_file: "file_wf f \<Longrightarrow> length (enc_file f) = upg_file_size"
  by (simp add: enc_file_def file_wf_def upg_file_size_def)

lemma dec_enc_file: "file_wf f \<Longrightarrow> dec_file (enc_file f) = f"
  by (cases f) (simp add: dec_file_def enc_file_def file_wf_def slice_def)

lemma dec_enc_files: "\<forall>f \<in> set fs. file_wf f \<Longrightarrow> dec_files (length fs) (concat (List.map enc_file fs) @ r) = fs"
  by (induction fs) (simp_all add: length_enc_file dec_enc_file)

lemma length_enc_head: "packet_wf p \<Longrightarrow> length (enc_head p) = pkg_head_size + length (up_file p) * upg_file_size"
proof -
  assume "packet_wf p"
  moreover have "\<forall>f \<in> set fs. file_wf f \<Longrightarrow> length (concat (List.map enc_file fs)) = length fs * upg_file_size" for fs
    by (induction fs) (simp_all add: length_enc_file)
  ultimately show ?thesis by (simp add: enc_head_def packet_wf_def pkg_head_size_def)
qed

lemma read_enc_head:
  assumes "packet_wf p" "pkg_head_size + length (up_file p) * upg_file_size \<le> packet_info_size"
  shows "pkg_read_head (enc_head p @ r) = Inr (Some p)"
proof -
  let ?fs = "concat (List.map enc_file (up_file p))"
  have l: "length ?fs = length (up_file p) * upg_file_size"
    using length_enc_head [OF assms(1)] assms(1) by (simp add: enc_head_def packet_wf_def pkg_head_size_def)
  have e: "enc_head p @ r = (le32 (up_crc32 p) @ up_device p @ up_ver p @ up_date p @ le32 (up_file_num p) @ le32 (up_size p) @
     le32 (up_ex_addr p)) @ ?fs @ r" by (simp add: enc_head_def)
  have n: "get32 (drop 52 (enc_head p @ r)) = up_file_num p" "unat (up_file_num p) = length (up_file p)"
    using assms(1) by (simp_all add: enc_head_def packet_wf_def)
  have got: "take (length (up_file p) * upg_file_size) (drop pkg_head_size (enc_head p @ r)) = ?fs"
    unfolding e using assms(1) l by (simp add: packet_wf_def pkg_head_size_def)
  have fs: "dec_files (length (up_file p)) ?fs = up_file p"
    using dec_enc_files [of "up_file p" "[]"] assms(1) by (simp add: packet_wf_def)
  show ?thesis
    using assms(2) length_enc_head [OF assms(1)] fs l assms(1) unfolding pkg_read_head_def n got Let_def
    by (cases p) (simp add: enc_head_def packet_wf_def slice_def)
qed

lemma length_field: "n \<le> w \<Longrightarrow> length (field w n s) = w"
  by (simp add: field_def Let_def)

section \<open>Adding files\<close>

lemma write_at_end: "length out \<le> off \<Longrightarrow> bs \<noteq> [] \<Longrightarrow> write_at off bs out = out @ replicate (off - length out) 0 @ bs"
proof -
  assume l: "length out \<le> off" and b: "bs \<noteq> []"
  let ?z = "replicate (off + length bs - length out) (0 :: byte)"
  have "take off (out @ ?z) = out @ replicate (off - length out) 0" using l by (simp add: min_def)
  moreover have "drop (off + length bs) (out @ ?z) = []" using l by simp
  ultimately show ?thesis using b by (simp add: write_at_def put_at_def)
qed

text \<open>The calls move as many bytes as they are asked for, and none fails.\<close>

definition io_full :: "pkg_io \<Rightarrow> bool" where
  "io_full w \<longleftrightarrow> (\<forall>c i. \<exists>k \<ge> packet_info_size. answers w c i = Moved k)"

lemma ask_full:
  assumes "io_full w"
  shows "ask_lseek w = (True, w\<lparr>calls := Suc (calls w)\<rparr>)"
    and "n \<le> packet_info_size \<Longrightarrow> ask_moved c n w = (n, w\<lparr>calls := Suc (calls w)\<rparr>)"
    and "io_full (w\<lparr>calls := i\<rparr>)"
proof -
  show "io_full (w\<lparr>calls := i\<rparr>)" using assms by (simp add: io_full_def)
  obtain k where "answers w Lseek (calls w) = Moved k" using assms unfolding io_full_def by blast
  then show "ask_lseek w = (True, w\<lparr>calls := Suc (calls w)\<rparr>)" by (simp add: ask_lseek_def ask_def)
  obtain k where "packet_info_size \<le> k" "answers w c (calls w) = Moved k" using assms unfolding io_full_def by blast
  then show "n \<le> packet_info_size \<Longrightarrow> ask_moved c n w = (n, w\<lparr>calls := Suc (calls w)\<rparr>)"
    by (simp add: ask_moved_def ask_def)
qed

lemma copy_round_full:
  assumes "io_full w" "src \<noteq> []"
  shows "pkg_copy_loop (Suc fuel) pos (length src) src buf out w =
    pkg_copy_loop fuel (pos + min (length src) BUCKET_SIZE) (length (drop BUCKET_SIZE src)) (drop BUCKET_SIZE src)
      (put_at 0 (take BUCKET_SIZE src) buf) (write_at pos (take BUCKET_SIZE src) out) (w\<lparr>calls := Suc (Suc (calls w))\<rparr>)"
proof -
  have m: "min (length src) BUCKET_SIZE \<le> packet_info_size" by (simp add: BUCKET_SIZE_def packet_info_size_def)
  have t: "take (min (length src) BUCKET_SIZE) src = take BUCKET_SIZE src" "drop (min (length src) BUCKET_SIZE) src = drop BUCKET_SIZE src"
    by (cases "length src \<le> BUCKET_SIZE"; simp add: min_def)+
  have p: "take (min (length src) BUCKET_SIZE) (put_at 0 (take BUCKET_SIZE src) buf) = take BUCKET_SIZE src"
    by (simp add: put_at_def t)
  show ?thesis
    using assms ask_full(2) [OF assms(1) m] ask_full(2) [OF ask_full(3) [OF assms(1), of "Suc (calls w)"] m]
    by (simp add: t p min.absorb1 Let_def) (simp add: min_def)
qed

lemma add_file_end:
  "length bs < fuel \<Longrightarrow> length out \<le> off \<Longrightarrow> bs \<noteq> [] \<Longrightarrow> io_full w \<Longrightarrow>
   \<exists>i. pkg_copy_loop fuel off (length bs) bs buf out w = (out @ replicate (off - length out) 0 @ bs, w\<lparr>calls := i\<rparr>)"
proof (induction fuel arbitrary: off bs out buf w)
  case (Suc fuel)
  let ?b = "take BUCKET_SIZE bs" and ?o = "off + min (length bs) BUCKET_SIZE"
  have b: "?b \<noteq> []" using Suc.prems(3) by (simp add: BUCKET_SIZE_def)
  have w: "write_at off ?b out = out @ replicate (off - length out) 0 @ ?b" using write_at_end [OF Suc.prems(2) b] .
  have l: "length (write_at off ?b out) = ?o" using Suc.prems(2) unfolding w by simp
  show ?case unfolding copy_round_full [OF Suc.prems(4,3)]
  proof (cases "drop BUCKET_SIZE bs = []")
    case True
    then have "?b = bs" by simp
    moreover have "pkg_copy_loop fuel ?o 0 [] m out' w' = (out', w')" for m out' w' by (cases fuel) simp_all
    ultimately show "\<exists>i. pkg_copy_loop fuel ?o (length (drop BUCKET_SIZE bs)) (drop BUCKET_SIZE bs) (put_at 0 ?b buf) (write_at off ?b out)
        (w\<lparr>calls := Suc (Suc (calls w))\<rparr>) = (out @ replicate (off - length out) 0 @ bs, w\<lparr>calls := i\<rparr>)"
      using True w by auto
  next
    case False
    have "length (drop BUCKET_SIZE bs) < fuel" using Suc.prems(1,3) by (cases bs) (auto simp: BUCKET_SIZE_def)
    from Suc.IH [OF this _ False ask_full(3) [OF Suc.prems(4)], of "write_at off ?b out" ?o "put_at 0 ?b buf" "Suc (Suc (calls w))"]
    show "\<exists>i. pkg_copy_loop fuel ?o (length (drop BUCKET_SIZE bs)) (drop BUCKET_SIZE bs) (put_at 0 ?b buf) (write_at off ?b out)
        (w\<lparr>calls := Suc (Suc (calls w))\<rparr>) = (out @ replicate (off - length out) 0 @ bs, w\<lparr>calls := i\<rparr>)"
      using l by (simp add: w)
  qed
qed simp

text \<open>The package while files are added: nothing as long as the files are empty, then zeros for the head and the files.\<close>

definition pkg_body :: "nat \<Rightarrow> byte list \<Rightarrow> byte list" where
  "pkg_body h cs = (if cs = [] then [] else replicate h 0 @ cs)"

lemma pkg_add_body:
  assumes "io_full w"
  shows "\<exists>i. pkg_add_file (h + length cs) bs buf (pkg_body h cs) w = (0, pkg_body h (cs @ bs), w\<lparr>calls := i\<rparr>)"
proof (cases "bs = []")
  case True
  then show ?thesis by (simp add: pkg_add_file_def ask_full(1) [OF assms]) blast
next
  case False
  have "length (pkg_body h cs) \<le> h + length cs" by (simp add: pkg_body_def)
  then obtain i where "pkg_copy_loop (Suc (length bs)) (h + length cs) (length bs) bs buf (pkg_body h cs) (w\<lparr>calls := Suc (calls w)\<rparr>) =
      (pkg_body h cs @ replicate (h + length cs - length (pkg_body h cs)) 0 @ bs, w\<lparr>calls := i\<rparr>)"
    using add_file_end [OF lessI _ False ask_full(3) [OF assms, of "Suc (calls w)"]] by force
  then show ?thesis using False by (auto simp: pkg_add_file_def ask_full(1) [OF assms] pkg_body_def simp del: pkg_copy_loop.simps)
qed

text \<open>The description of a file at an offset.\<close>

definition describes :: "device_table \<Rightarrow> string \<Rightarrow> string \<Rightarrow> nat \<Rightarrow> byte list \<Rightarrow> upgrade_file \<Rightarrow> bool" where
  "describes table device_type arg off bs f \<longleftrightarrow> file_wf f \<and> uf_addr f = of_nat off \<and> uf_size f = of_nat (length bs) \<and>
     (\<exists>name type ver m. parse_file_name arg = Some (name, type, ver) \<and> uf_name f = field 64 16 name \<and>
        check_device table device_type name type = Some m \<and> length bs \<le> mtd_size m \<and> uf_dst f = field 32 32 (mtd_dst m))"

fun described :: "device_table \<Rightarrow> string \<Rightarrow> nat \<Rightarrow> string list \<Rightarrow> byte list list \<Rightarrow> upgrade_file list \<Rightarrow> bool" where
  "described table d off (a # as) (bs # bss) (f # fs) \<longleftrightarrow> describes table d a off bs f \<and> described table d (off + length bs) as bss fs"
| "described table d off as bss fs \<longleftrightarrow> as = [] \<and> bss = [] \<and> fs = []"

lemma add_files_result:
  "add_files table fs bufs d args (h + length cs) (pkg_body h cs, files) w = Some (out, files', w') \<Longrightarrow> io_full w \<Longrightarrow>
   \<exists>bss es. List.map fs args = List.map Some bss \<and> files' = files @ es \<and> out = pkg_body h (cs @ concat bss) \<and>
     described table d (h + length cs) args bss es \<and> io_full w'"
proof (induction args arbitrary: cs files w)
  case Nil
  then show ?case by (intro exI [of _ "[]"]) auto
next
  case (Cons a as)
  obtain name type ver where n: "parse_file_name a = Some (name, type, ver)" using Cons.prems by (auto split: option.splits)
  obtain bs where bs: "fs a = Some bs" using Cons.prems n by (auto split: option.splits)
  obtain m where m: "check_device table d name type = Some m" using Cons.prems n bs by (auto split: option.splits)
  have le: "length bs \<le> mtd_size m" using Cons.prems n bs m by (auto split: if_splits)
  let ?e = "\<lparr>uf_name = field 64 16 name, uf_type = field 16 16 type, uf_ver = field 16 16 ver,
     uf_addr = of_nat (h + length cs), uf_size = of_nat (length bs), uf_dst = field 32 32 (mtd_dst m), uf_crc32 = 0\<rparr>"
  obtain i where i: "pkg_add_file (h + length cs) bs (bufs (length files)) (pkg_body h cs) w = (0, pkg_body h (cs @ bs), w\<lparr>calls := i\<rparr>)"
    using pkg_add_body [OF Cons.prems(2)] by blast
  have "add_files table fs bufs d as (h + length (cs @ bs)) (pkg_body h (cs @ bs), files @ [?e]) (w\<lparr>calls := i\<rparr>) = Some (out, files', w')"
    using Cons.prems(1) n bs m i by (simp add: add.assoc split: if_splits)
  from Cons.IH [OF this ask_full(3) [OF Cons.prems(2)]] obtain bss es where r: "List.map fs as = List.map Some bss" "files' = (files @ [?e]) @ es"
    "out = pkg_body h ((cs @ bs) @ concat bss)" "described table d (h + length (cs @ bs)) as bss es" "io_full w'"
    by blast
  have "describes table d a (h + length cs) bs ?e" using n m le by (simp add: describes_def file_wf_def length_field)
  then show ?case using r bs by (intro exI [of _ "bs # bss"] exI [of _ "?e # es"]) (simp add: add.assoc)
qed

lemma described_nth:
  "described table d off as bss es \<Longrightarrow> length bss = length as \<and> length es = length as \<and>
   (\<forall>j < length as. describes table d (as ! j) (off + length (concat (take j bss))) (bss ! j) (es ! j))"
proof (induction table d off "as" bss es rule: described.induct)
  case (1 table d off a "as" bs bss f fs)
  then show ?case by (auto simp: nth_Cons add.assoc split: nat.splits)
qed auto

lemma slice_concat:
  assumes "j < length bss" "length pre = off"
  shows "slice (off + length (concat (take j bss))) (length (bss ! j)) (pre @ concat bss) = bss ! j"
proof -
  have "concat bss = concat (take j bss) @ bss ! j @ concat (drop (Suc j) bss)"
    using id_take_nth_drop [OF assms(1)] by (metis concat.simps(2) concat_append)
  then show ?thesis using assms(2) by (simp add: slice_def)
qed

section \<open>The package\<close>

lemma head_written:
  assumes "io_full w" "packet_wf p" "pkg_head_size + length (up_file p) * upg_file_size \<le> packet_info_size"
  shows "\<exists>w'. pkg_add_head p out w = (0, write_at 0 (enc_head (p\<lparr>up_size := up_size p + sum_list (List.map uf_size (up_file p))\<rparr>)) out, w')"
proof -
  let ?p = "p\<lparr>up_size := up_size p + sum_list (List.map uf_size (up_file p))\<rparr>"
  have "packet_wf ?p" using assms(2) by (simp add: packet_wf_def)
  then have l: "length (enc_head ?p) = pkg_head_size + unat (up_file_num p) * upg_file_size" "unat (up_file_num p) = length (up_file p)"
    using length_enc_head [of ?p] by (simp_all add: packet_wf_def)
  show ?thesis
    using ask_full(1) [OF assms(1)] ask_full(2) [OF ask_full(3) [OF assms(1), of "Suc (calls w)"]] assms(3) l
    by (simp add: pkg_add_head_def)
qed

text \<open>C26: A package that the tool has made on a medium on which no call of lseek, read or write fails or is short can be
  read back: its head describes as many files as were named, every file lies unchanged at the address and with the size of
  its description, carries its name, and fits the partition of the table it is meant for.\<close>

theorem package_readable:
  assumes "mkupgrade table fs bufs date target args w = Inr (Some pkg)" "args \<noteq> []" "length pkg < 2 ^ 32" "io_full w"
  shows "\<exists>p bss device_type ver. pkg_read_head pkg = Inr (Some p) \<and> List.map fs args = List.map Some bss \<and>
    parse_device_type target = Some (device_type, ver) \<and> length (up_file p) = length args \<and>
    (\<forall>j < length args. slice (unat (uf_addr (up_file p ! j))) (unat (uf_size (up_file p ! j))) pkg = bss ! j \<and>
       (\<exists>name type ver m. parse_file_name (args ! j) = Some (name, type, ver) \<and> uf_name (up_file p ! j) = field 64 16 name \<and>
          check_device table device_type name type = Some m \<and> length (bss ! j) \<le> mtd_size m \<and>
          uf_dst (up_file p ! j) = field 32 32 (mtd_dst m)))"
proof -
  let ?h = "pkg_head_size + length args * upg_file_size"
  obtain dev ver where d: "parse_device_type target = Some (dev, ver)" and small: "?h \<le> packet_info_size"
    using assms(1) by (auto simp: mkupgrade_def split: if_splits option.splits)
  then obtain out files w1 where a: "add_files table fs bufs dev args ?h ([], []) w = Some (out, files, w1)"
    using assms(1) by (auto simp: mkupgrade_def split: if_splits option.splits)
  define q where "q = \<lparr>up_crc32 = 0, up_device = field 16 16 dev, up_ver = field 16 16 ver, up_date = field 16 15 date,
      up_file_num = of_nat (length args), up_size = of_nat (length args * upg_file_size), up_ex_addr = 0, up_file = files\<rparr>"
  define p where "p = q\<lparr>up_size := up_size q + sum_list (List.map uf_size files)\<rparr>"
  obtain bss where bss: "List.map fs args = List.map Some bss" "out = pkg_body ?h (concat bss)" "described table dev ?h args bss files"
    "io_full w1"
    using add_files_result [of table fs bufs dev args ?h "[]" "[]" w out files w1] a assms(4) by (auto simp: pkg_body_def)
  note D = described_nth [OF bss(3)]
  have "unat (of_nat (length args) :: cuint) = length args"
    using small by (simp add: unat_of_nat upg_file_size_def packet_info_size_def)
  moreover have "\<forall>f \<in> set files. file_wf f" using D by (auto simp: describes_def in_set_conv_nth)
  ultimately have wfq: "packet_wf q" and wf: "packet_wf p" using D by (simp_all add: packet_wf_def p_def q_def length_field)
  have lf: "pkg_head_size + length (up_file q) * upg_file_size \<le> packet_info_size" "up_file p = files" "up_file q = files"
    using D small by (simp_all add: p_def q_def)
  have lh: "length (enc_head p) = ?h" using length_enc_head [OF wf] D lf by simp
  then have ne: "enc_head p \<noteq> []" by (auto simp: pkg_head_size_def)
  have pkg: "pkg = enc_head p @ concat bss"
  proof -
    obtain w2 where "pkg_add_head q out w1 = (0, write_at 0 (enc_head p) out, w2)"
      using head_written [OF bss(4) wfq lf(1), of out] unfolding p_def lf(3) by blast
    then have "pkg = write_at 0 (enc_head p) out"
      using assms(1) d a by (simp add: mkupgrade_def q_def split: if_splits)
    then show ?thesis using ne lh unfolding bss(2) by (auto simp: write_at_def put_at_def pkg_body_def)
  qed
  have "slice (unat (uf_addr (files ! j))) (unat (uf_size (files ! j))) pkg = bss ! j" if j: "j < length args" for j
  proof -
    have f: "uf_addr (files ! j) = of_nat (?h + length (concat (take j bss)))" "uf_size (files ! j) = of_nat (length (bss ! j))"
      using D j by (auto simp: describes_def)
    have "length (concat bss) = length (concat (take j bss)) + length (bss ! j) + length (concat (drop (Suc j) bss))"
      using id_take_nth_drop [of j bss] D j by (metis add.assoc concat.simps(2) concat_append length_append)
    then have "?h + length (concat (take j bss)) + length (bss ! j) < 2 ^ 32" using assms(3) lh unfolding pkg by simp
    then have "unat (uf_addr (files ! j)) = ?h + length (concat (take j bss))" "unat (uf_size (files ! j)) = length (bss ! j)"
      unfolding f by (simp_all add: unat_of_nat del: of_nat_add of_nat_mult)
    then show ?thesis using slice_concat [of j bss "enc_head p" ?h] D j lh unfolding pkg by simp
  qed
  moreover have "pkg_read_head pkg = Inr (Some p)" unfolding pkg by (rule read_enc_head [OF wf]) (use lf in simp)
  ultimately show ?thesis
    using bss(1) d D lf by (intro exI [of _ p] exI [of _ bss] exI [of _ dev] exI [of _ ver]) (auto simp: describes_def)
qed

definition sample_io :: pkg_io where
  "sample_io = \<lparr>answers = \<lambda>_ _. Moved 20000, calls = 0\<rparr>"

lemma sample_io_full: "io_full sample_io"
  by (simp add: io_full_def sample_io_def packet_info_size_def)

lemma sample_names:
  "parse_file_name ''startapp@file@1'' = Some (''startapp'', ''file'', ''1'')"
  "parse_device_type ''grain_813X@v1'' = Some (''grain_813X'', ''v1'')"
  by (simp_all add: parse_file_name_def parse_device_type_def strsep_def MAX_FIELD_SIZE_def token_at_def numeral_eq_Suc)

lemma sample_device:
  "check_device grain_device ''grain_813X'' ''startapp'' ''file'' =
     Some \<lparr>mtd_name = ''startapp'', mtd_type = ''file'', mtd_dst = ''/mnt/mtd/'', mtd_size = 0x7A0000\<rparr>"
  by (simp add: grain_device_def)

lemma package_readable_witness:
  "\<exists>pkg p. mkupgrade grain_device [''startapp@file@1'' \<mapsto> [1, 2, 3]] (\<lambda>_. []) ''2015-6-6'' ''grain_813X@v1'' [''startapp@file@1''] sample_io =
      Inr (Some pkg) \<and>
    pkg_read_head pkg = Inr (Some p) \<and> slice (unat (uf_addr (up_file p ! 0))) (unat (uf_size (up_file p ! 0))) pkg = [1, 2, 3]"
proof -
  let ?fs = "[''startapp@file@1'' \<mapsto> [1 :: byte, 2, 3]]"
  obtain i where i: "pkg_add_file 204 [1, 2, 3] [] [] sample_io = (0, pkg_body 204 [1, 2, 3], sample_io\<lparr>calls := i\<rparr>)"
    using pkg_add_body [OF sample_io_full, of 204 "[]" "[1, 2, 3]" "[]"] by (auto simp: pkg_body_def)
  obtain out files w1 where a: "add_files grain_device ?fs (\<lambda>_. []) ''grain_813X'' [''startapp@file@1''] 204 ([], []) sample_io = Some (out, files, w1)"
    "length out = 207" "length files = 1" "\<forall>f \<in> set files. file_wf f" "io_full w1"
    using i sample_names sample_device ask_full(3) [OF sample_io_full] by (simp add: pkg_body_def file_wf_def length_field)
  let ?p = "\<lparr>up_crc32 = 0, up_device = field 16 16 ''grain_813X'', up_ver = field 16 16 ''v1'', up_date = field 16 15 ''2015-6-6'',
      up_file_num = 1, up_size = 140, up_ex_addr = 0, up_file = files\<rparr>"
  have wf: "packet_wf ?p" using a(3,4) by (simp add: packet_wf_def length_field)
  obtain w2 pkg where h: "pkg_add_head ?p out w1 = (0, pkg, w2)"
    "pkg = write_at 0 (enc_head (?p\<lparr>up_size := up_size ?p + sum_list (List.map uf_size (up_file ?p))\<rparr>)) out"
    using head_written [OF a(5) wf, of out] a(3) by (fastforce simp: pkg_head_size_def upg_file_size_def packet_info_size_def)
  have m: "mkupgrade grain_device ?fs (\<lambda>_. []) ''2015-6-6'' ''grain_813X@v1'' [''startapp@file@1''] sample_io = Inr (Some pkg)"
    using sample_names a(1) h(1) by (simp add: mkupgrade_def pkg_head_size_def upg_file_size_def packet_info_size_def del: add_files.simps)
  have "length (enc_head (?p\<lparr>up_size := s\<rparr>)) = 204" for s
    using length_enc_head [of "?p\<lparr>up_size := s\<rparr>"] wf a(3) by (simp add: packet_wf_def pkg_head_size_def upg_file_size_def)
  then have "length pkg < 2 ^ 32" unfolding h(2) using a(2) by (simp add: write_at_def put_at_def)
  then show ?thesis using package_readable [OF m _ _ sample_io_full] m by (auto simp del: add_files.simps)
qed

section \<open>A full disk\<close>

lemma failed_write: "\<forall>i. \<exists>e. answers w Write i = Failed e \<Longrightarrow> \<exists>w'. ask_moved Write n w = (0, w') \<and> answers w' = answers w"
  by (auto simp: ask_moved_def ask_def split: io_answer.splits) (metis io_answer.distinct(1))

lemma asked_answers: "answers (snd (ask_moved c n w)) = answers w" "answers (snd (ask_lseek w)) = answers w"
  by (simp_all add: ask_moved_def ask_lseek_def ask_def)

lemma failed_copy:
  "\<forall>i. \<exists>e. answers w Write i = Failed e \<Longrightarrow>
   \<exists>w'. pkg_copy_loop fuel pos left_size src buf [] w = ([], w') \<and> answers w' = answers w"
proof (induction fuel arbitrary: pos left_size src buf w)
  case (Suc fuel)
  let ?r = "ask_moved Read (min (min left_size BUCKET_SIZE) (length src)) w"
  have r: "answers (snd ?r) = answers w" by (simp add: asked_answers)
  obtain w1 where w1: "ask_moved Write (min left_size BUCKET_SIZE) (snd ?r) = (0, w1)" "answers w1 = answers w"
    using failed_write [of "snd ?r"] Suc.prems r by metis
  show ?case
    using Suc.IH [of w1] Suc.prems w1 by (simp add: split_beta Let_def write_at_def)
qed simp

lemma failed_add:
  assumes "\<forall>i. \<exists>e. answers w Write i = Failed e"
  shows "\<exists>ret w1. pkg_add_file off bs buf [] w = (ret, [], w1) \<and> answers w1 = answers w"
proof -
  obtain w1 where "pkg_copy_loop (Suc (length bs)) off (length bs) bs buf [] (snd (ask_lseek w)) = ([], w1)" "answers w1 = answers w"
    using failed_copy [of "snd (ask_lseek w)" "Suc (length bs)" off "length bs" bs buf] assms by (auto simp: asked_answers)
  then show ?thesis by (cases "fst (ask_lseek w)") (simp_all add: pkg_add_file_def split_beta asked_answers del: pkg_copy_loop.simps)
qed

lemma failed_files:
  "\<forall>i. \<exists>e. answers w Write i = Failed e \<Longrightarrow> add_files table fs bufs d args off ([], files) w = Some (out, files', w') \<Longrightarrow>
   out = [] \<and> answers w' = answers w"
proof (induction args arbitrary: off files w)
  case (Cons a as)
  obtain name type ver where n: "parse_file_name a = Some (name, type, ver)" using Cons.prems(2) by (auto split: option.splits)
  obtain bs where bs: "fs a = Some bs" using Cons.prems(2) n by (auto split: option.splits)
  obtain m where m: "check_device table d name type = Some m" using Cons.prems(2) n bs by (auto split: option.splits)
  obtain ret w1 where w1: "pkg_add_file off bs (bufs (length files)) [] w = (ret, [], w1)" "answers w1 = answers w"
    using failed_add [OF Cons.prems(1)] by blast
  obtain off' e where "add_files table fs bufs d as off' ([], files @ [e]) w1 = Some (out, files', w')"
    using Cons.prems(2) n bs m w1(1) by (simp split: if_splits)
  then show ?case using Cons.IH [of w1 off' "files @ [e]"] Cons.prems(1) w1(2) by simp
qed simp

text \<open>On a disk that takes no byte the tool ends without an error and leaves an empty package, which cannot be read.\<close>

lemma full_disk_package:
  assumes "\<forall>i. \<exists>e. answers w Write i = Failed e" "mkupgrade table fs bufs date target args w = Inr (Some pkg)"
  shows "pkg = [] \<and> pkg_read_head pkg = Inr None"
proof -
  obtain dev ver out files w1 where a: "add_files table fs bufs dev args (pkg_head_size + length args * upg_file_size) ([], []) w = Some (out, files, w1)"
    and h: "\<exists>p w2 ret. pkg_add_head p out w1 = (ret, pkg, w2)"
    using assms(2) by (fastforce simp: mkupgrade_def split: if_splits option.splits prod.splits)
  have o: "out = []" "answers w1 = answers w" using failed_files [OF assms(1) a] by auto
  have "pkg = []"
  proof -
    obtain p w2 ret where p: "pkg_add_head p out w1 = (ret, pkg, w2)" using h by blast
    obtain w3 where "ask_moved Write (pkg_head_size + unat (up_file_num p) * upg_file_size) (snd (ask_lseek w1)) = (0, w3)"
      using failed_write [of "snd (ask_lseek w1)"] assms(1) o(2) by (metis asked_answers(2))
    then show ?thesis using p o(1) by (auto simp: pkg_add_head_def Let_def write_at_def split: prod.splits if_splits)
  qed
  then show ?thesis by (simp add: pkg_read_head_def pkg_head_size_def)
qed

end
