(* ===== verification/Playback.thy ===== *)
theory Playback
  imports AviRecCorrect Mmc
begin

text \<open>
  The playback of recordings by the cloud client (\<^verbatim>\<open>danale/src/testdanavideo.c\<close>): the list of a day's recordings,
  the choice of the recording for a time, and the thread that reads a recording through its index and sends its frames.
  The file system is a map from names to contents; \<^verbatim>\<open>malloc\<close> succeeds or not as \<open>malloc_ok\<close> says for a size, and
  a new block holds \<open>junk\<close>. \<open>None\<close> is undefined behaviour: an access outside a block, or through NULL. The float frame rate
  \<^verbatim>\<open>avi_fps\<close> only decides how long the thread sleeps between two frames and is left out.
\<close>

section \<open>The recordings of a day\<close>

record node_index =
  uiStartTime :: u64
  uiDurations :: cuint

record reclist_info =
  start_time :: u64
  ri_record_type :: cuint
  ri_length :: cuint

text \<open>The time and the duration in the name of a file. The destinations of \<^verbatim>\<open>avi_substring\<close> are cleared before.\<close>

definition name_part :: "string \<Rightarrow> nat \<Rightarrow> nat \<Rightarrow> string" where
  "name_part name start end = (case avi_substring name start end of None \<Rightarrow> [] | Some s \<Rightarrow> s)"

definition dana_fileNode :: "string \<Rightarrow> node_index" where
  "dana_fileNode name =
     \<lparr>uiStartTime = word_of_int (atoi (name_part name 0 10)), uiDurations = word_of_int (atoi (name_part name 11 (11 + 3)))\<rparr>"

definition dana_entry :: "dirent \<Rightarrow> bool" where
  "dana_entry ent \<longleftrightarrow> d_type ent AND DT_REG \<noteq> 0 \<and> d_name ent \<noteq> ''.'' \<and> d_name ent \<noteq> ''..'' \<and>
     is_avi_dir_format (d_name ent)"

definition day_dir :: "tm \<Rightarrow> string" where
  "day_dir t = take 63 (GRD_SD_MOUNT_POINT @ ''/'' @ pad0 4 (nat (tm_year t + 1900)) @ pad0 2 (nat (tm_mon t + 1)) @
     pad0 2 (nat (tm_mday t)))"

fun reclist_scan :: "u64 \<Rightarrow> int \<Rightarrow> dirent list \<Rightarrow> int \<Rightarrow> reclist_info list \<Rightarrow> (int \<times> reclist_info list) option" where
  "reclist_scan last_time MaxCount [] counter infos = Some (counter, infos)"
| "reclist_scan last_time MaxCount (ent # ents) counter infos =
     (if \<not> dana_entry ent then reclist_scan last_time MaxCount ents counter infos
      else let node = dana_fileNode (d_name ent) in
        if sint (uiStartTime node) < sint last_time \<or> uiDurations node \<le> 0
        then reclist_scan last_time MaxCount ents counter infos
        else if counter > MaxCount then Some (counter, infos)
        else if counter < 0 \<or> int (length infos) \<le> counter then None
        else reclist_scan last_time MaxCount ents (counter + 1)
               (infos[nat counter := \<lparr>start_time = uiStartTime node, ri_record_type = 1, ri_length = uiDurations node\<rparr>]))"

text \<open>The counter is not initialised: \<open>counter\<close> is what its memory holds. The first result is the return value, the
  second the count, which is written only at the end.\<close>

definition danale_history_recordplay_list ::
  "dirs \<Rightarrow> (u64 \<Rightarrow> tm) \<Rightarrow> int \<Rightarrow> u64 \<Rightarrow> reclist_info list \<Rightarrow> int \<Rightarrow> (int \<times> int option \<times> reclist_info list) option" where
  "danale_history_recordplay_list fs localtime counter last_time infos MaxCount =
     (case fs (day_dir (localtime last_time)) of
        None \<Rightarrow> Some (-1, None, infos)
      | Some ents \<Rightarrow>
          map_option (\<lambda>(n, infos). (0, Some n, infos)) (reclist_scan last_time MaxCount ents counter infos))"

section \<open>The recording for a time\<close>

record dana_av_event =
  ev_uiStartTime :: u64
  ev_uitimestamp :: cuint
  ev_file_name :: string
  ev_playback :: byte

definition contains_time :: "u64 \<Rightarrow> dirent \<Rightarrow> bool" where
  "contains_time time_stamp ent \<longleftrightarrow> dana_entry ent \<and>
     (let node = dana_fileNode (d_name ent) in
      sint (uiStartTime node) \<le> sint time_stamp \<and> sint time_stamp < sint (uiStartTime node) + uint (uiDurations node))"

fun control_scan :: "string \<Rightarrow> u64 \<Rightarrow> dirent list \<Rightarrow> dana_av_event \<Rightarrow> int \<times> dana_av_event" where
  "control_scan fullname time_stamp [] ev = (0, ev)"
| "control_scan fullname time_stamp (ent # ents) ev =
     (if contains_time time_stamp ent
      then let node = dana_fileNode (d_name ent) in
        (1, \<lparr>ev_uiStartTime = uiStartTime node, ev_uitimestamp = ucast time_stamp,
             ev_file_name = take 63 (fullname @ ''/'' @ show_int (sint (uiStartTime node)) @ ''-'' @
               show_int (sint (uiDurations node)) @ ''.avi''), ev_playback = 1\<rparr>)
      else control_scan fullname time_stamp ents ev)"

definition danale_history_recordplay_control ::
  "dirs \<Rightarrow> (u64 \<Rightarrow> tm) \<Rightarrow> u64 \<Rightarrow> dana_av_event \<Rightarrow> int \<times> dana_av_event" where
  "danale_history_recordplay_control fs localtime time_stamp ev =
     (let fullname = day_dir (localtime time_stamp) in
      case fs fullname of None \<Rightarrow> (-1, ev) | Some ents \<Rightarrow> control_scan fullname time_stamp ents ev)"

section \<open>The handle\<close>

definition MEDIA_FRAME_SIZE :: nat where "MEDIA_FRAME_SIZE = 300 * 1024"

text \<open>\<open>pb_file\<close> is the stream, \<open>pb_idx_array\<close> the bytes of the block for the index.\<close>

record pb_handle =
  pb_file :: "cfile option"
  index_count :: int
  pb_file_end :: int
  video_count :: cuint
  audio_count :: cuint
  index_current :: int
  pb_idx_array :: "byte list option"
  idx_array_count :: int
  pb_buf :: bool

definition zero_handle :: pb_handle where
  "zero_handle = \<lparr>pb_file = None, index_count = 0, pb_file_end = 0, video_count = 0, audio_count = 0, index_current = 0,
     pb_idx_array = None, idx_array_count = 0, pb_buf = False\<rparr>"

definition sizeof_DANAAviPBHandle :: nat where "sizeof_DANAAviPBHandle = 44"

definition dana_playback_handle_create ::
  "(nat \<Rightarrow> bool) \<Rightarrow> (string \<Rightarrow> byte list option) \<Rightarrow> string \<Rightarrow> pb_handle option \<Rightarrow> int \<times> pb_handle option" where
  "dana_playback_handle_create malloc_ok fs name gs =
     (case gs of
        Some p \<Rightarrow> (0, Some p)
      | None \<Rightarrow>
          if \<not> malloc_ok sizeof_DANAAviPBHandle then (-1, None)
          else case fs name of
              None \<Rightarrow> (-1, Some zero_handle)
            | Some d \<Rightarrow>
                let p = zero_handle\<lparr>pb_file := Some \<lparr>fdata = d, fpos = 0\<rparr>\<rparr> in
                if \<not> malloc_ok MEDIA_FRAME_SIZE then (-1, Some p)
                else (0, Some (p\<lparr>pb_buf := True, index_current := 0, pb_file_end := 0\<rparr>)))"

text \<open>The handle is read before the test for NULL.\<close>

definition dana_playback_handle_destroy :: "pb_handle option \<Rightarrow> (int \<times> pb_handle option) option" where
  "dana_playback_handle_destroy gs = (case gs of None \<Rightarrow> None | Some p \<Rightarrow> Some (0, None))"

definition seek :: "cuint \<Rightarrow> cfile \<Rightarrow> int \<times> cfile" where
  "seek off f = (if sint off < 0 then (-1, f) else (0, fseek_set (unat off) f))"

definition idx_get :: "byte list option \<Rightarrow> int \<Rightarrow> cuint option" where
  "idx_get block i =
     (case block of
        None \<Rightarrow> None
      | Some m \<Rightarrow> if 0 \<le> i \<and> 4 * nat i + 4 \<le> length m then Some (get32 (slice (4 * nat i) 4 m)) else None)"

text \<open>The part that reads the index: its count is \<open>n\<close>, and the sizes are converted to \<^verbatim>\<open>size_t\<close>.\<close>

definition read_index :: "(nat \<Rightarrow> bool) \<Rightarrow> (nat \<Rightarrow> byte) \<Rightarrow> int \<Rightarrow> cfile \<Rightarrow> pb_handle \<Rightarrow> (int \<times> pb_handle) option" where
  "read_index malloc_ok junk n f p =
     (let p = p\<lparr>pb_file := Some f, index_count := n, idx_array_count := n, pb_idx_array := None\<rparr>;
          sz = unat (word_of_int ((n + 1) * 16) :: cuint) in
      if \<not> malloc_ok sz then Some (-1, p)
      else let (ret, got, f) = fread1 (unat (word_of_int (16 * n) :: cuint)) f in
        if sz < length got then None
        else let block = put_at 0 got (List.map junk [0..<sz]); p = p\<lparr>pb_file := Some f, pb_idx_array := Some block\<rparr> in
          if ret \<noteq> 1 then Some (-1, p)
          else case (idx_get (Some block) (4 * (n - 1) + 2), idx_get (Some block) (4 * (n - 1) + 3)) of
              (Some off, Some len) \<Rightarrow>
                if sz < 16 * nat n + 12 then None
                else Some (0, p\<lparr>pb_idx_array := Some (put_at (4 * (4 * nat n + 2)) (le32 (off + len + 8 + 16)) block)\<rparr>)
            | _ \<Rightarrow> None)"

definition dana_avi_read_header_and_index ::
  "(nat \<Rightarrow> bool) \<Rightarrow> (nat \<Rightarrow> byte) \<Rightarrow> pb_handle \<Rightarrow> (int \<times> pb_handle) option" where
  "dana_avi_read_header_and_index malloc_ok junk p =
     (case pb_file p of
        None \<Rightarrow> None
      | Some f \<Rightarrow>
          let (ret, hdr, f) = fread1 sizeof_AviHeader f; p = p\<lparr>pb_file := Some f\<rparr> in
          if ret \<noteq> 1 then Some (-1, p)
          else let p = p\<lparr>video_count := get32 (slice 48 4 hdr), audio_count := get32 (slice 264 4 hdr)\<rparr>;
                   (ret, f) = seek (get32 (slice 318 4 hdr) - 4 + of_nat sizeof_AviHeader) f in
            if ret \<noteq> 0 then Some (-1, p)
            else let (ret, fcc, f) = read_fourcc f; p = p\<lparr>pb_file := Some f\<rparr> in
              if ret \<noteq> 1 then Some (-1, p)
              else if get32 fcc \<noteq> MAKE_FOURCC CHR ''i'' CHR ''d'' CHR ''x'' CHR ''1'' then Some (-1, p)
              else let (ret, tmp32, f) = read_int32 f; p = p\<lparr>pb_file := Some f\<rparr> in
                if ret \<noteq> 1 then Some (-1, p)
                else read_index malloc_ok junk (cdiv (get_int tmp32) 16) f p)"

section \<open>The playback thread\<close>

text \<open>Four bytes read into an integer; what is not read of it stays.\<close>

definition read_over :: "cuint \<Rightarrow> cfile \<Rightarrow> cuint \<times> cfile" where
  "read_over old f = (let (ret, got, f) = fread1 4 f in (get32 (got @ drop (length got) (le32 old)), f))"

text \<open>The time stamp is that of the current frame of the handle.\<close>

definition dana_avi_get_frame_timestamp :: "pb_handle \<Rightarrow> cuint \<times> cuint \<Rightarrow> (int \<times> (cuint \<times> cuint) \<times> pb_handle) option" where
  "dana_avi_get_frame_timestamp p tv =
     (if index_current p > idx_array_count p then Some (-2, tv, p)
      else case (idx_get (pb_idx_array p) (4 * index_current p + 2), idx_get (pb_idx_array p) (4 * index_current p + 3), pb_file p) of
          (Some off, Some len, Some f) \<Rightarrow>
            let (_, f) = seek (8 + off + len + 8) f;
                (tv_sec, f) = read_over (fst tv) f;
                (tv_usec, f) = read_over (snd tv) f
            in Some (0, (tv_sec, tv_usec), p\<lparr>pb_file := Some f\<rparr>)
        | _ \<Rightarrow> None)"

definition diff_abs :: "cuint \<Rightarrow> cuint \<Rightarrow> int" where
  "diff_abs x y = (if sint y < sint x then sint (x - y) else sint (y - x))"

text \<open>The search for a key frame near the time; the first argument counts the entries that are left.\<close>

fun find_i_frame :: "nat \<Rightarrow> cuint \<Rightarrow> int \<Rightarrow> cuint \<times> cuint \<Rightarrow> pb_handle \<Rightarrow> pb_handle option" where
  "find_i_frame 0 stamp index tv p = Some p"
| "find_i_frame (Suc n) stamp index tv p =
     (case idx_get (pb_idx_array p) (4 * index + 1) of
        None \<Rightarrow> None
      | Some frametype \<Rightarrow>
          if frametype = 0x11
          then (case dana_avi_get_frame_timestamp p tv of
                  None \<Rightarrow> None
                | Some (_, tv, p) \<Rightarrow>
                    if diff_abs (fst tv) stamp < 10 then Some (p\<lparr>index_current := index\<rparr>)
                    else find_i_frame n stamp (index + 1) tv p)
          else find_i_frame n stamp (index + 1) tv p)"

datatype dana_stream = VideoStream | AudioStream

record dana_packet =
  pk_stream :: dana_stream
  pk_key :: cuint
  pk_data :: "byte list"

text \<open>The thread's state: the handle, the flag of the last video frame, what has been given to the library, and whether
  the loop goes on.\<close>

record play_state =
  ps_handle :: pb_handle
  ps_key :: cuint
  ps_sent :: "dana_packet list"
  ps_running :: bool

definition fcc_video :: cuint where "fcc_video = MAKE_FOURCC CHR ''0'' CHR ''0'' CHR ''d'' CHR ''c''"
definition fcc_audio :: cuint where "fcc_audio = MAKE_FOURCC CHR ''0'' CHR ''1'' CHR ''w'' CHR ''b''"

definition send_frame :: "cuint \<Rightarrow> cuint \<Rightarrow> nat \<Rightarrow> byte list \<Rightarrow> play_state \<Rightarrow> play_state option" where
  "send_frame fcc32 frametype frame_size buf s =
     (if fcc32 = fcc_video then
        let s = s\<lparr>ps_key := (if frametype = 0x11 then 1 else 0)\<rparr> in
        if MEDIA_FRAME_SIZE < frame_size then None
        else Some (s\<lparr>ps_sent := ps_sent s @ [\<lparr>pk_stream = VideoStream, pk_key = ps_key s, pk_data = take frame_size buf\<rparr>]\<rparr>)
      else if fcc32 = fcc_audio then
        if MEDIA_FRAME_SIZE < frame_size then None
        else Some (s\<lparr>ps_sent := ps_sent s @ [\<lparr>pk_stream = AudioStream, pk_key = ps_key s, pk_data = take frame_size buf\<rparr>]\<rparr>)
      else Some s)"

text \<open>One round of the loop; the argument is the flag of a pause.\<close>

definition playback_round :: "bool \<Rightarrow> play_state \<Rightarrow> play_state option" where
  "playback_round pause s =
     (let p = ps_handle s in
      if pause then Some s
      else if pb_file_end p = 1 then Some (s\<lparr>ps_running := False\<rparr>)
      else let p = (if index_current p > index_count p then p\<lparr>pb_file_end := 1\<rparr> else p); idx = idx_get (pb_idx_array p);
               i = 4 * index_current p in
        case (idx (i + 0), idx (i + 1), idx (i + 2), idx (i + 3), pb_file p) of
          (Some fcc32, Some frametype, Some file_offset, Some frame_size, Some f) \<Rightarrow>
            let (_, f) = seek (file_offset + 8) f; (ret, got, f) = fread1 (unat frame_size) f in
            if MEDIA_FRAME_SIZE < length got then None
            else send_frame fcc32 frametype (unat frame_size) (got @ replicate (MEDIA_FRAME_SIZE - length got) 0)
                   (s\<lparr>ps_handle := p\<lparr>pb_file := Some f, index_current := index_current p + 1\<rparr>\<rparr>)
        | _ \<Rightarrow> None)"

text \<open>The rounds end with the file or, with the list of flags, when the client stops the playback.\<close>

definition playback_rounds :: "bool list \<Rightarrow> play_state \<Rightarrow> play_state option" where
  "playback_rounds = run_steps ps_running playback_round"

text \<open>\<open>tv\<close> and \<open>key\<close> are the locals \<^verbatim>\<open>start_time\<close> and \<^verbatim>\<open>isKeyFrame\<close>, which are not initialised. The result of reading the
  header is not looked at.\<close>

definition th_history_media ::
  "(nat \<Rightarrow> bool) \<Rightarrow> (nat \<Rightarrow> byte) \<Rightarrow> (string \<Rightarrow> byte list option) \<Rightarrow> cuint \<times> cuint \<Rightarrow> cuint \<Rightarrow> dana_av_event \<Rightarrow> bool list \<Rightarrow>
   pb_handle option \<Rightarrow> (dana_packet list \<times> pb_handle option) option" where
  "th_history_media malloc_ok junk fs tv key ev pauses gs =
     (let (ret, gs) = dana_playback_handle_create malloc_ok fs (ev_file_name ev) gs in
      if ret < 0 then map_option (\<lambda>(_, gs). ([], gs)) (dana_playback_handle_destroy gs)
      else case gs of
        None \<Rightarrow> None
      | Some p \<Rightarrow>
          (case dana_avi_read_header_and_index malloc_ok junk p of
             None \<Rightarrow> None
           | Some (_, p) \<Rightarrow>
               (case (if ev_uiStartTime ev = scast (ev_uitimestamp ev) then Some (p\<lparr>index_current := 0\<rparr>)
                      else find_i_frame (nat (index_count p)) (ev_uitimestamp ev) 0 tv p) of
                  None \<Rightarrow> None
                | Some p \<Rightarrow>
                    (case playback_rounds pauses \<lparr>ps_handle = p, ps_key = key, ps_sent = [], ps_running = True\<rparr> of
                       None \<Rightarrow> None
                     | Some s \<Rightarrow> map_option (\<lambda>(_, gs). (ps_sent s, gs)) (dana_playback_handle_destroy (Some (ps_handle s)))))))"

end
