(* ===== verification/PlaybackFacts.thy ===== *)
theory PlaybackFacts
  imports Playback
begin

text \<open>
  What the playback promises of a recording: its rounds send the frames of the recording in order; the time that is asked
  for does not matter; and the round behind the last frame reads behind the index.
\<close>

section \<open>Reading the index\<close>

lemma slice_ints_bytes: "k < length ws \<Longrightarrow> slice (4 * k) 4 (ints_bytes ws) = le32 (ws ! k)"
proof (induction ws arbitrary: k)
  case (Cons w ws)
  have c: "ints_bytes (w # ws) = le32 w @ ints_bytes ws" by (simp add: ints_bytes_def)
  show ?case
  proof (cases k)
    case 0
    then show ?thesis by (simp add: c slice_def)
  next
    case (Suc j)
    then show ?thesis using Cons by (simp add: c slice_append_right)
  qed
qed simp

lemma index_entries_get:
  assumes "i < length fs" "j < 4"
  shows "index_entries off fs ! (4 * i + j) = index_entry (off + length (chunks (take i fs))) (fs ! i) ! j"
proof -
  have "index_entries off fs ! (4 * i + j) = take 4 (drop (4 * i) (index_entries off fs)) ! j"
    using assms by simp
  then show ?thesis by (simp only: index_entries_nth [OF assms(1)])
qed

lemma header_fields:
  "slice 318 4 (encode_header h) = le32 (movi_len h)"
proof -
  have "slice 318 4 (encode_header h) = slice 318 4 (put_at 318 (le32 (movi_len h)) (encode_header h))"
    unfolding put_movi_len by simp
  also have "\<dots> = le32 (movi_len h)"
    by (rule slice_put_at_same) (simp_all only: length_encode_header length_le32 sizeof_AviHeader_def)
  finally show ?thesis .
qed

lemma unat_word_of_nat: "x < 2 ^ 32 \<Longrightarrow> unat (word_of_nat x :: cuint) = x"
  by (rule unat_of_small)

lemma seek_ok: "x < 2 ^ 31 \<Longrightarrow> seek (word_of_nat x) f = (0, fseek_set x f)"
proof -
  assume "x < 2 ^ 31"
  then have "sint (word_of_nat x :: cuint) = int x" using sint_of_int32 [of "int x"] by (simp add: in_int32_def)
  then show ?thesis using \<open>x < 2 ^ 31\<close> by (simp add: seek_def unat_word_of_nat)
qed

text \<open>A handle whose file is the image of a recording and whose block holds the index of it.\<close>

definition block_of :: "frame list \<Rightarrow> byte list \<Rightarrow> bool" where
  "block_of fs b \<longleftrightarrow> length b = 16 * (length fs + 1) \<and> take (16 * length fs) b = ints_bytes (index_entries sizeof_AviHeader fs)"

definition loaded :: "byte list \<Rightarrow> frame list \<Rightarrow> pb_handle \<Rightarrow> bool" where
  "loaded img fs p \<longleftrightarrow> (\<exists>pos. pb_file p = Some \<lparr>fdata = img, fpos = pos\<rparr>) \<and> index_count p = int (length fs) \<and>
     idx_array_count p = int (length fs) \<and> (\<exists>b. pb_idx_array p = Some b \<and> block_of fs b)"

lemma block_entry:
  assumes "block_of fs b" "i < length fs" "j < 4"
  shows "idx_get (Some b) (4 * int i + int j) = Some (index_entry (sizeof_AviHeader + length (chunks (take i fs))) (fs ! i) ! j)"
proof -
  let ?k = "4 * i + j"
  have k: "nat (4 * int i + int j) = ?k" by simp
  have "slice (4 * ?k) 4 b = slice (4 * ?k) 4 (take (16 * length fs) b)"
    using assms by (simp add: slice_def drop_take min_def)
  also have "\<dots> = le32 (index_entries sizeof_AviHeader fs ! ?k)"
    using assms slice_ints_bytes [of ?k "index_entries sizeof_AviHeader fs"] by (simp add: block_of_def)
  finally show ?thesis
    using assms by (simp only: idx_get_def option.case k) (simp add: block_of_def index_entries_get)
qed

lemma block_short: "block_of fs b \<Longrightarrow> length fs < i \<Longrightarrow> idx_get (Some b) (4 * int i) = None"
  by (simp add: idx_get_def block_of_def)

lemma image_parts:
  "recording_image h fs dur bits = encode_header (final_header h fs dur bits) @ chunks fs @
     le32 idx1 @ le32 (word_of_nat (16 * length fs)) @ ints_bytes (index_entries sizeof_AviHeader fs)"
  by (simp add: recording_image_def)

lemma length_image:
  "length (recording_image h fs dur bits) = sizeof_AviHeader + length (chunks fs) + 8 + 16 * length fs"
  by (simp add: image_parts)

lemma read_index_ok:
  assumes f: "fread1 (16 * length fs) f = (1, ints_bytes (index_entries sizeof_AviHeader fs), \<lparr>fdata = img, fpos = pos\<rparr>)"
    and n: "0 < length fs" "16 * (length fs + 1) < 2 ^ 31" and mem: "\<forall>k. malloc_ok k"
  shows "\<exists>p'. read_index malloc_ok junk (int (length fs)) f p = Some (0, p') \<and> loaded img fs p' \<and>
    index_current p' = index_current p \<and> pb_file_end p' = pb_file_end p"
proof -
  let ?n = "length fs"
  let ?d = "ints_bytes (index_entries sizeof_AviHeader fs)"
  define sz where "sz = 16 * (?n + 1)"
  define block where "block = put_at 0 ?d (List.map junk [0..<sz])"
  have u: "unat (word_of_int ((int ?n + 1) * 16) :: cuint) = sz" "unat (word_of_int (16 * int ?n) :: cuint) = 16 * ?n"
    using n unat_word_of_nat [of sz] unat_word_of_nat [of "16 * ?n"] by (simp_all add: sz_def algebra_simps)
  have b: "block_of fs block" by (simp add: block_of_def block_def put_at_def sz_def)
  have last: "\<exists>a. idx_get (Some block) (4 * (int ?n - 1) + 2) = Some a" "\<exists>a. idx_get (Some block) (4 * (int ?n - 1) + 3) = Some a"
    using b n by (cases fs; simp add: idx_get_def block_of_def)+
  then obtain x y where xy: "idx_get (Some block) (4 * (int ?n - 1) + 2) = Some x" "idx_get (Some block) (4 * (int ?n - 1) + 3) = Some y"
    by blast
  have put: "block_of fs (put_at (4 * (4 * ?n + 2)) (le32 v) block)" for v
    using b by (simp add: block_of_def put_at_def)
  have m: "malloc_ok k = True" for k using mem by simp
  show ?thesis
    unfolding read_index_def Let_def u f prod.case m block_def [symmetric] xy
    using put by (simp add: loaded_def) (simp add: sz_def)
qed

lemma read_header_ok:
  assumes img: "img = recording_image h fs dur bits" "length img < 2 ^ 31"
    and p: "pb_file p = Some \<lparr>fdata = img, fpos = 0\<rparr>" and n: "0 < length fs" and mem: "\<forall>k. malloc_ok k"
  shows "\<exists>p'. dana_avi_read_header_and_index malloc_ok junk p = Some (0, p') \<and> loaded img fs p' \<and>
    index_current p' = index_current p \<and> pb_file_end p' = pb_file_end p"
proof -
  let ?h = "encode_header (final_header h fs dur bits)"
  let ?d = "ints_bytes (index_entries sizeof_AviHeader fs)"
  let ?c = "sizeof_AviHeader + length (chunks fs)"
  have l: "?c + 8 + 16 * length fs < 2 ^ 31" using img length_image [of h fs dur bits] by simp
  have parts: "slice 0 sizeof_AviHeader img = ?h" "slice ?c 4 img = le32 idx1"
    "slice (?c + 4) 4 img = le32 (word_of_nat (16 * length fs))" "slice (?c + 8) (16 * length fs) img = ?d"
    by (simp_all add: img(1) image_parts slice_def)
  have len: "length img = ?c + 8 + 16 * length fs" using img(1) length_image by simp
  have movi: "get32 (slice 318 4 ?h) - 4 + of_nat sizeof_AviHeader = (word_of_nat ?c :: cuint)"
    by (simp add: header_fields final_header_def Let_def)
  have reads: "fread1 sizeof_AviHeader \<lparr>fdata = img, fpos = 0\<rparr> = (1, ?h, \<lparr>fdata = img, fpos = sizeof_AviHeader\<rparr>)"
    "read_fourcc \<lparr>fdata = img, fpos = ?c\<rparr> = (1, le32 idx1, \<lparr>fdata = img, fpos = ?c + 4\<rparr>)"
    "read_int32 \<lparr>fdata = img, fpos = ?c + 4\<rparr> = (1, le32 (word_of_nat (16 * length fs)), \<lparr>fdata = img, fpos = ?c + 8\<rparr>)"
    "fread1 (16 * length fs) \<lparr>fdata = img, fpos = ?c + 8\<rparr> = (1, ?d, \<lparr>fdata = img, fpos = ?c + 8 + 16 * length fs\<rparr>)"
    using parts len n by (simp_all add: fread1_def read_fourcc_def read_int32_def sizeof_AviHeader_def)
  have s: "seek (word_of_nat ?c) \<lparr>fdata = img, fpos = k\<rparr> = (0, \<lparr>fdata = img, fpos = ?c\<rparr>)" for k
    using l seek_ok [of ?c] by (simp add: fseek_set_def)
  have s1: "seek (get32 (slice 318 4 ?h) - 4 + of_nat sizeof_AviHeader) \<lparr>fdata = img, fpos = sizeof_AviHeader\<rparr> =
      (0, \<lparr>fdata = img, fpos = ?c\<rparr>)"
    unfolding movi by (rule s)
  have cnt: "cdiv (get_int (le32 (word_of_nat (16 * length fs)))) 16 = int (length fs)"
    using l get_int_le_int [of "int (16 * length fs)" "[]"] by (simp add: le_int_def in_int32_def cdiv_nonneg)
  note ri = read_index_ok [where p = "p\<lparr>video_count := get32 (slice 48 4 ?h), audio_count := get32 (slice 264 4 ?h),
      pb_file := Some \<lparr>fdata = img, fpos = ?c + 8\<rparr>\<rparr>" and junk = junk, OF reads(4) n _ mem]
  have big: "16 * (length fs + 1) < 2 ^ 31" using l by (simp add: sizeof_AviHeader_def)
  show ?thesis
    using ri [OF big]
    unfolding dana_avi_read_header_and_index_def p option.case reads prod.case Let_def s1 cnt
    by (simp add: idx1_def [symmetric])
qed

section \<open>The rounds of the playback\<close>

text \<open>What the client gets of a frame: its bytes with the byte that pads them to an even length, and the flag of a key
  frame; an audio frame carries the flag of the video frame before it.\<close>

definition frame_key :: "cuint \<Rightarrow> frame \<Rightarrow> cuint" where
  "frame_key key f = (if is_video (fr_intra f) then (if fr_intra f \<noteq> 0 then 1 else 0) else key)"

definition frame_packet :: "cuint \<Rightarrow> frame \<Rightarrow> dana_packet" where
  "frame_packet key f = \<lparr>pk_stream = (if is_video (fr_intra f) then VideoStream else AudioStream), pk_key = frame_key key f,
     pk_data = fr_data f @ replicate (length (fr_data f) mod 2) 0\<rparr>"

fun play_packets :: "cuint \<Rightarrow> frame list \<Rightarrow> dana_packet list" where
  "play_packets key [] = []"
| "play_packets key (f # fs) = frame_packet key f # play_packets (frame_key key f) fs"

lemma fcc_differ: "fcc_audio \<noteq> fcc_video"
  by (simp add: fcc_audio_def fcc_video_def MAKE_FOURCC_def)

lemma frame_fcc_eq: "frame_fcc i = (if is_video i then fcc_video else fcc_audio)"
  by (simp add: frame_fcc_def fcc_audio_def fcc_video_def)

lemma send_frame_ok:
  assumes "length d \<le> MEDIA_FRAME_SIZE"
    and "d = fr_data f @ replicate (length (fr_data f) mod 2) 0"
  shows "send_frame (frame_fcc (fr_intra f)) (index_flags (fr_intra f)) (length d) (d @ rest) s =
    Some (s\<lparr>ps_key := frame_key (ps_key s) f, ps_sent := ps_sent s @ [frame_packet (ps_key s) f]\<rparr>)"
  using assms fcc_differ
  by (simp add: send_frame_def frame_fcc_eq index_flags_def frame_key_def frame_packet_def not_less)

lemma frame_bytes:
  assumes "i < length fs"
  shows "slice (sizeof_AviHeader + length (chunks (take i fs)) + 8) (padded_length (fr_data (fs ! i))) (recording_image h fs dur bits) =
      fr_data (fs ! i) @ replicate (length (fr_data (fs ! i)) mod 2) 0"
    and "sizeof_AviHeader + length (chunks (take i fs)) + 8 + padded_length (fr_data (fs ! i)) + 16 \<le>
      sizeof_AviHeader + length (chunks fs)"
proof -
  let ?f = "fs ! i" and ?n = "length (chunks (take i fs))" and ?img = "recording_image h fs dur bits"
  have c: "chunks fs = chunks (take i fs) @ chunk ?f @ chunks (drop (Suc i) fs)"
    using assms id_take_nth_drop [of i fs] by (metis append.assoc chunks_simps(2,3) append_Cons append_Nil)
  show "sizeof_AviHeader + ?n + 8 + padded_length (fr_data ?f) + 16 \<le> sizeof_AviHeader + length (chunks fs)"
    by (simp add: c length_chunk)
  have "slice (sizeof_AviHeader + ?n) (length (chunk ?f)) ?img = chunk ?f"
    by (simp add: image_parts c slice_def)
  then have "slice (sizeof_AviHeader + ?n + 8) (padded_length (fr_data ?f)) ?img = slice 8 (padded_length (fr_data ?f)) (chunk ?f)"
    using slice_slice [of 8 "padded_length (fr_data ?f)" "length (chunk ?f)" "sizeof_AviHeader + ?n" ?img]
    by (simp add: length_chunk)
  then show "slice (sizeof_AviHeader + ?n + 8) (padded_length (fr_data ?f)) ?img =
      fr_data ?f @ replicate (length (fr_data ?f) mod 2) 0"
    by (simp add: chunk_def slice_def padded_length_def)
qed

definition playing :: "byte list \<Rightarrow> frame list \<Rightarrow> nat \<Rightarrow> play_state \<Rightarrow> bool" where
  "playing img fs i s \<longleftrightarrow> loaded img fs (ps_handle s) \<and> index_current (ps_handle s) = int i \<and>
     pb_file_end (ps_handle s) = 0 \<and> ps_running s"

definition frames_fit :: "frame list \<Rightarrow> bool" where
  "frames_fit fs \<longleftrightarrow> (\<forall>f \<in> set fs. padded_length (fr_data f) \<le> MEDIA_FRAME_SIZE)"

lemma fread1_gets: "\<exists>r pos. fread1 n f = (r, slice (fpos f) n (fdata f), f\<lparr>fpos := pos\<rparr>)"
  by (cases f) (auto simp: fread1_def)

lemma round_sends:
  assumes img: "img = recording_image h fs dur bits" "length img < 2 ^ 31" and fit: "frames_fit fs"
    and s: "playing img fs i s" and i: "i < length fs"
  shows "\<exists>s'. playback_round False s = Some s' \<and> playing img fs (Suc i) s' \<and> ps_key s' = frame_key (ps_key s) (fs ! i) \<and>
    ps_sent s' = ps_sent s @ [frame_packet (ps_key s) (fs ! i)]"
proof -
  let ?p = "ps_handle s" and ?f = "fs ! i"
  let ?off = "sizeof_AviHeader + length (chunks (take i fs))" and ?d = "fr_data ?f @ replicate (length (fr_data ?f) mod 2) 0"
  obtain pos b where p: "pb_file ?p = Some \<lparr>fdata = img, fpos = pos\<rparr>" "pb_idx_array ?p = Some b" "block_of fs b"
    "index_count ?p = int (length fs)" "index_current ?p = int i" "pb_file_end ?p = 0"
    using s by (auto simp: playing_def loaded_def)
  note e = block_entry [OF p(3) i, unfolded index_entry_def]
  have entry: "idx_get (Some b) (4 * int i + 0) = Some (frame_fcc (fr_intra ?f))"
    "idx_get (Some b) (4 * int i + 1) = Some (index_flags (fr_intra ?f))"
    "idx_get (Some b) (4 * int i + 2) = Some (word_of_nat ?off)"
    "idx_get (Some b) (4 * int i + 3) = Some (word_of_nat (padded_length (fr_data ?f)))"
    using e [of 0] e [of 1] e [of 2] e [of 3] by simp_all
  note fb = frame_bytes(1) [OF i, of h dur bits] frame_bytes(2) [OF i]
  have len: "?off + 8 + padded_length (fr_data ?f) < 2 ^ 31" "?off + 8 + padded_length (fr_data ?f) \<le> length img"
    using fb(2) img length_image [of h fs dur bits] by simp_all
  have sk: "seek (word_of_nat ?off + 8) f = (0, fseek_set (?off + 8) f)" for f
    using seek_ok [of "?off + 8" f] len(1) by (simp add: add.commute)
  have sz: "unat (word_of_nat (padded_length (fr_data ?f)) :: cuint) = padded_length (fr_data ?f)"
    using len(1) by (simp add: unat_word_of_nat)
  obtain r pos' where rd: "fread1 (padded_length (fr_data ?f)) \<lparr>fdata = img, fpos = ?off + 8\<rparr> = (r, ?d, \<lparr>fdata = img, fpos = pos'\<rparr>)"
    using fread1_gets [of "padded_length (fr_data ?f)" "\<lparr>fdata = img, fpos = ?off + 8\<rparr>"] fb(1) img(1) by auto
  have ld: "length ?d = padded_length (fr_data ?f)" by (simp add: padded_length_def)
  have small: "padded_length (fr_data ?f) \<le> MEDIA_FRAME_SIZE" using fit i by (simp add: frames_fit_def)
  define s1 where "s1 = s\<lparr>ps_handle := ?p\<lparr>pb_file := Some \<lparr>fdata = img, fpos = pos'\<rparr>, index_current := int i + 1\<rparr>\<rparr>"
  have "playback_round False s = send_frame (frame_fcc (fr_intra ?f)) (index_flags (fr_intra ?f)) (length ?d)
      (?d @ replicate (MEDIA_FRAME_SIZE - length ?d) 0) s1"
    using p i entry sk sz rd small ld by (simp add: playback_round_def fseek_set_def s1_def Let_def)
  also have "\<dots> = Some (s1\<lparr>ps_key := frame_key (ps_key s) ?f, ps_sent := ps_sent s @ [frame_packet (ps_key s) ?f]\<rparr>)"
    using send_frame_ok [of ?d ?f "replicate (MEDIA_FRAME_SIZE - length ?d) 0" s1] small ld by (simp add: s1_def)
  finally show ?thesis using p s by (auto simp: s1_def playing_def loaded_def)
qed

lemma round_paused: "playback_round True s = Some s"
  by (simp add: playback_round_def)

lemma rounds_send:
  assumes img: "img = recording_image h fs dur bits" "length img < 2 ^ 31" and fit: "frames_fit fs"
  shows "playing img fs i s \<Longrightarrow> i + length (filter Not pauses) \<le> length fs \<Longrightarrow>
    \<exists>s'. playback_rounds pauses s = Some s' \<and> playing img fs (i + length (filter Not pauses)) s' \<and>
      ps_sent s' = ps_sent s @ play_packets (ps_key s) (take (length (filter Not pauses)) (drop i fs))"
proof (induction pauses arbitrary: s i)
  case Nil
  then show ?case by (simp add: playback_rounds_def)
next
  case (Cons pause pauses)
  have run: "ps_running s" using Cons.prems(1) by (simp add: playing_def)
  show ?case
  proof (cases pause)
    case True
    then show ?thesis using Cons.IH [OF Cons.prems(1)] Cons.prems(2) run by (simp add: playback_rounds_def round_paused)
  next
    case False
    then have i: "i < length fs" using Cons.prems(2) by simp
    obtain s1 where s1: "playback_round False s = Some s1" "playing img fs (Suc i) s1"
      "ps_key s1 = frame_key (ps_key s) (fs ! i)" "ps_sent s1 = ps_sent s @ [frame_packet (ps_key s) (fs ! i)]"
      using round_sends [OF img fit Cons.prems(1) i] by blast
    show ?thesis
      using Cons.IH [OF s1(2)] Cons.prems(2) s1 run False
      by (auto simp: playback_rounds_def Cons_nth_drop_Suc [OF i, symmetric])
  qed
qed

section \<open>Behind the last frame\<close>

lemma send_frame_keeps:
  "send_frame fcc ft n buf s = Some s' \<Longrightarrow> ps_handle s' = ps_handle s \<and> ps_running s' = ps_running s"
  by (auto simp: send_frame_def Let_def split: if_splits)

lemma seek_keeps: "\<exists>k pos. seek off f = (k, f\<lparr>fpos := pos\<rparr>)"
  by (cases f) (auto simp: seek_def fseek_set_def)

lemma round_moves_on:
  assumes "playback_round False s = Some s'" "playing img fs i s" "i \<le> length fs"
  shows "playing img fs (Suc i) s'"
proof -
  let ?p = "ps_handle s"
  obtain pos where p: "pb_file ?p = Some \<lparr>fdata = img, fpos = pos\<rparr>" "index_count ?p = int (length fs)"
    "index_current ?p = int i" "pb_file_end ?p = 0"
    using assms(2) by (auto simp: playing_def loaded_def)
  obtain off sz fcc ft where e: "idx_get (pb_idx_array ?p) (4 * int i) = Some fcc" "idx_get (pb_idx_array ?p) (4 * int i + 1) = Some ft"
    "idx_get (pb_idx_array ?p) (4 * int i + 2) = Some off" "idx_get (pb_idx_array ?p) (4 * int i + 3) = Some sz"
    using assms(1,3) p by (auto simp: playback_round_def Let_def split: option.splits)
  obtain k pos1 where sk: "seek (off + 8) \<lparr>fdata = img, fpos = pos\<rparr> = (k, \<lparr>fdata = img, fpos = pos1\<rparr>)"
    using seek_keeps [of "off + 8" "\<lparr>fdata = img, fpos = pos\<rparr>"] by auto
  obtain r got pos2 where rd: "fread1 (unat sz) \<lparr>fdata = img, fpos = pos1\<rparr> = (r, got, \<lparr>fdata = img, fpos = pos2\<rparr>)"
    using fread1_gets [of "unat sz" "\<lparr>fdata = img, fpos = pos1\<rparr>"] by auto
  show ?thesis
    using assms p e sk rd send_frame_keeps
    by (fastforce simp: playback_round_def playing_def loaded_def Let_def split: if_splits)
qed

lemma rounds_overrun:
  assumes img: "img = recording_image h fs dur bits" "length img < 2 ^ 31"
  shows "playing img fs i s \<Longrightarrow> i \<le> Suc (length fs) \<Longrightarrow> Suc (Suc (length fs)) \<le> i + length (filter Not pauses) \<Longrightarrow>
    playback_rounds pauses s = None"
proof (induction pauses arbitrary: s i)
  case (Cons pause pauses)
  have run: "ps_running s" using Cons.prems(1) by (simp add: playing_def)
  show ?case
  proof (cases pause)
    case True
    then show ?thesis using Cons.IH [OF Cons.prems(1,2)] Cons.prems(3) run by (simp add: playback_rounds_def round_paused)
  next
    case False
    show ?thesis
    proof (cases "i \<le> length fs")
      case True
      show ?thesis
      proof (cases "playback_round False s")
        case None
        then show ?thesis using run False by (simp add: playback_rounds_def)
      next
        case (Some s')
        then show ?thesis
          using Cons.IH [OF round_moves_on [OF Some Cons.prems(1) True]] Cons.prems(3) True run False
          by (simp add: playback_rounds_def)
      qed
    next
      case behind: False
      obtain b where b: "pb_idx_array (ps_handle s) = Some b" "block_of fs b" "pb_file_end (ps_handle s) = 0"
        "index_current (ps_handle s) = int i"
        using Cons.prems(1) by (auto simp: playing_def loaded_def)
      have "playback_round False s = None"
        using b behind block_short [OF b(2), of i] by (simp add: playback_round_def Let_def)
      then show ?thesis using run False by (simp add: playback_rounds_def)
    qed
  qed
qed simp

section \<open>The time that is asked for\<close>

lemma frame_stamps:
  assumes "i < length fs"
  shows "slice (sizeof_AviHeader + length (chunks (take i fs)) + 8 + padded_length (fr_data (fs ! i)) + 8) 8
      (recording_image h fs dur bits) = le32 (fr_t1 (fs ! i)) @ le32 (fr_t2 (fs ! i))"
proof -
  let ?f = "fs ! i" and ?n = "length (chunks (take i fs))" and ?img = "recording_image h fs dur bits"
  have c: "chunks fs = chunks (take i fs) @ chunk ?f @ chunks (drop (Suc i) fs)"
    using assms id_take_nth_drop [of i fs] by (metis append.assoc chunks_simps(2,3) append_Cons append_Nil)
  have "slice (sizeof_AviHeader + ?n) (length (chunk ?f)) ?img = chunk ?f"
    by (simp add: image_parts c slice_def)
  then have "slice (sizeof_AviHeader + ?n + (16 + padded_length (fr_data ?f))) 8 ?img =
      slice (16 + padded_length (fr_data ?f)) 8 (chunk ?f)"
    using slice_slice [of "16 + padded_length (fr_data ?f)" 8 "length (chunk ?f)" "sizeof_AviHeader + ?n" ?img]
    by (simp add: length_chunk)
  moreover have "slice (16 + padded_length (fr_data ?f)) 8 (chunk ?f) = le32 (fr_t1 ?f) @ le32 (fr_t2 ?f)"
    by (simp add: chunk_def slice_def padded_length_def)
  moreover have "sizeof_AviHeader + ?n + 8 + padded_length (fr_data ?f) + 8 = sizeof_AviHeader + ?n + (16 + padded_length (fr_data ?f))"
    by simp
  ultimately show ?thesis by (simp only:)
qed

lemma read_over_full:
  "fpos f + 4 \<le> length (fdata f) \<Longrightarrow> read_over old f = (get32 (slice (fpos f) 4 (fdata f)), f\<lparr>fpos := fpos f + 4\<rparr>)"
  by (simp add: read_over_def fread1_def length_slice)

lemma first_stamp:
  assumes img: "img = recording_image h fs dur bits" "length img < 2 ^ 31"
    and p: "loaded img fs p" "index_current p = 0" and n: "0 < length fs"
  shows "\<exists>p'. dana_avi_get_frame_timestamp p tv = Some (0, (fr_t1 (fs ! 0), fr_t2 (fs ! 0)), p') \<and> loaded img fs p' \<and>
    index_current p' = 0 \<and> pb_file_end p' = pb_file_end p"
proof -
  obtain pos b where b: "pb_file p = Some \<lparr>fdata = img, fpos = pos\<rparr>" "pb_idx_array p = Some b" "block_of fs b"
    "idx_array_count p = int (length fs)"
    using p by (auto simp: loaded_def)
  let ?len = "padded_length (fr_data (fs ! 0))"
  let ?ts = "sizeof_AviHeader + 8 + ?len + 8"
  note e = block_entry [OF b(3) n, unfolded index_entry_def]
  have entry: "idx_get (Some b) 2 = Some (word_of_nat sizeof_AviHeader)" "idx_get (Some b) 3 = Some (word_of_nat ?len)"
    using e [of 2] e [of 3] by simp_all
  have l: "?ts + 8 \<le> length img" using frame_bytes(2) [OF n] img length_image [of h fs dur bits] by simp
  have sum: "8 + word_of_nat sizeof_AviHeader + word_of_nat ?len + 8 = (word_of_nat ?ts :: cuint)" by simp
  have sk: "seek (8 + word_of_nat sizeof_AviHeader + word_of_nat ?len + 8) f = (0, fseek_set ?ts f)" for f
    unfolding sum using l img(2) by (intro seek_ok) simp
  have st: "slice ?ts 8 img = le32 (fr_t1 (fs ! 0)) @ le32 (fr_t2 (fs ! 0))"
    using frame_stamps [OF n, of h dur bits] img(1) by simp
  have "slice ?ts 4 img = slice 0 4 (slice ?ts 8 img)" "slice (?ts + 4) 4 img = slice 4 4 (slice ?ts 8 img)"
    using slice_slice [of 0 4 8 ?ts img] slice_slice [of 4 4 8 ?ts img] by simp_all
  then have "slice ?ts 4 img = le32 (fr_t1 (fs ! 0))" "slice (?ts + 4) 4 img = le32 (fr_t2 (fs ! 0))"
    unfolding st by (simp_all add: slice_def)
  then show ?thesis
    using p b entry sk l by (simp add: dana_avi_get_frame_timestamp_def fseek_set_def read_over_full loaded_def Let_def)
qed

lemma search_stays:
  assumes img: "img = recording_image h fs dur bits" "length img < 2 ^ 31" and key: "fs \<noteq> []" "index_flags (fr_intra (hd fs)) = 0x11"
  shows "loaded img fs p \<Longrightarrow> index_current p = 0 \<Longrightarrow> j + n \<le> length fs \<Longrightarrow>
    (0 < j \<longrightarrow> \<not> diff_abs (fr_t1 (hd fs)) stamp < 10) \<Longrightarrow>
    \<exists>p'. find_i_frame n stamp (int j) tv p = Some p' \<and> loaded img fs p' \<and> index_current p' = 0 \<and> pb_file_end p' = pb_file_end p"
proof (induction n arbitrary: j tv p)
  case (Suc n)
  have n: "0 < length fs" using key(1) by simp
  obtain b where b: "pb_idx_array p = Some b" "block_of fs b" using Suc.prems(1) by (auto simp: loaded_def)
  have flags: "idx_get (pb_idx_array p) (4 * int j + 1) = Some (index_flags (fr_intra (fs ! j)))"
    using block_entry [OF b(2), of j 1] Suc.prems(3) b(1) by (simp add: index_entry_def)
  obtain p1 where p1: "dana_avi_get_frame_timestamp p tv = Some (0, (fr_t1 (fs ! 0), fr_t2 (fs ! 0)), p1)" "loaded img fs p1"
    "index_current p1 = 0" "pb_file_end p1 = pb_file_end p"
    using first_stamp [OF img Suc.prems(1,2) n] by blast
  have hd: "fs ! 0 = hd fs" using key(1) by (simp add: hd_conv_nth)
  show ?case
  proof (cases "index_flags (fr_intra (fs ! j)) = 0x11")
    case True
    then show ?thesis
      using Suc.IH [of p1 "Suc j"] Suc.prems flags p1 hd by (auto simp: loaded_def add.commute)
  next
    case False
    then have "0 < j" using key hd by (cases j) auto
    then show ?thesis using Suc.IH [of p "Suc j"] Suc.prems flags False by (auto simp: add.commute)
  qed
qed simp

section \<open>The whole thread\<close>

definition key_first :: "frame list \<Rightarrow> bool" where
  "key_first fs \<longleftrightarrow> fs \<noteq> [] \<and> (fr_intra (hd fs) = 1 \<or> fr_intra (hd fs) = 3)"

lemma thread_plays:
  assumes img: "img = recording_image h fs dur bits" "length img < 2 ^ 31" and fs: "key_first fs"
    and env: "\<forall>k. malloc_ok k" "files (ev_file_name ev) = Some img"
  shows "\<exists>p. playing img fs 0 \<lparr>ps_handle = p, ps_key = key, ps_sent = [], ps_running = True\<rparr> \<and>
    th_history_media malloc_ok junk files tv key ev pauses None =
      map_option (\<lambda>s. (ps_sent s, None)) (playback_rounds pauses \<lparr>ps_handle = p, ps_key = key, ps_sent = [], ps_running = True\<rparr>)"
proof -
  let ?p0 = "zero_handle\<lparr>pb_file := Some \<lparr>fdata = img, fpos = 0\<rparr>, pb_buf := True, index_current := 0, pb_file_end := 0\<rparr>"
  have create: "dana_playback_handle_create malloc_ok files (ev_file_name ev) None = (0, Some ?p0)"
    using env by (simp add: dana_playback_handle_create_def)
  have n: "0 < length fs" and key: "fs \<noteq> []" "index_flags (fr_intra (hd fs)) = 0x11"
    using fs by (auto simp: key_first_def index_flags_def is_video_def)
  obtain p1 where p1: "dana_avi_read_header_and_index malloc_ok junk ?p0 = Some (0, p1)" "loaded img fs p1"
    "index_current p1 = 0" "pb_file_end p1 = 0"
    using read_header_ok [OF img _ n env(1), of ?p0 junk] by auto
  have cnt: "nat (index_count p1) = length fs" using p1(2) by (auto simp: loaded_def)
  obtain p2 where p2: "find_i_frame (length fs) (ev_uitimestamp ev) 0 tv p1 = Some p2" "loaded img fs p2"
    "index_current p2 = 0" "pb_file_end p2 = 0"
    using search_stays [where tv = tv and stamp = "ev_uitimestamp ev", OF img key p1(2,3), of 0 "length fs"] p1(4) by auto
  define p where "p = (if ev_uiStartTime ev = scast (ev_uitimestamp ev) then p1 else p2)"
  have sel: "(if ev_uiStartTime ev = scast (ev_uitimestamp ev) then Some (p1\<lparr>index_current := 0\<rparr>)
      else find_i_frame (length fs) (ev_uitimestamp ev) 0 tv p1) = Some p"
    using p1(3) p2(1) by (cases p1) (simp add: p_def)
  have "playing img fs 0 \<lparr>ps_handle = p, ps_key = key, ps_sent = [], ps_running = True\<rparr>"
    using p1 p2 by (simp add: playing_def p_def)
  moreover have "th_history_media malloc_ok junk files tv key ev pauses None =
      map_option (\<lambda>s. (ps_sent s, None)) (playback_rounds pauses \<lparr>ps_handle = p, ps_key = key, ps_sent = [], ps_running = True\<rparr>)"
    unfolding th_history_media_def create prod.case Let_def option.case p1(1) cnt sel
    by (simp add: dana_playback_handle_destroy_def split: option.splits)
  ultimately show ?thesis by blast
qed

section \<open>The names of recordings\<close>

lemma digits_acc_stop: "\<forall>c \<in> set xs. is_digit_char c \<Longrightarrow> \<not> is_digit_char c \<Longrightarrow> digits_acc acc (xs @ c # ys) = digits_acc acc xs"
  by (simp add: digits_acc_append)

lemma atoi_number_then:
  assumes "\<not> is_digit_char c"
  shows "atoi (show_nat n @ c # ys) = int n"
proof -
  obtain d ds where s: "show_nat n = d # ds" by (cases "show_nat n") auto
  have "is_digit_char d" using set_show_nat [of d n] s by simp
  then have "atoi (show_nat n @ c # ys) = int (digits_acc 0 (show_nat n @ c # ys))"
    using digit_not_space [of d] s by (simp add: atoi_def)
  then show ?thesis using digits_acc_stop [OF _ assms] set_show_nat by (simp add: digits_acc_show_nat)
qed

text \<open>The name that the recorder gives a file: the start in seconds and the duration.\<close>

definition recorded_name :: "nat \<Rightarrow> nat \<Rightarrow> string" where
  "recorded_name start dur = show_nat start @ ''-'' @ show_int (int dur) @ ''.avi''"

lemma recorded_node:
  assumes "length (show_nat start) = 10" "start < 2 ^ 32" "dur < 1000"
  shows "dana_fileNode (recorded_name start dur) = \<lparr>uiStartTime = word_of_nat start, uiDurations = word_of_nat dur\<rparr>"
proof -
  have d: "length (show_nat dur) \<le> 3" using length_show_nat_le [of dur 3] assms(3) by simp
  have name: "recorded_name start dur = show_nat start @ CHR ''-'' # show_nat dur @ ''.avi''"
    by (simp add: recorded_name_def show_int_def)
  have 1: "name_part (recorded_name start dur) 0 10 = show_nat start"
    using assms(1) by (simp add: name_part_def avi_substring_def name slice_def)
  have "name_part (recorded_name start dur) 11 14 = take 3 (show_nat dur @ ''.avi'')"
    using assms(1) by (simp add: name_part_def avi_substring_def name slice_def)
  also have "\<dots> = show_nat dur @ take (3 - length (show_nat dur)) ''.avi''" using d by simp
  also have "atoi \<dots> = int dur"
  proof (cases "length (show_nat dur) = 3")
    case False
    then obtain k where "3 - length (show_nat dur) = Suc k" using d by (metis Suc_diff_Suc le_neq_implies_less)
    then show ?thesis using atoi_number_then [OF dot_no_digit] by simp
  qed simp
  finally have 2: "atoi (name_part (recorded_name start dur) 11 14) = int dur" .
  show ?thesis by (simp add: dana_fileNode_def 1 2)
qed

lemma recorded_is_avi: "is_avi_dir_format (recorded_name start dur)"
proof -
  let ?s = "recorded_name start dur" and ?i = "length (show_nat start @ ''-'' @ show_int (int dur))"
  have "take (length ''.avi'') (drop ?i ?s) = ''.avi''" by (simp add: recorded_name_def)
  then show ?thesis unfolding is_avi_dir_format_def using strstr_None [of ?s "''.avi''"] by blast
qed

lemma control_scan_find:
  "control_scan dir t ents ev =
     (case find (contains_time t) ents of
        None \<Rightarrow> (0, ev)
      | Some ent \<Rightarrow> (1, \<lparr>ev_uiStartTime = uiStartTime (dana_fileNode (d_name ent)), ev_uitimestamp = ucast t,
          ev_file_name = take 63 (dir @ ''/'' @ show_int (sint (uiStartTime (dana_fileNode (d_name ent)))) @ ''-'' @
            show_int (sint (uiDurations (dana_fileNode (d_name ent)))) @ ''.avi''), ev_playback = 1\<rparr>))"
  by (induction ents) (auto simp: Let_def)

lemma sint_small64: "n < 2 ^ 63 \<Longrightarrow> sint (word_of_nat n :: u64) = int n"
proof -
  assume "n < 2 ^ 63"
  then have "sint (word_of_int (int n) :: u64) = int n" by (simp only: sint_sbintrunc') (simp add: signed_take_bit_int_eq_self)
  then show ?thesis by simp
qed

section \<open>The list of recordings\<close>

definition listed :: "u64 \<Rightarrow> dirent \<Rightarrow> bool" where
  "listed last_time ent \<longleftrightarrow> dana_entry ent \<and> sint last_time \<le> sint (uiStartTime (dana_fileNode (d_name ent))) \<and>
     uiDurations (dana_fileNode (d_name ent)) \<noteq> 0"

definition reclist_of :: "dirent \<Rightarrow> reclist_info" where
  "reclist_of ent = \<lparr>start_time = uiStartTime (dana_fileNode (d_name ent)), ri_record_type = 1,
     ri_length = uiDurations (dana_fileNode (d_name ent))\<rparr>"

lemma reclist_scan_eq:
  "reclist_scan lt n ents (int c) infos =
     (let found = take (nat (n + 1 - int c)) (List.map reclist_of (filter (listed lt) ents)) in
      if found = [] \<or> c + length found \<le> length infos then Some (int (c + length found), put_at c found infos) else None)"
proof (induction ents arbitrary: c infos)
  case Nil
  then show ?case by (simp add: put_at_def)
next
  case (Cons ent ents)
  show ?case
  proof (cases "listed lt ent")
    case False
    then show ?thesis using Cons.IH by (auto simp: listed_def Let_def)
  next
    case True
    then have l: "dana_entry ent" "\<not> sint (uiStartTime (dana_fileNode (d_name ent))) < sint lt"
      "\<not> uiDurations (dana_fileNode (d_name ent)) \<le> 0"
      by (auto simp: listed_def)
    show ?thesis
    proof (cases "n < int c")
      case True
      then show ?thesis using l by (simp add: Let_def put_at_def)
    next
      case False
      then have k: "nat (n + 1 - int c) = Suc (nat (n + 1 - int (Suc c)))" by simp
      define F where "F = take (nat (n + 1 - int (Suc c))) (List.map reclist_of (filter (listed lt) ents))"
      have found: "take (nat (n + 1 - int c)) (List.map reclist_of (filter (listed lt) (ent # ents))) = reclist_of ent # F"
        using True k by (simp add: F_def)
      have IH: "reclist_scan lt n ents (int c + 1) (infos[c := reclist_of ent]) =
          (if F = [] \<or> Suc c + length F \<le> length infos
           then Some (int (Suc c + length F), put_at (Suc c) F (infos[c := reclist_of ent])) else None)"
        using Cons.IH [of "Suc c" "infos[c := reclist_of ent]"] by (simp add: F_def Let_def add.commute)
      have step: "reclist_scan lt n (ent # ents) (int c) infos =
          (if length infos \<le> c then None else reclist_scan lt n ents (int c + 1) (infos[c := reclist_of ent]))"
        using l False by (simp add: reclist_of_def Let_def)
      show ?thesis unfolding step IH found by (auto simp: put_at_Cons Let_def)
    qed
  qed
qed

section \<open>What the recorder leaves for a playback\<close>

lemma chunks_subseq: "subseq gs fs \<Longrightarrow> length (chunks gs) \<le> length (chunks fs)"
  by (induction rule: list_emb.induct) (simp_all add: chunks_def)

text \<open>The frames the recorder keeps of a run that begins with a key frame.\<close>

lemma kept_frames:
  assumes "frame_ok f" "fr_intra f = 1 \<or> fr_intra f = 3" "\<forall>g \<in> set (f # fs). padded_length (fr_data g) \<le> MEDIA_FRAME_SIZE"
    and "sizeof_AviHeader + length (chunks (f # fs)) + 8 + 16 * length (f # fs) < 2 ^ 31"
  obtains gs where "frames_taken (f # fs) = f # gs" "subseq gs fs"
    "key_first (f # gs)" "frames_fit (f # gs)"
    "\<forall>h dur bits. length (recording_image h (f # gs) dur bits) < 2 ^ 31"
proof -
  obtain gs where run: "frames_taken (f # fs) = f # gs" and gs: "subseq gs fs"
    using assms(1) that taken_subseq by (auto simp: frames_taken_def frame_ok_def DATA_SAVE_NUM_def)
  have sub: "subseq (f # gs) (f # fs)" using gs by simp
  then have "set (f # gs) \<subseteq> set (f # fs)" by (blast dest: list_emb_set)
  then have "frames_fit (f # gs)" using assms(3) by (auto simp: frames_fit_def)
  moreover have "length (recording_image h (f # gs) dur bits) < 2 ^ 31" for h dur bits
    using assms(4) chunks_subseq [OF sub] list_emb_length [OF gs] by (simp add: length_image)
  ultimately show ?thesis using that [OF run gs] assms(2) by (simp add: key_first_def)
qed

section \<open>Properties\<close>

text \<open>C10: Playing a recording gives the client its frames in order, each with its stream, its key flag and its bytes,
  padded to an even length; and this whatever time the client has asked for: the search for that time never moves the
  playback from the first frame, since it compares the time with the stamp of the first frame only.\<close>

theorem playback_from_start:
  assumes "img = recording_image h fs dur bits" "length img < 2 ^ 31" "key_first fs" "frames_fit fs"
    and "\<forall>k. malloc_ok k" "files (ev_file_name ev) = Some img"
    and "length (filter Not pauses) \<le> length fs"
  shows "th_history_media malloc_ok junk files tv key ev pauses None =
    Some (play_packets key (take (length (filter Not pauses)) fs), None)"
proof -
  obtain p where p: "playing img fs 0 \<lparr>ps_handle = p, ps_key = key, ps_sent = [], ps_running = True\<rparr>"
    "th_history_media malloc_ok junk files tv key ev pauses None =
      map_option (\<lambda>s. (ps_sent s, None)) (playback_rounds pauses \<lparr>ps_handle = p, ps_key = key, ps_sent = [], ps_running = True\<rparr>)"
    using thread_plays [where malloc_ok = malloc_ok and files = files and ev = ev, OF assms(1-3,5,6)] by blast
  show ?thesis using rounds_send [OF assms(1,2,4) p(1)] assms(7) p(2) by auto
qed

definition sample_frames :: "frame list" where
  "sample_frames = [mkframe [1, 2, 3] 1 7 8, mkframe [4] 2 7 9]"

definition sample_image :: "byte list" where
  "sample_image = recording_image (header_for 8 (init_param (zero_file 1 0))) sample_frames 40 8"

definition sample_event :: dana_av_event where
  "sample_event = \<lparr>ev_uiStartTime = 1430000000, ev_uitimestamp = 1430000500, ev_file_name = ''a'', ev_playback = 1\<rparr>"

lemma sample_recording_ok: "length sample_image < 2 ^ 31" "key_first sample_frames" "frames_fit sample_frames"
  by (simp_all add: sample_image_def sample_frames_def length_image chunks_def length_chunk padded_length_def sizeof_AviHeader_def
      key_first_def frames_fit_def MEDIA_FRAME_SIZE_def)

lemma playback_from_start_witness:
  "th_history_media (\<lambda>_. True) (\<lambda>_. 7) [''a'' \<mapsto> sample_image] (5, 6) 9 sample_event [False, True, False] None =
   Some ([\<lparr>pk_stream = VideoStream, pk_key = 1, pk_data = [1, 2, 3, 0]\<rparr>,
          \<lparr>pk_stream = AudioStream, pk_key = 1, pk_data = [4, 0]\<rparr>], None)"
  using playback_from_start [OF sample_image_def sample_recording_ok, of "\<lambda>_. True" "[''a'' \<mapsto> sample_image]" sample_event
      "[False, True, False]" "\<lambda>_. 7" "(5, 6)" 9]
  by (simp add: sample_event_def sample_frames_def frame_packet_def frame_key_def is_video_def)

text \<open>C36: A playback that is not stopped or paused for good runs over the end of its index: two rounds behind the last
  frame it reads an entry behind the block, whatever lies in the entry that the block has left.\<close>

theorem playback_overruns_index:
  assumes "img = recording_image h fs dur bits" "length img < 2 ^ 31" "key_first fs"
    and "\<forall>k. malloc_ok k" "files (ev_file_name ev) = Some img"
    and "length fs + 2 \<le> length (filter Not pauses)"
  shows "th_history_media malloc_ok junk files tv key ev pauses None = None"
proof -
  obtain p where p: "playing img fs 0 \<lparr>ps_handle = p, ps_key = key, ps_sent = [], ps_running = True\<rparr>"
    "th_history_media malloc_ok junk files tv key ev pauses None =
      map_option (\<lambda>s. (ps_sent s, None)) (playback_rounds pauses \<lparr>ps_handle = p, ps_key = key, ps_sent = [], ps_running = True\<rparr>)"
    using thread_plays [where malloc_ok = malloc_ok and files = files and ev = ev, OF assms(1-5)] by blast
  show ?thesis using rounds_overrun [OF assms(1,2) p(1)] assms(6) p(2) by simp
qed

lemma playback_overruns_index_witness:
  "th_history_media (\<lambda>_. True) (\<lambda>_. 7) [''a'' \<mapsto> sample_image] (5, 6) 9 sample_event [False, False, False, False] None = None"
  by (rule playback_overruns_index [OF sample_image_def sample_recording_ok(1,2)])
    (simp_all add: sample_event_def sample_frames_def)

text \<open>A recording that the recorder has closed is found by every second from its start to its end (its name has ten
  digits and a duration below 1000), and under the path that the recorder gave it, when its entry is the first of its
  day's directory that contains the time.\<close>

theorem recording_found:
  assumes "fs (day_dir (localtime t)) = Some (ents @ ent # rest)"
    and "\<forall>e \<in> set ents. \<not> contains_time t e"
    and "d_name ent = recorded_name start dur" "d_type ent AND DT_REG \<noteq> 0"
    and "length (show_nat start) = 10" "start < 2 ^ 32" "dur < 1000"
    and "int start \<le> sint t" "sint t < int start + int dur"
    and "length (day_dir (localtime t)) \<le> 40"
  shows "danale_history_recordplay_control fs localtime t ev =
    (1, \<lparr>ev_uiStartTime = word_of_nat start, ev_uitimestamp = ucast t,
         ev_file_name = day_dir (localtime t) @ ''/'' @ recorded_name start dur, ev_playback = 1\<rparr>)"
proof -
  note node = recorded_node [OF assms(5-7)]
  have s: "sint (word_of_nat start :: u64) = int start" using assms(6) by (intro sint_small64) simp
  have d: "uint (word_of_nat dur :: cuint) = int dur" "sint (word_of_nat dur :: cuint) = int dur"
    using assms(7) unat_word_of_nat [of dur] sint_of_int32 [of "int dur"] by (simp_all add: uint_nat in_int32_def)
  have ne: "recorded_name start dur \<noteq> ''.''" "recorded_name start dur \<noteq> ''..''"
    using assms(5) by (auto simp: recorded_name_def dest: arg_cong [where f = length])
  have c: "contains_time t ent"
    using assms(3,4,8,9) ne by (simp add: contains_time_def dana_entry_def node s d recorded_is_avi)
  have f: "find (contains_time t) (ents @ ent # rest) = Some ent"
    using assms(2) c by (induction ents) auto
  have len: "length (show_nat dur) \<le> 3" using length_show_nat_le [of dur 3] assms(7) by simp
  have name: "show_int (int start) @ ''-'' @ show_int (int dur) @ ''.avi'' = recorded_name start dur"
    by (simp add: recorded_name_def show_int_def)
  have "length (recorded_name start dur) \<le> 18" using assms(5) len by (simp add: recorded_name_def show_int_def)
  then have path: "take 63 (day_dir (localtime t) @ ''/'' @ recorded_name start dur) = day_dir (localtime t) @ ''/'' @ recorded_name start dur"
    using assms(10) by simp
  show ?thesis
    unfolding danale_history_recordplay_control_def control_scan_find Let_def assms(1) option.case f
    by (simp only: assms(3) node node_index.select_convs s d name path)
qed

lemma recording_found_witness:
  "danale_history_recordplay_control
     (\<lambda>p. if p = ''/mnt/sd_card/20150426'' then Some [\<lparr>d_type = 8, d_name = ''1430000000-15.avi''\<rparr>] else None)
     (\<lambda>_. \<lparr>tm_year = 115, tm_mon = 3, tm_mday = 26, tm_hour = 1, tm_min = 2, tm_sec = 3\<rparr>) 1430000007 sample_event =
   (1, \<lparr>ev_uiStartTime = 1430000000, ev_uitimestamp = 1430000007, ev_file_name = ''/mnt/sd_card/20150426/1430000000-15.avi'',
        ev_playback = 1\<rparr>)"
proof -
  let ?t = "\<lparr>tm_year = 115, tm_mon = 3, tm_mday = 26, tm_hour = 1, tm_min = 2, tm_sec = 3\<rparr>"
  have dir: "day_dir ?t = ''/mnt/sd_card/20150426''"
    by code_simp
  have num: "show_nat 1430000000 = ''1430000000''"
    by (simp add: show_nat.simps digit_char_def) code_simp
  have "show_int (int 15) = ''15''" by code_simp
  then have name: "recorded_name 1430000000 15 = ''1430000000-15.avi''" by (simp add: recorded_name_def num)
  have s: "sint (1430000007 :: u64) = 1430000007" using sint_small64 [of 1430000007] by simp
  show ?thesis
    using recording_found [of "\<lambda>p. if p = ''/mnt/sd_card/20150426'' then Some [\<lparr>d_type = 8, d_name = ''1430000000-15.avi''\<rparr>] else None"
        "\<lambda>_. ?t" 1430000007 "[]" "\<lparr>d_type = 8, d_name = ''1430000000-15.avi''\<rparr>" "[]" 1430000000 15 sample_event]
    by (simp add: dir num name s DT_REG_def)
qed

text \<open>A list of recordings for the client, with a counter that happens to start at 0: one more than the client asks for,
  and with 35 or more asked for and more than 35 recordings, a write behind the caller's array of 35.\<close>

theorem reclist_one_more:
  assumes "fs (day_dir (localtime t)) = Some ents" "length infos = 35" "0 \<le> n"
  shows "danale_history_recordplay_list fs localtime 0 t infos n =
    (let found = take (Suc (nat n)) (List.map reclist_of (filter (listed t) ents)) in
     if length found \<le> 35 then Some (0, Some (int (length found)), put_at 0 found infos) else None)"
  using assms reclist_scan_eq [of t n ents 0 infos]
  by (auto simp: danale_history_recordplay_list_def Let_def nat_add_distrib)

end
