(* ===== verification/RecPlan.thy ===== *)
theory RecPlan
  imports SdDetect Dispatch
begin

text \<open>
  The plan of recordings of the cloud client (\<^verbatim>\<open>danale/src/testdanavideo.c\<close>): the commands that set and fetch it, the
  thread that compares the time with it, and the thread that starts and stops the recordings as its result and the kind
  of recording say. The state joins the globals of the file with the main program's parameters and the storage module.
\<close>

section \<open>State\<close>

record clock_struc =
  ck_second :: byte
  ck_minute :: byte
  ck_hour :: byte
  ck_year :: "16 word"
  ck_week :: byte

definition RECORD_NO :: cuint where "RECORD_NO = 0"
definition RECORD_FULLTIME :: cuint where "RECORD_FULLTIME = 1"
definition RECORD_ALARM :: cuint where "RECORD_ALARM = 2"

definition SDK_RECORD_TYPE_MOTION_PRE :: cuint where "SDK_RECORD_TYPE_MOTION_PRE = 8"

text \<open>\<^verbatim>\<open>RECORD_STATUS\<close> without its lock and its thread, the statics of the file, and the locals of the schedule thread.\<close>

record record_status =
  record_flags :: cuint
  record_last_status :: cuint
  record_alarm_triger :: cuint
  record_alarm_opened :: cuint
  record_alarm_time :: cuint

datatype recorder_info = OFF_RECODER | NO_WEEKPLAN | CURRTIME_NO_IN_WEEKPLAN | CURRENTTIME_IN_WEEKPLAN

record 'p plan_sys =
  ps_main :: "'p main_st"
  ps_sd :: sd_state
  rstatus :: record_status
  SHCEDULE_PLAN_RECODER :: int
  GET_DANA_SET_RECPLAN_CLICK :: int
  GET_DANA_SET_TIME_CLICK :: int
  tBeginTime :: clock_struc
  tEndTime :: clock_struc
  plan_FLAG :: recorder_info

text \<open>The current time from the broken-down time and the day of the week that \<^verbatim>\<open>localtime\<close> gives.\<close>

definition getCurrentTime :: "tm \<Rightarrow> int \<Rightarrow> clock_struc" where
  "getCurrentTime t tm_wday =
     (let wk = (word_of_int tm_wday :: byte) in
      \<lparr>ck_second = word_of_int (tm_sec t), ck_minute = word_of_int (tm_min t), ck_hour = word_of_int (tm_hour t),
       ck_year = word_of_int (tm_year t + 1900), ck_week = (if wk = 0 then 7 else wk)\<rparr>)"

text \<open>0: in the span, -1: not.\<close>

definition IsInTimeSpan :: "clock_struc \<Rightarrow> clock_struc \<Rightarrow> clock_struc \<Rightarrow> int" where
  "IsInTimeSpan now beg fin =
     (let iBegLessThanEnd = (ck_hour beg < ck_hour fin \<or> ck_hour beg = ck_hour fin \<and> ck_minute beg \<le> ck_minute fin);
          after_beg = (ck_hour now > ck_hour beg \<or> ck_hour now = ck_hour beg \<and> ck_minute now \<ge> ck_minute beg);
          before_end = (ck_hour now < ck_hour fin \<or> ck_hour now = ck_hour fin \<and> ck_minute now \<le> ck_minute fin)
      in if iBegLessThanEnd then (if after_beg \<and> before_end then 0 else -1)
         else (if after_beg \<or> before_end then 0 else -1))"

section \<open>The stored plan\<close>

text \<open>Offsets in \<^verbatim>\<open>sdk_record_cfg_t\<close>: the schedule of a day of the week (1 to 7), the flag of its first time segment, and
  the day's entry in the week of that segment.\<close>

definition sizeof_record_cfg :: nat where "sizeof_record_cfg = 9984"
definition sched_off :: "nat \<Rightarrow> nat" where "sched_off wd = 4 + 1424 * (wd - 1)"
definition plan_flag_off :: "nat \<Rightarrow> nat" where "plan_flag_off wd = sched_off wd + 5"
definition day_off :: "nat \<Rightarrow> nat" where "day_off wd = sched_off wd + 8 + 40 * (wd - 1)"

definition byte_at :: "nat \<Rightarrow> byte list \<Rightarrow> byte" where
  "byte_at off m = m ! off"

definition day_time :: "nat \<Rightarrow> nat \<Rightarrow> byte list \<Rightarrow> byte \<times> byte \<times> byte" where
  "day_time k wd m = (byte_at (day_off wd + k) m, byte_at (day_off wd + k + 1) m, byte_at (day_off wd + k + 2) m)"

text \<open>The start time of a day is at 2, its end at 5.\<close>

definition plan_days :: "byte list \<Rightarrow> nat list" where
  "plan_days m = filter (\<lambda>wd. byte_at (plan_flag_off wd) m = 1) [1..<8]"

definition get_param_recoder_cfg :: "'p param_lib \<Rightarrow> byte \<Rightarrow> 'p plan_sys \<Rightarrow> 'p plan_sys" where
  "get_param_recoder_cfg lib nowweekday s =
     (let m = adapt_param_get_record_cfg lib 0 (params (ps_main s)) (replicate sizeof_record_cfg 0) in
      if byte_at 1 m = ucast RECORD_NO then s\<lparr>SHCEDULE_PLAN_RECODER := 0, plan_FLAG := OFF_RECODER\<rparr>
      else case plan_days m of
          [] \<Rightarrow> s\<lparr>SHCEDULE_PLAN_RECODER := 0, plan_FLAG := NO_WEEKPLAN\<rparr>
        | wd # _ \<Rightarrow>
            let (h, mi, sec) = day_time 2 wd m; (h', mi', sec') = day_time 5 wd m in
            s\<lparr>tBeginTime := (tBeginTime s)\<lparr>ck_hour := h, ck_minute := mi, ck_second := sec\<rparr>,
              tEndTime := (tEndTime s)\<lparr>ck_hour := h', ck_minute := mi', ck_second := sec'\<rparr>,
              plan_FLAG := (if unat nowweekday \<in> set (plan_days m) then CURRENTTIME_IN_WEEKPLAN else CURRTIME_NO_IN_WEEKPLAN)\<rparr>)"

section \<open>The commands of the client\<close>

text \<open>\<^verbatim>\<open>sscanf\<close> with \<^verbatim>\<open>%02d\<close>: white space, then at most two characters, of which one may be a sign.\<close>

definition scan_d2 :: "string \<Rightarrow> (int \<times> string) option" where
  "scan_d2 s =
     (let s = dropWhile is_space_char s;
          sign = (case s of c # _ \<Rightarrow> c = CHR ''-'' \<or> c = CHR ''+'' | [] \<Rightarrow> False);
          body = (if sign then tl s else s);
          ds = takeWhile is_digit_char (take (if sign then 1 else 2) body);
          v = int (digits_acc 0 ds)
      in if ds = [] then None else Some (if sign \<and> hd s = CHR ''-'' then - v else v, drop (length ds) body))"

text \<open>The three numbers of \<^verbatim>\<open>"%02d:%02d:%02d"\<close>; those that are not converted keep their value.\<close>

definition scan_colon :: "string \<Rightarrow> (int \<times> string) option" where
  "scan_colon s = (case s of c # r \<Rightarrow> if c = CHR '':'' then scan_d2 r else None | [] \<Rightarrow> None)"

definition sscanf_hms :: "string \<Rightarrow> int \<times> int \<times> int \<Rightarrow> int \<times> int \<times> int" where
  "sscanf_hms s old =
     (case (old, scan_d2 s) of
        ((h, mi, sec), None) \<Rightarrow> (h, mi, sec)
      | ((h, mi, sec), Some (h', r)) \<Rightarrow>
          (case scan_colon r of
             None \<Rightarrow> (h', mi, sec)
           | Some (mi', r) \<Rightarrow> (case scan_colon r of None \<Rightarrow> (h', mi', sec) | Some (sec', _) \<Rightarrow> (h', mi', sec'))))"

record recplanset_arg =
  rp_week_count :: nat
  rp_week :: "cuint list"
  rp_start_time :: string
  rp_end_time :: string
  rp_status :: cuint

definition put_byte :: "nat \<Rightarrow> int \<Rightarrow> byte list \<Rightarrow> byte list" where
  "put_byte off v m = put_at off [word_of_int v] m"

definition put_time :: "nat \<Rightarrow> int \<times> int \<times> int \<Rightarrow> byte list \<Rightarrow> byte list" where
  "put_time off t m = (case t of (h, mi, sec) \<Rightarrow> put_byte (off + 2) sec (put_byte (off + 1) mi (put_byte off h m)))"

definition put_plan_day :: "cuint \<Rightarrow> int \<times> int \<times> int \<Rightarrow> int \<times> int \<times> int \<Rightarrow> nat \<Rightarrow> byte list \<Rightarrow> byte list" where
  "put_plan_day rtype start stop wd m =
     put_time (day_off wd + 5) stop (put_time (day_off wd + 2) start
       (put_byte (plan_flag_off wd) 1 (put_byte (sched_off wd + 1) (uint rtype) m)))"

text \<open>A day outside the week is an access outside the array (\<open>None\<close>).\<close>

fun put_plan_days :: "cuint \<Rightarrow> int \<times> int \<times> int \<Rightarrow> int \<times> int \<times> int \<Rightarrow> cuint list \<Rightarrow> byte list \<Rightarrow> byte list option" where
  "put_plan_days rtype start stop [] m = Some m"
| "put_plan_days rtype start stop (d # ds) m =
     (if 1 \<le> unat d \<and> unat d \<le> 7 then put_plan_days rtype start stop ds (put_plan_day rtype start stop (unat d) m) else None)"

definition SDK_PARAM_GET :: cuint where "SDK_PARAM_GET = 2"
definition SDK_MSG_REQ :: byte where "SDK_MSG_REQ = 1"

text \<open>\<^verbatim>\<open>DANA_MSG_CTRL\<close>: the message goes to the callback that the main program has registered, its dispatch.\<close>

definition DANA_MSG_CTRL ::
  "'p handler \<Rightarrow> 16 word \<Rightarrow> cuint \<Rightarrow> cuint \<Rightarrow> cuint \<Rightarrow> sdk_msg \<Rightarrow> 'p main_st \<Rightarrow> (sdk_msg \<times> 'p main_st) option" where
  "DANA_MSG_CTRL g_dana_msg_cb i arg ext ch msg st =
     map_option snd (g_dana_msg_cb (msg\<lparr>msg_id := i, msg_dir := SDK_MSG_REQ, msg_chann := ch, msg_args := arg, msg_extend := ext\<rparr>) st)"

definition empty_msg :: "nat \<Rightarrow> sdk_msg" where
  "empty_msg n = \<lparr>msg_magic = 0, msg_version = 0, msg_id = 0, msg_dir = 0, msg_ack = 0, msg_args = 0, msg_extend = 0,
     msg_chann = 0, msg_size = 0, msg_data = replicate (n - 24) 0\<rparr>"

definition plan_record_type :: "cuint \<Rightarrow> cuint" where
  "plan_record_type st = (if st = RECORD_NO then RECORD_NO else if st = RECORD_FULLTIME then RECORD_FULLTIME
     else if st = RECORD_ALARM then RECORD_ALARM else RECORD_NO)"

text \<open>The case \<^verbatim>\<open>DANAVIDEOCMD_RECPLANSET\<close>; \<open>junk\<close> are the integers for the times, which are not initialised.\<close>

definition cmd_recplanset ::
  "'p handler \<Rightarrow> (int \<times> int \<times> int) \<times> (int \<times> int \<times> int) \<Rightarrow> recplanset_arg \<Rightarrow> 'p plan_sys \<Rightarrow> 'p plan_sys option" where
  "cmd_recplanset cb junk arg s =
     (let start = sscanf_hms (rp_start_time arg) (fst junk); stop = sscanf_hms (rp_end_time arg) (snd junk);
          record_type = plan_record_type (rp_status arg) in
      case DANA_MSG_CTRL cb 15 SDK_PARAM_GET 0 0 (empty_msg (10 * 1024)) (ps_main s) of
        None \<Rightarrow> None
      | Some (msg, st) \<Rightarrow>
          let m = put_byte 1 (uint record_type) (replicate sizeof_record_cfg 0 @ drop sizeof_record_cfg (msg_data msg)) in
          if length (rp_week arg) < rp_week_count arg then None
          else case put_plan_days record_type start stop (take (rp_week_count arg) (rp_week arg)) m of
              None \<Rightarrow> None
            | Some m \<Rightarrow>
                let m = put_byte 0 (uint record_type) (put_byte 9981 1 (put_byte 1 (uint record_type) m)) in
                (case DANA_MSG_CTRL cb 15 SDK_PARAM_SET 0 0 (msg\<lparr>msg_data := m, msg_size := of_nat sizeof_record_cfg\<rparr>) st of
                   None \<Rightarrow> None
                 | Some (_, st) \<Rightarrow>
                     Some (s\<lparr>ps_main := st, GET_DANA_SET_RECPLAN_CLICK := 1,
                             rstatus := (rstatus s)\<lparr>record_flags := record_type\<rparr>\<rparr>)))"

text \<open>The first plan of the answer to \<^verbatim>\<open>DANAVIDEOCMD_RECPLANGET\<close>.\<close>

record rec_plan =
  pl_week_count :: nat
  pl_week :: "nat list"
  pl_start_time :: string
  pl_end_time :: string
  pl_status :: nat

definition hms_string :: "byte \<times> byte \<times> byte \<Rightarrow> string" where
  "hms_string t = (case t of (h, mi, sec) \<Rightarrow> pad0 2 (unat h) @ '':'' @ pad0 2 (unat mi) @ '':'' @ pad0 2 (unat sec))"

definition default_plan :: rec_plan where
  "default_plan = \<lparr>pl_week_count = 2, pl_week = [1, 6, 0, 0, 0, 0, 0], pl_start_time = ''12:23:34'', pl_end_time = ''15:56:01'',
     pl_status = 1\<rparr>"

fun get_plan_days :: "byte list \<Rightarrow> nat list \<Rightarrow> nat \<Rightarrow> rec_plan \<Rightarrow> nat \<times> rec_plan" where
  "get_plan_days m [] cnt p = (cnt, p)"
| "get_plan_days m (wd # wds) cnt p =
     (if byte_at (plan_flag_off wd) m \<noteq> 1 then get_plan_days m wds cnt p
      else get_plan_days m wds (cnt + 1)
             (p\<lparr>pl_start_time := hms_string (day_time 2 wd m), pl_end_time := hms_string (day_time 5 wd m),
                pl_week := (pl_week p)[cnt := wd]\<rparr>))"

definition cmd_recplanget :: "'p handler \<Rightarrow> 'p plan_sys \<Rightarrow> (rec_plan \<times> 'p plan_sys) option" where
  "cmd_recplanget cb s =
     (case DANA_MSG_CTRL cb 15 SDK_PARAM_GET 0 0 (empty_msg (10 * 1024)) (ps_main s) of
        None \<Rightarrow> None
      | Some (msg, st) \<Rightarrow>
          let (cnt, p) = get_plan_days (msg_data msg) [1..<8] 0 default_plan
          in Some (p\<lparr>pl_week_count := cnt\<rparr>, s\<lparr>ps_main := st\<rparr>))"

section \<open>The threads\<close>

text \<open>The part of the schedule thread before its loop, and a round of the loop.\<close>

definition shcedule_start :: "'p param_lib \<Rightarrow> clock_struc \<Rightarrow> 'p plan_sys \<Rightarrow> 'p plan_sys" where
  "shcedule_start lib now s =
     (let zero = \<lparr>ck_second = 0, ck_minute = 0, ck_hour = 0, ck_year = 0, ck_week = 0\<rparr> in
      get_param_recoder_cfg lib (ck_week now) (s\<lparr>tBeginTime := zero, tEndTime := zero, SHCEDULE_PLAN_RECODER := 0\<rparr>))"

definition shcedule_round :: "'p param_lib \<Rightarrow> clock_struc \<Rightarrow> 'p plan_sys \<Rightarrow> 'p plan_sys" where
  "shcedule_round lib now s =
     (if ck_year now < 2017 then s\<lparr>SHCEDULE_PLAN_RECODER := 0\<rparr>
      else let s = (if GET_DANA_SET_RECPLAN_CLICK s = 1 \<or> GET_DANA_SET_TIME_CLICK s = 1
                    then get_param_recoder_cfg lib (ck_week now)
                           (s\<lparr>GET_DANA_SET_RECPLAN_CLICK := 0, GET_DANA_SET_TIME_CLICK := 0\<rparr>)
                    else s)
        in if plan_FLAG s = OFF_RECODER \<or> plan_FLAG s = NO_WEEKPLAN \<or> plan_FLAG s = CURRTIME_NO_IN_WEEKPLAN
           then get_param_recoder_cfg lib (ck_week now) (s\<lparr>SHCEDULE_PLAN_RECODER := 0\<rparr>)
           else if IsInTimeSpan now (tBeginTime s) (tEndTime s) = 0
           then (if SHCEDULE_PLAN_RECODER s = 0 then s\<lparr>SHCEDULE_PLAN_RECODER := 1\<rparr> else s)
           else s\<lparr>SHCEDULE_PLAN_RECODER := 0, rstatus := (rstatus s)\<lparr>record_flags := RECORD_NO\<rparr>\<rparr>)"

text \<open>The start and the stop of recordings on the storage module; whether a start succeeds is not looked at.\<close>

definition plan_start :: "bool \<Rightarrow> cuint \<Rightarrow> int \<Rightarrow> 'p plan_sys \<Rightarrow> 'p plan_sys" where
  "plan_start thread_ok rtype dur s =
     s\<lparr>ps_sd := (ps_sd s)\<lparr>ctl := snd (st_record_start (has_sd_card (ps_sd s)) thread_ok (uint rtype) dur (ctl (ps_sd s)))\<rparr>\<rparr>"

definition plan_stop :: "cuint \<Rightarrow> 'p plan_sys \<Rightarrow> 'p plan_sys" where
  "plan_stop rtype s = s\<lparr>ps_sd := (ps_sd s)\<lparr>ctl := snd (st_record_stop (uint rtype) (ctl (ps_sd s)))\<rparr>\<rparr>"

definition set_status :: "(record_status \<Rightarrow> record_status) \<Rightarrow> 'p plan_sys \<Rightarrow> 'p plan_sys" where
  "set_status f s = s\<lparr>rstatus := f (rstatus s)\<rparr>"

definition close_alarm :: "'p plan_sys \<Rightarrow> 'p plan_sys" where
  "close_alarm s =
     (if record_alarm_opened (rstatus s) = 1
      then set_status (record_alarm_opened_update (\<lambda>_. 0)) (plan_stop SDK_RECORD_TYPE_MOTION_PRE s) else s)"

definition to_no :: "'p plan_sys \<Rightarrow> 'p plan_sys" where
  "to_no s =
     (let l = record_last_status (rstatus s); done = set_status (record_last_status_update (\<lambda>_. RECORD_NO)) in
      if l = RECORD_FULLTIME then done (plan_stop SDK_RECORD_TYPE_MANU s)
      else if l = RECORD_ALARM then done (close_alarm s)
      else s)"

definition to_fulltime :: "bool \<Rightarrow> 'p plan_sys \<Rightarrow> 'p plan_sys" where
  "to_fulltime thread_ok s =
     (let l = record_last_status (rstatus s); done = set_status (record_last_status_update (\<lambda>_. RECORD_FULLTIME)) in
      if l = RECORD_NO then done (plan_start thread_ok SDK_RECORD_TYPE_MANU 300 s)
      else if l = RECORD_ALARM then done (plan_start thread_ok SDK_RECORD_TYPE_MANU 300 (close_alarm s))
      else s)"

definition to_alarm :: "bool \<Rightarrow> 'p plan_sys \<Rightarrow> 'p plan_sys" where
  "to_alarm thread_ok s =
     (let l = record_last_status (rstatus s); done = set_status (record_last_status_update (\<lambda>_. RECORD_ALARM)) in
      if l = RECORD_NO then done s
      else if l = RECORD_FULLTIME then done (plan_stop SDK_RECORD_TYPE_MANU s)
      else if l = RECORD_ALARM then
        if record_alarm_triger (rstatus s) = 1 then
          if st_get_event_status (ctl (ps_sd s)) = 0
          then set_status (\<lambda>r. r\<lparr>record_alarm_triger := record_alarm_triger r OR push_bit 16 1, record_alarm_opened := 1\<rparr>)
                 (plan_start thread_ok SDK_RECORD_TYPE_MOTION_PRE (uint (record_alarm_time (rstatus s))) s)
          else s
        else if st_get_event_status (ctl (ps_sd s)) = 0 then set_status (record_alarm_triger_update (\<lambda>_. 0)) s
        else s
      else s)"

definition dana_recordstatus_round :: "bool \<Rightarrow> 'p plan_sys \<Rightarrow> 'p plan_sys" where
  "dana_recordstatus_round thread_ok s =
     (if record_flags (rstatus s) = RECORD_NO \<or> SHCEDULE_PLAN_RECODER s = 0 then to_no s
      else if record_flags (rstatus s) = RECORD_FULLTIME \<and> SHCEDULE_PLAN_RECODER s = 1 then to_fulltime thread_ok s
      else if record_flags (rstatus s) = RECORD_ALARM then to_alarm thread_ok s
      else s)"

text \<open>The part of the main program that starts these threads: the kind of recording that is stored.\<close>

definition record_init :: "'p param_lib \<Rightarrow> 'p plan_sys \<Rightarrow> 'p plan_sys" where
  "record_init lib s =
     (let m = adapt_param_get_record_cfg lib 0 (params (ps_main s)) (replicate sizeof_record_cfg 0);
          mo = adapt_param_get_motion_cfg lib 0 (params (ps_main s)) (replicate 344 0) in
      s\<lparr>rstatus := \<lparr>record_flags = ucast (byte_at 1 m), record_last_status = 0, record_alarm_triger = 0, record_alarm_opened = 0,
                    record_alarm_time = ucast (byte_at 325 mo)\<rparr>\<rparr>)"

text \<open>The threads together: rounds of the schedule, of the status thread and of the detection of the card, and the card
  being plugged.\<close>

datatype plan_event = Sched clock_struc | Status bool | Detect sd_answers | Plug bool

fun plan_step :: "'p param_lib \<Rightarrow> plan_event \<Rightarrow> 'p plan_sys \<Rightarrow> 'p plan_sys" where
  "plan_step lib (Sched now) s = shcedule_round lib now s"
| "plan_step lib (Status ok) s = dana_recordstatus_round ok s"
| "plan_step lib (Detect a) s = s\<lparr>ps_sd := thread_sd_card_detecte a (ps_sd s)\<rparr>"
| "plan_step lib (Plug b) s = s\<lparr>ps_sd := (ps_sd s)\<lparr>has_sd_card := b\<rparr>\<rparr>"

end
