(* ===== verification/RecPlanFacts.thy ===== *)
theory RecPlanFacts
  imports RecPlan
begin

text \<open>
  What the plan of recordings promises: the span of time as a cyclic interval of minutes, the round trip of a plan
  through the parameters, and what the threads make of it, with the cases in which they never record again.
\<close>

section \<open>The span of time\<close>

definition minute_of :: "clock_struc \<Rightarrow> nat" where
  "minute_of c = 60 * unat (ck_hour c) + unat (ck_minute c)"

definition clock_ok :: "clock_struc \<Rightarrow> bool" where
  "clock_ok c \<longleftrightarrow> ck_hour c < 24 \<and> ck_minute c < 60"

lemma clock_okD: "clock_ok c \<Longrightarrow> minute_of c < 1440 \<and> unat (ck_minute c) < 60"
  by (simp add: clock_ok_def minute_of_def word_less_nat_alt)

lemma clock_le:
  assumes "clock_ok a" "clock_ok b"
  shows "(ck_hour a < ck_hour b \<or> ck_hour a = ck_hour b \<and> ck_minute a \<le> ck_minute b) \<longleftrightarrow> minute_of a \<le> minute_of b"
  using clock_okD [OF assms(1)] clock_okD [OF assms(2)]
  by (auto simp: minute_of_def word_less_nat_alt word_le_nat_alt word_unat_eq_iff)

lemma cyclic: "- 1440 \<le> x \<Longrightarrow> x < 1440 \<Longrightarrow> (x :: int) mod 1440 = (if x < 0 then x + 1440 else x)"
proof (cases "x < 0")
  case True
  assume "- 1440 \<le> x"
  then have "(x + 1440) mod 1440 = x + 1440" using True by (intro mod_pos_pos_trivial) simp_all
  then show ?thesis using True by simp
qed simp

lemma span_minutes:
  assumes "clock_ok now" "clock_ok beg" "clock_ok fin"
  shows "IsInTimeSpan now beg fin = 0 \<longleftrightarrow>
    (if minute_of beg \<le> minute_of fin then minute_of beg \<le> minute_of now \<and> minute_of now \<le> minute_of fin
     else minute_of beg \<le> minute_of now \<or> minute_of now \<le> minute_of fin)"
proof -
  have ge: "(ck_hour now > ck_hour beg \<or> ck_hour now = ck_hour beg \<and> ck_minute now \<ge> ck_minute beg) \<longleftrightarrow> minute_of beg \<le> minute_of now"
    using clock_le [OF assms(2,1)] by (auto simp: eq_commute)
  show ?thesis
    unfolding IsInTimeSpan_def Let_def ge clock_le [OF assms(1,3)] clock_le [OF assms(2,3)] by simp
qed

section \<open>Bytes of the stored plan\<close>

lemma put_byte_update: "off < length m \<Longrightarrow> put_byte off v m = m[off := word_of_int v]"
  by (simp add: put_byte_def put_at_single)

lemma length_put_byte [simp]: "off < length m \<Longrightarrow> length (put_byte off v m) = length m"
  by (simp add: put_byte_update)

lemma byte_at_put_byte: "off < length m \<Longrightarrow> byte_at k (put_byte off v m) = (if k = off then word_of_int v else byte_at k m)"
  by (simp add: put_byte_update byte_at_def)

definition time_bytes :: "int \<times> int \<times> int \<Rightarrow> byte \<times> byte \<times> byte" where
  "time_bytes t = (case t of (h, mi, sec) \<Rightarrow> (word_of_int h, word_of_int mi, word_of_int sec))"

definition in_week :: "nat \<Rightarrow> bool" where
  "in_week wd \<longleftrightarrow> 1 \<le> wd \<and> wd \<le> 7"

lemmas plan_offs = sched_off_def plan_flag_off_def day_off_def

lemma length_put_plan_day:
  "in_week wd \<Longrightarrow> sizeof_record_cfg \<le> length m \<Longrightarrow> length (put_plan_day rtype start stop wd m) = length m"
  by (cases start; cases stop; cases wd) (simp_all add: put_plan_day_def put_time_def in_week_def plan_offs sizeof_record_cfg_def)

lemma put_plan_day_byte:
  assumes "in_week wd" "sizeof_record_cfg \<le> length m"
  shows "byte_at k (put_plan_day rtype (a, b, c) (d, e, f) wd m) =
    (if k = day_off wd + 7 then word_of_int f else if k = day_off wd + 6 then word_of_int e
     else if k = day_off wd + 5 then word_of_int d else if k = day_off wd + 4 then word_of_int c
     else if k = day_off wd + 3 then word_of_int b else if k = day_off wd + 2 then word_of_int a
     else if k = plan_flag_off wd then 1 else if k = sched_off wd + 1 then word_of_int (uint rtype) else byte_at k m)"
  using assms
  by (cases wd) (simp_all add: put_plan_day_def put_time_def byte_at_put_byte in_week_def plan_offs sizeof_record_cfg_def)

text \<open>The configuration holds the plan of the days \<open>S\<close>, with the same times for each.\<close>

definition has_plan :: "nat set \<Rightarrow> int \<times> int \<times> int \<Rightarrow> int \<times> int \<times> int \<Rightarrow> byte list \<Rightarrow> bool" where
  "has_plan S start stop m \<longleftrightarrow>
     (\<forall>wd. in_week wd \<longrightarrow> (if wd \<in> S then byte_at (plan_flag_off wd) m = 1 \<and> day_time 2 wd m = time_bytes start \<and>
       day_time 5 wd m = time_bytes stop else byte_at (plan_flag_off wd) m = 0))"

lemma day_time_eq:
  "day_time 2 wd m = (byte_at (day_off wd + 2) m, byte_at (day_off wd + 3) m, byte_at (day_off wd + 4) m)"
  "day_time 5 wd m = (byte_at (day_off wd + 5) m, byte_at (day_off wd + 6) m, byte_at (day_off wd + 7) m)"
  by (simp_all add: day_time_def eval_nat_numeral)

lemma day_time_cong:
  "(\<And>k. k < 8 \<Longrightarrow> byte_at (day_off wd + k) m' = byte_at (day_off wd + k) m) \<Longrightarrow>
   day_time 2 wd m' = day_time 2 wd m \<and> day_time 5 wd m' = day_time 5 wd m"
  by (simp add: day_time_eq del: add_2_eq_Suc')

lemma has_plan_same:
  assumes "has_plan S start stop m"
    and "\<And>wd k. in_week wd \<Longrightarrow> k < 8 \<Longrightarrow> byte_at (day_off wd + k) m' = byte_at (day_off wd + k) m"
    and "\<And>wd. in_week wd \<Longrightarrow> byte_at (plan_flag_off wd) m' = byte_at (plan_flag_off wd) m"
  shows "has_plan S start stop m'"
proof -
  have "day_time 2 wd m' = day_time 2 wd m" "day_time 5 wd m' = day_time 5 wd m" if "in_week wd" for wd
    using day_time_cong [OF assms(2) [OF that]] by simp_all
  then show ?thesis using assms(1,3) by (simp add: has_plan_def)
qed

lemma day_apart:
  "in_week wd \<Longrightarrow> in_week wd' \<Longrightarrow> wd \<noteq> wd' \<Longrightarrow> i < 256 \<Longrightarrow> j < 256 \<Longrightarrow> sched_off wd + i \<noteq> sched_off wd' + j"
  by (cases "wd < wd'") (auto simp: in_week_def sched_off_def)

lemma day_in_sched: "in_week wd \<Longrightarrow> k < 8 \<Longrightarrow> \<exists>i < 256. day_off wd + k = sched_off wd + i"
  by (intro exI [where x = "8 + 40 * (wd - 1) + k"]) (auto simp: in_week_def day_off_def)

lemma flag_in_sched: "\<exists>i < 256. plan_flag_off wd = sched_off wd + i"
  by (intro exI [where x = 5]) (simp add: plan_flag_off_def)

lemma put_plan_day_outside:
  assumes "in_week wd" "sizeof_record_cfg \<le> length m" "\<And>i. i < 256 \<Longrightarrow> k \<noteq> sched_off wd + i"
  shows "byte_at k (put_plan_day rtype start stop wd m) = byte_at k m"
proof -
  have "k \<noteq> day_off wd + j" if "j < 8" for j using day_in_sched [OF assms(1) that] assms(3) by auto
  then have "k \<noteq> day_off wd + 7" "k \<noteq> day_off wd + 6" "k \<noteq> day_off wd + 5" "k \<noteq> day_off wd + 4"
    "k \<noteq> day_off wd + 3" "k \<noteq> day_off wd + 2" by (auto simp del: add_2_eq_Suc')
  moreover have "k \<noteq> plan_flag_off wd" "k \<noteq> sched_off wd + 1" using flag_in_sched [of wd] assms(3) assms(3) [of 1] by auto
  ultimately show ?thesis
    by (cases start; cases stop) (simp add: put_plan_day_byte [OF assms(1,2)])
qed

lemma put_plan_day_has:
  assumes wd: "in_week wd" and l: "sizeof_record_cfg \<le> length m" and p: "has_plan S start stop m"
  shows "has_plan (insert wd S) start stop (put_plan_day rtype start stop wd m)"
proof -
  let ?m = "put_plan_day rtype start stop wd m"
  obtain a b c d e f where t: "start = (a, b, c)" "stop = (d, e, f)" by (metis prod_cases3)
  have same: "byte_at (plan_flag_off wd) ?m = 1" "day_time 2 wd ?m = time_bytes start" "day_time 5 wd ?m = time_bytes stop"
    unfolding t by (simp_all add: put_plan_day_byte [OF wd l] day_time_eq time_bytes_def) (auto simp: plan_offs)
  have other: "byte_at (day_off wd' + k) ?m = byte_at (day_off wd' + k) m" "byte_at (plan_flag_off wd') ?m = byte_at (plan_flag_off wd') m"
    if "in_week wd'" "wd' \<noteq> wd" "k < 8" for wd' k
    using day_in_sched [OF that(1,3)] flag_in_sched [of wd'] day_apart [OF that(1) wd that(2)]
    by (metis put_plan_day_outside [OF wd l])+
  have days: "day_time 2 wd' ?m = day_time 2 wd' m" "day_time 5 wd' ?m = day_time 5 wd' m" if "in_week wd'" "wd' \<noteq> wd" for wd'
    using day_time_cong [OF other(1) [OF that]] by simp_all
  show ?thesis
    unfolding has_plan_def
  proof (intro allI impI)
    fix wd' assume w: "in_week wd'"
    show "if wd' \<in> insert wd S then byte_at (plan_flag_off wd') ?m = 1 \<and> day_time 2 wd' ?m = time_bytes start \<and>
        day_time 5 wd' ?m = time_bytes stop else byte_at (plan_flag_off wd') ?m = 0"
    proof (cases "wd' = wd")
      case True
      then show ?thesis using same by simp
    next
      case False
      then show ?thesis using p w days [OF w False] other(2) [OF w False, of 0] by (simp add: has_plan_def)
    qed
  qed
qed

lemma put_plan_days_has:
  assumes "\<forall>d \<in> set ds. in_week (unat d)" "sizeof_record_cfg \<le> length m" "has_plan S start stop m"
  shows "\<exists>m'. put_plan_days rtype start stop ds m = Some m' \<and> has_plan (S \<union> unat ` set ds) start stop m' \<and> length m' = length m"
  using assms
proof (induction ds arbitrary: S m)
  case (Cons d ds)
  have d: "in_week (unat d)" using Cons.prems(1) by simp
  let ?m = "put_plan_day rtype start stop (unat d) m"
  have l: "length ?m = length m" by (rule length_put_plan_day [OF d Cons.prems(2)])
  obtain m' where "put_plan_days rtype start stop ds ?m = Some m'" "has_plan (insert (unat d) S \<union> unat ` set ds) start stop m'"
    "length m' = length m"
    using Cons.IH [of ?m, OF _ _ put_plan_day_has [OF d Cons.prems(2,3), of rtype]] Cons.prems(1,2) l by auto
  then show ?case using d by (simp add: in_week_def)
qed simp

lemma plan_days_has:
  assumes "has_plan S start stop m"
  shows "plan_days m = filter (\<lambda>wd. wd \<in> S) [1..<8]"
proof -
  have "byte_at (plan_flag_off wd) m = 1 \<longleftrightarrow> wd \<in> S" if "in_week wd" for wd
    using assms that by (cases "wd \<in> S") (auto simp: has_plan_def)
  then show ?thesis unfolding plan_days_def by (intro filter_cong) (auto simp: in_week_def)
qed

section \<open>Times as strings\<close>

definition time_string :: "nat \<Rightarrow> nat \<Rightarrow> nat \<Rightarrow> string" where
  "time_string h mi sec = pad0 2 h @ '':'' @ pad0 2 mi @ '':'' @ pad0 2 sec"

lemma scan_d2_pad0: "n < 100 \<Longrightarrow> scan_d2 (pad0 2 n @ r) = Some (int n, r)"
proof -
  assume n: "n < 100"
  have l: "length (pad0 2 n) = 2" using n by (simp add: length_pad0)
  then obtain c cs where p: "pad0 2 n = c # cs" by (cases "pad0 2 n") auto
  have d: "\<forall>x \<in> set (pad0 2 n). is_digit_char x" using set_pad0 by blast
  then have c: "\<not> is_space_char c" "c \<noteq> CHR ''-''" "c \<noteq> CHR ''+''" using digit_not_space [of c] p by auto
  have "takeWhile is_digit_char (pad0 2 n) = pad0 2 n" using d by (simp add: takeWhile_eq_all_conv)
  then show ?thesis using l c p digits_acc_pad0 [of 2 n] by (auto simp: scan_d2_def Let_def)
qed

lemma sscanf_time_string:
  "h < 100 \<Longrightarrow> mi < 100 \<Longrightarrow> sec < 100 \<Longrightarrow> sscanf_hms (time_string h mi sec) old = (int h, int mi, int sec)"
  using scan_d2_pad0 [of sec "[]"]
  by (cases old) (simp add: sscanf_hms_def time_string_def scan_d2_pad0 scan_colon_def)

lemma hms_time_string:
  assumes "h < 100" "mi < 100" "sec < 100"
  shows "hms_string (time_bytes (int h, int mi, int sec)) = time_string h mi sec"
proof -
  have "unat (word_of_int (int n) :: byte) = n" if "n < 100" for n
    using that by (simp add: unat_of_nat)
  then show ?thesis using assms by (simp add: hms_string_def time_bytes_def time_string_def)
qed

section \<open>The commands through the dispatch\<close>

lemma dispatch_record:
  "msg_id msg = 15 \<Longrightarrow> main_msg_record_cfg lib (msg\<lparr>msg_ack := SDK_ERR_SUCCESS\<rparr>) st = Some (0, msg', st') \<Longrightarrow>
   msg_dispatch (msg_desc lib other) msg st = Some (0, msg'\<lparr>msg_id := 15, msg_ack := SDK_ERR_SUCCESS, msg_dir := SDK_MSG_RESP\<rparr>, st')"
  by (simp add: msg_dispatch_def msg_desc_def null_handlers_def modelled_handlers_def SDK_MAIN_MSG_BUTT_def)

lemma ctrl_get:
  assumes "sizeof_record_cfg \<le> length (msg_data msg)"
  shows "\<exists>msg'. DANA_MSG_CTRL (msg_dispatch (msg_desc lib other)) 15 SDK_PARAM_GET 0 0 msg st = Some (msg', st) \<and>
    msg_data msg' = adapt_param_get_record_cfg lib 0 (params st) (take sizeof_record_cfg (msg_data msg)) @
      drop sizeof_record_cfg (msg_data msg)"
proof -
  let ?m = "msg\<lparr>msg_id := 15, msg_dir := SDK_MSG_REQ, msg_chann := 0, msg_args := SDK_PARAM_GET, msg_extend := 0\<rparr>"
  let ?m' = "?m\<lparr>msg_ack := SDK_ERR_SUCCESS, msg_size := 9984,
    msg_data := adapt_param_get_record_cfg lib 0 (params st) (take 9984 (msg_data msg)) @ drop 9984 (msg_data msg)\<rparr>"
  have "main_msg_record_cfg lib (?m\<lparr>msg_ack := SDK_ERR_SUCCESS\<rparr>) st = Some (0, ?m', st)"
    using assms by (simp add: main_msg_record_cfg_def chann_cfg_def SDK_PARAM_GET_def SDK_PARAM_SET_def sizeof_record_cfg_def Let_def)
  from dispatch_record [OF _ this] show ?thesis by (simp add: DANA_MSG_CTRL_def sizeof_record_cfg_def)
qed

lemma ctrl_set:
  assumes "sizeof_record_cfg \<le> length (msg_data msg)"
  shows "\<exists>msg' st'. DANA_MSG_CTRL (msg_dispatch (msg_desc lib other)) 15 SDK_PARAM_SET 0 0 msg st = Some (msg', st') \<and>
    params st' = adapt_param_set_record_cfg lib 0 (take sizeof_record_cfg (msg_data msg)) (params st)"
proof -
  let ?m = "msg\<lparr>msg_id := 15, msg_dir := SDK_MSG_REQ, msg_chann := 0, msg_args := SDK_PARAM_SET, msg_extend := 0\<rparr>"
  let ?st = "WRITE_LOG LOG_MAJOR_PARAM 8 (st\<lparr>params := adapt_param_set_record_cfg lib 0 (take 9984 (msg_data msg)) (params st)\<rparr>)"
  have "main_msg_record_cfg lib (?m\<lparr>msg_ack := SDK_ERR_SUCCESS\<rparr>) st = Some (0, ?m\<lparr>msg_ack := SDK_ERR_SUCCESS, msg_size := 0\<rparr>, ?st)"
    using assms by (simp add: main_msg_record_cfg_def chann_cfg_def SDK_PARAM_SET_def CHANN_TYPE_ALL_def sizeof_record_cfg_def Let_def)
  moreover have "params ?st = adapt_param_set_record_cfg lib 0 (take 9984 (msg_data msg)) (params st)"
    by (simp add: WRITE_LOG_def)
  ultimately show ?thesis using dispatch_record [of ?m lib] by (simp add: DANA_MSG_CTRL_def sizeof_record_cfg_def)
qed

text \<open>The configuration that the schedule thread and the commands read.\<close>

definition stored_cfg :: "'p param_lib \<Rightarrow> 'p plan_sys \<Rightarrow> byte list" where
  "stored_cfg lib s = adapt_param_get_record_cfg lib 0 (params (ps_main s)) (replicate sizeof_record_cfg 0)"

lemma record_cfg_stored:
  "param_laws lib \<Longrightarrow> length m = sizeof_record_cfg \<Longrightarrow>
   adapt_param_get_record_cfg lib ch (adapt_param_set_record_cfg lib ch m p) (replicate sizeof_record_cfg 0) = m"
  by (simp add: adapt_param_get_record_cfg_def adapt_param_set_record_cfg_def sdk_param_get_ch_def sdk_param_set_ch_def plget_same)

definition days_of :: "recplanset_arg \<Rightarrow> nat set" where
  "days_of arg = unat ` set (take (rp_week_count arg) (rp_week arg))"

definition arg_ok :: "recplanset_arg \<Rightarrow> bool" where
  "arg_ok arg \<longleftrightarrow> rp_week_count arg \<le> length (rp_week arg) \<and> (\<forall>d \<in> days_of arg. in_week d)"

lemma zero_plan: "length m = sizeof_record_cfg + n \<Longrightarrow> \<forall>k < sizeof_record_cfg. 1 < k \<longrightarrow> byte_at k m = 0 \<Longrightarrow> has_plan {} a b m"
  by (auto simp: has_plan_def in_week_def plan_offs sizeof_record_cfg_def)

lemma has_plan_put:
  assumes "has_plan S a b m" "k \<le> 1 \<or> 9972 \<le> k" "k < length m"
  shows "has_plan S a b (put_byte k v m)"
proof (rule has_plan_same [OF assms(1)])
  fix wd i :: nat assume w: "in_week wd" "i < 8"
  then have "day_off wd + i \<noteq> k" using assms(2) by (auto simp: in_week_def plan_offs)
  then show "byte_at (day_off wd + i) (put_byte k v m) = byte_at (day_off wd + i) m"
    using assms(3) by (simp add: byte_at_put_byte)
next
  fix wd :: nat assume w: "in_week wd"
  then have "plan_flag_off wd \<noteq> k" using assms(2) by (auto simp: in_week_def plan_offs)
  then show "byte_at (plan_flag_off wd) (put_byte k v m) = byte_at (plan_flag_off wd) m"
    using assms(3) by (simp add: byte_at_put_byte)
qed

lemma has_plan_take: "has_plan S a b m \<Longrightarrow> has_plan S a b (take sizeof_record_cfg m)"
  by (erule has_plan_same) (auto simp: byte_at_def in_week_def plan_offs sizeof_record_cfg_def)

lemma recplanset_stores:
  assumes lib: "param_laws lib" and arg: "arg_ok arg"
  shows "\<exists>st. cmd_recplanset (msg_dispatch (msg_desc lib other)) junk arg s =
      Some (s\<lparr>ps_main := st, GET_DANA_SET_RECPLAN_CLICK := 1,
              rstatus := (rstatus s)\<lparr>record_flags := plan_record_type (rp_status arg)\<rparr>\<rparr>) \<and>
    has_plan (days_of arg) (sscanf_hms (rp_start_time arg) (fst junk)) (sscanf_hms (rp_end_time arg) (snd junk))
      (stored_cfg lib (s\<lparr>ps_main := st\<rparr>)) \<and>
    byte_at 1 (stored_cfg lib (s\<lparr>ps_main := st\<rparr>)) = ucast (plan_record_type (rp_status arg))"
proof -
  let ?N = sizeof_record_cfg and ?t = "plan_record_type (rp_status arg)"
  let ?start = "sscanf_hms (rp_start_time arg) (fst junk)" and ?stop = "sscanf_hms (rp_end_time arg) (snd junk)"
  have N: "1 < ?N" "9981 < ?N" by (simp_all add: sizeof_record_cfg_def)
  have l0: "length (msg_data (empty_msg (10 * 1024))) = 10216" "?N \<le> length (msg_data (empty_msg (10 * 1024)))"
    by (simp_all add: empty_msg_def sizeof_record_cfg_def)
  obtain msg where msg: "DANA_MSG_CTRL (msg_dispatch (msg_desc lib other)) 15 SDK_PARAM_GET 0 0 (empty_msg (10 * 1024)) (ps_main s) =
      Some (msg, ps_main s)" "drop ?N (msg_data msg) = replicate 232 0"
  proof -
    obtain msg where m: "DANA_MSG_CTRL (msg_dispatch (msg_desc lib other)) 15 SDK_PARAM_GET 0 0 (empty_msg (10 * 1024)) (ps_main s) =
        Some (msg, ps_main s)" "msg_data msg = adapt_param_get_record_cfg lib 0 (params (ps_main s))
          (take ?N (msg_data (empty_msg (10 * 1024)))) @ drop ?N (msg_data (empty_msg (10 * 1024)))"
      using ctrl_get [OF l0(2), of lib other "ps_main s"] by blast
    have "length (adapt_param_get_record_cfg lib 0 (params (ps_main s)) (take ?N (msg_data (empty_msg (10 * 1024))))) = ?N"
      using plget_length [OF lib] l0 by (simp add: adapt_param_get_record_cfg_def sdk_param_get_ch_def)
    then show ?thesis using that [OF m(1)] m(2) by (simp add: empty_msg_def sizeof_record_cfg_def)
  qed
  define m0 where "m0 = put_byte 1 (uint ?t) (replicate ?N 0 @ replicate 232 0 :: byte list)"
  have m0: "length m0 = ?N + 232" "has_plan {} ?start ?stop m0"
    using N by (simp_all add: m0_def, intro zero_plan [where n = 232])
      (simp_all add: byte_at_put_byte, auto simp: byte_at_def nth_append)
  obtain m1 where m1: "put_plan_days ?t ?start ?stop (take (rp_week_count arg) (rp_week arg)) m0 = Some m1"
    "has_plan (days_of arg) ?start ?stop m1" "length m1 = ?N + 232"
    using put_plan_days_has [OF _ _ m0(2), of "take (rp_week_count arg) (rp_week arg)" ?t] arg m0(1)
    by (auto simp: arg_ok_def days_of_def)
  define m2 where "m2 = put_byte 0 (uint ?t) (put_byte 9981 1 (put_byte 1 (uint ?t) m1))"
  have m2: "has_plan (days_of arg) ?start ?stop m2" "length m2 = ?N + 232" "byte_at 1 m2 = ucast ?t"
    using m1 N by (simp_all add: m2_def has_plan_put byte_at_put_byte)
  obtain msg' st where st: "DANA_MSG_CTRL (msg_dispatch (msg_desc lib other)) 15 SDK_PARAM_SET 0 0
      (msg\<lparr>msg_data := m2, msg_size := of_nat ?N\<rparr>) (ps_main s) = Some (msg', st)"
    "params st = adapt_param_set_record_cfg lib 0 (take ?N m2) (params (ps_main s))"
    using ctrl_set [of "msg\<lparr>msg_data := m2, msg_size := of_nat ?N\<rparr>" lib other "ps_main s"] m2(2) by auto
  have cfg: "stored_cfg lib (s\<lparr>ps_main := st\<rparr>) = take ?N m2"
    using record_cfg_stored [OF lib, of "take ?N m2"] m2(2) by (simp add: stored_cfg_def st(2))
  have "cmd_recplanset (msg_dispatch (msg_desc lib other)) junk arg s =
      Some (s\<lparr>ps_main := st, GET_DANA_SET_RECPLAN_CLICK := 1, rstatus := (rstatus s)\<lparr>record_flags := ?t\<rparr>\<rparr>)"
    using arg unfolding cmd_recplanset_def Let_def msg(1) option.case prod.case msg(2) m0_def [symmetric] m1(1) m2_def [symmetric] st(1)
    by (simp add: arg_ok_def)
  moreover have "byte_at 1 (take ?N m2) = ucast ?t" using m2(3) N by (simp add: byte_at_def)
  ultimately show ?thesis using has_plan_take [OF m2(1)] cfg by auto
qed

lemma get_plan_days_eq:
  "cnt + length (filter (\<lambda>wd. byte_at (plan_flag_off wd) m = 1) wds) \<le> length (pl_week p) \<Longrightarrow>
   get_plan_days m wds cnt p =
     (let days = filter (\<lambda>wd. byte_at (plan_flag_off wd) m = 1) wds in
      (cnt + length days,
       if days = [] then p
       else p\<lparr>pl_start_time := hms_string (day_time 2 (last days) m), pl_end_time := hms_string (day_time 5 (last days) m),
              pl_week := put_at cnt days (pl_week p)\<rparr>))"
proof (induction wds arbitrary: cnt p)
  case (Cons wd wds)
  let ?days = "filter (\<lambda>wd. byte_at (plan_flag_off wd) m = 1) wds"
  show ?case
  proof (cases "byte_at (plan_flag_off wd) m = 1")
    case True
    let ?p = "p\<lparr>pl_start_time := hms_string (day_time 2 wd m), pl_end_time := hms_string (day_time 5 wd m),
      pl_week := (pl_week p)[cnt := wd]\<rparr>"
    have len: "Suc cnt + length ?days \<le> length (pl_week ?p)" using Cons.prems True by simp
    have c: "cnt < length (pl_week p)" using Cons.prems True by simp
    have one: "put_at cnt [wd] (pl_week p) = (pl_week p)[cnt := wd]" by (rule put_at_single [OF c])
    show ?thesis using Cons.IH [OF len] True c by (simp add: Let_def put_at_Cons one)
  qed (use Cons in simp)
qed simp

section \<open>What the schedule thread reads\<close>

lemma plan_read:
  assumes "has_plan S a b (stored_cfg lib s)" "byte_at 1 (stored_cfg lib s) \<noteq> 0" "wd \<in> S" "in_week wd"
  shows "\<exists>s'. get_param_recoder_cfg lib wk s = s' \<and> ps_sd s' = ps_sd s \<and> ps_main s' = ps_main s \<and> rstatus s' = rstatus s \<and>
    GET_DANA_SET_RECPLAN_CLICK s' = GET_DANA_SET_RECPLAN_CLICK s \<and> GET_DANA_SET_TIME_CLICK s' = GET_DANA_SET_TIME_CLICK s \<and>
    SHCEDULE_PLAN_RECODER s' = SHCEDULE_PLAN_RECODER s \<and>
    (ck_hour (tBeginTime s'), ck_minute (tBeginTime s'), ck_second (tBeginTime s')) = time_bytes a \<and>
    (ck_hour (tEndTime s'), ck_minute (tEndTime s'), ck_second (tEndTime s')) = time_bytes b \<and>
    plan_FLAG s' = (if unat wk \<in> S \<and> in_week (unat wk) then CURRENTTIME_IN_WEEKPLAN else CURRTIME_NO_IN_WEEKPLAN)"
proof -
  let ?m = "stored_cfg lib s"
  note pd = plan_days_has [OF assms(1)]
  have "wd \<in> set (plan_days ?m)" using assms(3,4) by (auto simp: pd in_week_def)
  then obtain d ds where d: "plan_days ?m = d # ds" by (cases "plan_days ?m") auto
  have "d \<in> set (plan_days ?m)" using d by simp
  then have "d \<in> S" "in_week d" by (auto simp: pd in_week_def)
  then have t: "day_time 2 d ?m = time_bytes a" "day_time 5 d ?m = time_bytes b" using assms(1) by (simp_all add: has_plan_def)
  obtain h mi sec h' mi' sec' where e: "time_bytes a = (h, mi, sec)" "time_bytes b = (h', mi', sec')" by (metis prod_cases3)
  have flag: "unat wk \<in> set (plan_days ?m) \<longleftrightarrow> unat wk \<in> S \<and> in_week (unat wk)" by (auto simp: pd in_week_def)
  have "byte_at 1 ?m \<noteq> ucast RECORD_NO" using assms(2) by (simp add: RECORD_NO_def)
  then have "get_param_recoder_cfg lib wk s =
      s\<lparr>tBeginTime := (tBeginTime s)\<lparr>ck_hour := h, ck_minute := mi, ck_second := sec\<rparr>,
        tEndTime := (tEndTime s)\<lparr>ck_hour := h', ck_minute := mi', ck_second := sec'\<rparr>,
        plan_FLAG := (if unat wk \<in> set (plan_days ?m) then CURRENTTIME_IN_WEEKPLAN else CURRTIME_NO_IN_WEEKPLAN)\<rparr>"
    unfolding get_param_recoder_cfg_def Let_def stored_cfg_def [symmetric] by (simp add: d t e)
  then show ?thesis by (simp add: e flag)
qed

section \<open>Rounds without a new plan\<close>

definition no_click :: "'p plan_sys \<Rightarrow> bool" where
  "no_click s \<longleftrightarrow> GET_DANA_SET_RECPLAN_CLICK s \<noteq> 1 \<and> GET_DANA_SET_TIME_CLICK s \<noteq> 1"

lemma status_fields [simp]:
  "plan_FLAG (dana_recordstatus_round ok s) = plan_FLAG s"
  "tBeginTime (dana_recordstatus_round ok s) = tBeginTime s" "tEndTime (dana_recordstatus_round ok s) = tEndTime s"
  "GET_DANA_SET_RECPLAN_CLICK (dana_recordstatus_round ok s) = GET_DANA_SET_RECPLAN_CLICK s"
  "GET_DANA_SET_TIME_CLICK (dana_recordstatus_round ok s) = GET_DANA_SET_TIME_CLICK s"
  "SHCEDULE_PLAN_RECODER (dana_recordstatus_round ok s) = SHCEDULE_PLAN_RECODER s"
  "ps_main (dana_recordstatus_round ok s) = ps_main s"
  "record_flags (rstatus (dana_recordstatus_round ok s)) = record_flags (rstatus s)"
  by (simp_all add: dana_recordstatus_round_def to_no_def to_fulltime_def to_alarm_def close_alarm_def set_status_def plan_start_def
      plan_stop_def Let_def)

lemma stop_keeps_threads: "threads (snd (st_record_stop rtype c)) = threads c"
  by (simp add: st_record_stop_def stop_event_record_stream_def stop_normal_record_stream_def)

lemma plan_stop_threads [simp]: "threads (ctl (ps_sd (plan_stop rtype s))) = threads (ctl (ps_sd s))"
  by (simp add: plan_stop_def stop_keeps_threads)

lemma set_status_sd [simp]: "ps_sd (set_status f s) = ps_sd s"
  by (simp add: set_status_def)

lemma close_alarm_threads [simp]: "threads (ctl (ps_sd (close_alarm s))) = threads (ctl (ps_sd s))"
  by (simp add: close_alarm_def)

lemma to_no_threads [simp]: "threads (ctl (ps_sd (to_no s))) = threads (ctl (ps_sd s))"
  by (simp add: to_no_def Let_def)

lemma get_param_keeps:
  "ps_sd (get_param_recoder_cfg lib wk s) = ps_sd s" "rstatus (get_param_recoder_cfg lib wk s) = rstatus s"
  "ps_main (get_param_recoder_cfg lib wk s) = ps_main s"
  "SHCEDULE_PLAN_RECODER s = 0 \<Longrightarrow> SHCEDULE_PLAN_RECODER (get_param_recoder_cfg lib wk s) = 0"
  by (simp_all add: get_param_recoder_cfg_def Let_def split: list.splits prod.splits)

lemma shcedule_keeps:
  "ps_sd (shcedule_round lib now s) = ps_sd s" "ps_main (shcedule_round lib now s) = ps_main s"
  "record_flags (rstatus s) = RECORD_NO \<Longrightarrow> record_flags (rstatus (shcedule_round lib now s)) = RECORD_NO"
  by (simp_all add: shcedule_round_def get_param_keeps Let_def)

definition only_threads :: "plan_event \<Rightarrow> bool" where
  "only_threads e \<longleftrightarrow> (\<forall>a. e \<noteq> Detect a)"

definition in_span :: "clock_struc \<Rightarrow> clock_struc \<Rightarrow> plan_event \<Rightarrow> bool" where
  "in_span beg fin e \<longleftrightarrow> (\<forall>now. e = Sched now \<longrightarrow> 2017 \<le> ck_year now \<and> IsInTimeSpan now beg fin = 0)"

text \<open>No recording is asked for: nothing is started.\<close>

definition off_since :: "thread_req list \<Rightarrow> 'p plan_sys \<Rightarrow> bool" where
  "off_since th s \<longleftrightarrow> record_flags (rstatus s) = RECORD_NO \<and> threads (ctl (ps_sd s)) = th"

lemma off_step: "only_threads e \<Longrightarrow> off_since th s \<Longrightarrow> off_since th (plan_step lib e s)"
  by (cases e) (auto simp: only_threads_def off_since_def shcedule_keeps dana_recordstatus_round_def to_no_def set_status_def
      plan_stop_def stop_keeps_threads close_alarm_def Let_def)

text \<open>A plan that is being kept: in the span of time, no new plan.\<close>

definition kept :: "clock_struc \<Rightarrow> clock_struc \<Rightarrow> 'p plan_sys \<Rightarrow> bool" where
  "kept beg fin s \<longleftrightarrow> plan_FLAG s = CURRENTTIME_IN_WEEKPLAN \<and> no_click s \<and> SHCEDULE_PLAN_RECODER s = 1 \<and>
     tBeginTime s = beg \<and> tEndTime s = fin \<and> record_flags (rstatus s) = RECORD_FULLTIME \<and> record_last_status (rstatus s) = RECORD_FULLTIME"

lemma shcedule_kept: "kept beg fin s \<Longrightarrow> in_span beg fin (Sched now) \<Longrightarrow> shcedule_round lib now s = s"
  by (auto simp: kept_def in_span_def no_click_def shcedule_round_def Let_def simp flip: not_less)

lemma status_kept: "kept beg fin s \<Longrightarrow> dana_recordstatus_round ok s = s"
  by (simp add: kept_def dana_recordstatus_round_def to_fulltime_def RECORD_NO_def RECORD_FULLTIME_def RECORD_ALARM_def)

lemma kept_step: "in_span beg fin e \<Longrightarrow> kept beg fin s \<Longrightarrow> kept beg fin (plan_step lib e s)"
  by (cases e) (simp_all add: shcedule_kept status_kept, simp_all add: kept_def no_click_def)

text \<open>A storage module that has nothing to record or to resume.\<close>

definition idle :: "thread_req list \<Rightarrow> sd_state \<Rightarrow> bool" where
  "idle th sd \<longleftrightarrow> threads (ctl sd) = th \<and> tmp_normal_record sd \<noteq> 1 \<and> tmp_event_record sd \<noteq> 1 \<and>
     g_normal_status (work (ctl sd)) \<noteq> 1 \<and> g_event_status (work (ctl sd)) \<noteq> 1"

lemma idle_detect: "idle th sd \<Longrightarrow> idle th (thread_sd_card_detecte a sd)"
  by (auto simp: idle_def thread_sd_card_detecte_def sd_acknowledge_format_def sd_card_gone_def sd_resume_def sd_recycle_def Let_def)

lemma idle_plug: "idle th (sd\<lparr>has_sd_card := b\<rparr>) = idle th sd"
  by (simp add: idle_def)

lemma kept_sd [simp]: "kept beg fin (s\<lparr>ps_sd := sd\<rparr>) = kept beg fin s"
  by (simp add: kept_def no_click_def)

lemma idle_kept_step:
  "in_span beg fin e \<Longrightarrow> kept beg fin s \<and> idle th (ps_sd s) \<Longrightarrow> kept beg fin (plan_step lib e s) \<and> idle th (ps_sd (plan_step lib e s))"
  using kept_step by (cases e) (auto simp: shcedule_kept status_kept idle_detect idle_plug)

section \<open>Properties\<close>

text \<open>C21: The test of the time against a plan is the test of a cyclic interval of minutes, also when the plan ends on the
  next day.\<close>

theorem time_span_cyclic:
  assumes "clock_ok now" "clock_ok beg" "clock_ok fin"
  shows "IsInTimeSpan now beg fin = 0 \<longleftrightarrow>
    (int (minute_of now) - int (minute_of beg)) mod 1440 \<le> (int (minute_of fin) - int (minute_of beg)) mod 1440"
  using clock_okD [OF assms(1)] clock_okD [OF assms(2)] clock_okD [OF assms(3)]
  unfolding span_minutes [OF assms] by (auto simp: cyclic)

definition clock_at :: "byte \<Rightarrow> byte \<Rightarrow> clock_struc" where
  "clock_at h mi = \<lparr>ck_second = 0, ck_minute = mi, ck_hour = h, ck_year = 2020, ck_week = 1\<rparr>"

lemma time_span_cyclic_witness:
  "IsInTimeSpan (clock_at 1 0) (clock_at 22 30) (clock_at 6 15) = 0 \<longleftrightarrow>
   (int (minute_of (clock_at 1 0)) - int (minute_of (clock_at 22 30))) mod 1440 \<le>
   (int (minute_of (clock_at 6 15)) - int (minute_of (clock_at 22 30))) mod 1440"
  by (rule time_span_cyclic) (simp_all add: clock_ok_def clock_at_def)

text \<open>C20: A plan that the client sets is the plan that it gets back: the days it named, in order, and the two times.\<close>

theorem plan_round_trip:
  assumes "param_laws lib" "arg_ok arg" "days_of arg \<noteq> {}"
    and "rp_start_time arg = time_string h mi sec" "h < 100" "mi < 100" "sec < 100"
    and "rp_end_time arg = time_string h' mi' sec'" "h' < 100" "mi' < 100" "sec' < 100"
  shows "\<exists>s1 p s2. cmd_recplanset (msg_dispatch (msg_desc lib other)) junk arg s = Some s1 \<and>
    cmd_recplanget (msg_dispatch (msg_desc lib other)) s1 = Some (p, s2) \<and>
    take (pl_week_count p) (pl_week p) = filter (\<lambda>wd. wd \<in> days_of arg) [1..<8] \<and>
    pl_start_time p = rp_start_time arg \<and> pl_end_time p = rp_end_time arg"
proof -
  let ?a = "(int h, int mi, int sec)" and ?b = "(int h', int mi', int sec')"
  obtain st where st: "cmd_recplanset (msg_dispatch (msg_desc lib other)) junk arg s =
      Some (s\<lparr>ps_main := st, GET_DANA_SET_RECPLAN_CLICK := 1,
              rstatus := (rstatus s)\<lparr>record_flags := plan_record_type (rp_status arg)\<rparr>\<rparr>)"
    "has_plan (days_of arg) ?a ?b (stored_cfg lib (s\<lparr>ps_main := st\<rparr>))"
    using recplanset_stores [OF assms(1,2), of other junk s] unfolding assms(4,8)
    by (simp only: sscanf_time_string [OF assms(5-7)] sscanf_time_string [OF assms(9-11)]) blast
  let ?s1 = "s\<lparr>ps_main := st, GET_DANA_SET_RECPLAN_CLICK := 1, rstatus := (rstatus s)\<lparr>record_flags := plan_record_type (rp_status arg)\<rparr>\<rparr>"
  let ?msg = "empty_msg (10 * 1024)" and ?cfg = "stored_cfg lib (s\<lparr>ps_main := st\<rparr>)"
  have buf: "take sizeof_record_cfg (msg_data ?msg) = replicate sizeof_record_cfg 0" "sizeof_record_cfg \<le> length (msg_data ?msg)"
    by (simp_all add: empty_msg_def sizeof_record_cfg_def)
  obtain msg where msg: "DANA_MSG_CTRL (msg_dispatch (msg_desc lib other)) 15 SDK_PARAM_GET 0 0 ?msg st = Some (msg, st)"
    "msg_data msg = ?cfg @ drop sizeof_record_cfg (msg_data ?msg)"
    using ctrl_get [OF buf(2), of lib other st] unfolding buf(1) by (auto simp: stored_cfg_def)
  have len: "length ?cfg = sizeof_record_cfg"
    using plget_length [OF assms(1)] by (simp add: stored_cfg_def adapt_param_get_record_cfg_def sdk_param_get_ch_def)
  have plan: "has_plan (days_of arg) ?a ?b (msg_data msg)"
    by (rule has_plan_same [OF st(2)])
      (auto simp: msg(2) byte_at_def nth_append len in_week_def plan_offs sizeof_record_cfg_def)
  define days where "days = filter (\<lambda>wd. wd \<in> days_of arg) [1..<8]"
  have filt: "filter (\<lambda>wd. byte_at (plan_flag_off wd) (msg_data msg) = 1) [1..<8] = days"
    using plan_days_has [OF plan] by (simp add: plan_days_def days_def)
  obtain d where "d \<in> days_of arg" using assms(3) by blast
  then have "d \<in> set days" using assms(2) by (auto simp: days_def arg_ok_def in_week_def)
  then have ne: "days \<noteq> []" by auto
  then have "last days \<in> set days" by simp
  then have lst: "last days \<in> days_of arg" "in_week (last days)" by (auto simp: days_def in_week_def)
  have short: "length days \<le> 7" using length_filter_le [of "\<lambda>wd. wd \<in> days_of arg" "[1..<8]"] by (simp add: days_def)
  have times: "hms_string (day_time 2 (last days) (msg_data msg)) = rp_start_time arg"
    "hms_string (day_time 5 (last days) (msg_data msg)) = rp_end_time arg"
    using plan lst hms_time_string [OF assms(5-7)] hms_time_string [OF assms(9-11)] assms(4,8) by (simp_all add: has_plan_def)
  have "get_plan_days (msg_data msg) [1..<8] 0 default_plan = (length days, default_plan\<lparr>pl_start_time := rp_start_time arg,
      pl_end_time := rp_end_time arg, pl_week := put_at 0 days (pl_week default_plan)\<rparr>)"
    using get_plan_days_eq [of 0 "msg_data msg" "[1..<8]" default_plan] short ne times
    unfolding filt Let_def by (simp add: default_plan_def)
  moreover have "ps_main ?s1 = st" by simp
  ultimately have "cmd_recplanget (msg_dispatch (msg_desc lib other)) ?s1 =
      Some (default_plan\<lparr>pl_start_time := rp_start_time arg, pl_end_time := rp_end_time arg,
        pl_week := put_at 0 days (pl_week default_plan), pl_week_count := length days\<rparr>, ?s1\<lparr>ps_main := st\<rparr>)"
    unfolding cmd_recplanget_def by (simp only: msg(1) option.case prod.case Let_def)
  moreover have "take (length days) (put_at 0 days (pl_week default_plan)) = days" by (simp add: put_at_def)
  ultimately show ?thesis using st(1) by (auto simp: days_def)
qed

definition sample_plan_arg :: recplanset_arg where
  "sample_plan_arg = \<lparr>rp_week_count = 2, rp_week = [5, 1, 0, 0, 0, 0, 0], rp_start_time = time_string 22 30 0,
     rp_end_time = time_string 6 15 0, rp_status = 1\<rparr>"

definition sample_plan_sys :: "bool \<Rightarrow> (cuint \<Rightarrow> byte list) plan_sys" where
  "sample_plan_sys has =
     \<lparr>ps_main = \<lparr>params = \<lambda>_. [], def_params = \<lambda>_. [], log_info = replicate 104 0, main_log = [], shell_cmds = []\<rparr>,
      ps_sd = sd_init has sample_card,
      rstatus = \<lparr>record_flags = 0, record_last_status = 0, record_alarm_triger = 0, record_alarm_opened = 0, record_alarm_time = 10\<rparr>,
      SHCEDULE_PLAN_RECODER = 0, GET_DANA_SET_RECPLAN_CLICK = 0, GET_DANA_SET_TIME_CLICK = 0,
      tBeginTime = clock_at 0 0, tEndTime = clock_at 0 0, plan_FLAG = OFF_RECODER\<rparr>"

lemma sample_days: "days_of sample_plan_arg = {5, 1}" "arg_ok sample_plan_arg" "days_of sample_plan_arg \<noteq> {}"
  by (auto simp: days_of_def sample_plan_arg_def arg_ok_def in_week_def)

lemma plan_round_trip_witness:
  "\<exists>s1 p s2. cmd_recplanset (msg_dispatch (msg_desc table_lib (\<lambda>_ _ _. None))) ((0, 0, 0), (0, 0, 0)) sample_plan_arg (sample_plan_sys True) = Some s1 \<and>
    cmd_recplanget (msg_dispatch (msg_desc table_lib (\<lambda>_ _ _. None))) s1 = Some (p, s2) \<and>
    take (pl_week_count p) (pl_week p) = [1, 5] \<and>
    pl_start_time p = rp_start_time sample_plan_arg \<and> pl_end_time p = rp_end_time sample_plan_arg"
proof -
  have "filter (\<lambda>wd. wd \<in> days_of sample_plan_arg) [1..<8] = [1, 5]" by (simp add: sample_days(1) upt_rec)
  then show ?thesis
    using plan_round_trip [OF table_laws sample_days(2,3), of 22 30 0 6 15 0 "\<lambda>_ _ _. None" "((0, 0, 0), (0, 0, 0))" "sample_plan_sys True"]
    by (simp add: sample_plan_arg_def)
qed

lemma span_cong:
  "ck_hour b = ck_hour b' \<Longrightarrow> ck_minute b = ck_minute b' \<Longrightarrow> ck_hour e = ck_hour e' \<Longrightarrow> ck_minute e = ck_minute e' \<Longrightarrow>
   IsInTimeSpan now b e = IsInTimeSpan now b' e'"
  by (simp add: IsInTimeSpan_def)

text \<open>C9: A plan for recording all the time takes effect with the next rounds of the two threads when the status thread counts
  the recording as off (its last status is \<open>RECORD_NO\<close>) and no normal recording is running: on one of the days of the plan,
  within its span of time and with a card, the schedule thread turns the plan on, and the status thread starts the normal
  recording, in files of 300 seconds. From another last status it may start none, as the state of a card plugged in late
  shows below.\<close>

theorem plan_starts_recording:
  assumes lib: "param_laws lib" and arg: "arg_ok arg" "rp_status arg = 1" "unat (ck_week now) \<in> days_of arg"
    and t: "rp_start_time arg = time_string h mi sec" "h < 24" "mi < 60" "sec < 60"
      "rp_end_time arg = time_string h' mi' sec'" "h' < 24" "mi' < 60" "sec' < 60"
    and now: "2017 \<le> ck_year now" "IsInTimeSpan now (clock_at (of_nat h) (of_nat mi)) (clock_at (of_nat h') (of_nat mi')) = 0"
    and s: "record_last_status (rstatus s) = RECORD_NO" "SHCEDULE_PLAN_RECODER s \<in> {0, 1}" "has_sd_card (ps_sd s)"
      "g_normal_status (work (ctl (ps_sd s))) \<noteq> 1"
  shows "\<exists>s1. cmd_recplanset (msg_dispatch (msg_desc lib other)) junk arg s = Some s1 \<and>
    (case dana_recordstatus_round True (shcedule_round lib now s1) of s' \<Rightarrow>
      SHCEDULE_PLAN_RECODER s' = 1 \<and> record_last_status (rstatus s') = RECORD_FULLTIME \<and>
      threads (ctl (ps_sd s')) = threads (ctl (ps_sd s)) @ [NormalThread] \<and>
      record_switch_time (manage (ctl (ps_sd s'))) = 300)"
proof -
  have lt: "h < 100" "mi < 100" "sec < 100" "h' < 100" "mi' < 100" "sec' < 100" using t by simp_all
  let ?a = "(int h, int mi, int sec)" and ?b = "(int h', int mi', int sec')"
  have ty: "plan_record_type (rp_status arg) = RECORD_FULLTIME"
    by (simp add: plan_record_type_def arg(2) RECORD_NO_def RECORD_FULLTIME_def)
  obtain st where st: "cmd_recplanset (msg_dispatch (msg_desc lib other)) junk arg s =
      Some (s\<lparr>ps_main := st, GET_DANA_SET_RECPLAN_CLICK := 1, rstatus := (rstatus s)\<lparr>record_flags := RECORD_FULLTIME\<rparr>\<rparr>)"
    "has_plan (days_of arg) ?a ?b (stored_cfg lib (s\<lparr>ps_main := st\<rparr>))"
    "byte_at 1 (stored_cfg lib (s\<lparr>ps_main := st\<rparr>)) = 1"
    using recplanset_stores [OF lib arg(1), of other junk s] unfolding t(1,5) ty
    by (simp only: sscanf_time_string [OF lt(1-3)] sscanf_time_string [OF lt(4-6)] RECORD_FULLTIME_def) auto
  define s1 where "s1 = s\<lparr>ps_main := st, GET_DANA_SET_RECPLAN_CLICK := 1, rstatus := (rstatus s)\<lparr>record_flags := RECORD_FULLTIME\<rparr>\<rparr>"
  let ?r = "s1\<lparr>GET_DANA_SET_RECPLAN_CLICK := 0, GET_DANA_SET_TIME_CLICK := 0\<rparr>"
  have cfg: "stored_cfg lib ?r = stored_cfg lib (s\<lparr>ps_main := st\<rparr>)" by (simp add: stored_cfg_def s1_def)
  have wk: "in_week (unat (ck_week now))" using arg(1,3) by (simp add: arg_ok_def)
  define s2 where "s2 = get_param_recoder_cfg lib (ck_week now) ?r"
  have plan: "has_plan (days_of arg) ?a ?b (stored_cfg lib ?r)" "byte_at 1 (stored_cfg lib ?r) \<noteq> 0"
    using st(2,3) by (simp_all add: cfg)
  have s2: "ps_sd s2 = ps_sd s" "rstatus s2 = rstatus s1"
    "SHCEDULE_PLAN_RECODER s2 = SHCEDULE_PLAN_RECODER s" "plan_FLAG s2 = CURRENTTIME_IN_WEEKPLAN"
    "ck_hour (tBeginTime s2) = of_nat h" "ck_minute (tBeginTime s2) = of_nat mi"
    "ck_hour (tEndTime s2) = of_nat h'" "ck_minute (tEndTime s2) = of_nat mi'"
    using plan_read [OF plan arg(3) wk, of "ck_week now"] arg(3) wk
    by (simp_all add: s2_def [symmetric] time_bytes_def) (simp_all add: s1_def)
  have span: "IsInTimeSpan now (tBeginTime s2) (tEndTime s2) = 0"
    using now(2) span_cong [of "tBeginTime s2" "clock_at (of_nat h) (of_nat mi)" "tEndTime s2" "clock_at (of_nat h') (of_nat mi')" now] s2
    by (simp add: clock_at_def)
  have y: "\<not> ck_year now < 2017" using now(1) by (simp add: not_less)
  have s3: "shcedule_round lib now s1 = s2\<lparr>SHCEDULE_PLAN_RECODER := 1\<rparr>"
    using s(2) s2(3,4) span y by (auto simp: shcedule_round_def Let_def s2_def [symmetric]) (simp_all add: s1_def)
  have r: "record_flags (rstatus s2) = RECORD_FULLTIME" "record_last_status (rstatus s2) = RECORD_NO"
    using s(1) by (simp_all add: s2(2) s1_def)
  have "case dana_recordstatus_round True (s2\<lparr>SHCEDULE_PLAN_RECODER := 1\<rparr>) of s' \<Rightarrow>
      SHCEDULE_PLAN_RECODER s' = 1 \<and> record_last_status (rstatus s') = RECORD_FULLTIME \<and>
      threads (ctl (ps_sd s')) = threads (ctl (ps_sd s)) @ [NormalThread] \<and>
      record_switch_time (manage (ctl (ps_sd s'))) = 300"
    using r s(3,4) s2(1)
    by (simp add: dana_recordstatus_round_def to_fulltime_def set_status_def plan_start_def RECORD_NO_def RECORD_FULLTIME_def
        st_record_start_def get_sd_stats_def start_normal_record_stream_def SDK_RECORD_TYPE_MANU_def Let_def)
  then show ?thesis using st(1) [folded s1_def] s3 by simp
qed

lemma plan_starts_recording_witness:
  "\<exists>s1. cmd_recplanset (msg_dispatch (msg_desc table_lib (\<lambda>_ _ _. None))) ((0, 0, 0), (0, 0, 0)) sample_plan_arg (sample_plan_sys True) = Some s1 \<and>
    (case dana_recordstatus_round True (shcedule_round table_lib (clock_at 1 0) s1) of s' \<Rightarrow>
      SHCEDULE_PLAN_RECODER s' = 1 \<and> record_last_status (rstatus s') = RECORD_FULLTIME \<and>
      threads (ctl (ps_sd s')) = threads (ctl (ps_sd (sample_plan_sys True))) @ [NormalThread] \<and>
      record_switch_time (manage (ctl (ps_sd s'))) = 300)"
  by (rule plan_starts_recording [OF table_laws sample_days(2), of _ 22 30 0 6 15 0])
    (simp_all add: sample_days(1), simp_all add: sample_plan_arg_def sample_plan_sys_def sd_init_def clock_at_def IsInTimeSpan_def RECORD_NO_def)

text \<open>C34: A plan with a window of time works for one window: with the first round of the schedule thread behind its end
  the kind of recording is overwritten, and whatever rounds the two threads take from then on, on any day and at any
  time, with or without a card, no recording is started until the client sets a new plan.\<close>

theorem window_end_stops_for_good:
  assumes "plan_FLAG s = CURRENTTIME_IN_WEEKPLAN" "no_click s" "2017 \<le> ck_year now"
    and "IsInTimeSpan now (tBeginTime s) (tEndTime s) \<noteq> 0" "\<forall>e \<in> set es. only_threads e"
  shows "case fold (plan_step lib) es (shcedule_round lib now s) of s' \<Rightarrow>
    record_flags (rstatus s') = RECORD_NO \<and> threads (ctl (ps_sd s')) = threads (ctl (ps_sd s))"
proof -
  have "off_since (threads (ctl (ps_sd s))) (shcedule_round lib now s)"
    using assms(1-4) by (auto simp: off_since_def shcedule_round_def no_click_def Let_def simp flip: not_less)
  then have "off_since (threads (ctl (ps_sd s))) (fold (plan_step lib) es (shcedule_round lib now s))"
    by (rule fold_invariant [where Q = only_threads, rotated]) (use assms(5) off_step in auto)
  then show ?thesis by (simp add: off_since_def)
qed

definition sample_kept :: "bool \<Rightarrow> (cuint \<Rightarrow> byte list) plan_sys" where
  "sample_kept has = (sample_plan_sys has)\<lparr>plan_FLAG := CURRENTTIME_IN_WEEKPLAN, SHCEDULE_PLAN_RECODER := 1,
     tBeginTime := clock_at 8 0, tEndTime := clock_at 18 0, rstatus := (rstatus (sample_plan_sys has))\<lparr>record_flags := RECORD_FULLTIME\<rparr>\<rparr>"

lemma window_end_stops_for_good_witness:
  "case fold (plan_step table_lib) [Status True, Sched (clock_at 9 0), Status True] (shcedule_round table_lib (clock_at 18 1) (sample_kept True)) of s' \<Rightarrow>
    record_flags (rstatus s') = RECORD_NO \<and> threads (ctl (ps_sd s')) = threads (ctl (ps_sd (sample_kept True)))"
  by (rule window_end_stops_for_good)
    (simp_all add: sample_kept_def sample_plan_sys_def clock_at_def IsInTimeSpan_def no_click_def only_threads_def)

text \<open>C35: A recording asked for while there is no card never starts: the status thread counts it as started, and the
  detection thread resumes only what was running when the card went, so that no round of the three threads starts it
  later, whenever the card is put in, as long as the plan is kept.\<close>

theorem late_card_never_records:
  assumes "plan_FLAG s = CURRENTTIME_IN_WEEKPLAN" "no_click s" "SHCEDULE_PLAN_RECODER s = 1"
    and "record_flags (rstatus s) = RECORD_FULLTIME" "record_last_status (rstatus s) = RECORD_NO"
    and "\<not> has_sd_card (ps_sd s)" "idle (threads (ctl (ps_sd s))) (ps_sd s)"
    and "\<forall>e \<in> set es. in_span (tBeginTime s) (tEndTime s) e"
  shows "threads (ctl (ps_sd (fold (plan_step lib) es (dana_recordstatus_round ok s)))) = threads (ctl (ps_sd s))"
proof -
  let ?inv = "\<lambda>s'. kept (tBeginTime s) (tEndTime s) s' \<and> idle (threads (ctl (ps_sd s))) (ps_sd s')"
  have "?inv (dana_recordstatus_round ok s)"
    using assms(1-7)
    by (simp add: kept_def no_click_def) (simp add: dana_recordstatus_round_def to_fulltime_def plan_start_def set_status_def
        st_record_start_def get_sd_stats_def RECORD_NO_def RECORD_FULLTIME_def Let_def idle_def)
  then have "?inv (fold (plan_step lib) es (dana_recordstatus_round ok s))"
    by (rule fold_invariant [where Q = "in_span (tBeginTime s) (tEndTime s)", rotated])
      (erule (1) idle_kept_step, use assms(8) in simp)
  then show ?thesis by (simp add: idle_def)
qed

lemma late_card_never_records_witness:
  "threads (ctl (ps_sd (fold (plan_step table_lib) [Plug True, Detect good_answers, Status True, Sched (clock_at 9 0)]
     (dana_recordstatus_round True (sample_kept False))))) = threads (ctl (ps_sd (sample_kept False)))"
  by (rule late_card_never_records)
    (simp_all add: sample_kept_def sample_plan_sys_def clock_at_def IsInTimeSpan_def no_click_def in_span_def idle_def sd_init_def
      RECORD_NO_def)

text \<open>The days of a plan are looked at only while it is off: a plan that has begun on one of its days goes on
  recording on every later day, while the time is in its span.\<close>

theorem plan_day_not_rechecked:
  assumes "kept (tBeginTime s) (tEndTime s) s" "\<forall>e \<in> set es. in_span (tBeginTime s) (tEndTime s) e \<and> only_threads e"
  shows "case fold (plan_step lib) es s of s' \<Rightarrow> SHCEDULE_PLAN_RECODER s' = 1 \<and>
    record_last_status (rstatus s') = RECORD_FULLTIME \<and> ctl (ps_sd s') = ctl (ps_sd s)"
proof -
  let ?inv = "\<lambda>s'. kept (tBeginTime s) (tEndTime s) s' \<and> ctl (ps_sd s') = ctl (ps_sd s)"
  have step: "?inv (plan_step lib e s')" if "in_span (tBeginTime s) (tEndTime s) e \<and> only_threads e" "?inv s'" for e s'
    using that by (cases e) (auto simp: shcedule_kept status_kept only_threads_def)
  have "?inv (fold (plan_step lib) es s)"
    by (rule fold_invariant [where Q = "\<lambda>e. in_span (tBeginTime s) (tEndTime s) e \<and> only_threads e"])
      (use assms step in auto)
  then show ?thesis by (simp add: kept_def)
qed

lemma plan_day_not_rechecked_witness:
  "case fold (plan_step table_lib) [Sched (clock_at 9 0\<lparr>ck_week := 3\<rparr>), Status True]
     (set_status (record_last_status_update (\<lambda>_. RECORD_FULLTIME)) (sample_kept True)) of s' \<Rightarrow>
    SHCEDULE_PLAN_RECODER s' = 1 \<and> record_last_status (rstatus s') = RECORD_FULLTIME \<and>
    ctl (ps_sd s') = ctl (ps_sd (set_status (record_last_status_update (\<lambda>_. RECORD_FULLTIME)) (sample_kept True)))"
  by (rule plan_day_not_rechecked)
    (simp_all add: kept_def sample_kept_def sample_plan_sys_def set_status_def clock_at_def IsInTimeSpan_def no_click_def in_span_def
      only_threads_def)

end
