(* ===== verification/MotionDet.thy ===== *)
theory MotionDet
  imports Prelude
begin

text \<open>
  The motion detection of the encoder (\<^verbatim>\<open>grain_codec/src/video/motion\<close>): \<^verbatim>\<open>parsing_mv_data.c\<close> unpacks the data that the
  capture hardware gives of a frame and condenses it into blocks, \<^verbatim>\<open>motion_detection.c\<close> keeps the regions and decides
  over them, and \<^verbatim>\<open>motion.c\<close> sets the regions, runs the thread and keeps the history of seconds that the cloud client
  polls (\<^verbatim>\<open>danale/src/testdanavideo.c\<close>). \<open>None\<close> is undefined behaviour: an access outside a block of memory or to one
  that has been freed, a division by zero, a signed overflow.
\<close>

section \<open>State\<close>

definition MAX_CAP_MD_NUM :: nat where "MAX_CAP_MD_NUM = 32"
definition MAX_SUBREGION_NUM :: nat where "MAX_SUBREGION_NUM = 32"
definition MAX_MOTION_NUM :: nat where "MAX_MOTION_NUM = 4"
definition CAP_MOTION_SIZE :: nat where "CAP_MOTION_SIZE = 4096"

definition MOTION_IS_TRAINING :: int where "MOTION_IS_TRAINING = 0"
definition MOTION_DETECTED :: int where "MOTION_DETECTED = 1"
definition NO_MOTION :: int where "NO_MOTION = 2"
definition MOTION_IS_READY :: int where "MOTION_IS_READY = 3"
definition MOTION_INIT_ERROR :: int where "MOTION_INIT_ERROR = -1"
definition MOTION_ALGO_ERROR :: int where "MOTION_ALGO_ERROR = -2"
definition MOTION_DATA_ERROR :: int where "MOTION_DATA_ERROR = -3"
definition MOTION_PARSING_ERROR :: int where "MOTION_PARSING_ERROR = -1"

text \<open>A pointer to a block of memory: NULL, to a block that has been freed, or to a block with its contents.\<close>

datatype 'a mem = Null | Freed | Mem 'a

record mdt_reg =
  is_enabled :: int
  start_block_x :: int
  start_block_y :: int
  end_block_x :: int
  end_block_y :: int
  alarm_th :: int
  reg_alarm :: int

record mdt_alg =
  sub_region :: "mdt_reg list mem"
  sub_region_num :: cuint
  u_height :: cuint
  u_width :: cuint
  u_mb_height :: cuint
  u_mb_width :: cuint
  sensitive_th :: cuint
  md_frame_count :: cuint
  training_time :: cuint
  mb_w_num :: cuint
  mb_h_num :: cuint

text \<open>What the arrays of the two files hold at one index: the parameters (\<^verbatim>\<open>mdt_param\<close>), the result (\<^verbatim>\<open>active\<close>), and the
  statics; \<^verbatim>\<open>mv_param.active_flag\<close> is the same block as \<^verbatim>\<open>active.active_flag\<close>.\<close>

record md_chan =
  md_alg :: mdt_alg
  k_height :: cuint
  k_width :: cuint
  k_mb_height :: cuint
  k_mb_width :: cuint
  md_bindfd :: nat
  active_flag :: "byte list mem"
  active_num :: cuint
  cap_motion_init_ok :: bool
  user_motion_size :: int
  is_parsing_init_ok :: bool
  transform_matrix :: "int list mem"
  kernel_mv_data :: "byte list mem"
  g_blk_w_num :: int
  g_blk_h_num :: int
  g_user_width :: int
  g_user_height :: int
  g_mb_w_num :: int
  g_mb_h_num :: int
  parsing_user_motion_size :: int

section \<open>Loops and arrays\<close>

fun each :: "('a \<Rightarrow> 's \<Rightarrow> 's option) \<Rightarrow> 'a list \<Rightarrow> 's \<Rightarrow> 's option" where
  "each f [] s = Some s"
| "each f (x # xs) s = (case f x s of None \<Rightarrow> None | Some s \<Rightarrow> each f xs s)"

definition get_at :: "'a list \<Rightarrow> int \<Rightarrow> 'a option" where
  "get_at xs i = (if 0 \<le> i \<and> nat i < length xs then Some (xs ! nat i) else None)"

definition set_at :: "int \<Rightarrow> 'a list \<Rightarrow> 'a list \<Rightarrow> 'a list option" where
  "set_at i ys xs = (if 0 \<le> i \<and> nat i + length ys \<le> length xs then Some (put_at (nat i) ys xs) else None)"

section \<open>Unpacking the data of a frame\<close>

text \<open>Four macroblocks to a byte; a row of the data has 32 bytes.\<close>

definition unpack_byte :: "byte \<Rightarrow> byte list" where
  "unpack_byte ev =
     (if ev = 85 then [1, 1, 1, 1]
      else [drop_bit 0 ev AND 3, drop_bit 2 ev AND 3, drop_bit 4 ev AND 3, drop_bit 6 ev AND 3])"

definition unpack_at :: "byte list \<Rightarrow> int \<Rightarrow> int \<Rightarrow> int \<Rightarrow> byte list \<Rightarrow> byte list option" where
  "unpack_at event_buf w a b k =
     (case get_at event_buf (32 * a + b) of None \<Rightarrow> None | Some ev \<Rightarrow> set_at (a * w + b * 4) (unpack_byte ev) k)"

definition unpack_rows :: "byte list \<Rightarrow> int \<Rightarrow> int \<Rightarrow> byte list \<Rightarrow> byte list option" where
  "unpack_rows event_buf w h k =
     (let byte_per_width = cdiv (w - 1) 4 + 1 in
      each (\<lambda>a. each (unpack_at event_buf w a) [0..byte_per_width - 1]) [0..h - 1] k)"

text \<open>A macroblock of value 0 among four that are not is taken for noise.\<close>

definition denoise_at :: "int \<Rightarrow> int \<Rightarrow> int \<Rightarrow> byte list \<Rightarrow> byte list option" where
  "denoise_at w a b k =
     (let p = a * w + b in
      case get_at k p of
        None \<Rightarrow> None
      | Some v \<Rightarrow>
          if v \<noteq> 0 then Some k
          else (case (get_at k (p + w), get_at k (p - w), get_at k (p + 1), get_at k (p - 1)) of
                  (Some d, Some u, Some r, Some l) \<Rightarrow>
                    if d \<noteq> 0 \<and> u \<noteq> 0 \<and> r \<noteq> 0 \<and> l \<noteq> 0 then set_at p [1] k else Some k
                | _ \<Rightarrow> None))"

definition denoise :: "int \<Rightarrow> int \<Rightarrow> byte list \<Rightarrow> byte list option" where
  "denoise w h k = each (\<lambda>a. each (denoise_at w a) [1..w - 2]) [1..h - 2] k"

definition parsing_mv :: "byte list \<Rightarrow> md_chan \<Rightarrow> (int \<times> md_chan) option" where
  "parsing_mv event_buf c =
     (if \<not> is_parsing_init_ok c then Some (-1, c)
      else if k_mb_width c = 0 \<or> k_mb_height c = 0 then None
      else let w = sint (k_width c div k_mb_width c); h = sint (k_height c div k_mb_height c) in
        case kernel_mv_data c of
          Null \<Rightarrow> Some (-1, c)
        | Freed \<Rightarrow> None
        | Mem k \<Rightarrow>
            (case set_at 0 (replicate CAP_MOTION_SIZE 0) k of
               None \<Rightarrow> None
             | Some k \<Rightarrow>
                 (case unpack_rows event_buf w h k of
                    None \<Rightarrow> None
                  | Some k \<Rightarrow> map_option (\<lambda>k. (0, c\<lparr>kernel_mv_data := Mem k\<rparr>)) (denoise w h k))))"

section \<open>Blocks\<close>

text \<open>The macroblocks that a block covers along one axis; the arithmetic is unsigned but for the product \<open>g * kmb\<close>.\<close>

definition block_span :: "cuint \<Rightarrow> int \<Rightarrow> int \<Rightarrow> int \<Rightarrow> int \<Rightarrow> (int \<times> int) option" where
  "block_span mb k g kmb i =
     (if \<not> in_int32 (g * kmb) \<or> (word_of_int (g * kmb) :: cuint) = 0 then None
      else let d = word_of_int (g * kmb) :: cuint in
        Some (sint ((word_of_int i * mb) * word_of_int k div d),
              sint ((word_of_int (i + 1) * mb - 1) * word_of_int k div d)))"

definition matrix_at :: "md_chan \<Rightarrow> int \<Rightarrow> int \<Rightarrow> int list \<Rightarrow> int list option" where
  "matrix_at c h w m =
     (case (block_span (u_mb_width (md_alg c)) (sint (k_width c)) (g_user_width c) (sint (k_mb_width c)) w,
            block_span (u_mb_height (md_alg c)) (sint (k_height c)) (g_user_height c) (sint (k_mb_height c)) h) of
        (Some (sx, ex), Some (sy, ey)) \<Rightarrow> set_at ((h * g_blk_w_num c + w) * 4) [sx, ex, sy, ey] m
      | _ \<Rightarrow> None)"

definition build_matrix :: "md_chan \<Rightarrow> int list \<Rightarrow> int list option" where
  "build_matrix c m = each (\<lambda>h. each (matrix_at c h) [0..g_blk_w_num c - 1]) [0..g_blk_h_num c - 1] m"

definition count_at :: "byte list \<Rightarrow> int \<Rightarrow> int \<Rightarrow> int \<Rightarrow> int \<times> int \<Rightarrow> (int \<times> int) option" where
  "count_at k mbw a b cnt =
     map_option (\<lambda>v. (if v = 0 then fst cnt + 1 else fst cnt, snd cnt + 1)) (get_at k (a * mbw + b))"

definition count_block :: "byte list \<Rightarrow> int \<Rightarrow> int \<Rightarrow> int \<Rightarrow> int \<Rightarrow> int \<Rightarrow> (int \<times> int) option" where
  "count_block k mbw sx ex sy ey = each (\<lambda>a. each (count_at k mbw a) [sx..ex]) [sy..ey] (0, 0)"

text \<open>The flag of a block is 0 for a block with motion.\<close>

definition flag_at ::
  "cuint \<Rightarrow> int list \<Rightarrow> byte list \<Rightarrow> int \<Rightarrow> int \<Rightarrow> int \<Rightarrow> int \<Rightarrow> byte list \<times> cuint \<Rightarrow> (byte list \<times> cuint) option" where
  "flag_at sens m k blkw mbw h w s =
     (let p = h * blkw + w in
      case (get_at m (4 * p), get_at m (4 * p + 1), get_at m (4 * p + 2), get_at m (4 * p + 3)) of
        (Some sx, Some ex, Some sy, Some ey) \<Rightarrow>
          (case count_block k mbw sx ex sy ey of
             None \<Rightarrow> None
           | Some (cnt, num) \<Rightarrow>
               if (word_of_int (cnt * 100) :: cuint) > (100 - sens) * word_of_int num
               then map_option (\<lambda>fl. (fl, snd s + 1)) (set_at p [0] (fst s))
               else map_option (\<lambda>fl. (fl, snd s)) (set_at p [1] (fst s)))
      | _ \<Rightarrow> None)"

definition transform :: "md_chan \<Rightarrow> (int \<times> md_chan) option" where
  "transform c =
     (if \<not> is_parsing_init_ok c then Some (-1, c)
      else case transform_matrix c of
        Null \<Rightarrow> Some (-1, c)
      | Freed \<Rightarrow> None
      | Mem m \<Rightarrow>
          let al = md_alg c;
              c = (if md_frame_count al = 0
                   then c\<lparr>g_blk_w_num := sint (mb_w_num al), g_blk_h_num := sint (mb_h_num al),
                          g_user_width := sint (mb_w_num al * u_mb_width al), g_user_height := sint (mb_h_num al * u_mb_height al)\<rparr>
                   else c) in
          if md_frame_count al = 0 \<and> (k_mb_width c = 0 \<or> k_mb_height c = 0) then None
          else let c = (if md_frame_count al = 0
                        then c\<lparr>g_mb_w_num := cdiv (sint (k_width c)) (sint (k_mb_width c)),
                               g_mb_h_num := cdiv (sint (k_height c)) (sint (k_mb_height c))\<rparr> else c) in
          (case (if md_frame_count al = 0 then build_matrix c m else Some m) of
             None \<Rightarrow> None
           | Some m \<Rightarrow>
               (case (kernel_mv_data c, active_flag c) of
                  (Mem k, Mem fl) \<Rightarrow>
                    map_option (\<lambda>(fl, n). (0, c\<lparr>transform_matrix := Mem m, active_flag := Mem fl, active_num := n\<rparr>))
                      (each (\<lambda>h. each (flag_at (sensitive_th al) m k (g_blk_w_num c) (g_mb_w_num c) h) [0..g_blk_w_num c - 1])
                        [0..g_blk_h_num c - 1] (fl, active_num c))
                | _ \<Rightarrow> if g_blk_h_num c \<le> 0 \<or> g_blk_w_num c \<le> 0 then Some (0, c\<lparr>transform_matrix := Mem m\<rparr>) else None)))"

definition parsing_mv_data :: "byte list \<Rightarrow> md_chan \<Rightarrow> (int \<times> md_chan) option" where
  "parsing_mv_data event_buf c =
     (case parsing_mv event_buf c of
        None \<Rightarrow> None
      | Some (ret, c) \<Rightarrow> if ret < 0 then Some (-1, c) else map_option (\<lambda>(ret, c). (if ret < 0 then -1 else 0, c)) (transform c))"

section \<open>The memory of a channel\<close>

text \<open>\<^verbatim>\<open>malloc\<close> of a block that is filled at once; \<open>ok\<close> tells for which sizes it succeeds.\<close>

definition malloc :: "(nat \<Rightarrow> bool) \<Rightarrow> nat \<Rightarrow> 'a \<Rightarrow> 'a mem" where
  "malloc ok n x = (if ok n then Mem x else Null)"

definition csize :: "int \<Rightarrow> nat" where
  "csize n = unat (word_of_int n :: cuint)"

text \<open>\<^verbatim>\<open>free\<close>: not of a block that has been freed.\<close>

definition free_mem :: "'a mem \<Rightarrow> 'a mem option" where
  "free_mem p = (case p of Null \<Rightarrow> Some Null | Freed \<Rightarrow> None | Mem _ \<Rightarrow> Some Freed)"

text \<open>The static arrays at this index are cleared; \<open>memset\<close> of the blocks only where both are there.\<close>

definition parsing_clear :: "int \<Rightarrow> md_chan \<Rightarrow> (int \<times> md_chan) option" where
  "parsing_clear sz c =
     (case (transform_matrix c, kernel_mv_data c) of
        (Mem m, Mem k) \<Rightarrow>
          (case (set_at 0 (replicate (4 * nat sz) 0) m, set_at 0 (replicate CAP_MOTION_SIZE 0) k) of
             (Some m, Some k) \<Rightarrow>
               Some (0, c\<lparr>transform_matrix := Mem m, kernel_mv_data := Mem k, g_blk_w_num := 0, g_blk_h_num := 0,
                          g_user_width := 0, g_user_height := 0, g_mb_w_num := 0, g_mb_h_num := 0, is_parsing_init_ok := True\<rparr>)
           | _ \<Rightarrow> None)
      | _ \<Rightarrow> None)"

definition parsing_mv_initial :: "(nat \<Rightarrow> bool) \<Rightarrow> cuint \<Rightarrow> cuint \<Rightarrow> md_chan \<Rightarrow> (int \<times> md_chan) option" where
  "parsing_mv_initial ok mbw mbh c =
     (let sz = sint mbw * sint mbh in
      if \<not> in_int32 sz \<or> sz < 0 then None
      else if parsing_user_motion_size c < sz then
        (case (if parsing_user_motion_size c \<noteq> 0
               then (case (free_mem (transform_matrix c), free_mem (kernel_mv_data c)) of
                       (Some m, Some k) \<Rightarrow> Some (c\<lparr>transform_matrix := m, kernel_mv_data := k\<rparr>)
                     | _ \<Rightarrow> None)
               else Some c) of
           None \<Rightarrow> None
         | Some c \<Rightarrow>
             let c = c\<lparr>transform_matrix := malloc ok (16 * nat sz) (replicate (4 * nat sz) 0)\<rparr> in
             if transform_matrix c = Null then Some (-1, c)
             else let c = c\<lparr>kernel_mv_data := malloc ok CAP_MOTION_SIZE (replicate CAP_MOTION_SIZE 0)\<rparr> in
               if kernel_mv_data c = Null then Some (-1, c)
               else parsing_clear sz (c\<lparr>parsing_user_motion_size := sz\<rparr>))
      else parsing_clear sz c)"

definition parsing_mv_end :: "md_chan \<Rightarrow> (int \<times> md_chan) option" where
  "parsing_mv_end c =
     (case (free_mem (transform_matrix c), free_mem (kernel_mv_data c)) of
        (Some _, Some _) \<Rightarrow>
          Some (0, c\<lparr>is_parsing_init_ok := False, transform_matrix := Null, kernel_mv_data := Null, parsing_user_motion_size := 0\<rparr>)
      | _ \<Rightarrow> None)"

definition closed_region :: mdt_reg where
  "closed_region = \<lparr>is_enabled = 0, start_block_x = -1, start_block_y = -1, end_block_x = -1, end_block_y = -1, alarm_th = 100,
     reg_alarm = -5\<rparr>"

definition clear_kernel :: "md_chan \<Rightarrow> md_chan" where
  "clear_kernel c = c\<lparr>k_height := 0, k_width := 0, k_mb_height := 0, k_mb_width := 0\<rparr>"

text \<open>Whatever fails, the return value is 0.\<close>

definition block_num :: "cuint \<Rightarrow> cuint \<Rightarrow> int" where
  "block_num len mb = cdiv (sint len + (sint mb - 1)) (sint mb)"

definition capture_motion_init :: "(nat \<Rightarrow> bool) \<Rightarrow> md_chan \<Rightarrow> (int \<times> md_chan) option" where
  "capture_motion_init ok c =
     (let al = md_alg c in
      if u_mb_height al = 0 \<or> u_mb_width al = 0 \<or> \<not> in_int32 (sint (u_height al) + (sint (u_mb_height al) - 1)) \<or>
         \<not> in_int32 (sint (u_width al) + (sint (u_mb_width al) - 1)) then None
      else let blk_h_num = block_num (u_height al) (u_mb_height al); blk_w_num = block_num (u_width al) (u_mb_width al);
               bh = word_of_int blk_h_num; bw = word_of_int blk_w_num; sz = blk_h_num * blk_w_num;
               c = clear_kernel (c\<lparr>md_alg := al\<lparr>mb_h_num := bh, mb_w_num := bw\<rparr>\<rparr>) in
        if \<not> in_int32 sz then None
        else let c = c\<lparr>active_flag := malloc ok (csize sz) (replicate (csize sz) 0)\<rparr> in
          if active_flag c = Null then Some (0, c)
          else let c = c\<lparr>active_num := 0,
                         md_alg := (md_alg c)\<lparr>sub_region := malloc ok (28 * MAX_SUBREGION_NUM) (replicate MAX_SUBREGION_NUM closed_region)\<rparr>\<rparr> in
            if sub_region (md_alg c) = Null then Some (0, c)
            else (case parsing_mv_initial ok bw bh c of
                    None \<Rightarrow> None
                  | Some (ret, c) \<Rightarrow>
                      if ret < 0 then map_option (\<lambda>(_, c). (0, c)) (parsing_mv_end c)
                      else Some (0, c\<lparr>cap_motion_init_ok := True, user_motion_size := sz\<rparr>)))"

definition capture_motion_update :: "(nat \<Rightarrow> bool) \<Rightarrow> md_chan \<Rightarrow> (int \<times> md_chan) option" where
  "capture_motion_update ok c =
     (if \<not> cap_motion_init_ok c then Some (MOTION_INIT_ERROR, c)
      else let sz = sint (mb_h_num (md_alg c)) * sint (mb_w_num (md_alg c)) in
        if \<not> in_int32 sz then None
        else (case (if user_motion_size c < sz
                    then map_option (\<lambda>_. c\<lparr>active_flag := malloc ok (csize sz) (replicate (csize sz) 0), user_motion_size :=
                           (if ok (csize sz) then sz else user_motion_size c)\<rparr>) (free_mem (active_flag c))
                    else Some c) of
                None \<Rightarrow> None
              | Some c \<Rightarrow>
                  (case active_flag c of
                     Null \<Rightarrow> if sz \<le> user_motion_size c then None else Some (MOTION_INIT_ERROR, c)
                   | Freed \<Rightarrow> None
                   | Mem fl \<Rightarrow>
                       (case set_at 0 (replicate (csize sz) 0) fl of
                          None \<Rightarrow> None
                        | Some fl \<Rightarrow>
                            (case parsing_mv_initial ok (mb_w_num (md_alg c)) (mb_h_num (md_alg c))
                                    (clear_kernel c\<lparr>active_flag := Mem fl, active_num := 0\<rparr>) of
                               None \<Rightarrow> None
                             | Some (ret, c) \<Rightarrow>
                                 if ret < 0 then map_option (\<lambda>(_, c). (MOTION_INIT_ERROR, c)) (parsing_mv_end c)
                                 else Some (ret, c))))))"

definition capture_motion_end :: "md_chan \<Rightarrow> (int \<times> md_chan) option" where
  "capture_motion_end c =
     (case (free_mem (sub_region (md_alg c)), free_mem (active_flag c)) of
        (Some _, Some _) \<Rightarrow>
          map_option (\<lambda>(_, c). (0, c))
            (parsing_mv_end (c\<lparr>cap_motion_init_ok := False, md_alg := (md_alg c)\<lparr>sub_region := Null\<rparr>, active_flag := Null,
                               user_motion_size := 0\<rparr>))
      | _ \<Rightarrow> None)"

section \<open>Channels and regions\<close>

text \<open>The index of a handle, which gets the first free one (that of handle 0) if it has none; -1: no index is free.\<close>

definition find_chan :: "nat \<Rightarrow> md_chan list \<Rightarrow> nat option" where
  "find_chan bindfd cs = find (\<lambda>i. md_bindfd (cs ! i) = bindfd) [0..<length cs]"

definition bindfd_to_mdt_idx :: "nat \<Rightarrow> md_chan list \<Rightarrow> int \<times> md_chan list" where
  "bindfd_to_mdt_idx bindfd cs =
     (case find_chan bindfd cs of
        Some i \<Rightarrow> (int i, cs)
      | None \<Rightarrow> (case find_chan 0 cs of
                   None \<Rightarrow> (-1, cs)
                 | Some i \<Rightarrow> (int i, cs[i := (cs ! i)\<lparr>md_bindfd := bindfd\<rparr>])))"

definition set_region :: "nat \<Rightarrow> (mdt_reg \<Rightarrow> mdt_reg) \<Rightarrow> md_chan \<Rightarrow> md_chan option" where
  "set_region r f c =
     (case sub_region (md_alg c) of
        Mem rs \<Rightarrow> if r < length rs then Some (c\<lparr>md_alg := (md_alg c)\<lparr>sub_region := Mem (rs[r := f (rs ! r)])\<rparr>\<rparr>) else None
      | _ \<Rightarrow> None)"

definition with_chan :: "nat \<Rightarrow> (nat \<Rightarrow> md_chan list \<Rightarrow> (int \<times> md_chan list) option) \<Rightarrow> md_chan list \<Rightarrow> (int \<times> md_chan list) option" where
  "with_chan bindfd f cs =
     (case bindfd_to_mdt_idx bindfd cs of (i, cs) \<Rightarrow> if i = -1 then Some (-1, cs) else f (nat i) cs)"

definition close_sub_region_internal :: "nat \<Rightarrow> nat \<Rightarrow> md_chan list \<Rightarrow> (int \<times> md_chan list) option" where
  "close_sub_region_internal bindfd reg_idx =
     with_chan bindfd (\<lambda>i cs.
       if MAX_SUBREGION_NUM \<le> reg_idx then Some (-1, cs)
       else map_option (\<lambda>c. (0, cs[i := c])) (set_region reg_idx (\<lambda>_. closed_region) (cs ! i)))"

definition set_sub_region_internal :: "nat \<Rightarrow> nat \<Rightarrow> mdt_reg \<Rightarrow> md_chan list \<Rightarrow> (int \<times> md_chan list) option" where
  "set_sub_region_internal bindfd reg_idx sr =
     with_chan bindfd (\<lambda>i cs.
       let blk_w_num = sint (mb_w_num (md_alg (cs ! i))); blk_h_num = sint (mb_h_num (md_alg (cs ! i))) in
       if MAX_SUBREGION_NUM \<le> reg_idx then Some (-1, cs)
       else if start_block_x sr < 0 \<or> start_block_y sr < 0 \<or> end_block_x sr < 0 \<or> end_block_y sr < 0 then Some (-1, cs)
       else if start_block_x sr > blk_w_num \<or> end_block_x sr > blk_w_num \<or> start_block_y sr > blk_h_num \<or> end_block_y sr > blk_h_num
       then Some (-1, cs)
       else map_option (\<lambda>c. (0, cs[i := c]))
              (set_region reg_idx (\<lambda>r. r\<lparr>start_block_x := start_block_x sr, start_block_y := start_block_y sr,
                 end_block_x := end_block_x sr, end_block_y := end_block_y sr, alarm_th := alarm_th sr, reg_alarm := -5\<rparr>) (cs ! i)))"

text \<open>Every region that is enabled is set from \<^verbatim>\<open>mdt_alg->sub_region\<close>, the first element of the array.\<close>

definition update_region :: "nat \<Rightarrow> mdt_reg list \<Rightarrow> nat \<Rightarrow> md_chan list \<Rightarrow> md_chan list option" where
  "update_region bindfd rs reg_idx cs =
     (case get_at rs (int reg_idx) of
        None \<Rightarrow> None
      | Some r \<Rightarrow> map_option snd (if is_enabled r = 0 then close_sub_region_internal bindfd reg_idx cs
                                  else set_sub_region_internal bindfd reg_idx (rs ! 0) cs))"

definition update_chan :: "(nat \<Rightarrow> bool) \<Rightarrow> nat \<Rightarrow> mdt_alg \<Rightarrow> nat \<Rightarrow> md_chan list \<Rightarrow> (int \<times> md_chan list) option" where
  "update_chan ok bindfd alg i cs =
     (let c = cs ! i;
          c = c\<lparr>md_bindfd := bindfd,
                md_alg := (md_alg c)\<lparr>u_height := u_height alg, u_width := u_width alg, u_mb_height := u_mb_height alg,
                  u_mb_width := u_mb_width alg, training_time := training_time alg, md_frame_count := md_frame_count alg,
                  sensitive_th := sensitive_th alg\<rparr>\<rparr>;
          cs = cs[i := c] in
      if mb_w_num alg * mb_h_num alg = 0 then Some (-1, cs)
      else let cs = cs[i := c\<lparr>md_alg := (md_alg c)\<lparr>mb_w_num := mb_w_num alg, mb_h_num := mb_h_num alg\<rparr>\<rparr>] in
        (case sub_region alg of
           Mem rs \<Rightarrow>
             (case each (update_region bindfd rs) [0..<nat (sint (sub_region_num alg))] cs of
                None \<Rightarrow> None
              | Some cs \<Rightarrow>
                  (case capture_motion_update ok (cs ! i) of
                     None \<Rightarrow> None
                   | Some (ret, c) \<Rightarrow>
                       if ret < 0 then map_option (\<lambda>(_, c). (-1, cs[i := c])) (capture_motion_end c)
                       else Some (ret, cs[i := c])))
         | _ \<Rightarrow> None))"

definition motion_detection_update :: "(nat \<Rightarrow> bool) \<Rightarrow> nat \<Rightarrow> mdt_alg \<Rightarrow> md_chan list \<Rightarrow> (int \<times> md_chan list) option" where
  "motion_detection_update ok bindfd alg = with_chan bindfd (update_chan ok bindfd alg)"

definition init_chan :: "(nat \<Rightarrow> bool) \<Rightarrow> cuint \<Rightarrow> cuint \<Rightarrow> md_chan \<Rightarrow> (int \<times> md_chan) option" where
  "init_chan ok max_width max_height c =
     (case capture_motion_init ok
             (c\<lparr>md_bindfd := 0,
                md_alg := (md_alg c)\<lparr>u_height := max_height, u_width := max_width, u_mb_height := 32, u_mb_width := 32,
                  training_time := 15, md_frame_count := 0, sensitive_th := 80, mb_w_num := 0, mb_h_num := 0\<rparr>\<rparr>) of
        None \<Rightarrow> None
      | Some (ret, c) \<Rightarrow> if ret < 0 then map_option (\<lambda>(_, c). (-1, c)) (capture_motion_end c) else Some (ret, c))"

fun map_chans :: "(md_chan \<Rightarrow> (int \<times> md_chan) option) \<Rightarrow> int \<Rightarrow> md_chan list \<Rightarrow> (int \<times> md_chan list) option" where
  "map_chans f ret [] = Some (ret, [])"
| "map_chans f ret (c # cs) =
     (case f c of
        None \<Rightarrow> None
      | Some (ret, c) \<Rightarrow> map_option (\<lambda>(ret, cs). (ret, c # cs)) (map_chans f ret cs))"

definition motion_detection_init :: "(nat \<Rightarrow> bool) \<Rightarrow> int \<Rightarrow> int \<Rightarrow> md_chan list \<Rightarrow> (int \<times> md_chan list) option" where
  "motion_detection_init ok max_width max_height = map_chans (init_chan ok (word_of_int max_width) (word_of_int max_height)) 0"

definition motion_detection_end :: "md_chan list \<Rightarrow> (int \<times> md_chan list) option" where
  "motion_detection_end = map_chans capture_motion_end 0"
section \<open>The decision\<close>

text \<open>The globals of \<^verbatim>\<open>motion_detection.c\<close>, with the events that have been reported. \<open>env\<close> gives the time and the light
  sensor at each use.\<close>

record md_glob =
  ircut_flag :: int
  oldtime :: int
  md_ir_flag :: int
  md_mode :: int
  md_old_mode :: int
  md_check_num :: int
  md_uses :: nat
  md_events :: "int list"

text \<open>The loop that waits for a change of the infrared filter to end.\<close>

function wait_ir :: "int \<Rightarrow> int option" where
  "wait_ir n = (if 2 ^ 31 - 1 \<le> n then None else if n + 1 = 15 then Some 0 else wait_ir (n + 1))"
  by pat_completeness auto

termination
  by (relation "measure (\<lambda>n. nat (2 ^ 31 - n))") auto

declare wait_ir.simps [simp del]

text \<open>
  The times are what \<^verbatim>\<open>time\<close> returns, seconds since 1970 that are not negative and fit the 32 bits of \<^verbatim>\<open>int\<close>, and the old time is 0
  or an earlier one of them. The difference of two such numbers fits as well (\<open>time_gap\<close>), so it is not checked here.
\<close>

lemma time_gap:
  "0 \<le> now \<Longrightarrow> now < 2 ^ 31 \<Longrightarrow> 0 \<le> old \<Longrightarrow> old < 2 ^ 31 \<Longrightarrow> sint (word_of_int (now - old) :: cuint) = now - old"
  unfolding sint_sbintrunc' by (rule signed_take_bit_int_eq_self) simp_all

definition motion_event :: "(nat \<Rightarrow> int \<times> int) \<Rightarrow> bool \<Rightarrow> md_glob \<Rightarrow> md_glob option" where
  "motion_event env cb g =
     (let (now, light) = env (md_uses g); g = g\<lparr>md_uses := md_uses g + 1\<rparr> in
      if \<not> cb then Some g
      else if now - oldtime g > 1 then
        let g = g\<lparr>oldtime := now, md_mode := (if light \<noteq> 0 then 1 else 0)\<rparr>;
            g = (if md_old_mode g \<noteq> md_mode g then g\<lparr>md_ir_flag := 1, md_old_mode := md_mode g, ircut_flag := 1\<rparr> else g) in
        if md_ir_flag g = 0 then Some (g\<lparr>md_events := md_events g @ [now]\<rparr>)
        else map_option (\<lambda>n. g\<lparr>md_ir_flag := 0, ircut_flag := 0, md_check_num := n\<rparr>) (wait_ir (md_check_num g))
      else Some g)"

definition count_flag :: "byte list \<Rightarrow> int \<Rightarrow> int \<Rightarrow> int \<Rightarrow> int \<times> int \<Rightarrow> (int \<times> int) option" where
  "count_flag fl blkw y x cnt = count_at fl blkw y x cnt"

definition region_counts :: "byte list \<Rightarrow> int \<Rightarrow> mdt_reg \<Rightarrow> (int \<times> int) option" where
  "region_counts fl blkw r =
     each (\<lambda>y. each (count_flag fl blkw y) [start_block_x r..end_block_x r]) [start_block_y r..end_block_y r] (0, 0)"

definition decide_region ::
  "(nat \<Rightarrow> int \<times> int) \<Rightarrow> bool \<Rightarrow> byte list mem \<Rightarrow> int \<Rightarrow> nat \<Rightarrow> mdt_reg list \<times> md_glob \<Rightarrow> (mdt_reg list \<times> md_glob) option" where
  "decide_region env cb fl blkw i s =
     (let r = fst s ! i in
      if start_block_x r = -1 then Some s
      else case (case fl of
                   Mem fl \<Rightarrow> region_counts fl blkw r
                 | _ \<Rightarrow> if start_block_y r \<le> end_block_y r \<and> start_block_x r \<le> end_block_x r then None else Some (0, 0)) of
        None \<Rightarrow> None
      | Some (cnt, num) \<Rightarrow>
          if cnt * 100 > num * (100 - alarm_th r)
          then map_option (\<lambda>g. ((fst s)[i := r\<lparr>reg_alarm := MOTION_DETECTED\<rparr>], g)) (motion_event env cb (snd s))
          else Some ((fst s)[i := r\<lparr>reg_alarm := NO_MOTION\<rparr>], snd s))"

definition capture_sub_region_alg ::
  "(nat \<Rightarrow> int \<times> int) \<Rightarrow> bool \<Rightarrow> md_chan \<Rightarrow> md_glob \<Rightarrow> (int \<times> md_chan \<times> md_glob) option" where
  "capture_sub_region_alg env cb c g =
     (let al = md_alg c in
      if u_mb_width al = 0 \<or> u_mb_height al = 0 then None
      else let blkw = sint ((u_width al + (u_mb_width al - 1)) div u_mb_width al) in
        case sub_region al of
          Mem rs \<Rightarrow>
            if length rs \<noteq> MAX_SUBREGION_NUM then None
            else if md_frame_count al < training_time al
            then Some (0, c\<lparr>md_alg := al\<lparr>sub_region := Mem (List.map (\<lambda>r. if start_block_x r \<noteq> -1 then r\<lparr>reg_alarm := MOTION_IS_TRAINING\<rparr> else r) rs)\<rparr>\<rparr>, g)
            else map_option (\<lambda>(rs, g). (0, c\<lparr>md_alg := al\<lparr>sub_region := Mem rs\<rparr>\<rparr>, g))
                   (each (decide_region env cb (active_flag c) blkw) [0..<MAX_SUBREGION_NUM] (rs, g))
        | _ \<Rightarrow> None)"

section \<open>The frames\<close>

text \<open>What the hardware gives for a handle.\<close>

record cap_md =
  cap_bindfd :: nat
  cap_retval :: int
  is_valid :: int
  md_dim_width :: cuint
  md_dim_height :: cuint
  md_mb_width :: cuint
  md_mb_height :: cuint
  md_buf :: "byte list"

definition next_frame :: "cap_md \<Rightarrow> md_chan \<Rightarrow> md_chan" where
  "next_frame cap c =
     (let al = md_alg c in
      if k_height c = md_dim_height cap \<and> k_width c = md_dim_width cap \<and> is_valid cap = 1
      then (if md_frame_count al < training_time al then c\<lparr>md_alg := al\<lparr>md_frame_count := md_frame_count al + 1\<rparr>\<rparr> else c)
      else c\<lparr>md_alg := al\<lparr>md_frame_count := 0\<rparr>, k_height := md_dim_height cap, k_width := md_dim_width cap,
             k_mb_height := md_mb_height cap, k_mb_width := md_mb_width cap\<rparr>)"

definition do_capture_motion ::
  "(nat \<Rightarrow> int \<times> int) \<Rightarrow> bool \<Rightarrow> cap_md \<Rightarrow> md_chan \<Rightarrow> md_glob \<Rightarrow> (int \<times> md_chan \<times> md_glob) option" where
  "do_capture_motion env cb cap c g =
     (if \<not> cap_motion_init_ok c then Some (MOTION_INIT_ERROR, c, g)
      else case parsing_mv_data (md_buf cap) (next_frame cap c\<lparr>active_num := 0\<rparr>) of
        None \<Rightarrow> None
      | Some (ret, c) \<Rightarrow>
          if ret < 0 then Some (MOTION_PARSING_ERROR, c, g)
          else (case capture_sub_region_alg env cb c g of
                  None \<Rightarrow> None
                | Some (ret, c, g) \<Rightarrow>
                    if ret < 0 then Some (MOTION_ALGO_ERROR, c, g)
                    else Some (if md_frame_count (md_alg c) < training_time (md_alg c) then MOTION_IS_TRAINING else MOTION_IS_READY, c, g)))"

record mdt_result =
  res_bindfd :: nat
  ch_result :: int
  reg_results :: "int list"

text \<open>The loop runs over all 32 indices of \<^verbatim>\<open>mdt_param\<close>, and gives each of them the handle of the first stream.\<close>

definition mdt_idx_to_cap_md_idx :: "nat \<Rightarrow> cap_md list \<Rightarrow> int" where
  "mdt_idx_to_cap_md_idx bindfd caps =
     (case find (\<lambda>j. cap_bindfd (caps ! j) = bindfd) [0..<length caps] of None \<Rightarrow> -1 | Some j \<Rightarrow> int j)"

type_synonym md_state = "md_chan list \<times> md_glob \<times> mdt_result list"

definition copy_results :: "md_chan \<Rightarrow> mdt_result \<Rightarrow> mdt_result option" where
  "copy_results c res =
     (case sub_region (md_alg c) of
        Mem rs \<Rightarrow> if length rs < length (reg_results res) then None
                  else Some (res\<lparr>reg_results := List.map reg_alarm (take (length (reg_results res)) rs)\<rparr>)
      | _ \<Rightarrow> if reg_results res = [] then Some res else None)"

definition handle_chan :: "(nat \<Rightarrow> int \<times> int) \<Rightarrow> bool \<Rightarrow> nat \<Rightarrow> cap_md list \<Rightarrow> nat \<Rightarrow> md_state \<Rightarrow> md_state option" where
  "handle_chan env cb bind caps i s =
     (case s of (cs, g, rs) \<Rightarrow>
        let c = (cs ! i)\<lparr>md_bindfd := bind\<rparr>; cs = cs[i := c]; j = mdt_idx_to_cap_md_idx (md_bindfd c) caps in
        if j < 0 then Some (cs, g, rs)
        else let cap = caps ! nat j; set = (\<lambda>b r. rs[nat j := (rs ! nat j)\<lparr>res_bindfd := b, ch_result := r\<rparr>]) in
          if length rs \<le> nat j then None
          else if cap_bindfd cap \<noteq> md_bindfd c then Some (cs, g, set 0 MOTION_INIT_ERROR)
          else if cap_retval cap < 0 then Some (cs, g, set (cap_bindfd cap) MOTION_DATA_ERROR)
          else if is_valid cap = 0 then Some (cs, g, set (cap_bindfd cap) NO_MOTION)
          else (case do_capture_motion env cb cap c g of
                  None \<Rightarrow> None
                | Some (result, c, g) \<Rightarrow>
                    map_option (\<lambda>res. (cs[i := c], g, rs[nat j := res]))
                      (copy_results c ((rs ! nat j)\<lparr>res_bindfd := cap_bindfd cap, ch_result := result\<rparr>))))"

definition motion_detection_handling :: "(nat \<Rightarrow> int \<times> int) \<Rightarrow> bool \<Rightarrow> nat \<Rightarrow> cap_md list \<Rightarrow> md_state \<Rightarrow> md_state option" where
  "motion_detection_handling env cb bind caps = each (handle_chan env cb bind caps) [0..<MAX_CAP_MD_NUM]"

section \<open>The thread\<close>

text \<open>The state of \<^verbatim>\<open>motion.c\<close>, with the two locals of the thread that are not initialised.\<close>

record md_sys =
  md_chans :: "md_chan list"
  md_globals :: md_glob
  md_results :: "mdt_result list"
  user_alg :: mdt_alg
  motion_init :: int
  motion_enable :: int
  motion_fd :: nat
  max_width :: int
  max_height :: int
  mdTrigger :: int
  ullBakTime :: "64 word"
  ullbitsMDstate :: "64 word"

definition note_trigger :: "mdt_result list \<Rightarrow> int \<Rightarrow> int" where
  "note_trigger rs t =
     (if \<exists>r \<in> set rs. ch_result r = MOTION_IS_READY \<and> MOTION_DETECTED \<in> set (take MAX_MOTION_NUM (reg_results r)) then 1 else t)"

text \<open>One second of history per bit.\<close>

definition note_second :: "64 word \<Rightarrow> md_sys \<Rightarrow> md_sys" where
  "note_second now s =
     (if now - ullBakTime s > 1000 * 1000
      then if mdTrigger s = 1
        then s\<lparr>mdTrigger := 0, ullbitsMDstate := push_bit 1 (ullbitsMDstate s) OR 1, ullBakTime := now\<rparr>
        else s\<lparr>ullbitsMDstate := push_bit 1 (ullbitsMDstate s), ullBakTime := now\<rparr>
      else s)"

text \<open>A round: the time, what the library returns, the handle of the first stream and the data. \<open>gm_recv_multi_cap_md\<close> is the
  library's.\<close>

definition motion_round ::
  "(nat \<Rightarrow> int \<times> int) \<Rightarrow> bool \<Rightarrow> 64 word \<times> int \<times> nat \<times> cap_md list \<Rightarrow> md_sys \<Rightarrow> md_sys option" where
  "motion_round env cb inp s =
     (case inp of (now, ret, bind, caps) \<Rightarrow>
        if motion_enable s = 0 then Some s
        else if ret < 0 then Some s
        else (case motion_detection_handling env cb bind caps (md_chans s, md_globals s, md_results s) of
                None \<Rightarrow> None
              | Some (cs, g, rs) \<Rightarrow>
                  Some (note_second now (s\<lparr>md_chans := cs, md_globals := g, md_results := rs, mdTrigger := note_trigger rs (mdTrigger s)\<rparr>))))"

section \<open>Setting the regions\<close>

text \<open>\<^verbatim>\<open>sdk_vda_codec_cfg_t\<close>, with the areas as (x, y, width, height).\<close>

record vda_cfg =
  vda_sensitive :: byte
  vda_mask :: cuint
  vda_area :: "(16 word \<times> 16 word \<times> 16 word \<times> 16 word) list"

definition init_motion_param :: "(nat \<Rightarrow> bool) \<Rightarrow> md_sys \<Rightarrow> int \<times> md_sys" where
  "init_motion_param ok s =
     (let w = word_of_int (max_width s); h = word_of_int (max_height s); zero = (0 :: int);
          al = \<lparr>sub_region = malloc ok (28 * MAX_MOTION_NUM) (replicate MAX_MOTION_NUM
                  \<lparr>is_enabled = zero, start_block_x = 0, start_block_y = 0, end_block_x = 0, end_block_y = 0, alarm_th = 0, reg_alarm = 0\<rparr>),
                sub_region_num = 0, u_height = h, u_width = w, u_mb_height = 32, u_mb_width = 32, sensitive_th = 80, md_frame_count = 0,
                training_time = 15, mb_w_num = (w + (32 - 1)) div 32, mb_h_num = (h + (32 - 1)) div 32\<rparr>
      in (if sub_region al = Null then MOTION_INIT_ERROR else 0, s\<lparr>user_alg := al\<rparr>))"

definition init_motion_server :: "(nat \<Rightarrow> bool) \<Rightarrow> nat \<Rightarrow> int \<Rightarrow> int \<Rightarrow> md_sys \<Rightarrow> (int \<times> md_sys) option" where
  "init_motion_server ok bind width height s =
     (let s = s\<lparr>motion_init := 0, motion_enable := 0, motion_fd := bind, max_width := width, max_height := height\<rparr>;
          (ret, s) = init_motion_param ok s in
      if ret < 0 then Some (-1, s\<lparr>motion_init := 0\<rparr>)
      else case motion_detection_init ok width height (md_chans s) of
        None \<Rightarrow> None
      | Some (ret, cs) \<Rightarrow>
          if ret < 0 then Some (-1, s\<lparr>md_chans := cs, motion_init := 0\<rparr>) else Some (0, s\<lparr>md_chans := cs, motion_init := 1\<rparr>))"

definition TEST_BIT :: "cuint \<Rightarrow> nat \<Rightarrow> cuint" where
  "TEST_BIT x n = x AND push_bit n 1"

definition area_region :: "md_sys \<Rightarrow> vda_cfg \<Rightarrow> nat \<Rightarrow> mdt_reg \<Rightarrow> mdt_reg" where
  "area_region s cfg i r =
     (let al = user_alg s; bw = sint ((u_width al + (u_mb_width al - 1)) div u_mb_width al);
          bh = sint ((u_height al + (u_mb_height al - 1)) div u_mb_height al); (x, y, w, h) = vda_area cfg ! i in
      r\<lparr>is_enabled := (if TEST_BIT (vda_mask cfg) (i + 1) \<noteq> 0 then 1 else is_enabled r),
        start_block_x := cdiv (bw * uint x) (max_width s), start_block_y := cdiv (bh * uint y) (max_height s),
        end_block_x := cdiv (bw * uint w) (max_width s) - 1, end_block_y := cdiv (bh * uint h) (max_height s) - 1,
        alarm_th := uint (vda_sensitive cfg) * 20, reg_alarm := NO_MOTION\<rparr>)"

text \<open>When the update fails the user's regions are freed, and the pointer stays.\<close>

definition set_motion_param :: "(nat \<Rightarrow> bool) \<Rightarrow> vda_cfg option \<Rightarrow> md_sys \<Rightarrow> (int \<times> md_sys) option" where
  "set_motion_param ok cfg s =
     (case cfg of
        None \<Rightarrow> Some (-1, s)
      | Some cfg \<Rightarrow>
          if motion_init s = 0 then Some (-1, s)
          else let al = user_alg s\<lparr>u_mb_width := 32, u_mb_height := 32, training_time := 15, md_frame_count := 0,
                     u_width := word_of_int (max_width s), u_height := word_of_int (max_height s)\<rparr>; s = s\<lparr>user_alg := al\<rparr> in
            if max_width s = 0 \<or> max_height s = 0 then None
            else case sub_region al of
              Mem rs \<Rightarrow>
                if length rs < 4 \<or> length (vda_area cfg) < 4 then None
                else let rs = List.map (\<lambda>i. area_region s cfg i (rs ! i)) [0..<4] @ drop 4 rs;
                         s = s\<lparr>user_alg := al\<lparr>sub_region := Mem rs, sub_region_num := 4\<rparr>, motion_enable := (if vda_sensitive cfg > 0 then 1 else 0)\<rparr> in
                  (case motion_detection_update ok (motion_fd s) (user_alg s) (md_chans s) of
                     None \<Rightarrow> None
                   | Some (ret, cs) \<Rightarrow>
                       let s = s\<lparr>md_chans := cs\<rparr> in
                       if ret \<noteq> 0 then map_option (\<lambda>p. (-1, s\<lparr>user_alg := (user_alg s)\<lparr>sub_region := p\<rparr>\<rparr>)) (free_mem (sub_region (user_alg s)))
                       else Some (0, s))
            | _ \<Rightarrow> None)"

section \<open>The history and the cloud client\<close>

text \<open>The loop of the client's thread, with the messages it has pushed; \<open>&\<close> binds weaker than \<open>==\<close> in C.\<close>

record push_state =
  mdtriggerd :: int
  pushed :: nat

definition c_eq :: "'a \<Rightarrow> 'a \<Rightarrow> 64 word" where
  "c_eq x y = (if x = y then 1 else 0)"

definition dana_push_round :: "64 word \<Rightarrow> push_state \<Rightarrow> push_state" where
  "dana_push_round bits s =
     (if bits AND c_eq (0x01 :: int) 0 \<noteq> 0 then s\<lparr>mdtriggerd := 0\<rparr>
      else let s = (if mdtriggerd s \<le> 0 then s\<lparr>pushed := pushed s + 1, mdtriggerd := 1\<rparr> else s)
        in if bits AND c_eq (0x07 :: int) 0 \<noteq> 0 then s\<lparr>mdtriggerd := 0\<rparr> else s)"
end
