(* ===== verification/MotionData.thy ===== *)
theory MotionData
  imports MotionDet
begin

text \<open>
  What the unpacking of motion data promises (\<^verbatim>\<open>parsing_mv_data.c\<close>): the macroblocks of a frame are unpacked and
  cleaned of noise, every macroblock counts in some block, and the flag of a block says whether enough of its
  macroblocks moved.
\<close>

section \<open>Loops\<close>

lemma each_append: "each f (xs @ ys) s = (case each f xs s of None \<Rightarrow> None | Some s \<Rightarrow> each f ys s)"
  by (induction xs arbitrary: s) (simp_all split: option.splits)

lemma each_prefix_rule:
  assumes "P [] s" and "\<And>ys x zs s. xs = ys @ x # zs \<Longrightarrow> P ys s \<Longrightarrow> \<exists>s'. f x s = Some s' \<and> P (ys @ [x]) s'"
  shows "\<exists>s'. each f xs s = Some s' \<and> P xs s'"
  using assms(2)
proof (induction xs rule: rev_induct)
  case (snoc x xs)
  have "\<exists>s'. each f xs s = Some s' \<and> P xs s'" by (rule snoc.IH) (use snoc.prems in force)
  then show ?case using snoc.prems [of xs x "[]"] by (fastforce simp: each_append)
qed (use assms(1) in simp)

text \<open>A loop over an index from 0.\<close>

lemma each_upto_rule:
  assumes "P 0 s" and "\<And>i s. 0 \<le> i \<Longrightarrow> i < n \<Longrightarrow> P i s \<Longrightarrow> \<exists>s'. f i s = Some s' \<and> P (i + 1) s'"
  shows "\<exists>s'. each f [0..n - 1] s = Some s' \<and> P (max 0 n) s'"
proof -
  have "\<exists>s'. each f [0..int k - 1] s = Some s' \<and> P (int k) s'" if "int k \<le> max 0 n" for k
    using that
  proof (induction k)
    case (Suc k)
    then obtain s' where s': "each f [0..int k - 1] s = Some s'" "P (int k) s'" by (auto split: if_splits simp: max_def)
    have "[0..int (Suc k) - 1] = [0..int k - 1] @ [int k]" by (simp add: upto_rec2)
    moreover have "int k < n" using Suc.prems by (simp add: max_def split: if_splits)
    then obtain s'' where "f (int k) s' = Some s''" "P (int k + 1) s''" using assms(2) [of "int k" s'] s'(2) by auto
    moreover have "int (Suc k) = int k + 1" by simp
    ultimately show ?case using s'(1) by (simp only: each_append option.case each.simps) simp
  qed (use assms(1) in simp)
  from this [of "nat n"] show ?thesis by (cases "0 \<le> n") (auto simp: max_def)
qed

lemma each_nested: "each (\<lambda>a. each (f a) ys) xs s = each (\<lambda>(a, b). f a b) (List.product xs ys) s"
proof (induction xs arbitrary: s)
  case (Cons a xs)
  have "each (\<lambda>(a, b). f a b) (List.map (Pair a) ys) s = each (f a) ys s" for s
    by (induction ys arbitrary: s) (simp_all split: option.splits)
  then show ?case by (simp add: each_append Cons split: option.splits)
qed simp

lemma get_at_Some: "0 \<le> i \<Longrightarrow> i < int (length xs) \<Longrightarrow> get_at xs i = Some (xs ! nat i)"
  by (simp add: get_at_def)

lemma set_at_Some: "0 \<le> i \<Longrightarrow> i + int (length ys) \<le> int (length xs) \<Longrightarrow> set_at i ys xs = Some (put_at (nat i) ys xs)"
  by (simp add: set_at_def)

lemma set_at_int: "i + length ys \<le> length xs \<Longrightarrow> set_at (int i) ys xs = Some (put_at i ys xs)"
  by (simp add: set_at_def)

lemma get_at_int: "i < length xs \<Longrightarrow> get_at xs (int i) = Some (xs ! i)"
  by (simp add: get_at_def)

lemma nth_put_at: "i + length ys \<le> length xs \<Longrightarrow> j < length xs \<Longrightarrow>
  put_at i ys xs ! j = (if i \<le> j \<and> j < i + length ys then ys ! (j - i) else xs ! j)"
  by (auto simp: put_at_def nth_append)

lemma put_at_one: "i < length xs \<Longrightarrow> put_at i [x] xs = xs[i := x]"
  by (rule nth_equalityI) (auto simp: nth_put_at put_at_def nth_append nth_list_update)

section \<open>Noise\<close>

definition noisy :: "nat \<Rightarrow> byte list \<Rightarrow> nat \<Rightarrow> bool" where
  "noisy w k p \<longleftrightarrow> k ! p = 0 \<and> k ! (p + w) \<noteq> 0 \<and> k ! (p - w) \<noteq> 0 \<and> k ! (p + 1) \<noteq> 0 \<and> k ! (p - 1) \<noteq> 0"

definition inner :: "nat \<Rightarrow> nat \<Rightarrow> nat \<Rightarrow> bool" where
  "inner w h p \<longleftrightarrow> 1 \<le> p div w \<and> p div w < h - 1 \<and> 1 \<le> p mod w \<and> p mod w < w - 1"

text \<open>All the macroblocks that are noise in the given data become 1 at once.\<close>

definition clean :: "nat \<Rightarrow> nat \<Rightarrow> byte list \<Rightarrow> byte list" where
  "clean w h k = List.map (\<lambda>p. if inner w h p \<and> noisy w k p then 1 else k ! p) [0..<length k]"

definition cleaned_on :: "nat \<Rightarrow> nat set \<Rightarrow> byte list \<Rightarrow> byte list \<Rightarrow> bool" where
  "cleaned_on w V k s \<longleftrightarrow> length s = length k \<and> (\<forall>p < length k. s ! p = (if p \<in> V \<and> noisy w k p then 1 else k ! p))"

lemma denoise_step:
  assumes s: "cleaned_on w V k s" and p: "w \<le> p" "p + w < length k" "1 < w" and V: "\<forall>q \<in> V. w \<le> q \<and> q + w < length k"
    and a: "a * int w + b = int p"
  shows "\<exists>s'. denoise_at (int w) a b s = Some s' \<and> cleaned_on w (insert p V) k s'"
proof -
  have len: "length s = length k" and nth: "\<And>q. q < length k \<Longrightarrow> s ! q = (if q \<in> V \<and> noisy w k q then 1 else k ! q)"
    using s by (auto simp: cleaned_on_def)
  have reads: "get_at s (int p) = Some (s ! p)" "get_at s (int p + int w) = Some (s ! (p + w))"
    "get_at s (int p - int w) = Some (s ! (p - w))" "get_at s (int p + 1) = Some (s ! (p + 1))"
    "get_at s (int p - 1) = Some (s ! (p - 1))"
    using p len by (simp_all add: get_at_def nat_diff_distrib nat_add_distrib)
  have pk: "p < length k" "p + 1 < length k" "p - w < length k" "p - 1 < length k" using p by simp_all
  have same: "s ! q \<noteq> 0 \<longleftrightarrow> k ! q \<noteq> 0" if "k ! p = 0" "q \<in> {p + w, p - w, p + 1, p - 1}" for q
  proof -
    have "\<not> (q \<in> V \<and> noisy w k q)"
      using that p V by (auto simp: noisy_def)
    then show ?thesis using nth [of q] that(2) pk p by auto
  qed
  show ?thesis
  proof (cases "s ! p = 0")
    case False
    then have "noisy w k p \<longrightarrow> p \<in> V" using nth [OF pk(1)] by (auto simp: noisy_def split: if_splits)
    then have "cleaned_on w (insert p V) k s" using s by (auto simp: cleaned_on_def)
    then show ?thesis using False by (simp add: denoise_at_def a reads(1))
  next
    case True
    then have z: "k ! p = 0" using nth [OF pk(1)] by (simp split: if_splits)
    have iff: "(s ! (p + w) \<noteq> 0 \<and> s ! (p - w) \<noteq> 0 \<and> s ! (p + 1) \<noteq> 0 \<and> s ! (p - 1) \<noteq> 0) \<longleftrightarrow> noisy w k p"
      using same [OF z] z by (simp add: noisy_def)
    have upd: "set_at (int p) [1] s = Some (s[p := 1])" using pk(1) len by (simp add: set_at_def put_at_one)
    have "cleaned_on w (insert p V) k (if noisy w k p then s[p := 1] else s)"
      using s len pk(1) by (auto simp: cleaned_on_def nth_list_update split: if_splits)
    moreover have "denoise_at (int w) a b s = Some (if noisy w k p then s[p := 1] else s)"
      using True unfolding denoise_at_def a Let_def reads option.case prod.case iff upd by simp
    ultimately show ?thesis by blast
  qed
qed
lemma inner_pos:
  assumes "1 < w"
  shows "inner w h p \<longleftrightarrow> (\<exists>a b. 1 \<le> a \<and> a \<le> int h - 2 \<and> 1 \<le> b \<and> b \<le> int w - 2 \<and> a * int w + b = int p)"
proof
  assume i: "inner w h p"
  have "int (p div w) * int w + int (p mod w) = int p"
    by (metis div_mult_mod_eq of_nat_add of_nat_mult)
  moreover have "1 \<le> int (p div w)" "int (p div w) \<le> int h - 2" "1 \<le> int (p mod w)" "int (p mod w) \<le> int w - 2"
    using i by (auto simp: inner_def)
  ultimately show "\<exists>a b. 1 \<le> a \<and> a \<le> int h - 2 \<and> 1 \<le> b \<and> b \<le> int w - 2 \<and> a * int w + b = int p" by blast
next
  assume "\<exists>a b. 1 \<le> a \<and> a \<le> int h - 2 \<and> 1 \<le> b \<and> b \<le> int w - 2 \<and> a * int w + b = int p"
  then obtain a b where ab: "1 \<le> a" "a \<le> int h - 2" "1 \<le> b" "b \<le> int w - 2" "a * int w + b = int p" by blast
  then have "int p div int w = a" "int p mod int w = b"
    by (simp_all add: ab(5) [symmetric])
  then have "int (p div w) = a" "int (p mod w) = b" by (simp_all add: zdiv_int zmod_int)
  then show "inner w h p" using ab by (auto simp: inner_def)
qed

lemma inner_bounds:
  assumes "1 \<le> a" "a \<le> int h - 2" "1 \<le> b" "b \<le> int w - 2" "a * int w + b = int p" "w * h \<le> n"
  shows "w \<le> p" "p + w < n"
proof -
  have "int w \<le> a * int w" using assms(1,3,4) mult_right_mono [of 1 a "int w"] by simp
  then show "w \<le> p" using assms(3,5) by linarith
  have "a * int w \<le> (int h - 2) * int w" by (rule mult_right_mono) (use assms in simp_all)
  then have "int p + int w < int h * int w" using assms(3-5) by (simp add: algebra_simps)
  moreover have "int h * int w \<le> int n" using assms(6) by (metis mult.commute of_nat_le_iff of_nat_mult)
  ultimately show "p + w < n" by linarith
qed

lemma denoise_eq:
  assumes "w * h \<le> length k"
  shows "denoise (int w) (int h) k = Some (clean w h k)"
proof (cases "1 < w")
  case False
  then have "\<not> inner w h p" for p by (auto simp: inner_def)
  moreover have "[1..int w - 2] = []" using False by simp
  moreover have "each (\<lambda>a. each (f a) []) xs s = Some s" for f :: "int \<Rightarrow> int \<Rightarrow> byte list \<Rightarrow> byte list option" and xs s
    by (induction xs) simp_all
  ultimately show ?thesis by (simp add: denoise_def clean_def map_nth)
next
  case True
  let ?xs = "List.product [1..int h - 2] [1..int w - 2]" and ?pos = "\<lambda>(a, b). nat (a * int w + b)"
  let ?P = "\<lambda>ys. cleaned_on w (?pos ` set ys) k"
  have bd: "w \<le> ?pos x \<and> ?pos x + w < length k \<and> (case x of (a, b) \<Rightarrow> a * int w + b) = int (?pos x)" if "x \<in> set ?xs" for x
  proof -
    obtain a b where e: "x = (a, b)" by (cases x)
    then have x: "x = (a, b)" "1 \<le> a" "a \<le> int h - 2" "1 \<le> b" "b \<le> int w - 2" using that by auto
    then have "0 \<le> a * int w + b" by simp
    then have e: "a * int w + b = int (?pos x)" by (simp add: x(1))
    show ?thesis using inner_bounds(1) [OF x(2-5) e assms] inner_bounds(2) [OF x(2-5) e assms] e unfolding x(1) prod.case by blast
  qed
  have "\<exists>s'. each (\<lambda>(a, b). denoise_at (int w) a b) ?xs k = Some s' \<and> ?P ?xs s'"
  proof (rule each_prefix_rule)
    show "?P [] k" by (simp add: cleaned_on_def)
    fix ys x zs s
    assume xs: "?xs = ys @ x # zs" and s: "?P ys s"
    obtain a b where x: "x = (a, b)" by (cases x)
    have "x \<in> set ?xs" "set ys \<subseteq> set ?xs" unfolding xs by auto
    then have V: "\<forall>q \<in> ?pos ` set ys. w \<le> q \<and> q + w < length k" and p: "w \<le> ?pos x" "?pos x + w < length k"
      and "(case x of (a, b) \<Rightarrow> a * int w + b) = int (?pos x)" using bd by blast+
    then have e: "a * int w + b = int (?pos x)" by (simp only: x prod.case)
    have "?pos ` set (ys @ [x]) = insert (?pos x) (?pos ` set ys)" by simp
    then show "\<exists>s'. (case x of (a, b) \<Rightarrow> denoise_at (int w) a b) s = Some s' \<and> ?P (ys @ [x]) s'"
      using denoise_step [OF s p True V e] by (simp only: x prod.case)
  qed
  then obtain s' where s': "denoise (int w) (int h) k = Some s'" "?P ?xs s'" by (auto simp: denoise_def each_nested)
  have "inner w h p \<longleftrightarrow> p \<in> ?pos ` set ?xs" for p
    unfolding inner_pos [OF True] by (force simp: image_iff)
  then have "s' = clean w h k"
    using s'(2) by (intro nth_equalityI) (auto simp: cleaned_on_def clean_def)
  then show ?thesis using s'(1) by simp
qed

section \<open>Unpacking\<close>

definition mb_value :: "byte list \<Rightarrow> nat \<Rightarrow> nat \<Rightarrow> byte" where
  "mb_value buf a b = drop_bit (2 * (b mod 4)) (buf ! (32 * a + b div 4)) AND 3"

lemma unpack_byte_nth: "j < 4 \<Longrightarrow> unpack_byte ev ! j = drop_bit (2 * j) ev AND 3"
proof -
  assume "j < 4"
  then have "j = 0 \<or> j = 1 \<or> j = 2 \<or> j = 3" by arith
  moreover have "drop_bit 0 (85 :: byte) AND 3 = 1" "drop_bit 2 (85 :: byte) AND 3 = 1" "drop_bit 4 (85 :: byte) AND 3 = 1"
    "drop_bit 6 (85 :: byte) AND 3 = 1" by code_simp+
  ultimately show ?thesis by (auto simp: unpack_byte_def)
qed

lemma length_unpack_byte [simp]: "length (unpack_byte ev) = 4"
  by (simp add: unpack_byte_def)

definition rows_done :: "byte list \<Rightarrow> nat \<Rightarrow> nat \<Rightarrow> byte list \<Rightarrow> byte list \<Rightarrow> bool" where
  "rows_done buf w a k0 k \<longleftrightarrow> length k = length k0 \<and> (\<forall>a' < a. \<forall>b < w. k ! (a' * w + b) = mb_value buf a' b)"

lemma row_unpacked:
  assumes k: "rows_done buf w a k0 k" and buf: "32 * a + n \<le> length buf" and room: "a * w + 4 * n \<le> length k0" and w: "w \<le> 4 * n"
  shows "\<exists>k'. each (unpack_at buf (int w) (int a)) [0..int n - 1] k = Some k' \<and> rows_done buf w (Suc a) k0 k'"
proof -
  let ?P = "\<lambda>i k'. rows_done buf w a k0 k' \<and> (\<forall>b < w. int (b div 4) < i \<longrightarrow> k' ! (a * w + b) = mb_value buf a b)"
  have "\<exists>k'. each (unpack_at buf (int w) (int a)) [0..int n - 1] k = Some k' \<and> ?P (max 0 (int n)) k'"
  proof (rule each_upto_rule)
    show "?P 0 k" using k by simp
    fix i k1
    assume i: "0 \<le> i" "i < int n" and k1: "?P i k1"
    obtain c where c: "i = int c" "c < n" using i by (metis nonneg_int_cases of_nat_less_iff)
    have len: "length k1 = length k0" using k1 by (simp add: rows_done_def)
    have rd: "get_at buf (32 * int a + i) = Some (buf ! (32 * a + c))"
      using c buf by (simp add: get_at_def c(1) nat_add_distrib nat_mult_distrib)
    let ?p = "a * w + 4 * c"
    have wr: "set_at (int a * int w + i * 4) (unpack_byte (buf ! (32 * a + c))) k1 = Some (put_at ?p (unpack_byte (buf ! (32 * a + c))) k1)"
      using c room len by (simp add: set_at_def nat_add_distrib nat_mult_distrib algebra_simps)
    have fit: "?p + length (unpack_byte (buf ! (32 * a + c))) \<le> length k1" using c room len by simp
    have cell: "a' * w + b < ?p" if "a' < a" "b < w" for a' b
      using that mult_le_mono1 [of "Suc a'" a w] by simp
    have old: "put_at ?p (unpack_byte (buf ! (32 * a + c))) k1 ! j = k1 ! j" if "j < ?p" for j
      using that fit nth_put_at [OF fit, of j] by simp
    have "rows_done buf w a k0 (put_at ?p (unpack_byte (buf ! (32 * a + c))) k1)"
      using k1 fit cell old by (auto simp: rows_done_def length_put_at)
    moreover have "put_at ?p (unpack_byte (buf ! (32 * a + c))) k1 ! (a * w + b) = mb_value buf a b"
      if b: "b < w" "int (b div 4) < i + 1" for b
    proof (cases "b div 4 = c")
      case True
      then have "b = 4 * c + b mod 4" by (metis mult_div_mod_eq)
      then obtain j where j: "b = 4 * c + j" "j < 4" "j = b mod 4" by simp
      then have "a * w + b = ?p + j" by simp
      then have "put_at ?p (unpack_byte (buf ! (32 * a + c))) k1 ! (a * w + b) = unpack_byte (buf ! (32 * a + c)) ! j"
        using j(2) fit nth_put_at [OF fit, of "?p + j"] by (simp add: add.assoc)
      then show ?thesis by (simp only: mb_value_def True j(3) [symmetric] unpack_byte_nth [OF j(2)])
    next
      case False
      then have lt: "b div 4 < c" using b(2) c(1) by simp
      then have "b < 4 * c" by (simp add: div_less_iff_less_mult)
      then have "a * w + b < ?p" by simp
      moreover have "int (b div 4) < i" using lt c(1) by simp
      then have "k1 ! (a * w + b) = mb_value buf a b" using conjunct2 [OF k1] b(1) by simp
      ultimately show ?thesis by (simp only: old)
    qed
    ultimately show "\<exists>s'. unpack_at buf (int w) (int a) i k1 = Some s' \<and> ?P (i + 1) s'"
      unfolding unpack_at_def rd option.case wr by blast
  qed
  then obtain k' where k': "each (unpack_at buf (int w) (int a)) [0..int n - 1] k = Some k'" "?P (int n) k'" by auto
  have "b div 4 < n" if "b < w" for b using that w by (simp add: div_less_iff_less_mult mult.commute)
  then have "rows_done buf w (Suc a) k0 k'" using k'(2) by (auto simp: rows_done_def less_Suc_eq)
  then show ?thesis using k'(1) by blast
qed

lemma unpack_rows_ok:
  assumes "0 < w" "0 < h" "32 * (h - 1) + (w + 3) div 4 \<le> length buf" "(h - 1) * w + 4 * ((w + 3) div 4) \<le> length k"
  shows "\<exists>k'. unpack_rows buf (int w) (int h) k = Some k' \<and> rows_done buf w h k k'"
proof -
  let ?n = "(w + 3) div 4"
  have n: "cdiv (int w - 1) 4 + 1 = int ?n"
  proof -
    have "cdiv (int w - 1) 4 + 1 = (int w - 1 + 4) div 4" using assms(1) by (simp add: cdiv_nonneg)
    also have "\<dots> = int ?n" by (simp add: zdiv_int algebra_simps)
    finally show ?thesis .
  qed
  have "\<exists>k'. each (\<lambda>a. each (unpack_at buf (int w) a) [0..int ?n - 1]) [0..int h - 1] k = Some k' \<and> rows_done buf w (nat (max 0 (int h))) k k'"
  proof (rule each_upto_rule)
    show "rows_done buf w (nat 0) k k" by (simp add: rows_done_def)
    fix i k1
    assume i: "0 \<le> i" "i < int h" and k1: "rows_done buf w (nat i) k k1"
    obtain a where a: "i = int a" "a \<le> h - 1" using i by (metis One_nat_def Suc_pred assms(2) less_Suc_eq_le nonneg_int_cases of_nat_less_iff)
    have "a * w \<le> (h - 1) * w" using a(2) by simp
    then have room: "a * w + 4 * ?n \<le> length k" using assms(4) by linarith
    have "\<exists>k'. each (unpack_at buf (int w) (int a)) [0..int ?n - 1] k1 = Some k' \<and> rows_done buf w (Suc a) k k'"
      by (rule row_unpacked [OF k1 [unfolded a(1) nat_int] _ room]) (use a(2) assms(3) in linarith)+
    then show "\<exists>s'. each (unpack_at buf (int w) i) [0..int ?n - 1] k1 = Some s' \<and> rows_done buf w (nat (i + 1)) k s'"
      by (simp add: a(1) nat_add_distrib)
  qed
  then show ?thesis by (simp add: unpack_rows_def n)
qed
definition moved :: "byte list \<Rightarrow> nat \<Rightarrow> nat \<Rightarrow> nat \<Rightarrow> nat \<Rightarrow> bool" where
  "moved buf w h a b \<longleftrightarrow> mb_value buf a b = 0 \<and>
     \<not> (1 \<le> a \<and> a < h - 1 \<and> 1 \<le> b \<and> b < w - 1 \<and> mb_value buf (a + 1) b \<noteq> 0 \<and> mb_value buf (a - 1) b \<noteq> 0 \<and>
        mb_value buf a (b + 1) \<noteq> 0 \<and> mb_value buf a (b - 1) \<noteq> 0)"

lemma clean_moved:
  assumes k: "rows_done buf w h k0 k" and ab: "a < h" "b < w" and len: "w * h \<le> length k"
  shows "clean w h k ! (a * w + b) = 0 \<longleftrightarrow> moved buf w h a b"
proof -
  have v: "k ! (a' * w + b') = mb_value buf a' b'" if "a' < h" "b' < w" for a' b'
    using k that by (auto simp: rows_done_def)
  have "Suc a * w \<le> h * w" using ab(1) by (intro mult_le_mono1) simp
  then have p: "a * w + b < length k" using ab(2) len by (simp add: mult.commute)
  have dm: "(a * w + b) div w = a" "(a * w + b) mod w = b" using ab(2) by simp_all
  have nb: "a * w + b + w = (a + 1) * w + b" "1 \<le> a \<Longrightarrow> a * w + b - w = (a - 1) * w + b"
    "a * w + b + 1 = a * w + (b + 1)" "1 \<le> b \<Longrightarrow> a * w + b - 1 = a * w + (b - 1)"
    by (simp_all add: algebra_simps diff_mult_distrib)
  show ?thesis
  proof (cases "inner w h (a * w + b)")
    case True
    then have i: "1 \<le> a" "a < h - 1" "1 \<le> b" "b < w - 1" unfolding inner_def dm by simp_all
    then have lt: "a + 1 < h" "a - 1 < h" "b + 1 < w" "b - 1 < w" by simp_all
    have "noisy w k (a * w + b) \<longleftrightarrow> mb_value buf a b = 0 \<and> mb_value buf (a + 1) b \<noteq> 0 \<and> mb_value buf (a - 1) b \<noteq> 0 \<and>
        mb_value buf a (b + 1) \<noteq> 0 \<and> mb_value buf a (b - 1) \<noteq> 0"
      unfolding noisy_def nb(1,3) nb(2) [OF i(1)] nb(4) [OF i(3)] v [OF ab] v [OF lt(1) ab(2)] v [OF lt(2) ab(2)]
        v [OF ab(1) lt(3)] v [OF ab(1) lt(4)] by (rule refl)
    then show ?thesis using True i p v [OF ab] by (auto simp: clean_def moved_def)
  next
    case False
    then have "\<not> (1 \<le> a \<and> a < h - 1 \<and> 1 \<le> b \<and> b < w - 1)" unfolding inner_def dm by simp
    then show ?thesis using False p v [OF ab] by (auto simp: clean_def moved_def)
  qed
qed

text \<open>The data of a frame of \<open>w\<close> by \<open>h\<close> macroblocks fits the buffers.\<close>

definition grid_ok :: "byte list \<Rightarrow> nat \<Rightarrow> nat \<Rightarrow> bool" where
  "grid_ok buf w h \<longleftrightarrow> 0 < w \<and> 0 < h \<and> 32 * (h - 1) + (w + 3) div 4 \<le> length buf \<and> (h - 1) * w + 4 * ((w + 3) div 4) \<le> CAP_MOTION_SIZE"

lemma parsing_mv_ok:
  assumes g: "grid_ok buf w h" and c: "is_parsing_init_ok c" "kernel_mv_data c = Mem k0" "length k0 = CAP_MOTION_SIZE"
    and dim: "k_mb_width c \<noteq> 0" "k_mb_height c \<noteq> 0" "sint (k_width c div k_mb_width c) = int w" "sint (k_height c div k_mb_height c) = int h"
  shows "\<exists>k. parsing_mv buf c = Some (0, c\<lparr>kernel_mv_data := Mem k\<rparr>) \<and> length k = CAP_MOTION_SIZE \<and>
    (\<forall>a < h. \<forall>b < w. k ! (a * w + b) = 0 \<longleftrightarrow> moved buf w h a b)"
proof -
  let ?z = "replicate CAP_MOTION_SIZE (0 :: byte)"
  obtain k1 where k1: "unpack_rows buf (int w) (int h) ?z = Some k1" "rows_done buf w h ?z k1"
    using unpack_rows_ok [of w h buf ?z] g by (auto simp: grid_ok_def)
  have len: "length k1 = CAP_MOTION_SIZE" using k1(2) by (simp add: rows_done_def)
  have "(h - 1) * w + w \<le> CAP_MOTION_SIZE" using g by (simp add: grid_ok_def) linarith
  then have room: "w * h \<le> length k1" using g len by (cases h) (simp_all add: grid_ok_def algebra_simps)
  have z: "set_at 0 ?z k0 = Some ?z" using c(3) by (simp add: set_at_def put_at_def)
  have "parsing_mv buf c = Some (0, c\<lparr>kernel_mv_data := Mem (clean w h k1)\<rparr>)"
    using c dim by (simp add: parsing_mv_def z k1(1) denoise_eq [OF room])
  moreover have "length (clean w h k1) = CAP_MOTION_SIZE" by (simp add: clean_def len)
  ultimately show ?thesis using clean_moved [OF k1(2) _ _ room] by blast
qed

section \<open>Counting\<close>

lemma each_count:
  assumes "\<forall>x \<in> set xs. 0 \<le> pos x \<and> pos x < int (length k)"
  shows "each (\<lambda>x cnt. map_option (\<lambda>v. (if v = 0 then fst cnt + 1 else fst cnt, snd cnt + 1)) (get_at k (pos x))) xs (c, n) =
    Some (c + int (length (filter (\<lambda>x. k ! nat (pos x) = 0) xs)), n + int (length xs))"
  using assms by (induction xs arbitrary: c n) (simp_all add: get_at_Some)

definition cells :: "int \<Rightarrow> int \<Rightarrow> int \<Rightarrow> int \<Rightarrow> (int \<times> int) list" where
  "cells sx ex sy ey = List.product [sy..ey] [sx..ex]"

lemma count_block_eq:
  assumes "\<forall>(a, b) \<in> set (cells sx ex sy ey). 0 \<le> a * mbw + b \<and> a * mbw + b < int (length k)"
  shows "count_block k mbw sx ex sy ey =
    Some (int (length (filter (\<lambda>(a, b). k ! nat (a * mbw + b) = 0) (cells sx ex sy ey))), int (length (cells sx ex sy ey)))"
proof -
  have "count_block k mbw sx ex sy ey =
      each (\<lambda>x cnt. map_option (\<lambda>v. (if v = 0 then fst cnt + 1 else fst cnt, snd cnt + 1))
        (get_at k ((\<lambda>(a, b). a * mbw + b) x))) (cells sx ex sy ey) (0, 0)"
    unfolding count_block_def each_nested cells_def case_prod_unfold count_at_def by (rule refl)
  also have "\<dots> = Some (int (length (filter (\<lambda>(a, b). k ! nat (a * mbw + b) = 0) (cells sx ex sy ey))), int (length (cells sx ex sy ey)))"
    by (subst each_count) (use assms in \<open>auto simp: case_prod_unfold\<close>)
  finally show ?thesis .
qed

lemma length_cells: "0 \<le> sx \<Longrightarrow> 0 \<le> sy \<Longrightarrow> ex < int w \<Longrightarrow> ey < int h \<Longrightarrow> length (cells sx ex sy ey) \<le> h * w"
  by (simp add: cells_def mult_mono)

lemma cell_pos:
  assumes "(a, b) \<in> set (cells sx ex sy ey)" "0 \<le> sx" "0 \<le> sy" "ex < int w" "ey < int h" "h * w \<le> n"
  shows "\<exists>a' b'. a = int a' \<and> b = int b' \<and> a' < h \<and> b' < w \<and> a * int w + b = int (a' * w + b') \<and> a' * w + b' < n"
proof -
  have ab: "0 \<le> a" "a < int h" "0 \<le> b" "b < int w" using assms by (auto simp: cells_def)
  then obtain a' b' where e: "a = int a'" "b = int b'" "a' < h" "b' < w" by (metis nonneg_int_cases of_nat_less_iff)
  have "Suc a' * w \<le> h * w" using e(3) by (intro mult_le_mono1) simp
  then show ?thesis using e assms(6) by auto
qed
section \<open>Blocks\<close>

text \<open>Block \<open>i\<close> of \<open>n\<close> covers these of \<open>m\<close> macroblocks.\<close>

definition first_mb :: "nat \<Rightarrow> nat \<Rightarrow> nat \<Rightarrow> nat" where
  "first_mb m n i = i * m div n"

definition last_mb :: "nat \<Rightarrow> nat \<Rightarrow> nat \<Rightarrow> nat" where
  "last_mb m n i = ((i + 1) * 32 - 1) * m div (32 * n)"

lemma unat_small: "x < 2 ^ 32 \<Longrightarrow> unat (word_of_nat x :: cuint) = x"
  by (simp add: unat_of_nat take_bit_nat_eq_self)

lemma sint_unat: "unat (v :: cuint) < 2 ^ 31 \<Longrightarrow> sint v = int (unat v)"
proof -
  assume v: "unat v < 2 ^ 31"
  have e: "uint v = int (unat v)" by simp
  have "uint v < 2 ^ 31" unfolding e using v by (metis of_nat_less_iff of_nat_numeral of_nat_power)
  then have "sint (word_of_int (uint v) :: cuint) = uint v" by (intro sint_of_int32) (use uint_ge_0 [of v] in \<open>unfold in_int32_def, linarith\<close>)
  then show ?thesis by (simp only: word_of_int_uint) (rule e)
qed

lemma word_div_nat:
  "x < 2 ^ 31 \<Longrightarrow> d < 2 ^ 31 \<Longrightarrow> sint ((word_of_nat x :: cuint) div word_of_nat d) = int (x div d)"
proof -
  assume x: "x < 2 ^ 31" and d: "d < 2 ^ 31"
  have u: "unat ((word_of_nat x :: cuint) div word_of_nat d) = x div d"
    using x d by (simp add: unat_div unat_small)
  moreover have "x div d < 2 ^ 31" using x by (meson div_le_dividend le_less_trans)
  ultimately show ?thesis by (simp add: sint_unat)
qed

lemma block_span_eq:
  assumes "0 < n" "n \<le> 128" "0 < m" "m * kmb \<le> 4096" "0 < kmb" "i < n"
  shows "block_span 32 (int (m * kmb)) (int (32 * n)) (int kmb) (int i) = Some (int (first_mb m n i), int (last_mb m n i))"
proof -
  let ?d = "32 * n * kmb" and ?k = "m * kmb"
  have kmb: "kmb \<le> 4096" using assms(3,4) by (cases m) simp_all
  have d: "0 < ?d" "?d < 2 ^ 31" using assms kmb mult_le_mono [of "32 * n" "32 * 128" kmb 4096] by simp_all
  have num: "i * 32 * ?k < 2 ^ 31" "((i + 1) * 32 - 1) * ?k < 2 ^ 31"
    using assms mult_le_mono [of "i * 32" "128 * 32" ?k 4096] mult_le_mono [of "(i + 1) * 32 - 1" "128 * 32" ?k 4096] by simp_all
  have w: "(word_of_int (int i) * 32) * word_of_int (int ?k) = (word_of_nat (i * 32 * ?k) :: cuint)"
    "(word_of_int (int i + 1) * 32 - 1) * word_of_int (int ?k) = (word_of_nat (((i + 1) * 32 - 1) * ?k) :: cuint)"
    by (simp_all add: of_nat_diff algebra_simps)
  have dw: "word_of_int (int (32 * n) * int kmb) = (word_of_nat ?d :: cuint)" by simp
  have nz: "(word_of_nat ?d :: cuint) \<noteq> 0"
  proof
    assume "(word_of_nat ?d :: cuint) = 0"
    then have "unat (word_of_nat ?d :: cuint) = 0" by (simp only: unat_0)
    moreover have "?d < 2 ^ 32" by (rule less_trans [OF d(2)]) simp
    ultimately show False using d(1) unat_small [of ?d] by linarith
  qed
  have div: "i * 32 * ?k div ?d = first_mb m n i" "((i + 1) * 32 - 1) * ?k div ?d = last_mb m n i"
  proof -
    have "i * 32 * ?k div ?d = (i * m) * (32 * kmb) div (n * (32 * kmb))" by (simp add: ac_simps)
    then show "i * 32 * ?k div ?d = first_mb m n i" using assms(5) by (simp add: first_mb_def)
    have "((i + 1) * 32 - 1) * ?k div ?d = (((i + 1) * 32 - 1) * m) * kmb div ((32 * n) * kmb)" by (simp add: ac_simps)
    then show "((i + 1) * 32 - 1) * ?k div ?d = last_mb m n i" using assms(5) by (simp only: last_mb_def div_mult_mult2)
  qed
  have "in_int32 (int (32 * n) * int kmb)" using d by (simp add: in_int32_def del: of_nat_mult flip: of_nat_mult)
  moreover have "sint ((word_of_nat (i * 32 * ?k) :: cuint) div word_of_nat ?d) = int (first_mb m n i)"
    "sint ((word_of_nat (((i + 1) * 32 - 1) * ?k) :: cuint) div word_of_nat ?d) = int (last_mb m n i)"
    unfolding word_div_nat [OF num(1) d(2)] word_div_nat [OF num(2) d(2)] div by (rule refl)+
  ultimately show ?thesis
    unfolding block_span_def dw w Let_def using nz by simp
qed

text \<open>Every macroblock is covered.\<close>

lemma last_mb_less: "0 < m \<Longrightarrow> 0 < n \<Longrightarrow> i < n \<Longrightarrow> last_mb m n i < m"
proof -
  assume "0 < m" "0 < n" "i < n"
  then have "((i + 1) * 32 - 1) * m < (32 * n) * m" by (intro mult_less_mono1) simp_all
  then show ?thesis by (simp only: last_mb_def less_mult_imp_div_less mult.commute)
qed

lemma covered:
  assumes "x < m" "m \<le> 32 * n"
  shows "\<exists>i < n. first_mb m n i \<le> x \<and> x \<le> last_mb m n i"
proof -
  define i where "i = ((x + 1) * n - 1) div m"
  have n: "0 < n" "0 < m" using assms by (cases n; simp)+
  have le: "(x + 1) * n \<le> m * n" using assms(1) by (intro mult_le_mono1) simp
  have pos: "0 < (x + 1) * n" using n by simp
  have lo: "i * m \<le> (x + 1) * n - 1" by (simp add: i_def)
  have hi: "(x + 1) * n \<le> (i + 1) * m"
    using dividend_less_times_div [OF n(2), of "(x + 1) * n - 1"] pos by (simp add: i_def algebra_simps)
  have "i * m < m * n" using lo le pos by linarith
  then have i: "i < n" using mult_le_mono1 [of n i m] by (intro not_le_imp_less notI) (simp add: mult.commute)
  have "first_mb m n i < x + 1"
    unfolding first_mb_def using lo pos by (intro less_mult_imp_div_less) linarith
  moreover have "x * (32 * n) \<le> ((i + 1) * 32 - 1) * m"
  proof -
    have "32 * (x * n + n) \<le> 32 * ((i + 1) * m)" using hi by (simp add: algebra_simps)
    moreover have "((i + 1) * 32 - 1) * m + m = 32 * ((i + 1) * m)" by (simp add: algebra_simps)
    ultimately show ?thesis using assms(2) by (simp add: algebra_simps)
  qed
  then have "x \<le> last_mb m n i" unfolding last_mb_def using n(1) by (simp add: less_eq_div_iff_mult_less_eq)
  ultimately show ?thesis using i by auto
qed

section \<open>The flags of a frame\<close>

text \<open>The share of the macroblocks of a block that moved, and of the blocks of a rectangle.\<close>

definition exceeds :: "(int \<times> int \<Rightarrow> bool) \<Rightarrow> (int \<times> int) list \<Rightarrow> int \<Rightarrow> bool" where
  "exceeds P cs limit \<longleftrightarrow> int (length (filter P cs)) * 100 > limit * int (length cs)"

definition block_cells :: "nat \<Rightarrow> nat \<Rightarrow> nat \<Rightarrow> nat \<Rightarrow> nat \<Rightarrow> nat \<Rightarrow> (int \<times> int) list" where
  "block_cells kw kh bw bh h w =
     cells (int (first_mb kw bw w)) (int (last_mb kw bw w)) (int (first_mb kh bh h)) (int (last_mb kh bh h))"

definition block_moved :: "byte list \<Rightarrow> nat \<Rightarrow> nat \<Rightarrow> nat \<Rightarrow> nat \<Rightarrow> nat \<Rightarrow> nat \<Rightarrow> nat \<Rightarrow> bool" where
  "block_moved buf kw kh bw bh sens h w \<longleftrightarrow>
     exceeds (\<lambda>(a, b). moved buf kw kh (nat a) (nat b)) (block_cells kw kh bw bh h w) (100 - int sens)"

definition matrix_ok :: "nat \<Rightarrow> nat \<Rightarrow> nat \<Rightarrow> nat \<Rightarrow> int list \<Rightarrow> bool" where
  "matrix_ok kw kh bw bh m \<longleftrightarrow> 4 * (bh * bw) \<le> length m \<and>
     (\<forall>h < bh. \<forall>w < bw. slice (4 * (h * bw + w)) 4 m =
        [int (first_mb kw bw w), int (last_mb kw bw w), int (first_mb kh bh h), int (last_mb kh bh h)])"

lemma index_less: "h < bh \<Longrightarrow> w < bw \<Longrightarrow> h * bw + w < bh * bw" for h :: nat
  using mult_le_mono1 [of "Suc h" bh bw] by simp

lemma index_inj: "h * bw + w = h' * bw + w' \<Longrightarrow> w < bw \<Longrightarrow> w' < bw \<Longrightarrow> h = h' \<and> w = w'" for h :: nat
proof -
  assume e: "h * bw + w = h' * bw + w'" and w: "w < bw" "w' < bw"
  have "(h * bw + w) div bw = h" "(h' * bw + w') div bw = h'" "(h * bw + w) mod bw = w" "(h' * bw + w') mod bw = w'" using w by simp_all
  then show ?thesis using e by metis
qed

text \<open>A pass over all blocks that sets a property of each and keeps that of the others.\<close>

lemma each_block:
  assumes step: "\<And>h w s. h < bh \<Longrightarrow> w < bw \<Longrightarrow> L s \<Longrightarrow>
      \<exists>s'. f (int h) (int w) s = Some s' \<and> L s' \<and> Q h w s' \<and> (\<forall>h' < bh. \<forall>w' < bw. (h', w') \<noteq> (h, w) \<longrightarrow> Q h' w' s \<longrightarrow> Q h' w' s')"
    and "L s"
  shows "\<exists>s'. each (\<lambda>h. each (f h) [0..int bw - 1]) [0..int bh - 1] s = Some s' \<and> L s' \<and> (\<forall>h < bh. \<forall>w < bw. Q h w s')"
proof -
  let ?P = "\<lambda>i s. L s \<and> (\<forall>h < bh. \<forall>w < bw. int h < i \<longrightarrow> Q h w s)"
  have "\<exists>s'. each (\<lambda>h. each (f h) [0..int bw - 1]) [0..int bh - 1] s = Some s' \<and> ?P (max 0 (int bh)) s'"
  proof (rule each_upto_rule)
    show "?P 0 s" using assms(2) by simp
    fix i s1
    assume i: "0 \<le> i" "i < int bh" and s1: "?P i s1"
    obtain h where h: "i = int h" "h < bh" using i by (metis nonneg_int_cases of_nat_less_iff)
    let ?R = "\<lambda>j s. ?P i s \<and> (\<forall>w < bw. int w < j \<longrightarrow> Q h w s)"
    have "\<exists>s'. each (f i) [0..int bw - 1] s1 = Some s' \<and> ?R (max 0 (int bw)) s'"
    proof (rule each_upto_rule)
      show "?R 0 s1" using s1 by simp
      fix j s2
      assume j: "0 \<le> j" "j < int bw" and s2: "?R j s2"
      obtain w where w: "j = int w" "w < bw" using j by (metis nonneg_int_cases of_nat_less_iff)
      obtain s3 where s3: "f i j s2 = Some s3" "L s3" "Q h w s3"
        "\<forall>h' < bh. \<forall>w' < bw. (h', w') \<noteq> (h, w) \<longrightarrow> Q h' w' s2 \<longrightarrow> Q h' w' s3"
        using step [OF h(2) w(2), of s2] s2 by (auto simp: h(1) w(1))
      have "?R (j + 1) s3"
      proof (intro conjI allI impI)
        show "L s3" by (rule s3(2))
        show "Q h' w' s3" if "h' < bh" "w' < bw" "int h' < i" for h' w'
          using that s2 s3(4) h(1) by auto
        show "Q h w' s3" if "w' < bw" "int w' < j + 1" for w'
        proof (cases "w' = w")
          case False
          then have "Q h w' s2" using that s2 w(1) by auto
          then show ?thesis using False that(1) h(2) s3(4) by auto
        qed (use s3(3) in simp)
      qed
      then show "\<exists>s'. f i j s2 = Some s' \<and> ?R (j + 1) s'" using s3(1) by blast
    qed
    then obtain s' where s': "each (f i) [0..int bw - 1] s1 = Some s'" "?R (int bw) s'" by auto
    then have "?P (i + 1) s'" using h(1) by (auto simp: le_less)
    then show "\<exists>s'. each (f i) [0..int bw - 1] s1 = Some s' \<and> ?P (i + 1) s'" using s'(1) by blast
  qed
  then show ?thesis by auto
qed

lemma build_matrix_ok:
  assumes c: "g_blk_w_num c = int bw" "g_blk_h_num c = int bh" "u_mb_width (md_alg c) = 32" "u_mb_height (md_alg c) = 32"
      "g_user_width c = int (32 * bw)" "g_user_height c = int (32 * bh)"
    and k: "sint (k_width c) = int (kw * mw)" "sint (k_mb_width c) = int mw" "sint (k_height c) = int (kh * mh)"
      "sint (k_mb_height c) = int mh"
    and sizes: "bw \<le> 128" "bh \<le> 128" "0 < kw" "0 < kh" "0 < mw" "0 < mh" "kw * mw \<le> 4096" "kh * mh \<le> 4096"
    and m: "4 * (bh * bw) \<le> length m"
  shows "\<exists>m'. build_matrix c m = Some m' \<and> matrix_ok kw kh bw bh m' \<and> length m' = length m"
proof -
  let ?L = "\<lambda>m' :: int list. length m' = length m"
  let ?e = "\<lambda>h w. [int (first_mb kw bw w), int (last_mb kw bw w), int (first_mb kh bh h), int (last_mb kh bh h)]"
  let ?Q = "\<lambda>h w m'. slice (4 * (h * bw + w)) 4 m' = ?e h w"
  have "\<exists>m'. each (\<lambda>h. each (matrix_at c h) [0..int bw - 1]) [0..int bh - 1] m = Some m' \<and> ?L m' \<and> (\<forall>h < bh. \<forall>w < bw. ?Q h w m')"
  proof (rule each_block)
    fix h w m1
    assume h: "h < bh" and w: "w < bw" and m1: "?L m1"
    have spans: "block_span (u_mb_width (md_alg c)) (sint (k_width c)) (g_user_width c) (sint (k_mb_width c)) (int w) =
        Some (int (first_mb kw bw w), int (last_mb kw bw w))"
      "block_span (u_mb_height (md_alg c)) (sint (k_height c)) (g_user_height c) (sint (k_mb_height c)) (int h) =
        Some (int (first_mb kh bh h), int (last_mb kh bh h))"
      unfolding c k using block_span_eq [of bw kw mw w] block_span_eq [of bh kh mh h] sizes h w by simp_all
    let ?p = "4 * (h * bw + w)"
    have p: "?p + length (?e h w) \<le> length m1" using index_less [OF h w] m m1 by simp
    have pos: "(int h * g_blk_w_num c + int w) * 4 = int ?p" by (simp add: c(1))
    have "matrix_at c (int h) (int w) m1 = Some (put_at ?p (?e h w) m1)"
      unfolding matrix_at_def spans option.case prod.case pos by (rule set_at_int [OF p])
    moreover have "?Q h w (put_at ?p (?e h w) m1)" by (rule slice_put_at_same [OF p]) simp
    moreover have "?Q h' w' (put_at ?p (?e h w) m1)" if "h' < bh" "w' < bw" "(h', w') \<noteq> (h, w)" "?Q h' w' m1" for h' w'
    proof -
      have "h' * bw + w' \<noteq> h * bw + w" using index_inj [of h' bw w' h w] that w by auto
      then have "?p + 4 \<le> 4 * (h' * bw + w') \<or> 4 * (h' * bw + w') + 4 \<le> ?p" by arith
      then show ?thesis
        using that(4) slice_put_at_disjoint [of "4 * (h' * bw + w')" 4 ?p "?e h w" m1] p by auto
    qed
    ultimately show "\<exists>s'. matrix_at c (int h) (int w) m1 = Some s' \<and> ?L s' \<and> ?Q h w s' \<and>
        (\<forall>h' < bh. \<forall>w' < bw. (h', w') \<noteq> (h, w) \<longrightarrow> ?Q h' w' m1 \<longrightarrow> ?Q h' w' s')"
      using m1 p by (auto simp: length_put_at)
  qed simp
  then show ?thesis using m by (auto simp: build_matrix_def c matrix_ok_def)
qed

text \<open>The unsigned comparison of the code, where the numbers are small.\<close>

lemma unsigned_exceeds:
  assumes "0 \<le> cnt" "cnt \<le> num" "num \<le> 4096" "unat sens \<le> 100"
  shows "(word_of_int (cnt * 100) :: cuint) > (100 - sens) * word_of_int num \<longleftrightarrow> cnt * 100 > (100 - int (unat sens)) * num"
proof -
  obtain c n where cn: "cnt = int c" "num = int n" using assms(1,2) by (metis nonneg_int_cases order_trans)
  have s: "sens = word_of_nat (unat sens)" by simp
  have l: "unat (word_of_int (cnt * 100) :: cuint) = c * 100"
  proof -
    have "(word_of_int (cnt * 100) :: cuint) = word_of_nat (c * 100)" by (simp add: cn)
    then show ?thesis using unat_small [of "c * 100"] assms cn by simp
  qed
  have "(100 - sens) * word_of_int num = (word_of_nat ((100 - unat sens) * n) :: cuint)"
    using assms(4) by (subst s) (simp add: cn of_nat_diff)
  moreover have "(100 - unat sens) * n \<le> 100 * 4096" using assms cn by (intro mult_le_mono) simp_all
  ultimately have r: "unat ((100 - sens) * word_of_int num) = (100 - unat sens) * n"
    using unat_small [of "(100 - unat sens) * n"] by simp
  have e: "(100 - int (unat sens)) * num = int ((100 - unat sens) * n)" "cnt * 100 = int (c * 100)"
    using assms(4) by (simp_all add: cn of_nat_diff)
  show ?thesis unfolding word_less_nat_alt l r unfolding e of_nat_less_iff by (rule refl)
qed

lemma in_entry: "q < n \<Longrightarrow> 4 * n \<le> l \<Longrightarrow> j < 4 \<Longrightarrow> 4 * q + j < (l :: nat)" by linarith

lemma less4: "(2 :: nat) < 4" "(3 :: nat) < 4" "(1 :: nat) < 4" by simp_all

lemma flag_at_ok:
  assumes m: "matrix_ok kw kh bw bh m" and k: "\<forall>a < kh. \<forall>b < kw. k ! (a * kw + b) = 0 \<longleftrightarrow> moved buf kw kh a b"
    and sizes: "0 < kw" "0 < kh" "kh * kw \<le> length k" "kh * kw \<le> 4096" "unat sens \<le> 100"
    and hw: "h < bh" "w < bw" and fl: "bh * bw \<le> length (fst s)"
  shows "\<exists>n. flag_at sens m k (int bw) (int kw) (int h) (int w) s =
    Some ((fst s)[h * bw + w := if block_moved buf kw kh bw bh (unat sens) h w then 0 else 1], n)"
proof -
  let ?p = "h * bw + w" and ?cs = "block_cells kw kh bw bh h w"
  have p: "?p < bh * bw" by (rule index_less [OF hw])
  have sl: "slice (4 * ?p) 4 m = [int (first_mb kw bw w), int (last_mb kw bw w), int (first_mb kh bh h), int (last_mb kh bh h)]"
    and len: "4 * (bh * bw) \<le> length m" using m hw by (auto simp: matrix_ok_def)
  have nth: "m ! (4 * ?p + j) = slice (4 * ?p) 4 m ! j" if "j < 4" for j using that len p by (simp add: slice_def)
  have gets: "get_at m (int (4 * ?p + j)) = Some (slice (4 * ?p) 4 m ! j)" if "j < 4" for j
    unfolding nth [OF that, symmetric] by (rule get_at_int) (rule in_entry [OF p len that])
  have lt: "last_mb kw bw w < kw" "last_mb kh bh h < kh" using last_mb_less sizes hw by auto
  have ps: "4 * (int h * int bw + int w) = int (4 * ?p + 0)" "4 * (int h * int bw + int w) + 1 = int (4 * ?p + 1)"
    "4 * (int h * int bw + int w) + 2 = int (4 * ?p + 2)" "4 * (int h * int bw + int w) + 3 = int (4 * ?p + 3)"
    "int h * int bw + int w = int ?p" by simp_all
  have cell: "\<exists>a' b'. a = int a' \<and> b = int b' \<and> a' < kh \<and> b' < kw \<and> a * int kw + b = int (a' * kw + b') \<and> a' * kw + b' < length k"
    if "(a, b) \<in> set ?cs" for a b
    by (rule cell_pos [OF that [unfolded block_cells_def]]) (use lt sizes in simp_all)
  have cnt: "count_block k (int kw) (int (first_mb kw bw w)) (int (last_mb kw bw w)) (int (first_mb kh bh h)) (int (last_mb kh bh h)) =
      Some (int (length (filter (\<lambda>(a, b). moved buf kw kh (nat a) (nat b)) ?cs)), int (length ?cs))"
  proof -
    have "filter (\<lambda>(a, b). k ! nat (a * int kw + b) = 0) ?cs = filter (\<lambda>(a, b). moved buf kw kh (nat a) (nat b)) ?cs"
    proof (rule filter_cong [OF refl])
      fix x assume "x \<in> set ?cs"
      obtain a0 b0 where x: "x = (a0, b0)" by (cases x)
      then obtain a b where "x = (int a, int b)" "a < kh" "b < kw" "int a * int kw + int b = int (a * kw + b)"
        using cell [of a0 b0] \<open>x \<in> set ?cs\<close> by blast
      then show "(case x of (a, b) \<Rightarrow> k ! nat (a * int kw + b) = 0) = (case x of (a, b) \<Rightarrow> moved buf kw kh (nat a) (nat b))"
        using k by (simp only: prod.case nat_int)
    qed
    moreover have "\<forall>(a, b) \<in> set ?cs. 0 \<le> a * int kw + b \<and> a * int kw + b < int (length k)"
    proof
      fix x assume x: "x \<in> set ?cs"
      obtain a b where ab: "x = (a, b)" by (cases x)
      then obtain n where "a * int kw + b = int n" "n < length k" using x cell [of a b] by blast
      then show "case x of (a, b) \<Rightarrow> 0 \<le> a * int kw + b \<and> a * int kw + b < int (length k)"
        unfolding ab prod.case by simp
    qed
    ultimately show ?thesis using count_block_eq [of "int (first_mb kw bw w)" "int (last_mb kw bw w)" "int (first_mb kh bh h)"
        "int (last_mb kh bh h)" "int kw" k] by (simp add: block_cells_def)
  qed
  have n: "length ?cs \<le> 4096"
    using length_cells [of "int (first_mb kw bw w)" "int (first_mb kh bh h)" "int (last_mb kw bw w)" kw "int (last_mb kh bh h)" kh] lt sizes
    by (simp add: block_cells_def)
  have fn: "length (filter (\<lambda>(a, b). moved buf kw kh (nat a) (nat b)) ?cs) \<le> length ?cs" by (rule length_filter_le)
  have up: "set_at (int h * int bw + int w) [v] (fst s) = Some ((fst s)[?p := v])" for v
    unfolding ps(5) using set_at_int [of ?p "[v]" "fst s"] p fl by (simp add: put_at_one)
  have read1: "get_at m (4 * (int h * int bw + int w)) = Some (int (first_mb kw bw w))"
    unfolding ps(1) gets [of 0, OF zero_less_numeral] sl by simp
  have read2: "get_at m (4 * (int h * int bw + int w) + 1) = Some (int (last_mb kw bw w))"
    unfolding ps(2) gets [of 1, OF less4(3)] sl by simp
  have read3: "get_at m (4 * (int h * int bw + int w) + 2) = Some (int (first_mb kh bh h))"
    unfolding ps(3) gets [of 2, OF less4(1)] sl by simp
  have read4: "get_at m (4 * (int h * int bw + int w) + 3) = Some (int (last_mb kh bh h))"
    unfolding ps(4) gets [of 3, OF less4(2)] sl by simp
  have ex: "(word_of_int (int (length (filter (\<lambda>(a, b). moved buf kw kh (nat a) (nat b)) ?cs)) * 100) :: cuint) >
      (100 - sens) * word_of_int (int (length ?cs)) \<longleftrightarrow> block_moved buf kw kh bw bh (unat sens) h w"
    using unsigned_exceeds [of "int (length (filter (\<lambda>(a, b). moved buf kw kh (nat a) (nat b)) ?cs))" "int (length ?cs)" sens] n fn sizes(5)
    by (simp only: block_moved_def exceeds_def)
  show ?thesis
    unfolding flag_at_def Let_def read1 read2 read3 read4 option.case prod.case cnt ex up by simp
qed

text \<open>The memory of a channel for \<open>bw\<close> by \<open>bh\<close> blocks.\<close>

definition chan_ok :: "nat \<Rightarrow> nat \<Rightarrow> md_chan \<Rightarrow> bool" where
  "chan_ok bw bh c \<longleftrightarrow> 0 < bw \<and> bw \<le> 128 \<and> 0 < bh \<and> bh \<le> 128 \<and> cap_motion_init_ok c \<and> is_parsing_init_ok c \<and>
     u_mb_width (md_alg c) = 32 \<and> u_mb_height (md_alg c) = 32 \<and>
     mb_w_num (md_alg c) = of_nat bw \<and> mb_h_num (md_alg c) = of_nat bh \<and>
     (u_width (md_alg c) + 31) div 32 = of_nat bw \<and> unat (sensitive_th (md_alg c)) \<le> 100 \<and>
     (\<exists>k m fl. kernel_mv_data c = Mem k \<and> length k = CAP_MOTION_SIZE \<and> transform_matrix c = Mem m \<and> 4 * (bh * bw) \<le> length m \<and>
        active_flag c = Mem fl \<and> bh * bw \<le> length fl)"

text \<open>The dimensions of the data are those of \<open>kw\<close> by \<open>kh\<close> macroblocks.\<close>

definition dims_ok :: "nat \<Rightarrow> nat \<Rightarrow> md_chan \<Rightarrow> bool" where
  "dims_ok kw kh c \<longleftrightarrow> 0 < kw \<and> 0 < kh \<and> 0 < k_mb_width c \<and> 0 < k_mb_height c \<and>
     unat (k_width c) = kw * unat (k_mb_width c) \<and> unat (k_height c) = kh * unat (k_mb_height c) \<and>
     unat (k_width c) \<le> 4096 \<and> unat (k_height c) \<le> 4096"

text \<open>The table of the blocks has been built.\<close>

definition trained :: "nat \<Rightarrow> nat \<Rightarrow> nat \<Rightarrow> nat \<Rightarrow> md_chan \<Rightarrow> bool" where
  "trained kw kh bw bh c \<longleftrightarrow> g_blk_w_num c = int bw \<and> g_blk_h_num c = int bh \<and> g_mb_w_num c = int kw \<and>
     (\<exists>m. transform_matrix c = Mem m \<and> matrix_ok kw kh bw bh m)"

lemma sint_small: "x \<le> 4096 \<Longrightarrow> sint (word_of_nat x :: cuint) = int x"
  by (simp add: sint_unat unat_small)

lemma dims_sint:
  assumes "dims_ok kw kh c"
  shows "sint (k_width c) = int (kw * unat (k_mb_width c))" "sint (k_mb_width c) = int (unat (k_mb_width c))"
    "sint (k_height c) = int (kh * unat (k_mb_height c))" "sint (k_mb_height c) = int (unat (k_mb_height c))"
    "sint (k_width c div k_mb_width c) = int kw" "sint (k_height c div k_mb_height c) = int kh"
    "0 < unat (k_mb_width c)" "0 < unat (k_mb_height c)"
proof -
  have a: "unat (k_width c) = kw * unat (k_mb_width c)" "unat (k_height c) = kh * unat (k_mb_height c)"
    "unat (k_width c) \<le> 4096" "unat (k_height c) \<le> 4096" and pos: "0 < kw" "0 < kh"
    using assms by (simp_all add: dims_ok_def)
  show mb: "0 < unat (k_mb_width c)" "0 < unat (k_mb_height c)"
    using assms by (simp_all add: dims_ok_def word_less_nat_alt)
  have le: "unat (k_mb_width c) \<le> 4096" "unat (k_mb_height c) \<le> 4096" "kw \<le> 4096" "kh \<le> 4096"
    using a pos mb by (metis dual_order.trans mult.commute mult_le_mono1 nat_mult_1 Suc_leI One_nat_def)+
  show "sint (k_width c) = int (kw * unat (k_mb_width c))" "sint (k_height c) = int (kh * unat (k_mb_height c))"
    using a sint_unat [of "k_width c"] sint_unat [of "k_height c"] by simp_all
  show "sint (k_mb_width c) = int (unat (k_mb_width c))" "sint (k_mb_height c) = int (unat (k_mb_height c))"
    using le by (simp_all add: sint_unat)
  have "unat (k_width c div k_mb_width c) = kw" "unat (k_height c div k_mb_height c) = kh" using a mb by (simp_all add: unat_div)
  then show "sint (k_width c div k_mb_width c) = int kw" "sint (k_height c div k_mb_height c) = int kh"
    using le by (simp_all add: sint_unat)
qed

definition flags_ok :: "byte list \<Rightarrow> nat \<Rightarrow> nat \<Rightarrow> nat \<Rightarrow> nat \<Rightarrow> nat \<Rightarrow> byte list \<Rightarrow> bool" where
  "flags_ok buf kw kh bw bh sens fl \<longleftrightarrow> bh * bw \<le> length fl \<and>
     (\<forall>h < bh. \<forall>w < bw. fl ! (h * bw + w) = 0 \<longleftrightarrow> block_moved buf kw kh bw bh sens h w)"

lemma flags_all:
  assumes m: "matrix_ok kw kh bw bh m" and k: "\<forall>a < kh. \<forall>b < kw. k ! (a * kw + b) = 0 \<longleftrightarrow> moved buf kw kh a b"
    and sizes: "0 < kw" "0 < kh" "kh * kw \<le> length k" "kh * kw \<le> 4096" "unat sens \<le> 100" "bh * bw \<le> length fl"
  shows "\<exists>fl' n. each (\<lambda>h. each (flag_at sens m k (int bw) (int kw) h) [0..int bw - 1]) [0..int bh - 1] (fl, n0) = Some (fl', n) \<and>
    flags_ok buf kw kh bw bh (unat sens) fl'"
proof -
  let ?L = "\<lambda>s :: byte list \<times> cuint. bh * bw \<le> length (fst s)"
  let ?Q = "\<lambda>h w (s :: byte list \<times> cuint). fst s ! (h * bw + w) = 0 \<longleftrightarrow> block_moved buf kw kh bw bh (unat sens) h w"
  have "\<exists>s'. each (\<lambda>h. each (flag_at sens m k (int bw) (int kw) h) [0..int bw - 1]) [0..int bh - 1] (fl, n0) = Some s' \<and> ?L s' \<and>
      (\<forall>h < bh. \<forall>w < bw. ?Q h w s')"
  proof (rule each_block)
    fix h w s
    assume hw: "h < bh" "w < bw" and L: "?L s"
    obtain n where s': "flag_at sens m k (int bw) (int kw) (int h) (int w) s =
        Some ((fst s)[h * bw + w := if block_moved buf kw kh bw bh (unat sens) h w then 0 else 1], n)"
      using flag_at_ok [OF m k sizes(1-5) hw L] by blast
    have "h * bw + w \<noteq> h' * bw + w'" if "w' < bw" "h' = h \<longrightarrow> w' \<noteq> w" for h' w'
      using index_inj [of h bw w h' w'] that hw by auto
    then show "\<exists>s'. flag_at sens m k (int bw) (int kw) (int h) (int w) s = Some s' \<and> ?L s' \<and> ?Q h w s' \<and>
        (\<forall>h' < bh. \<forall>w' < bw. (h', w') \<noteq> (h, w) \<longrightarrow> ?Q h' w' s \<longrightarrow> ?Q h' w' s')"
      using s' index_less [OF hw] L by (auto simp: nth_list_update)
  qed (use sizes in simp)
  then show ?thesis by (auto simp: flags_ok_def)
qed

text \<open>What a frame keeps of a channel.\<close>

definition same_setup :: "md_chan \<Rightarrow> md_chan \<Rightarrow> bool" where
  "same_setup c c' \<longleftrightarrow> md_alg c' = md_alg c \<and> k_width c' = k_width c \<and> k_height c' = k_height c \<and>
     k_mb_width c' = k_mb_width c \<and> k_mb_height c' = k_mb_height c"

lemma block_sizes:
  assumes "chan_ok bw bh c"
  shows "sint (mb_w_num (md_alg c)) = int bw" "sint (mb_h_num (md_alg c)) = int bh"
    "sint (mb_w_num (md_alg c) * u_mb_width (md_alg c)) = int (32 * bw)"
    "sint (mb_h_num (md_alg c) * u_mb_height (md_alg c)) = int (32 * bh)"
proof -
  have e: "mb_w_num (md_alg c) = of_nat bw" "mb_h_num (md_alg c) = of_nat bh" "u_mb_width (md_alg c) = 32" "u_mb_height (md_alg c) = 32"
    and le: "bw \<le> 128" "bh \<le> 128" using assms by (simp_all add: chan_ok_def)
  show "sint (mb_w_num (md_alg c)) = int bw" "sint (mb_h_num (md_alg c)) = int bh" using e le by (simp_all add: sint_small)
  have "mb_w_num (md_alg c) * u_mb_width (md_alg c) = word_of_nat (32 * bw)"
    "mb_h_num (md_alg c) * u_mb_height (md_alg c) = word_of_nat (32 * bh)" unfolding e by simp_all
  then show "sint (mb_w_num (md_alg c) * u_mb_width (md_alg c)) = int (32 * bw)"
    "sint (mb_h_num (md_alg c) * u_mb_height (md_alg c)) = int (32 * bh)"
    using le sint_small [of "32 * bw"] sint_small [of "32 * bh"] by simp_all
qed

lemma cdiv_mult: "0 < m \<Longrightarrow> cdiv (int (n * m)) (int m) = int n"
  by (simp add: cdiv_nonneg)

lemma transform_ok:
  assumes c: "chan_ok bw bh c" "dims_ok kw kh c" and t: "md_frame_count (md_alg c) = 0 \<or> trained kw kh bw bh c"
    and k: "kernel_mv_data c = Mem k" "length k = CAP_MOTION_SIZE" "\<forall>a < kh. \<forall>b < kw. k ! (a * kw + b) = 0 \<longleftrightarrow> moved buf kw kh a b"
    and room: "kh * kw \<le> CAP_MOTION_SIZE"
  shows "\<exists>c' fl. transform c = Some (0, c') \<and> chan_ok bw bh c' \<and> trained kw kh bw bh c' \<and> same_setup c c' \<and>
    active_flag c' = Mem fl \<and> flags_ok buf kw kh bw bh (unat (sensitive_th (md_alg c))) fl"
proof -
  let ?al = "md_alg c" and ?mw = "unat (k_mb_width c)" and ?mh = "unat (k_mb_height c)"
  obtain m fl where mf: "transform_matrix c = Mem m" "4 * (bh * bw) \<le> length m" "active_flag c = Mem fl" "bh * bw \<le> length fl"
    using c(1) by (auto simp: chan_ok_def)
  have pi: "is_parsing_init_ok c" and sens: "unat (sensitive_th ?al) \<le> 100" and b128: "bw \<le> 128" "bh \<le> 128"
    and ub: "u_mb_width ?al = 32" "u_mb_height ?al = 32" using c(1) by (simp_all add: chan_ok_def)
  note us = block_sizes [OF c(1)] and ds = dims_sint [OF c(2)]
  have nz: "k_mb_width c \<noteq> 0" "k_mb_height c \<noteq> 0" and pos: "0 < kw" "0 < kh" and le: "kw * ?mw \<le> 4096" "kh * ?mh \<le> 4096"
    using c(2) by (auto simp: dims_ok_def)
  define c2 where "c2 = (if md_frame_count ?al = 0
     then c\<lparr>g_blk_w_num := int bw, g_blk_h_num := int bh, g_user_width := int (32 * bw), g_user_height := int (32 * bh),
            g_mb_w_num := int kw, g_mb_h_num := int kh\<rparr> else c)"
  have cd: "cdiv (sint (k_width c)) (sint (k_mb_width c)) = int kw" "cdiv (sint (k_height c)) (sint (k_mb_height c)) = int kh"
    unfolding ds by (rule cdiv_mult, rule ds)+
  have g: "g_blk_w_num c2 = int bw" "g_blk_h_num c2 = int bh" "g_mb_w_num c2 = int kw"
    using t by (auto simp: c2_def trained_def)
  have same: "md_alg c2 = ?al" "k_width c2 = k_width c" "k_height c2 = k_height c" "k_mb_width c2 = k_mb_width c"
    "k_mb_height c2 = k_mb_height c" "kernel_mv_data c2 = Mem k" "active_flag c2 = Mem fl" "is_parsing_init_ok c2 = is_parsing_init_ok c"
    "cap_motion_init_ok c2 = cap_motion_init_ok c"
    by (simp_all add: c2_def k mf)
  obtain m' where m': "(if md_frame_count ?al = 0 then build_matrix c2 m else Some m) = Some m'" "matrix_ok kw kh bw bh m'"
    "4 * (bh * bw) \<le> length m'"
  proof (cases "md_frame_count ?al = 0")
    case True
    have gu: "g_user_width c2 = int (32 * bw)" "g_user_height c2 = int (32 * bh)" using True by (simp_all add: c2_def)
    have "\<exists>m'. build_matrix c2 m = Some m' \<and> matrix_ok kw kh bw bh m' \<and> length m' = length m"
      by (rule build_matrix_ok [where mw = ?mw and mh = ?mh]) (use same us ds ub b128 pos le mf gu g in \<open>simp_all\<close>)
    then show ?thesis using True mf that by auto
  next
    case False
    then have "matrix_ok kw kh bw bh m" using t mf by (auto simp: trained_def)
    then show ?thesis using False mf that by auto
  qed
  obtain fl' n where fl': "each (\<lambda>h. each (flag_at (sensitive_th ?al) m' k (int bw) (int kw) h) [0..int bw - 1]) [0..int bh - 1]
      (fl, active_num c2) = Some (fl', n)" "flags_ok buf kw kh bw bh (unat (sensitive_th ?al)) fl'"
    using flags_all [OF m'(2) k(3) pos _ _ sens mf(4), of "active_num c2"] k(2) room by (auto simp: CAP_MOTION_SIZE_def)
  let ?c' = "c2\<lparr>transform_matrix := Mem m', active_flag := Mem fl', active_num := n\<rparr>"
  have tr: "transform c = Some (0, ?c')"
  proof (cases "md_frame_count ?al = 0")
    case True
    have c2: "c\<lparr>g_blk_w_num := int bw, g_blk_h_num := int bh, g_user_width := int (32 * bw), g_user_height := int (32 * bh),
        g_mb_w_num := int kw, g_mb_h_num := int kh\<rparr> = c2" using True by (simp add: c2_def)
    have "build_matrix c2 m = Some m'" using m'(1) True by simp
    then show ?thesis using fl'(1) by (simp del: of_nat_mult add: transform_def Let_def pi mf(1) nz us cd True c2 same g)
  next
    case False
    then have c2: "c2 = c" and m: "m' = m" using m'(1) by (simp_all add: c2_def)
    show ?thesis using fl'(1) g same(6,7) False by (simp add: transform_def Let_def pi mf(1) c2 m)
  qed
  have "chan_ok bw bh ?c'" using c(1) k m'(3) fl'(2) by (simp add: chan_ok_def same flags_ok_def)
  moreover have "trained kw kh bw bh ?c'" using g m'(2) by (simp add: trained_def)
  moreover have "same_setup c ?c'" using same by (simp add: same_setup_def)
  ultimately show ?thesis using tr fl'(2) by (intro exI [of _ ?c'] exI [of _ fl']) simp
qed

lemma same_setup_trans: "same_setup c d \<Longrightarrow> same_setup d e \<Longrightarrow> same_setup c e"
  by (simp add: same_setup_def)

lemma parsing_mv_data_ok:
  assumes c: "chan_ok bw bh c" "dims_ok kw kh c" and t: "md_frame_count (md_alg c) = 0 \<or> trained kw kh bw bh c"
    and buf: "grid_ok buf kw kh"
  shows "\<exists>c' fl. parsing_mv_data buf c = Some (0, c') \<and> chan_ok bw bh c' \<and> trained kw kh bw bh c' \<and> same_setup c c' \<and>
    active_flag c' = Mem fl \<and> flags_ok buf kw kh bw bh (unat (sensitive_th (md_alg c))) fl"
proof -
  obtain k0 where k0: "kernel_mv_data c = Mem k0" "length k0 = CAP_MOTION_SIZE" and pi: "is_parsing_init_ok c"
    using c(1) by (auto simp: chan_ok_def)
  have nz: "k_mb_width c \<noteq> 0" "k_mb_height c \<noteq> 0" using c(2) by (auto simp: dims_ok_def)
  obtain k where k: "parsing_mv buf c = Some (0, c\<lparr>kernel_mv_data := Mem k\<rparr>)" "length k = CAP_MOTION_SIZE"
    "\<forall>a < kh. \<forall>b < kw. k ! (a * kw + b) = 0 \<longleftrightarrow> moved buf kw kh a b"
    using parsing_mv_ok [OF buf pi k0 nz dims_sint(5,6) [OF c(2)]] by blast
  let ?c = "c\<lparr>kernel_mv_data := Mem k\<rparr>"
  have same: "same_setup c ?c" by (simp add: same_setup_def)
  have c': "chan_ok bw bh ?c" "dims_ok kw kh ?c" "md_frame_count (md_alg ?c) = 0 \<or> trained kw kh bw bh ?c"
    using c t k(2) by (auto simp: chan_ok_def dims_ok_def trained_def)
  have "(kh - 1) * kw + kw \<le> CAP_MOTION_SIZE" using buf by (simp add: grid_ok_def) linarith
  then have room: "kh * kw \<le> CAP_MOTION_SIZE" using buf by (cases kh) (simp_all add: grid_ok_def algebra_simps)
  obtain c2 fl where c2: "transform ?c = Some (0, c2)" "chan_ok bw bh c2" "trained kw kh bw bh c2" "same_setup ?c c2"
    "active_flag c2 = Mem fl" "flags_ok buf kw kh bw bh (unat (sensitive_th (md_alg c))) fl"
    using transform_ok [OF c' _ k(2,3) room] by auto
  have "parsing_mv_data buf c = Some (0, c2)" by (simp add: parsing_mv_data_def k(1) c2(1))
  then show ?thesis using c2 same_setup_trans [OF same c2(4)] by blast
qed

text \<open>The noise filter works in place, and still gives what it would if all macroblocks were judged on the data as it
  came: changing one never changes the verdict on another.\<close>

theorem noise_filter_order_free:
  assumes "w * h \<le> length k"
  shows "denoise (int w) (int h) k = Some (List.map (\<lambda>p. if inner w h p \<and> noisy w k p then 1 else k ! p) [0..<length k])"
  using denoise_eq [OF assms] by (simp only: clean_def)

theorem noise_filter_order_free_witness:
  "denoise (int 3) (int 3) [1, 2, 1, 1, 0, 1, 1, 3, 0] = Some [1, 2, 1, 1, 1, 1, 1, 3, 0]"
  by (subst noise_filter_order_free) (simp, simp add: inner_def noisy_def upt_rec)

end
