(* ===== verification/MotionFacts.thy ===== *)
theory MotionFacts
  imports MotionData
begin

text \<open>
  What the decision of a frame promises (\<^verbatim>\<open>do_capture_motion\<close> and below): a region raises its alarm exactly when
  enough of its blocks moved, no frame of the right form fails, and the detection is ready after 16 frames. At the end
  the channel and the frame on which the properties are tried.
\<close>

section \<open>The regions\<close>

text \<open>A region that is off, or lies inside the picture.\<close>

definition region_ok :: "nat \<Rightarrow> nat \<Rightarrow> mdt_reg \<Rightarrow> bool" where
  "region_ok bw bh r \<longleftrightarrow> start_block_x r = -1 \<or>
     0 \<le> start_block_x r \<and> 0 \<le> start_block_y r \<and> end_block_x r < int bw \<and> end_block_y r < int bh"

definition region_cells :: "mdt_reg \<Rightarrow> (int \<times> int) list" where
  "region_cells r = cells (start_block_x r) (end_block_x r) (start_block_y r) (end_block_y r)"

definition region_moved :: "byte list \<Rightarrow> nat \<Rightarrow> nat \<Rightarrow> nat \<Rightarrow> nat \<Rightarrow> nat \<Rightarrow> mdt_reg \<Rightarrow> bool" where
  "region_moved buf kw kh bw bh sens r \<longleftrightarrow>
     exceeds (\<lambda>(h, w). block_moved buf kw kh bw bh sens (nat h) (nat w)) (region_cells r) (100 - alarm_th r)"

text \<open>The alarm that a region gets.\<close>

definition decided :: "byte list \<Rightarrow> nat \<Rightarrow> nat \<Rightarrow> nat \<Rightarrow> nat \<Rightarrow> nat \<Rightarrow> mdt_reg \<Rightarrow> mdt_reg" where
  "decided buf kw kh bw bh sens r =
     (if start_block_x r = -1 then r
      else r\<lparr>reg_alarm := if region_moved buf kw kh bw bh sens r then MOTION_DETECTED else NO_MOTION\<rparr>)"

lemma count_flag_is: "count_flag = count_at"
  by (intro ext) (simp add: count_flag_def)

lemma region_counts_eq:
  assumes fl: "flags_ok buf kw kh bw bh sens fl" and r: "region_ok bw bh r" "start_block_x r \<noteq> -1"
  shows "region_counts fl (int bw) r =
    Some (int (length (filter (\<lambda>(h, w). block_moved buf kw kh bw bh sens (nat h) (nat w)) (region_cells r))), int (length (region_cells r)))"
proof -
  have rc: "region_counts fl (int bw) r = count_block fl (int bw) (start_block_x r) (end_block_x r) (start_block_y r) (end_block_y r)"
    unfolding region_counts_def count_block_def count_flag_is by (rule refl)
  have bd: "0 \<le> start_block_x r" "0 \<le> start_block_y r" "end_block_x r < int bw" "end_block_y r < int bh"
    using r by (auto simp: region_ok_def)
  have len: "bh * bw \<le> length fl" using fl by (simp add: flags_ok_def)
  have cell: "\<exists>a' b'. a = int a' \<and> b = int b' \<and> a' < bh \<and> b' < bw \<and> a * int bw + b = int (a' * bw + b') \<and> a' * bw + b' < length fl"
    if "(a, b) \<in> set (region_cells r)" for a b
    by (rule cell_pos [OF that [unfolded region_cells_def] bd len])
  have "filter (\<lambda>(a, b). fl ! nat (a * int bw + b) = 0) (region_cells r) =
      filter (\<lambda>(h, w). block_moved buf kw kh bw bh sens (nat h) (nat w)) (region_cells r)"
  proof (rule filter_cong [OF refl])
    fix x assume x: "x \<in> set (region_cells r)"
    obtain a0 b0 where ab: "x = (a0, b0)" by (cases x)
    then obtain a b where e: "x = (int a, int b)" "a < bh" "b < bw" "int a * int bw + int b = int (a * bw + b)"
      using cell [of a0 b0] x by blast
    then show "(case x of (a, b) \<Rightarrow> fl ! nat (a * int bw + b) = 0) = (case x of (h, w) \<Rightarrow> block_moved buf kw kh bw bh sens (nat h) (nat w))"
      using fl by (simp only: prod.case nat_int flags_ok_def)
  qed
  moreover have "\<forall>(a, b) \<in> set (region_cells r). 0 \<le> a * int bw + b \<and> a * int bw + b < int (length fl)"
  proof
    fix x assume x: "x \<in> set (region_cells r)"
    obtain a b where ab: "x = (a, b)" by (cases x)
    then obtain n where "a * int bw + b = int n" "n < length fl" using x cell [of a b] by blast
    then show "case x of (a, b) \<Rightarrow> 0 \<le> a * int bw + b \<and> a * int bw + b < int (length fl)"
      unfolding ab prod.case by simp
  qed
  ultimately show ?thesis unfolding rc using count_block_eq [of "start_block_x r" "end_block_x r" "start_block_y r" "end_block_y r" "int bw" fl]
    by (simp only: region_cells_def)
qed

text \<open>An event is handled whatever the time and the light.\<close>

lemma wait_ir_ends: "n \<le> 14 \<Longrightarrow> wait_ir n = Some 0"
proof (induction n rule: wait_ir.induct)
  case (1 n)
  then show ?case by (subst wait_ir.simps) auto
qed

lemma motion_event_ok: "md_check_num g \<le> 14 \<Longrightarrow> \<exists>g'. motion_event env cb g = Some g' \<and> md_check_num g' \<le> 14"
  by (auto simp: motion_event_def Let_def wait_ir_ends split: prod.split)

lemma decide_region_ok:
  assumes fl: "flags_ok buf kw kh bw bh sens fl" and r: "region_ok bw bh (rs ! i)" and g: "md_check_num g \<le> 14"
  shows "\<exists>g'. decide_region env cb (Mem fl) (int bw) i (rs, g) = Some (rs[i := decided buf kw kh bw bh sens (rs ! i)], g') \<and>
    md_check_num g' \<le> 14"
proof (cases "start_block_x (rs ! i) = -1")
  case False
  show ?thesis
    using motion_event_ok [OF g, of env cb] False g
    by (auto simp: decide_region_def region_counts_eq [OF fl r False] decided_def region_moved_def exceeds_def mult.commute)
qed (use g in \<open>simp add: decide_region_def decided_def\<close>)

lemma decide_all:
  assumes fl: "flags_ok buf kw kh bw bh sens fl" and rs: "\<forall>r \<in> set rs. region_ok bw bh r" and g: "md_check_num g \<le> 14"
  shows "\<exists>g'. each (decide_region env cb (Mem fl) (int bw)) [0..<length rs] (rs, g) =
      Some (List.map (decided buf kw kh bw bh sens) rs, g') \<and> md_check_num g' \<le> 14"
proof -
  let ?d = "decided buf kw kh bw bh sens"
  let ?P = "\<lambda>ys (s :: mdt_reg list \<times> md_glob). length (fst s) = length rs \<and> md_check_num (snd s) \<le> 14 \<and>
    (\<forall>i < length rs. fst s ! i = (if i \<in> set ys then ?d (rs ! i) else rs ! i))"
  have "\<exists>s'. each (decide_region env cb (Mem fl) (int bw)) [0..<length rs] (rs, g) = Some s' \<and> ?P [0..<length rs] s'"
  proof (rule each_prefix_rule)
    show "?P [] (rs, g)" using g by simp
    fix ys i zs s
    assume e: "[0..<length rs] = ys @ i # zs" and s: "?P ys s"
    have i: "i < length rs" "i \<notin> set ys"
      using arg_cong [OF e, of set] arg_cong [OF e, of distinct] by auto
    have ri: "fst s ! i = rs ! i" using s i by simp
    obtain g' where g': "decide_region env cb (Mem fl) (int bw) i (fst s, snd s) = Some ((fst s)[i := ?d (fst s ! i)], g')"
      "md_check_num g' \<le> 14"
      using decide_region_ok [OF fl, of "fst s" i "snd s" env cb] rs i s ri by auto
    then show "\<exists>s'. decide_region env cb (Mem fl) (int bw) i s = Some s' \<and> ?P (ys @ [i]) s'"
      using s i ri by (auto simp: nth_list_update)
  qed
  then obtain rs' g' where s': "each (decide_region env cb (Mem fl) (int bw)) [0..<length rs] (rs, g) = Some (rs', g')"
    "?P [0..<length rs] (rs', g')" by auto
  then have "rs' = List.map ?d rs" by (intro nth_equalityI) simp_all
  then show ?thesis using s' by auto
qed

section \<open>Frames\<close>

text \<open>A frame of \<open>kw\<close> by \<open>kh\<close> macroblocks, and a channel that the last frame left with these dimensions.\<close>

definition cap_ok :: "nat \<Rightarrow> nat \<Rightarrow> cap_md \<Rightarrow> bool" where
  "cap_ok kw kh cap \<longleftrightarrow> is_valid cap = 1 \<and> 0 < md_mb_width cap \<and> 0 < md_mb_height cap \<and>
     unat (md_dim_width cap) = kw * unat (md_mb_width cap) \<and> unat (md_dim_height cap) = kh * unat (md_mb_height cap) \<and>
     unat (md_dim_width cap) \<le> 4096 \<and> unat (md_dim_height cap) \<le> 4096 \<and> grid_ok (md_buf cap) kw kh"

definition known_dims :: "cap_md \<Rightarrow> md_chan \<Rightarrow> bool" where
  "known_dims cap c \<longleftrightarrow> k_height c = md_dim_height cap \<and> k_width c = md_dim_width cap"

definition known_mbs :: "cap_md \<Rightarrow> md_chan \<Rightarrow> bool" where
  "known_mbs cap c \<longleftrightarrow> k_mb_height c = md_mb_height cap \<and> k_mb_width c = md_mb_width cap"

definition regions_ok :: "nat \<Rightarrow> nat \<Rightarrow> mdt_reg list \<Rightarrow> bool" where
  "regions_ok bw bh rs \<longleftrightarrow> length rs = MAX_SUBREGION_NUM \<and> (\<forall>r \<in> set rs. region_ok bw bh r)"

definition fresh_count :: "cap_md \<Rightarrow> md_chan \<Rightarrow> cuint" where
  "fresh_count cap c =
     (if \<not> known_dims cap c then 0
      else if md_frame_count (md_alg c) < training_time (md_alg c) then md_frame_count (md_alg c) + 1 else md_frame_count (md_alg c))"

definition untouched :: "mdt_reg \<Rightarrow> mdt_reg" where
  "untouched r = (if start_block_x r \<noteq> -1 then r\<lparr>reg_alarm := MOTION_IS_TRAINING\<rparr> else r)"

text \<open>The channel is set up for the regions \<open>rs\<close>; with \<open>kw\<close> and \<open>kh\<close> also for the frames.\<close>

definition waiting :: "nat \<Rightarrow> nat \<Rightarrow> mdt_reg list \<Rightarrow> md_chan \<Rightarrow> bool" where
  "waiting bw bh rs c \<longleftrightarrow> chan_ok bw bh c \<and> sub_region (md_alg c) = Mem rs \<and> regions_ok bw bh rs"

definition running :: "nat \<Rightarrow> nat \<Rightarrow> nat \<Rightarrow> nat \<Rightarrow> cap_md \<Rightarrow> md_chan \<Rightarrow> bool" where
  "running kw kh bw bh cap c \<longleftrightarrow> known_dims cap c \<and> known_mbs cap c \<and> trained kw kh bw bh c"

lemma next_frame_ok:
  assumes c: "waiting bw bh rs c" and cap: "cap_ok kw kh cap" and run: "running kw kh bw bh cap c \<or> \<not> known_dims cap c"
  defines "d \<equiv> next_frame cap c\<lparr>active_num := 0\<rparr>"
  shows "chan_ok bw bh d" "dims_ok kw kh d" "md_frame_count (md_alg d) = 0 \<or> trained kw kh bw bh d"
    "md_alg d = (md_alg c)\<lparr>md_frame_count := fresh_count cap c\<rparr>" "known_dims cap d" "known_mbs cap d" "grid_ok (md_buf cap) kw kh"
proof -
  have v: "is_valid cap = 1" and g: "grid_ok (md_buf cap) kw kh" using cap by (simp_all add: cap_ok_def)
  then show "grid_ok (md_buf cap) kw kh" by simp
  have alg: "md_alg d = (md_alg c)\<lparr>md_frame_count := fresh_count cap c\<rparr>"
    using v by (simp add: d_def next_frame_def fresh_count_def known_dims_def Let_def)
  then show "md_alg d = (md_alg c)\<lparr>md_frame_count := fresh_count cap c\<rparr>" .
  show dims: "known_dims cap d" "known_mbs cap d"
    using v run by (auto simp: d_def next_frame_def known_dims_def known_mbs_def running_def Let_def)
  show "dims_ok kw kh d" using dims cap by (auto simp: dims_ok_def cap_ok_def known_dims_def known_mbs_def grid_ok_def)
  have "chan_ok bw bh c" using c by (simp add: waiting_def)
  then show "chan_ok bw bh d"
    unfolding chan_ok_def alg by (simp add: d_def next_frame_def Let_def)
  show "md_frame_count (md_alg d) = 0 \<or> trained kw kh bw bh d"
  proof (cases "known_dims cap c")
    case True
    then have "trained kw kh bw bh c" using run by (simp add: running_def)
    then show ?thesis by (simp add: trained_def d_def next_frame_def Let_def)
  qed (simp add: alg fresh_count_def)
qed

text \<open>One frame: the channel stays set up, and the regions get their alarms.\<close>

lemma frame_step:
  assumes c: "waiting bw bh rs c" and cap: "cap_ok kw kh cap" and run: "running kw kh bw bh cap c \<or> \<not> known_dims cap c"
    and g: "md_check_num g \<le> 14"
  defines "n \<equiv> fresh_count cap c" and "t \<equiv> training_time (md_alg c)"
  defines "rs' \<equiv> List.map (if n < t then untouched else decided (md_buf cap) kw kh bw bh (unat (sensitive_th (md_alg c)))) rs"
  shows "\<exists>c' g'. do_capture_motion env cb cap c g = Some (if n < t then MOTION_IS_TRAINING else MOTION_IS_READY, c', g') \<and>
    md_alg c' = (md_alg c)\<lparr>md_frame_count := n, sub_region := Mem rs'\<rparr> \<and> waiting bw bh rs' c' \<and> running kw kh bw bh cap c' \<and>
    md_check_num g' \<le> 14"
proof -
  let ?d = "next_frame cap c\<lparr>active_num := 0\<rparr>" and ?sens = "unat (sensitive_th (md_alg c))"
  note d = next_frame_ok [OF c cap run]
  obtain c1 fl where c1: "parsing_mv_data (md_buf cap) ?d = Some (0, c1)" "chan_ok bw bh c1" "trained kw kh bw bh c1" "same_setup ?d c1"
    "active_flag c1 = Mem fl" "flags_ok (md_buf cap) kw kh bw bh ?sens fl"
    using parsing_mv_data_ok [OF d(1-3) d(7)] unfolding d(4) by auto
  have alg: "md_alg c1 = (md_alg c)\<lparr>md_frame_count := n\<rparr>" using c1(4) d(4) by (simp add: same_setup_def n_def)
  have sub: "sub_region (md_alg c) = Mem rs" and rs: "length rs = MAX_SUBREGION_NUM" "\<forall>r \<in> set rs. region_ok bw bh r"
    and init: "cap_motion_init_ok c" and co: "chan_ok bw bh c" using c by (auto simp: waiting_def regions_ok_def chan_ok_def)
  have ub: "u_mb_width (md_alg c) = 32" "u_mb_height (md_alg c) = 32" and bw: "(u_width (md_alg c) + 31) div 32 = of_nat bw" "bw \<le> 128"
    using co by (simp_all add: chan_ok_def)
  obtain g' where g': "each (decide_region env cb (Mem fl) (int bw)) [0..<MAX_SUBREGION_NUM] (rs, g) =
      Some (List.map (decided (md_buf cap) kw kh bw bh ?sens) rs, g')" "md_check_num g' \<le> 14"
    using decide_all [OF c1(6) rs(2) g, of env cb] rs(1) by auto
  let ?c' = "c1\<lparr>md_alg := (md_alg c)\<lparr>md_frame_count := n, sub_region := Mem rs'\<rparr>\<rparr>"
  let ?g = "if n < t then g else g'"
  have blk: "sint ((u_width (md_alg c) + (u_mb_width (md_alg c) - 1)) div u_mb_width (md_alg c)) = int bw"
    using bw by (simp add: ub sint_small)
  have alg2: "capture_sub_region_alg env cb c1 g = Some (0, ?c', ?g)"
  proof (cases "n < t")
    case True
    then show ?thesis
      using rs(1) sub by (simp add: capture_sub_region_alg_def Let_def alg ub t_def rs'_def untouched_def [abs_def])
  next
    case False
    then show ?thesis
      using rs(1) sub g'(1) blk by (simp add: capture_sub_region_alg_def Let_def alg ub t_def rs'_def c1(5))
  qed
  have "region_ok bw bh (f r)" if "region_ok bw bh r" "f = untouched \<or> f = decided (md_buf cap) kw kh bw bh ?sens" for f r
    using that by (auto simp: untouched_def decided_def region_ok_def)
  then have "regions_ok bw bh rs'" using rs by (auto simp: regions_ok_def rs'_def)
  moreover have "chan_ok bw bh ?c'" using c1(2) unfolding chan_ok_def alg by simp
  ultimately have w: "waiting bw bh rs' ?c'" by (simp add: waiting_def)
  have r: "running kw kh bw bh cap ?c'"
    using c1(3,4) d(5,6) by (simp add: running_def known_dims_def known_mbs_def trained_def same_setup_def)
  have "do_capture_motion env cb cap c g = Some (if n < t then MOTION_IS_TRAINING else MOTION_IS_READY, ?c', ?g)"
    using init by (simp add: do_capture_motion_def c1(1) alg2 t_def)
  then show ?thesis using w r g g'(2) by (intro exI [of _ ?c'] exI [of _ ?g]) simp
qed

text \<open>Successive frames, with the result of each.\<close>

fun md_frames :: "(nat \<Rightarrow> int \<times> int) \<Rightarrow> bool \<Rightarrow> cap_md list \<Rightarrow> md_chan \<Rightarrow> md_glob \<Rightarrow> (int list \<times> md_chan \<times> md_glob) option" where
  "md_frames env cb [] c g = Some ([], c, g)"
| "md_frames env cb (cap # caps) c g =
     (case do_capture_motion env cb cap c g of
        None \<Rightarrow> None
      | Some (r, c, g) \<Rightarrow> map_option (\<lambda>(rs, s). (r # rs, s)) (md_frames env cb caps c g))"

definition same_camera :: "cap_md \<Rightarrow> cap_md \<Rightarrow> bool" where
  "same_camera cap cap' \<longleftrightarrow> md_dim_width cap' = md_dim_width cap \<and> md_dim_height cap' = md_dim_height cap \<and>
     md_mb_width cap' = md_mb_width cap \<and> md_mb_height cap' = md_mb_height cap"

lemma running_same: "same_camera cap cap' \<Longrightarrow> running kw kh bw bh cap c \<longleftrightarrow> running kw kh bw bh cap' c"
  by (auto simp: same_camera_def running_def known_dims_def known_mbs_def)

definition training_result :: "nat \<Rightarrow> int" where
  "training_result i = (if i < 15 then MOTION_IS_TRAINING else MOTION_IS_READY)"

lemma training_first: "training_result 0 = MOTION_IS_TRAINING"
  by (simp add: training_result_def)

lemma frames_run:
  assumes "waiting bw bh rs c" "running kw kh bw bh cap0 c" "md_check_num g \<le> 14"
    and "training_time (md_alg c) = 15" "md_frame_count (md_alg c) = of_nat (min n 15)"
    and "\<forall>cap \<in> set caps. cap_ok kw kh cap \<and> same_camera cap0 cap"
  shows "\<exists>c' g'. md_frames env cb caps c g = Some (List.map (\<lambda>i. training_result (n + 1 + i)) [0..<length caps], c', g')"
  using assms
proof (induction caps arbitrary: c g rs n)
  case (Cons cap caps)
  have cap: "cap_ok kw kh cap" "same_camera cap0 cap" using Cons.prems(6) by auto
  have run: "running kw kh bw bh cap c" using Cons.prems(2) running_same [OF cap(2)] by simp
  have n: "fresh_count cap c = of_nat (min (n + 1) 15)"
  proof -
    have "(of_nat (min n 15) :: cuint) < 15 \<longleftrightarrow> n < 15" by (auto simp: word_less_nat_alt unat_small)
    moreover have "(of_nat (min n 15) :: cuint) + 1 = of_nat (min n 15 + 1)" by simp
    ultimately show ?thesis
      using run Cons.prems(4,5) by (auto simp: fresh_count_def running_def min_def)
  qed
  have lt: "fresh_count cap c < training_time (md_alg c) \<longleftrightarrow> n + 1 < 15"
  proof -
    have "unat (of_nat (min (n + 1) 15) :: cuint) = min (n + 1) 15" by (rule unat_small) simp
    then show ?thesis unfolding n Cons.prems(4) word_less_nat_alt by auto
  qed
  obtain rs' c' g' where step: "do_capture_motion env cb cap c g = Some (training_result (n + 1), c', g')"
    "md_alg c' = (md_alg c)\<lparr>md_frame_count := fresh_count cap c, sub_region := Mem rs'\<rparr>"
    "waiting bw bh rs' c'" "running kw kh bw bh cap c'" "md_check_num g' \<le> 14"
    using frame_step [OF Cons.prems(1) cap(1) _ Cons.prems(3), of env cb] run unfolding training_result_def lt [symmetric] by metis
  have run': "running kw kh bw bh cap0 c'" using step(4) running_same [OF cap(2)] by simp
  obtain c2 g2 where "md_frames env cb caps c' g' = Some (List.map (\<lambda>i. training_result (n + 1 + 1 + i)) [0..<length caps], c2, g2)"
    using Cons.IH [OF step(3) run' step(5), of "n + 1"] step(2) n Cons.prems(4,6) by auto
  moreover have "List.map (\<lambda>i. training_result (n + 1 + i)) [0..<length (cap # caps)] =
      training_result (n + 1) # List.map (\<lambda>i. training_result (n + 1 + 1 + i)) [0..<length caps]"
    by (simp add: map_upt_Suc del: upt_Suc)
  ultimately show ?case by (simp add: step(1) del: upt_Suc)
qed simp

text \<open>C18: A channel that meets the frames of a camera trains for the first fifteen and is ready from the sixteenth on: no
  later frame of these dimensions sends it back, and none fails.\<close>

theorem training_then_ready:
  assumes "waiting bw bh rs c" "\<not> known_dims (hd caps) c" "md_check_num g \<le> 14" "training_time (md_alg c) = 15" "caps \<noteq> []"
    and "\<forall>cap \<in> set caps. cap_ok kw kh cap \<and> same_camera (hd caps) cap"
  shows "\<exists>c' g'. md_frames env cb caps c g =
    Some (List.map (\<lambda>i. if i < 15 then MOTION_IS_TRAINING else MOTION_IS_READY) [0..<length caps], c', g')"
proof -
  obtain cap rest where caps: "caps = cap # rest" using assms(5) by (cases caps) auto
  have cap: "cap_ok kw kh cap" and rest: "\<forall>cap' \<in> set rest. cap_ok kw kh cap' \<and> same_camera cap cap'" using assms(6) by (auto simp: caps)
  have n: "fresh_count cap c = 0" using assms(2) by (simp add: fresh_count_def caps)
  obtain rs' c' g' where step: "do_capture_motion env cb cap c g = Some (MOTION_IS_TRAINING, c', g')"
    "md_alg c' = (md_alg c)\<lparr>md_frame_count := 0, sub_region := Mem rs'\<rparr>"
    "waiting bw bh rs' c'" "running kw kh bw bh cap c'" "md_check_num g' \<le> 14"
    using frame_step [OF assms(1) cap _ assms(3), of env cb] assms(2,4) n by (auto simp: caps)
  obtain c2 g2 where "md_frames env cb rest c' g' = Some (List.map (\<lambda>i. training_result (0 + 1 + i)) [0..<length rest], c2, g2)"
    using frames_run [OF step(3,4,5) _ _ rest, of 0 env cb] step(2) assms(4) by auto
  moreover have "List.map training_result [0..<length caps] =
      MOTION_IS_TRAINING # List.map (\<lambda>i. training_result (0 + 1 + i)) [0..<length rest]"
    by (simp add: caps map_upt_Suc training_first del: upt_Suc)
  ultimately have "md_frames env cb caps c g = Some (List.map training_result [0..<length caps], c2, g2)"
    by (simp add: caps step(1) del: upt_Suc)
  then show ?thesis unfolding training_result_def [abs_def] by blast
qed

lemma every_macroblock:
  assumes "a < kh" "b < kw" "kh \<le> 32 * bh" "kw \<le> 32 * bw"
  shows "\<exists>h < bh. \<exists>w < bw. (int a, int b) \<in> set (block_cells kw kh bw bh h w)"
  using covered [OF assms(1,3)] covered [OF assms(2,4)] by (fastforce simp: block_cells_def cells_def)

text \<open>C8: On a trained channel whose regions lie inside the picture, a frame of the size of the channel is handled without fault,
  and every region that is on gets an alarm exactly when more than 100 - \<open>alarm_th\<close> percent of its blocks have moved, a block
  having moved when more than 100 - \<open>sensitive_th\<close> percent of its macroblocks have: the higher the two settings, the less has
  to move. The blocks leave out no macroblock of a frame that is not larger than they are.\<close>

theorem motion_decided:
  assumes "waiting bw bh rs c" "cap_ok kw kh cap" "running kw kh bw bh cap c" "md_check_num g \<le> 14"
    and "training_time (md_alg c) \<le> md_frame_count (md_alg c)"
  shows "(\<exists>c' g'. do_capture_motion env cb cap c g = Some (MOTION_IS_READY, c', g') \<and>
      waiting bw bh (List.map (\<lambda>r. if start_block_x r = -1 then r else r\<lparr>reg_alarm :=
        if exceeds (\<lambda>(h, w). exceeds (\<lambda>(a, b). moved (md_buf cap) kw kh (nat a) (nat b)) (block_cells kw kh bw bh (nat h) (nat w))
               (100 - int (unat (sensitive_th (md_alg c)))))
             (region_cells r) (100 - alarm_th r)
        then MOTION_DETECTED else NO_MOTION\<rparr>) rs) c' \<and>
      running kw kh bw bh cap c') \<and>
    (kh \<le> 32 * bh \<and> kw \<le> 32 * bw \<longrightarrow> (\<forall>a < kh. \<forall>b < kw. \<exists>h < bh. \<exists>w < bw. (int a, int b) \<in> set (block_cells kw kh bw bh h w)))"
proof -
  have "fresh_count cap c = md_frame_count (md_alg c)" using assms(3,5) by (simp add: fresh_count_def running_def)
  then have n: "\<not> fresh_count cap c < training_time (md_alg c)" using assms(5) by simp
  let ?d = "decided (md_buf cap) kw kh bw bh (unat (sensitive_th (md_alg c)))"
  obtain c' g' where "do_capture_motion env cb cap c g = Some (MOTION_IS_READY, c', g')" "waiting bw bh (List.map ?d rs) c'"
    "running kw kh bw bh cap c'"
    using frame_step [OF assms(1,2) disjI1 [OF assms(3)] assms(4), of env cb] n by auto
  then show ?thesis using every_macroblock unfolding decided_def [abs_def] region_moved_def block_moved_def by blast
qed

section \<open>An example\<close>

text \<open>The globals at the start.\<close>

definition zero_glob :: md_glob where
  "zero_glob = \<lparr>ircut_flag = 0, oldtime = 0, md_ir_flag = 0, md_mode = 0, md_old_mode = 0, md_check_num = 0, md_uses = 0, md_events = []\<rparr>"

text \<open>Four by two macroblocks in two blocks, with one region over both; the data has four macroblocks that moved.\<close>

definition sample_regions :: "mdt_reg list" where
  "sample_regions = \<lparr>is_enabled = 1, start_block_x = 0, start_block_y = 0, end_block_x = 1, end_block_y = 0, alarm_th = 60,
     reg_alarm = -5\<rparr> # replicate 31 closed_region"

definition sample_chan :: "cuint \<Rightarrow> cuint \<Rightarrow> md_chan" where
  "sample_chan width count =
     \<lparr>md_alg = \<lparr>sub_region = Mem sample_regions, sub_region_num = 4, u_height = 32, u_width = 40, u_mb_height = 32, u_mb_width = 32,
        sensitive_th = 80, md_frame_count = count, training_time = 15, mb_w_num = 2, mb_h_num = 1\<rparr>,
      k_height = 32, k_width = width, k_mb_height = 16, k_mb_width = 16, md_bindfd = 7, active_flag = Mem [1, 1], active_num = 0,
      cap_motion_init_ok = True, user_motion_size = 2, is_parsing_init_ok = True, transform_matrix = Mem [0, 1, 0, 1, 2, 3, 0, 1],
      kernel_mv_data = Mem (replicate CAP_MOTION_SIZE 0), g_blk_w_num = 2, g_blk_h_num = 1, g_user_width = 64, g_user_height = 32,
      g_mb_w_num = 4, g_mb_h_num = 2, parsing_user_motion_size = 2\<rparr>"

definition sample_frame :: cap_md where
  "sample_frame = \<lparr>cap_bindfd = 7, cap_retval = 0, is_valid = 1, md_dim_width = 64, md_dim_height = 32, md_mb_width = 16,
     md_mb_height = 16, md_buf = 80 # replicate 31 0 @ [85]\<rparr>"

lemma sample_waiting: "waiting 2 1 sample_regions (sample_chan width count)"
  by (simp add: waiting_def chan_ok_def regions_ok_def region_ok_def sample_chan_def sample_regions_def closed_region_def
      MAX_SUBREGION_NUM_def)

lemma sample_cap: "cap_ok 4 2 sample_frame"
  by (simp add: cap_ok_def sample_frame_def grid_ok_def CAP_MOTION_SIZE_def)

lemma all_below_two: "(\<forall>x < (2 :: nat). P x) \<longleftrightarrow> P 0 \<and> P 1"
  by (auto simp: less_2_cases_iff)

lemma sample_running: "running 4 2 2 1 sample_frame (sample_chan 64 count)"
proof -
  have "matrix_ok 4 2 2 1 [0, 1, 0, 1, 2, 3, 0, 1]"
    by (simp add: matrix_ok_def all_below_two slice_def first_mb_def last_mb_def)
  then show ?thesis by (simp add: running_def known_dims_def known_mbs_def trained_def sample_frame_def sample_chan_def)
qed

theorem training_then_ready_witness:
  "\<exists>c' g'. md_frames (\<lambda>_. (100, 0)) True (replicate 20 sample_frame) (sample_chan 32 0) zero_glob =
    Some (replicate 15 MOTION_IS_TRAINING @ replicate 5 MOTION_IS_READY, c', g')"
proof -
  have e: "List.map (\<lambda>i. if i < 15 then MOTION_IS_TRAINING else MOTION_IS_READY) [0..<length (replicate 20 sample_frame)] =
      replicate 15 MOTION_IS_TRAINING @ replicate 5 MOTION_IS_READY" by (simp add: numeral_eq_Suc)
  show ?thesis
    unfolding e [symmetric]
    by (rule training_then_ready [OF sample_waiting, of _ _ _ _ 4 2])
      (simp_all add: known_dims_def sample_chan_def sample_frame_def zero_glob_def sample_cap [unfolded sample_frame_def] same_camera_def)
qed

theorem motion_decided_witness:
  "\<exists>c' g'. do_capture_motion (\<lambda>_. (100, 0)) True sample_frame (sample_chan 64 15) zero_glob = Some (MOTION_IS_READY, c', g') \<and>
    waiting 2 1 ((hd sample_regions)\<lparr>reg_alarm := MOTION_DETECTED\<rparr> # tl sample_regions) c'"
proof -
  let ?f = "\<lambda>r. if start_block_x r = -1 then r else r\<lparr>reg_alarm :=
        if exceeds (\<lambda>(h, w). exceeds (\<lambda>(a, b). moved (md_buf sample_frame) 4 2 (nat a) (nat b)) (block_cells 4 2 2 1 (nat h) (nat w))
               (100 - int (unat (sensitive_th (md_alg (sample_chan 64 15))))))
             (region_cells r) (100 - alarm_th r)
        then MOTION_DETECTED else NO_MOTION\<rparr>"
  have d: "?f (hd sample_regions) = (hd sample_regions)\<lparr>reg_alarm := MOTION_DETECTED\<rparr>"
    by code_simp
  have e: "List.map ?f sample_regions = (hd sample_regions)\<lparr>reg_alarm := MOTION_DETECTED\<rparr> # tl sample_regions"
    using d by (simp add: sample_regions_def closed_region_def)
  show ?thesis
    using motion_decided [OF sample_waiting sample_cap sample_running, of zero_glob 15 "\<lambda>_. (100, 0)" True] unfolding e
    by (simp add: zero_glob_def sample_chan_def) blast
qed

end
