(* ===== verification/MotionThread.thy ===== *)
theory MotionThread
  imports MotionFacts
begin

text \<open>
  The thread of the motion detection with the changes of its regions between the rounds (\<^verbatim>\<open>motion.c\<close>): the events keep
  their distance, a configuration and the rounds behind it do not fail; and what the thread does not do: a second
  region, and the history of seconds that the cloud client polls.
\<close>

section \<open>Events\<close>

definition spaced :: "md_glob \<Rightarrow> bool" where
  "spaced g \<longleftrightarrow> sorted_wrt (\<lambda>a b. b - a > 1) (md_events g) \<and> (\<forall>e \<in> set (md_events g). e \<le> oldtime g)"

lemma each_inv:
  "each f xs s = Some s' \<Longrightarrow> P s \<Longrightarrow> (\<And>x s s'. f x s = Some s' \<Longrightarrow> P s \<Longrightarrow> P s') \<Longrightarrow> P s'"
  by (induction xs arbitrary: s) (auto split: option.splits)

lemma motion_event_spaced: "motion_event env cb g = Some g' \<Longrightarrow> spaced g \<Longrightarrow> spaced g'"
proof -
  assume e: "motion_event env cb g = Some g'" and s: "spaced g"
  have "e \<le> t \<and> 1 < t - e" if "e \<in> set (md_events g)" "1 < t - oldtime g" for e t
    using s that by (force simp: spaced_def)
  then show ?thesis using e s
    by (auto simp: motion_event_def spaced_def sorted_wrt_append Let_def split: prod.splits if_splits)
qed

lemma decide_region_spaced: "decide_region env cb fl w i s = Some s' \<Longrightarrow> spaced (snd s) \<Longrightarrow> spaced (snd s')"
  by (auto simp: decide_region_def Let_def motion_event_spaced split: if_splits option.splits mem.splits)

lemma alg_spaced: "capture_sub_region_alg env cb c g = Some (r, c', g') \<Longrightarrow> spaced g \<Longrightarrow> spaced g'"
  using each_inv [where P = "\<lambda>s. spaced (snd s)" and f = "decide_region env cb (active_flag c) w" for w, OF _ _ decide_region_spaced]
  by (fastforce simp: capture_sub_region_alg_def Let_def split: if_splits option.splits mem.splits)

lemma do_capture_spaced: "do_capture_motion env cb cap c g = Some (r, c', g') \<Longrightarrow> spaced g \<Longrightarrow> spaced g'"
  by (auto simp: do_capture_motion_def split: if_splits option.splits) (erule (1) alg_spaced)+

lemma handle_chan_spaced: "handle_chan env cb bind caps i (cs, g, rs) = Some (cs', g', rs') \<Longrightarrow> spaced g \<Longrightarrow> spaced g'"
  by (auto simp: handle_chan_def Let_def split: if_splits option.splits) (erule (1) do_capture_spaced)+

lemma handling_spaced: "motion_detection_handling env cb bind caps (cs, g, rs) = Some (cs', g', rs') \<Longrightarrow> spaced g \<Longrightarrow> spaced g'"
  using each_inv [where P = "\<lambda>s. spaced (fst (snd s))" and f = "handle_chan env cb bind caps"]
  by (force simp: motion_detection_handling_def dest: handle_chan_spaced)

text \<open>The thread's rounds, with changes of the configuration between them.\<close>

datatype md_op = Configure "vda_cfg option" | Round "64 word \<times> int \<times> nat \<times> cap_md list"

fun md_step :: "(nat \<Rightarrow> bool) \<Rightarrow> (nat \<Rightarrow> int \<times> int) \<Rightarrow> bool \<Rightarrow> md_op \<Rightarrow> md_sys \<Rightarrow> md_sys option" where
  "md_step ok env cb (Configure cfg) s = map_option snd (set_motion_param ok cfg s)"
| "md_step ok env cb (Round inp) s = motion_round env cb inp s"

lemma set_motion_param_globals: "set_motion_param ok cfg s = Some (r, s') \<Longrightarrow> md_globals s' = md_globals s"
  by (auto simp: set_motion_param_def Let_def split: if_splits option.splits mem.splits)

lemma note_second_globals [simp]: "md_globals (note_second now s) = md_globals s"
  by (simp add: note_second_def)

lemma md_step_spaced: "md_step ok env cb op s = Some s' \<Longrightarrow> spaced (md_globals s) \<Longrightarrow> spaced (md_globals s')"
  by (cases op) (auto simp: motion_round_def dest: handling_spaced set_motion_param_globals split: if_splits option.splits prod.splits)

text \<open>C19: However the rounds and the changes of the configuration follow each other, and whatever the time and the light sensor give,
  two motion events that the encoder reports are more than a second apart.\<close>

theorem alarms_spaced:
  assumes "each (md_step ok env cb) ops s = Some s'" "md_events (md_globals s) = []"
  shows "sorted_wrt (\<lambda>a b. b - a > 1) (md_events (md_globals s'))"
  using each_inv [OF assms(1), of "\<lambda>s. spaced (md_globals s)", OF _ md_step_spaced] assms(2) by (simp add: spaced_def)

section \<open>The history\<close>

text \<open>A channel with no region on.\<close>

definition dormant :: "md_chan \<Rightarrow> bool" where
  "dormant c \<longleftrightarrow> (\<forall>rs. sub_region (md_alg c) = Mem rs \<longrightarrow> (\<forall>r \<in> set rs. start_block_x r = -1 \<and> reg_alarm r \<noteq> MOTION_DETECTED))"

lemma parsing_mv_keeps: "parsing_mv buf c = Some (r, c') \<Longrightarrow> md_bindfd c' = md_bindfd c \<and> md_alg c' = md_alg c"
  by (auto simp: parsing_mv_def Let_def split: if_splits option.splits mem.splits)

lemma transform_keeps: "transform c = Some (r, c') \<Longrightarrow> md_bindfd c' = md_bindfd c \<and> md_alg c' = md_alg c"
  by (auto simp: transform_def Let_def split: if_splits option.splits mem.splits)

lemma parsing_mv_data_keeps: "parsing_mv_data buf c = Some (r, c') \<Longrightarrow> md_bindfd c' = md_bindfd c \<and> md_alg c' = md_alg c"
  by (auto simp: parsing_mv_data_def dest!: parsing_mv_keeps transform_keeps split: if_splits option.splits)

lemma decide_dormant:
  assumes "\<forall>r \<in> set rs. start_block_x r = -1" "\<forall>i \<in> set is. i < length rs"
  shows "each (decide_region env cb fl w) is (rs, g) = Some (rs, g)"
  using assms by (induction "is") (simp_all add: decide_region_def)

lemma alg_keeps:
  assumes "capture_sub_region_alg env cb c g = Some (r, c', g')"
  shows "md_bindfd c' = md_bindfd c \<and> (dormant c \<longrightarrow> dormant c')"
proof
  show "md_bindfd c' = md_bindfd c"
    using assms by (auto simp: capture_sub_region_alg_def Let_def split: if_splits option.splits mem.splits)
  show "dormant c \<longrightarrow> dormant c'"
  proof
    assume d: "dormant c"
    obtain rs where rs: "sub_region (md_alg c) = Mem rs" "length rs = MAX_SUBREGION_NUM"
      using assms by (auto simp: capture_sub_region_alg_def Let_def split: if_splits mem.splits)
    then have off: "\<forall>r \<in> set rs. start_block_x r = -1" using d by (simp add: dormant_def)
    have "each (decide_region env cb fl w) [0..<MAX_SUBREGION_NUM] (rs, g) = Some (rs, g)" for fl w
      by (rule decide_dormant [OF off]) (simp add: rs(2))
    then show "dormant c'"
      using assms d rs by (auto simp: capture_sub_region_alg_def Let_def dormant_def split: if_splits)
  qed
qed

lemma next_frame_keeps: "md_bindfd (next_frame cap c) = md_bindfd c \<and> dormant (next_frame cap c\<lparr>active_num := n\<rparr>) = dormant c"
  by (simp add: next_frame_def dormant_def Let_def)

lemma do_capture_keeps:
  assumes "do_capture_motion env cb cap c g = Some (r, c', g')"
  shows "md_bindfd c' = md_bindfd c \<and> (dormant c \<longrightarrow> dormant c')"
proof (cases "cap_motion_init_ok c")
  case True
  then obtain a d where d: "parsing_mv_data (md_buf cap) (next_frame cap c\<lparr>active_num := 0\<rparr>) = Some (a, d)"
    "a < 0 \<and> c' = d \<or> (\<exists>r' g'. capture_sub_region_alg env cb d g = Some (r', c', g'))"
    using assms by (auto simp: do_capture_motion_def split: if_splits option.splits)
  have "md_bindfd d = md_bindfd c \<and> dormant d = dormant c"
    using parsing_mv_data_keeps [OF d(1)] next_frame_keeps [of cap c 0] by (simp add: dormant_def)
  then show ?thesis using d(2) alg_keeps by fastforce
qed (use assms in \<open>simp add: do_capture_motion_def\<close>)

text \<open>A result that tells of no motion.\<close>

definition silent :: "mdt_result \<Rightarrow> bool" where
  "silent r \<longleftrightarrow> (ch_result r = MOTION_IS_READY \<longrightarrow> MOTION_DETECTED \<notin> set (reg_results r))"

lemma handle_chan_keeps:
  assumes "handle_chan env cb bind caps i (cs, g, rs) = Some (cs', g', rs')" "i < length cs"
  defines "j \<equiv> mdt_idx_to_cap_md_idx bind caps"
  shows "length cs' = length cs" "length rs' = length rs" "\<forall>k < length cs. k \<noteq> i \<longrightarrow> cs' ! k = cs ! k" "md_bindfd (cs' ! i) = bind"
    "dormant (cs ! i) \<Longrightarrow> dormant (cs' ! i)" "j < 0 \<Longrightarrow> rs' = rs" "\<forall>k. int k \<noteq> j \<longrightarrow> rs' ! k = rs ! k"
    "dormant (cs ! i) \<Longrightarrow> 0 \<le> j \<Longrightarrow> nat j < length rs \<and> silent (rs' ! nat j)"
proof -
  let ?c = "(cs ! i)\<lparr>md_bindfd := bind\<rparr>"
  have dc: "dormant ?c = dormant (cs ! i)" by (simp add: dormant_def)
  have "\<exists>c'. cs' = cs[i := c'] \<and> md_bindfd c' = bind \<and> (dormant (cs ! i) \<longrightarrow> dormant c') \<and>
      (if j < 0 then rs' = rs else nat j < length rs \<and> (\<exists>r'. rs' = rs[nat j := r'] \<and> (dormant (cs ! i) \<longrightarrow> silent r')))"
  proof (cases "j < 0")
    case True
    then have "cs' = cs[i := ?c] \<and> rs' = rs" using assms(1) by (simp add: handle_chan_def Let_def j_def)
    then show ?thesis using True dc by (intro exI [of _ ?c]) simp
  next
    case False
    have len: "nat j < length rs" using False assms(1) by (auto simp: handle_chan_def Let_def j_def split: if_splits)
    let ?cap = "caps ! nat j"
    show ?thesis
    proof (cases "cap_bindfd ?cap \<noteq> bind \<or> cap_retval ?cap < 0 \<or> is_valid ?cap = 0")
      case True
      then have "cs' = cs[i := ?c] \<and> rs' = rs[nat j := rs' ! nat j] \<and> silent (rs' ! nat j)"
        using assms(1) False len
        by (auto simp: handle_chan_def Let_def j_def [symmetric] silent_def MOTION_IS_READY_def MOTION_INIT_ERROR_def MOTION_DATA_ERROR_def NO_MOTION_def
          split: if_splits)
      then show ?thesis using False dc len by (intro exI [of _ ?c]) auto
    next
      case ok: False
      obtain r c' res where c': "do_capture_motion env cb ?cap ?c g = Some (r, c', g')" "cs' = cs[i := ?c, i := c']" "rs' = rs[nat j := res]"
        "copy_results c' ((rs ! nat j)\<lparr>res_bindfd := cap_bindfd ?cap, ch_result := r\<rparr>) = Some res"
        using assms(1) False len ok by (auto simp: handle_chan_def Let_def j_def [symmetric] split: if_splits option.splits)
      have k: "md_bindfd c' = bind" "dormant (cs ! i) \<longrightarrow> dormant c'" using do_capture_keeps [OF c'(1)] dc by simp_all
      have "dormant c' \<longrightarrow> silent res"
        using c'(4) by (auto simp: copy_results_def dormant_def silent_def dest!: in_set_takeD split: mem.splits if_splits) metis
      then show ?thesis using c' k False len by auto
    qed
  qed
  then obtain c' where c': "cs' = cs[i := c']" "md_bindfd c' = bind" "dormant (cs ! i) \<longrightarrow> dormant c'"
    "if j < 0 then rs' = rs else nat j < length rs \<and> (\<exists>r'. rs' = rs[nat j := r'] \<and> (dormant (cs ! i) \<longrightarrow> silent r'))" by blast
  show "length cs' = length cs" "\<forall>k < length cs. k \<noteq> i \<longrightarrow> cs' ! k = cs ! k" "md_bindfd (cs' ! i) = bind"
    "dormant (cs ! i) \<Longrightarrow> dormant (cs' ! i)" using c'(1-3) assms(2) by simp_all
  show "length rs' = length rs" "j < 0 \<Longrightarrow> rs' = rs" "\<forall>k. int k \<noteq> j \<longrightarrow> rs' ! k = rs ! k"
    "dormant (cs ! i) \<Longrightarrow> 0 \<le> j \<Longrightarrow> nat j < length rs \<and> silent (rs' ! nat j)"
    using c'(4) by (auto split: if_splits)
qed

lemma handling_last:
  assumes h: "motion_detection_handling env cb bind caps (cs, g, rs) = Some (cs', g', rs')"
    and cs: "length cs = MAX_CAP_MD_NUM" "dormant (cs ! 31)" and rs: "\<forall>r \<in> set rs. silent r"
  shows "length cs' = MAX_CAP_MD_NUM" "\<forall>i < MAX_CAP_MD_NUM. md_bindfd (cs' ! i) = bind" "dormant (cs' ! 31)" "\<forall>r \<in> set rs'. silent r"
proof -
  let ?j = "mdt_idx_to_cap_md_idx bind caps"
  let ?P = "\<lambda>n (s :: md_state). case s of (c, g, r) \<Rightarrow> length c = length cs \<and> length r = length rs \<and>
      (\<forall>i < n. md_bindfd (c ! i) = bind) \<and> dormant (c ! 31) \<and> (\<forall>k. int k \<noteq> ?j \<longrightarrow> r ! k = rs ! k) \<and>
      (?j < 0 \<longrightarrow> r = rs) \<and> (n = 32 \<longrightarrow> 0 \<le> ?j \<longrightarrow> nat ?j < length r \<and> silent (r ! nat ?j))"
  have step: "?P (Suc n) s'" if "handle_chan env cb bind caps n s = Some s'" "?P n s" "n < 32" for n s s'
  proof -
    obtain c g1 r c2 g2 r2 where s: "s = (c, g1, r)" "s' = (c2, g2, r2)" by (cases s, cases s') auto
    have n: "n < length c" using that(2,3) cs(1) by (simp add: s MAX_CAP_MD_NUM_def)
    note k = handle_chan_keeps [OF that(1) [unfolded s] n]
    have "md_bindfd (c2 ! i) = bind" if "i < Suc n" for i
      using k(3,4) \<open>?P n s\<close> that n by (cases "i = n") (auto simp: s)
    moreover have "dormant (c2 ! 31)" using k(3,5) that(2) cs(1) by (cases "n = 31") (auto simp: s MAX_CAP_MD_NUM_def)
    moreover have "Suc n = 32 \<longrightarrow> 0 \<le> ?j \<longrightarrow> nat ?j < length r2 \<and> silent (r2 ! nat ?j)"
      using k(2,8) that(2) by (auto simp: s)
    ultimately show ?thesis using k(1,2,6,7) that(2) by (simp add: s)
  qed
  have run: "each (handle_chan env cb bind caps) [0..<n] s = Some s' \<Longrightarrow> ?P 0 s \<Longrightarrow> n \<le> 32 \<Longrightarrow> ?P n s'" for n s s'
  proof (induction n arbitrary: s')
    case (Suc n)
    then obtain s1 where "each (handle_chan env cb bind caps) [0..<n] s = Some s1" "handle_chan env cb bind caps n s1 = Some s'"
      by (auto simp: each_append split: option.splits)
    then show ?case using Suc step by (meson Suc_le_lessD less_imp_le_nat)
  qed simp
  have P: "?P 32 (cs', g', rs')"
    by (rule run) (use h cs in \<open>auto simp: motion_detection_handling_def MAX_CAP_MD_NUM_def\<close>)
  then show "length cs' = MAX_CAP_MD_NUM" "\<forall>i < MAX_CAP_MD_NUM. md_bindfd (cs' ! i) = bind" "dormant (cs' ! 31)"
    using cs(1) by (simp_all add: MAX_CAP_MD_NUM_def)
  show "\<forall>r \<in> set rs'. silent r"
  proof
    fix r assume "r \<in> set rs'"
    then obtain k where k: "k < length rs'" "r = rs' ! k" by (auto simp: in_set_conv_nth)
    show "silent r"
    proof (cases "int k = ?j")
      case True
      then have "k = nat ?j" by simp
      moreover have "0 \<le> ?j" unfolding True [symmetric] by simp
      ultimately show ?thesis using P k(2) by auto
    next
      case False
      then show ?thesis using P k rs by auto
    qed
  qed
qed

lemma note_silent:
  assumes "\<forall>r \<in> set rs. silent r"
  shows "note_trigger rs t = t"
  using assms by (auto simp: note_trigger_def silent_def dest: in_set_takeD)

text \<open>The handles: all but the first channel have the same, and the first that or the one that is configured.\<close>

definition aligned :: "nat \<Rightarrow> md_chan list \<Rightarrow> bool" where
  "aligned fd cs \<longleftrightarrow> length cs = MAX_CAP_MD_NUM \<and>
     (\<exists>b. (\<forall>i < MAX_CAP_MD_NUM. 0 < i \<longrightarrow> md_bindfd (cs ! i) = b) \<and> (md_bindfd (cs ! 0) = b \<or> md_bindfd (cs ! 0) = fd))"

lemma find_first: "0 < n \<Longrightarrow> P 0 \<Longrightarrow> find P [0..<n] = Some 0"
  by (simp add: upt_conv_Cons)

lemma aligned_idx:
  assumes a: "aligned fd cs"
  shows "bindfd_to_mdt_idx fd cs = (-1, cs) \<or> bindfd_to_mdt_idx fd cs = (0, cs[0 := (cs ! 0)\<lparr>md_bindfd := fd\<rparr>])"
proof -
  have ne: "cs \<noteq> []" and len: "length cs = 32" using a by (auto simp: aligned_def MAX_CAP_MD_NUM_def)
  obtain b where b: "\<And>i. i < 32 \<Longrightarrow> 0 < i \<Longrightarrow> md_bindfd (cs ! i) = b" "md_bindfd (cs ! 0) = b \<or> md_bindfd (cs ! 0) = fd"
    using a by (auto simp: aligned_def MAX_CAP_MD_NUM_def)
  show ?thesis
  proof (cases "md_bindfd (cs ! 0) = fd")
    case True
    then have "find_chan fd cs = Some 0" using find_first [of "length cs" "\<lambda>i. md_bindfd (cs ! i) = fd"] ne by (simp add: find_chan_def)
    moreover have "cs[0 := (cs ! 0)\<lparr>md_bindfd := fd\<rparr>] = cs" using True ne by (cases cs) auto
    ultimately show ?thesis by (simp add: bindfd_to_mdt_idx_def)
  next
    case False
    then have all: "md_bindfd (cs ! i) = b" if "i < length cs" for i using b that len by (cases "i = 0") auto
    then have "find_chan x cs = (if b = x then Some 0 else None)" for x
      using find_first [of "length cs" "\<lambda>i. md_bindfd (cs ! i) = x"] ne by (auto simp: find_chan_def find_None_iff)
    moreover have "b \<noteq> fd" using False all [of 0] ne by simp
    ultimately show ?thesis by (simp add: bindfd_to_mdt_idx_def)
  qed
qed

text \<open>An operation on the configured channel changes only the first.\<close>

definition first_only :: "nat \<Rightarrow> md_chan list \<Rightarrow> md_chan list \<Rightarrow> bool" where
  "first_only fd cs cs' \<longleftrightarrow> length cs' = length cs \<and> (\<forall>i < length cs. 0 < i \<longrightarrow> cs' ! i = cs ! i) \<and>
     (md_bindfd (cs' ! 0) = md_bindfd (cs ! 0) \<or> md_bindfd (cs' ! 0) = fd)"

lemma first_only_refl: "first_only fd cs cs"
  by (simp add: first_only_def)

lemma first_only_trans: "first_only fd cs ds \<Longrightarrow> first_only fd ds es \<Longrightarrow> first_only fd cs es"
  by (auto simp: first_only_def)

lemma first_only_aligned: "aligned fd cs \<Longrightarrow> first_only fd cs cs' \<Longrightarrow> aligned fd cs'"
  by (fastforce simp: aligned_def first_only_def)

lemma first_only_upd: "md_bindfd c = md_bindfd (cs ! 0) \<or> md_bindfd c = fd \<Longrightarrow> cs \<noteq> [] \<Longrightarrow> first_only fd cs (cs[0 := c])"
  by (auto simp: first_only_def)

lemma aligned_nonempty: "aligned fd cs \<Longrightarrow> cs \<noteq> []"
  by (auto simp: aligned_def MAX_CAP_MD_NUM_def)

lemma with_chan_first:
  assumes a: "aligned fd cs" and w: "with_chan fd f cs = Some (r, cs')"
    and f: "\<And>cs cs'. aligned fd cs \<Longrightarrow> md_bindfd (cs ! 0) = fd \<Longrightarrow> f 0 cs = Some (r, cs') \<Longrightarrow> first_only fd cs cs'"
  shows "first_only fd cs cs'"
proof (cases "bindfd_to_mdt_idx fd cs = (-1, cs)")
  case True
  then show ?thesis using w by (simp add: with_chan_def first_only_refl)
next
  case False
  let ?cs = "cs[0 := (cs ! 0)\<lparr>md_bindfd := fd\<rparr>]"
  have idx: "bindfd_to_mdt_idx fd cs = (0, ?cs)" using aligned_idx [OF a] False by simp
  have fo: "first_only fd cs ?cs" by (rule first_only_upd) (use aligned_nonempty [OF a] in simp_all)
  have "md_bindfd (?cs ! 0) = fd" using aligned_nonempty [OF a] by simp
  then have "first_only fd ?cs cs'"
    using w idx f [OF first_only_aligned [OF a fo]] by (simp add: with_chan_def)
  then show ?thesis by (rule first_only_trans [OF fo])
qed

lemma set_region_bindfd: "set_region r f c = Some c' \<Longrightarrow> md_bindfd c' = md_bindfd c"
  by (auto simp: set_region_def split: mem.splits if_splits)

lemma close_region_first:
  assumes "aligned fd cs" "close_sub_region_internal fd n cs = Some (r, cs')"
  shows "first_only fd cs cs'"
  by (rule with_chan_first [OF assms(1) assms(2) [unfolded close_sub_region_internal_def]])
    (auto simp: first_only_refl intro!: first_only_upd dest: set_region_bindfd aligned_nonempty split: if_splits)

lemma set_region_first:
  assumes "aligned fd cs" "set_sub_region_internal fd n sr cs = Some (r, cs')"
  shows "first_only fd cs cs'"
  by (rule with_chan_first [OF assms(1) assms(2) [unfolded set_sub_region_internal_def]])
    (auto simp: first_only_refl Let_def intro!: first_only_upd dest: set_region_bindfd aligned_nonempty split: if_splits)

lemma update_region_first: "aligned fd cs \<Longrightarrow> update_region fd rs n cs = Some cs' \<Longrightarrow> first_only fd cs cs'"
  by (auto simp: update_region_def dest: close_region_first set_region_first split: option.splits if_splits)

lemma parsing_clear_bindfd: "parsing_clear sz c = Some (r, c') \<Longrightarrow> md_bindfd c' = md_bindfd c"
  by (auto simp: parsing_clear_def split: mem.splits option.splits)

lemma parsing_mv_initial_bindfd: "parsing_mv_initial ok w h c = Some (r, c') \<Longrightarrow> md_bindfd c' = md_bindfd c"
  by (auto simp: parsing_mv_initial_def Let_def dest!: parsing_clear_bindfd split: if_splits option.splits)

lemma parsing_mv_end_bindfd: "parsing_mv_end c = Some (r, c') \<Longrightarrow> md_bindfd c' = md_bindfd c"
  by (auto simp: parsing_mv_end_def split: option.splits)

lemma capture_end_bindfd: "capture_motion_end c = Some (r, c') \<Longrightarrow> md_bindfd c' = md_bindfd c"
  by (auto simp: capture_motion_end_def dest!: parsing_mv_end_bindfd split: option.splits)

lemma capture_update_bindfd: "capture_motion_update ok c = Some (r, c') \<Longrightarrow> md_bindfd c' = md_bindfd c"
  by (auto simp: capture_motion_update_def clear_kernel_def Let_def dest!: parsing_mv_end_bindfd parsing_mv_initial_bindfd
      split: if_splits option.splits mem.splits)

lemma each_first:
  assumes "aligned fd cs" "each f xs cs = Some cs'" "\<And>x cs cs'. aligned fd cs \<Longrightarrow> f x cs = Some cs' \<Longrightarrow> first_only fd cs cs'"
  shows "first_only fd cs cs'"
  using each_inv [OF assms(2), of "\<lambda>ds. aligned fd ds \<and> first_only fd cs ds"] assms(1,3) first_only_aligned first_only_trans first_only_refl
  by blast

lemma update_chan_first:
  assumes a: "aligned fd cs" and u: "update_chan ok fd alg 0 cs = Some (r, cs')"
  shows "first_only fd cs cs'"
proof -
  let ?c = "(cs ! 0)\<lparr>md_bindfd := fd, md_alg := (md_alg (cs ! 0))\<lparr>u_height := u_height alg, u_width := u_width alg,
    u_mb_height := u_mb_height alg, u_mb_width := u_mb_width alg, training_time := training_time alg, md_frame_count := md_frame_count alg,
    sensitive_th := sensitive_th alg\<rparr>\<rparr>"
  let ?c2 = "?c\<lparr>md_alg := (md_alg ?c)\<lparr>mb_w_num := mb_w_num alg, mb_h_num := mb_h_num alg\<rparr>\<rparr>"
  have ne: "cs \<noteq> []" by (rule aligned_nonempty [OF a])
  show "first_only fd cs cs'"
  proof (cases "mb_w_num alg * mb_h_num alg = 0")
    case True
    then have "cs' = cs[0 := ?c]" using u by (simp add: update_chan_def Let_def)
    then show ?thesis using ne by (simp add: first_only_upd)
  next
    case False
    then obtain rs where rs: "sub_region alg = Mem rs" using u by (auto simp: update_chan_def Let_def split: mem.splits)
    then obtain ds where ds: "each (update_region fd rs) [0..<nat (sint (sub_region_num alg))] (cs[0 := ?c2]) = Some ds"
      using u False by (auto simp: update_chan_def Let_def split: option.splits)
    then obtain ret c where c: "capture_motion_update ok (ds ! 0) = Some (ret, c)"
      using u False rs by (auto simp: update_chan_def Let_def split: option.splits)
    have cs': "\<exists>c'. cs' = ds[0 := c'] \<and> md_bindfd c' = md_bindfd c"
      using u False rs ds c by (auto simp: update_chan_def Let_def dest: capture_end_bindfd split: if_splits)
    have f1: "first_only fd cs (cs[0 := ?c2])" using ne by (simp add: first_only_upd)
    have "first_only fd (cs[0 := ?c2]) ds"
      by (rule each_first [OF first_only_aligned [OF a f1] ds update_region_first])
    then have f2: "first_only fd cs ds" by (rule first_only_trans [OF f1])
    then have "ds \<noteq> []" using ne by (auto simp: first_only_def)
    then have "first_only fd ds cs'" using cs' capture_update_bindfd [OF c] by (auto intro: first_only_upd)
    then show ?thesis by (rule first_only_trans [OF f2])
  qed
qed

lemma update_first:
  assumes "aligned fd cs" "motion_detection_update ok fd alg cs = Some (r, cs')"
  shows "first_only fd cs cs'"
  by (rule with_chan_first [OF assms(1) assms(2) [unfolded motion_detection_update_def] update_chan_first])

text \<open>The thread's state, as far as the history depends on it.\<close>

definition deaf :: "md_sys \<Rightarrow> bool" where
  "deaf s \<longleftrightarrow> aligned (motion_fd s) (md_chans s) \<and> dormant (md_chans s ! 31) \<and> (\<forall>r \<in> set (md_results s). silent r) \<and>
     mdTrigger s \<noteq> 1 \<and> ullbitsMDstate s = 0"

lemma first_only_deaf:
  assumes "deaf s" "first_only (motion_fd s) (md_chans s) cs"
  shows "aligned (motion_fd s) cs \<and> dormant (cs ! 31)"
  using assms first_only_aligned by (auto simp: deaf_def first_only_def aligned_def MAX_CAP_MD_NUM_def)

lemma set_motion_param_parts:
  assumes "set_motion_param ok cfg s = Some (r, s')"
  shows "motion_fd s' = motion_fd s \<and> md_results s' = md_results s \<and> mdTrigger s' = mdTrigger s \<and> ullbitsMDstate s' = ullbitsMDstate s"
  using assms by (auto simp: set_motion_param_def Let_def split: option.splits if_splits mem.splits)

lemma set_motion_param_chans:
  assumes "set_motion_param ok cfg s = Some (r, s')" "P (md_chans s)"
    and "\<And>al ret cs. motion_detection_update ok (motion_fd s) al (md_chans s) = Some (ret, cs) \<Longrightarrow> P cs"
  shows "P (md_chans s')"
  using assms(1,2)
  by (auto simp: set_motion_param_def Let_def split: option.splits if_splits mem.splits) (erule assms(3))+

lemma set_motion_param_deaf: "set_motion_param ok cfg s = Some (r, s') \<Longrightarrow> deaf s \<Longrightarrow> deaf s'"
proof -
  assume p: "set_motion_param ok cfg s = Some (r, s')" and d: "deaf s"
  have "first_only (motion_fd s) (md_chans s) (md_chans s')"
    by (rule set_motion_param_chans [OF p first_only_refl], erule update_first [rotated]) (use d in \<open>simp add: deaf_def\<close>)
  then show "deaf s'" using d first_only_deaf [OF d] set_motion_param_parts [OF p] by (simp add: deaf_def)
qed

lemma motion_round_deaf: "motion_round env cb inp s = Some s' \<Longrightarrow> deaf s \<Longrightarrow> deaf s'"
proof -
  assume p: "motion_round env cb inp s = Some s'" and d: "deaf s"
  obtain now ret bind caps where inp: "inp = (now, ret, bind, caps)" by (cases inp)
  have len: "length (md_chans s) = MAX_CAP_MD_NUM" using d by (simp add: deaf_def aligned_def)
  show "deaf s'"
  proof (cases "motion_enable s = 0 \<or> ret < 0")
    case False
    obtain cs g rs where h: "motion_detection_handling env cb bind caps (md_chans s, md_globals s, md_results s) = Some (cs, g, rs)"
      "s' = note_second now (s\<lparr>md_chans := cs, md_globals := g, md_results := rs, mdTrigger := note_trigger rs (mdTrigger s)\<rparr>)"
      using p False by (auto simp: motion_round_def inp split: option.splits)
    have "dormant (md_chans s ! 31)" "\<forall>r \<in> set (md_results s). silent r" using d by (simp_all add: deaf_def)
    note k = handling_last [OF h(1) len this]
    have "aligned (motion_fd s) cs" using k(1,2) by (auto simp: aligned_def MAX_CAP_MD_NUM_def)
    then show ?thesis
      using d k(3,4) by (simp add: h(2) note_second_def note_silent [OF k(4)] deaf_def)
  qed (use p d in \<open>auto simp: motion_round_def inp split: if_splits\<close>)
qed

lemma md_step_deaf: "md_step ok env cb op s = Some s' \<Longrightarrow> deaf s \<Longrightarrow> deaf s'"
  by (cases op) (auto dest: set_motion_param_deaf motion_round_deaf)

text \<open>The state before \<^verbatim>\<open>init_motion_server\<close>: everything is zero but the locals of the thread.\<close>

definition zero_reg :: mdt_reg where
  "zero_reg = \<lparr>is_enabled = 0, start_block_x = 0, start_block_y = 0, end_block_x = 0, end_block_y = 0, alarm_th = 0, reg_alarm = 0\<rparr>"

definition zero_alg :: mdt_alg where
  "zero_alg = \<lparr>sub_region = Null, sub_region_num = 0, u_height = 0, u_width = 0, u_mb_height = 0, u_mb_width = 0, sensitive_th = 0,
     md_frame_count = 0, training_time = 0, mb_w_num = 0, mb_h_num = 0\<rparr>"

definition zero_chan :: md_chan where
  "zero_chan = \<lparr>md_alg = zero_alg, k_height = 0, k_width = 0, k_mb_height = 0, k_mb_width = 0, md_bindfd = 0, active_flag = Null,
     active_num = 0, cap_motion_init_ok = False, user_motion_size = 0, is_parsing_init_ok = False, transform_matrix = Null,
     kernel_mv_data = Null, g_blk_w_num = 0, g_blk_h_num = 0, g_user_width = 0, g_user_height = 0, g_mb_w_num = 0, g_mb_h_num = 0,
     parsing_user_motion_size = 0\<rparr>"

definition zero_sys :: "nat \<Rightarrow> int \<Rightarrow> 64 word \<Rightarrow> md_sys" where
  "zero_sys n trig bak = \<lparr>md_chans = replicate MAX_CAP_MD_NUM zero_chan, md_globals = zero_glob,
     md_results = replicate n \<lparr>res_bindfd = 0, ch_result = 0, reg_results = replicate MAX_MOTION_NUM 0\<rparr>, user_alg = zero_alg,
     motion_init = 0, motion_enable = 0, motion_fd = 0, max_width = 0, max_height = 0, mdTrigger = trig, ullBakTime = bak,
     ullbitsMDstate = 0\<rparr>"

lemma parsing_mv_initial_alg: "parsing_mv_initial ok w h c = Some (r, c') \<Longrightarrow> md_alg c' = md_alg c \<and> md_bindfd c' = md_bindfd c"
  by (auto simp: parsing_mv_initial_def parsing_clear_def Let_def split: if_splits option.splits mem.splits)

lemma parsing_mv_end_alg: "parsing_mv_end c = Some (r, c') \<Longrightarrow> md_alg c' = md_alg c \<and> md_bindfd c' = md_bindfd c"
  by (auto simp: parsing_mv_end_def split: option.splits)

lemma capture_init_dormant:
  assumes "capture_motion_init ok c = Some (r, c')" "sub_region (md_alg c) = Null"
  shows "dormant c' \<and> md_bindfd c' = md_bindfd c \<and> r = 0"
  using assms
  by (auto simp: capture_motion_init_def Let_def dormant_def clear_kernel_def malloc_def closed_region_def MOTION_DETECTED_def
      dest!: parsing_mv_initial_alg parsing_mv_end_alg split: if_splits option.splits)

lemma map_chans_all:
  assumes "map_chans f r cs = Some (ret, cs')" "\<And>c r c'. c \<in> set cs \<Longrightarrow> f c = Some (r, c') \<Longrightarrow> P c'"
  shows "length cs' = length cs \<and> (\<forall>c \<in> set cs'. P c)"
  using assms
proof (induction cs arbitrary: r cs')
  case (Cons c cs)
  obtain r1 d ds where "f c = Some (r1, d)" "map_chans f r1 cs = Some (ret, ds)" "cs' = d # ds"
    using Cons.prems(1) by (auto split: option.splits)
  then show ?case using Cons.IH [of r1 ds] Cons.prems(2) by auto
qed simp

lemma init_deaf:
  assumes i: "init_motion_server ok fd w h (zero_sys n trig bak) = Some (0, s)" and t: "trig \<noteq> 1"
  shows "deaf s"
proof -
  let ?s0 = "zero_sys n trig bak"
  obtain cs where cs: "\<exists>r. map_chans (init_chan ok (word_of_int w) (word_of_int h)) 0 (md_chans ?s0) = Some (r, cs)"
    "md_chans s = cs" "md_results s = md_results ?s0" "mdTrigger s = trig" "ullbitsMDstate s = 0"
    using i by (auto simp: init_motion_server_def init_motion_param_def motion_detection_init_def Let_def zero_sys_def
        split: if_splits option.splits)
  then obtain r where r: "map_chans (init_chan ok (word_of_int w) (word_of_int h)) 0 (md_chans ?s0) = Some (r, cs)" by blast
  have one: "dormant c' \<and> md_bindfd c' = 0" if "c \<in> set (md_chans ?s0)" "init_chan ok (word_of_int w) (word_of_int h) c = Some (r, c')" for c r c'
  proof -
    have z: "sub_region (md_alg c) = Null" using that(1) by (simp add: zero_sys_def zero_chan_def zero_alg_def)
    let ?c = "c\<lparr>md_bindfd := 0, md_alg := (md_alg c)\<lparr>u_height := word_of_int h, u_width := word_of_int w, u_mb_height := 32,
      u_mb_width := 32, training_time := 15, md_frame_count := 0, sensitive_th := 80, mb_w_num := 0, mb_h_num := 0\<rparr>\<rparr>"
    have "capture_motion_init ok ?c = Some (r, c') \<or> (\<exists>r' d. capture_motion_init ok ?c = Some (r', d) \<and> r' < 0)"
      using that(2) by (auto simp: init_chan_def split: option.splits if_splits)
    then show ?thesis using capture_init_dormant [of ok ?c] z by fastforce
  qed
  have "length cs = length (md_chans ?s0) \<and> (\<forall>c \<in> set cs. dormant c \<and> md_bindfd c = 0)"
    by (rule map_chans_all [OF r]) (rule one)
  then have "length cs = MAX_CAP_MD_NUM" "\<forall>c \<in> set cs. dormant c \<and> md_bindfd c = 0"
    by (simp_all add: zero_sys_def)
  moreover have "\<forall>r \<in> set (md_results s). silent r"
    by (simp add: cs zero_sys_def silent_def MOTION_IS_READY_def)
  ultimately show ?thesis using t by (auto simp: deaf_def aligned_def cs MAX_CAP_MD_NUM_def intro!: exI [of _ 0])
qed

lemma dana_push_round_eq:
  "dana_push_round bits p = (if mdtriggerd p \<le> 0 then p\<lparr>pushed := pushed p + 1, mdtriggerd := 1\<rparr> else p)"
  by (simp add: dana_push_round_def c_eq_def Let_def)

lemma pushed_fold: "0 < mdtriggerd p \<Longrightarrow> fold dana_push_round bits p = p"
  by (induction bits) (simp_all add: dana_push_round_eq)

text \<open>C32: However the rounds of the thread and the changes of its regions follow each other, the history of seconds stays empty: the
  results that it is made from are those of the last of the 32 channels, and only the first is ever configured. And the cloud client
  that polls the history pushes one message when it starts, and never one again, whatever the history says.\<close>

theorem motion_never_reaches_cloud:
  assumes "init_motion_server ok fd w h (zero_sys n trig bak) = Some (0, s)" "trig \<noteq> 1" "each (md_step ok env cb) ops s = Some s'"
  shows "ullbitsMDstate s' = 0 \<and>
    pushed (fold dana_push_round bits \<lparr>mdtriggerd = -1, pushed = 0\<rparr>) = (if bits = [] then 0 else 1)"
proof
  show "ullbitsMDstate s' = 0"
    using each_inv [OF assms(3), of deaf, OF init_deaf [OF assms(1,2)] md_step_deaf] by (simp add: deaf_def)
  show "pushed (fold dana_push_round bits \<lparr>mdtriggerd = -1, pushed = 0\<rparr>) = (if bits = [] then 0 else 1)"
    by (cases bits) (simp_all add: dana_push_round_eq pushed_fold)
qed

section \<open>Configuration\<close>

lemma own_idx: "md_bindfd (cs ! 0) = fd \<Longrightarrow> cs \<noteq> [] \<Longrightarrow> bindfd_to_mdt_idx fd cs = (0, cs)"
  using find_first [of "length cs" "\<lambda>i. md_bindfd (cs ! i) = fd"] by (simp add: bindfd_to_mdt_idx_def find_chan_def)

text \<open>The rectangle of a region, and the check of \<^verbatim>\<open>set_sub_region_internal\<close>.\<close>

definition corners :: "mdt_reg \<Rightarrow> int \<times> int \<times> int \<times> int" where
  "corners r = (start_block_x r, start_block_y r, end_block_x r, end_block_y r)"

definition accepted :: "nat \<Rightarrow> nat \<Rightarrow> int \<times> int \<times> int \<times> int \<Rightarrow> bool" where
  "accepted bw bh q = (case q of (sx, sy, ex, ey) \<Rightarrow>
     0 \<le> sx \<and> 0 \<le> sy \<and> 0 \<le> ex \<and> 0 \<le> ey \<and> sx \<le> int bw \<and> ex \<le> int bw \<and> sy \<le> int bh \<and> ey \<le> int bh)"

definition take_area :: "mdt_reg \<Rightarrow> mdt_reg \<Rightarrow> mdt_reg" where
  "take_area sr r = r\<lparr>start_block_x := start_block_x sr, start_block_y := start_block_y sr,
     end_block_x := end_block_x sr, end_block_y := end_block_y sr, alarm_th := alarm_th sr, reg_alarm := -5\<rparr>"

definition new_region :: "nat \<Rightarrow> nat \<Rightarrow> mdt_reg list \<Rightarrow> nat \<Rightarrow> mdt_reg \<Rightarrow> mdt_reg" where
  "new_region bw bh rs i r =
     (if is_enabled (rs ! i) = 0 then closed_region else if accepted bw bh (corners (rs ! 0)) then take_area (rs ! 0) r else r)"

definition with_regions :: "mdt_reg list \<Rightarrow> md_chan list \<Rightarrow> md_chan list" where
  "with_regions regs cs = cs[0 := (cs ! 0)\<lparr>md_alg := (md_alg (cs ! 0))\<lparr>sub_region := Mem regs\<rparr>\<rparr>]"

lemma update_region_ok:
  assumes cs: "md_bindfd (cs ! 0) = fd" "cs \<noteq> []" "sub_region (md_alg (cs ! 0)) = Mem regs" "length regs = MAX_SUBREGION_NUM"
    and b: "sint (mb_w_num (md_alg (cs ! 0))) = int bw" "sint (mb_h_num (md_alg (cs ! 0))) = int bh"
    and i: "i < MAX_SUBREGION_NUM" "i < length rs"
  shows "update_region fd rs i cs = Some (with_regions (regs[i := new_region bw bh rs i (regs ! i)]) cs)"
proof -
  note idx = own_idx [OF cs(1,2)]
  have sr: "set_region i f (cs ! 0) = Some ((cs ! 0)\<lparr>md_alg := (md_alg (cs ! 0))\<lparr>sub_region := Mem (regs[i := f (regs ! i)])\<rparr>\<rparr>)" for f
    using cs i by (simp add: set_region_def)
  have keep: "with_regions regs cs = cs"
    using cs(2,3) by (cases cs) (simp_all add: with_regions_def)
  show ?thesis
  proof (cases "is_enabled (rs ! i) = 0")
    case True
    then show ?thesis
      using i by (simp add: update_region_def get_at_int close_sub_region_internal_def with_chan_def idx sr new_region_def with_regions_def)
  next
    case False
    then show ?thesis
      using i keep
      by (simp add: update_region_def get_at_int set_sub_region_internal_def with_chan_def idx sr new_region_def b
          accepted_def corners_def take_area_def Let_def) (auto simp: with_regions_def)
  qed
qed

lemma update_regions_ok:
  assumes cs: "md_bindfd (cs ! 0) = fd" "cs \<noteq> []" "sub_region (md_alg (cs ! 0)) = Mem regs" "length regs = MAX_SUBREGION_NUM"
    and b: "sint (mb_w_num (md_alg (cs ! 0))) = int bw" "sint (mb_h_num (md_alg (cs ! 0))) = int bh"
    and n: "n \<le> MAX_SUBREGION_NUM" "n \<le> length rs"
  shows "each (update_region fd rs) [0..<n] cs =
    Some (with_regions (List.map (\<lambda>i. if i < n then new_region bw bh rs i (regs ! i) else regs ! i) [0..<MAX_SUBREGION_NUM]) cs)"
  using n
proof (induction n)
  case 0
  have "List.map (\<lambda>i. regs ! i) [0..<MAX_SUBREGION_NUM] = regs" using cs(4) by (metis map_nth)
  then show ?case using cs(2,3) by (cases cs) (simp_all add: with_regions_def)
next
  case (Suc n)
  let ?r = "\<lambda>n. List.map (\<lambda>i. if i < n then new_region bw bh rs i (regs ! i) else regs ! i) [0..<MAX_SUBREGION_NUM]"
  let ?cs = "with_regions (?r n) cs"
  have c: "md_bindfd (?cs ! 0) = fd" "?cs \<noteq> []" "sub_region (md_alg (?cs ! 0)) = Mem (?r n)" "length (?r n) = MAX_SUBREGION_NUM"
    "sint (mb_w_num (md_alg (?cs ! 0))) = int bw" "sint (mb_h_num (md_alg (?cs ! 0))) = int bh"
    using cs b by (simp_all add: with_regions_def)
  have "(?r n)[n := new_region bw bh rs n (?r n ! n)] = ?r (Suc n)"
    using Suc.prems by (intro nth_equalityI) (auto simp: nth_list_update less_Suc_eq)
  moreover have "with_regions x ?cs = with_regions x cs" for x using cs(2) by (simp add: with_regions_def)
  ultimately have "update_region fd rs n ?cs = Some (with_regions (?r (Suc n)) cs)"
    using update_region_ok [OF c, of n rs] Suc.prems by (simp del: upt_Suc)
  then show ?case using Suc by (simp add: each_append del: upt_rec_numeral)
qed

text \<open>A channel whose memory is large enough is set up again without an allocation.\<close>

definition roomy :: "nat \<Rightarrow> nat \<Rightarrow> md_chan \<Rightarrow> bool" where
  "roomy bw bh c \<longleftrightarrow> int (bh * bw) \<le> user_motion_size c \<and> int (bh * bw) \<le> parsing_user_motion_size c"

definition cleared :: "md_chan \<Rightarrow> md_chan \<Rightarrow> bool" where
  "cleared c c' \<longleftrightarrow> md_alg c' = md_alg c \<and> md_bindfd c' = md_bindfd c \<and> k_width c' = 0 \<and> k_height c' = 0"

lemma set_at_start: "length ys \<le> length xs \<Longrightarrow> \<exists>zs. set_at 0 ys xs = Some zs \<and> length zs = length xs"
  by (simp add: set_at_def length_put_at)

lemma capture_update_ok:
  assumes c: "chan_ok bw bh c" "roomy bw bh c"
  shows "\<exists>c'. capture_motion_update ok c = Some (0, c') \<and> chan_ok bw bh c' \<and> roomy bw bh c' \<and> cleared c c'"
proof -
  obtain k m fl where mem: "kernel_mv_data c = Mem k" "length k = CAP_MOTION_SIZE" "transform_matrix c = Mem m" "4 * (bh * bw) \<le> length m"
    "active_flag c = Mem fl" "bh * bw \<le> length fl" using c(1) by (auto simp: chan_ok_def)
  have le: "bw \<le> 128" "bh \<le> 128" and init: "cap_motion_init_ok c" using c(1) by (auto simp: chan_ok_def)
  note us = block_sizes(1,2) [OF c(1)]
  have small: "bh * bw \<le> 16384" using mult_le_mono [OF le(2) le(1)] by simp
  have sz: "in_int32 (int bh * int bw)" "in_int32 (int bw * int bh)" "csize (int bh * int bw) = bh * bw"
  proof -
    have i: "int bh * int bw = int (bh * bw)" "int bw * int bh = int (bh * bw)" by simp_all
    show "in_int32 (int bh * int bw)" "in_int32 (int bw * int bh)" unfolding i using small by (simp_all add: in_int32_def del: of_nat_mult)
    show "csize (int bh * int bw) = bh * bw" unfolding i csize_def of_int_of_nat_eq by (rule unat_small) (use small in simp)
  qed
  have room: "int bh * int bw \<le> user_motion_size c" "int bw * int bh \<le> parsing_user_motion_size c"
    using c(2) by (simp_all add: roomy_def mult.commute)
  have n: "nat (int bw * int bh) = bh * bw" by (simp add: nat_mult_distrib)
  obtain fl' where fl': "set_at 0 (replicate (bh * bw) 0) fl = Some fl'" "length fl' = length fl"
    using set_at_start [of "replicate (bh * bw) 0" fl] mem(6) by auto
  obtain m' where m': "set_at 0 (replicate (4 * (bh * bw)) 0) m = Some m'" "length m' = length m"
    using set_at_start [of "replicate (4 * (bh * bw)) 0" m] mem(4) by auto
  obtain k' where k': "set_at 0 (replicate CAP_MOTION_SIZE 0) k = Some k'" "length k' = length k"
    using set_at_start [of "replicate CAP_MOTION_SIZE 0" k] mem(2) by auto
  let ?c = "clear_kernel c\<lparr>active_flag := Mem fl', active_num := 0, transform_matrix := Mem m', kernel_mv_data := Mem k', g_blk_w_num := 0,
    g_blk_h_num := 0, g_user_width := 0, g_user_height := 0, g_mb_w_num := 0, g_mb_h_num := 0, is_parsing_init_ok := True\<rparr>"
  have "parsing_mv_initial ok (mb_w_num (md_alg c)) (mb_h_num (md_alg c)) (clear_kernel c\<lparr>active_flag := Mem fl', active_num := 0\<rparr>) = Some (0, ?c)"
    using room sz m' k' n by (simp add: parsing_mv_initial_def parsing_clear_def us Let_def clear_kernel_def mem not_less)
  then have "capture_motion_update ok c = Some (0, ?c)"
    using room fl' by (simp add: capture_motion_update_def us Let_def init sz mem not_less)
  moreover have "chan_ok bw bh ?c" using c(1) mem fl'(2) m'(2) k'(2) by (simp add: chan_ok_def clear_kernel_def)
  moreover have "roomy bw bh ?c" using c(2) by (simp add: roomy_def clear_kernel_def)
  moreover have "cleared c ?c" by (simp add: cleared_def clear_kernel_def)
  ultimately show ?thesis by blast
qed


text \<open>The state of \<^verbatim>\<open>motion.c\<close> after \<^verbatim>\<open>init_motion_server\<close>, for a picture of \<open>bw\<close> by \<open>bh\<close> blocks.\<close>

definition user_ok :: "nat \<Rightarrow> nat \<Rightarrow> md_sys \<Rightarrow> bool" where
  "user_ok bw bh s \<longleftrightarrow> motion_init s \<noteq> 0 \<and> 0 < max_width s \<and> max_width s \<le> 4096 \<and> 0 < max_height s \<and> max_height s \<le> 4096 \<and>
     bw = (nat (max_width s) + 31) div 32 \<and> bh = (nat (max_height s) + 31) div 32 \<and>
     mb_w_num (user_alg s) = of_nat bw \<and> mb_h_num (user_alg s) = of_nat bh \<and> unat (sensitive_th (user_alg s)) \<le> 100 \<and>
     (\<exists>urs. sub_region (user_alg s) = Mem urs \<and> length urs = 4)"

definition rect_of :: "nat \<Rightarrow> nat \<Rightarrow> md_sys \<Rightarrow> 16 word \<times> 16 word \<times> 16 word \<times> 16 word \<Rightarrow> int \<times> int \<times> int \<times> int" where
  "rect_of bw bh s area = (case area of (x, y, w, h) \<Rightarrow>
     (cdiv (int bw * uint x) (max_width s), cdiv (int bh * uint y) (max_height s),
      cdiv (int bw * uint w) (max_width s) - 1, cdiv (int bh * uint h) (max_height s) - 1))"

lemma blocks_of:
  assumes "0 < W" "W \<le> 4096"
  shows "((word_of_int W :: cuint) + 31) div 32 = of_nat ((nat W + 31) div 32)" "0 < (nat W + 31) div 32" "(nat W + 31) div 32 \<le> 128"
proof -
  obtain n where n: "W = int n" using assms(1) by (metis less_imp_le nonneg_int_cases)
  have "unat (((word_of_nat (n + 31)) :: cuint) div 32) = (n + 31) div 32"
    using assms n unat_small [of "n + 31"] by (simp add: unat_div)
  moreover have "unat (word_of_nat ((n + 31) div 32) :: cuint) = (n + 31) div 32"
    by (rule unat_small) (use assms n in simp)
  ultimately have "(word_of_nat (n + 31) :: cuint) div 32 = word_of_nat ((n + 31) div 32)" by (simp only: word_unat_eq_iff)
  then show "((word_of_int W :: cuint) + 31) div 32 = of_nat ((nat W + 31) div 32)" by (simp add: n add.commute)
  show "0 < (nat W + 31) div 32" "(nat W + 31) div 32 \<le> 128" using assms n by auto
qed

lemma area_corners:
  assumes "u_width (user_alg s) = word_of_int (max_width s)" "u_height (user_alg s) = word_of_int (max_height s)"
    "u_mb_width (user_alg s) = 32" "u_mb_height (user_alg s) = 32" and s: "user_ok bw bh s"
  shows "corners (area_region s cfg i r) = rect_of bw bh s (vda_area cfg ! i)"
proof -
  have wh: "0 < max_width s" "max_width s \<le> 4096" "0 < max_height s" "max_height s \<le> 4096"
    and b: "bw = (nat (max_width s) + 31) div 32" "bh = (nat (max_height s) + 31) div 32" using s by (simp_all add: user_ok_def)
  have "sint ((u_width (user_alg s) + (u_mb_width (user_alg s) - 1)) div u_mb_width (user_alg s)) = int bw"
    "sint ((u_height (user_alg s) + (u_mb_height (user_alg s) - 1)) div u_mb_height (user_alg s)) = int bh"
    using blocks_of [OF wh(1,2)] blocks_of [OF wh(3,4)] by (simp_all add: assms b sint_small)
  then show ?thesis by (simp add: area_region_def corners_def rect_of_def Let_def split: prod.split)
qed

text \<open>The first channel has the handle, or is the first without one.\<close>

definition first_chan :: "nat \<Rightarrow> md_chan list \<Rightarrow> bool" where
  "first_chan fd cs \<longleftrightarrow> cs \<noteq> [] \<and> (md_bindfd (cs ! 0) = fd \<or> md_bindfd (cs ! 0) = 0 \<and> find_chan fd cs = None)"

lemma first_chan_idx: "first_chan fd cs \<Longrightarrow> bindfd_to_mdt_idx fd cs = (0, cs[0 := (cs ! 0)\<lparr>md_bindfd := fd\<rparr>])"
proof -
  assume f: "first_chan fd cs"
  show ?thesis
  proof (cases "md_bindfd (cs ! 0) = fd")
    case True
    moreover have "cs[0 := (cs ! 0)\<lparr>md_bindfd := fd\<rparr>] = cs" using True by (cases cs) auto
    ultimately show ?thesis using f own_idx [of cs fd] by (simp add: first_chan_def)
  next
    case False
    then show ?thesis
      using f find_first [of "length cs" "\<lambda>i. md_bindfd (cs ! i) = 0"] by (simp add: first_chan_def bindfd_to_mdt_idx_def find_chan_def)
  qed
qed

lemma update_ok:
  assumes f: "first_chan fd cs" and c: "chan_ok bw bh (cs ! 0)" "roomy bw bh (cs ! 0)"
    and regs: "sub_region (md_alg (cs ! 0)) = Mem regs" "length regs = MAX_SUBREGION_NUM"
    and al: "u_mb_width al = 32" "u_mb_height al = 32" "mb_w_num al = of_nat bw" "mb_h_num al = of_nat bh"
      "(u_width al + 31) div 32 = of_nat bw" "unat (sensitive_th al) \<le> 100" "sub_region al = Mem rs" "length rs = 4" "sub_region_num al = 4"
  shows "\<exists>c'. motion_detection_update ok fd al cs = Some (0, cs[0 := c']) \<and> chan_ok bw bh c' \<and> roomy bw bh c' \<and> md_bindfd c' = fd \<and>
    k_width c' = 0 \<and> k_height c' = 0 \<and> training_time (md_alg c') = training_time al \<and> sensitive_th (md_alg c') = sensitive_th al \<and>
    md_frame_count (md_alg c') = md_frame_count al \<and>
    sub_region (md_alg c') = Mem (List.map (\<lambda>i. if i < 4 then new_region bw bh rs i (regs ! i) else regs ! i) [0..<MAX_SUBREGION_NUM])"
proof -
  let ?c = "(cs ! 0)\<lparr>md_bindfd := fd, md_alg := (md_alg (cs ! 0))\<lparr>u_height := u_height al, u_width := u_width al,
    u_mb_height := u_mb_height al, u_mb_width := u_mb_width al, training_time := training_time al, md_frame_count := md_frame_count al,
    sensitive_th := sensitive_th al, mb_w_num := mb_w_num al, mb_h_num := mb_h_num al\<rparr>\<rparr>"
  let ?cs = "cs[0 := ?c]"
  let ?regs = "List.map (\<lambda>i. if i < 4 then new_region bw bh rs i (regs ! i) else regs ! i) [0..<MAX_SUBREGION_NUM]"
  have ne: "cs \<noteq> []" using f by (simp add: first_chan_def)
  have le: "0 < bw" "bw \<le> 128" "0 < bh" "bh \<le> 128" using c(1) by (simp_all add: chan_ok_def)
  have nz: "mb_w_num al * mb_h_num al \<noteq> 0"
  proof
    assume "mb_w_num al * mb_h_num al = 0"
    then have "unat (word_of_nat (bw * bh) :: cuint) = 0" by (simp add: al)
    moreover have "bw * bh \<le> 128 * 128" by (rule mult_le_mono) (use le in simp_all)
    ultimately show False using unat_small [of "bw * bh"] le by simp
  qed
  have c1: "chan_ok bw bh ?c" using c(1) al by (simp add: chan_ok_def)
  have loop: "each (update_region fd rs) [0..<4] ?cs = Some (with_regions ?regs ?cs)"
    by (rule update_regions_ok) (use ne regs al(8) block_sizes(1,2) [OF c1] in \<open>simp_all add: MAX_SUBREGION_NUM_def\<close>)
  let ?c2 = "?c\<lparr>md_alg := (md_alg ?c)\<lparr>sub_region := Mem ?regs\<rparr>\<rparr>"
  have w: "with_regions ?regs ?cs = cs[0 := ?c2]" using ne by (simp add: with_regions_def)
  have c2: "chan_ok bw bh ?c2" "roomy bw bh ?c2" using c1 c(2) by (simp_all add: chan_ok_def roomy_def)
  obtain c' where c': "capture_motion_update ok ?c2 = Some (0, c')" "chan_ok bw bh c'" "roomy bw bh c'" "cleared ?c2 c'"
    using capture_update_ok [OF c2] by blast
  have "motion_detection_update ok fd al cs = Some (0, cs[0 := c'])"
    using ne nz loop c'(1)
    by (simp add: motion_detection_update_def with_chan_def first_chan_idx [OF f] update_chan_def Let_def al(7,9) w del: upt_rec_numeral)
  then show ?thesis using c'(2-4) by (auto simp: cleared_def)
qed


lemma set_motion_param_ok:
  assumes s: "user_ok bw bh s" and f: "first_chan (motion_fd s) (md_chans s)"
    and c: "chan_ok bw bh (md_chans s ! 0)" "roomy bw bh (md_chans s ! 0)"
    and regs: "sub_region (md_alg (md_chans s ! 0)) = Mem regs" "length regs = MAX_SUBREGION_NUM"
    and areas: "4 \<le> length (vda_area cfg)"
  shows "\<exists>s' c' rs. set_motion_param ok (Some cfg) s = Some (0, s') \<and> md_chans s' = (md_chans s)[0 := c'] \<and>
    chan_ok bw bh c' \<and> roomy bw bh c' \<and> md_bindfd c' = motion_fd s \<and> k_width c' = 0 \<and> k_height c' = 0 \<and>
    md_frame_count (md_alg c') = 0 \<and> training_time (md_alg c') = 15 \<and> sensitive_th (md_alg c') = sensitive_th (user_alg s) \<and>
    sub_region (md_alg c') = Mem (List.map (\<lambda>i. if i < 4 then new_region bw bh rs i (regs ! i) else regs ! i) [0..<MAX_SUBREGION_NUM]) \<and>
    (\<forall>i < 4. corners (rs ! i) = rect_of bw bh s (vda_area cfg ! i) \<and> alarm_th (rs ! i) = uint (vda_sensitive cfg) * 20 \<and>
       (TEST_BIT (vda_mask cfg) (i + 1) \<noteq> 0 \<longrightarrow> is_enabled (rs ! i) \<noteq> 0)) \<and>
    md_globals s' = md_globals s \<and> motion_enable s' = (if vda_sensitive cfg > 0 then 1 else 0) \<and> md_results s' = md_results s"
proof -
  let ?al = "user_alg s\<lparr>u_mb_width := 32, u_mb_height := 32, training_time := 15, md_frame_count := 0,
      u_width := word_of_int (max_width s), u_height := word_of_int (max_height s)\<rparr>"
  let ?s = "s\<lparr>user_alg := ?al\<rparr>"
  obtain urs where urs: "sub_region (user_alg s) = Mem urs" "length urs = 4" using s by (auto simp: user_ok_def)
  let ?rs = "List.map (\<lambda>i. area_region ?s cfg i (urs ! i)) [0..<4] @ drop 4 urs"
  let ?al2 = "?al\<lparr>sub_region := Mem ?rs, sub_region_num := 4\<rparr>"
  have dims: "0 < max_width s" "max_width s \<le> 4096" "0 < max_height s" "motion_init s \<noteq> 0" using s by (auto simp: user_ok_def)
  have b: "bw = (nat (max_width s) + 31) div 32" using s by (simp add: user_ok_def)
  have len: "length ?rs = 4" using urs by simp
  obtain c' where c': "motion_detection_update ok (motion_fd s) ?al2 (md_chans s) = Some (0, (md_chans s)[0 := c'])"
    "chan_ok bw bh c'" "roomy bw bh c'" "md_bindfd c' = motion_fd s" "k_width c' = 0" "k_height c' = 0" "training_time (md_alg c') = 15"
    "sensitive_th (md_alg c') = sensitive_th (user_alg s)" "md_frame_count (md_alg c') = 0"
    "sub_region (md_alg c') = Mem (List.map (\<lambda>i. if i < 4 then new_region bw bh ?rs i (regs ! i) else regs ! i) [0..<MAX_SUBREGION_NUM])"
    using update_ok [OF f c regs, of ?al2 ?rs ok] s len blocks_of(1) [OF dims(1,2)] by (auto simp: user_ok_def b)
  let ?s2 = "?s\<lparr>user_alg := ?al2, motion_enable := (if vda_sensitive cfg > 0 then 1 else 0), md_chans := (md_chans s)[0 := c']\<rparr>"
  have p: "set_motion_param ok (Some cfg) s = Some (0, ?s2)"
    using dims urs areas c'(1) by (simp add: set_motion_param_def Let_def not_less del: upt_rec_numeral)
  have u: "user_ok bw bh ?s" using s by (simp add: user_ok_def)
  have "corners (?rs ! i) = rect_of bw bh s (vda_area cfg ! i) \<and> alarm_th (?rs ! i) = uint (vda_sensitive cfg) * 20 \<and>
       (TEST_BIT (vda_mask cfg) (i + 1) \<noteq> 0 \<longrightarrow> is_enabled (?rs ! i) \<noteq> 0)" if i: "i < 4" for i
  proof -
    have e: "?rs ! i = area_region ?s cfg i (urs ! i)" using i by (simp add: nth_append del: upt_rec_numeral)
    have "corners (?rs ! i) = rect_of bw bh ?s (vda_area cfg ! i)"
      unfolding e by (rule area_corners [OF _ _ _ _ u]) simp_all
    moreover have "rect_of bw bh ?s = rect_of bw bh s" by (simp add: rect_of_def fun_eq_iff)
    ultimately show ?thesis unfolding e by (simp add: area_region_def Let_def split: prod.split)
  qed
  then show ?thesis using p c'(2-10) by (intro exI [of _ ?s2] exI [of _ c'] exI [of _ ?rs]) simp
qed

text \<open>C33: Whatever areas the user draws, every region that is on gets the rectangle of the first area, if that passes the bounds
  check, and keeps the rectangle that it had before, if not; no other area is ever used.\<close>

theorem regions_collapse:
  assumes "user_ok bw bh s" "first_chan (motion_fd s) (md_chans s)" "chan_ok bw bh (md_chans s ! 0)" "roomy bw bh (md_chans s ! 0)"
    and "sub_region (md_alg (md_chans s ! 0)) = Mem regs" "length regs = MAX_SUBREGION_NUM" "4 \<le> length (vda_area cfg)"
  shows "\<exists>s' regs'. set_motion_param ok (Some cfg) s = Some (0, s') \<and> sub_region (md_alg (md_chans s' ! 0)) = Mem regs' \<and>
    (\<forall>i < 4. TEST_BIT (vda_mask cfg) (i + 1) \<noteq> 0 \<longrightarrow>
      corners (regs' ! i) = (if accepted bw bh (rect_of bw bh s (vda_area cfg ! 0)) then rect_of bw bh s (vda_area cfg ! 0)
                             else corners (regs ! i)))"
proof -
  obtain s' c' rs where p: "set_motion_param ok (Some cfg) s = Some (0, s')" "md_chans s' = (md_chans s)[0 := c']"
    "sub_region (md_alg c') = Mem (List.map (\<lambda>i. if i < 4 then new_region bw bh rs i (regs ! i) else regs ! i) [0..<MAX_SUBREGION_NUM])"
    "\<forall>i < 4. corners (rs ! i) = rect_of bw bh s (vda_area cfg ! i) \<and> (TEST_BIT (vda_mask cfg) (i + 1) \<noteq> 0 \<longrightarrow> is_enabled (rs ! i) \<noteq> 0)"
    using set_motion_param_ok [OF assms, of ok] by blast
  let ?regs = "List.map (\<lambda>i. if i < 4 then new_region bw bh rs i (regs ! i) else regs ! i) [0..<MAX_SUBREGION_NUM]"
  have "md_chans s \<noteq> []" using assms(2) by (simp add: first_chan_def)
  then have "sub_region (md_alg (md_chans s' ! 0)) = Mem ?regs" using p(2,3) by simp
  moreover have "corners (?regs ! i) = (if accepted bw bh (rect_of bw bh s (vda_area cfg ! 0)) then rect_of bw bh s (vda_area cfg ! 0)
      else corners (regs ! i))" if i: "i < 4" "TEST_BIT (vda_mask cfg) (i + 1) \<noteq> 0" for i
  proof -
    have on: "is_enabled (rs ! i) \<noteq> 0" and c0: "corners (rs ! 0) = rect_of bw bh s (vda_area cfg ! 0)" using p(4) i by auto
    have e: "?regs ! i = new_region bw bh rs i (regs ! i)" using i by (simp add: MAX_SUBREGION_NUM_def del: upt_rec_numeral)
    have t: "corners (take_area r r') = corners r" for r r' by (simp add: corners_def take_area_def)
    show ?thesis unfolding e using on by (simp add: new_region_def c0 t)
  qed
  ultimately show ?thesis using p(1) by blast
qed

section \<open>Rounds\<close>

text \<open>A channel that can take the frame of this camera.\<close>

definition serves :: "nat \<Rightarrow> nat \<Rightarrow> nat \<Rightarrow> nat \<Rightarrow> cap_md \<Rightarrow> md_chan \<Rightarrow> bool" where
  "serves kw kh bw bh cap c \<longleftrightarrow> (\<exists>rs. waiting bw bh rs c) \<and> (running kw kh bw bh cap c \<or> \<not> known_dims cap c)"

lemma waiting_bind: "waiting bw bh rs (c\<lparr>md_bindfd := b\<rparr>) = waiting bw bh rs c"
  by (simp add: waiting_def chan_ok_def)

lemma serves_bind: "serves kw kh bw bh cap (c\<lparr>md_bindfd := b\<rparr>) = serves kw kh bw bh cap c"
  by (simp add: serves_def waiting_bind running_def known_dims_def known_mbs_def trained_def)

lemma handle_chan_total:
  assumes cap: "cap_ok kw kh cap" "cap_bindfd cap = bind" "0 \<le> cap_retval cap" and c: "serves kw kh bw bh cap (cs ! i)" "i < length cs"
    and g: "md_check_num g \<le> 14" and rs: "length rs = Suc n" "length (reg_results (rs ! 0)) = MAX_MOTION_NUM"
  shows "\<exists>cs' g' rs'. handle_chan env cb bind (cap # caps) i (cs, g, rs) = Some (cs', g', rs') \<and> length cs' = length cs \<and>
    (\<forall>k < length cs. k \<noteq> i \<longrightarrow> cs' ! k = cs ! k) \<and> serves kw kh bw bh cap (cs' ! i) \<and> md_check_num g' \<le> 14 \<and>
    length rs' = Suc n \<and> length (reg_results (rs' ! 0)) = MAX_MOTION_NUM"
proof -
  let ?c = "(cs ! i)\<lparr>md_bindfd := bind\<rparr>"
  obtain regs where w: "waiting bw bh regs ?c" "running kw kh bw bh cap ?c \<or> \<not> known_dims cap ?c"
    using c(1) serves_bind [of kw kh bw bh cap bind "cs ! i"] unfolding serves_def by blast
  obtain r c' g' rs1 where d: "do_capture_motion env cb cap ?c g = Some (r, c', g')" "waiting bw bh rs1 c'" "running kw kh bw bh cap c'"
    "md_check_num g' \<le> 14"
    using frame_step [OF w(1) cap(1) w(2) g, of env cb] by blast
  have sub: "sub_region (md_alg c') = Mem rs1" "length rs1 = MAX_SUBREGION_NUM" using d(2) by (simp_all add: waiting_def regions_ok_def)
  have j: "mdt_idx_to_cap_md_idx bind (cap # caps) = 0"
    using find_first [of "length (cap # caps)" "\<lambda>j. cap_bindfd ((cap # caps) ! j) = bind"] cap(2)
    by (simp add: mdt_idx_to_cap_md_idx_def del: upt_Suc)
  have v: "is_valid cap = 1" using cap(1) by (simp add: cap_ok_def)
  let ?res = "(rs ! 0)\<lparr>res_bindfd := bind, ch_result := r\<rparr>"
  have "copy_results c' ?res = Some (?res\<lparr>reg_results := List.map reg_alarm (take MAX_MOTION_NUM rs1)\<rparr>)"
    using rs(2) sub by (simp add: copy_results_def MAX_MOTION_NUM_def MAX_SUBREGION_NUM_def)
  then have "handle_chan env cb bind (cap # caps) i (cs, g, rs) =
      Some (cs[i := c'], g', rs[0 := ?res\<lparr>reg_results := List.map reg_alarm (take MAX_MOTION_NUM rs1)\<rparr>])"
    using j v cap(2,3) d(1) rs(1) by (auto simp: handle_chan_def Let_def)
  moreover have "serves kw kh bw bh cap c'" using d(2,3) by (auto simp: serves_def)
  moreover have "length (take MAX_MOTION_NUM rs1) = MAX_MOTION_NUM" using sub by (simp add: MAX_MOTION_NUM_def MAX_SUBREGION_NUM_def)
  moreover have "rs \<noteq> []" using rs(1) by auto
  ultimately show ?thesis using c(2) d(4) rs(1) by simp
qed


lemma handling_total:
  assumes cap: "cap_ok kw kh cap" "cap_bindfd cap = bind" "0 \<le> cap_retval cap"
    and cs: "\<forall>c \<in> set cs. serves kw kh bw bh cap c" "length cs = MAX_CAP_MD_NUM"
    and g: "md_check_num g \<le> 14" and rs: "rs \<noteq> []" "length (reg_results (rs ! 0)) = MAX_MOTION_NUM"
  shows "\<exists>cs' g' rs'. motion_detection_handling env cb bind (cap # caps) (cs, g, rs) = Some (cs', g', rs') \<and>
    (\<forall>c \<in> set cs'. serves kw kh bw bh cap c) \<and> length cs' = MAX_CAP_MD_NUM \<and> md_check_num g' \<le> 14 \<and>
    rs' \<noteq> [] \<and> length (reg_results (rs' ! 0)) = MAX_MOTION_NUM"
proof -
  obtain n where n: "length rs = Suc n" using rs(1) by (cases rs) auto
  let ?P = "\<lambda>ys (s :: md_state). length (fst s) = MAX_CAP_MD_NUM \<and> (\<forall>k < MAX_CAP_MD_NUM. serves kw kh bw bh cap (fst s ! k)) \<and>
    md_check_num (fst (snd s)) \<le> 14 \<and> length (snd (snd s)) = Suc n \<and> length (reg_results (snd (snd s) ! 0)) = MAX_MOTION_NUM"
  have "\<exists>s'. each (handle_chan env cb bind (cap # caps)) [0..<MAX_CAP_MD_NUM] (cs, g, rs) = Some s' \<and> ?P [0..<MAX_CAP_MD_NUM] s'"
  proof (rule each_prefix_rule)
    show "?P [] (cs, g, rs)" using cs g rs(2) n by auto
    fix ys i zs s
    assume e: "[0..<MAX_CAP_MD_NUM] = ys @ i # zs" and s: "?P ys s"
    have i: "i < MAX_CAP_MD_NUM" using arg_cong [OF e, of set] by auto
    obtain c1 g1 r1 where st: "s = (c1, g1, r1)" by (cases s)
    obtain c2 g2 r2 where h: "handle_chan env cb bind (cap # caps) i (c1, g1, r1) = Some (c2, g2, r2)" "length c2 = length c1"
      "\<forall>k < length c1. k \<noteq> i \<longrightarrow> c2 ! k = c1 ! k" "serves kw kh bw bh cap (c2 ! i)" "md_check_num g2 \<le> 14" "length r2 = Suc n"
      "length (reg_results (r2 ! 0)) = MAX_MOTION_NUM"
      using handle_chan_total [OF cap, of bw bh c1 i g1 r1 n env cb caps] s i by (auto simp: st)
    have "serves kw kh bw bh cap (c2 ! k)" if "k < MAX_CAP_MD_NUM" for k
      using h(3,4) s that by (cases "k = i") (auto simp: st)
    then show "\<exists>s'. handle_chan env cb bind (cap # caps) i s = Some s' \<and> ?P (ys @ [i]) s'"
      using h s by (auto simp: st)
  qed
  then obtain cs' g' rs' where s': "each (handle_chan env cb bind (cap # caps)) [0..<MAX_CAP_MD_NUM] (cs, g, rs) = Some (cs', g', rs')"
    "?P [0..<MAX_CAP_MD_NUM] (cs', g', rs')" by auto
  then have "\<forall>c \<in> set cs'. serves kw kh bw bh cap c" by (auto simp: in_set_conv_nth)
  then show ?thesis using s' by (auto simp: motion_detection_handling_def intro: exI [of _ cs'])
qed


lemma serves_same: "same_camera cap cap' \<Longrightarrow> serves kw kh bw bh cap c \<longleftrightarrow> serves kw kh bw bh cap' c"
proof -
  assume same: "same_camera cap cap'"
  have "running kw kh bw bh cap c = running kw kh bw bh cap' c" by (rule running_same [OF same])
  moreover have "known_dims cap c = known_dims cap' c" using same by (simp add: same_camera_def known_dims_def)
  ultimately show ?thesis by (simp only: serves_def)
qed

text \<open>Rounds with the frames of one camera: what \<^verbatim>\<open>gm_recv_multi_cap_md\<close> gives for the handle of the first stream.\<close>

definition round_ok :: "nat \<Rightarrow> nat \<Rightarrow> cap_md \<Rightarrow> 64 word \<times> int \<times> nat \<times> cap_md list \<Rightarrow> bool" where
  "round_ok kw kh cap inp \<longleftrightarrow> (case inp of (now, ret, bind, caps) \<Rightarrow>
     case caps of [] \<Rightarrow> False
     | c # _ \<Rightarrow> cap_ok kw kh c \<and> cap_bindfd c = bind \<and> 0 \<le> cap_retval c \<and> same_camera cap c)"

definition in_service :: "nat \<Rightarrow> nat \<Rightarrow> nat \<Rightarrow> nat \<Rightarrow> cap_md \<Rightarrow> md_sys \<Rightarrow> bool" where
  "in_service kw kh bw bh cap s \<longleftrightarrow> (\<forall>c \<in> set (md_chans s). serves kw kh bw bh cap c) \<and> length (md_chans s) = MAX_CAP_MD_NUM \<and>
     md_check_num (md_globals s) \<le> 14 \<and> md_results s \<noteq> [] \<and> length (reg_results (md_results s ! 0)) = MAX_MOTION_NUM"

lemma round_total:
  assumes s: "in_service kw kh bw bh cap s" and r: "round_ok kw kh cap inp"
  shows "\<exists>s'. motion_round env cb inp s = Some s' \<and> in_service kw kh bw bh cap s'"
proof -
  obtain now ret bind c caps where inp: "inp = (now, ret, bind, c # caps)" and c: "cap_ok kw kh c" "cap_bindfd c = bind" "0 \<le> cap_retval c"
    "same_camera cap c"
  proof -
    obtain now ret bind caps where inp: "inp = (now, ret, bind, caps)" by (cases inp)
    then obtain c caps' where "caps = c # caps'" using r by (cases caps) (auto simp: round_ok_def)
    then show ?thesis using r inp that [of now ret bind c caps'] by (simp add: round_ok_def)
  qed
  show ?thesis
  proof (cases "motion_enable s = 0 \<or> ret < 0")
    case True
    then show ?thesis using s by (auto simp: motion_round_def inp)
  next
    case False
    have sv: "serves kw kh bw bh c = serves kw kh bw bh cap" using serves_same [OF c(4)] by (auto simp: fun_eq_iff)
    obtain cs' g' rs' where h: "motion_detection_handling env cb bind (c # caps) (md_chans s, md_globals s, md_results s) = Some (cs', g', rs')"
      "\<forall>c' \<in> set cs'. serves kw kh bw bh c c'" "length cs' = MAX_CAP_MD_NUM" "md_check_num g' \<le> 14" "rs' \<noteq> []"
      "length (reg_results (rs' ! 0)) = MAX_MOTION_NUM"
      using handling_total [OF c(1-3), of "md_chans s" bw bh "md_globals s" "md_results s" env cb caps] s
      by (auto simp: in_service_def sv)
    then show ?thesis using False by (auto simp: motion_round_def inp in_service_def sv note_second_def)
  qed
qed

lemma rounds_total:
  "in_service kw kh bw bh cap s \<Longrightarrow> \<forall>inp \<in> set inps. round_ok kw kh cap inp \<Longrightarrow>
    \<exists>s'. each (md_step ok env cb) (List.map Round inps) s = Some s' \<and> in_service kw kh bw bh cap s'"
proof (induction inps arbitrary: s)
  case (Cons inp inps)
  then show ?case using round_total [of kw kh bw bh cap s inp env cb] by fastforce
qed simp

section \<open>The start\<close>

definition started :: "nat \<Rightarrow> nat \<Rightarrow> md_chan \<Rightarrow> bool" where
  "started bw bh c \<longleftrightarrow> waiting bw bh (replicate MAX_SUBREGION_NUM closed_region) c \<and> roomy bw bh c \<and> md_bindfd c = 0 \<and> k_width c = 0 \<and>
     k_height c = 0"

lemma set_at_replicate: "set_at 0 (replicate k x) (replicate k y) = Some (replicate k x)"
  by (simp add: set_at_def put_at_def)

lemma init_chan_ok:
  assumes wh: "0 < w" "w \<le> 4096" "0 < h" "h \<le> 4096"
  defines "bw \<equiv> (nat w + 31) div 32" and "bh \<equiv> (nat h + 31) div 32"
  shows "\<exists>c. init_chan (\<lambda>_. True) (word_of_int w) (word_of_int h) zero_chan = Some (0, c) \<and> started bw bh c"
proof -
  have b: "((word_of_int w :: cuint) + 31) div 32 = of_nat bw" "((word_of_int h :: cuint) + 31) div 32 = of_nat bh"
    and le: "0 < bw" "bw \<le> 128" "0 < bh" "bh \<le> 128"
    using blocks_of [OF wh(1,2)] blocks_of [OF wh(3,4)] by (simp_all add: bw_def bh_def)
  have si: "sint (word_of_nat bw :: cuint) = int bw" "sint (word_of_nat bh :: cuint) = int bh" using le by (simp_all add: sint_small)
  have sd: "sint (word_of_int w :: cuint) = w" "sint (word_of_int h :: cuint) = h" using wh by (simp_all add: sint_of_int32 in_int32_def)
  have bn: "block_num (word_of_int w) 32 = int bw" "block_num (word_of_int h) 32 = int bh"
    using wh by (simp_all add: block_num_def sd cdiv_nonneg bw_def bh_def zdiv_int)
  have fits: "in_int32 (w + 31)" "in_int32 (h + 31)" using wh by (simp_all add: in_int32_def)
  have small: "bh * bw \<le> 16384" using mult_le_mono [OF le(4) le(2)] by simp
  have i: "int bh * int bw = int (bh * bw)" "int bw * int bh = int (bh * bw)" by simp_all
  have sz: "in_int32 (int bh * int bw)" "in_int32 (int bw * int bh)" "csize (int bh * int bw) = bh * bw"
  proof -
    show "in_int32 (int bh * int bw)" "in_int32 (int bw * int bh)" unfolding i using small by (simp_all add: in_int32_def del: of_nat_mult)
    show "csize (int bh * int bw) = bh * bw" unfolding i csize_def of_int_of_nat_eq by (rule unat_small) (use small in simp)
  qed
  have pos: "0 < int bw * int bh" using le by simp
  have n: "nat (int bw * int bh) = bh * bw" by (simp add: nat_mult_distrib)
  let ?al = "\<lparr>sub_region = Mem (replicate MAX_SUBREGION_NUM closed_region), sub_region_num = 0, u_height = word_of_int h,
      u_width = word_of_int w, u_mb_height = 32, u_mb_width = 32, sensitive_th = 80, md_frame_count = 0, training_time = 15,
      mb_w_num = of_nat bw, mb_h_num = of_nat bh\<rparr>"
  let ?c = "zero_chan\<lparr>md_alg := ?al, active_flag := Mem (replicate (bh * bw) 0), transform_matrix := Mem (replicate (4 * (bh * bw)) 0),
    kernel_mv_data := Mem (replicate CAP_MOTION_SIZE 0), is_parsing_init_ok := True, parsing_user_motion_size := int bw * int bh,
    cap_motion_init_ok := True, user_motion_size := int bh * int bw\<rparr>"
  let ?start = "zero_chan\<lparr>md_alg := ?al, active_flag := Mem (replicate (bh * bw) 0)\<rparr>"
  have "\<not> int bw * int bh < 0" "int bw * int bh \<noteq> 0" using pos by linarith+
  then have "parsing_mv_initial (\<lambda>_. True) (of_nat bw) (of_nat bh) ?start =
      Some (0, ?c\<lparr>cap_motion_init_ok := False, user_motion_size := 0\<rparr>)"
    by (simp add: parsing_mv_initial_def parsing_clear_def Let_def si sz n malloc_def zero_chan_def CAP_MOTION_SIZE_def
        set_at_replicate le(1,3))
  then have "init_chan (\<lambda>_. True) (word_of_int w) (word_of_int h) zero_chan = Some (0, ?c)"
    by (simp add: init_chan_def capture_motion_init_def zero_chan_def zero_alg_def Let_def bn sd fits sz malloc_def clear_kernel_def)
  moreover have "chan_ok bw bh ?c"
    using le b by (simp add: chan_ok_def CAP_MOTION_SIZE_def)
  then have "started bw bh ?c"
    by (simp add: started_def waiting_def regions_ok_def region_ok_def closed_region_def roomy_def zero_chan_def mult.commute)
  ultimately show ?thesis by blast
qed

lemma map_chans_replicate:
  "f c = Some (0, c') \<Longrightarrow> map_chans f 0 (replicate n c) = Some (0, replicate n c')"
  by (induction n) simp_all

lemma init_ok:
  assumes wh: "0 < w" "w \<le> 4096" "0 < h" "h \<le> 4096"
  defines "bw \<equiv> (nat w + 31) div 32" and "bh \<equiv> (nat h + 31) div 32"
  shows "\<exists>s c. init_motion_server (\<lambda>_. True) fd w h (zero_sys n trig bak) = Some (0, s) \<and> user_ok bw bh s \<and>
    md_chans s = replicate MAX_CAP_MD_NUM c \<and> started bw bh c \<and> motion_fd s = fd \<and> md_globals s = zero_glob \<and>
    md_results s = md_results (zero_sys n trig bak)"
proof -
  obtain c where c: "init_chan (\<lambda>_. True) (word_of_int w) (word_of_int h) zero_chan = Some (0, c)" "started bw bh c"
    using init_chan_ok [OF wh] by (auto simp: bw_def bh_def)
  have b: "((word_of_int w :: cuint) + 31) div 32 = of_nat bw" "((word_of_int h :: cuint) + 31) div 32 = of_nat bh"
    using blocks_of [OF wh(1,2)] blocks_of [OF wh(3,4)] by (simp_all add: bw_def bh_def)
  let ?s0 = "(zero_sys n trig bak)\<lparr>motion_init := 0, motion_enable := 0, motion_fd := fd, max_width := w, max_height := h\<rparr>"
  let ?s = "(snd (init_motion_param (\<lambda>_. True) ?s0))\<lparr>md_chans := replicate MAX_CAP_MD_NUM c, motion_init := 1\<rparr>"
  have "init_motion_server (\<lambda>_. True) fd w h (zero_sys n trig bak) = Some (0, ?s)"
    using map_chans_replicate [where f = "init_chan (\<lambda>_. True) (word_of_int w) (word_of_int h)", OF c(1)]
    by (simp add: init_motion_server_def init_motion_param_def motion_detection_init_def zero_sys_def Let_def malloc_def)
  moreover have "user_ok bw bh ?s"
    using wh b by (simp add: user_ok_def init_motion_param_def Let_def malloc_def bw_def bh_def MAX_MOTION_NUM_def)
  ultimately show ?thesis using c(2)
    by (intro exI [of _ ?s] exI [of _ c]) (simp add: init_motion_param_def Let_def zero_sys_def)
qed


lemma fresh_serves: "started bw bh c \<Longrightarrow> cap_ok kw kh cap \<Longrightarrow> serves kw kh bw bh cap c"
  by (auto simp: started_def serves_def known_dims_def cap_ok_def grid_ok_def word_less_nat_alt)

text \<open>From the start through a configuration whose first area lies inside the picture.\<close>

lemma configure_in_service:
  assumes s: "user_ok bw bh s" "md_chans s = replicate MAX_CAP_MD_NUM c" "started bw bh c" "md_globals s = zero_glob"
      "md_results s \<noteq> []" "length (reg_results (md_results s ! 0)) = MAX_MOTION_NUM" "motion_fd s \<noteq> 0"
    and cfg: "4 \<le> length (vda_area cfg)" "rect_of bw bh s (vda_area cfg ! 0) = (sx, sy, ex, ey)"
      "0 \<le> sx" "0 \<le> sy" "ex < int bw" "ey < int bh" and cap: "cap_ok kw kh cap"
  shows "\<exists>s'. set_motion_param ok (Some cfg) s = Some (0, s') \<and> in_service kw kh bw bh cap s'"
proof -
  let ?regs = "replicate MAX_SUBREGION_NUM closed_region"
  have c0: "md_chans s ! 0 = c" "md_chans s \<noteq> []" using s(2) by (simp_all add: MAX_CAP_MD_NUM_def)
  have ci: "chan_ok bw bh c" "roomy bw bh c" "sub_region (md_alg c) = Mem ?regs" "md_bindfd c = 0"
    using s(3) by (simp_all add: started_def waiting_def)
  have f: "first_chan (motion_fd s) (md_chans s)"
    using c0 ci(4) s(2,7) by (auto simp: first_chan_def find_chan_def find_None_iff)
  have cc: "chan_ok bw bh (md_chans s ! 0)" "roomy bw bh (md_chans s ! 0)" "sub_region (md_alg (md_chans s ! 0)) = Mem ?regs"
    using ci c0 by simp_all
  obtain s' c' rs where p: "set_motion_param ok (Some cfg) s = Some (0, s')" "md_chans s' = (md_chans s)[0 := c']" "chan_ok bw bh c'"
    "k_width c' = 0"
    "sub_region (md_alg c') = Mem (List.map (\<lambda>i. if i < 4 then new_region bw bh rs i (?regs ! i) else ?regs ! i) [0..<MAX_SUBREGION_NUM])"
    "\<forall>i < 4. corners (rs ! i) = rect_of bw bh s (vda_area cfg ! i)" "md_globals s' = md_globals s" "md_results s' = md_results s"
    using set_motion_param_ok [OF s(1) f cc length_replicate cfg(1), of ok] by blast
  have first: "corners (rs ! 0) = (sx, sy, ex, ey)" using p(6) cfg(2) by simp
  have "region_ok bw bh (new_region bw bh rs i closed_region)" "region_ok bw bh closed_region" for i
    using first cfg(3-6) by (auto simp: new_region_def region_ok_def closed_region_def take_area_def corners_def)
  then have "waiting bw bh (List.map (\<lambda>i. if i < 4 then new_region bw bh rs i (?regs ! i) else ?regs ! i) [0..<MAX_SUBREGION_NUM]) c'"
    using p(3,5) by (auto simp: waiting_def regions_ok_def)
  moreover have "\<not> known_dims cap c'" using p(4) cap by (auto simp: known_dims_def cap_ok_def grid_ok_def word_less_nat_alt)
  ultimately have "serves kw kh bw bh cap c'" by (auto simp: serves_def)
  then have "\<forall>d \<in> set (md_chans s'). serves kw kh bw bh cap d"
    using fresh_serves [OF s(3) cap] s(2) p(2) set_update_subset_insert by fastforce
  then have "in_service kw kh bw bh cap s'"
    using p(2,7,8) s by (simp add: in_service_def zero_glob_def)
  then show ?thesis using p(1) by blast
qed

section \<open>An example\<close>

text \<open>A picture of 40 by 32, with the first two areas on, the second a part of the first.\<close>

definition sample_cfg :: vda_cfg where
  "sample_cfg = \<lparr>vda_sensitive = 3, vda_mask = 6, vda_area = [(0, 0, 40, 32), (20, 0, 40, 32), (0, 0, 0, 0), (0, 0, 0, 0)]\<rparr>"

lemma sample_rect: "max_width s = 40 \<Longrightarrow> max_height s = 32 \<Longrightarrow> rect_of 2 1 s (vda_area sample_cfg ! 0) = (0, 0, 1, 0)"
  by (simp add: rect_of_def sample_cfg_def cdiv_nonneg)

lemma sample_init:
  "\<exists>s c. init_motion_server (\<lambda>_. True) 7 40 32 (zero_sys 1 0 0) = Some (0, s) \<and> user_ok 2 1 s \<and>
    md_chans s = replicate MAX_CAP_MD_NUM c \<and> started 2 1 c \<and> motion_fd s = 7 \<and> md_globals s = zero_glob \<and>
    md_results s = md_results (zero_sys 1 0 0) \<and> max_width s = 40 \<and> max_height s = 32"
proof -
  obtain s c where s: "init_motion_server (\<lambda>_. True) 7 40 32 (zero_sys 1 0 0) = Some (0, s)" "user_ok 2 1 s"
    "md_chans s = replicate MAX_CAP_MD_NUM c" "started 2 1 c" "motion_fd s = 7" "md_globals s = zero_glob"
    "md_results s = md_results (zero_sys 1 0 0)"
    using init_ok [of 40 32 7 1 0 0] by auto
  have "max_width s = 40 \<and> max_height s = 32"
    using s(1) by (auto simp: init_motion_server_def init_motion_param_def Let_def split: if_splits option.splits)
  then show ?thesis using s by blast
qed

text \<open>From the start, a configuration and three rounds.\<close>

definition sample_ops :: "md_op list" where
  "sample_ops = Configure (Some sample_cfg) # List.map Round (List.map (\<lambda>now. (now, 0, 7, [sample_frame])) [2000000, 4000000, 6000000])"

lemma sample_run:
  assumes "user_ok 2 1 s" "md_chans s = replicate MAX_CAP_MD_NUM c" "started 2 1 c" "motion_fd s = 7" "md_globals s = zero_glob"
    "md_results s = md_results (zero_sys 1 0 0)" "max_width s = 40" "max_height s = 32"
  shows "\<exists>s'. each (md_step (\<lambda>_. True) (\<lambda>_. (100, 0)) True) sample_ops s = Some s'"
proof -
  have res: "md_results s \<noteq> []" "length (reg_results (md_results s ! 0)) = MAX_MOTION_NUM"
    by (simp_all add: assms(6) zero_sys_def)
  obtain s1 where s1: "set_motion_param (\<lambda>_. True) (Some sample_cfg) s = Some (0, s1)" "in_service 4 2 2 1 sample_frame s1"
    using configure_in_service [OF assms(1,2,3,5) res _ _ sample_rect [OF assms(7,8)] _ _ _ _ sample_cap, of "\<lambda>_. True"] assms(4)
    by (auto simp: sample_cfg_def)
  have "round_ok 4 2 sample_frame (now, 0, 7, [sample_frame])" for now
    using sample_cap by (simp add: round_ok_def same_camera_def) (simp add: sample_frame_def)
  then have "\<exists>s'. each (md_step (\<lambda>_. True) (\<lambda>_. (100, 0)) True)
      (List.map Round (List.map (\<lambda>now. (now, 0, 7, [sample_frame])) [2000000, 4000000, 6000000])) s1 = Some s' \<and>
      in_service 4 2 2 1 sample_frame s'"
    by (intro rounds_total [OF s1(2)]) simp
  then show ?thesis using s1(1) unfolding sample_ops_def by auto
qed

theorem regions_collapse_witness:
  "\<exists>s s' regs'. init_motion_server (\<lambda>_. True) 7 40 32 (zero_sys 1 0 0) = Some (0, s) \<and>
    set_motion_param (\<lambda>_. True) (Some sample_cfg) s = Some (0, s') \<and> sub_region (md_alg (md_chans s' ! 0)) = Mem regs' \<and>
    corners (regs' ! 0) = (0, 0, 1, 0) \<and> corners (regs' ! 1) = (0, 0, 1, 0)"
proof -
  obtain s c where s: "init_motion_server (\<lambda>_. True) 7 40 32 (zero_sys 1 0 0) = Some (0, s)" "user_ok 2 1 s"
    "md_chans s = replicate MAX_CAP_MD_NUM c" "started 2 1 c" "motion_fd s = 7" "max_width s = 40" "max_height s = 32"
    using sample_init by blast
  have c0: "md_chans s ! 0 = c" using s(3) by (simp add: MAX_CAP_MD_NUM_def)
  have f: "first_chan (motion_fd s) (md_chans s)"
    using s(3-5) by (auto simp: first_chan_def find_chan_def find_None_iff started_def MAX_CAP_MD_NUM_def)
  have bits: "TEST_BIT (vda_mask sample_cfg) (0 + 1) \<noteq> 0" "TEST_BIT (vda_mask sample_cfg) (1 + 1) \<noteq> 0" by code_simp+
  have acc: "accepted 2 1 (0, 0, 1, 0)" by (simp add: accepted_def)
  have cc: "chan_ok 2 1 (md_chans s ! 0)" "roomy 2 1 (md_chans s ! 0)"
    "sub_region (md_alg (md_chans s ! 0)) = Mem (replicate MAX_SUBREGION_NUM closed_region)" "4 \<le> length (vda_area sample_cfg)"
    using s(4) c0 by (simp_all add: started_def waiting_def sample_cfg_def)
  obtain s' regs' where r: "set_motion_param (\<lambda>_. True) (Some sample_cfg) s = Some (0, s')" "sub_region (md_alg (md_chans s' ! 0)) = Mem regs'"
    "\<forall>i < 4. TEST_BIT (vda_mask sample_cfg) (i + 1) \<noteq> 0 \<longrightarrow> corners (regs' ! i) = (0, 0, 1, 0)"
    using regions_collapse [OF s(2) f cc(1-3) length_replicate cc(4), of "\<lambda>_. True"] unfolding sample_rect [OF s(6,7)] if_P [OF acc] by blast
  have "corners (regs' ! 0) = (0, 0, 1, 0)" "corners (regs' ! 1) = (0, 0, 1, 0)"
    using r(3) bits by (metis zero_less_numeral, metis less4(3))
  then show ?thesis using s(1) r(1,2) by blast
qed

theorem alarms_spaced_witness:
  "\<exists>s s'. each (md_step (\<lambda>_. True) (\<lambda>_. (100, 0)) True) sample_ops s = Some s' \<and>
    sorted_wrt (\<lambda>a b. b - a > 1) (md_events (md_globals s'))"
proof -
  obtain s c where s: "user_ok 2 1 s" "md_chans s = replicate MAX_CAP_MD_NUM c" "started 2 1 c" "motion_fd s = 7" "md_globals s = zero_glob"
    "md_results s = md_results (zero_sys 1 0 0)" "max_width s = 40" "max_height s = 32"
    using sample_init by blast
  obtain s' where r: "each (md_step (\<lambda>_. True) (\<lambda>_. (100, 0)) True) sample_ops s = Some s'" using sample_run [OF s] by blast
  show ?thesis using r alarms_spaced [OF r] s(5) by (auto simp: zero_glob_def)
qed

theorem motion_never_reaches_cloud_witness:
  "\<exists>s s'. init_motion_server (\<lambda>_. True) 7 40 32 (zero_sys 1 0 0) = Some (0, s) \<and>
    each (md_step (\<lambda>_. True) (\<lambda>_. (100, 0)) True) sample_ops s = Some s' \<and> ullbitsMDstate s' = 0 \<and>
    pushed (fold dana_push_round [0, 1, 0, 7] \<lparr>mdtriggerd = -1, pushed = 0\<rparr>) = 1"
proof -
  obtain s c where s: "user_ok 2 1 s" "md_chans s = replicate MAX_CAP_MD_NUM c" "started 2 1 c" "motion_fd s = 7" "md_globals s = zero_glob"
    "md_results s = md_results (zero_sys 1 0 0)" "max_width s = 40" "max_height s = 32"
    and i: "init_motion_server (\<lambda>_. True) 7 40 32 (zero_sys 1 0 0) = Some (0, s)"
    using sample_init by blast
  obtain s' where r: "each (md_step (\<lambda>_. True) (\<lambda>_. (100, 0)) True) sample_ops s = Some s'" using sample_run [OF s] by blast
  show ?thesis using i r motion_never_reaches_cloud [OF i _ r, of "[0, 1, 0, 7]"] by (intro exI [of _ s] exI [of _ s']) simp
qed

end
