(* ===== verification/Ntp.thy ===== *)
theory Ntp
  imports AviCommon
begin

text \<open>
  The synchronisation of the clock (\<^verbatim>\<open>main/src/ntp_deal.c\<close>): one exchange with a server, the walk through the servers
  and a round of the thread. What the network answers is an argument, and so are \<^verbatim>\<open>localtime\<close> and the effect of the
  command \<^verbatim>\<open>date\<close>; an open socket is a file descriptor taken from those that the process has left.
\<close>

section \<open>Exchange\<close>

definition NTP_VERSION :: byte where "NTP_VERSION = 0xe3"
definition UNIX_OFFSET :: cuint where "UNIX_OFFSET = 2208988800"
definition MAX_RETRY_COUNT :: nat where "MAX_RETRY_COUNT = 5"
definition sizeof_ntpPacket :: nat where "sizeof_ntpPacket = 48"

text \<open>2016-12-31, the time from which the clock counts as set.\<close>

definition clock_limit :: int where "clock_limit = 1483159995"

text \<open>The results of \<^verbatim>\<open>getaddrinfo\<close> with the number of addresses, of \<^verbatim>\<open>sendto\<close>, of \<^verbatim>\<open>select\<close> and of \<^verbatim>\<open>recvfrom\<close>;
  only addresses count for which the system has a kind of socket.\<close>

record ntp_net =
  addr_error :: int
  addr_count :: nat
  sendto_ret :: int
  select_ret :: int
  recv_data :: "byte list option"

record ntp_sys =
  sys_clock :: int
  free_fds :: nat
  timeupdatedone :: int

definition ENDIAN_SWAP32 :: "cuint \<Rightarrow> cuint" where
  "ENDIAN_SWAP32 d = drop_bit 24 d OR drop_bit 8 (d AND 0x00ff0000) OR push_bit 8 (d AND 0x0000ff00) OR push_bit 24 (d AND 0x000000ff)"

text \<open>The packet as it lies in memory behind \<^verbatim>\<open>recvfrom\<close>, and its field \<^verbatim>\<open>recv_ts_sec\<close>.\<close>

definition packet_after :: "byte list \<Rightarrow> byte list" where
  "packet_after got = put_at 0 (take sizeof_ntpPacket got) (NTP_VERSION # replicate (sizeof_ntpPacket - 1) 0)"

definition recv_ts_sec :: "byte list \<Rightarrow> cuint" where
  "recv_ts_sec p = get32 (slice 32 4 p)"

definition fmt0 :: "nat \<Rightarrow> int \<Rightarrow> string" where
  "fmt0 w i = (if i < 0 then CHR ''-'' # pad0 (w - 1) (nat (- i)) else pad0 w (nat i))"

definition date_cmd :: "tm \<Rightarrow> string" where
  "date_cmd t = ''date -s '' @ fmt0 4 (tm_year t + 1900) @ fmt0 2 (tm_mon t + 1) @ fmt0 2 (tm_mday t) @ fmt0 2 (tm_hour t) @
     fmt0 2 (tm_min t) @ ''.'' @ fmt0 2 (tm_sec t)"

text \<open>The time of the answer (\<^verbatim>\<open>time_t\<close> has 32 bits), and the clock set to it; \<open>None\<close>: the command runs over its 50 bytes.\<close>

definition set_from_answer :: "(int \<Rightarrow> tm) \<Rightarrow> (string \<Rightarrow> int \<Rightarrow> int) \<Rightarrow> byte list \<Rightarrow> ntp_sys \<Rightarrow> ntp_sys option" where
  "set_from_answer localtime date got s =
     (let recv_secs = ENDIAN_SWAP32 (recv_ts_sec (packet_after got)) - UNIX_OFFSET;
          cmd = date_cmd (localtime (sint recv_secs)) in
      if 50 \<le> length cmd then None else Some (s\<lparr>sys_clock := date cmd (sys_clock s)\<rparr>))"

definition clock_passed :: "ntp_sys \<Rightarrow> int" where
  "clock_passed s = (if sys_clock s > clock_limit then 1 else 0)"

text \<open>The socket is never closed. A \<^verbatim>\<open>select\<close> that fails or times out goes on to the test of the clock.\<close>

definition sync_time_with_server ::
  "(int \<Rightarrow> tm) \<Rightarrow> (string \<Rightarrow> int \<Rightarrow> int) \<Rightarrow> ntp_net \<Rightarrow> ntp_sys \<Rightarrow> (int \<times> ntp_sys) option" where
  "sync_time_with_server localtime date net s =
     (if addr_error net \<noteq> 0 then Some (-1, s)
      else if addr_count net = 0 \<or> free_fds s = 0 then Some (-1, s)
      else let s = s\<lparr>free_fds := free_fds s - 1\<rparr> in
        if sendto_ret net = -1 then Some (-1, s)
        else if select_ret net \<le> 0 then Some (clock_passed s, s)
        else case recv_data net of
          None \<Rightarrow> Some (-1, s)
        | Some got \<Rightarrow> map_option (\<lambda>s. (clock_passed s, s)) (set_from_answer localtime date got s))"

section \<open>The thread\<close>

text \<open>What the servers answer, in their order.\<close>

fun sync_servers ::
  "(int \<Rightarrow> tm) \<Rightarrow> (string \<Rightarrow> int \<Rightarrow> int) \<Rightarrow> ntp_net list \<Rightarrow> int \<Rightarrow> ntp_sys \<Rightarrow> (int \<times> ntp_sys) option" where
  "sync_servers localtime date [] result s = Some (result, s)"
| "sync_servers localtime date (net # nets) result s =
     (case sync_time_with_server localtime date net s of
        None \<Rightarrow> None
      | Some (result, s) \<Rightarrow> if result > 0 then Some (result, s) else sync_servers localtime date nets result s)"

definition sync_time :: "(int \<Rightarrow> tm) \<Rightarrow> (string \<Rightarrow> int \<Rightarrow> int) \<Rightarrow> ntp_net list \<Rightarrow> ntp_sys \<Rightarrow> (int \<times> ntp_sys) option" where
  "sync_time localtime date nets s = sync_servers localtime date (take MAX_RETRY_COUNT nets) 0 s"

text \<open>A round, with the state of the network (2: there is a connection).\<close>

definition thread_ntp_round ::
  "(int \<Rightarrow> tm) \<Rightarrow> (string \<Rightarrow> int \<Rightarrow> int) \<Rightarrow> int \<times> ntp_net list \<Rightarrow> ntp_sys \<Rightarrow> ntp_sys option" where
  "thread_ntp_round localtime date inp s =
     (case inp of (state, nets) \<Rightarrow>
        if state = 2 \<and> timeupdatedone s = 0
        then map_option (\<lambda>(result, s). if sys_clock s > clock_limit \<and> result > 0 then s\<lparr>timeupdatedone := 1\<rparr> else s)
               (sync_time localtime date nets s)
        else Some s)"

text \<open>Rounds of the thread with the passing of time between them.\<close>

datatype ntp_step = NtpRound int "ntp_net list" | Pass nat

fun ntp_run :: "(int \<Rightarrow> tm) \<Rightarrow> (string \<Rightarrow> int \<Rightarrow> int) \<Rightarrow> ntp_step list \<Rightarrow> ntp_sys \<Rightarrow> ntp_sys option" where
  "ntp_run localtime date [] s = Some s"
| "ntp_run localtime date (NtpRound state nets # es) s =
     (case thread_ntp_round localtime date (state, nets) s of None \<Rightarrow> None | Some s \<Rightarrow> ntp_run localtime date es s)"
| "ntp_run localtime date (Pass n # es) s = ntp_run localtime date es (s\<lparr>sys_clock := sys_clock s + int n\<rparr>)"

section \<open>The order of the bytes\<close>

lemma byte_high: "8 \<le> k \<Longrightarrow> \<not> bit (x :: byte) k"
  by (auto dest: bit_imp_le_length)

lemma byte_masks:
  "(0xff :: cuint) = mask 8" "(0xff00 :: cuint) = push_bit 8 (mask 8)" "(0xff0000 :: cuint) = push_bit 16 (mask 8)"
  by (simp_all add: mask_eq_exp_minus_1 push_bit_eq_mult)

lemma swap32_bytes: "ENDIAN_SWAP32 (get32 [d, c, b, a]) = get32 [a, b, c, d]"
proof (rule bit_word_eqI)
  fix n assume n: "n < LENGTH(32)"
  then consider "n < 8" | "8 \<le> n" "n < 16" | "16 \<le> n" "n < 24" | "24 \<le> n" "n < 32" by fastforce
  then show "bit (ENDIAN_SWAP32 (get32 [d, c, b, a])) n = bit (get32 [a, b, c, d]) n"
    unfolding ENDIAN_SWAP32_def byte_masks by cases (auto simp: bit_simps byte_high)
qed

lemma swap32_rev: "ENDIAN_SWAP32 (get32 (rev (le32 w))) = w"
  using swap32_bytes get32_le32 [of w] by (simp add: le32_def del: get32.simps)

text \<open>A received time in the order of the network is read as that time.\<close>

lemma recv_ts_sec_swapped:
  assumes "36 \<le> length got" "slice 32 4 got = rev (le32 w)"
  shows "ENDIAN_SWAP32 (recv_ts_sec (packet_after got)) = w"
proof -
  have "slice 32 4 (packet_after got) = slice 32 4 got"
    using assms(1) by (simp add: packet_after_def put_at_def slice_def sizeof_ntpPacket_def drop_take)
  then show ?thesis using assms(2) swap32_rev by (simp add: recv_ts_sec_def)
qed

section \<open>The command\<close>

lemma length_fmt0: "0 \<le> i \<Longrightarrow> i < 10 ^ w \<Longrightarrow> 0 < w \<Longrightarrow> length (fmt0 w i) = w"
  using length_show_nat_le [of "nat i" w] by (simp add: fmt0_def pad0_def nat_less_iff)

definition tm_in_range :: "tm \<Rightarrow> bool" where
  "tm_in_range t \<longleftrightarrow> 0 \<le> tm_year t \<and> tm_year t < 8100 \<and> tm_mon t \<in> {0..11} \<and> tm_mday t \<in> {1..31} \<and>
     tm_hour t \<in> {0..23} \<and> tm_min t \<in> {0..59} \<and> tm_sec t \<in> {0..60}"

lemma date_cmd_fits: "tm_in_range t \<Longrightarrow> length (date_cmd t) = 23"
  by (simp add: date_cmd_def tm_in_range_def length_fmt0)

section \<open>Rounds\<close>

text \<open>A server of which no answer is read.\<close>

definition no_answer :: "ntp_net \<Rightarrow> bool" where
  "no_answer net \<longleftrightarrow> addr_error net \<noteq> 0 \<or> addr_count net = 0 \<or> sendto_ret net = -1 \<or> select_ret net \<le> 0 \<or> recv_data net = None"

text \<open>A server that is asked and does not answer in time.\<close>

definition times_out :: "ntp_net \<Rightarrow> bool" where
  "times_out net \<longleftrightarrow> addr_error net = 0 \<and> 0 < addr_count net \<and> sendto_ret net \<noteq> -1 \<and> select_ret net \<le> 0"

fun waited :: "ntp_step list \<Rightarrow> nat" where
  "waited [] = 0"
| "waited (NtpRound state nets # es) = waited es"
| "waited (Pass n # es) = n + waited es"

lemma no_answer_result:
  assumes "no_answer net" "sys_clock s \<le> clock_limit"
  shows "\<exists>r f. sync_time_with_server localtime date net s = Some (r, s\<lparr>free_fds := f\<rparr>) \<and> r \<le> 0 \<and> free_fds s \<le> Suc f"
proof (cases "sync_time_with_server localtime date net s = Some (-1, s)")
  case True
  then show ?thesis by (intro exI [of _ "-1"] exI [of _ "free_fds s"]) simp
next
  case False
  then have "\<exists>r \<le> 0. sync_time_with_server localtime date net s = Some (r, s\<lparr>free_fds := free_fds s - 1\<rparr>)"
    using assms by (auto simp: sync_time_with_server_def no_answer_def Let_def clock_passed_def split: if_splits)
  then show ?thesis by force
qed

lemma no_answers:
  assumes "\<forall>net \<in> set nets. no_answer net" "sys_clock s \<le> clock_limit"
  shows "\<exists>r f. sync_servers localtime date (nets @ rest) result s = sync_servers localtime date rest r (s\<lparr>free_fds := f\<rparr>) \<and>
    free_fds s \<le> length nets + f"
  using assms
proof (induction nets arbitrary: result s)
  case Nil
  show ?case by (rule exI [of _ result], rule exI [of _ "free_fds s"]) simp
next
  case (Cons net nets)
  obtain r f where rf: "sync_time_with_server localtime date net s = Some (r, s\<lparr>free_fds := f\<rparr>)" "r \<le> 0" "free_fds s \<le> Suc f"
    using no_answer_result [of net s localtime date] Cons.prems by auto
  show ?case using Cons.IH [of "s\<lparr>free_fds := f\<rparr>" r] Cons.prems rf by fastforce
qed

lemma done_stays: "timeupdatedone s \<noteq> 0 \<Longrightarrow> ntp_run localtime date es s = Some (s\<lparr>sys_clock := sys_clock s + int (waited es)\<rparr>)"
  by (induction es arbitrary: s rule: waited.induct) (simp_all add: thread_ntp_round_def)

lemma answer_sets_clock:
  assumes "addr_error net = 0" "0 < addr_count net" "sendto_ret net \<noteq> -1" "0 < select_ret net" "recv_data net = Some got"
    and "36 \<le> length got" "slice 32 4 got = rev (le32 (word_of_int t + UNIX_OFFSET))" "clock_limit < t" "t < 2 ^ 31"
    and "tm_in_range (localtime t)" "\<And>c. date (date_cmd (localtime t)) c = t" "0 < free_fds s"
  shows "sync_time_with_server localtime date net s = Some (1, s\<lparr>sys_clock := t, free_fds := free_fds s - 1\<rparr>)"
proof -
  have "sint (word_of_int t :: cuint) = t"
    using assms(8,9) by (simp add: sint_sbintrunc' signed_take_bit_int_eq_self clock_limit_def)
  then have "set_from_answer localtime date got u = Some (u\<lparr>sys_clock := t\<rparr>)" for u
    using recv_ts_sec_swapped [OF assms(6,7)] date_cmd_fits [OF assms(10)] assms(11) by (simp add: set_from_answer_def Let_def)
  then show ?thesis using assms(1-5,8,12) by (simp add: sync_time_with_server_def clock_passed_def Let_def)
qed

section \<open>An example\<close>

definition sample_silent :: ntp_net where
  "sample_silent = \<lparr>addr_error = 0, addr_count = 1, sendto_ret = 48, select_ret = 0, recv_data = None\<rparr>"
definition sample_time :: int where "sample_time = 1493164923"
definition sample_got :: "byte list" where
  "sample_got = replicate 32 0 @ rev (le32 (word_of_int sample_time + UNIX_OFFSET)) @ replicate 12 0"
definition sample_answer :: ntp_net where
  "sample_answer = \<lparr>addr_error = 0, addr_count = 1, sendto_ret = 48, select_ret = 1, recv_data = Some sample_got\<rparr>"
definition sample_tm :: tm where
  "sample_tm = \<lparr>tm_year = 117, tm_mon = 3, tm_mday = 26, tm_hour = 0, tm_min = 2, tm_sec = 3\<rparr>"
definition sample_date :: "string \<Rightarrow> int \<Rightarrow> int" where
  "sample_date cmd c = (if cmd = ''date -s 201704260002.03'' then sample_time else c)"
definition sample_clock :: ntp_sys where
  "sample_clock = \<lparr>sys_clock = 30, free_fds = 1021, timeupdatedone = 0\<rparr>"

lemma sample_cmd: "date_cmd sample_tm = ''date -s 201704260002.03''"
  by code_simp

lemma sample_silent_times_out: "times_out sample_silent" "no_answer sample_silent"
  by (simp_all add: times_out_def no_answer_def sample_silent_def)

section \<open>The clock is set\<close>

text \<open>C14: While the clock is before its limit and has not been set, a server that answers with the time sets it in the round,
  when the servers before it give no answer and there are descriptors left for their sockets: after the round the clock
  is the time of the answer, and no later round touches it.\<close>

theorem ntp_sets_clock:
  assumes "sys_clock s \<le> clock_limit" "timeupdatedone s = 0"
    and "\<forall>net \<in> set earlier. no_answer net" "length earlier < MAX_RETRY_COUNT" "length earlier < free_fds s"
    and "addr_error net = 0" "0 < addr_count net" "sendto_ret net \<noteq> -1" "0 < select_ret net" "recv_data net = Some got"
    and "36 \<le> length got" "slice 32 4 got = rev (le32 (word_of_int t + UNIX_OFFSET))" "clock_limit < t" "t < 2 ^ 31"
    and "tm_in_range (localtime t)" "\<And>c. date (date_cmd (localtime t)) c = t"
  shows "\<exists>f. ntp_run localtime date (NtpRound 2 (earlier @ net # later) # es) s =
    Some (s\<lparr>sys_clock := t + int (waited es), free_fds := f, timeupdatedone := 1\<rparr>)"
proof -
  let ?rest = "net # take (MAX_RETRY_COUNT - Suc (length earlier)) later"
  have tk: "take MAX_RETRY_COUNT (earlier @ net # later) = earlier @ ?rest" using assms(4) by (simp add: take_Cons')
  obtain r f where f: "sync_servers localtime date (earlier @ ?rest) 0 s = sync_servers localtime date ?rest r (s\<lparr>free_fds := f\<rparr>)"
    "free_fds s \<le> length earlier + f"
    using no_answers [OF assms(3,1)] by blast
  have "0 < free_fds (s\<lparr>free_fds := f\<rparr>)" using f(2) assms(5) by simp
  note a = answer_sets_clock [where localtime = localtime and date = date, OF assms(6-16) this]
  have "thread_ntp_round localtime date (2, earlier @ net # later) s =
    Some (s\<lparr>sys_clock := t, free_fds := f - 1, timeupdatedone := 1\<rparr>)"
    using assms(2,13) by (simp add: thread_ntp_round_def sync_time_def tk f(1) a del: take_append)
  then show ?thesis by (cases s) (auto simp: done_stays)
qed

lemma ntp_sets_clock_witness:
  "\<exists>f. ntp_run (\<lambda>_. sample_tm) sample_date [NtpRound 2 [sample_silent, sample_answer], Pass 60, NtpRound 2 [sample_silent]] sample_clock =
    Some (sample_clock\<lparr>sys_clock := sample_time + int (waited [Pass 60, NtpRound 2 [sample_silent]]), free_fds := f, timeupdatedone := 1\<rparr>)"
  by (rule ntp_sets_clock [of sample_clock "[sample_silent]" sample_answer sample_got sample_time "\<lambda>_. sample_tm" sample_date "[]", simplified append.simps])
    (simp_all add: sample_clock_def sample_silent_times_out sample_answer_def sample_got_def sample_time_def sample_tm_def
      clock_limit_def MAX_RETRY_COUNT_def slice_def tm_in_range_def sample_date_def sample_cmd [unfolded sample_tm_def])

section \<open>Sockets\<close>

lemma no_socket: "free_fds s = 0 \<Longrightarrow> sync_time_with_server localtime date net s = Some (-1, s)"
  by (simp add: sync_time_with_server_def)

lemma no_sockets: "free_fds s = 0 \<Longrightarrow> result \<le> 0 \<Longrightarrow> \<exists>r \<le> 0. sync_servers localtime date nets result s = Some (r, s)"
  by (induction nets arbitrary: result) (auto simp: no_socket)

lemma no_socket_round: "free_fds s = 0 \<Longrightarrow> thread_ntp_round localtime date inp s = Some s"
  using no_sockets [of s 0 localtime date] by (fastforce simp: thread_ntp_round_def sync_time_def split: prod.splits)

lemma no_socket_run: "free_fds s = 0 \<Longrightarrow> ntp_run localtime date es s = Some (s\<lparr>sys_clock := sys_clock s + int (waited es)\<rparr>)"
  by (induction es arbitrary: s rule: waited.induct) (simp_all add: no_socket_round)

lemma time_out_server:
  "times_out net \<Longrightarrow> sys_clock s \<le> clock_limit \<Longrightarrow> sync_time_with_server localtime date net s =
    Some (if free_fds s = 0 then -1 else 0, s\<lparr>free_fds := free_fds s - 1\<rparr>)"
  by (cases s) (simp add: sync_time_with_server_def times_out_def clock_passed_def)

lemma time_out_servers:
  "\<forall>net \<in> set nets. times_out net \<Longrightarrow> sys_clock s \<le> clock_limit \<Longrightarrow> result \<le> 0 \<Longrightarrow>
    \<exists>r \<le> 0. sync_servers localtime date nets result s = Some (r, s\<lparr>free_fds := free_fds s - length nets\<rparr>)"
proof (induction nets arbitrary: s result)
  case (Cons net nets)
  obtain r where r: "r \<le> 0" "sync_time_with_server localtime date net s = Some (r, s\<lparr>free_fds := free_fds s - 1\<rparr>)"
    using time_out_server [of net s localtime date] Cons.prems by (metis le_numeral_extra(3) list.set_intros(1) neg_le_0_iff_le zero_le_one)
  show ?case using Cons.IH [of "s\<lparr>free_fds := free_fds s - 1\<rparr>" r] Cons.prems r by auto
qed simp

lemma time_out_round:
  assumes "\<forall>net \<in> set nets. times_out net" "length nets = MAX_RETRY_COUNT" "sys_clock s \<le> clock_limit"
  shows "thread_ntp_round localtime date (2, nets) s =
    Some (if timeupdatedone s = 0 then s\<lparr>free_fds := free_fds s - MAX_RETRY_COUNT\<rparr> else s)"
proof -
  obtain r where "r \<le> 0" "sync_servers localtime date nets 0 s = Some (r, s\<lparr>free_fds := free_fds s - MAX_RETRY_COUNT\<rparr>)"
    using time_out_servers [OF assms(1,3), of 0 localtime date] assms(2) by auto
  then show ?thesis using assms(2) by (simp add: thread_ntp_round_def sync_time_def)
qed

text \<open>The socket of an exchange is never closed: rounds in which the servers do not answer use up the descriptors of
  the process, and from then on the clock is never set, also when all servers answer again.\<close>

lemma ntp_leaks_sockets:
  assumes "\<forall>nets \<in> set rounds. length nets = MAX_RETRY_COUNT \<and> (\<forall>net \<in> set nets. times_out net)"
    and "sys_clock s \<le> clock_limit" "timeupdatedone s = 0" "free_fds s \<le> MAX_RETRY_COUNT * length rounds"
  shows "ntp_run localtime date (List.map (NtpRound 2) rounds @ es) s =
    Some (s\<lparr>sys_clock := sys_clock s + int (waited es), free_fds := 0\<rparr>)"
  using assms
proof (induction rounds arbitrary: s)
  case Nil
  then show ?case using no_socket_run [of s localtime date es] by (cases s) simp
next
  case (Cons nets rounds)
  have "thread_ntp_round localtime date (2, nets) s = Some (s\<lparr>free_fds := free_fds s - MAX_RETRY_COUNT\<rparr>)"
    using time_out_round [of nets s localtime date] Cons.prems by simp
  then show ?case using Cons.IH [of "s\<lparr>free_fds := free_fds s - MAX_RETRY_COUNT\<rparr>"] Cons.prems by auto
qed

lemma ntp_leaks_sockets_witness:
  "ntp_run (\<lambda>_. sample_tm) sample_date (List.map (NtpRound 2) (replicate 205 (replicate 5 sample_silent)) @ [NtpRound 2 [sample_answer], Pass 60]) sample_clock =
    Some (sample_clock\<lparr>sys_clock := sys_clock sample_clock + int (waited [NtpRound 2 [sample_answer], Pass 60]), free_fds := 0\<rparr>)"
  by (rule ntp_leaks_sockets)
    (simp_all add: sample_clock_def sample_silent_times_out clock_limit_def MAX_RETRY_COUNT_def)

text \<open>A clock that is past the limit for another reason is taken for one that a silent server has set.\<close>

lemma silent_server_ends_sync:
  assumes "clock_limit < sys_clock s" "timeupdatedone s = 0" "times_out net" "0 < free_fds s"
  shows "ntp_run localtime date (NtpRound 2 (net # nets) # es) s =
    Some (s\<lparr>sys_clock := sys_clock s + int (waited es), free_fds := free_fds s - 1, timeupdatedone := 1\<rparr>)"
  using assms done_stays [of "s\<lparr>free_fds := free_fds s - 1, timeupdatedone := 1\<rparr>" localtime date es]
  by (simp add: thread_ntp_round_def sync_time_def sync_time_with_server_def times_out_def clock_passed_def MAX_RETRY_COUNT_def)

end
