(* ===== verification/Spec2Isabelle.thy ===== *)
theory Spec2Isabelle
  imports Pipeline EventRec G711Facts UserFacts UpgradeFacts UpgradePkgFacts PlaybackFacts RecPlanFacts MotionThread Ntp
begin

text \<open>
  \<^bold>\<open>The program.\<close> The firmware of a network camera. The paths below are relative to \<^verbatim>\<open>src/source/\<close>. A capture
  process writes the encoded frames into shared memory rings (\<^verbatim>\<open>libshmav\<close>). The main engine (\<^verbatim>\<open>main_engine\<close>) reads
  them: its storage module (\<^verbatim>\<open>main_engine/storage\<close>) records them as AVI files on an SD card, keeps an index of the
  files per day, deletes the oldest files when the card is full, and follows the card's removal and insertion. The main
  loop (\<^verbatim>\<open>main_engine/main\<close>) takes the messages of the network clients, finds the handler of each in a table, and
  stores configurations, users and default values through the parameter library. An upgrade comes over the network in
  messages and is handed, as a package made by \<^verbatim>\<open>x86_tool/mkupgrade.c\<close>, to the library that writes the flash. Audio
  is coded in G.711, and the motion vectors of the encoder are searched for motion (\<^verbatim>\<open>grain_codec\<close>). The client of a cloud
  service (\<^verbatim>\<open>danale\<close>) plays recordings, follows the plan for recording and reports motion. The clock is set over the network
  (\<^verbatim>\<open>main_engine/main/src/ntp_deal.c\<close>).

  \<^bold>\<open>Theories and the code they model.\<close> A function keeps the name it has in C; a structure is a record with the
  fields of the C structure (or its bytes, where the code works on bytes); an error return is a constructor of a sum, an
  option or the returned integer itself, as the code has it.

  \<^item> \<open>Prelude\<close>: bytes, little-endian integers, block copies, C strings and their scanning functions, and the three
    interfaces \<open>cursor\<close> (something is handed out piece by piece, so the loop that drains it ends and returns all of
    it), \<open>safe_loop\<close> (a loop whose round keeps an invariant) and \<open>reclaimer\<close> (a loop that frees until nothing is left).
  \<^item> \<open>AviCommon\<close>, \<open>AviSearch\<close>: \<^verbatim>\<open>storage/src/avi_common_api.c\<close>, \<^verbatim>\<open>avi_search_api.c\<close>. The list of search results is
    the HOL list of its nodes; the index file of a day (\<open>.manu\<close>) is its bytes.
  \<^item> \<open>AviFormat\<close>, \<open>AviRec\<close>, \<open>AviRecCorrect\<close>: \<^verbatim>\<open>storage/src/grd_avi_rec_api.c\<close> and \<^verbatim>\<open>avi_typedef.h\<close>. The state is the
    recorder's file, its frame buffer and its index array; stdio is \<open>io\<close>, which may fail at any call. \<open>spec_write\<close> is
    the abstract recorder: the frames that are on the card and the frames still in memory.
  \<^item> \<open>Mmc\<close>, \<open>SdDetect\<close>: \<^verbatim>\<open>storage/src/mmc_api.c\<close>. The card is a tree of directories of files; what statfs, mount and
    the shell answer comes from the environment. The detection thread is one function per round, and \<open>SdDetect\<close> has
    the states that rounds, formatting, starts and stops can reach (an inductive step relation).
  \<^item> \<open>RecCtl\<close>, \<open>RecSession\<close>, \<open>EventRec\<close>: \<^verbatim>\<open>storage/src/record.c\<close>, \<^verbatim>\<open>storage.c\<close>. The globals of the module are the
    record of the storage state, a thread is the function of one round, run over the list of what its reads return.
  \<^item> \<open>ShmRing\<close>, \<open>ShmRingCorrect\<close>, \<open>ShmReader\<close>, \<open>ShmMoves\<close>: the ring of \<^verbatim>\<open>libshmav/shm_base_class.cpp\<close>,
    \<^verbatim>\<open>shm_write_class.cpp\<close>, \<^verbatim>\<open>shm_read_class.cpp\<close>, with the segment as an array of bytes. \<open>ring_inv\<close> relates it to the
    frames of the writer's lap and of the lap before. \<open>ShmApi\<close>, \<open>ShmStreams\<close>, \<open>ShmPromises\<close>: \<^verbatim>\<open>shm_read.cpp\<close> and
    \<^verbatim>\<open>shm_write.cpp\<close>, the ids and the maps of readers and writers. \<open>Pipeline\<close>: ring and recorder together.
  \<^item> \<open>G711\<close>, \<open>G711Tables\<close>, \<open>G711Facts\<close>: \<^verbatim>\<open>grain_codec/src/audio/g711.c\<close>.
  \<^item> \<open>Params\<close>, \<open>Users\<close>, \<open>Dispatch\<close>, \<open>DispatchSafe\<close>, \<open>UserFacts\<close>: \<^verbatim>\<open>main/src/main_msg.c\<close>, \<^verbatim>\<open>main/src/main.c\<close> and
    \<^verbatim>\<open>adapt/src/adapt_param.c\<close>. A message is its head and its buffer of bytes; the stored parameters are the state of the
    parameter library, of which \<open>param_laws\<close> states what a read returns after a write.
  \<^item> \<open>Wrapper\<close>, \<open>WrapperFacts\<close>: \<^verbatim>\<open>misc/src/wrapper.c\<close>. \<open>Upgrade\<close>, \<open>UpgradeFacts\<close>: \<^verbatim>\<open>main/src/net_upgrad.c\<close>, the
    upgrade messages of \<^verbatim>\<open>main_msg.c\<close> and \<^verbatim>\<open>x86_tool/upgrade_tool.c\<close>. \<open>UpgradePkg\<close>, \<open>UpgradePkgFacts\<close>:
    \<^verbatim>\<open>x86_tool/mkupgrade.c\<close> and \<^verbatim>\<open>inc/upgrade.h\<close>, with every answer of lseek, read and write as an argument.
  \<^item> \<open>Playback\<close>, \<open>PlaybackFacts\<close>: the playback of \<^verbatim>\<open>danale/src/testdanavideo.c\<close>, from the list of the recordings to the thread
    that sends the frames of one. \<open>RecPlan\<close>, \<open>RecPlanFacts\<close>: its plan for recording, with the thread that follows the plan,
    the thread that follows the card, and the commands that set and read the plan.
  \<^item> \<open>MotionDet\<close>, \<open>MotionData\<close>, \<open>MotionFacts\<close>, \<open>MotionThread\<close>: \<^verbatim>\<open>grain_codec/src/video/motion\<close> (\<^verbatim>\<open>motion_detection.c\<close>,
    \<^verbatim>\<open>motion.c\<close>, \<^verbatim>\<open>parsing_mv_data.c\<close>): parsing of the vectors, removal of noise, blocks and regions, the frames
    of a channel, and the rounds of the thread with the loop of \<^verbatim>\<open>testdanavideo.c\<close> that takes its events.
  \<^item> \<open>Ntp\<close>: \<^verbatim>\<open>main/src/ntp_deal.c\<close>. The exchange with a server and the rounds of the thread, over what the servers answer.

  \<^bold>\<open>What the properties show.\<close>

  \<^item> From the ring to the card and to the player: what is written to the ring is read unchanged and in order by a reader
    that keeps up (C5 to C7), the file of a recording is exactly the image of the frames that the buffer of the recorder takes
    (C1, C3, C4), and the playback of the file sends these (C2, C10). The abstract recorder is refined by the C code on every
    branch without a fault of stdio (C11). Streams do not disturb each other (C29).
  \<^item> The storage module in all its reachable states: no undefined behaviour of the recording thread as long as the card
    works, the invariant of the globals, the card taken out and put back (C12, C13, C22, C23), deletion of the oldest files,
    which ends (C24, C27), and the index file of a day (C28). Behind them stand the lemmas on each branch of each operation.
  \<^item> Messages: any sequence of messages with a channel below 256 keeps the table of users in its form and stays inside
    the message; a login succeeds exactly for a stored pair of name and password, with the one exception of C39; what
    was added logs in (C15 to C17).
  \<^item> Motion: the number of frames of the training, the decision for each region, the distance of two alarms (C8, C18, C19).
    The plan for recording: it starts the recording, it is stored and read back unchanged, and the test of the time is that of
    a cyclic interval (C9, C20, C21). The clock is set by the first server that answers (C14).
  \<^item> Upgrade: a complete transfer starts the upgrade with the bytes sent (C25); a package can be read back (C26).
  \<^item> Leaf routines against reference definitions: the G.711 tables against the formula they replace, and the distortion of
    a sample (C37, C38); addresses, numbers, copies and the list of search results in lemmas of the library.
  \<^item> Where the code does not do what it means to, the property states what it does (C30 to C36, C39, C40): each is a
    behaviour of the code on inputs that can occur, with a witness. Further ones are lemmas of the library
    (\<open>failing_card_overflows_index\<close>, \<open>foreign_dir_blocks_cleaning\<close>, \<open>full_disk_package\<close>, \<open>ntp_leaks_sockets\<close>,
    \<open>silent_server_ends_sync\<close> and others).

  \<^bold>\<open>Parameters and their hypotheses.\<close> stdio, the card and the calendar functions of the C library are arguments: the
  records \<open>io\<close> (with the clock \<open>utc\<close>), \<open>env\<close> and the functions for the time. A fault is a value of theirs, so the lemmas without \<open>no_faults\<close> hold
  for every fault. The parameter library is a pair of functions with the law that a read after a write returns what was
  written and other keys are kept; the witnesses use a map. The handlers that are not modelled are a function of the
  dispatch, of which the properties assume nothing but that it does not write the table of users. The library that
  writes the flash is the list of its answers. The answers of the system to the tool that makes packages (\<open>io_full\<close>: none
  fails or is short) and those of the time servers are arguments; of \<^verbatim>\<open>date\<close> and \<^verbatim>\<open>localtime\<close> it is assumed that the command
  with the broken-down time of a second sets the clock to that second.

  \<^bold>\<open>Bounds and fuel.\<close> Integers have their C width as words wherever they can wrap: time stamps in 32 and 64 bits,
  sequence numbers, positions in the ring, channel numbers, samples. Loops over lists are structural. A loop that runs
  until its source is exhausted takes fuel: the length of the data (plus one) for the copies of \<open>Wrapper\<close> and
  \<open>UpgradePkg\<close>, as each round lowers what is left by a byte at least; the number of entries for the deletion of the oldest files, which
  \<open>reclaimer\<close> shows to be enough; \<open>cursor\<close> shows the same for the walks through lists and rings. The key
  frame search of the ring can run for ever: its result says whether the fuel was used up, and C30 shows when it is for
  every fuel. Which frames the buffer of the recorder takes is the recursion \<open>taken_from\<close>.

  \<^bold>\<open>Concurrency.\<close> Threads are step relations over the shared globals: one step is one round of a thread, or one call of
  an operation. The methods of the ring hold a semaphore for their whole body, so each is one step.

  \<^bold>\<open>Not modelled.\<close> The web server with its SSL library, the OpenSSL headers and the second cloud client are vendored or
  not built. Of the first cloud client (\<^verbatim>\<open>danale\<close>) the live streams and the callbacks that only convert settings for its closed
  library are left out. Video and audio capture drive the
  encoder through a vendor library; network configuration is shell commands and ioctl calls; \<^verbatim>\<open>http_upgrade.c\<close> is calls
  of curl. The repair of unfinished recordings is compiled out. Of the modelled files the printing, the sleeping and the
  creation of threads are left out, and the functions that wrap a single POSIX call.
\<close>

section \<open>Properties that span components\<close>

text \<open>Two small frames captured into a small ring whose reader has read all before them.\<close>

definition sample_f0 :: "byte list \<times> byte list" where "sample_f0 = ([9, 9], sample_extras 1)"
definition sample_f1 :: "byte list \<times> byte list" where "sample_f1 = ([8], sample_extras 0)"

lemma sample_captured:
  "key_frame_flag (snd sample_f0)"
  "\<forall>f \<in> set [sample_f0, sample_f1]. within_file (ullTimeStamp (snd sample_f0)) 15 (video_round f)"
  "ullTimeStamp (snd sample_f0) = 0"
  "List.map (\<lambda>f. video_to_frame (ring_frame f) 0) [sample_f0, sample_f1] = [mkframe [9, 9] 1 0 0, mkframe [8] 0 0 0]"
proof -
  show flag: "key_frame_flag (snd sample_f0)"
    by (simp add: sample_f0_def key_frame_flag_def sample_extras_def nth_append SHM_ENUM_VIDEO_FRAME_TYPE_KEY_def)
  have flag1: "\<not> key_frame_flag (snd sample_f1)"
    by (simp add: sample_f1_def key_frame_flag_def sample_extras_def nth_append SHM_ENUM_VIDEO_FRAME_TYPE_KEY_def)
  show ts: "ullTimeStamp (snd sample_f0) = 0"
    by (simp add: sample_f0_def ullTimeStamp_def sample_extras_def slice_def numeral_eq_Suc)
  show "\<forall>f \<in> set [sample_f0, sample_f1]. within_file (ullTimeStamp (snd sample_f0)) 15 (video_round f)"
    using flag flag1 ts by (simp add: within_file_def video_round_def ring_frame_def)
  show "List.map (\<lambda>f. video_to_frame (ring_frame f) 0) [sample_f0, sample_f1] = [mkframe [9, 9] 1 0 0, mkframe [8] 0 0 0]"
    using flag flag1 by (simp add: video_to_frame_def ring_frame_def) (simp add: sample_f0_def sample_f1_def)
qed

lemma sample_capture:
  "\<exists>segs pool w peer. stream_ok SHM_ENUM_MEDIA_TYPE_VIDEO 1 segs pool w (sample_old 1) sample_cur \<and>
    peer_at SHM_ENUM_MEDIA_TYPE_VIDEO 1 0 peer w (sample_old 1 @ sample_cur) (length (sample_old 1 @ sample_cur)) \<and>
    (\<forall>f \<in> set [sample_f0, sample_f1]. frame_fits w f) \<and> unat (m_uiFrameSeq w) + length [sample_f0, sample_f1] < 2 ^ 32 - 2 \<and>
    iMaxFrameSize (m_pcShm w) \<le> int MAX_FRAME"
proof -
  obtain w where w: "stream_ok SHM_ENUM_MEDIA_TYPE_VIDEO 1 (sample_segs w) (sample_pool w) w (sample_old 1) sample_cur"
    "iMaxFrameSize (m_pcShm w) = 48" "m_uiFrameSeq w = 4"
    using sample_stream [of 1] by blast
  have inv: "ring_inv w (sample_old 1) sample_cur" using w(1) by (simp add: stream_ok_def)
  have e: "reader_at w (sample_old 1 @ sample_cur) (length (sample_old 1 @ sample_cur)) (m_uiFramePos w, 5)"
    using ring_invD(3,4) [OF inv] w(3) by (simp add: reader_at_def Let_def)
  have "\<forall>f \<in> set [sample_f0, sample_f1]. frame_fits w f"
    using w(2) by (simp add: frame_fits_def sample_f0_def sample_f1_def sample_extras_def)
  then show ?thesis using w sample_reader [OF e] by (fastforce simp: MAX_FRAME_def)
qed

text \<open>The room that a captured frame takes in the buffer of the recorder, and those of a run that the buffer takes.\<close>

definition captured_size :: "byte list \<times> byte list \<Rightarrow> nat" where
  "captured_size f = 24 + length (fst f) + length (fst f) mod 2"

definition captured_taken :: "(byte list \<times> byte list) list \<Rightarrow> (byte list \<times> byte list) list" where
  "captured_taken fs = taken_from captured_size 0 0 fs"

lemma captured_frames:
  "frames_taken (List.map (\<lambda>f. video_to_frame (ring_frame f) junk) fs) = List.map (\<lambda>f. video_to_frame (ring_frame f) junk) (captured_taken fs)"
proof -
  have "length (chunk (video_to_frame (ring_frame f) junk)) = captured_size f" for f
    by (simp add: length_chunk padded_length_def captured_size_def video_to_frame_def ring_frame_def)
  then show ?thesis unfolding frames_taken_def captured_taken_def taken_map by simp
qed

lemma sample_never_full: "never_full captured_size [sample_f0, sample_f1]"
  by (rule never_full_small) (simp add: captured_size_def sample_f0_def sample_f1_def REC_BUF_SIZE_def)

lemma sample_taken: "captured_taken [sample_f0, sample_f1] = [sample_f0, sample_f1]"
  unfolding captured_taken_def by (rule taken_all [OF sample_never_full])

text \<open>C1: From the capture to the file: frames written to the ring of a video stream while the recording thread keeps up
  with them come out of the ring unchanged and in order, and for any run that starts with a key frame and stays within one
  file, on a card that works, the file the thread leaves is exactly the image of those frames that its buffer takes: a frame
  that finds no room in the 512 KB is lost, and none is when no 100 frames in a row are larger than the buffer.\<close>

theorem capture_to_file:
  assumes "stream_ok SHM_ENUM_MEDIA_TYPE_VIDEO profile segs pool w prev_lap this_lap"
    and "peer_at SHM_ENUM_MEDIA_TYPE_VIDEO profile iID peer w (prev_lap @ this_lap) (length (prev_lap @ this_lap))"
    and "\<forall>f \<in> set (f0 # fs). frame_fits w f" "unat (m_uiFrameSeq w) + length (f0 # fs) < 2 ^ 32 - 2"
    and "iMaxFrameSize (m_pcShm w) \<le> int MAX_FRAME"
    and "no_faults io" "\<not> g_sd_tats env < 0" "0 < record_switch_time mg"
    and "key_frame_flag (snd f0)"
      "\<forall>f \<in> set (f0 # fs). within_file (ullTimeStamp (snd f0)) (record_switch_time mg) (video_round f)"
  shows "(\<exists>xs t h. relay SHM_ENUM_MEDIA_TYPE_VIDEO profile iID (int MAX_FRAME) (f0 # fs) segs pool peer = Some xs \<and>
      normal_record_thread ex ptm mg junk env io rw (List.map video_round xs) = Some t \<and>
      fdata (af_file (avi_handle t)) = recording_image h
        (List.map (\<lambda>f. video_to_frame (ring_frame f) junk) (captured_taken (f0 # fs)))
        (timeval_diff_ms (ucast (ullTimeStamp (snd f0))) junk) (g_a_bits (nt_env t))) \<and>
    (never_full captured_size (f0 # fs) \<longrightarrow> captured_taken (f0 # fs) = f0 # fs)"
proof -
  let ?inps = "List.map video_round (f0 # fs)"
  have relay: "relay SHM_ENUM_MEDIA_TYPE_VIDEO profile iID (int MAX_FRAME) (f0 # fs) segs pool peer = Some (f0 # fs)"
    by (rule relay_all [OF assms(1-5)])
  have ok: "\<forall>inp \<in> set ?inps. frames_small inp \<and> within_file (vf_ts (ring_frame f0)) (record_switch_time mg) inp"
    using assms(3,10) video_round_small [OF _ assms(5)] by (auto simp: ring_frame_def)
  have v: "vf_key (ring_frame f0)" using assms(9) by (simp add: ring_frame_def)
  have i: "?inps = (Some (ring_frame f0), []) # List.map video_round fs" by (simp add: video_round_def)
  show ?thesis
    using relay taken_all thread_image [OF assms(6-8) v, of "[]" "List.map video_round fs", folded i, OF ok video_session, where ex = ex and ptm = ptm,
        unfolded rs_all_run captured_frames]
    by (force simp: ring_frame_def captured_taken_def)
qed

lemma capture_to_file_witness:
  "\<exists>segs pool peer xs t h. relay SHM_ENUM_MEDIA_TYPE_VIDEO 1 0 (int MAX_FRAME) [sample_f0, sample_f1] segs pool peer = Some xs \<and>
    normal_record_thread (\<lambda>_. True) \<lparr>tm_year = 115, tm_mon = 0, tm_mday = 27, tm_hour = 1, tm_min = 2, tm_sec = 3\<rparr>
      \<lparr>rm_record_type = 1, record_switch_time = 15, record_ctl_flag = 0\<rparr> 0 zero_env good_io sample_work
      (List.map video_round xs) = Some t \<and>
    fdata (af_file (avi_handle t)) = recording_image h
      [mkframe [9, 9] 1 0 0, mkframe [8] 0 0 0] 0 (g_a_bits (nt_env t))"
proof -
  obtain segs pool w peer where w:
    "stream_ok SHM_ENUM_MEDIA_TYPE_VIDEO 1 segs pool w (sample_old 1) sample_cur"
    "peer_at SHM_ENUM_MEDIA_TYPE_VIDEO 1 0 peer w (sample_old 1 @ sample_cur) (length (sample_old 1 @ sample_cur))"
    "\<forall>f \<in> set [sample_f0, sample_f1]. frame_fits w f" "unat (m_uiFrameSeq w) + length [sample_f0, sample_f1] < 2 ^ 32 - 2"
    "iMaxFrameSize (m_pcShm w) \<le> int MAX_FRAME"
    using sample_capture by blast
  have run: "(\<exists>xs t h. relay SHM_ENUM_MEDIA_TYPE_VIDEO 1 0 (int MAX_FRAME) [sample_f0, sample_f1] segs pool peer = Some xs \<and>
    normal_record_thread (\<lambda>_. True) \<lparr>tm_year = 115, tm_mon = 0, tm_mday = 27, tm_hour = 1, tm_min = 2, tm_sec = 3\<rparr>
      \<lparr>rm_record_type = 1, record_switch_time = 15, record_ctl_flag = 0\<rparr> 0 zero_env good_io sample_work
      (List.map video_round xs) = Some t \<and>
    fdata (af_file (avi_handle t)) = recording_image h
      (List.map (\<lambda>f. video_to_frame (ring_frame f) 0) (captured_taken [sample_f0, sample_f1]))
      (timeval_diff_ms (ucast (ullTimeStamp (snd sample_f0))) 0) (g_a_bits (nt_env t))) \<and>
    (never_full captured_size [sample_f0, sample_f1] \<longrightarrow> captured_taken [sample_f0, sample_f1] = [sample_f0, sample_f1])"
    by (rule capture_to_file [OF w]) (use sample_captured in \<open>simp_all add: zero_env_def\<close>)
  have dt: "timeval_diff_ms (ucast (ullTimeStamp (snd sample_f0))) 0 = 0" by (simp add: sample_captured timeval_diff_ms_def)
  show ?thesis using conjunct1 [OF run] unfolding mp [OF conjunct2 [OF run] sample_never_full] sample_captured(4) dt by blast
qed

section \<open>From the capture to the playback\<close>

text \<open>What a client of the playback gets of a video frame that was captured.\<close>

definition video_packet :: "byte list \<times> byte list \<Rightarrow> dana_packet" where
  "video_packet f = \<lparr>pk_stream = VideoStream, pk_key = (if key_frame_flag (snd f) then 1 else 0),
     pk_data = fst f @ replicate (length (fst f) mod 2) 0\<rparr>"

lemma video_frame_packet: "frame_packet key (video_to_frame (ring_frame f) t) = video_packet f"
  by (simp add: frame_packet_def video_packet_def frame_key_def video_to_frame_def ring_frame_def is_video_def)

lemma video_packets: "play_packets key (List.map (\<lambda>f. video_to_frame (ring_frame f) t) fs) = List.map video_packet fs"
  by (induction fs arbitrary: key) (simp_all add: video_frame_packet)

lemma video_run_plays:
  assumes "img = recording_image h (List.map (\<lambda>f. video_to_frame (ring_frame f) t) fs) dur bits" "length img < 2 ^ 31"
    and "key_first (List.map (\<lambda>f. video_to_frame (ring_frame f) t) fs)" "frames_fit (List.map (\<lambda>f. video_to_frame (ring_frame f) t) fs)"
    and "\<forall>k. malloc_ok k" "files (ev_file_name ev) = Some img" "length (filter Not pauses) \<le> length fs"
  shows "th_history_media malloc_ok mem files tv key ev pauses None =
    Some (List.map video_packet (take (length (filter Not pauses)) fs), None)"
proof -
  let ?fs = "List.map (\<lambda>f. video_to_frame (ring_frame f) t) fs"
  obtain p where p: "playing img ?fs 0 \<lparr>ps_handle = p, ps_key = key, ps_sent = [], ps_running = True\<rparr>"
    "th_history_media malloc_ok mem files tv key ev pauses None =
      map_option (\<lambda>s. (ps_sent s, None)) (playback_rounds pauses \<lparr>ps_handle = p, ps_key = key, ps_sent = [], ps_running = True\<rparr>)"
    using thread_plays [OF assms(1-3,5), of files ev] assms(6) by blast
  show ?thesis
    using rounds_send [OF assms(1,2,4) p(1), of pauses] p(2) assms(7) by (auto simp: take_map video_packets)
qed

text \<open>C2: From the capture to the playback: of a run of frames that starts with a key frame and stays within one file, on a
  card that works, the client that plays the file gets those frames that the buffer of the recorder takes, one for each
  round that is not paused, in order and each with its key flag and its bytes, followed by one zero byte when their number is
  odd, whatever time it asks for. The first frame is among them, and all are when no 100 frames in a row are larger than the
  buffer.\<close>

theorem capture_to_playback:
  assumes "stream_ok SHM_ENUM_MEDIA_TYPE_VIDEO profile segs pool w prev_lap this_lap"
    and "peer_at SHM_ENUM_MEDIA_TYPE_VIDEO profile iID peer w (prev_lap @ this_lap) (length (prev_lap @ this_lap))"
    and "\<forall>f \<in> set (f0 # fs). frame_fits w f" "unat (m_uiFrameSeq w) + length (f0 # fs) < 2 ^ 32 - 2"
    and "iMaxFrameSize (m_pcShm w) \<le> int MAX_FRAME"
    and "no_faults io" "\<not> g_sd_tats env < 0" "0 < record_switch_time mg"
    and "key_frame_flag (snd f0)"
      "\<forall>f \<in> set (f0 # fs). within_file (ullTimeStamp (snd f0)) (record_switch_time mg) (video_round f)"
    and "sizeof_AviHeader + length (chunks (List.map (\<lambda>f. video_to_frame (ring_frame f) junk) (f0 # fs))) + 8 +
      16 * length (f0 # fs) < 2 ^ 31"
    and "\<forall>k. malloc_ok k"
  shows "(\<exists>xs t. relay SHM_ENUM_MEDIA_TYPE_VIDEO profile iID (int MAX_FRAME) (f0 # fs) segs pool peer = Some xs \<and>
      normal_record_thread ex ptm mg junk env io rw (List.map video_round xs) = Some t \<and>
      (\<forall>files ev pauses. files (ev_file_name ev) = Some (fdata (af_file (avi_handle t))) \<longrightarrow>
        length (filter Not pauses) \<le> length (captured_taken (f0 # fs)) \<longrightarrow>
        th_history_media malloc_ok mem files tv key ev pauses None =
          Some (List.map video_packet (take (length (filter Not pauses)) (captured_taken (f0 # fs))), None))) \<and>
    (\<exists>gs. captured_taken (f0 # fs) = f0 # gs) \<and>
    (never_full captured_size (f0 # fs) \<longrightarrow> captured_taken (f0 # fs) = f0 # fs)"
proof -
  let ?inps = "List.map video_round (f0 # fs)" and ?fr = "\<lambda>f. video_to_frame (ring_frame f) junk"
  have relay: "relay SHM_ENUM_MEDIA_TYPE_VIDEO profile iID (int MAX_FRAME) (f0 # fs) segs pool peer = Some (f0 # fs)"
    by (rule relay_all [OF assms(1-5)])
  have small: "\<forall>f \<in> set (f0 # fs). frames_small (video_round f)"
    using assms(3) video_round_small [OF _ assms(5)] by auto
  have ok: "\<forall>inp \<in> set ?inps. frames_small inp \<and> within_file (vf_ts (ring_frame f0)) (record_switch_time mg) inp"
    using small assms(10) by (auto simp: ring_frame_def)
  have v: "vf_key (ring_frame f0)" using assms(9) by (simp add: ring_frame_def)
  have i: "?inps = (Some (ring_frame f0), []) # List.map video_round fs" by (simp add: video_round_def)
  obtain t h where t: "normal_record_thread ex ptm mg junk env io rw ?inps = Some t"
    "fdata (af_file (avi_handle t)) = recording_image h (List.map ?fr (captured_taken (f0 # fs)))
      (timeval_diff_ms (ucast (ullTimeStamp (snd f0))) junk) (g_a_bits (nt_env t))"
    using thread_image [OF assms(6-8) v, of "[]" "List.map video_round fs", folded i, OF ok video_session, where ex = ex and ptm = ptm,
        unfolded rs_all_run captured_frames]
    by (force simp: ring_frame_def)
  have short: "padded_length (fr_data (?fr f)) \<le> MEDIA_FRAME_SIZE" if "f \<in> set (f0 # fs)" for f
    using small that by (auto simp: frames_small_def video_round_def video_to_frame_def padded_length_def MAX_FRAME_def MEDIA_FRAME_SIZE_def)
  have f0: "frame_ok (?fr f0)" "fr_intra (?fr f0) = 1 \<or> fr_intra (?fr f0) = 3"
    using short [of f0] v by (simp_all add: frame_ok_def kind_ok_def is_video_def length_chunk video_to_frame_def
        MEDIA_FRAME_SIZE_def REC_BUF_SIZE_def)
  obtain gs where gs: "frames_taken (List.map ?fr (f0 # fs)) = ?fr f0 # gs" "key_first (?fr f0 # gs)" "frames_fit (?fr f0 # gs)"
    "\<forall>h dur bits. length (recording_image h (?fr f0 # gs) dur bits) < 2 ^ 31"
  proof (rule kept_frames [OF f0, of "List.map ?fr fs"])
    show "\<forall>g \<in> set (?fr f0 # List.map ?fr fs). padded_length (fr_data g) \<le> MEDIA_FRAME_SIZE" using short by auto
  qed (use assms(11) in simp_all)
  note all = gs(1) [unfolded captured_frames, symmetric]
  have "length (fdata (af_file (avi_handle t))) < 2 ^ 31" unfolding t(2) all [symmetric] using gs(4) by blast
  note plays = video_run_plays [OF t(2) this gs(2,3) [unfolded all] assms(12)]
  have first: "\<exists>gs. captured_taken (f0 # fs) = f0 # gs"
    using short [of f0] by (simp add: captured_taken_def captured_size_def padded_length_def video_to_frame_def ring_frame_def
        MEDIA_FRAME_SIZE_def REC_BUF_SIZE_def DATA_SAVE_NUM_def)
  show ?thesis
    using relay t(1) plays first taken_all [of captured_size "f0 # fs"] unfolding captured_taken_def by blast
qed

lemma capture_to_playback_witness:
  "\<exists>segs pool peer xs t. relay SHM_ENUM_MEDIA_TYPE_VIDEO 1 0 (int MAX_FRAME) [sample_f0, sample_f1] segs pool peer = Some xs \<and>
    normal_record_thread (\<lambda>_. True) \<lparr>tm_year = 115, tm_mon = 0, tm_mday = 27, tm_hour = 1, tm_min = 2, tm_sec = 3\<rparr>
      \<lparr>rm_record_type = 1, record_switch_time = 15, record_ctl_flag = 0\<rparr> 0 zero_env good_io sample_work
      (List.map video_round xs) = Some t \<and>
    th_history_media (\<lambda>_. True) (\<lambda>_. 7) [''a'' \<mapsto> fdata (af_file (avi_handle t))] (5, 6) 9 sample_event [False, True, False] None =
      Some ([\<lparr>pk_stream = VideoStream, pk_key = 1, pk_data = [9, 9]\<rparr>, \<lparr>pk_stream = VideoStream, pk_key = 0, pk_data = [8, 0]\<rparr>], None)"
proof -
  obtain segs pool w peer where w:
    "stream_ok SHM_ENUM_MEDIA_TYPE_VIDEO 1 segs pool w (sample_old 1) sample_cur"
    "peer_at SHM_ENUM_MEDIA_TYPE_VIDEO 1 0 peer w (sample_old 1 @ sample_cur) (length (sample_old 1 @ sample_cur))"
    "\<forall>f \<in> set [sample_f0, sample_f1]. frame_fits w f" "unat (m_uiFrameSeq w) + length [sample_f0, sample_f1] < 2 ^ 32 - 2"
    "iMaxFrameSize (m_pcShm w) \<le> int MAX_FRAME"
    using sample_capture by blast
  have size: "sizeof_AviHeader + length (chunks (List.map (\<lambda>f. video_to_frame (ring_frame f) 0) [sample_f0, sample_f1])) + 8 +
      16 * length [sample_f0, sample_f1] < 2 ^ 31"
    unfolding sample_captured(4) by (simp add: chunks_def length_chunk padded_length_def sizeof_AviHeader_def)
  have run: "(\<exists>xs t. relay SHM_ENUM_MEDIA_TYPE_VIDEO 1 0 (int MAX_FRAME) [sample_f0, sample_f1] segs pool peer = Some xs \<and>
    normal_record_thread (\<lambda>_. True) \<lparr>tm_year = 115, tm_mon = 0, tm_mday = 27, tm_hour = 1, tm_min = 2, tm_sec = 3\<rparr>
      \<lparr>rm_record_type = 1, record_switch_time = 15, record_ctl_flag = 0\<rparr> 0 zero_env good_io sample_work
      (List.map video_round xs) = Some t \<and>
    (\<forall>files ev pauses. files (ev_file_name ev) = Some (fdata (af_file (avi_handle t))) \<longrightarrow>
      length (filter Not pauses) \<le> length (captured_taken [sample_f0, sample_f1]) \<longrightarrow>
      th_history_media (\<lambda>_. True) (\<lambda>_. 7) files (5, 6) 9 ev pauses None =
        Some (List.map video_packet (take (length (filter Not pauses)) (captured_taken [sample_f0, sample_f1])), None))) \<and>
    (\<exists>gs. captured_taken [sample_f0, sample_f1] = sample_f0 # gs) \<and>
    (never_full captured_size [sample_f0, sample_f1] \<longrightarrow> captured_taken [sample_f0, sample_f1] = [sample_f0, sample_f1])"
    by (rule capture_to_playback [OF w _ _ _ _ _ size]) (use sample_captured in \<open>simp_all add: zero_env_def\<close>)
  have pk: "List.map video_packet [sample_f0, sample_f1] =
      [\<lparr>pk_stream = VideoStream, pk_key = 1, pk_data = [9, 9]\<rparr>, \<lparr>pk_stream = VideoStream, pk_key = 0, pk_data = [8, 0]\<rparr>]"
    by (simp add: video_packet_def sample_f0_def sample_f1_def key_frame_flag_def sample_extras_def nth_append
        SHM_ENUM_VIDEO_FRAME_TYPE_KEY_def)
  have at: "[''a'' \<mapsto> d] (ev_file_name sample_event) = Some d" for d :: "byte list" by (simp add: sample_event_def)
  have n: "length (filter Not [False, True, False]) = 2" by simp
  obtain xs t where r: "relay SHM_ENUM_MEDIA_TYPE_VIDEO 1 0 (int MAX_FRAME) [sample_f0, sample_f1] segs pool peer = Some xs"
    "normal_record_thread (\<lambda>_. True) \<lparr>tm_year = 115, tm_mon = 0, tm_mday = 27, tm_hour = 1, tm_min = 2, tm_sec = 3\<rparr>
      \<lparr>rm_record_type = 1, record_switch_time = 15, record_ctl_flag = 0\<rparr> 0 zero_env good_io sample_work
      (List.map video_round xs) = Some t"
    "th_history_media (\<lambda>_. True) (\<lambda>_. 7) [''a'' \<mapsto> fdata (af_file (avi_handle t))] (5, 6) 9 sample_event [False, True, False] None =
      Some (List.map video_packet (take 2 [sample_f0, sample_f1]), None)"
    using conjunct1 [OF run] at unfolding sample_taken by (metis n length_Cons list.size(3) numeral_2_eq_2 order_refl)
  have t2: "take 2 [sample_f0, sample_f1] = [sample_f0, sample_f1]" by simp
  show ?thesis using r unfolding t2 pk by blast
qed

text \<open>C13: In every state the storage module can reach in which a normal recording has been asked for, the recording
  thread runs without undefined behaviour on whatever small frames the rings deliver, and clears its status, as long as the
  card works: no call of stdio fails while the thread runs, and the recorder sees the card. (On a card that fails the index
  array overflows.)\<close>

theorem reachable_recording_safe:
  assumes "sd_reachable s" "NormalThread \<in> set (threads (ctl s))"
    and "no_faults io" "\<not> g_sd_tats env < 0" "\<forall>inp \<in> set inps. frames_small inp"
  shows "\<exists>t. normal_record_thread ex ptm (manage (ctl s)) junk env io (work (ctl s)) inps = Some t \<and>
    g_normal_status (nt_work t) = 0 \<and> \<not> start_flag t"
proof -
  have "0 < record_switch_time (manage (ctl s))"
    using sd_inv_reachable [OF assms(1)] assms(2) by (simp add: sd_inv_def ctl_ok_def)
  then show ?thesis using thread_safe [OF assms(3,4) _ assms(5)] by blast
qed

lemma reachable_recording_safe_witness:
  "\<exists>t. normal_record_thread (\<lambda>_. True) \<lparr>tm_year = 115, tm_mon = 0, tm_mday = 27, tm_hour = 1, tm_min = 2, tm_sec = 3\<rparr>
      (manage (ctl sample_start)) 0 zero_env good_io (work (ctl sample_start))
      [(Some \<lparr>vf_data = [1, 2], vf_key = True, vf_ts = 5000\<rparr>, [([3], 5000)])] = Some t \<and>
    g_normal_status (nt_work t) = 0 \<and> \<not> start_flag t"
proof (rule reachable_recording_safe)
  have "sd_step (sd_init True sample_card) sample_start"
    using sd_step.start [of "sd_init True sample_card" True 1 5] by (simp add: sample_start_def sd_init_def)
  then show "sd_reachable sample_start" using sd_reachable.init sd_reachable.step by blast
  show "NormalThread \<in> set (threads (ctl sample_start))"
    by (simp add: sample_start_def sd_init_def st_record_start_def get_sd_stats_def start_normal_record_stream_def Let_def)
qed (simp_all add: zero_env_def frames_small_def audio_small_def MAX_FRAME_def)

end
